(* ===== verification/Prelude.thy ===== *)
theory Prelude
  imports Complex_Main
begin

text \<open>
  The vocabulary the components share.

  Dollar figures, durations and multiples are Python floats in the code; they are modelled as
  exact rationals, so every formula is the one the code writes and only the binary
  representation error of a float is abstracted. \<open>round(x, 3)\<close> is Python's rounding to the
  nearest multiple of 0.001 with ties to the even neighbour. A Python value that may be
  \<open>None\<close> is an \<open>option\<close>; the idiom \<open>x if (x and x > 0) else None\<close> is \<open>pos_opt\<close>.
\<close>

type_synonym price = rat
type_synonym secs = rat
type_synonym hours = rat

named_theorems rails \<open>definitions of the price rails, unfolded together\<close>

section \<open>Optional values\<close>

definition pos_opt :: "rat option \<Rightarrow> rat option" where
  "pos_opt x = (case x of None \<Rightarrow> None | Some d \<Rightarrow> if 0 < d then Some d else None)"

definition dflt :: "'a \<Rightarrow> 'a option \<Rightarrow> 'a" where
  "dflt d x = (case x of None \<Rightarrow> d | Some v \<Rightarrow> v)"

definition clamp_opt :: "price \<Rightarrow> price option \<Rightarrow> price" where
  "clamp_opt t c = (case c of None \<Rightarrow> t | Some x \<Rightarrow> min t x)"

lemma pos_opt_simps [simp]:
  "pos_opt None = None"
  "0 < d \<Longrightarrow> pos_opt (Some d) = Some d"
  "d \<le> 0 \<Longrightarrow> pos_opt (Some d) = None"
  by (simp_all add: pos_opt_def)

lemma pos_opt_eq_Some [simp]: "pos_opt x = Some d \<longleftrightarrow> x = Some d \<and> 0 < d"
  by (auto simp: pos_opt_def split: option.splits if_splits)

lemma pos_opt_idem [simp]: "pos_opt (pos_opt x) = pos_opt x"
  by (auto simp: pos_opt_def split: option.splits)

lemma pos_opt_cases [case_names none some]:
  assumes "pos_opt x = None \<Longrightarrow> P"
    and "\<And>d. x = Some d \<Longrightarrow> 0 < d \<Longrightarrow> pos_opt x = Some d \<Longrightarrow> P"
  shows P
  using assms by (cases "pos_opt x") auto

lemma dflt_simps [simp]: "dflt d None = d" "dflt d (Some v) = v"
  by (simp_all add: dflt_def)

lemma clamp_opt_simps [simp]: "clamp_opt t None = t" "clamp_opt t (Some x) = min t x"
  by (simp_all add: clamp_opt_def)

lemma clamp_opt_le: "clamp_opt t c \<le> t"
  by (cases c) auto

lemma clamp_opt_le_cap: "c = Some x \<Longrightarrow> clamp_opt t c \<le> x"
  by simp

section \<open>Decimal rounding\<close>

definition round_he :: "rat \<Rightarrow> int" where
  "round_he x =
     (let f = \<lfloor>x\<rfloor>; d = x - of_int f
      in if d < 1/2 then f else if 1/2 < d then f + 1 else if even f then f else f + 1)"

definition round_dp :: "nat \<Rightarrow> rat \<Rightarrow> rat" where
  "round_dp n x = of_int (round_he (x * 10 ^ n)) / 10 ^ n"

abbreviation round3 :: "rat \<Rightarrow> rat" where
  "round3 \<equiv> round_dp 3"

abbreviation round4 :: "rat \<Rightarrow> rat" where
  "round4 \<equiv> round_dp 4"

definition ceil3 :: "rat \<Rightarrow> rat" where
  "ceil3 x = of_int \<lceil>x * 1000 - 1 / 10 ^ 9\<rceil> / 1000"

text \<open>The \$0.001 price grid.\<close>

definition on_grid :: "rat \<Rightarrow> bool" where
  "on_grid x \<longleftrightarrow> x * 1000 = of_int \<lfloor>x * 1000\<rfloor>"

lemma round_he_bounds: "of_int (round_he x) \<le> x + 1/2" "x - 1/2 \<le> of_int (round_he x)"
proof -
  have f: "of_int \<lfloor>x\<rfloor> \<le> x" "x < of_int \<lfloor>x\<rfloor> + 1"
    using floor_correct [of x] by simp_all
  show "of_int (round_he x) \<le> x + 1/2" "x - 1/2 \<le> of_int (round_he x)"
    unfolding round_he_def Let_def using f by (simp_all split: if_splits, linarith+)
qed

lemma round_he_of_int [simp]: "round_he (of_int k) = k"
  by (simp add: round_he_def)

lemma round_he_mono: "x \<le> y \<Longrightarrow> round_he x \<le> round_he y"
proof -
  assume xy: "x \<le> y"
  then have fm: "\<lfloor>x\<rfloor> \<le> \<lfloor>y\<rfloor>" by (rule floor_mono)
  show "round_he x \<le> round_he y"
  proof (cases "\<lfloor>x\<rfloor> = \<lfloor>y\<rfloor>")
    case True
    with xy show ?thesis by (auto simp: round_he_def Let_def)
  next
    case False
    with fm have "\<lfloor>x\<rfloor> + 1 \<le> \<lfloor>y\<rfloor>" by linarith
    moreover have "round_he x \<le> \<lfloor>x\<rfloor> + 1" by (auto simp: round_he_def Let_def)
    moreover have "\<lfloor>y\<rfloor> \<le> round_he y" by (auto simp: round_he_def Let_def)
    ultimately show ?thesis by linarith
  qed
qed

lemma round3_mono: "x \<le> y \<Longrightarrow> round3 x \<le> round3 y"
  by (simp add: round_dp_def divide_right_mono round_he_mono)

lemma round3_le_add: "round3 x \<le> x + 1/2000"
  using round_he_bounds(1) [of "x * 1000"] by (simp add: round_dp_def field_simps)

lemma round3_ge_sub: "x - 1/2000 \<le> round3 x"
  using round_he_bounds(2) [of "x * 1000"] by (simp add: round_dp_def field_simps)

lemma round3_zero [simp]: "round3 0 = 0"
  using round_he_of_int [of 0] by (simp add: round_dp_def)

lemma round3_nonneg: "0 \<le> x \<Longrightarrow> 0 \<le> round3 x"
  using round3_mono [of 0 x] by simp

lemma on_gridI: "x = of_int k / 1000 \<Longrightarrow> on_grid x"
  by (simp add: on_grid_def)

lemma on_gridE:
  assumes "on_grid x"
  obtains k where "x = of_int k / 1000"
proof
  show "x = of_int \<lfloor>x * 1000\<rfloor> / 1000" using assms by (simp add: on_grid_def)
qed

lemma on_grid_round3 [simp]: "on_grid (round3 x)"
  by (rule on_gridI) (simp add: round_dp_def)

lemma on_grid_ceil3 [simp]: "on_grid (ceil3 x)"
  by (rule on_gridI) (simp add: ceil3_def)

lemma on_grid_min [simp]: "on_grid a \<Longrightarrow> on_grid b \<Longrightarrow> on_grid (min a b)"
  by (simp add: min_def)

lemma on_grid_max [simp]: "on_grid a \<Longrightarrow> on_grid b \<Longrightarrow> on_grid (max a b)"
  by (simp add: max_def)

lemma round3_on_grid: "on_grid x \<Longrightarrow> round3 x = x"
  by (erule on_gridE) (simp add: round_dp_def)

text \<open>
  Two grid prices that differ by less than one grid step are equal or ordered: the slack of
  \<open>1e-9\<close> in a ceiling comparison never absorbs a real price difference.
\<close>

lemma grid_le:
  assumes "on_grid a" "on_grid b" "a < b + 1/1000"
  shows "a \<le> b"
proof -
  from assms(1) obtain i where i: "a = of_int i / 1000" by (rule on_gridE)
  from assms(2) obtain j where j: "b = of_int j / 1000" by (rule on_gridE)
  have "(of_int i :: rat) < of_int (j + 1)" using assms(3) i j by (simp add: field_simps)
  then have "i \<le> j" by linarith
  then show ?thesis using i j by (simp add: divide_right_mono)
qed

lemma ceil3_ge: "x \<le> ceil3 x + 1 / 10 ^ 12"
proof -
  define c :: rat where "c = of_int \<lceil>x * 1000 - 1 / 10 ^ 9\<rceil>"
  have "x * 1000 - 1 / 10 ^ 9 \<le> c" unfolding c_def by (rule le_of_int_ceiling)
  moreover have "ceil3 x = c / 1000" by (simp only: ceil3_def c_def)
  ultimately show ?thesis by (simp add: field_simps)
qed

lemma ceil3_lt: "ceil3 x < x + 1 / 1000"
proof -
  define c :: rat where "c = of_int \<lceil>x * 1000 - 1 / 10 ^ 9\<rceil>"
  have "c < x * 1000 - 1 / 10 ^ 9 + 1" unfolding c_def by linarith
  moreover have "ceil3 x = c / 1000" by (simp only: ceil3_def c_def)
  ultimately show ?thesis by (simp add: field_simps)
qed

lemma ceil3_least: "on_grid g \<Longrightarrow> x \<le> g \<Longrightarrow> ceil3 x \<le> g"
  by (rule grid_le) (use ceil3_lt [of x] in auto)

section \<open>Strings\<close>

text \<open>\<open>str.lower\<close> and \<open>str.strip\<close> on the ASCII range.\<close>

definition lower_char :: "char \<Rightarrow> char" where
  "lower_char c = (let n = of_char c :: nat in if 65 \<le> n \<and> n \<le> 90 then char_of (n + 32) else c)"

definition py_lower :: "string \<Rightarrow> string" where
  "py_lower s = map lower_char s"

definition py_isspace :: "char \<Rightarrow> bool" where
  "py_isspace c = (let n = of_char c :: nat in (9 \<le> n \<and> n \<le> 13) \<or> (28 \<le> n \<and> n \<le> 32))"

definition py_strip :: "string \<Rightarrow> string" where
  "py_strip s = rev (dropWhile py_isspace (rev (dropWhile py_isspace s)))"

definition py_isdigit :: "char \<Rightarrow> bool" where
  "py_isdigit c = (let n = of_char c :: nat in 48 \<le> n \<and> n \<le> 57)"

definition digit_val :: "char \<Rightarrow> nat" where
  "digit_val c = of_char c - 48"

fun starts_with :: "string \<Rightarrow> string \<Rightarrow> bool" where
  "starts_with [] s = True"
| "starts_with (p # ps) [] = False"
| "starts_with (p # ps) (c # cs) = (p = c \<and> starts_with ps cs)"

definition ends_with :: "string \<Rightarrow> string \<Rightarrow> bool" where
  "ends_with suffix s = starts_with (rev suffix) (rev s)"

text \<open>\<open>needle in s\<close>.\<close>

fun contains :: "string \<Rightarrow> string \<Rightarrow> bool" where
  "contains needle [] = (needle = [])"
| "contains needle (c # cs) = (take (length needle) (c # cs) = needle \<or> contains needle cs)"

text \<open>\<open>str.split\<close> at a one-character separator.\<close>

fun split_on :: "char \<Rightarrow> string \<Rightarrow> string list" where
  "split_on c [] = [[]]"
| "split_on c (x # xs) =
     (if x = c then [] # split_on c xs
      else case split_on c xs of [] \<Rightarrow> [[x]] | w # ws \<Rightarrow> (x # w) # ws)"

section \<open>Lists\<close>

text \<open>The last element that satisfies a test, as \<open>next(reversed(...))\<close> loops find it.\<close>

definition find_last :: "('a \<Rightarrow> bool) \<Rightarrow> 'a list \<Rightarrow> 'a option" where
  "find_last P xs = find P (rev xs)"

definition opt_list :: "'a option \<Rightarrow> 'a list" where
  "opt_list x = (case x of None \<Rightarrow> [] | Some v \<Rightarrow> [v])"

lemma opt_list_simps [simp]: "opt_list None = []" "opt_list (Some v) = [v]"
  by (simp_all add: opt_list_def)

lemma find_last_Some: "find_last P xs = Some x \<Longrightarrow> x \<in> set xs \<and> P x"
proof -
  assume "find_last P xs = Some x"
  then obtain i where "i < length (rev xs)" "P (rev xs ! i)" "x = rev xs ! i"
    by (auto simp: find_last_def find_Some_iff)
  then show ?thesis using nth_mem [of i "rev xs"] by auto
qed

lemma min_list_in: "xs \<noteq> [] \<Longrightarrow> min_list xs \<in> set (xs :: 'a :: linorder list)"
  by (simp add: min_list_Min)

lemma min_list_le: "x \<in> set xs \<Longrightarrow> min_list xs \<le> (x :: 'a :: linorder)"
  by (subst min_list_Min) auto

section \<open>Invariants of driven machines\<close>

text \<open>
  A component that is driven by a stream of inputs: the contract is an invariant of the initial
  states that every step keeps; the client gets it for every log of inputs.
\<close>

locale invariant_machine =
  fixes start :: "'s \<Rightarrow> bool"
    and step :: "'s \<Rightarrow> 'i \<Rightarrow> 's"
    and admissible :: "'i \<Rightarrow> bool"
    and inv :: "'s \<Rightarrow> bool"
  assumes start_inv: "start s \<Longrightarrow> inv s"
    and step_inv: "inv s \<Longrightarrow> admissible i \<Longrightarrow> inv (step s i)"
begin

lemma run_inv: "inv s \<Longrightarrow> \<forall>i\<in>set is. admissible i \<Longrightarrow> inv (foldl step s is)"
  by (induction "is" arbitrary: s) (auto intro: step_inv)

lemma reached: "start s \<Longrightarrow> \<forall>i\<in>set is. admissible i \<Longrightarrow> inv (foldl step s is)"
  by (blast intro: run_inv start_inv)

end

end
