(* ===== verification/BidRails.thy ===== *)
theory BidRails
  imports Prelude
begin

text \<open>
  The pricing rails of \<open>tools/vast/bidpolicy.py\<close>: what a standing bid may be
  (\<open>effective_bid_ceiling\<close>, \<open>bid_decision\<close>, \<open>_bid_target\<close>, \<open>bid_can_win\<close>), the default and
  the preferred ceilings, and the lemmas every spending rung rests on: an emitted bid respects
  the hard ceiling, \<open>max_bid\<close> and the on-demand price, and never sits below the market floor.
\<close>

section \<open>Policy constants\<close>

definition BID_MIN_STEP :: price where "BID_MIN_STEP = 1/100"
definition BID_RATE_LIMIT_S :: secs where "BID_RATE_LIMIT_S = 60"
definition BID_MAX_MULT :: rat where "BID_MAX_MULT = 3"
definition BID_TARGET_MULT :: rat where "BID_TARGET_MULT = 12/10"
definition BID_TARGET_ONDEMAND_FRAC :: rat where "BID_TARGET_ONDEMAND_FRAC = 65/100"
definition BID_TARGET_MULT_UNPRICED :: rat where "BID_TARGET_MULT_UNPRICED = 12/10"
definition BID_MIN_CUSHION_MULT :: rat where "BID_MIN_CUSHION_MULT = 11/10"
definition BID_CEILING_ONDEMAND_FRAC :: rat where "BID_CEILING_ONDEMAND_FRAC = 75/100"
definition BID_FALLBACK_DPH_MULT :: rat where "BID_FALLBACK_DPH_MULT = 125/100"
definition BID_ONDEMAND_EPS :: price where "BID_ONDEMAND_EPS = 1/1000"
definition CEIL_EPS :: price where "CEIL_EPS = 1/10^9"

lemmas bid_constants =
  BID_MIN_STEP_def BID_RATE_LIMIT_S_def BID_MAX_MULT_def BID_TARGET_MULT_def
  BID_TARGET_ONDEMAND_FRAC_def BID_TARGET_MULT_UNPRICED_def BID_MIN_CUSHION_MULT_def
  BID_CEILING_ONDEMAND_FRAC_def BID_FALLBACK_DPH_MULT_def BID_ONDEMAND_EPS_def CEIL_EPS_def

section \<open>The rails\<close>

text \<open>Which rail set the price, or why there is none; the payload is what the message quotes.\<close>

datatype bid_reason =
    NoMarketRead
  | Target price
  | CeilingCapped price
  | RaisedToFloor price
  | EscalateCushion price price
  | EscalateFloor price price
  | EscalateOndemand price price
  | UnwinnableFloor price

record bid_target =
  bt_price :: "price option"
  bt_reason :: bid_reason
  bt_ceiling :: "price option"
  bt_escalate :: bool

text \<open>The keyword arguments; \<open>None\<close> takes the module default.\<close>

record bid_opts =
  o_mult :: "rat option"
  o_ondemand_frac :: "rat option"
  o_cushion_mult :: "rat option"
  o_ondemand_cap :: "price option"
  o_ceiling_frac :: "rat option"

definition no_opts :: bid_opts where
  "no_opts = \<lparr>o_mult = None, o_ondemand_frac = None, o_cushion_mult = None,
     o_ondemand_cap = None, o_ceiling_frac = None\<rparr>"

definition effective_bid_ceiling :: "price option \<Rightarrow> price option \<Rightarrow> rat option \<Rightarrow> price option" where
  "effective_bid_ceiling on_demand max_bid ceiling_frac =
     (case pos_opt on_demand of
        None \<Rightarrow> max_bid
      | Some od \<Rightarrow> Some (min (round3 (dflt BID_CEILING_ONDEMAND_FRAC ceiling_frac * od))
                             (round3 (od - BID_ONDEMAND_EPS))))"

definition over_ceiling :: "price \<Rightarrow> price option \<Rightarrow> bool" where
  "over_ceiling x c = (case c of None \<Rightarrow> False | Some k \<Rightarrow> k + CEIL_EPS < x)"

text \<open>Rails 1 and 2: the preference multiple and the cost caps, which only lower it.\<close>

definition bid_preference :: "price \<Rightarrow> price option \<Rightarrow> bid_opts \<Rightarrow> price" where
  "bid_preference m od opts =
     (let mult = dflt (if od \<noteq> None then BID_TARGET_MULT else BID_TARGET_MULT_UNPRICED) (o_mult opts);
          t = round3 (mult * m);
          t = clamp_opt t (map_option (\<lambda>d. round3 (dflt BID_TARGET_ONDEMAND_FRAC (o_ondemand_frac opts) * d)) od)
      in clamp_opt t (map_option round3 (pos_opt (o_ondemand_cap opts))))"

text \<open>The absolute rail, after every other: a bid at or over on-demand is never emitted.\<close>

definition bid_absolute :: "price option \<Rightarrow> price option \<Rightarrow> price \<Rightarrow> bid_reason \<Rightarrow> bid_target" where
  "bid_absolute od ceil t why =
     (case od of
        Some d \<Rightarrow> if d \<le> t then \<lparr>bt_price = None, bt_reason = EscalateOndemand t d,
                                 bt_ceiling = ceil, bt_escalate = True\<rparr>
                  else \<lparr>bt_price = Some t, bt_reason = why, bt_ceiling = ceil, bt_escalate = False\<rparr>
      | None \<Rightarrow> \<lparr>bt_price = Some t, bt_reason = why, bt_ceiling = ceil, bt_escalate = False\<rparr>)"

text \<open>Rail 4 (the clamp half), rail 5, and the raise to the floor.\<close>

definition bid_hard_rails ::
  "price \<Rightarrow> price option \<Rightarrow> price option \<Rightarrow> price option \<Rightarrow> price option \<Rightarrow> price \<Rightarrow> price \<Rightarrow> bid_target" where
  "bid_hard_rails m max_bid od hi ceil cushion t0 =
     (let capped = over_ceiling t0 ceil;
          t1 = (if capped then the ceil else t0);
          why = (if capped then CeilingCapped t1 else Target t0);
          t2 = max t1 cushion;
          t3 = clamp_opt t2 hi;
          t4 = clamp_opt t3 max_bid;
          t5 = clamp_opt t4 ceil
      in if t5 < m then
           (let floor_t = ceil3 m
            in if over_ceiling floor_t ceil then
                 \<lparr>bt_price = None, bt_reason = EscalateFloor floor_t (the ceil),
                  bt_ceiling = ceil, bt_escalate = True\<rparr>
               else if \<not> ((case max_bid of None \<Rightarrow> True | Some mb \<Rightarrow> floor_t \<le> mb)
                          \<and> (case od of None \<Rightarrow> True | Some d \<Rightarrow> floor_t < d)) then
                 \<lparr>bt_price = None, bt_reason = UnwinnableFloor floor_t,
                  bt_ceiling = ceil, bt_escalate = False\<rparr>
               else bid_absolute od ceil floor_t (RaisedToFloor floor_t))
         else bid_absolute od ceil t5 why)"

definition bid_decision ::
  "price option \<Rightarrow> price option \<Rightarrow> price option \<Rightarrow> bid_opts \<Rightarrow> bid_target" where
  "bid_decision market_min_bid max_bid on_demand opts =
     (case market_min_bid of
        None \<Rightarrow> \<lparr>bt_price = None, bt_reason = NoMarketRead, bt_ceiling = None, bt_escalate = False\<rparr>
      | Some m \<Rightarrow>
         (let od = pos_opt on_demand;
              hi = map_option (\<lambda>d. round3 (d - BID_ONDEMAND_EPS)) od;
              ceil = effective_bid_ceiling od max_bid (o_ceiling_frac opts);
              t = bid_preference m od opts;
              cushion = round3 (dflt BID_MIN_CUSHION_MULT (o_cushion_mult opts) * m)
          in if over_ceiling cushion ceil then
               \<lparr>bt_price = None, bt_reason = EscalateCushion cushion (the ceil),
                bt_ceiling = ceil, bt_escalate = True\<rparr>
             else bid_hard_rails m max_bid od hi ceil cushion t))"

text \<open>\<open>_bid_target\<close>: the price alone, as every caller but the journal reads it.\<close>

definition bid_target_price :: "price option \<Rightarrow> price option \<Rightarrow> price option \<Rightarrow> price option" where
  "bid_target_price market_min_bid max_bid on_demand =
     bt_price (bid_decision market_min_bid max_bid on_demand no_opts)"

definition bid_can_win :: "price option \<Rightarrow> price option \<Rightarrow> price option \<Rightarrow> bool" where
  "bid_can_win market_min_bid on_demand max_bid =
     (bid_target_price market_min_bid max_bid on_demand \<noteq> None)"

section \<open>Default and preferred ceilings\<close>

text \<open>\<open>statistics.median\<close> of a non-empty list.\<close>

definition median :: "rat list \<Rightarrow> rat" where
  "median xs =
     (let s = sort xs; n = length s
      in if odd n then s ! (n div 2) else (s ! (n div 2 - 1) + s ! (n div 2)) / 2)"

definition default_max_bid ::
  "price list \<Rightarrow> price option \<Rightarrow> price option \<Rightarrow> bool \<Rightarrow> price option" where
  "default_max_bid floor_samples first_seen_dph on_demand strict_ceiling =
     (case pos_opt on_demand of
        Some od \<Rightarrow> Some (if strict_ceiling then round3 (BID_CEILING_ONDEMAND_FRAC * od)
                         else round3 (od - BID_ONDEMAND_EPS))
      | None \<Rightarrow>
          (let fs = filter (\<lambda>f. 0 < f) floor_samples
           in if fs \<noteq> [] then Some (round3 (BID_MAX_MULT * median fs))
              else case first_seen_dph of
                     None \<Rightarrow> None
                   | Some d \<Rightarrow> if d = 0 then None else Some (round3 (BID_FALLBACK_DPH_MULT * d))))"

definition preferred_ceiling :: "price option \<Rightarrow> price option" where
  "preferred_ceiling on_demand =
     map_option (\<lambda>od. round3 (BID_CEILING_ONDEMAND_FRAC * od)) (pos_opt on_demand)"

section \<open>What the rails guarantee\<close>

lemma over_ceiling_simps [simp]:
  "\<not> over_ceiling x None"
  "over_ceiling x (Some k) \<longleftrightarrow> k + CEIL_EPS < x"
  by (simp_all add: over_ceiling_def)

lemma effective_bid_ceiling_unpriced [simp]:
  "pos_opt od = None \<Longrightarrow> effective_bid_ceiling od mb cf = mb"
  by (simp add: effective_bid_ceiling_def)

lemma effective_bid_ceiling_pos [simp]:
  "effective_bid_ceiling (pos_opt od) mb cf = effective_bid_ceiling od mb cf"
  by (simp add: effective_bid_ceiling_def)

lemma effective_bid_ceiling_priced:
  assumes "pos_opt od = Some d"
  obtains c where "effective_bid_ceiling od mb cf = Some c" "on_grid c" "c < d"
    "c \<le> round3 (d - BID_ONDEMAND_EPS)" "c \<le> round3 (dflt BID_CEILING_ONDEMAND_FRAC cf * d)"
proof -
  let ?c = "min (round3 (dflt BID_CEILING_ONDEMAND_FRAC cf * d)) (round3 (d - BID_ONDEMAND_EPS))"
  have eq: "effective_bid_ceiling od mb cf = Some ?c"
    using assms by (simp add: effective_bid_ceiling_def)
  have "round3 (d - BID_ONDEMAND_EPS) < d"
    using round3_le_add [of "d - BID_ONDEMAND_EPS"] by (simp add: BID_ONDEMAND_EPS_def)
  then show thesis using eq that [of ?c] by auto
qed

lemma bid_absolute_price [simp]:
  "bt_price (bid_absolute od c t w) = Some p \<longleftrightarrow> p = t \<and> (\<forall>d. od = Some d \<longrightarrow> t < d)"
  by (auto simp: bid_absolute_def split: option.splits)

lemma bid_absolute_below:
  "(\<And>d. od = Some d \<Longrightarrow> t < d) \<Longrightarrow>
   bid_absolute od c t w = \<lparr>bt_price = Some t, bt_reason = w, bt_ceiling = c, bt_escalate = False\<rparr>"
  by (auto simp: bid_absolute_def split: option.splits)

text \<open>
  The raise to the floor respects the ceiling although it is compared with a slack: both are
  grid prices when on-demand is known, and the ceiling is \<open>max_bid\<close> itself when it is not.
\<close>

lemma floor_under_ceiling:
  assumes "\<not> over_ceiling (ceil3 m) (Some c)" "on_grid c"
  shows "ceil3 m \<le> c"
  by (rule grid_le) (use assms in \<open>auto simp: CEIL_EPS_def\<close>)

lemma bid_hard_rails_bounds:
  assumes price: "bt_price (bid_hard_rails m mb od hi c cushion t) = Some p"
    and grid: "\<And>k d. od = Some d \<Longrightarrow> c = Some k \<Longrightarrow> on_grid k"
    and unpriced: "od = None \<Longrightarrow> c = mb"
  shows "mb = Some x \<Longrightarrow> p \<le> x" "c = Some k \<Longrightarrow> p \<le> k" "od = Some d \<Longrightarrow> p < d"
    "m \<le> p + 1 / 10 ^ 12"
proof -
  let ?t5 = "clamp_opt (clamp_opt (clamp_opt (max (if over_ceiling t c then the c else t) cushion) hi) mb) c"
  have cases: "(p = ?t5 \<and> \<not> ?t5 < m) \<or>
      (p = ceil3 m \<and> \<not> over_ceiling (ceil3 m) c \<and> (\<forall>x. mb = Some x \<longrightarrow> ceil3 m \<le> x))"
    "\<And>d. od = Some d \<Longrightarrow> p < d"
    using price by (auto simp: bid_hard_rails_def Let_def split: if_splits option.splits)
  have b1: "?t5 \<le> x" if "mb = Some x" for x
  proof -
    have "clamp_opt (clamp_opt (max (if over_ceiling t c then the c else t) cushion) hi) mb \<le> x"
      using that by (rule clamp_opt_le_cap)
    then show ?thesis using clamp_opt_le order_trans by blast
  qed
  have b2: "?t5 \<le> k" if "c = Some k" for k
    using that by simp
  show "mb = Some x \<Longrightarrow> p \<le> x" using cases(1) b1 by auto
  show "od = Some d \<Longrightarrow> p < d" by (rule cases(2))
  show "m \<le> p + 1 / 10 ^ 12" using cases(1) ceil3_ge [of m] by auto
  show "p \<le> k" if k: "c = Some k"
  proof (cases od)
    case None
    with unpriced k have "mb = Some k" by simp
    with cases(1) b2 [OF k] show ?thesis by auto
  next
    case (Some d)
    with grid k have "on_grid k" by blast
    with cases(1) b2 [OF k] floor_under_ceiling [of m k] k show ?thesis by auto
  qed
qed

lemma bid_decision_bounds:
  assumes "bt_price (bid_decision (Some m) mb od opts) = Some p"
  shows "mb = Some x \<Longrightarrow> p \<le> x"
    "effective_bid_ceiling od mb (o_ceiling_frac opts) = Some k \<Longrightarrow> p \<le> k"
    "pos_opt od = Some d \<Longrightarrow> p < d"
    "m \<le> p + 1 / 10 ^ 12"
proof -
  let ?c = "effective_bid_ceiling od mb (o_ceiling_frac opts)"
  let ?hi = "map_option (\<lambda>d. round3 (d - BID_ONDEMAND_EPS)) (pos_opt od)"
  let ?cu = "round3 (dflt BID_MIN_CUSHION_MULT (o_cushion_mult opts) * m)"
  let ?t = "bid_preference m (pos_opt od) opts"
  have p: "bt_price (bid_hard_rails m mb (pos_opt od) ?hi ?c ?cu ?t) = Some p"
    using assms by (auto simp: bid_decision_def Let_def split: if_splits)
  have g: "on_grid k" if d: "pos_opt od = Some d" and k: "?c = Some k" for k d
    by (rule effective_bid_ceiling_priced [OF d, of mb "o_ceiling_frac opts"]) (use k in auto)
  have u: "pos_opt od = None \<Longrightarrow> ?c = mb" by simp
  note b = bid_hard_rails_bounds [OF p g u]
  show "mb = Some x \<Longrightarrow> p \<le> x" by (rule b(1))
  show "?c = Some k \<Longrightarrow> p \<le> k" by (rule b(2))
  show "pos_opt od = Some d \<Longrightarrow> p < d" by (rule b(3))
  show "m \<le> p + 1 / 10 ^ 12" by (rule b(4))
qed

lemma bid_decision_price_floor:
  "bt_price (bid_decision mmb mb od opts) = Some p \<Longrightarrow> \<exists>m. mmb = Some m"
  by (cases mmb) (auto simp: bid_decision_def)

lemma bid_target_price_None [simp]: "bid_target_price None mb od = None"
  by (simp add: bid_target_price_def bid_decision_def)

lemma bid_target_price_bounds:
  assumes "bid_target_price (Some m) mb od = Some p"
  shows "mb = Some x \<Longrightarrow> p \<le> x" "effective_bid_ceiling od mb None = Some k \<Longrightarrow> p \<le> k"
    "pos_opt od = Some d \<Longrightarrow> p < d" "m \<le> p + 1 / 10 ^ 12"
  using bid_decision_bounds [of m mb od no_opts p] assms
  by (auto simp: bid_target_price_def no_opts_def)

text \<open>
  With an on-demand price and no operator cap the rails have a closed form: escalate exactly
  when the survival cushion exceeds the hard ceiling, otherwise emit the larger of the cushion
  and the capped preference. In particular the raise to the floor and the absolute rail are
  dead code there.
\<close>

lemma bid_hard_rails_closed:
  assumes c: "c \<le> h" "c < d" "\<not> over_ceiling cushion (Some c)"
    and grid: "on_grid c" "on_grid cushion" and "m \<le> cushion"
  shows "bt_price (bid_hard_rails m None (Some d) (Some h) (Some c) cushion t)
         = Some (max cushion (min t c))"
proof -
  have le: "cushion \<le> c" by (rule grid_le) (use c(3) grid in \<open>auto simp: CEIL_EPS_def\<close>)
  show ?thesis using assms(1,2,6) le
    by (auto simp: bid_hard_rails_def Let_def bid_absolute_def min_def max_def CEIL_EPS_def)
qed

lemma bid_hard_rails_escalate:
  "bt_price (bid_hard_rails m mb od hi c cushion t) = Some p \<Longrightarrow>
   \<not> bt_escalate (bid_hard_rails m mb od hi c cushion t)"
  by (auto simp: bid_hard_rails_def bid_absolute_def Let_def split: if_splits option.splits)

section \<open>The contract of a spending quote\<close>

text \<open>
  Whatever quotes a bid promises its cap and the on-demand price; what a box can cost over a
  horizon follows for every such quote.
\<close>

locale capped_quote =
  fixes quote :: "'s \<Rightarrow> price option"
    and cap :: "'s \<Rightarrow> price option"
    and ondemand :: "'s \<Rightarrow> price option"
  assumes quote_cap: "quote s = Some p \<Longrightarrow> cap s = Some k \<Longrightarrow> p \<le> k"
    and quote_ondemand: "quote s = Some p \<Longrightarrow> ondemand s = Some d \<Longrightarrow> p < d"
begin

lemma quote_cost: "quote s = Some p \<Longrightarrow> cap s = Some k \<Longrightarrow> 0 \<le> h \<Longrightarrow> p * h \<le> k * h"
  using quote_cap by (simp add: mult_right_mono)

lemma quote_cheaper: "quote s = Some p \<Longrightarrow> ondemand s = Some d \<Longrightarrow> 0 < h \<Longrightarrow> p * h < d * h"
  using quote_ondemand by (simp add: mult_strict_right_mono)

end

interpretation bt: capped_quote "\<lambda>(m, mb, od). bid_target_price m mb od" "\<lambda>(m, mb, od). mb"
    "\<lambda>(m, mb, od). pos_opt od"
proof
  fix s :: "price option \<times> price option \<times> price option" and p k d
  obtain m mb od where s: "s = (m, mb, od)" by (cases s)
  assume q: "(case s of (m, mb, od) \<Rightarrow> bid_target_price m mb od) = Some p"
  then obtain m' where "m = Some m'" using s by (cases m) auto
  then have q': "bid_target_price (Some m') mb od = Some p" using q s by simp
  show "(case s of (m, mb, od) \<Rightarrow> mb) = Some k \<Longrightarrow> p \<le> k"
    using bid_target_price_bounds(1) [OF q'] s by simp
  show "(case s of (m, mb, od) \<Rightarrow> pos_opt od) = Some d \<Longrightarrow> p < d"
    using bid_target_price_bounds(3) [OF q'] s by simp
qed

section \<open>Properties\<close>

text \<open>C38. A bid emitted by the rails never exceeds the operator's cap or the hard ceiling, stays
  strictly under the on-demand price, and never sits below the market floor (beyond the slack of
  the upward rounding).\<close>

theorem bid_never_over_cap:
  assumes "bt_price (bid_decision (Some m) max_bid od opts) = Some p"
  shows "(\<forall>x. max_bid = Some x \<longrightarrow> p \<le> x)
    \<and> (\<forall>k. effective_bid_ceiling od max_bid (o_ceiling_frac opts) = Some k \<longrightarrow> p \<le> k)
    \<and> (\<forall>d. od = Some d \<and> 0 < d \<longrightarrow> p < d)
    \<and> m \<le> p + 1 / 10 ^ 12"
  using bid_decision_bounds [OF assms] by simp

theorem bid_never_over_cap_witness:
  "bt_price (bid_decision (Some (1/5)) (Some (23/100)) (Some 1) no_opts) = Some (23/100)
   \<and> (23/100 :: rat) \<le> 23/100 \<and> (23/100 :: rat) < 1 \<and> (1/5 :: rat) \<le> 23/100 + 1 / 10 ^ 12"
proof -
  have p: "bt_price (bid_decision (Some (1/5)) (Some (23/100)) (Some 1) no_opts) = Some (23/100)"
    by code_simp
  show ?thesis using p bid_never_over_cap [OF p] by simp
qed

text \<open>With a known on-demand price, a floor of at least half a cent and no operator cap the rails
  have a closed form: the decision escalates exactly when the survival cushion is over the hard ceiling, and otherwise
  bids the larger of the cushion and the capped preference; raising the bid to the floor and the
  absolute on-demand rail never decide.\<close>

lemma bid_closed_form:
  assumes "0 < d" "1/200 \<le> m"
  defines "c \<equiv> min (round3 (BID_CEILING_ONDEMAND_FRAC * d)) (round3 (d - BID_ONDEMAND_EPS))"
    and "cushion \<equiv> round3 (BID_MIN_CUSHION_MULT * m)"
  shows "bt_escalate (bid_decision (Some m) None (Some d) no_opts) = (c + CEIL_EPS < cushion)
    \<and> bt_price (bid_decision (Some m) None (Some d) no_opts) =
        (if c + CEIL_EPS < cushion then None
         else Some (max cushion (min (bid_preference m (Some d) no_opts) c)))"
proof -
  have opts: "o_ceiling_frac no_opts = None" "o_cushion_mult no_opts = None" by (simp_all add: no_opts_def)
  have ceil: "effective_bid_ceiling (Some d) None None = Some c"
    using assms(1) by (simp add: effective_bid_ceiling_def c_def)
  have hi: "round3 (d - BID_ONDEMAND_EPS) < d"
    using round3_le_add [of "d - BID_ONDEMAND_EPS"] by (simp add: BID_ONDEMAND_EPS_def)
  let ?h = "bid_hard_rails m None (Some d) (Some (round3 (d - BID_ONDEMAND_EPS))) (Some c) cushion
      (bid_preference m (Some d) no_opts)"
  have dec: "bid_decision (Some m) None (Some d) no_opts =
      (if c + CEIL_EPS < cushion
       then \<lparr>bt_price = None, bt_reason = EscalateCushion cushion c, bt_ceiling = Some c, bt_escalate = True\<rparr>
       else ?h)"
    using assms(1) by (simp add: bid_decision_def opts ceil Let_def cushion_def)
  show ?thesis
  proof (cases "c + CEIL_EPS < cushion")
    case True
    then show ?thesis by (simp add: dec)
  next
    case False
    have grid: "on_grid c" "on_grid cushion" by (simp_all add: c_def cushion_def)
    have "BID_MIN_CUSHION_MULT * m - 1/2000 \<le> cushion"
      unfolding cushion_def by (rule round3_ge_sub)
    then have le: "m \<le> cushion" using assms(2) by (simp add: BID_MIN_CUSHION_MULT_def)
    have c: "c \<le> round3 (d - BID_ONDEMAND_EPS)" "c < d" using hi by (auto simp: c_def)
    have p: "bt_price ?h = Some (max cushion (min (bid_preference m (Some d) no_opts) c))"
      by (rule bid_hard_rails_closed) (use c grid le False in auto)
    then show ?thesis using False bid_hard_rails_escalate [OF p] by (simp add: dec)
  qed
qed

end
