(* ===== verification/Eviction.thy ===== *)
theory Eviction
  imports BidRails
begin

text \<open>
  The eviction half of \<open>tools/vast/bidpolicy.py\<close>: whose price a floor read is
  (\<open>market_floor_self_match\<close>), what a notification row is worth (\<open>notify_price\<close>,
  \<open>notify_outbid_supported\<close>, \<open>notify_rescue_floor\<close>), why a box stopped
  (\<open>classify_eviction\<close>), and the two cheapest rungs of the recovery ladder
  (\<open>resume_in_place\<close>, \<open>host_stop_escalation\<close>).

  Lemma groups: the echo test finds a match exactly when one exists and reports the newest one;
  a notification can only add the class outbid; an outbid verdict is backed by a price above
  our own; a start is never issued where the market says it cannot stick.
\<close>

section \<open>Box states\<close>

definition LIVE_STATES :: "string set" where
  "LIVE_STATES = {''running'', ''loading'', ''created''}"

section \<open>Prices off the notification feed\<close>

text \<open>
  What \<open>float\<close> makes of a JSON value: nothing (\<open>None\<close>, a string that does not parse), a
  finite number, or one of the three special floats \<open>json.loads\<close> can mint.
\<close>

datatype jnum = Unparsed | Fin rat | PosInf | NegInf | NotANumber

fun notify_price :: "jnum \<Rightarrow> price option" where
  "notify_price (Fin p) = (if p \<le> 0 then None else Some p)"
| "notify_price _ = None"

definition of_price :: "price option \<Rightarrow> jnum" where
  "of_price p = (case p of None \<Rightarrow> Unparsed | Some x \<Rightarrow> Fin x)"

record notify_row =
  your_bid :: jnum
  new_min_bid :: jnum

definition notify_outbid_supported :: "notify_row option \<Rightarrow> price option \<Rightarrow> price option \<Rightarrow> bool" where
  "notify_outbid_supported notify on_demand last_bid =
     (case notify of
        None \<Rightarrow> False
      | Some row \<Rightarrow>
         (case (notify_price (your_bid row), notify_price (new_min_bid row)) of
            (Some yb, Some nmb) \<Rightarrow>
              if nmb \<le> yb then False
              else if (case notify_price (of_price last_bid) of Some lb \<Rightarrow> nmb \<le> lb | None \<Rightarrow> False) then False
              else (case notify_price (of_price on_demand) of None \<Rightarrow> True | Some od \<Rightarrow> nmb < od)
          | _ \<Rightarrow> False))"

definition notify_rescue_floor :: "jnum \<Rightarrow> price option \<Rightarrow> price option" where
  "notify_rescue_floor notify_min_bid market_min_bid =
     (case notify_price notify_min_bid of
        None \<Rightarrow> None
      | Some nmb \<Rightarrow> Some (max (dflt 0 (notify_price (of_price market_min_bid))) (nmb + BID_MIN_STEP)))"

section \<open>The self-referential floor\<close>

definition BID_SELF_FLOOR_EPS :: price where "BID_SELF_FLOOR_EPS = 5/10000"
definition BID_SELF_FLOOR_LAG_S :: secs where "BID_SELF_FLOOR_LAG_S = 3600"
definition BID_SELF_FLOOR_SUSTAINED_S :: secs where "BID_SELF_FLOOR_SUSTAINED_S = 1800"

text \<open>
  One recorded standing bid \<open>[ts_first, price, machine_id, ts_last]\<close>. A field is \<open>None\<close> where
  the entry is too short or the value does not read as a number.
\<close>

record hist_entry =
  he_ts :: "secs option"
  he_price :: "price option"
  he_machine :: "string option"
  he_ts_last :: "secs option"

datatype self_kind = Standing | Prior

record self_floor =
  sf_kind :: self_kind
  sf_price :: price
  sf_age :: "secs option"

definition entry_age :: "secs option \<Rightarrow> secs \<Rightarrow> secs option \<Rightarrow> secs option" where
  "entry_age now ts ts_last = map_option (\<lambda>n. max 0 (n - dflt ts ts_last)) now"

text \<open>The entry explains the read: same price within the slack, inside the echo window.\<close>

definition entry_match :: "price \<Rightarrow> secs option \<Rightarrow> secs \<Rightarrow> price \<Rightarrow> hist_entry \<Rightarrow> self_floor option" where
  "entry_match mmb now lag_s eps e =
     (case (he_ts e, he_price e) of
        (Some ts, Some p) \<Rightarrow>
          if eps < \<bar>mmb - p\<bar> then None
          else (let age = entry_age now ts (he_ts_last e)
                in if (case age of Some a \<Rightarrow> lag_s < a | None \<Rightarrow> False) then None
                   else Some \<lparr>sf_kind = Prior, sf_price = p, sf_age = age\<rparr>)
      | _ \<Rightarrow> None)"

definition newer :: "self_floor \<Rightarrow> self_floor option \<Rightarrow> self_floor" where
  "newer m best =
     (case best of
        None \<Rightarrow> m
      | Some b \<Rightarrow> (case (sf_age m, sf_age b) of (Some a, Some ab) \<Rightarrow> if a < ab then m else b | _ \<Rightarrow> b))"

fun self_match_scan ::
  "price \<Rightarrow> secs option \<Rightarrow> secs \<Rightarrow> price \<Rightarrow> hist_entry list \<Rightarrow> self_floor option \<Rightarrow> self_floor option" where
  "self_match_scan mmb now lag_s eps [] best = best"
| "self_match_scan mmb now lag_s eps (e # es) best =
     (case entry_match mmb now lag_s eps e of
        None \<Rightarrow> self_match_scan mmb now lag_s eps es best
      | Some m \<Rightarrow> self_match_scan mmb now lag_s eps es (Some (newer m best)))"

definition market_floor_self_match ::
  "price option \<Rightarrow> price option \<Rightarrow> hist_entry list \<Rightarrow> secs option \<Rightarrow> secs \<Rightarrow> price \<Rightarrow> self_floor option" where
  "market_floor_self_match market_min_bid standing_bid bid_history now lag_s eps0 =
     (case market_min_bid of
        None \<Rightarrow> None
      | Some mmb \<Rightarrow>
         (let eps = eps0 + 1/10^9
          in if (case standing_bid of Some b \<Rightarrow> \<bar>mmb - b\<bar> \<le> eps | None \<Rightarrow> False)
             then Some \<lparr>sf_kind = Standing, sf_price = the standing_bid, sf_age = Some 0\<rparr>
             else self_match_scan mmb now lag_s eps bid_history None))"

definition market_floor_is_self ::
  "price option \<Rightarrow> price option \<Rightarrow> hist_entry list \<Rightarrow> secs option \<Rightarrow> secs \<Rightarrow> price \<Rightarrow> bool" where
  "market_floor_is_self market_min_bid standing_bid bid_history now lag_s eps =
     (market_floor_self_match market_min_bid standing_bid bid_history now lag_s eps \<noteq> None)"

section \<open>Why did the box stop?\<close>

datatype eviction_class =
  EvOutbid | EvOndemand | EvHostFailure | EvHostStop | EvNoCredit | EvUnknown

text \<open>
  \<open>credit_ok_from_error\<close> reads the driver's error string; the marker test is the substring
  test \<open>in\<close>.
\<close>

definition CREDIT_EXHAUSTED_MARKER :: string where
  "CREDIT_EXHAUSTED_MARKER = ''insufficient_credit''"

definition credit_ok_from_error :: "string option \<Rightarrow> bool option" where
  "credit_ok_from_error err =
     (case err of
        None \<Rightarrow> None
      | Some e \<Rightarrow> if e \<noteq> [] \<and> contains CREDIT_EXHAUSTED_MARKER e then Some False else None)"

fun drop_one :: "price \<Rightarrow> price list \<Rightarrow> price list" where
  "drop_one m [] = []"
| "drop_one m (p # ps) = (if \<bar>p - m\<bar> \<le> CEIL_EPS then ps else p # drop_one m ps)"

definition floor_rise_corroborated ::
  "price option \<Rightarrow> price option \<Rightarrow> jnum list \<Rightarrow> notify_row option \<Rightarrow> bool option" where
  "floor_rise_corroborated market_min_bid last_bid floor_samples notify =
     (case notify_price (of_price last_bid) of
        None \<Rightarrow> None
      | Some lb \<Rightarrow>
          (if (case notify of None \<Rightarrow> False
               | Some row \<Rightarrow> (case notify_price (new_min_bid row) of Some n \<Rightarrow> lb < n | None \<Rightarrow> False))
           then Some True
           else (let others = List.map_filter notify_price floor_samples;
                     others = (case notify_price (of_price market_min_bid) of
                                 None \<Rightarrow> others | Some m \<Rightarrow> drop_one m others)
                 in if others = [] then None else Some (\<exists>p\<in>set others. lb < p))))"

record evict_read =
  er_present :: bool
  er_actual_status :: "string option"
  er_market_min_bid :: "price option"
  er_on_demand :: "price option"
  er_last_bid :: "price option"
  er_market_listed :: "bool option"
  er_is_bid :: "bool option"
  er_notify :: "notify_row option"
  er_account_credit_ok :: "bool option"
  er_floor_samples :: "jnum list"

text \<open>The arms below the liveness and insolvency tests, on the positive prices only.\<close>

definition classify_market :: "evict_read \<Rightarrow> price option \<Rightarrow> price option \<Rightarrow> price option \<Rightarrow> eviction_class" where
  "classify_market r od lb mmb =
     (let od_claim_possible = (er_is_bid r \<noteq> Some False)
      in if (case (mmb, lb) of (Some m, Some l) \<Rightarrow> l < m | _ \<Rightarrow> False) then
           (if floor_rise_corroborated mmb lb (er_floor_samples r) (er_notify r) = Some False
            then EvHostStop else EvOutbid)
         else if od_claim_possible \<and> (case (od, lb) of (Some d, Some l) \<Rightarrow> d - BID_ONDEMAND_EPS \<le> l | _ \<Rightarrow> False)
         then EvOndemand
         else if notify_outbid_supported (er_notify r) od (if er_is_bid r \<noteq> Some False then lb else None)
         then EvOutbid
         else if mmb = None \<and> er_market_listed r = Some False then EvOutbid
         else if mmb = None then EvUnknown
         else if er_market_listed r = Some True
                 \<and> (case (mmb, lb) of (Some m, Some l) \<Rightarrow> m \<le> l | _ \<Rightarrow> False)
         then EvHostStop
         else if od \<noteq> None \<and> od_claim_possible then EvOndemand else EvUnknown)"

definition classify_eviction :: "evict_read \<Rightarrow> eviction_class" where
  "classify_eviction r =
     (if \<not> er_present r then EvHostFailure
      else if py_lower (dflt [] (er_actual_status r)) \<in> LIVE_STATES then EvUnknown
      else if er_account_credit_ok r = Some False then EvNoCredit
      else classify_market r (pos_opt (er_on_demand r)) (pos_opt (er_last_bid r))
             (pos_opt (er_market_min_bid r)))"

section \<open>Resume in place, host-stop escalation\<close>

definition RESUME_MAX_TRIES :: int where "RESUME_MAX_TRIES = 2"
definition HOST_STOP_ESCALATE_S :: secs where "HOST_STOP_ESCALATE_S = 240"
definition NOT_LIVE_DEBOUNCE :: int where "NOT_LIVE_DEBOUNCE = 2"
definition HOST_RECOVERY_CLASSES :: "eviction_class list" where
  "HOST_RECOVERY_CLASSES = [EvHostStop]"

datatype resume_reason =
    NotListed | TriesUsed int | BudgetConsumed | ChunkNotListed | NoUsableRead
  | BelowFloor price price | StillClears price price | OndemandBox

datatype resume = StartBox resume_reason | SkipStart resume_reason

definition resume_in_place ::
  "bool \<Rightarrow> bool \<Rightarrow> price option \<Rightarrow> price option \<Rightarrow> bool option \<Rightarrow> int \<Rightarrow> int \<Rightarrow> price option \<Rightarrow> price \<Rightarrow> resume" where
  "resume_in_place present is_bid market_min_bid last_bid market_listed tries_used max_tries
       budget_usd spend_usd =
     (if \<not> present then SkipStart NotListed
      else if max_tries \<le> tries_used then SkipStart (TriesUsed tries_used)
      else if (case budget_usd of Some b \<Rightarrow> b \<le> spend_usd | None \<Rightarrow> False) then SkipStart BudgetConsumed
      else if is_bid then
        (if market_listed = Some False then SkipStart ChunkNotListed
         else (case (pos_opt market_min_bid, pos_opt last_bid) of
                 (Some mmb, Some lb) \<Rightarrow>
                    if lb < mmb then SkipStart (BelowFloor lb mmb) else StartBox (StillClears lb mmb)
               | _ \<Rightarrow> SkipStart NoUsableRead))
      else StartBox OndemandBox)"

definition host_stop_escalation ::
  "eviction_class \<Rightarrow> bool \<Rightarrow> secs option \<Rightarrow> secs option \<Rightarrow> int \<Rightarrow> int \<Rightarrow> secs option
     \<Rightarrow> eviction_class list \<Rightarrow> secs option" where
  "host_stop_escalation eviction_class claimed_work evicted_since now not_live debounce
       escalate_after_s classes =
     (if eviction_class \<notin> set classes then None
      else if \<not> claimed_work then None
      else (case (evicted_since, now) of
              (Some since, Some n) \<Rightarrow>
                (case pos_opt escalate_after_s of
                   None \<Rightarrow> None
                 | Some after \<Rightarrow>
                     if not_live < 2 * debounce then None
                     else if after \<le> n - since then Some (n - since) else None)
            | _ \<Rightarrow> None))"

section \<open>The echo test\<close>

lemma self_match_scan_None:
  "self_match_scan mmb now lag eps es None = None \<longleftrightarrow> (\<forall>e\<in>set es. entry_match mmb now lag eps e = None)"
proof -
  have some: "self_match_scan mmb now lag eps xs (Some b) \<noteq> None" for xs b
    by (induction xs arbitrary: b) (auto split: option.splits)
  show ?thesis
    by (induction es) (simp_all add: some split: option.splits)
qed

text \<open>With a clock every match carries an age, and the scan keeps the smallest.\<close>

lemma entry_match_age:
  "entry_match mmb (Some n) lag eps e = Some m \<Longrightarrow> \<exists>a. sf_age m = Some a \<and> 0 \<le> a \<and> a \<le> lag"
  by (auto simp: entry_match_def entry_age_def Let_def split: option.splits if_splits)

lemma entry_match_iff:
  assumes "0 \<le> lag"
  shows "entry_match mmb (Some n) lag eps e \<noteq> None \<longleftrightarrow>
    (\<exists>ts p. he_ts e = Some ts \<and> he_price e = Some p \<and> \<bar>mmb - p\<bar> \<le> eps
            \<and> n - dflt ts (he_ts_last e) \<le> lag)"
  using assms by (auto simp: entry_match_def entry_age_def Let_def split: option.splits)

lemma self_match_scan_newest:
  assumes "self_match_scan mmb (Some n) lag eps es best = Some r"
    and "\<And>b. best = Some b \<Longrightarrow> \<exists>a. sf_age b = Some a"
  shows "\<exists>a. sf_age r = Some a \<and> (\<forall>b. best = Some b \<longrightarrow> a \<le> the (sf_age b))
    \<and> (\<forall>e\<in>set es. \<forall>m. entry_match mmb (Some n) lag eps e = Some m \<longrightarrow> a \<le> the (sf_age m))"
  using assms
proof (induction es arbitrary: best)
  case Nil
  then show ?case by auto
next
  case (Cons e es)
  show ?case
  proof (cases "entry_match mmb (Some n) lag eps e")
    case None
    with Cons show ?thesis by auto
  next
    case (Some m)
    then obtain am where am: "sf_age m = Some am" using entry_match_age by blast
    have scan: "self_match_scan mmb (Some n) lag eps es (Some (newer m best)) = Some r"
      using Cons.prems(1) Some by simp
    have age: "\<exists>a. sf_age (newer m best) = Some a \<and> a \<le> am \<and> (\<forall>b. best = Some b \<longrightarrow> a \<le> the (sf_age b))"
      using am Cons.prems(2) by (fastforce simp: newer_def split: option.splits)
    obtain a where a: "sf_age r = Some a" "a \<le> the (sf_age (newer m best))"
      "\<forall>e\<in>set es. \<forall>m. entry_match mmb (Some n) lag eps e = Some m \<longrightarrow> a \<le> the (sf_age m)"
      using Cons.IH [OF scan] age by auto
    show ?thesis using a age am Some by force
  qed
qed

lemma self_match_scan_origin:
  "self_match_scan mmb now lag eps es best = Some r \<Longrightarrow>
   best = Some r \<or> (\<exists>e\<in>set es. entry_match mmb now lag eps e = Some r)"
proof (induction es arbitrary: best)
  case Nil
  then show ?case by simp
next
  case (Cons e es)
  show ?case
  proof (cases "entry_match mmb now lag eps e")
    case None
    with Cons show ?thesis by auto
  next
    case (Some m)
    with Cons.prems Cons.IH [of "Some (newer m best)"] show ?thesis
      by (auto simp: newer_def split: option.splits if_splits)
  qed
qed

lemma market_floor_is_self_iff:
  assumes "0 \<le> lag"
  shows "market_floor_is_self (Some mmb) sb hist (Some n) lag eps \<longleftrightarrow>
    (\<exists>b. sb = Some b \<and> \<bar>mmb - b\<bar> \<le> eps + 1/10^9) \<or>
    (\<exists>e\<in>set hist. \<exists>ts p. he_ts e = Some ts \<and> he_price e = Some p
        \<and> \<bar>mmb - p\<bar> \<le> eps + 1/10^9 \<and> n - dflt ts (he_ts_last e) \<le> lag)"
proof -
  define E where "E = eps + 1/10^9"
  have "market_floor_is_self (Some mmb) sb hist (Some n) lag eps \<longleftrightarrow>
      (\<exists>b. sb = Some b \<and> \<bar>mmb - b\<bar> \<le> E) \<or> self_match_scan mmb (Some n) lag E hist None \<noteq> None"
    unfolding market_floor_is_self_def market_floor_self_match_def Let_def E_def [symmetric]
    by (auto split: option.splits)
  also have "\<dots> \<longleftrightarrow> (\<exists>b. sb = Some b \<and> \<bar>mmb - b\<bar> \<le> E) \<or>
      (\<exists>e\<in>set hist. entry_match mmb (Some n) lag E e \<noteq> None)"
    unfolding self_match_scan_None by (simp add: Bex_def)
  finally show ?thesis unfolding entry_match_iff [OF assms] E_def .
qed

section \<open>Notification prices\<close>

lemma notify_price_pos [dest]: "notify_price v = Some p \<Longrightarrow> 0 < p"
  by (cases v) (auto split: if_splits)

lemma notify_price_of_price [simp]: "notify_price (of_price x) = pos_opt x"
  by (cases x) (auto simp: of_price_def)

lemma notify_outbid_supportedD:
  assumes "notify_outbid_supported notify od lb"
  obtains row nmb yb where "notify = Some row" "notify_price (new_min_bid row) = Some nmb"
    "notify_price (your_bid row) = Some yb" "yb < nmb"
    "\<And>l. pos_opt lb = Some l \<Longrightarrow> l < nmb" "\<And>d. pos_opt od = Some d \<Longrightarrow> nmb < d"
  using assms
  by (auto simp: notify_outbid_supported_def not_le simp del: pos_opt_eq_Some
      split: option.splits if_splits)

lemma floor_rise_notify_mono:
  "floor_rise_corroborated mmb lb fs None = Some False \<or>
   floor_rise_corroborated mmb lb fs n \<noteq> Some False"
  by (auto simp: floor_rise_corroborated_def Let_def split: option.splits)

section \<open>What a class asserts\<close>

lemmas classify_unfold = classify_eviction_def classify_market_def Let_def

lemma classify_ondemand_needs_bid: "er_is_bid r = Some False \<Longrightarrow> classify_eviction r \<noteq> EvOndemand"
  by (simp add: classify_unfold)

lemma classify_market_outbid:
  assumes "classify_market r od lb mmb = EvOutbid" "er_is_bid r \<noteq> Some False" "lb = Some l" "0 < l"
  shows "(\<exists>m. mmb = Some m \<and> l < m)
    \<or> (\<exists>row nmb. er_notify r = Some row \<and> notify_price (new_min_bid row) = Some nmb \<and> l < nmb)
    \<or> (mmb = None \<and> er_market_listed r = Some False)"
proof (rule ccontr)
  assume n: "\<not> ?thesis"
  have "\<not> notify_outbid_supported (er_notify r) od lb"
  proof
    assume "notify_outbid_supported (er_notify r) od lb"
    then show False by (rule notify_outbid_supportedD) (use n assms(3,4) in auto)
  qed
  with assms n show False
    by (auto simp: classify_market_def Let_def split: option.splits if_splits)
qed

lemma classify_market_notify:
  assumes "classify_market (r\<lparr>er_notify := n\<rparr>) od lb mmb \<noteq> classify_market (r\<lparr>er_notify := None\<rparr>) od lb mmb"
  shows "classify_market (r\<lparr>er_notify := n\<rparr>) od lb mmb = EvOutbid"
proof (rule ccontr)
  assume c: "classify_market (r\<lparr>er_notify := n\<rparr>) od lb mmb \<noteq> EvOutbid"
  have none: "\<not> notify_outbid_supported None d b" for d b
    by (simp add: notify_outbid_supported_def)
  show False using assms c none floor_rise_notify_mono [of mmb lb "er_floor_samples r" n]
    by (auto simp: classify_market_def Let_def split: if_splits)
qed

lemma resume_start_bid:
  "resume_in_place present True mmb lb listed tries max_tries budget spend = StartBox why \<Longrightarrow>
   \<exists>m l. mmb = Some m \<and> lb = Some l \<and> 0 < m \<and> m \<le> l \<and> listed \<noteq> Some False"
  by (auto simp: resume_in_place_def split: if_splits option.splits)

section \<open>Properties\<close>

text \<open>The self-floor test is exact: with a clock, a floor is called our own echo if and only if
  it equals the standing bid, or a recorded bid of this machine that still stood inside the echo
  window, up to the equality slack. Rows that do not read as numbers never match.\<close>

lemma echo_test_exact:
  assumes "0 \<le> lag"
  shows "market_floor_is_self (Some mmb) standing hist (Some n) lag eps \<longleftrightarrow>
    (\<exists>b. standing = Some b \<and> \<bar>mmb - b\<bar> \<le> eps + 1/10^9) \<or>
    (\<exists>e\<in>set hist. \<exists>ts p. he_ts e = Some ts \<and> he_price e = Some p
        \<and> \<bar>mmb - p\<bar> \<le> eps + 1/10^9 \<and> n - dflt ts (he_ts_last e) \<le> lag)"
  using assms by (rule market_floor_is_self_iff)

definition echo_hist :: "hist_entry list" where
  "echo_hist = [\<lparr>he_ts = Some 100, he_price = Some 2, he_machine = Some ''m1'', he_ts_last = Some 200\<rparr>,
                \<lparr>he_ts = Some 300, he_price = Some 3, he_machine = Some ''m1'', he_ts_last = Some 400\<rparr>]"

text \<open>Of several recorded bids that explain a floor, the reported match is one of them and the
  freshest: its age is the least age of any matching entry.\<close>

lemma echo_match_newest:
  assumes "market_floor_self_match (Some mmb) standing hist (Some n) lag eps = Some r" "sf_kind r = Prior"
  shows "\<exists>e\<in>set hist. entry_match mmb (Some n) lag (eps + 1/10^9) e = Some r
    \<and> (\<forall>e'\<in>set hist. \<forall>m. entry_match mmb (Some n) lag (eps + 1/10^9) e' = Some m
         \<longrightarrow> the (sf_age r) \<le> the (sf_age m))"
proof -
  define E where "E = eps + 1/10^9"
  have scan: "self_match_scan mmb (Some n) lag E hist None = Some r"
    using assms unfolding market_floor_self_match_def Let_def E_def [symmetric]
    by (auto split: if_splits option.splits)
  obtain e where "e \<in> set hist" "entry_match mmb (Some n) lag E e = Some r"
    using self_match_scan_origin [OF scan] by auto
  moreover obtain a where "sf_age r = Some a"
    "\<forall>e\<in>set hist. \<forall>m. entry_match mmb (Some n) lag E e = Some m \<longrightarrow> a \<le> the (sf_age m)"
    using self_match_scan_newest [OF scan] by auto
  ultimately show ?thesis unfolding E_def [symmetric] by auto
qed

text \<open>An outbid verdict on a bid box is backed by evidence against our own price: a listed floor
  above the standing bid, a notification row quoting a price above it, or a machine that lists no
  offer at all.\<close>

lemma outbid_is_backed:
  assumes "classify_eviction r = EvOutbid" "er_is_bid r \<noteq> Some False" "er_last_bid r = Some l" "0 < l"
  shows "(\<exists>m. er_market_min_bid r = Some m \<and> l < m)
    \<or> (\<exists>row nmb. er_notify r = Some row \<and> notify_price (new_min_bid row) = Some nmb \<and> l < nmb)
    \<or> (pos_opt (er_market_min_bid r) = None \<and> er_market_listed r = Some False)"
proof -
  have "classify_market r (pos_opt (er_on_demand r)) (Some l) (pos_opt (er_market_min_bid r)) = EvOutbid"
    using assms by (auto simp: classify_eviction_def split: if_splits)
  from classify_market_outbid [OF this assms(2) refl assms(4)] show ?thesis by auto
qed

definition sample_read :: evict_read where
  "sample_read = \<lparr>er_present = True, er_actual_status = Some ''stopped'', er_market_min_bid = Some (6/10),
     er_on_demand = Some 1, er_last_bid = Some (5/10), er_market_listed = Some True, er_is_bid = Some True,
     er_notify = None, er_account_credit_ok = None, er_floor_samples = []\<rparr>"

text \<open>A notification can only add the verdict outbid: whatever row is put in front of the
  classifier, the verdict is the one without it or outbid.\<close>

lemma notification_only_adds_outbid:
  "classify_eviction (r\<lparr>er_notify := n\<rparr>) = classify_eviction (r\<lparr>er_notify := None\<rparr>)
   \<or> classify_eviction (r\<lparr>er_notify := n\<rparr>) = EvOutbid"
  using classify_market_notify [where r = r and n = n] by (auto simp: classify_eviction_def)

text \<open>A start in place is issued only for a listed box with tries and budget left, and on a bid
  box only when the standing bid clears a positive readable floor on a machine that still lists.\<close>

lemma start_only_where_it_sticks:
  assumes "resume_in_place present is_bid mmb lb listed tries max_tries budget spend = StartBox why"
  shows "present \<and> tries < max_tries \<and> (\<forall>b. budget = Some b \<longrightarrow> spend < b)
    \<and> (is_bid \<longrightarrow> listed \<noteq> Some False \<and> (\<exists>m l. mmb = Some m \<and> lb = Some l \<and> 0 < m \<and> m \<le> l))"
proof -
  have "present \<and> tries < max_tries \<and> (\<forall>b. budget = Some b \<longrightarrow> spend < b)"
    using assms by (auto simp: resume_in_place_def split: if_splits option.splits)
  moreover have "is_bid \<longrightarrow> listed \<noteq> Some False \<and> (\<exists>m l. mmb = Some m \<and> lb = Some l \<and> 0 < m \<and> m \<le> l)"
    using resume_start_bid [of present mmb lb listed tries max_tries budget spend why] assms
    by (cases is_bid) auto
  ultimately show ?thesis by blast
qed

end
