(* ===== verification/RunFold.thy ===== *)
theory RunFold
  imports Prelude "HOL-Library.Multiset" "HOL-Library.List_Lexorder" "HOL-Library.Product_Lexorder"
    "HOL-Library.Char_ord"
begin

text \<open>
  The run-event fold of \<open>tools/vast/runmeta.py\<close>: an unordered multiset of immutable event
  objects is folded into one run view (\<open>fold_events\<close>), which \<open>final_status\<close> combines with the
  legacy STATUS marker and the liveness the vast listing reports.

  Lemma groups: the fold does not depend on the order in which objects are listed; status is
  decided by the latest relaunch epoch and a terminal event of that epoch is sticky; numeric
  folds are maxima; liveness comes from the injected set of instances alone.
\<close>

section \<open>Event objects\<close>

text \<open>A JSON scalar as \<open>json.loads\<close> returns it; \<open>JOther\<close> is a list or an object.\<close>

datatype jval = JNull | JBool bool | JInt int | JFloat rat | JInf | JNan | JStr string | JOther

type_synonym fields = "string \<rightharpoonup> jval"

text \<open>\<open>bool(x)\<close> of a looked-up field.\<close>

fun truthy :: "jval option \<Rightarrow> bool" where
  "truthy None = False"
| "truthy (Some JNull) = False"
| "truthy (Some (JBool b)) = b"
| "truthy (Some (JInt i)) = (i \<noteq> 0)"
| "truthy (Some (JFloat x)) = (x \<noteq> 0)"
| "truthy (Some JInf) = True"
| "truthy (Some JNan) = True"
| "truthy (Some (JStr s)) = (s \<noteq> [])"
| "truthy (Some JOther) = True"

text \<open>
  An event after \<open>_coerce\<close>: the core keys are present and non-empty. An object that does not
  decode, or lacks a core key, is \<open>None\<close> and only counted. The core keys are the strings every
  emitter writes.
\<close>

record run_event =
  ev_ts :: string
  ev_event :: string
  ev_run_id :: string
  ev_nonce :: string
  ev_fields :: fields

text \<open>What an object of the bucket decodes to: nothing, or a JSON object.\<close>

datatype raw_object = Undecodable | Obj fields

definition str_field :: "fields \<Rightarrow> string \<Rightarrow> string option" where
  "str_field f k = (case f k of Some (JStr s) \<Rightarrow> Some s | _ \<Rightarrow> None)"

definition coerce :: "raw_object \<Rightarrow> run_event option" where
  "coerce raw =
     (case raw of
        Undecodable \<Rightarrow> None
      | Obj f \<Rightarrow>
         (case (str_field f ''ts'', str_field f ''event'', str_field f ''run_id'') of
            (Some ts, Some ev, Some rid) \<Rightarrow>
              if ts = [] \<or> ev = [] \<or> rid = [] then None
              else Some \<lparr>ev_ts = ts, ev_event = ev, ev_run_id = rid,
                         ev_nonce = dflt [] (str_field f ''nonce''), ev_fields = f\<rparr>
          | _ \<Rightarrow> None))"

section \<open>Numeric coercion\<close>

text \<open>
  \<open>int(s)\<close> and \<open>float(s)\<close> on decimal strings: sign, digits, fraction, exponent (no digit
  separators; a decimal too large for a float is kept exact here).
\<close>

definition parse_nat :: "string \<Rightarrow> nat option" where
  "parse_nat s = (if s \<noteq> [] \<and> list_all py_isdigit s
                  then Some (foldl (\<lambda>n c. 10 * n + digit_val c) 0 s) else None)"

definition split_sign :: "string \<Rightarrow> bool \<times> string" where
  "split_sign s = (case s of
       [] \<Rightarrow> (False, [])
     | c # cs \<Rightarrow> if c = CHR ''-'' then (True, cs) else if c = CHR ''+'' then (False, cs) else (False, s))"

definition parse_int :: "string \<Rightarrow> int option" where
  "parse_int s = (case split_sign s of (neg, body) \<Rightarrow>
     map_option (\<lambda>n. if neg then - int n else int n) (parse_nat body))"

definition parse_mantissa :: "string \<Rightarrow> rat option" where
  "parse_mantissa s =
     (let ip = takeWhile (\<lambda>c. c \<noteq> CHR ''.'') s; rest = dropWhile (\<lambda>c. c \<noteq> CHR ''.'') s;
          fp = tl rest; ds = ip @ fp
      in map_option (\<lambda>n. of_nat n / 10 ^ length fp) (parse_nat ds))"

definition parse_float :: "string \<Rightarrow> rat option" where
  "parse_float s =
     (case split_sign s of (neg, body) \<Rightarrow>
       (let is_e = (\<lambda>c. c = CHR ''e'' \<or> c = CHR ''E'');
            man = takeWhile (\<lambda>c. \<not> is_e c) body; rest = dropWhile (\<lambda>c. \<not> is_e c) body
        in case (parse_mantissa man, if rest = [] then Some 0 else parse_int (tl rest)) of
             (Some m, Some e) \<Rightarrow>
               Some ((if neg then - 1 else 1) * (if 0 \<le> e then m * 10 ^ nat e else m / 10 ^ nat (- e)))
           | _ \<Rightarrow> None))"

definition num :: "jval option \<Rightarrow> rat option" where
  "num v =
     (case v of
        Some (JInt i) \<Rightarrow> Some (of_int i)
      | Some (JFloat x) \<Rightarrow> Some x
      | Some (JStr t) \<Rightarrow>
          (let s = py_strip t
           in case parse_int s of Some i \<Rightarrow> Some (of_int i) | None \<Rightarrow> parse_float s)
      | _ \<Rightarrow> None)"

section \<open>Vocabulary\<close>

definition TERMINAL :: "string list" where "TERMINAL = [''done'', ''failed'']"
definition CHURN :: "string list" where "CHURN = [''evicted'', ''relaunched'']"
definition SPEND_KEYS :: "string list" where
  "SPEND_KEYS = [''cost_usd'', ''spent_usd'', ''spend_usd'']"
definition PRICED_EVENTS :: "string list" where
  "PRICED_EVENTS = [''launched'', ''relaunched'', ''handoff_launch'', ''handoff_complete'']"
definition IID_EVENTS :: "string list" where
  "IID_EVENTS = [''launched'', ''relaunched'', ''resumed'', ''stopping'', ''evicted'', ''running'']"

record run_view =
  rv_run_id :: "string option"
  rv_status :: string
  rv_live :: bool
  rv_display_status :: string
  rv_instance_id :: "jval option"
  rv_gpu :: "jval option"
  rv_offer_id :: "jval option"
  rv_dph :: "price option"
  rv_config_hash :: "jval option"
  rv_runset :: "jval option"
  rv_base_model :: "jval option"
  rv_latest_step :: "rat option"
  rv_cost_usd :: "price option"
  rv_cost_source :: "string option"
  rv_relaunch_count :: int
  rv_fail_reason :: "jval option"
  rv_fail_rc :: "jval option"
  rv_final_step :: "rat option"
  rv_started_at :: "string option"
  rv_ended_at :: "string option"
  rv_last_event :: "string option"
  rv_last_event_ts :: "string option"
  rv_n_events :: nat
  rv_parse_errors :: nat
  rv_preempted_pending :: bool

definition empty_view :: "nat \<Rightarrow> run_view" where
  "empty_view errs = \<lparr>rv_run_id = None, rv_status = ''unknown'', rv_live = False,
     rv_display_status = ''unknown'', rv_instance_id = None, rv_gpu = None, rv_offer_id = None,
     rv_dph = None, rv_config_hash = None, rv_runset = None, rv_base_model = None,
     rv_latest_step = None, rv_cost_usd = None, rv_cost_source = None, rv_relaunch_count = 0,
     rv_fail_reason = None, rv_fail_rc = None, rv_final_step = None, rv_started_at = None,
     rv_ended_at = None, rv_last_event = None, rv_last_event_ts = None, rv_n_events = 0,
     rv_parse_errors = errs, rv_preempted_pending = False\<rparr>"

section \<open>Timestamps\<close>

text \<open>
  \<open>YYYYMMDDTHHMMSSmmmZ\<close> to unix seconds, for spans only (ordering is on the string). Fields are
  fixed-width, as every emitter writes them; a field out of its range reads as \<open>None\<close>.
\<close>

definition leap_year :: "int \<Rightarrow> bool" where
  "leap_year y = (4 dvd y \<and> (\<not> 100 dvd y \<or> 400 dvd y))"

definition days_in_month :: "int \<Rightarrow> int \<Rightarrow> int" where
  "days_in_month y m = (if m = 2 then (if leap_year y then 29 else 28)
                        else if m \<in> {4, 6, 9, 11} then 30 else 31)"

definition days_before_month :: "int \<Rightarrow> int \<Rightarrow> int" where
  "days_before_month y m = (\<Sum>k\<leftarrow>[1..m - 1]. days_in_month y k)"

definition epoch_days :: "int \<Rightarrow> int \<Rightarrow> int \<Rightarrow> int" where
  "epoch_days y m d =
     (let p = y - 1 in 365 * p + p div 4 - p div 100 + p div 400 + days_before_month y m + d) - 719163"

definition slice :: "nat \<Rightarrow> nat \<Rightarrow> string \<Rightarrow> string" where
  "slice i n s = take n (drop i s)"

definition ts_epoch :: "string \<Rightarrow> rat option" where
  "ts_epoch ts =
     (if length ts < 15 then None
      else (let s = rev (dropWhile (\<lambda>c. c = CHR ''Z'') (rev ts)); frac = drop 15 s
            in if length s < 15 \<or> length frac > 6 \<or> slice 8 1 s \<noteq> ''T'' then None
               else (case (parse_nat (slice 0 4 s), parse_nat (slice 4 2 s), parse_nat (slice 6 2 s),
                           parse_nat (slice 9 2 s), parse_nat (slice 11 2 s), parse_nat (slice 13 2 s),
                           if frac = [] then Some 0 else parse_nat frac) of
                  (Some y, Some mo, Some d, Some h, Some mi, Some se, Some fr) \<Rightarrow>
                    if 1 \<le> y \<and> 1 \<le> mo \<and> mo \<le> 12 \<and> 1 \<le> d \<and> int d \<le> days_in_month (int y) (int mo)
                       \<and> h < 24 \<and> mi < 60 \<and> se < 60
                    then Some (of_int (epoch_days (int y) (int mo) (int d) * 86400
                                       + int h * 3600 + int mi * 60 + int se)
                               + of_nat fr / 10 ^ length frac)
                    else None
                | _ \<Rightarrow> None)))"

section \<open>The fold\<close>

definition is_ev :: "string \<Rightarrow> run_event \<Rightarrow> bool" where
  "is_ev name e = (ev_event e = name)"

definition ev_in :: "string list \<Rightarrow> run_event \<Rightarrow> bool" where
  "ev_in names e = (ev_event e \<in> set names)"

definition ev_key :: "run_event \<Rightarrow> string \<times> string" where
  "ev_key e = (ev_ts e, ev_nonce e)"

definition order_events :: "run_event list \<Rightarrow> run_event list" where
  "order_events evs = sort_key ev_key evs"

text \<open>The latest relaunch epoch: from the last \<open>evicted\<close> or \<open>relaunched\<close> on.\<close>

fun last_epoch :: "run_event list \<Rightarrow> run_event list" where
  "last_epoch [] = []"
| "last_epoch (e # es) = (if list_ex (ev_in CHURN) es then last_epoch es else e # es)"

definition epoch_status :: "run_event list \<Rightarrow> string" where
  "epoch_status latest =
     (let types = set (map ev_event latest)
      in if ''failed'' \<in> types then ''failed''
         else if ''done'' \<in> types then ''done''
         else if ''running'' \<in> types then ''running''
         else if ''relaunched'' \<in> types then ''launched''
         else if ''evicted'' \<in> types then ''evicted''
         else if ''launched'' \<in> types then ''launched''
         else ''unknown'')"

definition present_field :: "string \<Rightarrow> run_event \<Rightarrow> bool" where
  "present_field k e = (case ev_fields e k of
      None \<Rightarrow> False | Some JNull \<Rightarrow> False | Some (JStr s) \<Rightarrow> s \<noteq> [] | Some _ \<Rightarrow> True)"

definition get_field :: "string \<Rightarrow> run_event \<Rightarrow> jval option" where
  "get_field k e = (case ev_fields e k of Some JNull \<Rightarrow> None | v \<Rightarrow> v)"

definition max_opt :: "rat list \<Rightarrow> rat option" where
  "max_opt xs = (if xs = [] then None else Some (foldr max (tl xs) (hd xs)))"

definition checkpoint_steps :: "run_event list \<Rightarrow> rat list" where
  "checkpoint_steps evs =
     List.map_filter (\<lambda>e. num (ev_fields e ''step'')) (filter (is_ev ''checkpoint'') evs)"

definition spend_values :: "run_event list \<Rightarrow> rat list" where
  "spend_values evs = concat (map (\<lambda>e. List.map_filter (\<lambda>k. num (ev_fields e k)) SPEND_KEYS) evs)"

text \<open>A field is counted when it is an \<open>int\<close>, which in Python includes a boolean.\<close>

definition int_field :: "jval option \<Rightarrow> int option" where
  "int_field v = (case v of
       Some (JInt i) \<Rightarrow> Some i
     | Some (JBool b) \<Rightarrow> Some (if b then 1 else 0)
     | _ \<Rightarrow> None)"

definition relaunches :: "run_event list \<Rightarrow> int" where
  "relaunches evs =
     max (int (length (filter (is_ev ''relaunched'') evs)))
         (case List.map_filter (\<lambda>e. int_field (ev_fields e ''relaunch_count'')) evs of
            [] \<Rightarrow> 0 | x # xs \<Rightarrow> foldr max xs x)"

definition launch_like :: "run_event list \<Rightarrow> run_event list" where
  "launch_like evs = filter (ev_in [''launched'', ''relaunched'']) evs"

definition fold_instance_id :: "run_event list \<Rightarrow> jval option" where
  "fold_instance_id evs =
     (let ll = launch_like evs;
          own = (if ll = [] then None else get_field ''instance_id'' (last ll))
      in if own \<noteq> None \<and> own \<noteq> Some (JStr []) then own
         else case find_last (\<lambda>e. ev_in IID_EVENTS e \<and> present_field ''instance_id'' e) evs of
                Some e \<Rightarrow> get_field ''instance_id'' e
              | None \<Rightarrow> own)"

definition newest_carrying :: "string \<Rightarrow> run_event list \<Rightarrow> jval option" where
  "newest_carrying k ll =
     (case find_last (present_field k) ll of Some e \<Rightarrow> get_field k e | None \<Rightarrow> None)"

definition event_price :: "run_event \<Rightarrow> rat option" where
  "event_price e = (case num (ev_fields e ''dph'') of
       Some d \<Rightarrow> Some d | None \<Rightarrow> num (ev_fields e ''bid_price''))"

definition fold_dph :: "run_event list \<Rightarrow> rat option" where
  "fold_dph evs =
     (case find_last (\<lambda>e. ev_in PRICED_EVENTS e \<and> event_price e \<noteq> None) evs of
        Some e \<Rightarrow> event_price e | None \<Rightarrow> None)"

definition fold_steps :: "run_event list \<Rightarrow> rat option \<times> rat option" where
  "fold_steps evs =
     (let latest = max_opt (checkpoint_steps evs);
          fs = (case find_last (is_ev ''done'') evs of
                  Some e \<Rightarrow> num (ev_fields e ''final_step'') | None \<Rightarrow> None)
      in (fs, case (fs, latest) of
                (Some f, None) \<Rightarrow> Some f
              | (Some f, Some l) \<Rightarrow> if l < f then Some f else Some l
              | (None, l) \<Rightarrow> l))"

definition started_at :: "run_event list \<Rightarrow> string option" where
  "started_at evs =
     (case map ev_ts (filter (ev_in [''launched'', ''running'']) evs) of
        [] \<Rightarrow> (case evs of [] \<Rightarrow> None | e # _ \<Rightarrow> Some (ev_ts e))
      | t # ts \<Rightarrow> Some (foldr min ts t))"

definition ended_at :: "run_event list \<Rightarrow> string option" where
  "ended_at evs =
     (case map ev_ts (filter (ev_in TERMINAL) evs) of
        [] \<Rightarrow> (if evs \<noteq> [] \<and> is_ev ''stopping'' (last evs) then Some (ev_ts (last evs)) else None)
      | t # ts \<Rightarrow> Some (foldr max ts t))"

text \<open>A derived cost, only when no event carries one and the box is priced.\<close>

definition derived_cost ::
  "rat option \<Rightarrow> rat option \<Rightarrow> string option \<Rightarrow> string option \<Rightarrow> string option \<Rightarrow> rat option" where
  "derived_cost cost dph started ended last_ts =
     (case (cost, dph) of
        (None, Some d) \<Rightarrow>
          if d = 0 then None
          else (case (Option.bind started ts_epoch,
                      Option.bind (case ended of Some t \<Rightarrow> Some t | None \<Rightarrow> last_ts) ts_epoch) of
                  (Some t0, Some t1) \<Rightarrow> if t0 < t1 then Some (round4 (d * (t1 - t0) / 3600)) else None
                | _ \<Rightarrow> None)
      | _ \<Rightarrow> None)"

definition CONTRADICTS_PREEMPT :: "string list" where
  "CONTRADICTS_PREEMPT = [''running'', ''evicted'', ''relaunched'', ''done'', ''failed'']"

fun preempted_pending :: "run_event list \<Rightarrow> bool" where
  "preempted_pending [] = False"
| "preempted_pending (e # es) =
     (if is_ev ''preempted'' e \<and> \<not> list_ex (is_ev ''preempted'') es
      then \<not> list_ex (ev_in CONTRADICTS_PREEMPT) es
      else preempted_pending es)"

definition display_of :: "string \<Rightarrow> bool \<Rightarrow> bool \<Rightarrow> string" where
  "display_of status live pending =
     (if status \<in> set TERMINAL then status
      else if live then ''running''
      else if status = ''evicted'' \<or> pending then ''evicted''
      else ''stopped'')"

text \<open>
  Instance ids are compared as strings: \<open>live_iids\<close> is the set of their renderings, and
  \<open>show_iid\<close> renders a recorded one (integers in decimal, strings as they are).
\<close>

definition fold_ordered :: "(jval \<Rightarrow> string) \<Rightarrow> string set \<Rightarrow> nat \<Rightarrow> run_event list \<Rightarrow> run_view" where
  "fold_ordered show_iid live_iids errs evs =
     (if evs = [] then empty_view errs
      else (let status = epoch_status (last_epoch evs);
                cost = max_opt (spend_values evs);
                iid = fold_instance_id evs; dph = fold_dph evs;
                started = started_at evs; ended = ended_at evs;
                last_ev = last evs;
                first_launch = find (is_ev ''launched'') evs;
                failed = find_last (is_ev ''failed'') evs;
                derived = derived_cost cost dph started ended (Some (ev_ts last_ev));
                pending = preempted_pending evs;
                live = (case iid of None \<Rightarrow> False | Some (JStr []) \<Rightarrow> False | Some v \<Rightarrow> show_iid v \<in> live_iids)
            in \<lparr>rv_run_id = Some (ev_run_id last_ev), rv_status = status, rv_live = live,
                rv_display_status = display_of status live pending,
                rv_instance_id = iid,
                rv_gpu = newest_carrying ''gpu'' (launch_like evs),
                rv_offer_id = newest_carrying ''offer_id'' (launch_like evs),
                rv_dph = dph,
                rv_config_hash = Option.bind first_launch (get_field ''config_hash''),
                rv_runset = Option.bind first_launch (get_field ''runset''),
                rv_base_model = Option.bind first_launch (get_field ''base_model''),
                rv_latest_step = snd (fold_steps evs),
                rv_cost_usd = (if cost \<noteq> None then cost else derived),
                rv_cost_source = (if cost \<noteq> None then Some ''event''
                                  else if derived \<noteq> None then Some ''derived'' else None),
                rv_relaunch_count = relaunches evs,
                rv_fail_reason = Option.bind failed (get_field ''reason''),
                rv_fail_rc = Option.bind failed (get_field ''rc''),
                rv_final_step = fst (fold_steps evs),
                rv_started_at = started, rv_ended_at = ended,
                rv_last_event = Some (ev_event last_ev), rv_last_event_ts = Some (ev_ts last_ev),
                rv_n_events = length evs, rv_parse_errors = errs,
                rv_preempted_pending = pending\<rparr>))"

definition fold_events :: "(jval \<Rightarrow> string) \<Rightarrow> string set \<Rightarrow> raw_object list \<Rightarrow> run_view" where
  "fold_events show_iid live_iids raws =
     fold_ordered show_iid live_iids (length (filter (\<lambda>r. coerce r = None) raws))
       (order_events (List.map_filter coerce raws))"

section \<open>STATUS marker and final status\<close>

record final_verdict =
  fv_status :: "string option"
  fv_terminal :: bool
  fv_display :: string

definition marker_head :: "string option \<Rightarrow> string" where
  "marker_head m =
     (let s = py_strip (dflt [] m) in map (\<lambda>c. let n = of_char c :: nat
        in if 97 \<le> n \<and> n \<le> 122 then char_of (n - 32) else c) (takeWhile (\<lambda>c. \<not> py_isspace c) s))"

text \<open>\<open>view.get(...)\<close> of a dict that may be empty: a missing status is \<open>None\<close>.\<close>

definition final_status :: "string option \<Rightarrow> bool \<Rightarrow> string option \<Rightarrow> bool \<Rightarrow> final_verdict" where
  "final_status status pending status_marker instance_live =
     (if status \<noteq> None \<and> the status \<in> set TERMINAL
      then \<lparr>fv_status = status, fv_terminal = True, fv_display = the status\<rparr>
      else if \<not> instance_live then
        (let head = marker_head status_marker
         in if head = ''DONE''
            then \<lparr>fv_status = Some ''done'', fv_terminal = True, fv_display = ''done (inferred)''\<rparr>
            else if head \<in> {''FAILED'', ''STAGED''}
            then \<lparr>fv_status = Some ''failed'', fv_terminal = True, fv_display = ''failed (inferred)''\<rparr>
            else if status = Some ''evicted'' \<or> pending
            then \<lparr>fv_status = status, fv_terminal = False, fv_display = ''evicted''\<rparr>
            else \<lparr>fv_status = status, fv_terminal = False, fv_display = ''stopped''\<rparr>)
      else \<lparr>fv_status = status, fv_terminal = False, fv_display = ''running''\<rparr>)"

section \<open>Folding a bucket of events\<close>

text \<open>
  A fold of this kind decodes every object, counts the ones that do not decode, sorts the rest on
  a key and folds the sorted list. The order in which the bucket lists the objects is irrelevant
  as soon as the key tells the decoded events apart.
\<close>

locale event_fold =
  fixes fold_objects :: "'r list \<Rightarrow> 'v"
    and decode :: "'r \<Rightarrow> 'e option"
    and key :: "'e \<Rightarrow> 'k::linorder"
    and body :: "nat \<Rightarrow> 'e list \<Rightarrow> 'v"
  assumes fold_sorted: "fold_objects raws =
    body (length (filter (\<lambda>r. decode r = None) raws)) (sort_key key (List.map_filter decode raws))"
begin

lemma mset_map_filter: "mset raws = mset raws' \<Longrightarrow> mset (List.map_filter decode raws) = mset (List.map_filter decode raws')"
  unfolding List.map_filter_def mset_map mset_filter by simp

lemma order_independent:
  assumes "mset raws = mset raws'" "inj_on key (set (List.map_filter decode raws))"
  shows "fold_objects raws = fold_objects raws'"
proof -
  have m: "mset (List.map_filter decode raws) = mset (List.map_filter decode raws')"
    using assms(1) by (rule mset_map_filter)
  have "sort_key key (List.map_filter decode raws) = sort_key key (List.map_filter decode raws')"
    by (rule sort_key_inj_key_eq) (use m assms(2) in auto)
  moreover have "length (filter (\<lambda>r. decode r = None) raws) = length (filter (\<lambda>r. decode r = None) raws')"
    by (metis assms(1) mset_filter size_mset)
  ultimately show ?thesis by (simp add: fold_sorted)
qed

text \<open>An object that does not decode only moves the error count.\<close>

lemma undecodable_counted:
  assumes "decode r = None"
  shows "fold_objects (r # raws) =
    body (Suc (length (filter (\<lambda>r. decode r = None) raws))) (sort_key key (List.map_filter decode raws))"
  using assms by (simp add: fold_sorted List.map_filter_simps)

end

interpretation rf: event_fold "fold_events show_iid live_iids" coerce ev_key
    "fold_ordered show_iid live_iids" for show_iid live_iids
  by unfold_locales (simp add: fold_events_def order_events_def)

section \<open>The status of the latest epoch\<close>

lemma last_epoch_snoc:
  "last_epoch (es @ [e]) = (if ev_in CHURN e then [e] else last_epoch es @ [e])"
  by (induction es) auto

lemma last_epoch_suffix: "\<exists>pre. es = pre @ last_epoch es"
proof (induction es)
  case (Cons e es)
  then obtain pre where "es = pre @ last_epoch es" by blast
  then have "e # es = (e # pre) @ last_epoch es" by simp
  then show ?case by (metis append_Nil last_epoch.simps(2))
qed simp

lemma rv_status_fold:
  "rv_status (fold_ordered show_iid live errs evs) = (if evs = [] then ''unknown'' else epoch_status (last_epoch evs))"
  by (simp add: fold_ordered_def empty_view_def Let_def)

lemma epoch_status_failed: "epoch_status es = ''failed'' \<longleftrightarrow> ''failed'' \<in> set (map ev_event es)"
  by (simp add: epoch_status_def Let_def)

lemma epoch_status_done:
  "epoch_status es = ''done'' \<longleftrightarrow> ''done'' \<in> set (map ev_event es) \<and> ''failed'' \<notin> set (map ev_event es)"
  by (simp add: epoch_status_def Let_def)

lemma status_sticky:
  assumes "rv_status (fold_ordered show_iid live errs evs) = st" "st \<in> set TERMINAL" "\<not> ev_in CHURN e"
    "st = ''done'' \<Longrightarrow> ev_event e \<noteq> ''failed''"
  shows "rv_status (fold_ordered show_iid live errs (evs @ [e])) = st"
proof -
  have ne: "evs \<noteq> []" using assms(1,2) by (auto simp: rv_status_fold TERMINAL_def)
  have ep: "last_epoch (evs @ [e]) = last_epoch evs @ [e]" using assms(3) by (simp add: last_epoch_snoc)
  consider "st = ''failed''" | "st = ''done''" using assms(2) by (auto simp: TERMINAL_def)
  then show ?thesis
  proof cases
    case 1
    then show ?thesis using assms(1) ne ep epoch_status_failed [of "last_epoch evs"]
        epoch_status_failed [of "last_epoch evs @ [e]"] by (simp add: rv_status_fold)
  next
    case 2
    then show ?thesis using assms(1,4) ne ep epoch_status_done [of "last_epoch evs"]
        epoch_status_done [of "last_epoch evs @ [e]"] by (auto simp: rv_status_fold)
  qed
qed

lemma status_churn:
  assumes "ev_event e = ''relaunched''"
  shows "rv_status (fold_ordered show_iid live errs (evs @ [e])) = ''launched''"
  using assms by (simp add: rv_status_fold last_epoch_snoc ev_in_def CHURN_def epoch_status_def)

section \<open>Numeric folds and liveness\<close>

lemma foldr_max_ge: "x \<in> set (y # ys) \<Longrightarrow> x \<le> foldr max ys (y::'a::linorder)"
  by (induction ys) (auto simp: le_max_iff_disj)

lemma max_opt_ge: "x \<in> set xs \<Longrightarrow> \<exists>m. max_opt xs = Some m \<and> x \<le> m"
  using foldr_max_ge [of x "hd xs" "tl xs"] by (cases xs) (auto simp: max_opt_def)

lemma foldr_max_in: "foldr max ys y \<in> set (y # (ys::'a::linorder list))"
  by (induction ys) (auto simp: max_def)

lemma max_opt_in: "max_opt xs = Some m \<Longrightarrow> m \<in> set xs"
  using foldr_max_in [of "tl xs" "hd xs"] by (cases xs) (auto simp: max_opt_def split: if_splits)

lemma rv_cost_ge:
  assumes "e \<in> set evs" "k \<in> set SPEND_KEYS" "num (ev_fields e k) = Some v"
  shows "\<exists>c. rv_cost_usd (fold_ordered show_iid live errs evs) = Some c \<and> v \<le> c
           \<and> rv_cost_source (fold_ordered show_iid live errs evs) = Some ''event''"
proof -
  have "v \<in> set (spend_values evs)"
    using assms by (force simp: spend_values_def List.map_filter_def)
  then obtain c where c: "max_opt (spend_values evs) = Some c" "v \<le> c" using max_opt_ge by blast
  have "evs \<noteq> []" using assms(1) by auto
  then show ?thesis using c by (simp add: fold_ordered_def Let_def)
qed

lemma rv_live_listed:
  "rv_live (fold_ordered show_iid live errs evs) \<Longrightarrow>
   \<exists>v. rv_instance_id (fold_ordered show_iid live errs evs) = Some v \<and> show_iid v \<in> live"
  by (auto simp: fold_ordered_def empty_view_def Let_def split: if_splits option.splits jval.splits list.splits)

lemma display_running:
  "rv_display_status (fold_ordered show_iid live errs evs) = ''running'' \<Longrightarrow>
   rv_live (fold_ordered show_iid live errs evs)"
  by (auto simp: fold_ordered_def empty_view_def display_of_def TERMINAL_def Let_def split: if_splits)

section \<open>The final verdict\<close>

lemma final_terminal_iff:
  "fv_terminal (final_status st pending marker live) \<longleftrightarrow>
     (st = Some ''done'' \<or> st = Some ''failed'')
   \<or> (\<not> live \<and> marker_head marker \<in> {''DONE'', ''FAILED'', ''STAGED''})"
  by (cases st) (auto simp: final_status_def TERMINAL_def Let_def)

lemma final_terminal_status:
  "fv_terminal (final_status st pending marker live) \<Longrightarrow>
   fv_status (final_status st pending marker live) \<in> {Some ''done'', Some ''failed''}"
  by (auto simp: final_status_def TERMINAL_def Let_def split: if_splits)

section \<open>Properties\<close>

text \<open>The run view does not depend on the order in which the bucket lists the event objects, as
  long as two different events never share their timestamp and nonce.\<close>

lemma fold_order_irrelevant:
  assumes "mset raws = mset raws'" "inj_on ev_key (set (List.map_filter coerce raws))"
  shows "fold_events show_iid live_iids raws = fold_events show_iid live_iids raws'"
  using assms by (rule rf.order_independent)

definition raw_ev :: "string \<Rightarrow> string \<Rightarrow> (string \<times> jval) list \<Rightarrow> raw_object" where
  "raw_ev ts ev fs = Obj (map_of ([(''ts'', JStr ts), (''event'', JStr ev), (''run_id'', JStr ''r1'')] @ fs))"

definition sample_log :: "raw_object list" where
  "sample_log = [raw_ev ''20260101T000000000Z'' ''launched'' [(''instance_id'', JInt 7)],
                 raw_ev ''20260101T010000000Z'' ''checkpoint'' [(''cost_usd'', JFloat 3)],
                 Undecodable, raw_ev ''20260101T020000000Z'' ''done'' []]"

lemma sample_log_keys: "inj_on ev_key (set (List.map_filter coerce sample_log))"
proof -
  have "map ev_key (List.map_filter coerce sample_log) =
      [(''20260101T000000000Z'', []), (''20260101T010000000Z'', []), (''20260101T020000000Z'', [])]"
    by code_simp
  then have "distinct (map ev_key (List.map_filter coerce sample_log))" by simp
  then show ?thesis by (simp add: distinct_map)
qed

text \<open>A terminal status is sticky inside its relaunch epoch: no later event moves \<open>failed\<close>, and
  none but a failure moves \<open>done\<close>, unless it opens a new epoch.\<close>

lemma terminal_status_sticky:
  assumes "rv_status (fold_ordered show_iid live errs evs) = st" "st \<in> {''done'', ''failed''}"
    "ev_event e \<notin> {''evicted'', ''relaunched''}" "st = ''done'' \<Longrightarrow> ev_event e \<noteq> ''failed''"
  shows "rv_status (fold_ordered show_iid live errs (evs @ [e])) = st"
  using status_sticky [of show_iid live errs evs st e] assms
  by (simp add: TERMINAL_def ev_in_def CHURN_def)

definition named_ev :: "string \<Rightarrow> run_event" where
  "named_ev n = \<lparr>ev_ts = ''t'', ev_event = n, ev_run_id = ''r'', ev_nonce = [], ev_fields = Map.empty\<rparr>"

text \<open>Money is never under-reported: the folded cost is at least every spend figure any event of
  the run carries, and it is then labelled as recorded rather than derived.\<close>

lemma recorded_spend_is_floor:
  assumes "e \<in> set evs" "k \<in> set SPEND_KEYS" "num (ev_fields e k) = Some v"
  shows "\<exists>c. rv_cost_usd (fold_ordered show_iid live errs evs) = Some c \<and> v \<le> c
           \<and> rv_cost_source (fold_ordered show_iid live errs evs) = Some ''event''"
  using assms by (rule rv_cost_ge)

text \<open>Liveness comes from the injected listing alone: a view that displays \<open>running\<close> names an
  instance that is in the listing.\<close>

lemma running_is_listed:
  assumes "rv_display_status (fold_ordered show_iid live errs evs) = ''running''"
  shows "\<exists>v. rv_instance_id (fold_ordered show_iid live errs evs) = Some v \<and> show_iid v \<in> live"
  using rv_live_listed display_running assms by blast

end
