(* ===== verification/PollState.thy ===== *)
theory PollState
  imports BidRails RunFold Eviction
begin

text \<open>
  The state dict one supervision tick hands to the pure step functions of
  \<open>tools/vast/bidpolicy.py\<close> (\<open>mk_poll_state\<close>), and the guards that read it: operator intent,
  the spend and wall-clock caps, the relaunch cap, the eviction reason and the underbid park.
\<close>

text \<open>
  \<open>ps_view\<close> is the folded run view (\<open>None\<close> for the empty dict). The fields after
  \<open>ps_defense_cap\<close> are the ones the lanes carry beside the factory's keys.
\<close>

record poll_state =
  ps_view :: "run_view option"
  ps_present :: bool
  ps_actual_status :: "string option"
  ps_intended_status :: "string option"
  ps_status_marker :: "string option"
  ps_stopping_actor :: "string option"
  ps_stopping_reason :: "string option"
  ps_not_live_streak :: int
  ps_backoff_ready :: bool
  ps_relaunch_count :: int
  ps_spend_usd :: price
  ps_wall_clock_s :: secs
  ps_max_relaunch :: int
  ps_budget_usd :: "price option"
  ps_wall_budget_s :: "secs option"
  ps_max_bid :: "price option"
  ps_last_bid :: "price option"
  ps_market_min_bid :: "price option"
  ps_last_bid_put_ts :: secs
  ps_rescue_attempted :: bool
  ps_now :: secs
  ps_defend_at :: "rat option"
  ps_decay_streak :: nat
  ps_on_demand :: "price option"
  ps_handoff_fenced :: bool
  ps_notify_min_bid :: jnum
  ps_launch_dph_anchor :: "price option"
  ps_rebid_ceiling_mult :: "rat option"
  ps_defense_cap :: "price option"
  ps_decay_streak_since :: "secs option"
  ps_market_min_bid_raw :: "price option"
  ps_bid_history :: "hist_entry list"
  ps_machine_id :: "string option"

definition mk_poll_state :: poll_state where
  "mk_poll_state = \<lparr>ps_view = None, ps_present = False, ps_actual_status = None,
     ps_intended_status = None, ps_status_marker = None, ps_stopping_actor = None,
     ps_stopping_reason = None, ps_not_live_streak = 0, ps_backoff_ready = False,
     ps_relaunch_count = 0, ps_spend_usd = 0, ps_wall_clock_s = 0, ps_max_relaunch = 3,
     ps_budget_usd = None, ps_wall_budget_s = Some (48 * 3600), ps_max_bid = None,
     ps_last_bid = None, ps_market_min_bid = None, ps_last_bid_put_ts = 0,
     ps_rescue_attempted = False, ps_now = 0, ps_defend_at = None, ps_decay_streak = 0,
     ps_on_demand = None, ps_handoff_fenced = False, ps_notify_min_bid = Unparsed,
     ps_launch_dph_anchor = None, ps_rebid_ceiling_mult = None, ps_defense_cap = None,
     ps_decay_streak_since = None, ps_market_min_bid_raw = None, ps_bid_history = [],
     ps_machine_id = None\<rparr>"

text \<open>A live box: listed, and in a non-terminal state.\<close>

definition ps_live :: "'a poll_state_scheme \<Rightarrow> bool" where
  "ps_live s = (ps_present s \<and> (case ps_actual_status s of None \<Rightarrow> False | Some a \<Rightarrow> a \<in> LIVE_STATES))"

section \<open>Guards\<close>

definition actor_is_cli :: "string option \<Rightarrow> bool" where
  "actor_is_cli actor = (case actor of None \<Rightarrow> False | Some a \<Rightarrow> starts_with ''cli:'' a)"

datatype cap = CapBudget | CapWall | CapMaxRelaunch

definition spend_time_exceeded :: "poll_state \<Rightarrow> cap option" where
  "spend_time_exceeded s =
     (if (case ps_budget_usd s of Some b \<Rightarrow> b \<le> ps_spend_usd s | None \<Rightarrow> False) then Some CapBudget
      else if (case ps_wall_budget_s s of Some w \<Rightarrow> w \<le> ps_wall_clock_s s | None \<Rightarrow> False) then Some CapWall
      else None)"

definition guardrail_exceeded :: "poll_state \<Rightarrow> cap option" where
  "guardrail_exceeded s =
     (if ps_max_relaunch s \<le> ps_relaunch_count s then Some CapMaxRelaunch else spend_time_exceeded s)"

definition evict_reason :: "poll_state \<Rightarrow> string" where
  "evict_reason s =
     (case ps_stopping_reason s of
        Some r \<Rightarrow> if r \<noteq> [] then r else if ps_present s then ''outbid'' else ''host_death''
      | None \<Rightarrow> if ps_present s then ''outbid'' else ''host_death'')"

definition underbid_parked :: "poll_state \<Rightarrow> bool" where
  "underbid_parked s =
     (case (ps_last_bid s,
            case ps_market_min_bid_raw s of None \<Rightarrow> ps_market_min_bid s | Some r \<Rightarrow> Some r) of
        (Some lb, Some mmb) \<Rightarrow> lb < mmb - 1/10^9
      | _ \<Rightarrow> False)"

lemma underbid_parkedD:
  "underbid_parked s \<Longrightarrow> \<exists>lb m. ps_last_bid s = Some lb \<and>
     (ps_market_min_bid_raw s = Some m \<or> ps_market_min_bid s = Some m) \<and> lb < m"
  by (fastforce simp: underbid_parked_def split: option.splits)

lemma guardrail_exceeded_None:
  "guardrail_exceeded s = None \<longleftrightarrow>
   ps_relaunch_count s < ps_max_relaunch s \<and> spend_time_exceeded s = None"
  by (auto simp: guardrail_exceeded_def)

lemma spend_time_exceeded_None:
  "spend_time_exceeded s = None \<longleftrightarrow>
   (\<forall>b. ps_budget_usd s = Some b \<longrightarrow> ps_spend_usd s < b) \<and>
   (\<forall>w. ps_wall_budget_s s = Some w \<longrightarrow> ps_wall_clock_s s < w)"
  by (auto simp: spend_time_exceeded_def split: option.splits)

end
