(* ===== verification/Defense.thy ===== *)
theory Defense
  imports PollState
begin

text \<open>
  What a held box is worth, and the rungs that raise a bid on an evicted one
  (\<open>tools/vast/bidpolicy.py\<close>): the cost per useful hour (\<open>spot_breakeven\<close>), the job-aware
  ceiling (\<open>resolve_defend\<close>, \<open>lost_work_hours\<close>, \<open>defense_ceiling\<close>), the ceiling every
  escalating rung shares (\<open>rebid_ceiling\<close>), the notification-priced rescue quote
  (\<open>notify_rescue_bound\<close>) and the re-bid ladder (\<open>rebid_ladder\<close>).

  Lemma groups: the breakeven rule is the threshold rule its comment states; the shared ceiling
  is the least of its bounds; the rescue quote and every rung stay under that ceiling and leave
  the minimum runtime affordable.
\<close>

section \<open>Constants\<close>

definition SPOT_SETUP_H :: hours where "SPOT_SETUP_H = 193/1000"
definition SPOT_PRIOR_BAND_TOP_FRAC :: rat where "SPOT_PRIOR_BAND_TOP_FRAC = 70/100"
definition SPOT_PRIOR_LIFETIME_H :: hours where
  "SPOT_PRIOR_LIFETIME_H = round3 (SPOT_SETUP_H / (1 - SPOT_PRIOR_BAND_TOP_FRAC))"
definition REPLACE_CEILING_MULT :: rat where "REPLACE_CEILING_MULT = 2"
definition REPLACE_MIN_RUNTIME_H :: hours where "REPLACE_MIN_RUNTIME_H = 25/100"
definition REBID_STEP :: rat where "REBID_STEP = 25/100"
definition REBID_MAX_RUNGS :: int where "REBID_MAX_RUNGS = 3"
definition REBID_WAIT_S :: secs where "REBID_WAIT_S = 300"
definition REBID_CEILING_MULT :: rat where "REBID_CEILING_MULT = REPLACE_CEILING_MULT"

section \<open>Cost per useful hour\<close>

datatype cost = Finite rat | Infinite

text \<open>\<open>None\<close> is the triple of \<open>None\<close>s: a required input is missing or invalid.\<close>

definition spot_breakeven ::
  "price option \<Rightarrow> price option \<Rightarrow> hours option \<Rightarrow> hours option \<Rightarrow> hours \<Rightarrow> (bool \<times> cost \<times> price) option" where
  "spot_breakeven spot_dph ondemand_dph setup_h expected_lifetime_h ckpt_interval_h =
     (case (spot_dph, ondemand_dph, setup_h, expected_lifetime_h) of
        (Some s, Some od, Some su, Some L) \<Rightarrow>
          (let overhead = su + ckpt_interval_h / 2
           in if s \<le> 0 \<or> od \<le> 0 \<or> L \<le> 0 \<or> overhead < 0 then None
              else if L \<le> overhead then Some (False, Infinite, od)
              else (let spot_cost = s * L / (L - overhead)
                    in Some (spot_cost < od, Finite (round4 spot_cost), od)))
      | _ \<Rightarrow> None)"

section \<open>The job-aware ceiling\<close>

datatype defend_mode = Dear | Cheap

definition defend_hint :: "string option \<Rightarrow> defend_mode option" where
  "defend_hint defend =
     (case defend of
        None \<Rightarrow> None
      | Some d \<Rightarrow> (let h = py_lower (py_strip d)
                   in if h = ''dear'' then Some Dear else if h = ''cheap'' then Some Cheap else None))"

definition resolve_defend :: "string option \<Rightarrow> hours option \<Rightarrow> defend_mode" where
  "resolve_defend defend ckpt_interval_h =
     (case defend_hint defend of
        Some m \<Rightarrow> m
      | None \<Rightarrow> if 0 < dflt 0 ckpt_interval_h then Dear else Cheap)"

definition lost_work_hours :: "string option \<Rightarrow> hours option \<Rightarrow> hours option \<Rightarrow> hours \<times> defend_mode" where
  "lost_work_hours defend ckpt_interval_h prior_runtime_h =
     (case resolve_defend defend ckpt_interval_h of
        Cheap \<Rightarrow> (0, Cheap)
      | Dear \<Rightarrow> (if 0 < dflt 0 ckpt_interval_h then (dflt 0 ckpt_interval_h / 2, Dear)
                 else (max 0 (dflt 0 prior_runtime_h), Dear)))"

datatype basis = Remaining | PriorBasis

definition defense_ceiling ::
  "price option \<Rightarrow> hours option \<Rightarrow> hours option \<Rightarrow> hours option \<Rightarrow> string option \<Rightarrow> hours option
     \<Rightarrow> (price \<times> basis) option" where
  "defense_ceiling p_alt remaining_h setup_h ckpt_interval_h defend prior_runtime_h =
     (case pos_opt p_alt of
        None \<Rightarrow> None
      | Some pa \<Rightarrow>
         (let (r, b) = (case pos_opt remaining_h of
                          Some r \<Rightarrow> (r, Remaining) | None \<Rightarrow> (SPOT_PRIOR_LIFETIME_H, PriorBasis));
              lost_h = fst (lost_work_hours defend ckpt_interval_h prior_runtime_h)
          in case setup_h of
               None \<Rightarrow> None
             | Some su \<Rightarrow>
                (let overhead = su + lost_h
                 in if overhead < 0 then None else Some (round3 (pa * (1 + overhead / r)), b))))"

section \<open>The ceiling of an escalating rung\<close>

definition rebid_bounds ::
  "price option \<Rightarrow> price option \<Rightarrow> rat \<Rightarrow> price option list \<Rightarrow> price list" where
  "rebid_bounds launch_dph_anchor max_bid ceiling_mult extra_bounds =
     opt_list (map_option (\<lambda>a. round3 (ceiling_mult * a)) (pos_opt launch_dph_anchor))
     @ opt_list max_bid @ concat (map opt_list extra_bounds)"

definition rebid_ceiling ::
  "price option \<Rightarrow> price option \<Rightarrow> price option \<Rightarrow> rat \<Rightarrow> price option list \<Rightarrow> price option" where
  "rebid_ceiling launch_dph_anchor max_bid on_demand ceiling_mult extra_bounds =
     (let bounds = rebid_bounds launch_dph_anchor max_bid ceiling_mult extra_bounds
      in if bounds = [] then None
         else Some (clamp_opt (min_list bounds) (effective_bid_ceiling (pos_opt on_demand) None None)))"

section \<open>The notification-priced rescue quote\<close>

datatype rescue_refusal = NoCeiling | RailsRefused | BudgetExhausted | TooShort

record notify_rescue =
  nr_price :: "price option"
  nr_floor :: "price option"
  nr_ceiling :: "price option"
  nr_anchor :: "price option"
  nr_budget_left :: "price option"
  nr_refusal :: "rescue_refusal option"

definition budget_left_of :: "price option \<Rightarrow> price \<Rightarrow> price option" where
  "budget_left_of budget spend = map_option (\<lambda>b. round4 (b - spend)) budget"

definition notify_rescue_bound :: "poll_state \<Rightarrow> notify_rescue" where
  "notify_rescue_bound s =
     (let flo = notify_rescue_floor (ps_notify_min_bid s) (ps_market_min_bid s);
          mmb = notify_price (of_price (ps_market_min_bid s));
          anchor = ps_launch_dph_anchor s
      in case flo of
           None \<Rightarrow> \<lparr>nr_price = None, nr_floor = None, nr_ceiling = None, nr_anchor = anchor,
                    nr_budget_left = None, nr_refusal = None\<rparr>
         | Some f \<Rightarrow>
             if (case mmb of Some m \<Rightarrow> f \<le> m + CEIL_EPS | None \<Rightarrow> False)
             then \<lparr>nr_price = None, nr_floor = None, nr_ceiling = None, nr_anchor = anchor,
                    nr_budget_left = None, nr_refusal = None\<rparr>
             else (let mult = dflt REBID_CEILING_MULT (ps_rebid_ceiling_mult s);
                       ceil = rebid_ceiling anchor (ps_max_bid s) (ps_on_demand s) mult [ps_defense_cap s];
                       left = budget_left_of (ps_budget_usd s) (ps_spend_usd s);
                       refuse = (\<lambda>c why. \<lparr>nr_price = None, nr_floor = Some f, nr_ceiling = c,
                                   nr_anchor = anchor, nr_budget_left = left, nr_refusal = Some why\<rparr>)
                   in case ceil of
                        None \<Rightarrow> refuse None NoCeiling
                      | Some c \<Rightarrow>
                         (case bid_target_price (Some f) (Some c) (ps_on_demand s) of
                            None \<Rightarrow> refuse (Some c) RailsRefused
                          | Some p \<Rightarrow>
                              if (case left of Some l \<Rightarrow> l \<le> 0 | None \<Rightarrow> False)
                              then refuse (Some c) BudgetExhausted
                              else if (case left of Some l \<Rightarrow> l / p < REPLACE_MIN_RUNTIME_H | None \<Rightarrow> False)
                              then refuse (Some c) TooShort
                              else \<lparr>nr_price = Some p, nr_floor = Some f, nr_ceiling = Some c,
                                    nr_anchor = anchor, nr_budget_left = left, nr_refusal = None\<rparr>)))"

section \<open>The re-bid ladder\<close>

record rebid_in =
  ri_last_bid :: "price option"
  ri_market_min_bid :: "price option"
  ri_on_demand :: "price option"
  ri_max_bid :: "price option"
  ri_rungs_used :: int
  ri_launch_dph_anchor :: "price option"
  ri_eviction_class :: "eviction_class option"
  ri_budget_usd :: "price option"
  ri_spend_usd :: price
  ri_step :: rat
  ri_max_rungs :: int
  ri_ceiling_mult :: rat
  ri_min_runtime_h :: hours
  ri_p_alt :: "price option"
  ri_remaining_h :: "hours option"
  ri_ckpt_interval_h :: "hours option"
  ri_setup_h :: "hours option"
  ri_defend :: "string option"
  ri_prior_runtime_h :: "hours option"

text \<open>The defaults of the keyword arguments that have one.\<close>

definition mk_rebid_in ::
  "price option \<Rightarrow> price option \<Rightarrow> price option \<Rightarrow> price option \<Rightarrow> int \<Rightarrow> price option \<Rightarrow> rebid_in" where
  "mk_rebid_in last_bid mmb od max_bid rungs_used anchor =
     \<lparr>ri_last_bid = last_bid, ri_market_min_bid = mmb, ri_on_demand = od, ri_max_bid = max_bid,
      ri_rungs_used = rungs_used, ri_launch_dph_anchor = anchor, ri_eviction_class = None,
      ri_budget_usd = None, ri_spend_usd = 0, ri_step = REBID_STEP, ri_max_rungs = REBID_MAX_RUNGS,
      ri_ceiling_mult = REBID_CEILING_MULT, ri_min_runtime_h = REPLACE_MIN_RUNTIME_H,
      ri_p_alt = None, ri_remaining_h = None, ri_ckpt_interval_h = Some 0,
      ri_setup_h = Some SPOT_SETUP_H, ri_defend = None, ri_prior_runtime_h = None\<rparr>"

text \<open>\<open>HeadroomGone\<close> carries the binding bound: the job-aware ceiling, the on-demand one, or neither.\<close>

datatype binding = BoundDefense | BoundOndemand | BoundOther

datatype rebid_reason =
    LadderDisabled
  | OndemandClaim
  | NoStandingBid
  | RungsExhausted bool
  | NoDerivableCeiling
  | CannotWin bid_reason
  | HeadroomGone binding
  | RebidBudgetExhausted
  | RebidTooShort
  | Rung int

text \<open>What a cheap defend changed: the hours it writes off, its ceiling, the dear ceiling, explicit.\<close>

type_synonym defend_note = "(hours \<times> price \<times> price \<times> bool) option"

record rebid =
  rb_price :: "price option"
  rb_reason :: rebid_reason
  rb_ceiling :: "price option"
  rb_rungs_left :: int
  rb_note :: defend_note

definition defend_note_of :: "rebid_in \<Rightarrow> price option \<Rightarrow> defend_note" where
  "defend_note_of r defense_cap =
     (case defense_cap of
        None \<Rightarrow> None
      | Some dc \<Rightarrow>
         if resolve_defend (ri_defend r) (ri_ckpt_interval_h r) \<noteq> Cheap then None
         else (let dear_h = fst (lost_work_hours (Some ''dear'') (ri_ckpt_interval_h r) (ri_prior_runtime_h r))
               in case defense_ceiling (ri_p_alt r) (ri_remaining_h r) (ri_setup_h r)
                         (ri_ckpt_interval_h r) (Some ''dear'') (ri_prior_runtime_h r) of
                    None \<Rightarrow> None
                  | Some (dear_cap, _) \<Rightarrow>
                      if 0 < dear_h \<and> dc < dear_cap
                      then Some (dear_h, dc, dear_cap, defend_hint (ri_defend r) \<noteq> None) else None))"

text \<open>The rung itself, once a ceiling is known.\<close>

definition rebid_rung :: "rebid_in \<Rightarrow> price option \<Rightarrow> defend_note \<Rightarrow> int \<Rightarrow> price \<Rightarrow> price \<Rightarrow> rebid" where
  "rebid_rung r defense_cap note rungs_left last_bid ceil =
     (let od = pos_opt (ri_on_demand r);
          dec = bid_decision (ri_market_min_bid r) (Some ceil) od no_opts;
          step_price = round3 (last_bid * (1 + ri_step r));
          nxt = (case bt_price dec of None \<Rightarrow> step_price | Some t \<Rightarrow> max step_price t);
          nxt = round3 (min nxt ceil);
          stop = (\<lambda>why nt. \<lparr>rb_price = None, rb_reason = why, rb_ceiling = Some ceil,
                             rb_rungs_left = rungs_left, rb_note = nt\<rparr>)
      in if pos_opt (ri_market_min_bid r) \<noteq> None \<and> bt_price dec = None then stop (CannotWin (bt_reason dec)) None
         else if nxt - last_bid < BID_MIN_STEP then
           (if (case defense_cap of Some dc \<Rightarrow> \<bar>ceil - dc\<bar> \<le> CEIL_EPS | None \<Rightarrow> False)
            then stop (HeadroomGone BoundDefense) note
            else if (case effective_bid_ceiling od None None of Some o_c \<Rightarrow> ceil \<le> o_c + CEIL_EPS | None \<Rightarrow> False)
            then stop (HeadroomGone BoundOndemand) None
            else stop (HeadroomGone BoundOther) None)
         else (case budget_left_of (ri_budget_usd r) (ri_spend_usd r) of
                 Some left \<Rightarrow>
                   if left \<le> 0 then stop RebidBudgetExhausted None
                   else if left / nxt < ri_min_runtime_h r then stop RebidTooShort None
                   else \<lparr>rb_price = Some nxt, rb_reason = Rung (ri_rungs_used r + 1), rb_ceiling = Some ceil,
                         rb_rungs_left = rungs_left - 1, rb_note = note\<rparr>
               | None \<Rightarrow> \<lparr>rb_price = Some nxt, rb_reason = Rung (ri_rungs_used r + 1), rb_ceiling = Some ceil,
                         rb_rungs_left = rungs_left - 1, rb_note = note\<rparr>))"

definition rebid_ladder :: "rebid_in \<Rightarrow> rebid" where
  "rebid_ladder r =
     (let defense_cap = map_option fst (defense_ceiling (ri_p_alt r) (ri_remaining_h r) (ri_setup_h r)
                          (ri_ckpt_interval_h r) (ri_defend r) (ri_prior_runtime_h r));
          note = defend_note_of r defense_cap;
          max_rungs = (if defense_cap \<noteq> None then min (ri_max_rungs r) 1 else ri_max_rungs r);
          rungs_left = max 0 (max_rungs - ri_rungs_used r);
          stop = (\<lambda>why n. \<lparr>rb_price = None, rb_reason = why, rb_ceiling = None, rb_rungs_left = n,
                            rb_note = None\<rparr>)
      in if max_rungs \<le> 0 then stop LadderDisabled 0
         else if ri_eviction_class r = Some EvOndemand then stop OndemandClaim rungs_left
         else (case pos_opt (ri_last_bid r) of
                 None \<Rightarrow> stop NoStandingBid rungs_left
               | Some last_bid \<Rightarrow>
                   if rungs_left \<le> 0 then stop (RungsExhausted (defense_cap \<noteq> None)) 0
                   else (case rebid_ceiling (pos_opt (ri_launch_dph_anchor r)) (ri_max_bid r)
                                (pos_opt (ri_on_demand r)) (ri_ceiling_mult r) [defense_cap] of
                           None \<Rightarrow> stop NoDerivableCeiling rungs_left
                         | Some ceil \<Rightarrow> rebid_rung r defense_cap note rungs_left last_bid ceil)))"

section \<open>What the ceilings guarantee\<close>

lemma spot_breakeven_threshold:
  assumes "0 < s" "0 < od" "0 < L" "0 \<le> su + ck / 2"
  shows "(\<exists>c. spot_breakeven (Some s) (Some od) (Some su) (Some L) ck = Some (True, c, od))
         \<longleftrightarrow> su + ck / 2 < L \<and> s / od < 1 - (su + ck / 2) / L"
proof (cases "L \<le> su + ck / 2")
  case True
  then show ?thesis using assms by (simp add: spot_breakeven_def)
next
  case False
  define ov where "ov = su + ck / 2"
  have pos: "0 < L - ov" using False ov_def by simp
  have "s * L / (L - ov) < od \<longleftrightarrow> s / od < 1 - ov / L"
    using assms(1-3) pos by (simp add: field_simps)
  then show ?thesis using False assms unfolding ov_def
    by (simp add: spot_breakeven_def Let_def)
qed

lemma defense_ceiling_ge_alt:
  assumes "defense_ceiling p_alt rem su ck defend prior = Some (c, b)"
  obtains pa where "p_alt = Some pa" "0 < pa" "round3 pa \<le> c"
proof -
  obtain pa where pa: "p_alt = Some pa" "0 < pa"
    using assms by (auto simp: defense_ceiling_def split: option.splits)
  obtain r where r: "0 < r" "\<exists>ov\<ge>0. c = round3 (pa * (1 + ov / r))"
  proof (cases "pos_opt rem")
    case None
    then have "\<exists>ov\<ge>0. c = round3 (pa * (1 + ov / SPOT_PRIOR_LIFETIME_H))"
      using assms pa by (auto simp: defense_ceiling_def Let_def not_less split: option.splits if_splits)
    moreover have "0 < SPOT_PRIOR_LIFETIME_H" by code_simp
    ultimately show ?thesis using that by blast
  next
    case (Some r)
    then have "\<exists>ov\<ge>0. c = round3 (pa * (1 + ov / r))"
      using assms pa by (auto simp: defense_ceiling_def Let_def not_less split: option.splits if_splits)
    with Some show ?thesis using that [of r] by simp
  qed
  then obtain ov where ov: "0 \<le> ov" "c = round3 (pa * (1 + ov / r))" by blast
  have "0 \<le> ov / r" using ov(1) r(1) by simp
  then have "pa * 1 \<le> pa * (1 + ov / r)" using pa(2) by (intro mult_left_mono) auto
  then have "round3 pa \<le> c" using ov(2) round3_mono by simp
  then show thesis using that pa by blast
qed

lemma lost_work_cheap [simp]: "fst (lost_work_hours (Some ''cheap'') ck prior) = 0"
  by (simp add: lost_work_hours_def resolve_defend_def defend_hint_def, code_simp)

lemma rebid_ceiling_bounds:
  assumes "rebid_ceiling anchor mb od mu extra = Some c"
  shows "mb = Some x \<Longrightarrow> c \<le> x" "pos_opt anchor = Some a \<Longrightarrow> c \<le> round3 (mu * a)"
    "Some e \<in> set extra \<Longrightarrow> c \<le> e" "effective_bid_ceiling od None None = Some k \<Longrightarrow> c \<le> k"
proof -
  let ?b = "rebid_bounds anchor mb mu extra"
  have c: "c = clamp_opt (min_list ?b) (effective_bid_ceiling od None None)" and ne: "?b \<noteq> []"
    using assms by (auto simp: rebid_ceiling_def Let_def split: if_splits)
  have le: "y \<in> set ?b \<Longrightarrow> c \<le> y" for y
    using c clamp_opt_le [of "min_list ?b"] min_list_le [of y ?b] by (metis order_trans)
  show "mb = Some x \<Longrightarrow> c \<le> x" by (rule le) (simp add: rebid_bounds_def)
  show "pos_opt anchor = Some a \<Longrightarrow> c \<le> round3 (mu * a)"
    by (rule le) (simp add: rebid_bounds_def)
  show "Some e \<in> set extra \<Longrightarrow> c \<le> e"
    by (rule le) (force simp: rebid_bounds_def)
  show "effective_bid_ceiling od None None = Some k \<Longrightarrow> c \<le> k"
    using c by simp
qed

lemma rebid_ceiling_None:
  "rebid_ceiling anchor mb od mu extra = None \<longleftrightarrow>
   pos_opt anchor = None \<and> mb = None \<and> (\<forall>e\<in>set extra. e = None)"
  by (auto simp: rebid_ceiling_def rebid_bounds_def Let_def opt_list_def split: option.splits)

lemma on_grid_defense_ceiling:
  "defense_ceiling pa rem su ck df pr = Some (c, b) \<Longrightarrow> on_grid c"
  by (auto simp: defense_ceiling_def Let_def split: option.splits if_splits prod.splits)

text \<open>The ceiling of a rung is a grid price unless an off-grid \<open>max_bid\<close> or extra bound sets it.\<close>

lemma on_grid_min_list: "xs \<noteq> [] \<Longrightarrow> \<forall>x\<in>set xs. on_grid x \<Longrightarrow> on_grid (min_list xs)"
  using min_list_in by blast

lemma on_grid_effective:
  "effective_bid_ceiling od None cf = Some k \<Longrightarrow> on_grid k"
  by (auto simp: effective_bid_ceiling_def split: option.splits)

lemma on_grid_rebid_ceiling:
  assumes "rebid_ceiling anchor mb od mu extra = Some c"
    and "\<And>x. mb = Some x \<Longrightarrow> on_grid x" and "\<And>e. Some e \<in> set extra \<Longrightarrow> on_grid e"
  shows "on_grid c"
proof -
  let ?b = "rebid_bounds anchor mb mu extra"
  have c: "c = clamp_opt (min_list ?b) (effective_bid_ceiling (pos_opt od) None None)" and ne: "?b \<noteq> []"
    using assms(1) by (auto simp: rebid_ceiling_def Let_def split: if_splits)
  have "\<forall>x\<in>set ?b. on_grid x"
    using assms(2,3) by (auto simp: rebid_bounds_def opt_list_def split: option.splits)
  with ne have "on_grid (min_list ?b)" by (rule on_grid_min_list)
  then show ?thesis using c on_grid_effective [of od None]
    by (cases "effective_bid_ceiling od None None") auto
qed

lemma notify_rescue_floor_gt:
  assumes "nr_floor (notify_rescue_bound s) = Some f"
  shows "0 < f" "ps_market_min_bid s = Some m \<Longrightarrow> m < f"
proof -
  have f: "notify_rescue_floor (ps_notify_min_bid s) (ps_market_min_bid s) = Some f"
    and nle: "\<And>m. pos_opt (ps_market_min_bid s) = Some m \<Longrightarrow> m + CEIL_EPS < f"
    using assms by (auto simp: notify_rescue_bound_def Let_def not_le simp del: pos_opt_eq_Some
        split: option.splits if_splits)
  show pos: "0 < f" using f
    by (auto simp: notify_rescue_floor_def BID_MIN_STEP_def max_def dest: notify_price_pos split: option.splits)
  show "ps_market_min_bid s = Some m \<Longrightarrow> m < f"
    using nle [of m] pos by (cases "0 < m") (auto simp: CEIL_EPS_def)
qed

lemma notify_rescue_bound_price:
  assumes "nr_price (notify_rescue_bound s) = Some p"
  shows "\<exists>f c. nr_floor (notify_rescue_bound s) = Some f
    \<and> rebid_ceiling (ps_launch_dph_anchor s) (ps_max_bid s) (ps_on_demand s)
        (dflt REBID_CEILING_MULT (ps_rebid_ceiling_mult s)) [ps_defense_cap s] = Some c
    \<and> bid_target_price (Some f) (Some c) (ps_on_demand s) = Some p
    \<and> (\<forall>l. budget_left_of (ps_budget_usd s) (ps_spend_usd s) = Some l \<longrightarrow>
           0 < l \<and> REPLACE_MIN_RUNTIME_H \<le> l / p)"
  using assms
  by (auto simp: notify_rescue_bound_def Let_def not_le not_less split: option.splits if_splits)

lemma rebid_rung_price:
  assumes "rb_price (rebid_rung r dc nt n l c) = Some p"
  shows "l + BID_MIN_STEP \<le> p" "p \<le> round3 c" "rb_ceiling (rebid_rung r dc nt n l c) = Some c"
    "rb_rungs_left (rebid_rung r dc nt n l c) = n - 1"
    "budget_left_of (ri_budget_usd r) (ri_spend_usd r) = Some b \<Longrightarrow> 0 < b \<and> ri_min_runtime_h r \<le> b / p"
    "pos_opt (ri_market_min_bid r) = Some m \<Longrightarrow> bt_price (bid_decision (Some m) (Some c) (ri_on_demand r) no_opts) \<noteq> None"
proof -
  let ?t = "bt_price (bid_decision (ri_market_min_bid r) (Some c) (pos_opt (ri_on_demand r)) no_opts)"
  let ?s = "round3 (l * (1 + ri_step r))"
  let ?x = "case ?t of None \<Rightarrow> ?s | Some t \<Rightarrow> max ?s t"
  have x: "p = round3 (min ?x c)" and ge: "\<not> p - l < BID_MIN_STEP"
    and win: "\<not> (pos_opt (ri_market_min_bid r) \<noteq> None \<and> ?t = None)"
    and bud: "\<And>b. budget_left_of (ri_budget_usd r) (ri_spend_usd r) = Some b \<Longrightarrow>
               0 < b \<and> ri_min_runtime_h r \<le> b / p"
    using assms by (auto simp: rebid_rung_def Let_def not_le not_less simp del: pos_opt_eq_Some
        split: if_splits option.splits)
  show "l + BID_MIN_STEP \<le> p" using ge by simp
  show "p \<le> round3 c" unfolding x by (rule round3_mono) simp
  show "rb_ceiling (rebid_rung r dc nt n l c) = Some c"
    by (simp add: rebid_rung_def Let_def split: option.splits)
  show "rb_rungs_left (rebid_rung r dc nt n l c) = n - 1"
    using assms by (auto simp: rebid_rung_def Let_def split: if_splits option.splits)
  show "budget_left_of (ri_budget_usd r) (ri_spend_usd r) = Some b \<Longrightarrow> 0 < b \<and> ri_min_runtime_h r \<le> b / p"
    by (rule bud)
  show "pos_opt (ri_market_min_bid r) = Some m \<Longrightarrow>
      bt_price (bid_decision (Some m) (Some c) (ri_on_demand r) no_opts) \<noteq> None"
    using win by (auto simp: bid_decision_def)
qed

definition ladder_cap :: "rebid_in \<Rightarrow> price option" where
  "ladder_cap r = map_option fst (defense_ceiling (ri_p_alt r) (ri_remaining_h r) (ri_setup_h r)
                          (ri_ckpt_interval_h r) (ri_defend r) (ri_prior_runtime_h r))"

definition ladder_rungs :: "rebid_in \<Rightarrow> int" where
  "ladder_rungs r = (if ladder_cap r \<noteq> None then min (ri_max_rungs r) 1 else ri_max_rungs r)"

lemma rebid_ladder_price:
  assumes "rb_price (rebid_ladder r) = Some p"
  obtains l c nt where
    "ri_last_bid r = Some l" "0 < l" "ri_eviction_class r \<noteq> Some EvOndemand"
    "ri_rungs_used r < ladder_rungs r"
    "rebid_ceiling (ri_launch_dph_anchor r) (ri_max_bid r) (ri_on_demand r) (ri_ceiling_mult r) [ladder_cap r] = Some c"
    "rebid_ladder r = rebid_rung r (ladder_cap r) nt (max 0 (ladder_rungs r - ri_rungs_used r)) l c"
    "rb_price (rebid_rung r (ladder_cap r) nt (max 0 (ladder_rungs r - ri_rungs_used r)) l c) = Some p"
proof -
  have pos: "rebid_ceiling (pos_opt a) mb (pos_opt od) mu ex = rebid_ceiling a mb od mu ex" for a mb od mu ex
    by (simp add: rebid_ceiling_def rebid_bounds_def)
  show thesis
    using assms that
    unfolding rebid_ladder_def ladder_cap_def [symmetric] ladder_rungs_def [symmetric] Let_def pos
    by (auto simp: not_le split: if_splits option.splits)
qed

section \<open>Properties\<close>

text \<open>Spot beats on-demand per useful hour exactly below the threshold of the discount rule: the
  setup plus half a checkpoint interval must fit in the expected lifetime, and the price ratio must
  be under the share of the lifetime that is left.\<close>

lemma breakeven_is_threshold:
  assumes "0 < s" "0 < od" "0 < L" "0 \<le> su + ck / 2"
  shows "(\<exists>c. spot_breakeven (Some s) (Some od) (Some su) (Some L) ck = Some (True, c, od))
         \<longleftrightarrow> su + ck / 2 < L \<and> s / od < 1 - (su + ck / 2) / L"
  using assms by (rule spot_breakeven_threshold)

text \<open>A rescue quote raised by a notification stays under the ceiling every escalating rung
  shares, hence under the operator's cap, the launch-anchor multiple and the job-aware bound; it is
  under on-demand, outbids the notified floor, and leaves the minimum runtime affordable.\<close>

lemma rescue_quote_bounded:
  assumes "nr_price (notify_rescue_bound s) = Some p"
  shows "(\<forall>x. ps_max_bid s = Some x \<longrightarrow> p \<le> x)
    \<and> (\<forall>a. ps_launch_dph_anchor s = Some a \<and> 0 < a
          \<longrightarrow> p \<le> round3 (dflt REBID_CEILING_MULT (ps_rebid_ceiling_mult s) * a))
    \<and> (\<forall>c. ps_defense_cap s = Some c \<longrightarrow> p \<le> c)
    \<and> (\<forall>d. ps_on_demand s = Some d \<and> 0 < d \<longrightarrow> p < d)
    \<and> (\<exists>f. notify_rescue_floor (ps_notify_min_bid s) (ps_market_min_bid s) = Some f \<and> f \<le> p + 1 / 10 ^ 12)
    \<and> (\<forall>b. ps_budget_usd s = Some b \<longrightarrow>
          0 < round4 (b - ps_spend_usd s) \<and> REPLACE_MIN_RUNTIME_H \<le> round4 (b - ps_spend_usd s) / p)"
proof -
  obtain f c where fc: "nr_floor (notify_rescue_bound s) = Some f"
    "rebid_ceiling (ps_launch_dph_anchor s) (ps_max_bid s) (ps_on_demand s)
        (dflt REBID_CEILING_MULT (ps_rebid_ceiling_mult s)) [ps_defense_cap s] = Some c"
    "bid_target_price (Some f) (Some c) (ps_on_demand s) = Some p"
    and left: "\<And>l. budget_left_of (ps_budget_usd s) (ps_spend_usd s) = Some l \<Longrightarrow>
           0 < l \<and> REPLACE_MIN_RUNTIME_H \<le> l / p"
    using notify_rescue_bound_price [OF assms] by blast
  note b = bid_target_price_bounds [OF fc(3)]
  note r = rebid_ceiling_bounds [OF fc(2)]
  have pc: "p \<le> c" using b(1) by simp
  have flo: "notify_rescue_floor (ps_notify_min_bid s) (ps_market_min_bid s) = Some f"
    using fc(1) by (auto simp: notify_rescue_bound_def Let_def split: option.splits if_splits)
  show ?thesis
    using pc r(1,2,3) b(3,4) flo left by (fastforce simp: budget_left_of_def intro: order_trans)
qed

definition rescue_state :: poll_state where
  "rescue_state = mk_poll_state\<lparr>ps_present := True, ps_actual_status := Some ''exited'',
     ps_notify_min_bid := Fin (3/10), ps_on_demand := Some 1, ps_launch_dph_anchor := Some (3/10),
     ps_max_bid := Some (9/10), ps_last_bid := Some (2/10), ps_budget_usd := Some 10, ps_now := 1000\<rparr>"

text \<open>A rung of the re-bid ladder moves the bid up by at least one step, is at most the shared
  ceiling rounded to the price grid (and at most the ceiling itself when it is a grid price), leaves
  the minimum runtime affordable, and is not offered after an on-demand claim; where a job-aware
  ceiling applies the ladder is one rung long.\<close>

lemma rebid_rung_bounded:
  assumes "rb_price (rebid_ladder r) = Some p"
  shows "\<exists>l c. ri_last_bid r = Some l \<and> l + BID_MIN_STEP \<le> p
    \<and> rebid_ceiling (ri_launch_dph_anchor r) (ri_max_bid r) (ri_on_demand r) (ri_ceiling_mult r) [ladder_cap r] = Some c
    \<and> p \<le> round3 c \<and> (on_grid c \<longrightarrow> p \<le> c) \<and> rb_ceiling (rebid_ladder r) = Some c
    \<and> ri_eviction_class r \<noteq> Some EvOndemand
    \<and> ri_rungs_used r < ri_max_rungs r
    \<and> (ladder_cap r \<noteq> None \<longrightarrow> ri_rungs_used r < 1)
    \<and> (\<forall>b. ri_budget_usd r = Some b \<longrightarrow>
          0 < round4 (b - ri_spend_usd r) \<and> ri_min_runtime_h r \<le> round4 (b - ri_spend_usd r) / p)"
proof -
  obtain l c nt where l: "ri_last_bid r = Some l" "0 < l" "ri_eviction_class r \<noteq> Some EvOndemand"
    "ri_rungs_used r < ladder_rungs r"
    "rebid_ceiling (ri_launch_dph_anchor r) (ri_max_bid r) (ri_on_demand r) (ri_ceiling_mult r) [ladder_cap r] = Some c"
    "rebid_ladder r = rebid_rung r (ladder_cap r) nt (max 0 (ladder_rungs r - ri_rungs_used r)) l c"
    "rb_price (rebid_rung r (ladder_cap r) nt (max 0 (ladder_rungs r - ri_rungs_used r)) l c) = Some p"
    using assms by (rule rebid_ladder_price)
  note g = rebid_rung_price [OF l(7)]
  have n: "ri_rungs_used r < ri_max_rungs r" "ladder_cap r \<noteq> None \<longrightarrow> ri_rungs_used r < 1"
    using l(4) by (auto simp: ladder_rungs_def split: if_splits)
  have "\<forall>b. ri_budget_usd r = Some b \<longrightarrow>
          0 < round4 (b - ri_spend_usd r) \<and> ri_min_runtime_h r \<le> round4 (b - ri_spend_usd r) / p"
    using g(5) by (auto simp: budget_left_of_def)
  then show ?thesis using l g(1,2,3) n round3_on_grid [of c] by auto
qed

definition rebid_sample :: rebid_in where
  "rebid_sample = mk_rebid_in (Some (2/10)) (Some (21/100)) (Some 1) None 0 (Some (2/10))"

end
