(* ===== verification/Replacement.thy ===== *)
theory Replacement
  imports Defense
begin

text \<open>
  The replacement rung of \<open>tools/vast/bidpolicy.py\<close>: the price ceiling of an autonomous rental
  (\<open>replacement_ceiling\<close>), the decision to rent, on which market and at what price
  (\<open>replacement_decision\<close>), and what happens to the lost box (\<open>retention_plan\<close>,
  \<open>retention_live_cost\<close>).

  A division by a zero price raises in the code, so the decision is a value of
  \<open>py_error + rental_decision\<close>. Lemma groups: the ceiling is a function of the launch anchor and the
  market alone and is capped by the anchor; every rental is under a budget cap, the count cap and
  the ceiling and buys the minimum runtime; the on-demand rung is taken only with a known price.
\<close>

section \<open>Constants\<close>

definition MAX_REPLACEMENTS :: int where "MAX_REPLACEMENTS = 3"
definition REPLACE_ESCALATION_CAP_MULT :: rat where "REPLACE_ESCALATION_CAP_MULT = 4"
definition REPLACE_MIN_CUSHION :: rat where "REPLACE_MIN_CUSHION = BID_MIN_CUSHION_MULT"
definition MAX_SPOT_FASTDEATHS :: int where "MAX_SPOT_FASTDEATHS = 2"
definition REPLACEMENT_RETENTION_H :: hours where "REPLACEMENT_RETENTION_H = 3"
definition STORAGE_DPD_LO :: price where "STORAGE_DPD_LO = 213/100"
definition STORAGE_DPD_HI :: price where "STORAGE_DPD_HI = 462/100"

section \<open>The replacement ceiling\<close>

datatype evidence = MarketFloor | PAlt

datatype ceiling_bound =
    NoAnchor | UnderBase | NoEvidence
  | BoundCushion evidence | BoundEscalationCap | BoundOnDemand | BoundBudget

record ceiling_result =
  rc_price :: "price option"
  rc_base :: "price option"
  rc_market_ref :: "price option"
  rc_source :: "evidence option"
  rc_bound :: ceiling_bound
  rc_escalated :: bool

record ceiling_in =
  ci_launch_dph_anchor :: "price option"
  ci_ceiling_mult :: rat
  ci_market_floor :: "price option"
  ci_p_alt :: "price option"
  ci_on_demand :: "price option"
  ci_budget_left :: "price option"
  ci_horizon_h :: "hours option"
  ci_escalation_cap_mult :: rat
  ci_cushion_mult :: rat
  ci_min_runtime_h :: hours

text \<open>Python's \<open>min(xs, key=...)\<close>: the first element of least key.\<close>

fun min_by :: "('a \<Rightarrow> rat) \<Rightarrow> 'a \<Rightarrow> 'a list \<Rightarrow> 'a" where
  "min_by k x [] = x"
| "min_by k x (y # ys) = min_by k (if k y < k x then y else x) ys"

definition market_evidence :: "ceiling_in \<Rightarrow> (evidence \<times> price) list" where
  "market_evidence c =
     opt_list (map_option (Pair MarketFloor) (pos_opt (ci_market_floor c)))
     @ opt_list (map_option (Pair PAlt) (pos_opt (ci_p_alt c)))"

definition escalation_bounds :: "ceiling_in \<Rightarrow> price \<Rightarrow> evidence \<Rightarrow> price \<Rightarrow> (price \<times> ceiling_bound) list" where
  "escalation_bounds c anchor source market_ref =
     (let horizon = dflt (ci_min_runtime_h c) (pos_opt (ci_horizon_h c))
      in [(round3 (ci_cushion_mult c * market_ref), BoundCushion source),
          (round3 (ci_escalation_cap_mult c * anchor), BoundEscalationCap)]
         @ opt_list (map_option (\<lambda>o_c. (o_c, BoundOnDemand))
             (effective_bid_ceiling (pos_opt (ci_on_demand c)) None None))
         @ (case ci_budget_left c of
              Some b \<Rightarrow> if 0 < horizon then [(round3 (b / horizon), BoundBudget)] else []
            | None \<Rightarrow> []))"

definition replacement_ceiling :: "ceiling_in \<Rightarrow> ceiling_result" where
  "replacement_ceiling c =
     (case pos_opt (ci_launch_dph_anchor c) of
        None \<Rightarrow> \<lparr>rc_price = None, rc_base = None, rc_market_ref = None, rc_source = None,
                 rc_bound = NoAnchor, rc_escalated = False\<rparr>
      | Some anchor \<Rightarrow>
         (let base = round3 (ci_ceiling_mult c * anchor);
              ev = market_evidence c;
              over = filter (\<lambda>kv. base + 1/10^9 < snd kv) ev
          in case over of
               [] \<Rightarrow> \<lparr>rc_price = Some base, rc_base = Some base, rc_market_ref = None, rc_source = None,
                      rc_bound = (if ev \<noteq> [] then UnderBase else NoEvidence), rc_escalated = False\<rparr>
             | e # es \<Rightarrow>
                (let (source, market_ref) = min_by snd e es;
                     (p, bnd) = (case escalation_bounds c anchor source market_ref of
                                   [] \<Rightarrow> (base, NoEvidence) | b # bs \<Rightarrow> min_by fst b bs)
                 in if p \<le> base + 1/10^9
                    then \<lparr>rc_price = Some base, rc_base = Some base, rc_market_ref = Some market_ref,
                          rc_source = Some source, rc_bound = bnd, rc_escalated = False\<rparr>
                    else \<lparr>rc_price = Some p, rc_base = Some base, rc_market_ref = Some market_ref,
                          rc_source = Some source, rc_bound = bnd, rc_escalated = True\<rparr>)))"

section \<open>The replacement decision\<close>

datatype py_error = ZeroDivisionError

datatype rental = RentBid | RentOndemand

text \<open>Why a candidate price is refused.\<close>

datatype refusal = NoPrice bid_reason | NoOndemandPrice | OverCeiling price | BuysTooLittle price

datatype preference = PreferClaim | PreferFastDeaths | PreferInverted | PreferThin | PreferLivelock

datatype replacement_reason =
    NoBudgetCap | CountCap | BudgetGone | NoLaunchAnchor
  | OndemandRung preference
  | FallbackSpot preference
  | BothRefused preference refusal
  | SpotRung
  | SpotRefusedOndemand refusal
  | NothingAffordable refusal refusal

datatype lifetime_basis = Observed | PriorLifetime

record rental_decision =
  rp_rent :: "(rental \<times> price) option"
  rp_reason :: replacement_reason
  rp_ceiling :: "price option"
  rp_budget_left :: "price option"
  rp_lifetime_basis :: "lifetime_basis option"

record replace_in =
  re_eviction_class :: eviction_class
  re_replacements_used :: int
  re_budget_usd :: "price option"
  re_spend_usd :: price
  re_launch_dph_anchor :: "price option"
  re_offer_min_bid :: "price option"
  re_offer_ondemand :: "price option"
  re_spot_ondemand :: "price option"
  re_fast_deaths :: int
  re_max_replacements :: int
  re_ceiling_mult :: rat
  re_min_runtime_h :: hours
  re_max_fast_deaths :: int
  re_min_cushion :: rat
  re_observed_lifetime_h :: "hours option"
  re_setup_h :: "hours option"
  re_ckpt_interval_h :: hours
  re_prior_lifetime_h :: "hours option"
  re_ceiling :: "price option"

definition mk_replace_in ::
  "eviction_class \<Rightarrow> int \<Rightarrow> price option \<Rightarrow> price \<Rightarrow> price option \<Rightarrow> replace_in" where
  "mk_replace_in cls used budget spend anchor =
     \<lparr>re_eviction_class = cls, re_replacements_used = used, re_budget_usd = budget,
      re_spend_usd = spend, re_launch_dph_anchor = anchor, re_offer_min_bid = None,
      re_offer_ondemand = None, re_spot_ondemand = None, re_fast_deaths = 0,
      re_max_replacements = MAX_REPLACEMENTS, re_ceiling_mult = REPLACE_CEILING_MULT,
      re_min_runtime_h = REPLACE_MIN_RUNTIME_H, re_max_fast_deaths = MAX_SPOT_FASTDEATHS,
      re_min_cushion = REPLACE_MIN_CUSHION, re_observed_lifetime_h = None, re_setup_h = None,
      re_ckpt_interval_h = 0, re_prior_lifetime_h = Some SPOT_PRIOR_LIFETIME_H, re_ceiling = None\<rparr>"

text \<open>The local \<open>_viable\<close>: \<open>Inr None\<close> is viable, \<open>Inr (Some why)\<close> a refusal.\<close>

definition viable ::
  "price \<Rightarrow> price \<Rightarrow> hours \<Rightarrow> refusal \<Rightarrow> price option \<Rightarrow> py_error + refusal option" where
  "viable ceil budget_left min_runtime_h why_none p =
     (case p of
        None \<Rightarrow> Inr (Some why_none)
      | Some x \<Rightarrow>
          if ceil < x then Inr (Some (OverCeiling x))
          else if x = 0 then Inl ZeroDivisionError
          else if budget_left / x < min_runtime_h then Inr (Some (BuysTooLittle x))
          else Inr None)"

text \<open>The lifetime the breakeven rung is scored on, and whether spot loses there.\<close>

definition expected_lifetime :: "replace_in \<Rightarrow> (hours \<times> lifetime_basis) option" where
  "expected_lifetime r =
     (case re_observed_lifetime_h r of
        Some h \<Rightarrow> Some (h, Observed)
      | None \<Rightarrow> map_option (\<lambda>h. (h, PriorLifetime)) (pos_opt (re_prior_lifetime_h r)))"

definition livelock_check ::
  "replace_in \<Rightarrow> price option \<Rightarrow> price option \<Rightarrow> bool \<times> lifetime_basis option" where
  "livelock_check r spot_price od_price =
     (case (od_price, spot_price, expected_lifetime r, re_setup_h r) of
        (Some od, Some sp, Some (h, b), Some su) \<Rightarrow>
          ((case spot_breakeven (Some sp) (Some od) (Some su) (Some h) (re_ckpt_interval_h r) of
              Some (False, _) \<Rightarrow> True | _ \<Rightarrow> False), Some b)
      | _ \<Rightarrow> (False, None))"

definition spread_inverted :: "price option \<Rightarrow> price option \<Rightarrow> bool" where
  "spread_inverted spot_price od_price =
     (case (spot_price, od_price) of (Some s, Some o_d) \<Rightarrow> o_d \<le> s | _ \<Rightarrow> False)"

definition cushion_thin :: "rat \<Rightarrow> price option \<Rightarrow> price option \<Rightarrow> price option \<Rightarrow> bool" where
  "cushion_thin min_cushion clamp_od spot_price flo =
     (case (clamp_od, spot_price, flo) of
        (Some _, Some s, Some f) \<Rightarrow> s < round3 (min_cushion * f) - CEIL_EPS
      | _ \<Rightarrow> False)"

text \<open>The first trigger that prefers the on-demand rung, in the order the message picks it.\<close>

definition prefer_ondemand :: "replace_in \<Rightarrow> bool \<Rightarrow> bool \<Rightarrow> bool \<Rightarrow> preference option" where
  "prefer_ondemand r inverted thin livelock =
     (if re_eviction_class r = EvOndemand then Some PreferClaim
      else if re_max_fast_deaths r \<le> re_fast_deaths r then Some PreferFastDeaths
      else if inverted then Some PreferInverted
      else if thin then Some PreferThin
      else if livelock then Some PreferLivelock
      else None)"

text \<open>The rung choice, once both candidate prices have been judged.\<close>

definition choose_rung ::
  "preference option \<Rightarrow> bool \<Rightarrow> price option \<Rightarrow> refusal option \<Rightarrow> price option \<Rightarrow> refusal option
     \<Rightarrow> (rental \<times> price) option \<times> replacement_reason" where
  "choose_rung prefer inverted spot_price spot_why od_price od_why =
     (let spot_ok = (spot_why = None); od_ok = (od_why = None)
      in case prefer of
           Some why \<Rightarrow>
             if od_ok then (Some (RentOndemand, the od_price), OndemandRung why)
             else if spot_ok \<and> \<not> inverted then (Some (RentBid, the spot_price), FallbackSpot why)
             else (None, BothRefused why (the od_why))
         | None \<Rightarrow>
             if spot_ok then (Some (RentBid, the spot_price), SpotRung)
             else if od_ok then (Some (RentOndemand, the od_price), SpotRefusedOndemand (the spot_why))
             else (None, NothingAffordable (the spot_why) (the od_why)))"

definition replacement_rungs :: "replace_in \<Rightarrow> price \<Rightarrow> price \<Rightarrow> py_error + rental_decision" where
  "replacement_rungs r ceil budget_left =
     (let od_price = pos_opt (re_offer_ondemand r);
          clamp_od = (case pos_opt (re_spot_ondemand r) of Some d \<Rightarrow> Some d | None \<Rightarrow> od_price);
          spot_dec = bid_decision (re_offer_min_bid r) (Some ceil) clamp_od no_opts;
          spot_price = bt_price spot_dec
      in case viable ceil budget_left (re_min_runtime_h r) (NoPrice (bt_reason spot_dec)) spot_price of
           Inl e \<Rightarrow> Inl e
         | Inr spot_why \<Rightarrow>
           (case viable ceil budget_left (re_min_runtime_h r) NoOndemandPrice od_price of
              Inl e \<Rightarrow> Inl e
            | Inr od_why \<Rightarrow>
              (let inverted = spread_inverted spot_price od_price;
                   thin = cushion_thin (re_min_cushion r) clamp_od spot_price (pos_opt (re_offer_min_bid r));
                   (livelock, lbasis) = livelock_check r spot_price od_price;
                   prefer = prefer_ondemand r inverted thin livelock;
                   (rent, why) = choose_rung prefer inverted spot_price spot_why od_price od_why
               in Inr \<lparr>rp_rent = rent, rp_reason = why, rp_ceiling = Some ceil,
                       rp_budget_left = Some budget_left,
                       rp_lifetime_basis =
                         (case why of NothingAffordable _ _ \<Rightarrow> None | _ \<Rightarrow> lbasis)\<rparr>)))"

definition replacement_decision :: "replace_in \<Rightarrow> py_error + rental_decision" where
  "replacement_decision r =
     (let stop = (\<lambda>why left. Inr \<lparr>rp_rent = None, rp_reason = why, rp_ceiling = None,
                                   rp_budget_left = left, rp_lifetime_basis = None\<rparr>)
      in case re_budget_usd r of
           None \<Rightarrow> stop NoBudgetCap None
         | Some budget \<Rightarrow>
            (let budget_left = round4 (budget - re_spend_usd r)
             in if re_max_replacements r \<le> re_replacements_used r then stop CountCap (Some budget_left)
                else if budget_left \<le> 0 then stop BudgetGone (Some budget_left)
                else (case pos_opt (re_launch_dph_anchor r) of
                        None \<Rightarrow> stop NoLaunchAnchor (Some budget_left)
                      | Some anchor \<Rightarrow>
                          replacement_rungs r
                            (dflt (round3 (re_ceiling_mult r * anchor)) (re_ceiling r)) budget_left)))"

section \<open>Retention of the lost box\<close>

datatype retention_action = AlreadyGone | DestroyNow | Retain

record retention =
  rt_action :: retention_action
  rt_deadline_ts :: "secs option"
  rt_cost_usd :: price
  rt_cost_hi_usd :: price

definition retention_plan :: "hours option \<Rightarrow> bool \<Rightarrow> secs \<Rightarrow> price option \<Rightarrow> retention" where
  "retention_plan retention_h present now storage_day_usd =
     (if \<not> present then \<lparr>rt_action = AlreadyGone, rt_deadline_ts = None, rt_cost_usd = 0, rt_cost_hi_usd = 0\<rparr>
      else (let hours = dflt REPLACEMENT_RETENTION_H retention_h
            in if hours \<le> 0 then \<lparr>rt_action = DestroyNow, rt_deadline_ts = None, rt_cost_usd = 0, rt_cost_hi_usd = 0\<rparr>
               else (let (lo, hi) = (case pos_opt storage_day_usd of
                                       Some d \<Rightarrow> (d, d) | None \<Rightarrow> (STORAGE_DPD_LO, STORAGE_DPD_HI))
                     in \<lparr>rt_action = Retain, rt_deadline_ts = Some (now + hours * 3600),
                         rt_cost_usd = round4 (lo * hours / 24), rt_cost_hi_usd = round4 (hi * hours / 24)\<rparr>)))"

text \<open>\<open>None\<close> is the pair \<open>(None, None)\<close>: an unpriced box. The storage rate is always positive.\<close>

definition retention_live_cost :: "price option \<Rightarrow> secs option \<Rightarrow> price option \<Rightarrow> (price \<times> rat) option" where
  "retention_live_cost dph held_s storage_day_usd =
     (case (dph, held_s) of
        (Some rate, Some held) \<Rightarrow>
          if rate \<le> 0 \<or> held < 0 then None
          else (let storage_hourly = dflt STORAGE_DPD_LO (pos_opt storage_day_usd) / 24
                in Some (round4 (rate * held / 3600), round_dp 1 (rate / storage_hourly)))
      | _ \<Rightarrow> None)"

section \<open>What the ceiling guarantees\<close>

lemma min_by_in: "min_by k x xs \<in> set (x # xs)"
  by (induction k x xs rule: min_by.induct) auto

lemma min_by_le: "y \<in> set (x # xs) \<Longrightarrow> k (min_by k x xs) \<le> k y"
proof (induction k x xs arbitrary: y rule: min_by.induct)
  case (1 k x)
  then show ?case by simp
next
  case (2 k x z zs)
  have hd: "k (min_by k (if k z < k x then z else x) zs) \<le> k (if k z < k x then z else x)"
    by (rule "2.IH") simp
  from "2.prems" consider "y = x" | "y = z" | "y \<in> set zs" by auto
  then show ?case
  proof cases
    case 3
    then show ?thesis using "2.IH" [of y] by simp
  qed (use hd in \<open>auto split: if_splits\<close>)
qed

text \<open>An escalated ceiling is one of its bounds and under every one of them.\<close>

lemma replacement_ceiling_escalated:
  assumes "replacement_ceiling c = r" "rc_escalated r"
  obtains a p source m where
    "pos_opt (ci_launch_dph_anchor c) = Some a" "rc_price r = Some p"
    "rc_base r = Some (round3 (ci_ceiling_mult c * a))"
    "rc_market_ref r = Some m" "rc_source r = Some source" "(source, m) \<in> set (market_evidence c)"
    "\<And>k v. (k, v) \<in> set (market_evidence c) \<Longrightarrow> round3 (ci_ceiling_mult c * a) + 1/10^9 < v \<Longrightarrow> m \<le> v"
    "round3 (ci_ceiling_mult c * a) + 1/10^9 < p"
    "\<And>q b. (q, b) \<in> set (escalation_bounds c a source m) \<Longrightarrow> p \<le> q"
proof -
  obtain a where a: "pos_opt (ci_launch_dph_anchor c) = Some a"
    using assms by (auto simp: replacement_ceiling_def split: option.splits)
  define base where "base = round3 (ci_ceiling_mult c * a)"
  define ov where "ov = filter (\<lambda>kv. base + 1/10^9 < snd kv) (market_evidence c)"
  obtain e es where ov_eq: "ov = e # es"
    using assms a by (cases ov) (auto simp: replacement_ceiling_def Let_def base_def ov_def)
  obtain source m where sm: "min_by snd e es = (source, m)" by fastforce
  have mem: "(source, m) \<in> set ov" using min_by_in [of snd e es] ov_eq sm by simp
  have least: "m \<le> v" if "(k, v) \<in> set (market_evidence c)" "base + 1/10^9 < v" for k v
    using min_by_le [of "(k, v)" e es snd] that sm by (simp add: ov_eq [symmetric] ov_def)
  obtain b bs where bs: "escalation_bounds c a source m = b # bs"
    by (auto simp: escalation_bounds_def Let_def)
  obtain p w where p: "min_by fst b bs = (p, w)" by fastforce
  have under: "p \<le> q" if "(q, x) \<in> set (escalation_bounds c a source m)" for q x
    using min_by_le [of "(q, x)" b bs fst] that bs p by simp
  have r: "r = (if p \<le> base + 1/10^9
      then \<lparr>rc_price = Some base, rc_base = Some base, rc_market_ref = Some m,
            rc_source = Some source, rc_bound = w, rc_escalated = False\<rparr>
      else \<lparr>rc_price = Some p, rc_base = Some base, rc_market_ref = Some m,
            rc_source = Some source, rc_bound = w, rc_escalated = True\<rparr>)"
    unfolding assms(1) [symmetric] replacement_ceiling_def a
    by (simp only: option.case Let_def base_def [symmetric] ov_def [symmetric] ov_eq list.case sm bs p prod.case)
  then have "\<not> p \<le> base + 1/10^9" using assms(2) by (auto split: if_splits)
  then show thesis
    using that [of a p m source] a r mem least under by (simp add: base_def ov_def)
qed

lemma replacement_ceiling_base:
  assumes "\<not> rc_escalated (replacement_ceiling c)" "pos_opt (ci_launch_dph_anchor c) = Some a"
  shows "rc_price (replacement_ceiling c) = Some (round3 (ci_ceiling_mult c * a))"
  using assms by (auto simp: replacement_ceiling_def Let_def split: list.splits prod.splits if_splits)

lemma replacement_ceiling_None:
  "rc_price (replacement_ceiling c) = None \<longleftrightarrow> pos_opt (ci_launch_dph_anchor c) = None"
  by (auto simp: replacement_ceiling_def Let_def split: option.splits list.splits prod.splits if_splits)

lemma escalation_bounds_mem:
  "(round3 (ci_cushion_mult c * m), BoundCushion s) \<in> set (escalation_bounds c a s m)"
  "(round3 (ci_escalation_cap_mult c * a), BoundEscalationCap) \<in> set (escalation_bounds c a s m)"
  "effective_bid_ceiling (ci_on_demand c) None None = Some k \<Longrightarrow>
     (k, BoundOnDemand) \<in> set (escalation_bounds c a s m)"
  "ci_budget_left c = Some b \<Longrightarrow> pos_opt (ci_horizon_h c) = Some h \<Longrightarrow>
     (round3 (b / h), BoundBudget) \<in> set (escalation_bounds c a s m)"
  by (auto simp: escalation_bounds_def Let_def)

section \<open>What a rental guarantees\<close>

lemma viable_ok:
  "viable ceil left h why (Some x) = Inr None \<longleftrightarrow> x \<le> ceil \<and> x \<noteq> 0 \<and> h \<le> left / x"
  by (auto simp: viable_def)

lemma viable_priced: "viable ceil left h why p = Inr None \<Longrightarrow> \<exists>x. p = Some x"
  by (cases p) (auto simp: viable_def)

lemma choose_rung_rent:
  assumes "choose_rung pr inverted sp sw od ow = (Some (k, x), why)"
  shows "k = RentBid \<Longrightarrow> sw = None \<and> x = the sp"
    "k = RentOndemand \<Longrightarrow> ow = None \<and> x = the od"
    "k = RentBid \<Longrightarrow> pr \<noteq> None \<Longrightarrow> \<not> inverted \<and> ow \<noteq> None"
    "k = RentOndemand \<Longrightarrow> pr = None \<Longrightarrow> sw \<noteq> None"
  using assms by (auto simp: choose_rung_def Let_def split: option.splits if_splits)

text \<open>The stages of the decision, with the two refusal tests evaluated.\<close>

lemma replacement_decisionE:
  assumes "replacement_decision r = Inr d" "rp_rent d = Some (k, x)"
  obtains budget a left ceil sw ow where
    "re_budget_usd r = Some budget" "left = round4 (budget - re_spend_usd r)" "0 < left"
    "re_replacements_used r < re_max_replacements r"
    "pos_opt (re_launch_dph_anchor r) = Some a"
    "ceil = dflt (round3 (re_ceiling_mult r * a)) (re_ceiling r)"
    "rp_ceiling d = Some ceil" "rp_budget_left d = Some left"
    "viable ceil left (re_min_runtime_h r)
       (NoPrice (bt_reason (bid_decision (re_offer_min_bid r) (Some ceil)
          (case pos_opt (re_spot_ondemand r) of Some d \<Rightarrow> Some d | None \<Rightarrow> pos_opt (re_offer_ondemand r)) no_opts)))
       (bt_price (bid_decision (re_offer_min_bid r) (Some ceil)
          (case pos_opt (re_spot_ondemand r) of Some d \<Rightarrow> Some d | None \<Rightarrow> pos_opt (re_offer_ondemand r)) no_opts)) = Inr sw"
    "viable ceil left (re_min_runtime_h r) NoOndemandPrice (pos_opt (re_offer_ondemand r)) = Inr ow"
    "k = RentBid \<Longrightarrow> sw = None \<and> Some x = bt_price (bid_decision (re_offer_min_bid r) (Some ceil)
          (case pos_opt (re_spot_ondemand r) of Some d \<Rightarrow> Some d | None \<Rightarrow> pos_opt (re_offer_ondemand r)) no_opts)"
    "k = RentOndemand \<Longrightarrow> ow = None \<and> pos_opt (re_offer_ondemand r) = Some x"
proof -
  obtain budget where b: "re_budget_usd r = Some budget"
    using assms by (auto simp: replacement_decision_def split: option.splits)
  define left where "left = round4 (budget - re_spend_usd r)"
  have g: "re_replacements_used r < re_max_replacements r" "0 < left"
    using assms b by (auto simp: replacement_decision_def Let_def left_def not_le split: if_splits)
  obtain a where a: "pos_opt (re_launch_dph_anchor r) = Some a"
    using assms b g by (auto simp: replacement_decision_def Let_def left_def split: option.splits)
  define ceil where "ceil = dflt (round3 (re_ceiling_mult r * a)) (re_ceiling r)"
  have rr: "replacement_rungs r ceil left = Inr d"
    using assms(1) b g a unfolding replacement_decision_def
    by (simp add: left_def ceil_def del: pos_opt_eq_Some)
  define clamp where "clamp = (case pos_opt (re_spot_ondemand r) of Some d \<Rightarrow> Some d
      | None \<Rightarrow> pos_opt (re_offer_ondemand r))"
  define dec where "dec = bid_decision (re_offer_min_bid r) (Some ceil) clamp no_opts"
  obtain sw where sw: "viable ceil left (re_min_runtime_h r) (NoPrice (bt_reason dec)) (bt_price dec) = Inr sw"
    using rr unfolding replacement_rungs_def Let_def clamp_def [symmetric] dec_def [symmetric]
    by (auto split: sum.splits)
  obtain ow where ow: "viable ceil left (re_min_runtime_h r) NoOndemandPrice (pos_opt (re_offer_ondemand r)) = Inr ow"
    using rr sw unfolding replacement_rungs_def Let_def clamp_def [symmetric] dec_def [symmetric]
    by (auto split: sum.splits)
  obtain inv pr why where ch: "choose_rung pr inv (bt_price dec) sw (pos_opt (re_offer_ondemand r)) ow
       = (rp_rent d, why)" and ceil: "rp_ceiling d = Some ceil" "rp_budget_left d = Some left"
    using rr sw ow unfolding replacement_rungs_def Let_def clamp_def [symmetric] dec_def [symmetric]
    by (auto split: prod.splits)
  have ch': "choose_rung pr inv (bt_price dec) sw (pos_opt (re_offer_ondemand r)) ow = (Some (k, x), why)"
    using ch assms(2) by simp
  have s: "k = RentBid \<Longrightarrow> sw = None \<and> Some x = bt_price dec"
    using choose_rung_rent(1) [OF ch'] viable_priced [of ceil left "re_min_runtime_h r" "NoPrice (bt_reason dec)" "bt_price dec"] sw
    by auto
  have o: "k = RentOndemand \<Longrightarrow> ow = None \<and> pos_opt (re_offer_ondemand r) = Some x"
    using choose_rung_rent(2) [OF ch'] viable_priced [of ceil left "re_min_runtime_h r" NoOndemandPrice] ow
    by (metis option.sel)
  show thesis
    by (rule that [OF b left_def g(2) g(1) a ceil_def ceil sw [unfolded dec_def clamp_def] ow])
      (use s [unfolded dec_def clamp_def] o in blast)+
qed

lemma replacement_decision_affordable:
  assumes "replacement_decision r = Inr d" "rp_rent d = Some (k, x)"
  shows "\<exists>budget a ceil. re_budget_usd r = Some budget \<and> 0 < round4 (budget - re_spend_usd r)
    \<and> re_replacements_used r < re_max_replacements r
    \<and> re_launch_dph_anchor r = Some a \<and> 0 < a
    \<and> ceil = dflt (round3 (re_ceiling_mult r * a)) (re_ceiling r)
    \<and> x \<le> ceil \<and> x \<noteq> 0 \<and> re_min_runtime_h r \<le> round4 (budget - re_spend_usd r) / x"
  using assms
proof (rule replacement_decisionE)
  fix budget a left ceil sw ow
  let ?cl = "case pos_opt (re_spot_ondemand r) of Some d \<Rightarrow> Some d | None \<Rightarrow> pos_opt (re_offer_ondemand r)"
  let ?dec = "bid_decision (re_offer_min_bid r) (Some ceil) ?cl no_opts"
  assume h: "re_budget_usd r = Some budget" "left = round4 (budget - re_spend_usd r)" "0 < left"
    "re_replacements_used r < re_max_replacements r" "pos_opt (re_launch_dph_anchor r) = Some a"
    "ceil = dflt (round3 (re_ceiling_mult r * a)) (re_ceiling r)"
    "viable ceil left (re_min_runtime_h r) (NoPrice (bt_reason ?dec)) (bt_price ?dec) = Inr sw"
    "viable ceil left (re_min_runtime_h r) NoOndemandPrice (pos_opt (re_offer_ondemand r)) = Inr ow"
    and s: "k = RentBid \<Longrightarrow> sw = None \<and> Some x = bt_price ?dec"
    and o: "k = RentOndemand \<Longrightarrow> ow = None \<and> pos_opt (re_offer_ondemand r) = Some x"
  have "\<exists>why. viable ceil left (re_min_runtime_h r) why (Some x) = Inr None"
  proof (cases k)
    case RentBid
    then show ?thesis using s h(7) by metis
  next
    case RentOndemand
    then show ?thesis using o h(8) by metis
  qed
  then have "x \<le> ceil \<and> x \<noteq> 0 \<and> re_min_runtime_h r \<le> left / x" by (simp add: viable_ok)
  with h show ?thesis by auto
qed

section \<open>Properties\<close>

text \<open>The replacement ceiling never compounds: it is the base multiple of the original launch
  price or an escalation above it that is at most the escalation cap times the same launch price,
  the cushion over the cheapest live evidence above the base, the hard on-demand line, and what the
  budget sustains over the horizon; without evidence over the base it is the base.\<close>

lemma ceiling_never_compounds:
  assumes "rc_price (replacement_ceiling c) = Some p"
  shows "\<exists>a. ci_launch_dph_anchor c = Some a \<and> 0 < a
    \<and> round3 (ci_ceiling_mult c * a) \<le> p
    \<and> p \<le> max (round3 (ci_ceiling_mult c * a)) (round3 (ci_escalation_cap_mult c * a))
    \<and> (p \<noteq> round3 (ci_ceiling_mult c * a) \<longrightarrow>
         (\<forall>k. effective_bid_ceiling (ci_on_demand c) None None = Some k \<longrightarrow> p \<le> k)
       \<and> (\<forall>b h. ci_budget_left c = Some b \<longrightarrow> ci_horizon_h c = Some h \<longrightarrow> 0 < h \<longrightarrow> p \<le> round3 (b / h))
       \<and> (\<exists>m. rc_market_ref (replacement_ceiling c) = Some m \<and> p \<le> round3 (ci_cushion_mult c * m)
            \<and> (\<forall>(k, v)\<in>set (market_evidence c). round3 (ci_ceiling_mult c * a) + 1/10^9 < v \<longrightarrow> m \<le> v)))"
proof (cases "rc_escalated (replacement_ceiling c)")
  case False
  obtain a where a: "pos_opt (ci_launch_dph_anchor c) = Some a"
    using assms replacement_ceiling_None [of c] by fastforce
  then show ?thesis using replacement_ceiling_base [OF False a] assms by auto
next
  case True
  show ?thesis
  proof (rule replacement_ceiling_escalated [OF refl True])
    fix a p' source m
    let ?base = "round3 (ci_ceiling_mult c * a)"
    assume a: "pos_opt (ci_launch_dph_anchor c) = Some a"
      and p': "rc_price (replacement_ceiling c) = Some p'"
      and m: "rc_market_ref (replacement_ceiling c) = Some m"
      and least: "\<And>k v. (k, v) \<in> set (market_evidence c) \<Longrightarrow> ?base + 1/10^9 < v \<Longrightarrow> m \<le> v"
      and above: "?base + 1/10^9 < p'"
      and le: "\<And>q b. (q, b) \<in> set (escalation_bounds c a source m) \<Longrightarrow> p' \<le> q"
    note mem = escalation_bounds_mem
    have p: "p' = p" using p' assms by simp
    have e9: "(0::rat) \<le> 1/10^9" by simp
    then have b: "?base \<le> p" using above p by linarith
    have c1: "p \<le> round3 (ci_cushion_mult c * m)" "p \<le> round3 (ci_escalation_cap_mult c * a)"
      using le [OF mem(1)] le [OF mem(2)] p by simp_all
    have c2: "\<forall>k. effective_bid_ceiling (ci_on_demand c) None None = Some k \<longrightarrow> p \<le> k"
      using le [OF mem(3)] p by auto
    have c3: "\<forall>b h. ci_budget_left c = Some b \<longrightarrow> ci_horizon_h c = Some h \<longrightarrow> 0 < h \<longrightarrow> p \<le> round3 (b / h)"
      using le [OF mem(4)] p by simp
    have c4: "\<forall>(k, v)\<in>set (market_evidence c). ?base + 1/10^9 < v \<longrightarrow> m \<le> v" using least by blast
    show ?thesis using a b c1 c2 c3 c4 m by (intro exI [of _ a]) (auto simp: le_max_iff_disj)
  qed
qed

definition ceiling_sample :: ceiling_in where
  "ceiling_sample = \<lparr>ci_launch_dph_anchor = Some (1933/10000), ci_ceiling_mult = REPLACE_CEILING_MULT,
     ci_market_floor = Some (4/10), ci_p_alt = Some (5333/10000), ci_on_demand = Some 1,
     ci_budget_left = Some 10, ci_horizon_h = Some 5,
     ci_escalation_cap_mult = REPLACE_ESCALATION_CAP_MULT, ci_cushion_mult = REPLACE_MIN_CUSHION,
     ci_min_runtime_h = REPLACE_MIN_RUNTIME_H\<rparr>"

text \<open>An autonomous rental always has a budget cap, a positive remainder, room in the count cap
  and an observed launch price behind it; its price is at most the ceiling and leaves the minimum
  runtime affordable, and the on-demand rung is taken only at a known on-demand price.\<close>

lemma rental_always_affordable:
  assumes "replacement_decision r = Inr d" "rp_rent d = Some (k, x)"
  shows "\<exists>budget a ceil. re_budget_usd r = Some budget \<and> 0 < round4 (budget - re_spend_usd r)
    \<and> re_replacements_used r < re_max_replacements r
    \<and> re_launch_dph_anchor r = Some a \<and> 0 < a
    \<and> ceil = dflt (round3 (re_ceiling_mult r * a)) (re_ceiling r)
    \<and> x \<le> ceil \<and> re_min_runtime_h r \<le> round4 (budget - re_spend_usd r) / x
    \<and> (k = RentOndemand \<longrightarrow> re_offer_ondemand r = Some x \<and> 0 < x)"
proof -
  have "k = RentOndemand \<longrightarrow> re_offer_ondemand r = Some x \<and> 0 < x"
    by (rule replacement_decisionE [OF assms]) auto
  then show ?thesis using replacement_decision_affordable [OF assms] by blast
qed

definition replace_sample :: replace_in where
  "replace_sample = (mk_replace_in EvOutbid 0 (Some 10) 2 (Some (3/10)))
     \<lparr>re_offer_min_bid := Some (2/10), re_offer_ondemand := Some (5/10)\<rparr>"

text \<open>The retention of a lost box ends: a box that is kept is kept to a deadline that lies in the
  future, and its quoted cost is not negative and at most the quoted upper cost.\<close>

lemma retention_has_deadline:
  assumes "rt_action (retention_plan retention_h present now storage) = Retain"
  shows "\<exists>t. rt_deadline_ts (retention_plan retention_h present now storage) = Some t \<and> now < t
    \<and> 0 \<le> rt_cost_usd (retention_plan retention_h present now storage)
    \<and> rt_cost_usd (retention_plan retention_h present now storage)
        \<le> rt_cost_hi_usd (retention_plan retention_h present now storage)"
proof -
  let ?h = "dflt REPLACEMENT_RETENTION_H retention_h"
  have h: "present" "0 < ?h"
    using assms by (auto simp: retention_plan_def Let_def split: if_splits)
  have r0: "round4 0 = 0" by code_simp
  have mono: "x \<le> y \<Longrightarrow> round4 x \<le> round4 y" for x y
    by (simp add: round_dp_def divide_right_mono round_he_mono)
  have nn: "0 \<le> round4 x" if "0 \<le> x" for x using mono [OF that] r0 by simp
  show ?thesis
  proof (cases "pos_opt storage")
    case None
    have "STORAGE_DPD_LO * ?h / 24 \<le> STORAGE_DPD_HI * ?h / 24"
      using h(2) by (simp add: STORAGE_DPD_LO_def STORAGE_DPD_HI_def divide_right_mono)
    then show ?thesis using h None mono nn [of "STORAGE_DPD_LO * ?h / 24"]
      by (simp add: retention_plan_def Let_def STORAGE_DPD_LO_def)
  next
    case (Some d)
    then have "0 \<le> d * ?h / 24" using h(2) by simp
    then show ?thesis using h Some nn by (simp add: retention_plan_def Let_def)
  qed
qed

end
