(* ===== verification/Poll.thy ===== *)
theory Poll
  imports Defense
begin

text \<open>
  One supervision tick of a primary box: \<open>_bid_action\<close> and \<open>poll\<close> of \<open>tools/vast/bidpolicy.py\<close>,
  with the decay streak, the raise hysteresis, the default ceiling of a watch and the trigger of
  the economic handoff.

  Lemma groups: which guards every action has behind it; where an emitted price lies; a bid move
  is a fixed point of the policy, so the next tick does not move the bid again; the streak counts
  the unbroken run of receded polls; a handoff is never armed by a bid the policy itself asks for.
\<close>

section \<open>Decay\<close>

definition NOMINAL_TICK_S :: secs where "NOMINAL_TICK_S = 45"
definition BID_DECAY_S :: secs where "BID_DECAY_S = (3 - 1) * NOMINAL_TICK_S"
definition BID_DECAY_POLLS :: nat where "BID_DECAY_POLLS = 3"
definition DEFEND_AT :: rat where "DEFEND_AT = 9/10"

definition poll_target :: "'a poll_state_scheme \<Rightarrow> price option" where
  "poll_target s = bid_target_price (ps_market_min_bid s) (ps_max_bid s) (ps_on_demand s)"

definition decay_candidate :: "poll_state \<Rightarrow> bool" where
  "decay_candidate s =
     (if \<not> ps_live s then False
      else (case (ps_last_bid s, poll_target s) of
              (Some last_bid, Some target) \<Rightarrow> target + BID_MIN_STEP < last_bid
            | _ \<Rightarrow> False))"

definition next_decay_state :: "poll_state \<Rightarrow> nat \<times> secs option" where
  "next_decay_state s =
     (if \<not> decay_candidate s then (0, None)
      else (let prev = ps_decay_streak s;
                since = (if prev = 0 \<or> ps_decay_streak_since s = None then Some (ps_now s)
                         else ps_decay_streak_since s)
            in (prev + 1, since)))"

definition next_decay_streak :: "poll_state \<Rightarrow> nat" where
  "next_decay_streak s = fst (next_decay_state s)"

definition decay_dwell_satisfied :: "poll_state \<Rightarrow> bool" where
  "decay_dwell_satisfied s =
     (if ps_decay_streak s = 0 then False
      else (case ps_decay_streak_since s of
              Some since \<Rightarrow> BID_DECAY_S \<le> ps_now s - since
            | None \<Rightarrow> BID_DECAY_POLLS \<le> ps_decay_streak s))"

text \<open>The recorded prices of this machine, in time order.\<close>

definition raise_seen :: "string option \<Rightarrow> hist_entry list \<Rightarrow> (secs \<times> price) list" where
  "raise_seen mid hist =
     sort (List.map_filter
       (\<lambda>e. case (he_ts e, he_price e) of
              (Some ts, Some p) \<Rightarrow>
                if p \<le> 0 then None
                else if mid \<noteq> None \<and> he_machine e \<noteq> mid then None
                else Some (ts, p)
            | _ \<Rightarrow> None) hist)"

fun raise_hold_scan ::
  "secs \<Rightarrow> secs \<Rightarrow> (secs \<times> price) list \<Rightarrow> price option \<Rightarrow> price option" where
  "raise_hold_scan now window ((pt, pp) # (ts, p) # es) hold =
     raise_hold_scan now window ((ts, p) # es)
       (if pp + CEIL_EPS < p \<and> now - ts < window
        then Some (case hold of None \<Rightarrow> p | Some h \<Rightarrow> max h p) else hold)"
| "raise_hold_scan now window _ hold = hold"

definition recent_raise_hold :: "poll_state \<Rightarrow> secs option \<Rightarrow> price option" where
  "recent_raise_hold s window_s =
     raise_hold_scan (ps_now s) (dflt REBID_WAIT_S window_s)
       (raise_seen (ps_machine_id s) (ps_bid_history s)) None"

section \<open>Bid movement\<close>

datatype bid_move = RaiseBid price | LowerBid price | RescueBid price

definition bid_action :: "poll_state \<Rightarrow> bid_move option" where
  "bid_action s =
     (let target = poll_target s;
          nrescue = notify_rescue_bound s;
          rescue_target = (if nr_floor nrescue = None then target else nr_price nrescue)
      in if target = None \<and> rescue_target = None then None
         else (case ps_last_bid s of
                 None \<Rightarrow> None
               | Some last_bid \<Rightarrow>
                  if ps_now s - ps_last_bid_put_ts s < BID_RATE_LIMIT_S then None
                  else if ps_live s then
                    (case target of
                       None \<Rightarrow> None
                     | Some t \<Rightarrow>
                        if dflt DEFEND_AT (ps_defend_at s) * last_bid \<le> the (ps_market_min_bid s)
                           \<and> BID_MIN_STEP \<le> t - last_bid
                        then Some (RaiseBid t)
                        else if decay_dwell_satisfied s \<and> t + BID_MIN_STEP < last_bid then
                          (case recent_raise_hold s None of
                             Some hold \<Rightarrow> if t < hold - CEIL_EPS then None else Some (LowerBid t)
                           | None \<Rightarrow> Some (LowerBid t))
                        else None)
                  else if ps_present s \<and> \<not> ps_rescue_attempted s
                          \<and> (case rescue_target of None \<Rightarrow> False | Some r \<Rightarrow> last_bid < r)
                  then Some (RescueBid (the rescue_target))
                  else None))"

section \<open>The tick\<close>

datatype stop_why = TerminalStatus "string option" | OperatorStop | OperatorDestroy
datatype idle_why = Live | DebounceNotLive | Backoff

datatype action =
    StopTerminal stop_why
  | StopBudget cap
  | Noop idle_why
  | MoveBid bid_move
  | EmitEvicted string
  | Relaunch

definition ps_verdict :: "poll_state \<Rightarrow> final_verdict" where
  "ps_verdict s = final_status (map_option rv_status (ps_view s))
     (case ps_view s of None \<Rightarrow> False | Some v \<Rightarrow> rv_preempted_pending v)
     (ps_status_marker s) (ps_live s)"

definition operator_stop :: "poll_state \<Rightarrow> bool" where
  "operator_stop s \<longleftrightarrow> ps_intended_status s = Some ''stopped'' \<and> \<not> ps_handoff_fenced s
     \<and> (actor_is_cli (ps_stopping_actor s) \<or> \<not> underbid_parked s)"

definition operator_destroy :: "poll_state \<Rightarrow> bool" where
  "operator_destroy s \<longleftrightarrow>
     \<not> ps_present s \<and> actor_is_cli (ps_stopping_actor s) \<and> \<not> ps_handoff_fenced s"

definition poll :: "poll_state \<Rightarrow> action" where
  "poll s =
     (if fv_terminal (ps_verdict s) then StopTerminal (TerminalStatus (fv_status (ps_verdict s)))
      else if operator_stop s then StopTerminal OperatorStop
      else if operator_destroy s then StopTerminal OperatorDestroy
      else case spend_time_exceeded s of Some c \<Rightarrow> StopBudget c | None \<Rightarrow>
        if ps_live s then (case bid_action s of Some b \<Rightarrow> MoveBid b | None \<Rightarrow> Noop Live)
        else if ps_not_live_streak s < NOT_LIVE_DEBOUNCE then Noop DebounceNotLive
        else case guardrail_exceeded s of Some c \<Rightarrow> StopBudget c | None \<Rightarrow>
          case bid_action s of Some b \<Rightarrow> MoveBid b | None \<Rightarrow>
            if map_option rv_status (ps_view s) \<noteq> Some ''evicted'' then EmitEvicted (evict_reason s)
            else if \<not> ps_backoff_ready s then Noop Backoff
            else Relaunch)"

section \<open>The ceiling of a watch, the preferred-ceiling alarm, the handoff trigger\<close>

text \<open>The keys the run lane's persistent state has beside the factory's.\<close>

record run_state = poll_state +
  rs_floor_samples :: "price list"
  rs_first_seen_dph :: "price option"
  rs_strict_ceiling :: bool
  rs_explicit_max_bid :: bool

definition refresh_default_ceiling :: "run_state \<Rightarrow> run_state" where
  "refresh_default_ceiling st =
     (let st1 = (case pos_opt (ps_market_min_bid st) of
                   Some m \<Rightarrow> st\<lparr>rs_floor_samples := rs_floor_samples st @ [m]\<rparr> | None \<Rightarrow> st)
      in if rs_explicit_max_bid st1 then st1
         else st1\<lparr>ps_max_bid := default_max_bid (rs_floor_samples st1) (rs_first_seen_dph st1)
                                  (ps_on_demand st1) (rs_strict_ceiling st1)\<rparr>)"

definition preferred_ceiling_alarm :: "run_state \<Rightarrow> bool \<times> price option" where
  "preferred_ceiling_alarm st =
     (if rs_strict_ceiling st then (False, None)
      else (let pref = preferred_ceiling (ps_on_demand st)
            in (ps_live st \<and> (case (pref, ps_last_bid st) of
                                (Some p, Some l) \<Rightarrow> p + BID_MIN_STEP < l | _ \<Rightarrow> False), pref)))"

datatype trigger_reason = UnderPref | NoPolicyTarget | AtPolicyTarget | OverPolicyTarget

definition handoff_trigger :: "run_state \<Rightarrow> bool \<times> price option \<times> price option \<times> trigger_reason" where
  "handoff_trigger st =
     (let (over, pref) = preferred_ceiling_alarm st
      in if \<not> over then (False, pref, None, UnderPref)
         else (case poll_target st of
                 None \<Rightarrow> (False, pref, None, NoPolicyTarget)
               | Some target \<Rightarrow>
                  if (case ps_last_bid st of None \<Rightarrow> True | Some l \<Rightarrow> l \<le> target + BID_MIN_STEP)
                  then (False, pref, Some target, AtPolicyTarget)
                  else (True, pref, Some target, OverPolicyTarget)))"

section \<open>Prices\<close>

lemma ps_live_present: "ps_live s \<Longrightarrow> ps_present s"
  by (simp add: ps_live_def)

lemma poll_target_bounds:
  assumes "poll_target s = Some t"
  shows "\<exists>m. ps_market_min_bid s = Some m \<and> m \<le> t + 1 / 10 ^ 12"
    "ps_max_bid s = Some x \<Longrightarrow> t \<le> x" "pos_opt (ps_on_demand s) = Some d \<Longrightarrow> t < d"
proof -
  obtain m where m: "ps_market_min_bid s = Some m"
    using assms by (cases "ps_market_min_bid s") (auto simp: poll_target_def)
  note b = bid_target_price_bounds [of m "ps_max_bid s" "ps_on_demand s" t]
  show "\<exists>m. ps_market_min_bid s = Some m \<and> m \<le> t + 1 / 10 ^ 12"
    using b(4) assms m by (auto simp: poll_target_def)
  show "ps_max_bid s = Some x \<Longrightarrow> t \<le> x" using b(1) assms m by (auto simp: poll_target_def)
  show "pos_opt (ps_on_demand s) = Some d \<Longrightarrow> t < d" using b(3) assms m
    by (auto simp: poll_target_def)
qed

text \<open>The price the rescue arm would quote.\<close>

definition rescue_target :: "poll_state \<Rightarrow> price option" where
  "rescue_target s = (if nr_floor (notify_rescue_bound s) = None then poll_target s
                      else nr_price (notify_rescue_bound s))"

lemma bid_action_RaiseBid:
  assumes "bid_action s = Some (RaiseBid p)"
  shows "ps_live s" "poll_target s = Some p"
    "\<exists>l m. ps_last_bid s = Some l \<and> ps_market_min_bid s = Some m \<and> l + BID_MIN_STEP \<le> p
       \<and> dflt DEFEND_AT (ps_defend_at s) * l \<le> m"
    "BID_RATE_LIMIT_S \<le> ps_now s - ps_last_bid_put_ts s"
proof -
  show t: "poll_target s = Some p"
    using assms by (auto simp: bid_action_def Let_def split: if_splits option.splits)
  obtain m where m: "ps_market_min_bid s = Some m" using poll_target_bounds(1) [OF t] by blast
  show "ps_live s"
    using assms by (auto simp: bid_action_def Let_def split: if_splits option.splits)
  show "\<exists>l m. ps_last_bid s = Some l \<and> ps_market_min_bid s = Some m \<and> l + BID_MIN_STEP \<le> p
       \<and> dflt DEFEND_AT (ps_defend_at s) * l \<le> m"
    using assms m by (auto simp: bid_action_def Let_def split: if_splits option.splits)
  show "BID_RATE_LIMIT_S \<le> ps_now s - ps_last_bid_put_ts s"
    using assms by (auto simp: bid_action_def Let_def split: if_splits option.splits)
qed

lemma bid_action_LowerBid:
  assumes "bid_action s = Some (LowerBid p)"
  shows "ps_live s" "poll_target s = Some p" "decay_dwell_satisfied s"
    "\<exists>l. ps_last_bid s = Some l \<and> p + BID_MIN_STEP < l"
    "recent_raise_hold s None = Some h \<Longrightarrow> h - CEIL_EPS \<le> p"
    "BID_RATE_LIMIT_S \<le> ps_now s - ps_last_bid_put_ts s"
  using assms by (auto simp: bid_action_def Let_def split: if_splits option.splits)

lemma bid_action_RescueBid:
  assumes "bid_action s = Some (RescueBid p)"
  shows "\<not> ps_live s" "ps_present s" "\<not> ps_rescue_attempted s" "rescue_target s = Some p"
    "\<exists>l. ps_last_bid s = Some l \<and> l < p"
    "BID_RATE_LIMIT_S \<le> ps_now s - ps_last_bid_put_ts s"
  using assms by (auto simp: bid_action_def rescue_target_def Let_def split: if_splits option.splits)

lemma rescue_target_bounds:
  assumes "rescue_target s = Some p"
  shows "ps_max_bid s = Some x \<Longrightarrow> p \<le> x" "pos_opt (ps_on_demand s) = Some d \<Longrightarrow> p < d"
    "ps_market_min_bid s = Some m \<Longrightarrow> m \<le> p + 1 / 10 ^ 12"
proof -
  consider (plain) "poll_target s = Some p"
    | (notify) "nr_price (notify_rescue_bound s) = Some p"
    using assms by (auto simp: rescue_target_def split: if_splits)
  then have "(ps_max_bid s = Some x \<longrightarrow> p \<le> x) \<and> (pos_opt (ps_on_demand s) = Some d \<longrightarrow> p < d)
      \<and> (ps_market_min_bid s = Some m \<longrightarrow> m \<le> p + 1 / 10 ^ 12)"
  proof cases
    case plain
    then show ?thesis using poll_target_bounds [OF plain] by auto
  next
    case notify
    obtain f c where fc: "nr_floor (notify_rescue_bound s) = Some f"
      "rebid_ceiling (ps_launch_dph_anchor s) (ps_max_bid s) (ps_on_demand s)
         (dflt REBID_CEILING_MULT (ps_rebid_ceiling_mult s)) [ps_defense_cap s] = Some c"
      "bid_target_price (Some f) (Some c) (ps_on_demand s) = Some p"
      using notify_rescue_bound_price [OF notify] by blast
    note b = bid_target_price_bounds [OF fc(3)]
    have "ps_max_bid s = Some x \<longrightarrow> p \<le> x"
      using b(1) [of c] rebid_ceiling_bounds(1) [OF fc(2), of x] by auto
    moreover have "ps_market_min_bid s = Some m \<longrightarrow> m \<le> p + 1 / 10 ^ 12"
      using notify_rescue_floor_gt(2) [OF fc(1), of m] b(4) by auto
    ultimately show ?thesis using b(3) by auto
  qed
  then show "ps_max_bid s = Some x \<Longrightarrow> p \<le> x" "pos_opt (ps_on_demand s) = Some d \<Longrightarrow> p < d"
    "ps_market_min_bid s = Some m \<Longrightarrow> m \<le> p + 1 / 10 ^ 12" by auto
qed

fun move_price :: "bid_move \<Rightarrow> price" where
  "move_price (RaiseBid p) = p"
| "move_price (LowerBid p) = p"
| "move_price (RescueBid p) = p"

lemma bid_action_price:
  assumes "bid_action s = Some b"
  shows "rescue_target s = Some (move_price b) \<or> poll_target s = Some (move_price b)"
    "\<exists>l. ps_last_bid s = Some l \<and> l \<noteq> move_price b"
    "BID_RATE_LIMIT_S \<le> ps_now s - ps_last_bid_put_ts s"
proof -
  have step: "0 < BID_MIN_STEP" by (simp add: BID_MIN_STEP_def)
  have "(rescue_target s = Some (move_price b) \<or> poll_target s = Some (move_price b))
    \<and> (\<exists>l. ps_last_bid s = Some l \<and> l \<noteq> move_price b)
    \<and> BID_RATE_LIMIT_S \<le> ps_now s - ps_last_bid_put_ts s"
  proof (cases b)
    case (RaiseBid p)
    then show ?thesis using bid_action_RaiseBid [of s p] assms step by auto
  next
    case (LowerBid p)
    then show ?thesis using bid_action_LowerBid [of s p] assms step by auto
  next
    case (RescueBid p)
    then show ?thesis using bid_action_RescueBid [of s p] assms by auto
  qed
  then show "rescue_target s = Some (move_price b) \<or> poll_target s = Some (move_price b)"
    "\<exists>l. ps_last_bid s = Some l \<and> l \<noteq> move_price b"
    "BID_RATE_LIMIT_S \<le> ps_now s - ps_last_bid_put_ts s" by auto
qed

text \<open>
  A move is a fixed point: with the moved bid standing and the same reads, no further move is
  asked for, whatever the clock says.
\<close>

lemma bid_action_settled:
  assumes "bid_action s = Some b"
  shows "bid_action (s\<lparr>ps_last_bid := Some (move_price b), ps_last_bid_put_ts := t, ps_now := n\<rparr>) = None"
proof -
  let ?s = "s\<lparr>ps_last_bid := Some (move_price b), ps_last_bid_put_ts := t, ps_now := n\<rparr>"
  have same: "poll_target ?s = poll_target s" "ps_live ?s = ps_live s"
    "notify_rescue_bound ?s = notify_rescue_bound s" "rescue_target ?s = rescue_target s"
    by (simp_all add: poll_target_def ps_live_def notify_rescue_bound_def rescue_target_def Let_def
        cong: option.case_cong if_cong)
  have step: "0 < BID_MIN_STEP" by (simp add: BID_MIN_STEP_def)
  show ?thesis
  proof (cases "ps_live s")
    case True
    then have "poll_target s = Some (move_price b)"
      using assms bid_action_RaiseBid(2) bid_action_LowerBid(2) bid_action_RescueBid(1)
      by (cases b) (auto)
    then show ?thesis using True same step by (simp add: bid_action_def Let_def)
  next
    case False
    then obtain p where p: "b = RescueBid p"
      using assms bid_action_RaiseBid(1) bid_action_LowerBid(1) by (cases b) auto
    have r: "rescue_target s = Some p" using bid_action_RescueBid(4) assms p by blast
    show ?thesis using False same r p
      by (auto simp: bid_action_def Let_def rescue_target_def split: if_splits)
  qed
qed

section \<open>Hysteresis\<close>

lemma raise_hold_scan_ge:
  shows "hold = Some h \<Longrightarrow> \<exists>r. raise_hold_scan now w xs hold = Some r \<and> h \<le> r"
    "Suc i < length xs \<Longrightarrow> snd (xs ! i) + CEIL_EPS < snd (xs ! Suc i) \<Longrightarrow>
       now - fst (xs ! Suc i) < w \<Longrightarrow>
       \<exists>r. raise_hold_scan now w xs hold = Some r \<and> snd (xs ! Suc i) \<le> r"
proof (induction now w xs hold arbitrary: h i rule: raise_hold_scan.induct)
  case (1 now w pt pp ts p es hold)
  let ?hold = "if pp + CEIL_EPS < p \<and> now - ts < w
        then Some (case hold of None \<Rightarrow> p | Some h \<Rightarrow> max h p) else hold"
  {
    case 1
    then show ?case using "1.IH"(1) [of "if pp + CEIL_EPS < p \<and> now - ts < w then max h p else h"]
      by (auto split: if_splits)
  next
    case 2
    show ?case
    proof (cases i)
      case 0
      with 2 have "?hold = Some (case hold of None \<Rightarrow> p | Some h \<Rightarrow> max h p)" by simp
      then show ?thesis using "1.IH"(1) 0 2 by (cases hold) force+
    next
      case (Suc j)
      then show ?thesis using "1.IH"(2) [of j] 2 by simp
    qed
  }
qed auto

lemma lower_after_raise:
  assumes "bid_action s = Some (LowerBid p)"
    and "Suc i < length (raise_seen (ps_machine_id s) (ps_bid_history s))"
    and "snd (raise_seen (ps_machine_id s) (ps_bid_history s) ! i) + CEIL_EPS
           < snd (raise_seen (ps_machine_id s) (ps_bid_history s) ! Suc i)"
    and "ps_now s - fst (raise_seen (ps_machine_id s) (ps_bid_history s) ! Suc i) < REBID_WAIT_S"
  shows "snd (raise_seen (ps_machine_id s) (ps_bid_history s) ! Suc i) \<le> p + CEIL_EPS"
proof -
  obtain h where h: "recent_raise_hold s None = Some h"
    "snd (raise_seen (ps_machine_id s) (ps_bid_history s) ! Suc i) \<le> h"
    using raise_hold_scan_ge(2) [OF assms(2-4), of None] by (auto simp: recent_raise_hold_def)
  then show ?thesis using bid_action_LowerBid(5) [OF assms(1), of h] by simp
qed

section \<open>The decay run\<close>

text \<open>The driver's loop: each tick stores the streak the next one reads.\<close>

definition decay_tick :: "nat \<times> secs option \<Rightarrow> poll_state \<Rightarrow> nat \<times> secs option" where
  "decay_tick d s = next_decay_state (s\<lparr>ps_decay_streak := fst d, ps_decay_streak_since := snd d\<rparr>)"

definition decay_run :: "poll_state list \<Rightarrow> nat \<times> secs option" where
  "decay_run ticks = foldl decay_tick (0, None) ticks"

lemma decay_candidate_streak [simp]:
  "decay_candidate (s\<lparr>ps_decay_streak := n, ps_decay_streak_since := t\<rparr>) = decay_candidate s"
  by (simp add: decay_candidate_def poll_target_def ps_live_def)

lemma decay_run_snoc: "decay_run (ticks @ [s]) = decay_tick (decay_run ticks) s"
  by (simp add: decay_run_def)

text \<open>The unbroken run of receded polls at the end of the log, newest first.\<close>

definition receded :: "poll_state list \<Rightarrow> poll_state list" where
  "receded ticks = takeWhile decay_candidate (rev ticks)"

lemma receded_snoc:
  "receded (ticks @ [s]) = (if decay_candidate s then s # receded ticks else [])"
  by (simp add: receded_def)

lemma decay_run_receded:
  "decay_run ticks = (length (receded ticks),
     if receded ticks = [] then None else Some (ps_now (last (receded ticks))))"
proof (induction ticks rule: rev_induct)
  case Nil
  then show ?case by (simp add: decay_run_def receded_def)
next
  case (snoc s ticks)
  then show ?case
    by (auto simp: decay_run_snoc receded_snoc decay_tick_def next_decay_state_def Let_def)
qed

section \<open>The tick\<close>

lemma poll_guarded:
  assumes "poll s = MoveBid b \<or> poll s = Relaunch"
  shows "\<not> fv_terminal (ps_verdict s)" "\<not> operator_stop s" "\<not> operator_destroy s"
    "spend_time_exceeded s = None"
  using assms by (auto simp: poll_def split: if_splits option.splits)

lemma poll_MoveBid: "poll s = MoveBid b \<Longrightarrow> bid_action s = Some b"
  by (auto simp: poll_def split: if_splits option.splits)

lemma poll_cap:
  assumes "spend_time_exceeded s = Some c"
  shows "poll s = StopBudget c \<or> (\<exists>w. poll s = StopTerminal w)"
  using assms by (auto simp: poll_def)

lemma poll_terminal:
  "fv_terminal (ps_verdict s) \<Longrightarrow> poll s = StopTerminal (TerminalStatus (fv_status (ps_verdict s)))"
  by (simp add: poll_def)

lemma handoff_trigger_armed:
  assumes "handoff_trigger st = (True, pref, tgt, why)"
  shows "\<exists>l p t. ps_last_bid st = Some l \<and> pref = Some p \<and> tgt = Some t \<and> poll_target st = Some t
    \<and> p + BID_MIN_STEP < l \<and> t + BID_MIN_STEP < l \<and> ps_live st \<and> \<not> rs_strict_ceiling st
    \<and> why = OverPolicyTarget"
  using assms
proof -
  obtain p where p: "preferred_ceiling (ps_on_demand st) = Some p"
    using assms by (auto simp: handoff_trigger_def preferred_ceiling_alarm_def Let_def split: if_splits option.splits)
  obtain t where t: "poll_target st = Some t"
    using assms by (cases "poll_target st") (auto simp: handoff_trigger_def split: prod.splits if_splits)
  obtain l where l: "ps_last_bid st = Some l"
    using assms by (cases "ps_last_bid st") (auto simp: handoff_trigger_def t split: prod.splits if_splits)
  show ?thesis using assms
    by (auto simp: handoff_trigger_def preferred_ceiling_alarm_def Let_def p t l split: if_splits)
qed

section \<open>Quotes of the tick\<close>

interpretation pq: capped_quote poll_target ps_max_bid "\<lambda>s. pos_opt (ps_on_demand s)"
  by unfold_locales (blast dest: poll_target_bounds)+

interpretation rq: capped_quote rescue_target ps_max_bid "\<lambda>s. pos_opt (ps_on_demand s)"
  by unfold_locales (blast dest: rescue_target_bounds)+

lemma move_price_quote:
  assumes "bid_action s = Some b"
  shows "ps_max_bid s = Some k \<Longrightarrow> 0 \<le> h \<Longrightarrow> move_price b * h \<le> k * h"
    "pos_opt (ps_on_demand s) = Some d \<Longrightarrow> move_price b < d"
  using bid_action_price(1) [OF assms] pq.quote_cost rq.quote_cost pq.quote_ondemand rq.quote_ondemand
  by blast+

section \<open>Properties\<close>

text \<open>A relaunch, the only tick action that rents again, happens exactly when every other row has
  passed: nothing terminal, no operator stop or destroy, no cap breached, the box not live for the
  whole debounce, relaunches left, no bid move pending, the eviction already recorded, and the
  backoff over.\<close>

lemma relaunch_exactly:
  "poll s = Relaunch \<longleftrightarrow>
     \<not> fv_terminal (ps_verdict s) \<and> \<not> operator_stop s \<and> \<not> operator_destroy s
     \<and> spend_time_exceeded s = None \<and> \<not> ps_live s \<and> NOT_LIVE_DEBOUNCE \<le> ps_not_live_streak s
     \<and> ps_relaunch_count s < ps_max_relaunch s \<and> bid_action s = None
     \<and> map_option rv_status (ps_view s) = Some ''evicted'' \<and> ps_backoff_ready s"
  by (auto simp: poll_def guardrail_exceeded_def not_less split: if_splits option.splits)

text \<open>The hard caps come before money: a tick that moves a bid or relaunches is under its budget
  and wall-clock caps and not ended by an operator, and a tick over a cap stops.\<close>

lemma money_after_caps:
  "((\<exists>b. poll s = MoveBid b) \<or> poll s = Relaunch \<longrightarrow>
      (\<forall>b. ps_budget_usd s = Some b \<longrightarrow> ps_spend_usd s < b)
    \<and> (\<forall>w. ps_wall_budget_s s = Some w \<longrightarrow> ps_wall_clock_s s < w)
    \<and> \<not> operator_stop s \<and> \<not> operator_destroy s \<and> \<not> fv_terminal (ps_verdict s))
   \<and> (spend_time_exceeded s \<noteq> None \<longrightarrow> (\<exists>c. poll s = StopBudget c) \<or> (\<exists>w. poll s = StopTerminal w))"
proof (intro conjI impI)
  assume "(\<exists>b. poll s = MoveBid b) \<or> poll s = Relaunch"
  then obtain b where "poll s = MoveBid b \<or> poll s = Relaunch" by blast
  note g = poll_guarded [OF this]
  show "\<forall>b. ps_budget_usd s = Some b \<longrightarrow> ps_spend_usd s < b"
    "\<forall>w. ps_wall_budget_s s = Some w \<longrightarrow> ps_wall_clock_s s < w"
    using g(4) unfolding spend_time_exceeded_None by blast+
  show "\<not> operator_stop s" "\<not> operator_destroy s" "\<not> fv_terminal (ps_verdict s)" by (fact g)+
next
  assume "spend_time_exceeded s \<noteq> None"
  then show "(\<exists>c. poll s = StopBudget c) \<or> (\<exists>w. poll s = StopTerminal w)" using poll_cap by blast
qed

definition evicted_state :: poll_state where
  "evicted_state = mk_poll_state\<lparr>ps_present := True, ps_actual_status := Some ''exited'',
     ps_not_live_streak := 5, ps_view := Some ((empty_view 0)\<lparr>rv_status := ''evicted''\<rparr>),
     ps_backoff_ready := True, ps_budget_usd := Some 10, ps_spend_usd := 4\<rparr>"

text \<open>Every bid move is rate limited, changes the price, and stays under the operator's cap and
  under on-demand; a raise moves up by at least a step on a live box, a decay moves down by more
  than a step on a live box after the dwell, a rescue moves up on a listed box that is not live and
  was not rescued before.\<close>

lemma bid_move_bounded:
  assumes "bid_action s = Some b"
  shows "BID_RATE_LIMIT_S \<le> ps_now s - ps_last_bid_put_ts s
    \<and> (\<forall>k. ps_max_bid s = Some k \<longrightarrow> move_price b \<le> k)
    \<and> (\<forall>d. ps_on_demand s = Some d \<and> 0 < d \<longrightarrow> move_price b < d)
    \<and> (\<exists>l. ps_last_bid s = Some l \<and>
        (case b of
           RaiseBid p \<Rightarrow> ps_live s \<and> l + BID_MIN_STEP \<le> p
         | LowerBid p \<Rightarrow> ps_live s \<and> decay_dwell_satisfied s \<and> p + BID_MIN_STEP < l
         | RescueBid p \<Rightarrow> ps_present s \<and> \<not> ps_live s \<and> \<not> ps_rescue_attempted s \<and> l < p))"
proof -
  have "\<exists>l. ps_last_bid s = Some l \<and>
        (case b of
           RaiseBid p \<Rightarrow> ps_live s \<and> l + BID_MIN_STEP \<le> p
         | LowerBid p \<Rightarrow> ps_live s \<and> decay_dwell_satisfied s \<and> p + BID_MIN_STEP < l
         | RescueBid p \<Rightarrow> ps_present s \<and> \<not> ps_live s \<and> \<not> ps_rescue_attempted s \<and> l < p)"
    using bid_action_RaiseBid [of s] bid_action_LowerBid [of s] bid_action_RescueBid [of s] assms
    by (cases b) auto
  then show ?thesis
    using bid_action_price(3) [OF assms] move_price_quote(1) [OF assms, of _ 1] move_price_quote(2) [OF assms]
    by simp
qed

definition live_state :: poll_state where
  "live_state = mk_poll_state\<lparr>ps_present := True, ps_actual_status := Some ''running'', ps_now := 1000,
     ps_last_bid := Some (2/10), ps_market_min_bid := Some (2/10), ps_on_demand := Some 1,
     ps_max_bid := Some (9/10)\<rparr>"

text \<open>A bid move is a fixed point of the policy: once its price stands, the same reads ask for no
  further move, whatever the clock says. The policy cannot oscillate on a quiet market.\<close>

lemma bid_moves_settle:
  assumes "bid_action s = Some b"
  shows "bid_action (s\<lparr>ps_last_bid := Some (move_price b), ps_last_bid_put_ts := t, ps_now := n\<rparr>) = None"
  using assms by (rule bid_action_settled)

text \<open>A decay never gives back a price a rung just paid: if the recorded bids of this machine
  show a raise inside the wait window, the lowered bid is not under the raised price.\<close>

lemma decay_keeps_recent_raise:
  assumes "bid_action s = Some (LowerBid p)"
    and "raise_seen (ps_machine_id s) (ps_bid_history s) = before @ [(t0, q0), (t1, q1)] @ after"
    and "q0 + CEIL_EPS < q1" "ps_now s - t1 < REBID_WAIT_S"
  shows "q1 \<le> p + CEIL_EPS"
  using lower_after_raise [OF assms(1), of "length before"] assms(2-4) by (simp add: nth_append)

definition decay_state :: poll_state where
  "decay_state = live_state\<lparr>ps_last_bid := Some (4/10), ps_decay_streak := 3, ps_decay_streak_since := Some 800,
     ps_machine_id := Some ''m'',
     ps_bid_history := [\<lparr>he_ts = Some 500, he_price = Some (1/10), he_machine = Some ''m'', he_ts_last = Some 600\<rparr>,
                        \<lparr>he_ts = Some 900, he_price = Some (2/10), he_machine = Some ''m'', he_ts_last = Some 900\<rparr>]\<rparr>"

text \<open>The stored decay streak is the length of the unbroken run of receded polls at the end of the
  log, and its timestamp is when that run began; one poll that is not receded clears both.\<close>

lemma decay_streak_is_unbroken_run:
  "decay_run ticks = (length (takeWhile decay_candidate (rev ticks)),
     if takeWhile decay_candidate (rev ticks) = [] then None
     else Some (ps_now (last (takeWhile decay_candidate (rev ticks)))))"
  using decay_run_receded [of ticks] by (simp add: receded_def)

text \<open>The economic handoff is never armed by a bid the policy itself asks for: the trigger fires
  only on a live box whose standing bid exceeds both the preferred ceiling and the current policy
  target by more than a step.\<close>

lemma trigger_beyond_policy:
  assumes "fst (handoff_trigger st)"
  shows "\<exists>l p t. ps_last_bid st = Some l \<and> preferred_ceiling (ps_on_demand st) = Some p
    \<and> bid_target_price (ps_market_min_bid st) (ps_max_bid st) (ps_on_demand st) = Some t
    \<and> p + BID_MIN_STEP < l \<and> t + BID_MIN_STEP < l \<and> ps_live st"
proof -
  obtain pref tgt why where h: "handoff_trigger st = (True, pref, tgt, why)"
    using assms by (cases "handoff_trigger st") auto
  have "pref = preferred_ceiling (ps_on_demand st)"
    using h by (auto simp: handoff_trigger_def preferred_ceiling_alarm_def Let_def split: if_splits option.splits prod.splits)
  then show ?thesis using handoff_trigger_armed [OF h] by (auto simp: poll_target_def)
qed

definition run_sample :: run_state where
  "run_sample = poll_state.extend (live_state\<lparr>ps_last_bid := Some (8/10)\<rparr>)
     \<lparr>rs_floor_samples = [], rs_first_seen_dph = None, rs_strict_ceiling = False, rs_explicit_max_bid = False\<rparr>"

end
