(* ===== verification/Handoff.thy ===== *)
theory Handoff
  imports Poll
begin

text \<open>
  The migration state machine of \<open>tools/vast/bidpolicy.py\<close>: the snapshot (\<open>mk_handoff_state\<close>),
  the money and work gates in front of a second rental (\<open>_handoff_headroom_ok\<close>,
  \<open>_handoff_candidate_ok\<close>, \<open>_handoff_dwell_satisfied\<close>, \<open>_handoff_arm_refusal\<close>), the hold in
  front of the two-writer fence (\<open>_handoff_fence_hold\<close>) and the step function \<open>handoff_poll\<close>.

  Lemma groups: what each money-moving or destructive action has behind it; the deadlines that
  override every other row; the snapshot gate is monotone in the work at risk.
\<close>

section \<open>Constants\<close>

definition HANDOFF_DWELL_S :: secs where "HANDOFF_DWELL_S = (5 - 1) * NOMINAL_TICK_S"
definition HANDOFF_DWELL_POLLS :: nat where "HANDOFF_DWELL_POLLS = 5"
definition HANDOFF_DEADLINE_S :: secs where "HANDOFF_DEADLINE_S = 1800"
definition HANDOFF_DRAIN_DEADLINE_S :: secs where "HANDOFF_DRAIN_DEADLINE_S = 1800"
definition HANDOFF_FENCE_TIMEOUT_S :: secs where "HANDOFF_FENCE_TIMEOUT_S = 900"
definition HANDOFF_COOLDOWN_S :: secs where "HANDOFF_COOLDOWN_S = 1800"
definition HANDOFF_MAX :: nat where "HANDOFF_MAX = 2"
definition HANDOFF_WINDOW_H :: hours where "HANDOFF_WINDOW_H = HANDOFF_DEADLINE_S / 3600"
definition HANDOFF_PARK_BID :: price where "HANDOFF_PARK_BID = 1/1000"
definition HANDOFF_FENCE_HOLD_ETA_S :: secs where "HANDOFF_FENCE_HOLD_ETA_S = 1200"
definition HANDOFF_FENCE_UNWIND_S :: secs where "HANDOFF_FENCE_UNWIND_S = HANDOFF_DEADLINE_S"

lemmas handoff_constants =
  HANDOFF_DWELL_S_def HANDOFF_DWELL_POLLS_def HANDOFF_DEADLINE_S_def HANDOFF_DRAIN_DEADLINE_S_def
  HANDOFF_FENCE_TIMEOUT_S_def HANDOFF_COOLDOWN_S_def HANDOFF_MAX_def HANDOFF_WINDOW_H_def
  HANDOFF_PARK_BID_def HANDOFF_FENCE_HOLD_ETA_S_def HANDOFF_FENCE_UNWIND_S_def NOMINAL_TICK_S_def

section \<open>The snapshot\<close>

datatype phase = IDLE | ARMED | LAUNCHING | WARMING | SYNCED | CUTOVER | DRAINING | DONE | ABORT

definition HANDOFF_PRE_CUTOVER :: "phase set" where
  "HANDOFF_PRE_CUTOVER = {ARMED, LAUNCHING, WARMING, SYNCED}"

text \<open>\<open>hs_over_ceiling_since\<close> is the key the drivers assign beside the factory's.\<close>

record handoff_state =
  hs_phase :: phase
  hs_over_ceiling_streak :: nat
  hs_primary_iid :: "string option"
  hs_primary_bid :: "price option"
  hs_primary_on_demand :: "price option"
  hs_primary_dph :: "price option"
  hs_primary_evicted :: bool
  hs_primary_gone :: bool
  hs_understudy_iid :: "string option"
  hs_understudy_dph :: "price option"
  hs_understudy_on_demand :: "price option"
  hs_understudy_status :: "string option"
  hs_understudy_live_since :: "secs option"
  hs_understudy_producing :: bool
  hs_understudy_gone :: bool
  hs_drain_ts :: "secs option"
  hs_candidate_min_bid :: "price option"
  hs_candidate_on_demand :: "price option"
  hs_remaining_wall_h :: "hours option"
  hs_final_flush_seen :: bool
  hs_fence_ts :: "secs option"
  hs_ckpt_pulled_epoch :: "nat option"
  hs_handoff_started_ts :: "secs option"
  hs_handoff_spend_usd :: price
  hs_handoffs_done :: nat
  hs_cooldown_until :: secs
  hs_budget_usd :: "price option"
  hs_spend_usd :: price
  hs_now :: secs
  hs_driver_can_complete :: bool
  hs_work_at_risk_h :: hours
  hs_running_unresumable :: nat
  hs_min_running_eta_s :: "secs option"
  hs_ckpt_stale :: bool
  hs_unsafe_override :: bool
  hs_over_ceiling_since :: "secs option"

definition mk_handoff_state :: handoff_state where
  "mk_handoff_state = \<lparr>hs_phase = IDLE, hs_over_ceiling_streak = 0, hs_primary_iid = None,
     hs_primary_bid = None, hs_primary_on_demand = None, hs_primary_dph = None,
     hs_primary_evicted = False, hs_primary_gone = False, hs_understudy_iid = None,
     hs_understudy_dph = None, hs_understudy_on_demand = None, hs_understudy_status = None,
     hs_understudy_live_since = None, hs_understudy_producing = False, hs_understudy_gone = False,
     hs_drain_ts = None, hs_candidate_min_bid = None, hs_candidate_on_demand = None,
     hs_remaining_wall_h = Some 0, hs_final_flush_seen = False, hs_fence_ts = None,
     hs_ckpt_pulled_epoch = None, hs_handoff_started_ts = None, hs_handoff_spend_usd = 0,
     hs_handoffs_done = 0, hs_cooldown_until = 0, hs_budget_usd = None, hs_spend_usd = 0,
     hs_now = 0, hs_driver_can_complete = True, hs_work_at_risk_h = 0,
     hs_running_unresumable = 0, hs_min_running_eta_s = None, hs_ckpt_stale = False,
     hs_unsafe_override = False, hs_over_ceiling_since = None\<rparr>"

section \<open>Gates\<close>

definition handoff_headroom_ok ::
  "price option \<Rightarrow> price \<Rightarrow> price option \<Rightarrow> price option \<Rightarrow> price \<Rightarrow> bool" where
  "handoff_headroom_ok budget_usd spend_usd primary_dph candidate_target_bid margin =
     (case (candidate_target_bid, primary_dph) of
        (Some target, Some dph) \<Rightarrow>
          (case budget_usd of
             None \<Rightarrow> True
           | Some budget \<Rightarrow> (dph + target) * HANDOFF_WINDOW_H + margin < budget - spend_usd)
      | _ \<Rightarrow> False)"

definition handoff_candidate_ok ::
  "price option \<Rightarrow> price option \<Rightarrow> price option \<Rightarrow> hours option \<Rightarrow> price option \<Rightarrow> hours \<Rightarrow> bool" where
  "handoff_candidate_ok primary_dph candidate_min_bid candidate_on_demand remaining_wall_h
       primary_on_demand work_at_risk_h =
     (case (primary_dph, candidate_min_bid, candidate_on_demand, primary_on_demand, remaining_wall_h) of
        (Some dph, Some cmb, Some cod, Some pod, Some remaining) \<Rightarrow>
          (case (bid_target_price (Some cmb) None (Some cod), preferred_ceiling (Some pod)) of
             (Some target, Some pref) \<Rightarrow>
               if pref < target then False
               else (let projected_savings = (dph - target) * remaining;
                         migration_overhead = (dph + target) * HANDOFF_WINDOW_H + dph * work_at_risk_h
                     in migration_overhead < projected_savings)
           | _ \<Rightarrow> False)
      | _ \<Rightarrow> False)"

definition handoff_dwell_satisfied :: "nat \<Rightarrow> secs option \<Rightarrow> secs \<Rightarrow> bool" where
  "handoff_dwell_satisfied streak since now =
     (if streak = 0 then False
      else (case since of
              Some t \<Rightarrow> HANDOFF_DWELL_S \<le> now - t
            | None \<Rightarrow> HANDOFF_DWELL_POLLS \<le> streak))"

datatype arm_refusal = DriverCannotComplete | UnresumableRunningJob

definition handoff_arm_refusal :: "handoff_state \<Rightarrow> arm_refusal option" where
  "handoff_arm_refusal hs =
     (if hs_unsafe_override hs then None
      else if \<not> hs_driver_can_complete hs then Some DriverCannotComplete
      else if 0 < hs_running_unresumable hs then Some UnresumableRunningJob
      else None)"

datatype fence_hold = NoResumableCheckpoint | EtaHold secs | CheckpointStale

definition handoff_fence_hold :: "handoff_state \<Rightarrow> fence_hold option" where
  "handoff_fence_hold hs =
     (if 0 < hs_running_unresumable hs then Some NoResumableCheckpoint
      else (case hs_min_running_eta_s hs of
              Some eta \<Rightarrow>
                if eta < HANDOFF_FENCE_HOLD_ETA_S then Some (EtaHold eta)
                else if hs_ckpt_stale hs then Some CheckpointStale else None
            | None \<Rightarrow> if hs_ckpt_stale hs then Some CheckpointStale else None))"

definition handoff_candidate_target :: "handoff_state \<Rightarrow> price option" where
  "handoff_candidate_target hs =
     bid_target_price (hs_candidate_min_bid hs) None (hs_candidate_on_demand hs)"

section \<open>The step function\<close>

datatype noop_why =
    Cooldown | MaxHandoffs | Dwell | Idle | Precondition arm_refusal | Headroom | CandidateReject
  | FenceHold fence_hold | AwaitFlush | AwaitUnderstudyCkpt

datatype resume_why = FastCutover | FlushTimeout | PostFlush
datatype abort_why =
    PrimaryEvicted | Deadline | UnderstudyDiedDraining | DrainDeadline | FenceUnwind
  | NoOffer | UnderstudyUnlaunchable

datatype handoff_action =
    HNoop noop_why
  | Arm
  | LaunchUnderstudy
  | WarmWait
  | MarkSynced
  | FencePrimary
  | ResumeUnderstudy resume_why
  | DrainPrimary
  | Complete
  | AbortReap abort_why
  | AbortUnfence abort_why

definition understudy_dead :: "handoff_state \<Rightarrow> bool" where
  "understudy_dead hs \<longleftrightarrow> hs_understudy_gone hs
     \<or> (case hs_understudy_status hs of None \<Rightarrow> False | Some a \<Rightarrow> a \<notin> LIVE_STATES)"

definition past :: "secs option \<Rightarrow> secs \<Rightarrow> secs \<Rightarrow> bool" where
  "past ts now limit = (case ts of None \<Rightarrow> False | Some t \<Rightarrow> limit \<le> now - t)"

text \<open>The rows above the phase advance, in their order.\<close>

definition handoff_override :: "handoff_state \<Rightarrow> handoff_action option" where
  "handoff_override hs =
     (if hs_primary_evicted hs \<and> hs_phase hs \<in> HANDOFF_PRE_CUTOVER then
        Some (if hs_phase hs = SYNCED then ResumeUnderstudy FastCutover else AbortReap PrimaryEvicted)
      else if hs_phase hs \<in> HANDOFF_PRE_CUTOVER
              \<and> past (hs_handoff_started_ts hs) (hs_now hs) HANDOFF_DEADLINE_S then
        Some (AbortReap Deadline)
      else if hs_phase hs = DRAINING \<and> \<not> hs_understudy_producing hs
              \<and> (understudy_dead hs \<or> past (hs_drain_ts hs) (hs_now hs) HANDOFF_DRAIN_DEADLINE_S) then
        (let why = (if understudy_dead hs then UnderstudyDiedDraining else DrainDeadline)
         in Some (if hs_primary_gone hs then AbortReap why else AbortUnfence why))
      else if hs_phase hs = CUTOVER \<and> past (hs_fence_ts hs) (hs_now hs) HANDOFF_FENCE_UNWIND_S then
        Some (AbortUnfence FenceUnwind)
      else None)"

definition handoff_idle :: "handoff_state \<Rightarrow> handoff_action" where
  "handoff_idle hs =
     (if hs_now hs < hs_cooldown_until hs then HNoop Cooldown
      else if HANDOFF_MAX \<le> hs_handoffs_done hs then HNoop MaxHandoffs
      else if \<not> handoff_dwell_satisfied (hs_over_ceiling_streak hs) (hs_over_ceiling_since hs) (hs_now hs)
      then HNoop (if hs_over_ceiling_streak hs \<noteq> 0 then Dwell else Idle)
      else case handoff_arm_refusal hs of Some r \<Rightarrow> HNoop (Precondition r) | None \<Rightarrow>
        if \<not> handoff_headroom_ok (hs_budget_usd hs) (hs_spend_usd hs) (hs_primary_dph hs)
               (handoff_candidate_target hs) 0 then HNoop Headroom
        else if \<not> handoff_candidate_ok (hs_primary_dph hs) (hs_candidate_min_bid hs)
               (hs_candidate_on_demand hs) (hs_remaining_wall_h hs) (hs_primary_on_demand hs)
               (hs_work_at_risk_h hs) then HNoop CandidateReject
        else Arm)"

definition handoff_advance :: "handoff_state \<Rightarrow> handoff_action" where
  "handoff_advance hs =
     (case hs_phase hs of
        IDLE \<Rightarrow> handoff_idle hs
      | ARMED \<Rightarrow> LaunchUnderstudy
      | LAUNCHING \<Rightarrow> if hs_ckpt_pulled_epoch hs \<noteq> None then MarkSynced else WarmWait
      | WARMING \<Rightarrow> if hs_ckpt_pulled_epoch hs \<noteq> None then MarkSynced else WarmWait
      | SYNCED \<Rightarrow> (case handoff_fence_hold hs of Some h \<Rightarrow> HNoop (FenceHold h) | None \<Rightarrow> FencePrimary)
      | CUTOVER \<Rightarrow>
          if \<not> hs_final_flush_seen hs then
            (if past (hs_fence_ts hs) (hs_now hs) HANDOFF_FENCE_TIMEOUT_S
             then ResumeUnderstudy FlushTimeout else HNoop AwaitFlush)
          else ResumeUnderstudy PostFlush
      | DRAINING \<Rightarrow>
          if \<not> hs_understudy_producing hs then HNoop AwaitUnderstudyCkpt
          else if \<not> hs_primary_gone hs then DrainPrimary
          else Complete
      | _ \<Rightarrow> HNoop Idle)"

definition handoff_poll :: "handoff_state \<Rightarrow> handoff_action" where
  "handoff_poll hs =
     (case handoff_override hs of Some a \<Rightarrow> a | None \<Rightarrow> handoff_advance hs)"

section \<open>What each action has behind it\<close>

lemmas handoff_unfold = handoff_poll_def handoff_override_def handoff_advance_def Let_def

lemma handoff_idle_cases: "handoff_idle hs = Arm \<or> (\<exists>w. handoff_idle hs = HNoop w)"
  by (auto simp: handoff_idle_def split: option.splits)

lemma handoff_idle_not [simp]:
  "handoff_idle hs \<noteq> LaunchUnderstudy" "handoff_idle hs \<noteq> FencePrimary"
  "handoff_idle hs \<noteq> DrainPrimary" "handoff_idle hs \<noteq> ResumeUnderstudy w"
  "handoff_idle hs \<noteq> Complete" "handoff_idle hs \<noteq> AbortReap a" "handoff_idle hs \<noteq> AbortUnfence a"
  "handoff_idle hs \<noteq> MarkSynced" "handoff_idle hs \<noteq> WarmWait"
  using handoff_idle_cases [of hs] by auto

lemma handoff_candidate_okD:
  assumes "handoff_candidate_ok (Some dph) cmb cod rem pod war"
  obtains t r d where "bid_target_price cmb None cod = Some t" "rem = Some r" "pod = Some d" "0 < d"
    "t \<le> round3 (BID_CEILING_ONDEMAND_FRAC * d)"
    "(dph + t) * HANDOFF_WINDOW_H + dph * war < (dph - t) * r"
  using assms
  by (auto simp: handoff_candidate_ok_def Let_def preferred_ceiling_def not_less
      split: option.splits if_splits)

lemma handoff_arm:
  assumes "handoff_poll hs = Arm"
  shows "hs_phase hs = IDLE" "hs_cooldown_until hs \<le> hs_now hs" "hs_handoffs_done hs < HANDOFF_MAX"
    "handoff_dwell_satisfied (hs_over_ceiling_streak hs) (hs_over_ceiling_since hs) (hs_now hs)"
    "handoff_arm_refusal hs = None"
    "handoff_headroom_ok (hs_budget_usd hs) (hs_spend_usd hs) (hs_primary_dph hs)
       (handoff_candidate_target hs) 0"
    "handoff_candidate_ok (hs_primary_dph hs) (hs_candidate_min_bid hs)
       (hs_candidate_on_demand hs) (hs_remaining_wall_h hs) (hs_primary_on_demand hs) (hs_work_at_risk_h hs)"
proof -
  have "hs_phase hs = IDLE \<and> handoff_idle hs = Arm"
    using assms by (auto simp: handoff_unfold split: if_splits phase.splits option.splits)
  then show "hs_phase hs = IDLE" "hs_cooldown_until hs \<le> hs_now hs" "hs_handoffs_done hs < HANDOFF_MAX"
    "handoff_dwell_satisfied (hs_over_ceiling_streak hs) (hs_over_ceiling_since hs) (hs_now hs)"
    "handoff_arm_refusal hs = None"
    "handoff_headroom_ok (hs_budget_usd hs) (hs_spend_usd hs) (hs_primary_dph hs)
       (handoff_candidate_target hs) 0"
    "handoff_candidate_ok (hs_primary_dph hs) (hs_candidate_min_bid hs)
       (hs_candidate_on_demand hs) (hs_remaining_wall_h hs) (hs_primary_on_demand hs) (hs_work_at_risk_h hs)"
    by (auto simp: handoff_idle_def split: if_splits option.splits)
qed

lemma handoff_fence:
  assumes "handoff_poll hs = FencePrimary"
  shows "hs_phase hs = SYNCED" "handoff_fence_hold hs = None" "\<not> hs_primary_evicted hs"
    "\<not> past (hs_handoff_started_ts hs) (hs_now hs) HANDOFF_DEADLINE_S"
  using assms
  by (auto simp: handoff_unfold HANDOFF_PRE_CUTOVER_def split: if_splits phase.splits option.splits)

lemma handoff_fence_hold_None:
  "handoff_fence_hold hs = None \<longleftrightarrow> hs_running_unresumable hs = 0 \<and> \<not> hs_ckpt_stale hs
     \<and> (\<forall>eta. hs_min_running_eta_s hs = Some eta \<longrightarrow> HANDOFF_FENCE_HOLD_ETA_S \<le> eta)"
  by (auto simp: handoff_fence_hold_def not_less split: option.splits)

lemma handoff_drain:
  assumes "handoff_poll hs = DrainPrimary"
  shows "hs_phase hs = DRAINING" "hs_understudy_producing hs" "\<not> hs_primary_gone hs"
  using assms by (auto simp: handoff_unfold split: if_splits phase.splits option.splits)

lemma handoff_resume:
  assumes "handoff_poll hs = ResumeUnderstudy w"
  shows "w = FastCutover \<Longrightarrow> hs_phase hs = SYNCED \<and> hs_primary_evicted hs"
    "w = PostFlush \<Longrightarrow> hs_phase hs = CUTOVER \<and> hs_final_flush_seen hs"
    "w = FlushTimeout \<Longrightarrow> hs_phase hs = CUTOVER \<and> past (hs_fence_ts hs) (hs_now hs) HANDOFF_FENCE_TIMEOUT_S"
  using assms
  by (auto simp: handoff_unfold HANDOFF_PRE_CUTOVER_def split: if_splits phase.splits option.splits)

lemma handoff_abort_phase:
  "handoff_poll hs = AbortReap w \<Longrightarrow> hs_phase hs \<in> HANDOFF_PRE_CUTOVER \<or> hs_phase hs = DRAINING \<and> hs_primary_gone hs"
  "handoff_poll hs = AbortUnfence w \<Longrightarrow> hs_phase hs = CUTOVER \<or> hs_phase hs = DRAINING \<and> \<not> hs_primary_gone hs"
  by (auto simp: handoff_unfold split: if_splits phase.splits option.splits)

text \<open>The phases whose clock has run out, at the time of the snapshot.\<close>

definition overdue :: "handoff_state \<Rightarrow> bool" where
  "overdue hs \<longleftrightarrow>
     hs_phase hs \<in> HANDOFF_PRE_CUTOVER \<and> past (hs_handoff_started_ts hs) (hs_now hs) HANDOFF_DEADLINE_S
   \<or> hs_phase hs = CUTOVER \<and> past (hs_fence_ts hs) (hs_now hs) HANDOFF_FENCE_TIMEOUT_S
   \<or> hs_phase hs = DRAINING \<and> \<not> hs_understudy_producing hs
     \<and> past (hs_drain_ts hs) (hs_now hs) HANDOFF_DRAIN_DEADLINE_S"

lemma past_mono: "past ts now a \<Longrightarrow> b \<le> a \<Longrightarrow> past ts now b"
  by (auto simp: past_def split: option.splits)

lemma overdue_leaves:
  assumes "overdue hs"
  shows "(\<exists>w. handoff_poll hs = AbortReap w) \<or> (\<exists>w. handoff_poll hs = AbortUnfence w)
       \<or> (\<exists>w. handoff_poll hs = ResumeUnderstudy w)"
  using assms
  by (auto simp: overdue_def handoff_unfold HANDOFF_PRE_CUTOVER_def split: option.splits phase.splits)

lemma handoff_candidate_ok_antimono:
  assumes "handoff_candidate_ok dph cmb cod rem pod w'" "w \<le> w'" "dph = Some d" "0 \<le> d"
  shows "handoff_candidate_ok dph cmb cod rem pod w"
proof -
  have "d * w \<le> d * w'" using assms(2,4) by (intro mult_left_mono)
  then show ?thesis using assms(1,3)
    by (auto simp: handoff_candidate_ok_def Let_def split: option.splits if_splits)
qed

section \<open>Properties\<close>

text \<open>A migration is armed only when it pays for itself: the current price, the candidate price and the
  remaining wall are known, the candidate is at most the preferred fraction of the box's on-demand
  price, the saving over the remaining wall exceeds the overlap of two rentals plus the work that
  would be redone, the overlap fits in what is left of the budget, the excess has lasted the whole
  dwell, the cooldown is over, and fewer than the maximum number of migrations were done.\<close>

lemma arm_pays_for_itself:
  assumes "handoff_poll hs = Arm"
  shows "\<exists>dph t rem od.
      hs_primary_dph hs = Some dph \<and> hs_remaining_wall_h hs = Some rem \<and> hs_primary_on_demand hs = Some od
    \<and> bid_target_price (hs_candidate_min_bid hs) None (hs_candidate_on_demand hs) = Some t
    \<and> t \<le> round3 (BID_CEILING_ONDEMAND_FRAC * od)
    \<and> (dph + t) * HANDOFF_WINDOW_H + dph * hs_work_at_risk_h hs < (dph - t) * rem
    \<and> (\<forall>b. hs_budget_usd hs = Some b \<longrightarrow> (dph + t) * HANDOFF_WINDOW_H < b - hs_spend_usd hs)
    \<and> hs_phase hs = IDLE \<and> hs_cooldown_until hs \<le> hs_now hs \<and> hs_handoffs_done hs < HANDOFF_MAX
    \<and> (\<forall>s. hs_over_ceiling_since hs = Some s \<longrightarrow> HANDOFF_DWELL_S \<le> hs_now hs - s)"
proof -
  note a = handoff_arm [OF assms]
  obtain dph where d: "hs_primary_dph hs = Some dph"
    using a(6) by (auto simp: handoff_headroom_ok_def split: option.splits)
  from handoff_candidate_okD [OF a(7) [unfolded d]] obtain t r od where
    c: "bid_target_price (hs_candidate_min_bid hs) None (hs_candidate_on_demand hs) = Some t"
      "hs_remaining_wall_h hs = Some r" "hs_primary_on_demand hs = Some od"
      "t \<le> round3 (BID_CEILING_ONDEMAND_FRAC * od)"
      "(dph + t) * HANDOFF_WINDOW_H + dph * hs_work_at_risk_h hs < (dph - t) * r"
    by blast
  have "\<forall>b. hs_budget_usd hs = Some b \<longrightarrow> (dph + t) * HANDOFF_WINDOW_H < b - hs_spend_usd hs"
    using a(6) d c(1) by (auto simp: handoff_headroom_ok_def handoff_candidate_target_def)
  moreover have "\<forall>s. hs_over_ceiling_since hs = Some s \<longrightarrow> HANDOFF_DWELL_S \<le> hs_now hs - s"
    using a(4) by (auto simp: handoff_dwell_satisfied_def split: if_splits)
  ultimately show ?thesis using a(1,2,3) c d by blast
qed

definition arm_sample :: handoff_state where
  "arm_sample = mk_handoff_state\<lparr>hs_over_ceiling_streak := 5, hs_over_ceiling_since := Some 0, hs_now := 100000,
     hs_primary_dph := Some 1, hs_primary_on_demand := Some 1, hs_candidate_min_bid := Some (2/10),
     hs_candidate_on_demand := Some 1, hs_remaining_wall_h := Some 20, hs_budget_usd := Some 50\<rparr>"

text \<open>The primary is fenced only when nothing is lost by it: the understudy holds a checkpoint, every
  running job can resume from one, the checkpoint is fresh, no running job ends within twenty
  minutes, the primary was not evicted meanwhile, and the migration's own deadline has not passed.\<close>

lemma fence_loses_no_work:
  assumes "handoff_poll hs = FencePrimary"
  shows "hs_phase hs = SYNCED \<and> hs_running_unresumable hs = 0 \<and> \<not> hs_ckpt_stale hs
    \<and> (\<forall>eta. hs_min_running_eta_s hs = Some eta \<longrightarrow> 20 * 60 \<le> eta)
    \<and> \<not> hs_primary_evicted hs
    \<and> (\<forall>t. hs_handoff_started_ts hs = Some t \<longrightarrow> hs_now hs - t < HANDOFF_DEADLINE_S)"
  using handoff_fence [OF assms] unfolding handoff_fence_hold_None
  by (auto simp: past_def HANDOFF_FENCE_HOLD_ETA_S_def)

end
