(* ===== verification/LadderCore.thy ===== *)
theory LadderCore
  imports Poll
begin

text \<open>
  The state both supervision lanes keep about their own standing bid
  (\<open>tools/vast/ladder_core.py\<close>): the recorded bid history (\<open>note_standing_bid\<close>,
  \<open>bid_history_for\<close>), the seam resets, the belief reconciliation
  (\<open>reconcile_standing_bid\<close>) and the self-referential floor guard (\<open>self_floor_guard\<close>).

  The lane hooks are observation only: each operation returns the list of hook calls it makes.
  Lemma groups: a price noted less than one lag ago is still recognised as our own, as long as
  fewer than \<open>BID_HISTORY_MAX\<close> notes follow it; the guard returns the least row that is not an
  echo; it changes no price belief.
\<close>

section \<open>State\<close>

definition BID_HISTORY_MAX :: nat where "BID_HISTORY_MAX = 72"

record ladder_ctx =
  lc_last_bid :: "price option"
  lc_bid_history :: "hist_entry list"
  lc_self_floor_at :: "(price \<times> self_kind) option"
  lc_self_floor_since :: "secs option"
  lc_self_floor_sustained_said :: bool
  lc_scaled_floor_said :: bool
  lc_on_demand_last :: "price option"
  lc_put_ts :: "secs option"
  lc_first_seen_dph :: "price option"
  lc_now :: secs

text \<open>Python's \<open>a or b\<close> on numbers that may be missing: zero is falsy.\<close>

definition or_num :: "rat option \<Rightarrow> rat option \<Rightarrow> rat option" where
  "or_num a b = (case a of None \<Rightarrow> b | Some x \<Rightarrow> if x = 0 then b else Some x)"

section \<open>The bid history\<close>

text \<open>\<open>str(hist_field(entry, 2))\<close>: a missing field renders as \<open>None\<close>.\<close>

definition machine_str :: "hist_entry \<Rightarrow> string" where
  "machine_str e = dflt ''None'' (he_machine e)"

definition falsy_id :: "string option \<Rightarrow> bool" where
  "falsy_id m = (m = None \<or> m = Some [])"

definition entry_last :: "hist_entry \<Rightarrow> secs" where
  "entry_last e = dflt 0 (or_num (he_ts_last e) (he_ts e))"

definition prune_history :: "secs \<Rightarrow> hist_entry list \<Rightarrow> hist_entry list" where
  "prune_history cutoff hist =
     (let kept = filter (\<lambda>e. cutoff \<le> entry_last e) hist
      in drop (length kept - BID_HISTORY_MAX) kept)"

definition same_standing :: "hist_entry \<Rightarrow> price \<Rightarrow> string \<Rightarrow> bool" where
  "same_standing e bid machine =
     ((case he_price e of Some p \<Rightarrow> \<bar>p - bid\<bar> \<le> BID_SELF_FLOOR_EPS | None \<Rightarrow> False)
      \<and> machine_str e = machine)"

definition note_history ::
  "hist_entry list \<Rightarrow> price option \<Rightarrow> string option \<Rightarrow> secs \<Rightarrow> secs \<Rightarrow> hist_entry list" where
  "note_history hist bid_now machine_id now lag_s =
     (case pos_opt bid_now of
        None \<Rightarrow> hist
      | Some bid \<Rightarrow>
          if falsy_id machine_id then hist
          else if hist \<noteq> [] \<and> same_standing (last hist) bid (the machine_id)
          then butlast hist @ [(last hist)\<lparr>he_ts_last := Some now\<rparr>]
          else prune_history (now - lag_s)
                 (hist @ [\<lparr>he_ts = Some now, he_price = Some bid, he_machine = machine_id,
                           he_ts_last = Some now\<rparr>]))"

definition note_standing_bid ::
  "ladder_ctx \<Rightarrow> price option \<Rightarrow> string option \<Rightarrow> secs \<Rightarrow> secs \<Rightarrow> ladder_ctx" where
  "note_standing_bid ctx bid_now machine_id now lag_s =
     ctx\<lparr>lc_bid_history := note_history (lc_bid_history ctx) bid_now machine_id now lag_s\<rparr>"

definition bid_history_for :: "ladder_ctx \<Rightarrow> string option \<Rightarrow> hist_entry list" where
  "bid_history_for ctx machine_id =
     (if falsy_id machine_id then []
      else filter (\<lambda>e. machine_str e = the machine_id) (lc_bid_history ctx))"

section \<open>Seam resets\<close>

definition self_floor_reset :: "'a ladder_ctx_scheme \<Rightarrow> 'a ladder_ctx_scheme" where
  "self_floor_reset ctx = ctx\<lparr>lc_self_floor_at := None, lc_self_floor_since := None,
     lc_self_floor_sustained_said := False\<rparr>"

definition box_swap_reset :: "'a ladder_ctx_scheme \<Rightarrow> bool \<Rightarrow> 'a ladder_ctx_scheme" where
  "box_swap_reset ctx reset_sticky_on_demand =
     (let ctx = (self_floor_reset ctx)\<lparr>lc_bid_history := []\<rparr>
      in if reset_sticky_on_demand then ctx\<lparr>lc_on_demand_last := None\<rparr> else ctx)"

section \<open>The belief about the standing bid\<close>

datatype belief_event = MissingBase | Reconciled "price option" price

definition reconcile_standing_bid ::
  "ladder_ctx \<Rightarrow> bool \<Rightarrow> price option \<Rightarrow> price option \<Rightarrow> string option \<Rightarrow> secs
     \<Rightarrow> price option \<times> ladder_ctx \<times> belief_event list" where
  "reconcile_standing_bid ctx is_bid true_bid dph machine_id now =
     (let bid_now = or_num true_bid dph;
          ctx1 = (if is_bid then note_standing_bid ctx bid_now machine_id now BID_SELF_FLOOR_LAG_S else ctx);
          ev1 = (if is_bid \<and> true_bid = None then [MissingBase] else []);
          truthy_bid = (or_num bid_now None \<noteq> None);
          (ctx2, ev2) =
            (if lc_last_bid ctx1 = None \<and> is_bid \<and> truthy_bid then (ctx1\<lparr>lc_last_bid := bid_now\<rparr>, [])
             else if is_bid \<and> or_num true_bid None \<noteq> None
                     \<and> BID_RATE_LIMIT_S < now - dflt 0 (lc_put_ts ctx1)
                     \<and> 1/10^9 < \<bar>dflt 0 (lc_last_bid ctx1) - the true_bid\<bar>
             then (ctx1\<lparr>lc_last_bid := true_bid\<rparr>, [Reconciled (lc_last_bid ctx1) (the true_bid)])
             else (ctx1, []));
          ctx3 = (if is_bid \<and> truthy_bid \<and> lc_first_seen_dph ctx2 = None
                  then ctx2\<lparr>lc_first_seen_dph := bid_now\<rparr> else ctx2)
      in (bid_now, ctx3, ev1 @ ev2))"

section \<open>The self-floor guard\<close>

text \<open>The hook calls of \<open>LaneHooks\<close>.\<close>

datatype lane_hook =
    ScaledRead "price option"
  | SelfFloorHook price self_floor "price option" "price list"
  | FloorBlind secs
  | EpisodeEnd price

definition guard_rows :: "price option \<Rightarrow> price option list \<Rightarrow> price list" where
  "guard_rows market floors =
     (let rows = List.map_filter id floors in if rows = [] then opt_list market else rows)"

definition echo_of :: "ladder_ctx \<Rightarrow> string option \<Rightarrow> secs \<Rightarrow> price \<Rightarrow> self_floor option" where
  "echo_of ctx machine_id now f =
     market_floor_self_match (Some f) (lc_last_bid ctx) (bid_history_for ctx machine_id) (Some now)
       BID_SELF_FLOOR_LAG_S BID_SELF_FLOOR_EPS"

definition self_floor_guard ::
  "ladder_ctx \<Rightarrow> price option \<Rightarrow> bool \<Rightarrow> price option list \<Rightarrow> bool \<Rightarrow> string option \<Rightarrow> secs option
     \<Rightarrow> price option \<times> ladder_ctx \<times> lane_hook list" where
  "self_floor_guard ctx market tenant floors scaled machine_id now_arg =
     (let now = dflt (lc_now ctx) now_arg;
          rows = guard_rows market floors
      in if tenant \<and> scaled \<and> rows \<noteq> [] then
           (None, ctx\<lparr>lc_scaled_floor_said := True\<rparr>,
            if lc_scaled_floor_said ctx then [] else [ScaledRead market])
         else
           (let ctx = ctx\<lparr>lc_scaled_floor_said := False\<rparr>;
                self_val = (if tenant then find (\<lambda>f. echo_of ctx machine_id now f \<noteq> None) rows else None);
                visible = (if tenant then filter (\<lambda>f. echo_of ctx machine_id now f = None) rows else [])
            in case self_val of
                 Some v \<Rightarrow>
                   (let m = the (echo_of ctx machine_id now v);
                        key = Some (v, sf_kind m);
                        ev = (if lc_self_floor_at ctx \<noteq> key
                              then [SelfFloorHook v m (if visible = [] then None else Some (min_list visible)) visible]
                              else []);
                        ctx = ctx\<lparr>lc_self_floor_at := key\<rparr>
                    in if visible \<noteq> [] then
                         (Some (min_list visible),
                          ctx\<lparr>lc_self_floor_since := None, lc_self_floor_sustained_said := False\<rparr>, ev)
                       else (case lc_self_floor_since ctx of
                               None \<Rightarrow> (None, ctx\<lparr>lc_self_floor_since := Some now\<rparr>, ev)
                             | Some since \<Rightarrow>
                                 if BID_SELF_FLOOR_SUSTAINED_S < now - since \<and> \<not> lc_self_floor_sustained_said ctx
                                 then (None, ctx\<lparr>lc_self_floor_sustained_said := True\<rparr>,
                                       ev @ [FloorBlind (now - since)])
                                 else (None, ctx, ev)))
               | None \<Rightarrow>
                   (case market of
                      Some mk \<Rightarrow>
                        if tenant \<and> lc_self_floor_at ctx \<noteq> None
                        then (market, self_floor_reset ctx, [EpisodeEnd mk])
                        else (market, ctx, [])
                    | None \<Rightarrow> (market, ctx, []))))"

section \<open>The contract of a floor guard\<close>

text \<open>
  What the pricing side relies on: the guard hands on one of the listed rows, never an echo, the
  least of the others, and nothing only when every row is an echo.
\<close>

locale floor_guard =
  fixes guard :: "'c \<Rightarrow> price list \<Rightarrow> price option"
    and echo :: "'c \<Rightarrow> price \<Rightarrow> bool"
  assumes guard_row: "guard c rows = Some f \<Longrightarrow> f \<in> set rows"
    and guard_not_echo: "guard c rows = Some f \<Longrightarrow> \<not> echo c f"
    and guard_least: "guard c rows = Some f \<Longrightarrow> g \<in> set rows \<Longrightarrow> \<not> echo c g \<Longrightarrow> f \<le> g"
    and guard_none: "guard c rows = None \<Longrightarrow> g \<in> set rows \<Longrightarrow> echo c g"
begin

lemma guard_Some_iff:
  "guard c rows = Some f \<longleftrightarrow> f \<in> set rows \<and> \<not> echo c f \<and> (\<forall>g\<in>set rows. \<not> echo c g \<longrightarrow> f \<le> g)"
proof
  assume "guard c rows = Some f"
  then show "f \<in> set rows \<and> \<not> echo c f \<and> (\<forall>g\<in>set rows. \<not> echo c g \<longrightarrow> f \<le> g)"
    using guard_row guard_not_echo guard_least by blast
next
  assume f: "f \<in> set rows \<and> \<not> echo c f \<and> (\<forall>g\<in>set rows. \<not> echo c g \<longrightarrow> f \<le> g)"
  then obtain h where h: "guard c rows = Some h" using guard_none by (cases "guard c rows") blast+
  then have "h = f" using f guard_row [OF h] guard_not_echo [OF h] guard_least [OF h] by (meson antisym)
  then show "guard c rows = Some f" using h by simp
qed

text \<open>Only the rows that are not echoes matter.\<close>

lemma guard_cong:
  assumes "{f \<in> set rows. \<not> echo c f} = {f \<in> set rows'. \<not> echo c f}"
  shows "guard c rows = guard c rows'"
proof (rule option.expand)
  have eq: "guard c rows = Some f \<longleftrightarrow> guard c rows' = Some f" for f
    using assms unfolding guard_Some_iff by blast
  show "(guard c rows = None) = (guard c rows' = None)" using eq by (metis not_None_eq)
  show "\<lbrakk>guard c rows \<noteq> None; guard c rows' \<noteq> None\<rbrakk> \<Longrightarrow> the (guard c rows) = the (guard c rows')"
    using eq by fastforce
qed

lemma guard_add_echo: "echo c e \<Longrightarrow> guard c (e # rows) = guard c rows"
  by (rule guard_cong) auto

lemma guard_all_echo: "\<forall>g\<in>set rows. echo c g \<Longrightarrow> guard c rows = None"
  using guard_row guard_not_echo by (cases "guard c rows") blast+

end

text \<open>The guard of \<open>ladder_core.py\<close> as the live tenant of a box whose offers are listed.\<close>

definition tenant_floor :: "ladder_ctx \<times> string option \<times> secs \<Rightarrow> price list \<Rightarrow> price option" where
  "tenant_floor c rows =
     fst (self_floor_guard (fst c) (if rows = [] then None else Some (min_list rows)) True
            (map Some rows) False (fst (snd c)) (Some (snd (snd c))))"

definition is_echo :: "ladder_ctx \<times> string option \<times> secs \<Rightarrow> price \<Rightarrow> bool" where
  "is_echo c f = (echo_of (fst c) (fst (snd c)) (snd (snd c)) f \<noteq> None)"

lemma echo_of_said [simp]: "echo_of (ctx\<lparr>lc_scaled_floor_said := b\<rparr>) = echo_of ctx"
  by (intro ext) (simp add: echo_of_def bid_history_for_def)

lemma guard_rows_Some [simp]: "guard_rows m (map Some rows) = (if rows = [] then opt_list m else rows)"
  by (simp add: guard_rows_def map_filter_simps List.map_filter_def comp_def)

lemma tenant_floor_visible:
  "tenant_floor c rows =
     (let visible = filter (\<lambda>f. \<not> is_echo c f) rows
      in if visible = [] then None else Some (min_list visible))"
proof (cases "find (\<lambda>f. is_echo c f) rows")
  case None
  then have "filter (\<lambda>f. \<not> is_echo c f) rows = rows" by (auto simp: find_None_iff filter_id_conv)
  with None show ?thesis
    by (auto simp: tenant_floor_def self_floor_guard_def is_echo_def [abs_def] Let_def)
next
  case (Some v)
  then have ne: "rows \<noteq> []" by auto
  with Some show ?thesis
    by (auto simp: tenant_floor_def self_floor_guard_def is_echo_def [abs_def] Let_def split: option.splits)
qed

interpretation lg: floor_guard tenant_floor is_echo
proof
  fix c rows f g
  let ?v = "filter (\<lambda>f. \<not> is_echo c f) rows"
  {
    assume "tenant_floor c rows = Some f"
    then have v: "?v \<noteq> []" "f = min_list ?v"
      by (auto simp: tenant_floor_visible Let_def split: if_splits)
    then have "f \<in> set ?v" using min_list_in by blast
    then show "f \<in> set rows" "\<not> is_echo c f" by auto
    show "f \<le> g" if "g \<in> set rows" "\<not> is_echo c g"
      using min_list_le [of g ?v] that v(2) by simp
  }
  show "is_echo c g" if "tenant_floor c rows = None" "g \<in> set rows"
    using that by (auto simp: tenant_floor_visible Let_def filter_empty_conv split: if_splits)
qed

section \<open>The guard moves no belief\<close>

lemma guard_belief:
  assumes "self_floor_guard ctx market tenant floors scaled mid now = (f, ctx', ev)"
  shows "lc_last_bid ctx' = lc_last_bid ctx" "lc_bid_history ctx' = lc_bid_history ctx"
    "lc_put_ts ctx' = lc_put_ts ctx" "lc_first_seen_dph ctx' = lc_first_seen_dph ctx"
    "lc_on_demand_last ctx' = lc_on_demand_last ctx"
  using assms
  by (auto simp: self_floor_guard_def self_floor_reset_def Let_def split: if_splits option.splits)

lemma guard_not_tenant:
  "fst (self_floor_guard ctx market False floors scaled mid now) = market"
  by (simp add: self_floor_guard_def Let_def split: option.splits)

section \<open>The echo window\<close>

text \<open>An entry that still explains a floor at price \<open>p\<close>: it stood at that price at time \<open>n\<close> or later.\<close>

definition covers :: "price \<Rightarrow> string \<Rightarrow> secs \<Rightarrow> hist_entry \<Rightarrow> bool" where
  "covers p mid n e \<longleftrightarrow> he_ts e \<noteq> None \<and> machine_str e = mid
     \<and> (\<exists>q. he_price e = Some q \<and> \<bar>p - q\<bar> \<le> BID_SELF_FLOOR_EPS)
     \<and> (\<exists>t. he_ts_last e = Some t \<and> n \<le> t)"

lemma take_filter_mem: "e \<in> set (take k xs) \<Longrightarrow> P e \<Longrightarrow> e \<in> set (take k (filter P xs))"
proof (induction xs arbitrary: k)
  case Nil
  then show ?case by simp
next
  case (Cons x xs)
  show ?case
  proof (cases k)
    case 0
    then show ?thesis using Cons.prems by simp
  next
    case (Suc j)
    have up: "set (take j ys) \<subseteq> set (take (Suc j) ys)" for ys :: "'a list"
      by (rule set_take_subset_set_take) simp
    from Suc Cons.prems consider "e = x" | "e \<in> set (take j xs)" by auto
    then show ?thesis
    proof cases
      case 1
      then show ?thesis using Suc Cons.prems by simp
    next
      case 2
      then have "e \<in> set (take j (filter P xs))" using Cons by blast
      then show ?thesis using Suc up by auto
    qed
  qed
qed

lemma set_take_mono: "j \<le> k \<Longrightarrow> set (take j xs) \<subseteq> set (take k xs)"
  by (rule set_take_subset_set_take)

lemma rev_prune: "rev (prune_history cutoff h) = take BID_HISTORY_MAX (filter (\<lambda>e. cutoff \<le> entry_last e) (rev h))"
proof -
  define k where "k = filter (\<lambda>e. cutoff \<le> entry_last e) h"
  have "take (length k - (length k - BID_HISTORY_MAX)) (rev k) = take BID_HISTORY_MAX (rev k)"
    by (cases "BID_HISTORY_MAX \<le> length k") auto
  then show ?thesis
    by (simp add: prune_history_def Let_def rev_drop rev_filter [symmetric] k_def)
qed

lemma entry_last_covers: "covers p mid n e \<Longrightarrow> 0 < n \<Longrightarrow> n \<le> entry_last e"
  by (auto simp: covers_def entry_last_def or_num_def)

lemma note_history_covers:
  assumes "\<exists>e\<in>set (take k (rev h)). covers p mid n e" "k < BID_HISTORY_MAX"
    "0 < n" "n \<le> t" "t \<le> n + lag"
  shows "\<exists>e\<in>set (take (Suc k) (rev (note_history h b m t lag))). covers p mid n e"
proof -
  obtain e where e: "e \<in> set (take k (rev h))" "covers p mid n e" using assms(1) by blast
  have same: ?thesis if "note_history h b m t lag = h"
    using e set_take_mono [of k "Suc k" "rev h"] that by auto
  show ?thesis
  proof (cases "pos_opt b = None \<or> falsy_id m")
    case True
    then have "note_history h b m t lag = h"
      by (auto simp: note_history_def split: option.splits)
    then show ?thesis by (rule same)
  next
    case False
    then obtain bid mi where b: "pos_opt b = Some bid" "m = Some mi" "\<not> falsy_id m"
      by (auto simp: falsy_id_def)
    show ?thesis
    proof (cases "h \<noteq> [] \<and> same_standing (last h) bid mi")
      case True
      then have h: "rev h = last h # rev (butlast h)" by (metis append_butlast_last_id rev_eq_Cons_iff rev_rev_ident)
      have n: "note_history h b m t lag = butlast h @ [(last h)\<lparr>he_ts_last := Some t\<rparr>]"
        using True b by (simp add: note_history_def)
      obtain j where k: "k = Suc j" using e(1) by (cases k) auto
      from e(1) h k have "e = last h \<or> e \<in> set (take j (rev (butlast h)))" by auto
      then show ?thesis
      proof
        assume "e = last h"
        then have "covers p mid n ((last h)\<lparr>he_ts_last := Some t\<rparr>)"
          using e(2) assms(4) by (simp add: covers_def machine_str_def)
        then show ?thesis using n by auto
      next
        assume "e \<in> set (take j (rev (butlast h)))"
        then show ?thesis using n e(2) k set_take_mono [of j "Suc j" "rev (butlast h)"] by auto
      qed
    next
      case False
      define new where "new = \<lparr>he_ts = Some t, he_price = Some bid, he_machine = m, he_ts_last = Some t\<rparr>"
      have n: "note_history h b m t lag = prune_history (t - lag) (h @ [new])"
        using False b by (auto simp: note_history_def new_def)
      let ?P = "\<lambda>e. t - lag \<le> entry_last e"
      have "n \<le> entry_last e" using entry_last_covers [OF e(2) assms(3)] .
      then have "?P e" using assms(5) by simp
      then have "e \<in> set (take k (filter ?P (rev h)))" using e(1) by (rule take_filter_mem [rotated])
      then have "e \<in> set (take (Suc k) (filter ?P (rev (h @ [new]))))"
        using set_take_mono [of k "Suc k" "filter ?P (rev h)"] by (cases "?P new") auto
      then have "e \<in> set (take (Suc k) (take BID_HISTORY_MAX (filter ?P (rev (h @ [new])))))"
        using assms(2) by (simp add: min_def)
      then show ?thesis using e(2) by (auto simp: n rev_prune)
    qed
  qed
qed

text \<open>A log of notes: the observed bid, the machine, the time.\<close>

definition note_log :: "(price option \<times> string option \<times> secs) list \<Rightarrow> hist_entry list \<Rightarrow> hist_entry list" where
  "note_log ns h =
     foldl (\<lambda>h (b, m, t). note_history h b m t BID_SELF_FLOOR_LAG_S) h ns"

lemma note_log_covers:
  assumes "\<exists>e\<in>set (take k (rev h)). covers p mid n e" "k + length ns \<le> BID_HISTORY_MAX" "0 < n"
    "\<forall>(b, m, t)\<in>set ns. n \<le> t \<and> t \<le> n + BID_SELF_FLOOR_LAG_S"
  shows "\<exists>e\<in>set (note_log ns h). covers p mid n e"
  using assms
proof (induction ns arbitrary: h k)
  case Nil
  then show ?case using set_take_subset [of k "rev h"] by (auto simp: note_log_def)
next
  case (Cons x ns)
  obtain b m t where x: "x = (b, m, t)" by (cases x)
  have "\<exists>e\<in>set (take (Suc k) (rev (note_history h b m t BID_SELF_FLOOR_LAG_S))). covers p mid n e"
    using Cons.prems x by (intro note_history_covers) auto
  then show ?case using Cons.IH [of "Suc k" "note_history h b m t BID_SELF_FLOOR_LAG_S"] Cons.prems x
    by (simp add: note_log_def)
qed

lemma note_history_records:
  assumes "0 < p" "mid \<noteq> []" "0 \<le> lag" "0 < n" "\<forall>e\<in>set h. he_ts e \<noteq> None"
  shows "\<exists>e\<in>set (take 1 (rev (note_history h (Some p) (Some mid) n lag))). covers p mid n e"
proof (cases "h \<noteq> [] \<and> same_standing (last h) p mid")
  case True
  then have "covers p mid n ((last h)\<lparr>he_ts_last := Some n\<rparr>)"
    using assms(5) by (auto simp: covers_def same_standing_def machine_str_def abs_minus_commute split: option.splits)
  then show ?thesis using True assms(1,2) by (auto simp: note_history_def falsy_id_def)
next
  case False
  define new where "new = \<lparr>he_ts = Some n, he_price = Some p, he_machine = Some mid, he_ts_last = Some n\<rparr>"
  have c: "covers p mid n new"
    by (simp add: covers_def new_def machine_str_def BID_SELF_FLOOR_EPS_def)
  have "n - lag \<le> entry_last new" using assms(3,4) by (simp add: new_def entry_last_def or_num_def)
  then have "new \<in> set (take 1 (rev (prune_history (n - lag) (h @ [new]))))"
    by (simp add: rev_prune BID_HISTORY_MAX_def)
  then show ?thesis using False assms(1,2) c by (auto simp: note_history_def falsy_id_def new_def [symmetric])
qed

lemma covers_is_self:
  assumes "e \<in> set (lc_bid_history ctx)" "covers p mid n e" "t \<le> n + BID_SELF_FLOOR_LAG_S" "mid \<noteq> []"
  shows "echo_of ctx (Some mid) t p \<noteq> None"
proof -
  have e: "e \<in> set (bid_history_for ctx (Some mid))"
    using assms(1,2,4) by (simp add: bid_history_for_def falsy_id_def covers_def)
  obtain ts q tl where c: "he_ts e = Some ts" "he_price e = Some q" "\<bar>p - q\<bar> \<le> BID_SELF_FLOOR_EPS"
    "he_ts_last e = Some tl" "n \<le> tl" using assms(2) by (auto simp: covers_def)
  have lag: "0 \<le> BID_SELF_FLOOR_LAG_S" by (simp add: BID_SELF_FLOOR_LAG_S_def)
  have "\<exists>ts p'. he_ts e = Some ts \<and> he_price e = Some p' \<and> \<bar>p - p'\<bar> \<le> BID_SELF_FLOOR_EPS + 1/10^9
      \<and> t - dflt ts (he_ts_last e) \<le> BID_SELF_FLOOR_LAG_S"
    using c assms(3) by auto
  then have "market_floor_is_self (Some p) (lc_last_bid ctx) (bid_history_for ctx (Some mid)) (Some t)
      BID_SELF_FLOOR_LAG_S BID_SELF_FLOOR_EPS"
    unfolding market_floor_is_self_iff [OF lag] using e by blast
  then show ?thesis by (simp add: market_floor_is_self_def echo_of_def)
qed

lemma note_history_bounded:
  "length h \<le> BID_HISTORY_MAX \<Longrightarrow> length (note_history h b m t lag) \<le> BID_HISTORY_MAX"
  by (auto simp: note_history_def prune_history_def Let_def split: option.splits)

section \<open>Belief and guard together\<close>

lemma reconcile_history:
  assumes "reconcile_standing_bid ctx True (Some b) dph mid now = (bn, ctx', ev)" "0 < b"
  shows "lc_bid_history ctx' = note_history (lc_bid_history ctx) (Some b) mid now BID_SELF_FLOOR_LAG_S"
    "bn = Some b"
  using assms
  by (auto simp: reconcile_standing_bid_def or_num_def note_standing_bid_def Let_def split: if_splits prod.splits)

lemma reconcile_last_bid:
  assumes "reconcile_standing_bid ctx True (Some b) dph mid now = (bn, ctx', ev)" "b \<noteq> 0"
    "lc_last_bid ctx = None \<or> BID_RATE_LIMIT_S < now - dflt 0 (lc_put_ts ctx)"
  shows "\<exists>l. lc_last_bid ctx' = Some l \<and> \<bar>l - b\<bar> \<le> 1/10^9"
  using assms
  by (cases "lc_last_bid ctx")
    (auto simp: reconcile_standing_bid_def or_num_def note_standing_bid_def Let_def not_less
       split: if_splits prod.splits)

lemma reconcile_own_echo:
  assumes "reconcile_standing_bid ctx True (Some b) dph (Some mid) now = (bn, ctx', ev)" "0 < b"
    "mid \<noteq> []" "0 < now" "\<forall>e\<in>set (lc_bid_history ctx). he_ts e \<noteq> None"
  shows "echo_of ctx' (Some mid) now b \<noteq> None"
proof -
  have lag: "0 \<le> BID_SELF_FLOOR_LAG_S" by (simp add: BID_SELF_FLOOR_LAG_S_def)
  obtain e where e: "e \<in> set (take 1 (rev (lc_bid_history ctx')))" "covers b mid now e"
    using note_history_records [OF assms(2,3) lag assms(4,5)] reconcile_history(1) [OF assms(1,2)] by auto
  have "e \<in> set (lc_bid_history ctx')"
    using set_take_subset [of 1 "rev (lc_bid_history ctx')"] e(1) by auto
  then show ?thesis using covers_is_self [OF _ e(2) _ assms(3)] lag by simp
qed

section \<open>The log of notes as a driven machine\<close>

text \<open>Notes are timestamped, and the list of them is bounded.\<close>

definition entry_ok :: "hist_entry \<Rightarrow> bool" where
  "entry_ok e \<longleftrightarrow> he_ts e \<noteq> None \<and> (\<exists>p. he_price e = Some p \<and> 0 < p) \<and> \<not> falsy_id (he_machine e)"

definition history_ok :: "hist_entry list \<Rightarrow> bool" where
  "history_ok h \<longleftrightarrow> length h \<le> BID_HISTORY_MAX \<and> set h \<subseteq> {e. entry_ok e}"

lemma set_prune: "set (prune_history cutoff h) \<subseteq> set h"
  by (auto simp: prune_history_def Let_def dest: in_set_dropD)

lemma set_butlast: "set (butlast h) \<subseteq> set h"
  by (auto dest: in_set_butlastD)

lemma note_history_ok:
  assumes "history_ok h"
  shows "history_ok (note_history h b m t lag)"
proof -
  define new where "new = \<lparr>he_ts = Some t, he_price = b, he_machine = m, he_ts_last = Some t\<rparr>"
  have h: "set h \<subseteq> {e. entry_ok e}" using assms by (simp add: history_ok_def)
  have "set (note_history h b m t lag) \<subseteq> {e. entry_ok e}"
  proof (cases "\<exists>p. pos_opt b = Some p \<and> \<not> falsy_id m \<and> (h = [] \<or> \<not> same_standing (last h) p (the m))")
    case True
    then have n: "note_history h b m t lag = prune_history (t - lag) (h @ [new])" and "entry_ok new"
      by (auto simp: note_history_def new_def entry_ok_def)
    then have "set (h @ [new]) \<subseteq> {e. entry_ok e}" using h by simp
    then show ?thesis unfolding n using set_prune by (rule order_trans [rotated])
  next
    case False
    have "note_history h b m t lag = h
        \<or> h \<noteq> [] \<and> note_history h b m t lag = butlast h @ [(last h)\<lparr>he_ts_last := Some t\<rparr>]"
      using False by (cases "pos_opt b") (auto simp: note_history_def)
    then consider "note_history h b m t lag = h"
      | (last) "h \<noteq> []" "note_history h b m t lag = butlast h @ [(last h)\<lparr>he_ts_last := Some t\<rparr>]"
      by blast
    then show ?thesis
    proof cases
      case last
      then have "entry_ok (last h)" using h last_in_set by blast
      then have "entry_ok ((last h)\<lparr>he_ts_last := Some t\<rparr>)" by (simp add: entry_ok_def)
      then show ?thesis using last h set_butlast [of h] by auto
    qed (use h in simp)
  qed
  then show ?thesis using assms note_history_bounded by (simp add: history_ok_def)
qed

lemma history_ok_ts: "history_ok h \<Longrightarrow> \<forall>e\<in>set h. he_ts e \<noteq> None"
  by (auto simp: history_ok_def entry_ok_def)

interpretation nh: invariant_machine "\<lambda>h. h = []"
    "\<lambda>h (b, m, t). note_history h b m t BID_SELF_FLOOR_LAG_S" "\<lambda>_. True" history_ok
proof
  show "h = [] \<Longrightarrow> history_ok h" for h by (simp add: history_ok_def)
  show "history_ok h \<Longrightarrow> history_ok (case i of (b, m, t) \<Rightarrow> note_history h b m t BID_SELF_FLOOR_LAG_S)" for h i
    by (cases i) (simp add: note_history_ok)
qed

section \<open>Properties\<close>

text \<open>The floor a live tenant reads is the cheapest listed row that is not an echo of its own bid, and
  is missing exactly when every row is an echo.\<close>

lemma guard_cheapest_foreign_row:
  "(fst (self_floor_guard ctx (if rows = [] then None else Some (min_list rows)) True (map Some rows)
           False mid (Some now)) = Some f
      \<longleftrightarrow> f \<in> {g \<in> set rows. echo_of ctx mid now g = None}
        \<and> f = Min {g \<in> set rows. echo_of ctx mid now g = None})
   \<and> (fst (self_floor_guard ctx (if rows = [] then None else Some (min_list rows)) True (map Some rows)
           False mid (Some now)) = None
      \<longleftrightarrow> {g \<in> set rows. echo_of ctx mid now g = None} = {})"
proof -
  let ?c = "(ctx, mid, now)"
  let ?S = "{g \<in> set rows. echo_of ctx mid now g = None}"
  have e: "(echo_of ctx mid now g = None) = (\<not> is_echo ?c g)" for g by (simp add: is_echo_def)
  have t: "fst (self_floor_guard ctx (if rows = [] then None else Some (min_list rows)) True (map Some rows)
           False mid (Some now)) = tenant_floor ?c rows" by (simp add: tenant_floor_def)
  have fin: "finite ?S" by simp
  have "tenant_floor ?c rows = Some f \<longleftrightarrow> f \<in> ?S \<and> f = Min ?S"
  proof -
    have "f \<in> ?S \<and> f = Min ?S \<longleftrightarrow> f \<in> ?S \<and> (\<forall>g\<in>?S. f \<le> g)"
      using fin by (auto intro: Min_eqI [symmetric])
    then show ?thesis unfolding lg.guard_Some_iff by (auto simp: e)
  qed
  moreover have "tenant_floor ?c rows = None \<longleftrightarrow> ?S = {}"
  proof
    assume "tenant_floor ?c rows = None"
    then show "?S = {}" using lg.guard_none by (auto simp: e)
  next
    assume "?S = {}"
    then show "tenant_floor ?c rows = None" by (intro lg.guard_all_echo) (auto simp: e)
  qed
  ultimately show ?thesis unfolding t by blast
qed

text \<open>A price that stood as our own bid keeps being recognised as our own for a whole marketplace lag:
  after any run of later notes that fits the list bound, a floor at that price is an echo.\<close>

lemma own_price_remembered:
  assumes "history_ok h" "0 < p" "mid \<noteq> []" "0 < n" "length ns < BID_HISTORY_MAX"
    and "\<forall>(b, m, t)\<in>set ns. n \<le> t \<and> t \<le> n + BID_SELF_FLOOR_LAG_S"
    and "lc_bid_history ctx = note_log ns (note_history h (Some p) (Some mid) n BID_SELF_FLOOR_LAG_S)"
    and "t \<le> n + BID_SELF_FLOOR_LAG_S"
  shows "echo_of ctx (Some mid) t p \<noteq> None"
proof -
  have lag: "0 \<le> BID_SELF_FLOOR_LAG_S" by (simp add: BID_SELF_FLOOR_LAG_S_def)
  have "\<exists>e\<in>set (take 1 (rev (note_history h (Some p) (Some mid) n BID_SELF_FLOOR_LAG_S))). covers p mid n e"
    using note_history_records [OF assms(2,3) lag assms(4) history_ok_ts [OF assms(1)]] .
  from note_log_covers [OF this _ assms(4,6)] assms(5) obtain e
    where "e \<in> set (lc_bid_history ctx)" "covers p mid n e" unfolding assms(7) by auto
  then show ?thesis using covers_is_self assms(3,8) by blast
qed

definition lane_sample :: ladder_ctx where
  "lane_sample = \<lparr>lc_last_bid = Some (3/10), lc_bid_history = [], lc_self_floor_at = None,
     lc_self_floor_since = None, lc_self_floor_sustained_said = False, lc_scaled_floor_said = False,
     lc_on_demand_last = None, lc_put_ts = Some 100, lc_first_seen_dph = None, lc_now = 5000\<rparr>"

text \<open>The recorded history is bounded and well formed after any log of notes: at most
  \<open>BID_HISTORY_MAX\<close> entries, each with a time, a positive price and a machine.\<close>

lemma history_stays_bounded:
  "length (note_log ns []) \<le> BID_HISTORY_MAX
   \<and> set (note_log ns []) \<subseteq> {e. he_ts e \<noteq> None \<and> pos_opt (he_price e) \<noteq> None \<and> \<not> falsy_id (he_machine e)}"
proof -
  have "history_ok (note_log ns [])" using nh.reached [of "[]" ns] by (simp add: note_log_def)
  then show ?thesis by (auto simp: history_ok_def entry_ok_def)
qed

text \<open>The bidder never bids against itself: right after the standing bid is read back, a listing that
  shows only that bid yields no floor, and without a floor the tick of a live box moves no bid.\<close>

lemma own_bid_is_not_the_market:
  assumes "reconcile_standing_bid ctx True (Some b) dph (Some mid) now = (bn, ctx', ev)"
    and "0 < b" "mid \<noteq> []" "0 < now" "history_ok (lc_bid_history ctx)" "rows \<noteq> []" "set rows = {b}"
  shows "fst (self_floor_guard ctx' (Some b) True (map Some rows) False (Some mid) (Some now)) = None
    \<and> (ps_live s \<longrightarrow> bid_action (s\<lparr>ps_market_min_bid :=
          fst (self_floor_guard ctx' (Some b) True (map Some rows) False (Some mid) (Some now))\<rparr>) = None)"
proof -
  have "echo_of ctx' (Some mid) now b \<noteq> None"
    using reconcile_own_echo [OF assms(1-4) history_ok_ts [OF assms(5)]] .
  then have "tenant_floor (ctx', Some mid, now) rows = None"
    by (intro lg.guard_all_echo) (simp add: assms(7) is_echo_def)
  moreover have "min_list rows = b" using min_list_in [OF assms(6)] assms(7) by simp
  ultimately have f: "fst (self_floor_guard ctx' (Some b) True (map Some rows) False (Some mid) (Some now)) = None"
    using assms(6) by (simp add: tenant_floor_def)
  have "poll_target (s\<lparr>ps_market_min_bid := None\<rparr>) = None" by (simp add: poll_target_def)
  moreover have "ps_live (s\<lparr>ps_market_min_bid := None\<rparr>) = ps_live s" by (simp add: ps_live_def)
  ultimately show ?thesis unfolding f
    by (auto simp: bid_action_def Let_def split: option.splits)
qed

end
