(* ===== verification/HandoffDrive.thy ===== *)
theory HandoffDrive
  imports Handoff LadderCore
begin

text \<open>
  The run-lane driver of a migration (\<open>tools/vast/vastlib/supervise/handoff.py\<close>): the carried
  sub-state, one tick (\<open>_handoff_tick\<close>: dwell counter, understudy observation, cost accrual,
  candidate read, fence signals, \<open>handoff_poll\<close>, the move), the adoption of a twin after a
  restart, and the exit path. The outside world (the vast API, the bucket, the offer search and
  the body builder) answers through the record \<open>answers\<close>; every call the driver makes is an
  element of the returned list of \<open>io\<close>. Dry runs are not modelled.

  Lemma groups: the invariant every reachable sub-state has; what each destructive call has
  behind it; no phase outlives its clock past a tick; a fenced primary is never resumed at the
  fence pin.
\<close>

section \<open>Carried state\<close>

record offer =
  of_id :: string
  of_min_bid :: "price option"
  of_dph_total :: "price option"

record handoff_sub =
  hf_phase :: phase
  hf_over_ceiling_streak :: nat
  hf_over_ceiling_since :: "secs option"
  hf_primary_iid :: "string option"
  hf_understudy_iid :: "string option"
  hf_understudy_dph :: "price option"
  hf_understudy_on_demand :: "price option"
  hf_understudy_status :: "string option"
  hf_understudy_live_since :: "secs option"
  hf_understudy_producing :: bool
  hf_candidate_min_bid :: "price option"
  hf_candidate_on_demand :: "price option"
  hf_chosen_offer :: "offer option"
  hf_final_flush_seen :: bool
  hf_epoch :: "nat option"
  hf_fence_ts :: "secs option"
  hf_stall_alarmed :: bool
  hf_cutover_ts :: "string option"
  hf_ckpt_pulled_epoch :: "nat option"
  hf_handoff_started_ts :: "secs option"
  hf_handoff_spend_usd :: price
  hf_handoffs_done :: nat
  hf_cooldown_until :: secs
  hf_primary_gone :: bool
  hf_drain_ts :: "secs option"
  hf_prefence_bid :: "price option"

definition init_handoff_state :: handoff_sub where
  "init_handoff_state = \<lparr>hf_phase = IDLE, hf_over_ceiling_streak = 0, hf_over_ceiling_since = None,
     hf_primary_iid = None, hf_understudy_iid = None, hf_understudy_dph = None,
     hf_understudy_on_demand = None, hf_understudy_status = None, hf_understudy_live_since = None,
     hf_understudy_producing = False, hf_candidate_min_bid = None, hf_candidate_on_demand = None,
     hf_chosen_offer = None, hf_final_flush_seen = False, hf_epoch = None, hf_fence_ts = None,
     hf_stall_alarmed = False, hf_cutover_ts = None, hf_ckpt_pulled_epoch = None,
     hf_handoff_started_ts = None, hf_handoff_spend_usd = 0, hf_handoffs_done = 0,
     hf_cooldown_until = 0, hf_primary_gone = False, hf_drain_ts = None, hf_prefence_bid = None\<rparr>"

text \<open>The lane state: the keys of \<open>ladder_ctx\<close> (\<open>last_bid\<close>, \<open>now\<close>, ...) and the ones read here.\<close>

record lane = ladder_ctx +
  ln_instance_id :: "string option"
  ln_husk_id :: "string option"
  ln_dph_total :: "price option"
  ln_on_demand :: "price option"
  ln_budget_usd :: "price option"
  ln_spend_usd :: price
  ln_dt :: secs
  ln_wall_budget_s :: "secs option"
  ln_wall_clock_s :: secs
  ln_evicted_pending :: bool
  ln_not_live_streak :: nat
  ln_over_pref :: bool

text \<open>A listed instance; \<open>in_twin\<close> tells the \<open>run:<id>:handoff\<close> label.\<close>

record inst_row =
  in_id :: string
  in_twin :: bool
  in_status :: "string option"
  in_dph_total :: "price option"
  in_is_bid :: bool
  in_dph_base :: "price option"

text \<open>What the calls of one tick return.\<close>

record answers =
  an_instances :: "inst_row list"
  an_synced_epoch :: "nat option"
  an_offer :: "(offer \<times> price option) option"
  an_body :: "price option"
  an_preflight_ok :: bool
  an_launch :: "string option"
  an_destroyed :: "string option \<Rightarrow> bool"
  an_gone :: "string option \<Rightarrow> bool"
  an_put_ok :: bool
  an_flush :: bool
  an_producing :: bool
  an_clock :: string

datatype io =
    WriteEpoch nat
  | WritePromoted
  | Launch string price nat
  | PutState string string
  | PutBid string price
  | PutLabel string
  | ReapUnderstudy string
  | DestroyPrimary "string option"
  | RevokePrimaryKey
  | EmitStall secs
  | EmitUnfence "price option" bool

section \<open>Prices and pins\<close>

definition handoff_primary_dph :: "lane \<Rightarrow> price option" where
  "handoff_primary_dph st = or_num (lc_last_bid st) (ln_dph_total st)"

definition prefence_bid :: "price option \<Rightarrow> price option \<Rightarrow> price option" where
  "prefence_bid last_bid dph =
     (case or_num last_bid dph of
        Some v \<Rightarrow> if HANDOFF_PARK_BID < v then Some v else None
      | None \<Rightarrow> None)"

definition handoff_park_bid :: price where
  "handoff_park_bid = HANDOFF_PARK_BID"

section \<open>Observation\<close>

definition status_of :: "inst_row \<Rightarrow> string option" where
  "status_of i = (let s = py_lower (dflt [] (in_status i)) in if s = [] then None else Some s)"

definition live_status :: "string option \<Rightarrow> bool" where
  "live_status s = (case s of None \<Rightarrow> False | Some a \<Rightarrow> a \<in> LIVE_STATES)"

definition truthy_epoch :: "nat option \<Rightarrow> nat \<Rightarrow> nat" where
  "truthy_epoch e d = (case e of None \<Rightarrow> d | Some n \<Rightarrow> if n = 0 then d else n)"

definition handoff_observe_understudy :: "answers \<Rightarrow> lane \<Rightarrow> handoff_sub \<Rightarrow> handoff_sub" where
  "handoff_observe_understudy an st hf =
     (case find (\<lambda>i. in_twin i \<or> hf_understudy_iid hf = Some (in_id i)) (an_instances an) of
        None \<Rightarrow> hf
      | Some i \<Rightarrow>
         (let status = status_of i; live = live_status status;
              hf1 = hf\<lparr>hf_understudy_iid := Some (in_id i), hf_understudy_status := status,
                       hf_understudy_dph := (case in_dph_total i of Some d \<Rightarrow> Some d
                                             | None \<Rightarrow> hf_understudy_dph hf),
                       hf_understudy_live_since :=
                         (if live \<and> hf_understudy_live_since hf = None then Some (lc_now st)
                          else hf_understudy_live_since hf)\<rparr>;
              epoch = truthy_epoch (hf_epoch hf) (hf_handoffs_done hf + 1)
          in if live \<and> hf_ckpt_pulled_epoch hf = None \<and> hf_phase hf \<in> {LAUNCHING, WARMING}
                \<and> (case an_synced_epoch an of Some se \<Rightarrow> epoch \<le> se | None \<Rightarrow> False)
             then hf1\<lparr>hf_ckpt_pulled_epoch := Some epoch\<rparr> else hf1))"

definition handoff_accrue :: "lane \<Rightarrow> handoff_sub \<Rightarrow> lane \<times> handoff_sub" where
  "handoff_accrue st hf =
     (if hf_phase hf \<in> {IDLE, DONE} \<or> ln_instance_id st = hf_understudy_iid hf
         \<or> \<not> live_status (hf_understudy_status hf) then (st, hf)
      else (case or_num (hf_understudy_dph hf) None of
              Some dph \<Rightarrow>
                if 0 < ln_dt st then
                  (let amt = dph / 3600 * ln_dt st
                   in (st\<lparr>ln_spend_usd := ln_spend_usd st + amt\<rparr>,
                       hf\<lparr>hf_handoff_spend_usd := hf_handoff_spend_usd hf + amt\<rparr>))
                else (st, hf)
            | None \<Rightarrow> (st, hf)))"

definition remaining_wall_h :: "lane \<Rightarrow> hours option" where
  "remaining_wall_h st =
     map_option (\<lambda>w. max 0 ((w - ln_wall_clock_s st) / 3600)) (or_num (ln_wall_budget_s st) None)"

definition handoff_build_state :: "lane \<Rightarrow> handoff_sub \<Rightarrow> action \<Rightarrow> handoff_state" where
  "handoff_build_state st hf act = mk_handoff_state
     \<lparr>hs_phase := hf_phase hf, hs_over_ceiling_streak := hf_over_ceiling_streak hf,
      hs_primary_iid := (case hf_primary_iid hf of Some i \<Rightarrow> Some i | None \<Rightarrow> ln_instance_id st),
      hs_primary_bid := lc_last_bid st, hs_primary_on_demand := ln_on_demand st,
      hs_primary_dph := handoff_primary_dph st,
      hs_primary_evicted := (ln_evicted_pending st
        \<or> (case act of EmitEvicted _ \<Rightarrow> True | Relaunch \<Rightarrow> True | _ \<Rightarrow> False)),
      hs_primary_gone := hf_primary_gone hf, hs_understudy_iid := hf_understudy_iid hf,
      hs_understudy_dph := hf_understudy_dph hf, hs_understudy_on_demand := hf_understudy_on_demand hf,
      hs_understudy_status := hf_understudy_status hf,
      hs_understudy_live_since := hf_understudy_live_since hf,
      hs_understudy_producing := hf_understudy_producing hf, hs_drain_ts := hf_drain_ts hf,
      hs_candidate_min_bid := hf_candidate_min_bid hf,
      hs_candidate_on_demand := hf_candidate_on_demand hf,
      hs_remaining_wall_h := remaining_wall_h st, hs_final_flush_seen := hf_final_flush_seen hf,
      hs_fence_ts := hf_fence_ts hf, hs_ckpt_pulled_epoch := hf_ckpt_pulled_epoch hf,
      hs_handoff_started_ts := hf_handoff_started_ts hf,
      hs_handoff_spend_usd := hf_handoff_spend_usd hf, hs_handoffs_done := hf_handoffs_done hf,
      hs_cooldown_until := hf_cooldown_until hf, hs_budget_usd := ln_budget_usd st,
      hs_spend_usd := ln_spend_usd st, hs_now := lc_now st,
      hs_over_ceiling_since := hf_over_ceiling_since hf\<rparr>"

section \<open>Terminal transitions\<close>

definition handoff_reset :: "nat \<Rightarrow> secs \<Rightarrow> handoff_sub" where
  "handoff_reset handoffs_done cooldown_until =
     init_handoff_state\<lparr>hf_handoffs_done := handoffs_done, hf_cooldown_until := cooldown_until\<rparr>"

definition handoff_complete :: "answers \<Rightarrow> lane \<Rightarrow> handoff_sub \<Rightarrow> lane \<times> handoff_sub" where
  "handoff_complete an st hf =
     (let st1 = (case hf_understudy_iid hf of
                   None \<Rightarrow> st
                 | Some u \<Rightarrow>
                    (let ubid = (case find (\<lambda>i. in_id i = u) (an_instances an) of
                                   Some i \<Rightarrow> if in_is_bid i then in_dph_base i else None | None \<Rightarrow> None)
                     in box_swap_reset
                          (st\<lparr>ln_instance_id := Some u, ln_husk_id := Some u,
                              ln_dph_total := (case hf_understudy_dph hf of Some d \<Rightarrow> Some d
                                               | None \<Rightarrow> ln_dph_total st),
                              lc_last_bid := ubid\<rparr>) False))
      in (st1\<lparr>ln_evicted_pending := False, ln_not_live_streak := 0\<rparr>,
          handoff_reset (hf_handoffs_done hf + 1) (lc_now st + HANDOFF_COOLDOWN_S)))"

definition handoff_abort :: "lane \<Rightarrow> handoff_sub \<Rightarrow> handoff_sub \<times> io list" where
  "handoff_abort st hf =
     (handoff_reset (hf_handoffs_done hf) (lc_now st + HANDOFF_COOLDOWN_S),
      case hf_understudy_iid hf of Some u \<Rightarrow> [ReapUnderstudy u] | None \<Rightarrow> [])"

definition handoff_unfence_primary ::
  "string option \<Rightarrow> handoff_sub \<Rightarrow> price option \<Rightarrow> bool \<Rightarrow> io list" where
  "handoff_unfence_primary iid hf policy_target put_ok =
     (case iid of
        None \<Rightarrow> []
      | Some p \<Rightarrow>
         (let recorded = (case hf_prefence_bid hf of
                            Some v \<Rightarrow> if v \<le> HANDOFF_PARK_BID then None else Some v | None \<Rightarrow> None)
          in case or_num recorded (or_num policy_target None) of
               None \<Rightarrow> [EmitUnfence None False]
             | Some v \<Rightarrow> [PutBid p v, PutState p ''running'', EmitUnfence (Some v) put_ok]))"

section \<open>One move\<close>

definition launch_understudy_move :: "answers \<Rightarrow> lane \<Rightarrow> handoff_sub \<Rightarrow> handoff_sub \<times> io list" where
  "launch_understudy_move an st hf =
     (case (case hf_chosen_offer hf of Some o_r \<Rightarrow> Some o_r | None \<Rightarrow> map_option fst (an_offer an)) of
        None \<Rightarrow> handoff_abort st hf
      | Some o_r \<Rightarrow>
         (case an_body an of
            None \<Rightarrow> handoff_abort st hf
          | Some bid \<Rightarrow>
              if \<not> an_preflight_ok an then handoff_abort st hf
              else (let epoch = truthy_epoch (hf_epoch hf) (hf_handoffs_done hf + 1)
                    in case an_launch an of
                         None \<Rightarrow> (hf, [Launch (of_id o_r) bid epoch])
                       | Some cid \<Rightarrow>
                           (hf\<lparr>hf_understudy_iid := Some cid, hf_understudy_dph := Some bid,
                               hf_understudy_on_demand := of_dph_total o_r, hf_phase := LAUNCHING\<rparr>,
                            [Launch (of_id o_r) bid epoch]))))"

definition do_handoff_move ::
  "answers \<Rightarrow> lane \<Rightarrow> handoff_sub \<Rightarrow> handoff_action \<Rightarrow> lane \<times> handoff_sub \<times> io list" where
  "do_handoff_move an st hf act =
     (case act of
        HNoop _ \<Rightarrow> (st, hf, [])
      | Arm \<Rightarrow>
         (let epoch = hf_handoffs_done hf + 1
          in (st, hf\<lparr>hf_phase := ARMED, hf_handoff_started_ts := Some (lc_now st),
                     hf_primary_iid := ln_instance_id st, hf_epoch := Some epoch\<rparr>, [WriteEpoch epoch]))
      | LaunchUnderstudy \<Rightarrow> (st, launch_understudy_move an st hf)
      | WarmWait \<Rightarrow> (st, hf, [])
      | MarkSynced \<Rightarrow> (st, hf\<lparr>hf_phase := SYNCED\<rparr>, [])
      | FencePrimary \<Rightarrow>
         (let iid = (case hf_primary_iid hf of Some i \<Rightarrow> Some i | None \<Rightarrow> ln_instance_id st)
          in (st, hf\<lparr>hf_prefence_bid := prefence_bid (lc_last_bid st) None, hf_phase := CUTOVER,
                     hf_fence_ts := Some (lc_now st)\<rparr>,
              case iid of Some i \<Rightarrow> [PutState i ''stopped'', PutBid i handoff_park_bid] | None \<Rightarrow> []))
      | ResumeUnderstudy why \<Rightarrow>
         (st, hf\<lparr>hf_phase := DRAINING, hf_drain_ts := Some (lc_now st),
                 hf_cutover_ts := Some (an_clock an),
                 hf_primary_gone := (if why = FastCutover then True else hf_primary_gone hf)\<rparr>,
          WritePromoted # (case hf_understudy_iid hf of Some u \<Rightarrow> [PutLabel u] | None \<Rightarrow> []))
      | DrainPrimary \<Rightarrow>
         (let iid = hf_primary_iid hf
          in if an_destroyed an iid \<and> an_gone an iid
             then (st, hf\<lparr>hf_primary_gone := True\<rparr>, [DestroyPrimary iid, RevokePrimaryKey])
             else (st, hf, [DestroyPrimary iid]))
      | Complete \<Rightarrow> (let (st1, hf1) = handoff_complete an st hf in (st1, hf1, []))
      | AbortReap _ \<Rightarrow> (st, handoff_abort st hf)
      | AbortUnfence _ \<Rightarrow>
         (let p = (case hf_primary_iid hf of Some i \<Rightarrow> Some i | None \<Rightarrow> ln_instance_id st);
              (hf1, ios) = handoff_abort st hf
          in (st, hf1, handoff_unfence_primary p hf None (an_put_ok an) @ ios)))"

section \<open>One tick\<close>

definition handoff_stall_alarm :: "handoff_sub \<Rightarrow> secs \<Rightarrow> handoff_sub \<times> io list" where
  "handoff_stall_alarm hf now =
     (if hf_phase hf \<in> {CUTOVER, DRAINING} \<and> past (hf_fence_ts hf) now HANDOFF_DEADLINE_S
         \<and> \<not> hf_stall_alarmed hf
      then (hf\<lparr>hf_stall_alarmed := True\<rparr>, [EmitStall (now - the (hf_fence_ts hf))])
      else (hf, []))"

definition advance_dwell :: "lane \<Rightarrow> handoff_sub \<Rightarrow> handoff_sub" where
  "advance_dwell st hf =
     (if ln_over_pref st
      then hf\<lparr>hf_over_ceiling_streak := hf_over_ceiling_streak hf + 1,
              hf_over_ceiling_since := (case hf_over_ceiling_since hf of
                                          None \<Rightarrow> Some (lc_now st) | Some t \<Rightarrow> Some t)\<rparr>
      else hf\<lparr>hf_over_ceiling_streak := 0, hf_over_ceiling_since := None\<rparr>)"

definition pin_primary :: "lane \<Rightarrow> handoff_sub \<Rightarrow> handoff_sub" where
  "pin_primary st hf =
     (if hf_primary_iid hf = None \<and> hf_phase hf \<noteq> IDLE
         \<and> ln_instance_id st \<noteq> None \<and> ln_instance_id st \<noteq> hf_understudy_iid hf
      then hf\<lparr>hf_primary_iid := ln_instance_id st\<rparr> else hf)"

definition read_candidate :: "answers \<Rightarrow> lane \<Rightarrow> handoff_sub \<Rightarrow> handoff_sub" where
  "read_candidate an st hf =
     (if hf_phase hf = IDLE
         \<and> handoff_dwell_satisfied (hf_over_ceiling_streak hf) (hf_over_ceiling_since hf) (lc_now st)
      then hf\<lparr>hf_chosen_offer := map_option fst (an_offer an),
              hf_candidate_min_bid := Option.bind (an_offer an) (of_min_bid \<circ> fst),
              hf_candidate_on_demand := Option.bind (an_offer an) snd\<rparr>
      else hf)"

definition read_signals :: "answers \<Rightarrow> handoff_sub \<Rightarrow> handoff_sub" where
  "read_signals an hf =
     (if hf_phase hf \<in> {CUTOVER, DRAINING}
      then hf\<lparr>hf_final_flush_seen := hf_final_flush_seen hf \<or> an_flush an,
              hf_understudy_producing := hf_understudy_producing hf \<or> an_producing an\<rparr>
      else hf)"

text \<open>Everything before the decision, then the decision and its move.\<close>

definition handoff_observe :: "answers \<Rightarrow> lane \<Rightarrow> handoff_sub \<Rightarrow> lane \<times> handoff_sub \<times> io list" where
  "handoff_observe an st hf =
     (let hf1 = pin_primary st (handoff_observe_understudy an st (advance_dwell st hf));
          (st1, hf2) = handoff_accrue st hf1;
          (hf3, alarm) = handoff_stall_alarm (read_signals an (read_candidate an st1 hf2)) (lc_now st1)
      in (st1, hf3, alarm))"

definition handoff_tick :: "answers \<Rightarrow> action \<Rightarrow> lane \<Rightarrow> handoff_sub \<Rightarrow> lane \<times> handoff_sub \<times> io list" where
  "handoff_tick an act st hf =
     (let (st1, hf1, alarm) = handoff_observe an st hf;
          (st2, hf2, ios) = do_handoff_move an st1 hf1 (handoff_poll (handoff_build_state st1 hf1 act))
      in (st2, hf2, alarm @ ios))"

section \<open>Restart and exit\<close>

definition handoff_reconcile :: "answers \<Rightarrow> lane \<Rightarrow> handoff_sub \<Rightarrow> handoff_sub" where
  "handoff_reconcile an st hf =
     (case find in_twin (an_instances an) of
        None \<Rightarrow> hf
      | Some i \<Rightarrow>
         (let live = live_status (Some (py_lower (dflt [] (in_status i))));
              se = (if live then an_synced_epoch an else None)
          in hf\<lparr>hf_understudy_iid := Some (in_id i), hf_understudy_status := status_of i,
                hf_understudy_dph := in_dph_total i, hf_understudy_on_demand := in_dph_total i,
                hf_primary_iid := ln_instance_id st, hf_handoff_started_ts := Some (lc_now st),
                hf_phase := (if se \<noteq> None then SYNCED else LAUNCHING),
                hf_understudy_live_since := (if live then Some (lc_now st) else hf_understudy_live_since hf),
                hf_epoch := (if se \<noteq> None then se else hf_epoch hf),
                hf_ckpt_pulled_epoch := (if se \<noteq> None then se else hf_ckpt_pulled_epoch hf)\<rparr>))"

definition handoff_reap_on_exit :: "handoff_sub \<Rightarrow> io list" where
  "handoff_reap_on_exit hf =
     (if hf_phase hf \<in> HANDOFF_PRE_CUTOVER
      then (case hf_understudy_iid hf of Some u \<Rightarrow> [ReapUnderstudy u] | None \<Rightarrow> []) else [])"

section \<open>Frames\<close>

text \<open>The fields only a move writes.\<close>

definition hf_core :: "handoff_sub \<Rightarrow> phase \<times> secs option \<times> secs option \<times> secs option \<times> nat \<times> price option \<times> bool" where
  "hf_core hf = (hf_phase hf, hf_handoff_started_ts hf, hf_fence_ts hf, hf_drain_ts hf,
     hf_handoffs_done hf, hf_prefence_bid hf, hf_primary_gone hf)"

lemma hf_coreD:
  "hf_core hf = hf_core hf' \<Longrightarrow> hf_phase hf = hf_phase hf' \<and> hf_handoff_started_ts hf = hf_handoff_started_ts hf'
     \<and> hf_fence_ts hf = hf_fence_ts hf' \<and> hf_drain_ts hf = hf_drain_ts hf'
     \<and> hf_handoffs_done hf = hf_handoffs_done hf' \<and> hf_prefence_bid hf = hf_prefence_bid hf'
     \<and> hf_primary_gone hf = hf_primary_gone hf'"
  by (simp add: hf_core_def)

lemma core_stages [simp]:
  "hf_core (advance_dwell st hf) = hf_core hf"
  "hf_core (pin_primary st hf) = hf_core hf"
  "hf_core (read_candidate an st hf) = hf_core hf"
  "hf_core (read_signals an hf) = hf_core hf"
  "hf_core (fst (handoff_stall_alarm hf now)) = hf_core hf"
  "hf_core (snd (handoff_accrue st hf)) = hf_core hf"
  by (auto simp: hf_core_def advance_dwell_def pin_primary_def read_candidate_def read_signals_def
      handoff_stall_alarm_def handoff_accrue_def Let_def split: option.splits)

lemma core_observe_understudy [simp]: "hf_core (handoff_observe_understudy an st hf) = hf_core hf"
  by (auto simp: hf_core_def handoff_observe_understudy_def Let_def split: option.splits)

lemma flags_stages [simp]:
  "hf_understudy_producing (advance_dwell st hf) = hf_understudy_producing hf"
  "hf_understudy_producing (pin_primary st hf) = hf_understudy_producing hf"
  "hf_understudy_producing (read_candidate an st hf) = hf_understudy_producing hf"
  "hf_understudy_producing (fst (handoff_stall_alarm hf now)) = hf_understudy_producing hf"
  "hf_understudy_producing (snd (handoff_accrue st hf)) = hf_understudy_producing hf"
  "hf_understudy_producing (handoff_observe_understudy an st hf) = hf_understudy_producing hf"
  "hf_final_flush_seen (advance_dwell st hf) = hf_final_flush_seen hf"
  "hf_final_flush_seen (pin_primary st hf) = hf_final_flush_seen hf"
  "hf_final_flush_seen (read_candidate an st hf) = hf_final_flush_seen hf"
  "hf_final_flush_seen (fst (handoff_stall_alarm hf now)) = hf_final_flush_seen hf"
  "hf_final_flush_seen (snd (handoff_accrue st hf)) = hf_final_flush_seen hf"
  "hf_final_flush_seen (handoff_observe_understudy an st hf) = hf_final_flush_seen hf"
  by (auto simp: advance_dwell_def pin_primary_def read_candidate_def handoff_stall_alarm_def
      handoff_accrue_def handoff_observe_understudy_def Let_def split: option.splits)

lemma accrue_now [simp]: "lc_now (fst (handoff_accrue st hf)) = lc_now st"
  by (auto simp: handoff_accrue_def Let_def split: option.splits)

lemma observe_frame:
  assumes "handoff_observe an st hf = (st1, hf1, alarm)"
  shows "hf_core hf1 = hf_core hf" "lc_now st1 = lc_now st"
    "hf_understudy_producing hf1 = (hf_understudy_producing hf
       \<or> hf_phase hf \<in> {CUTOVER, DRAINING} \<and> an_producing an)"
    "hf_final_flush_seen hf1 = (hf_final_flush_seen hf
       \<or> hf_phase hf \<in> {CUTOVER, DRAINING} \<and> an_flush an)"
    "\<exists>w. set alarm \<subseteq> {EmitStall w}"
proof -
  define h1 where "h1 = pin_primary st (handoff_observe_understudy an st (advance_dwell st hf))"
  define h2 where "h2 = snd (handoff_accrue st h1)"
  define h3 where "h3 = read_candidate an st1 h2"
  have st1: "st1 = fst (handoff_accrue st h1)"
    and hf1: "hf1 = fst (handoff_stall_alarm (read_signals an h3) (lc_now st1))"
    and al: "alarm = snd (handoff_stall_alarm (read_signals an h3) (lc_now st1))"
    using assms by (auto simp: handoff_observe_def h1_def h2_def h3_def Let_def split: prod.splits)
  have c3: "hf_core h3 = hf_core hf" by (simp add: h3_def h2_def h1_def)
  then have ph: "hf_phase h3 = hf_phase hf" by (simp add: hf_core_def)
  show "hf_core hf1 = hf_core hf" by (simp add: hf1 c3)
  show "lc_now st1 = lc_now st" by (simp add: st1)
  show "hf_understudy_producing hf1 = (hf_understudy_producing hf
       \<or> hf_phase hf \<in> {CUTOVER, DRAINING} \<and> an_producing an)"
    using ph by (auto simp: hf1 read_signals_def) (auto simp: h3_def h2_def h1_def)
  show "hf_final_flush_seen hf1 = (hf_final_flush_seen hf
       \<or> hf_phase hf \<in> {CUTOVER, DRAINING} \<and> an_flush an)"
    using ph by (auto simp: hf1 read_signals_def) (auto simp: h3_def h2_def h1_def)
  show "\<exists>w. set alarm \<subseteq> {EmitStall w}" by (auto simp: al handoff_stall_alarm_def)
qed

section \<open>The invariant\<close>

definition hf_inv :: "handoff_sub \<Rightarrow> bool" where
  "hf_inv hf \<longleftrightarrow>
     hf_phase hf \<in> {IDLE, ARMED, LAUNCHING, SYNCED, CUTOVER, DRAINING}
   \<and> (hf_phase hf \<in> HANDOFF_PRE_CUTOVER \<longrightarrow> hf_handoff_started_ts hf \<noteq> None)
   \<and> (hf_phase hf = CUTOVER \<longrightarrow> hf_fence_ts hf \<noteq> None)
   \<and> (hf_phase hf = DRAINING \<longrightarrow> hf_drain_ts hf \<noteq> None)
   \<and> (hf_final_flush_seen hf \<or> hf_understudy_producing hf \<longrightarrow> hf_phase hf \<in> {CUTOVER, DRAINING})
   \<and> (hf_primary_gone hf \<longrightarrow> hf_phase hf = DRAINING)
   \<and> hf_handoffs_done hf \<le> HANDOFF_MAX
   \<and> (hf_phase hf \<noteq> IDLE \<longrightarrow> hf_handoffs_done hf < HANDOFF_MAX)
   \<and> (\<forall>v. hf_prefence_bid hf = Some v \<longrightarrow> HANDOFF_PARK_BID < v)"

lemma hf_inv_init: "hf_inv init_handoff_state"
  by (simp add: hf_inv_def init_handoff_state_def HANDOFF_PRE_CUTOVER_def)

lemma hf_inv_reset: "n \<le> HANDOFF_MAX \<Longrightarrow> hf_inv (handoff_reset n t)"
  by (simp add: hf_inv_def handoff_reset_def init_handoff_state_def HANDOFF_PRE_CUTOVER_def)

lemma hf_inv_reconcile: "hf_inv (handoff_reconcile an st init_handoff_state)"
  by (auto simp: hf_inv_def handoff_reconcile_def init_handoff_state_def HANDOFF_PRE_CUTOVER_def
      HANDOFF_MAX_def Let_def split: option.splits)

lemma hf_inv_observe:
  "hf_inv hf \<Longrightarrow> handoff_observe an st hf = (st1, hf1, alarm) \<Longrightarrow> hf_inv hf1"
  using observe_frame [of an st hf st1 hf1 alarm] hf_coreD [of hf1 hf]
  by (auto simp: hf_inv_def)

lemma build_simps [simp]:
  "hs_phase (handoff_build_state st hf act) = hf_phase hf"
  "hs_now (handoff_build_state st hf act) = lc_now st"
  "hs_handoffs_done (handoff_build_state st hf act) = hf_handoffs_done hf"
  "hs_handoff_started_ts (handoff_build_state st hf act) = hf_handoff_started_ts hf"
  "hs_fence_ts (handoff_build_state st hf act) = hf_fence_ts hf"
  "hs_drain_ts (handoff_build_state st hf act) = hf_drain_ts hf"
  "hs_understudy_producing (handoff_build_state st hf act) = hf_understudy_producing hf"
  "hs_final_flush_seen (handoff_build_state st hf act) = hf_final_flush_seen hf"
  "hs_primary_gone (handoff_build_state st hf act) = hf_primary_gone hf"
  "hs_understudy_gone (handoff_build_state st hf act) = False"
  "hs_cooldown_until (handoff_build_state st hf act) = hf_cooldown_until hf"
  by (simp_all add: handoff_build_state_def mk_handoff_state_def)

lemma prefence_bid_over_pin: "prefence_bid l d = Some v \<Longrightarrow> HANDOFF_PARK_BID < v"
  by (auto simp: prefence_bid_def split: option.splits if_splits)

lemma handoff_phase_of:
  "handoff_poll hs = LaunchUnderstudy \<Longrightarrow> hs_phase hs = ARMED"
  "handoff_poll hs = MarkSynced \<Longrightarrow> hs_phase hs \<in> {LAUNCHING, WARMING}"
  "handoff_poll hs = Complete \<Longrightarrow> hs_phase hs = DRAINING \<and> hs_primary_gone hs \<and> hs_understudy_producing hs"
  "handoff_poll hs = ResumeUnderstudy w \<Longrightarrow> hs_phase hs \<in> {SYNCED, CUTOVER}"
  by (auto simp: handoff_unfold split: if_splits phase.splits option.splits)

lemma launch_understudy_cases:
  assumes "launch_understudy_move an st hf = (hf', ios)"
  shows "(hf', ios) = handoff_abort st hf
    \<or> (\<exists>o_id bid ep. ios = [Launch o_id bid ep] \<and> (hf' = hf \<or> (\<exists>cid od. hf' = hf\<lparr>hf_understudy_iid := Some cid,
          hf_understudy_dph := Some bid, hf_understudy_on_demand := od, hf_phase := LAUNCHING\<rparr>)))"
  using assms by (auto simp: launch_understudy_move_def Let_def split: option.splits if_splits)

lemma hf_inv_move:
  assumes inv: "hf_inv hf" and "do_handoff_move an st hf (handoff_poll (handoff_build_state st hf act)) = (st', hf', ios)"
  shows "hf_inv hf'"
proof -
  let ?a = "handoff_poll (handoff_build_state st hf act)"
  have reset: "hf_inv (handoff_reset (hf_handoffs_done hf) t)" for t
    by (rule hf_inv_reset) (use inv in \<open>simp add: hf_inv_def\<close>)
  note m = assms(2) [unfolded do_handoff_move_def]
  show ?thesis
  proof (cases ?a)
    case Arm
    then show ?thesis using m inv handoff_arm(1,3) [OF Arm] by (auto simp: hf_inv_def)
  next
    case LaunchUnderstudy
    then obtain ios' where l: "launch_understudy_move an st hf = (hf', ios')" using m by auto
    have ph: "hf_phase hf = ARMED" using handoff_phase_of(1) [OF LaunchUnderstudy] by simp
    from launch_understudy_cases [OF l] consider "hf' = hf" | (abort) t where "hf' = handoff_reset (hf_handoffs_done hf) t"
      | (up) cid bid od where "hf' = hf\<lparr>hf_understudy_iid := Some cid, hf_understudy_dph := Some bid,
          hf_understudy_on_demand := od, hf_phase := LAUNCHING\<rparr>"
      by (auto simp: handoff_abort_def)
    then show ?thesis
    proof cases
      case up
      then show ?thesis using inv ph by (auto simp: hf_inv_def HANDOFF_PRE_CUTOVER_def)
    qed (use inv reset in auto)
  next
    case MarkSynced
    then have "hf' = hf\<lparr>hf_phase := SYNCED\<rparr>" using m by simp
    moreover have "hf_phase hf = LAUNCHING"
      using handoff_phase_of(2) [OF MarkSynced] inv by (auto simp: hf_inv_def)
    ultimately show ?thesis using inv by (simp add: hf_inv_def HANDOFF_PRE_CUTOVER_def)
  next
    case FencePrimary
    then have "hf' = hf\<lparr>hf_prefence_bid := prefence_bid (lc_last_bid st) None, hf_phase := CUTOVER,
                     hf_fence_ts := Some (lc_now st)\<rparr>" using m by (auto simp: Let_def)
    moreover have "hf_phase hf = SYNCED" using handoff_fence(1) [OF FencePrimary] by simp
    ultimately show ?thesis using inv prefence_bid_over_pin
      by (simp add: hf_inv_def HANDOFF_PRE_CUTOVER_def)
  next
    case (ResumeUnderstudy w)
    then have "hf' = hf\<lparr>hf_phase := DRAINING, hf_drain_ts := Some (lc_now st), hf_cutover_ts := Some (an_clock an),
                 hf_primary_gone := (if w = FastCutover then True else hf_primary_gone hf)\<rparr>" using m by auto
    moreover have "hf_phase hf \<noteq> IDLE" using handoff_phase_of(4) [OF ResumeUnderstudy] by auto
    ultimately show ?thesis using inv by (simp add: hf_inv_def HANDOFF_PRE_CUTOVER_def)
  next
    case DrainPrimary
    then show ?thesis using m inv handoff_drain(1) [OF DrainPrimary]
      by (auto simp: hf_inv_def Let_def split: if_splits)
  next
    case Complete
    then have "hf' = handoff_reset (hf_handoffs_done hf + 1) (lc_now st + HANDOFF_COOLDOWN_S)"
      using m by (auto simp: handoff_complete_def Let_def)
    moreover have "hf_handoffs_done hf < HANDOFF_MAX"
      using inv handoff_phase_of(3) [OF Complete] by (simp add: hf_inv_def)
    ultimately show ?thesis by (simp add: hf_inv_reset)
  next
    case (AbortReap w)
    then show ?thesis using m reset by (auto simp: handoff_abort_def)
  next
    case (AbortUnfence w)
    then show ?thesis using m reset by (auto simp: handoff_abort_def Let_def)
  qed (use m inv in auto)
qed

definition handoff_start :: "handoff_sub \<Rightarrow> bool" where
  "handoff_start hf \<longleftrightarrow> hf = init_handoff_state \<or> (\<exists>an st. hf = handoff_reconcile an st init_handoff_state)"

definition tick_sub :: "handoff_sub \<Rightarrow> answers \<times> action \<times> lane \<Rightarrow> handoff_sub" where
  "tick_sub hf i = fst (snd (handoff_tick (fst i) (fst (snd i)) (snd (snd i)) hf))"

lemma handoff_tickE:
  assumes "handoff_tick an act st hf = (st', hf', ios)"
  obtains st1 hf1 alarm ios1 where "handoff_observe an st hf = (st1, hf1, alarm)"
    "do_handoff_move an st1 hf1 (handoff_poll (handoff_build_state st1 hf1 act)) = (st', hf', ios1)"
    "ios = alarm @ ios1"
  using assms by (auto simp: handoff_tick_def Let_def split: prod.splits)

interpretation hm: invariant_machine handoff_start tick_sub "\<lambda>_. True" hf_inv
proof
  show "handoff_start s \<Longrightarrow> hf_inv s" for s
    by (auto simp: handoff_start_def hf_inv_init hf_inv_reconcile)
  show "hf_inv (tick_sub s i)" if "hf_inv s" for s i
  proof -
    obtain st' hf' ios where t: "handoff_tick (fst i) (fst (snd i)) (snd (snd i)) s = (st', hf', ios)"
      by (rule prod_cases3)
    obtain st1 hf1 alarm ios1 where o1: "handoff_observe (fst i) (snd (snd i)) s = (st1, hf1, alarm)"
      and m: "do_handoff_move (fst i) st1 hf1 (handoff_poll (handoff_build_state st1 hf1 (fst (snd i)))) = (st', hf', ios1)"
      using t by (rule handoff_tickE)
    have "hf_inv hf'" using hf_inv_move [OF hf_inv_observe [OF that o1] m] .
    then show ?thesis using t by (simp add: tick_sub_def)
  qed
qed

section \<open>What each call has behind it\<close>

lemma unfence_io:
  assumes "x \<in> set (handoff_unfence_primary p hf None ok)"
  shows "x = EmitUnfence None False \<or> (\<exists>i v. p = Some i \<and> hf_prefence_bid hf = Some v \<and> HANDOFF_PARK_BID < v
    \<and> handoff_unfence_primary p hf None ok = [PutBid i v, PutState i ''running'', EmitUnfence (Some v) ok])"
  using assms
  by (auto simp: handoff_unfence_primary_def or_num_def Let_def split: option.splits if_splits)

lemma abort_io: "x \<in> set (snd (handoff_abort st hf)) \<Longrightarrow> \<exists>u. x = ReapUnderstudy u \<and> hf_understudy_iid hf = Some u"
  by (auto simp: handoff_abort_def split: option.splits)

lemma launch_io:
  "x \<in> set (snd (launch_understudy_move an st hf)) \<Longrightarrow>
   (\<exists>u. x = ReapUnderstudy u) \<or> (\<exists>a b c. x = Launch a b c)"
  by (auto simp: launch_understudy_move_def Let_def dest: abort_io split: option.splits if_splits)

lemma unfence_shape:
  "x \<in> set (handoff_unfence_primary p hf t ok) \<Longrightarrow>
   (\<exists>v b. x = EmitUnfence v b) \<or> (\<exists>i v. x = PutBid i v) \<or> (\<exists>i. x = PutState i ''running'')"
  by (auto simp: handoff_unfence_primary_def Let_def split: option.splits)

text \<open>Which action a call belongs to.\<close>

lemma move_io:
  assumes "do_handoff_move an st hf a = (st', hf', ios)" "x \<in> set ios"
  shows "(\<exists>i. x = DestroyPrimary i) \<longrightarrow> a = DrainPrimary"
    "(\<exists>i. x = PutState i ''running'') \<longrightarrow> (\<exists>w. a = AbortUnfence w)"
    "(\<exists>i. x = PutState i ''stopped'') \<longrightarrow> a = FencePrimary"
    "(\<exists>u. x = PutLabel u) \<or> x = WritePromoted \<longrightarrow> (\<exists>w. a = ResumeUnderstudy w)"
    "(\<exists>o_id b e. x = Launch o_id b e) \<longrightarrow> a = LaunchUnderstudy"
proof -
  have l: "x \<in> set (snd (launch_understudy_move an st hf)) \<Longrightarrow> a = LaunchUnderstudy \<Longrightarrow>
      (\<exists>u. x = ReapUnderstudy u) \<or> (\<exists>a b c. x = Launch a b c)" by (rule launch_io)
  have u: "ios = handoff_unfence_primary p hf None (an_put_ok an) @ snd (handoff_abort st hf) \<Longrightarrow>
      (\<exists>v b. x = EmitUnfence v b) \<or> (\<exists>i v. x = PutBid i v) \<or> (\<exists>i. x = PutState i ''running'')
      \<or> (\<exists>u. x = ReapUnderstudy u)" for p
    using assms(2) unfence_shape [of x p hf None "an_put_ok an"] abort_io [of x st hf] by auto
  have "((\<exists>i. x = DestroyPrimary i) \<longrightarrow> a = DrainPrimary)
    \<and> ((\<exists>i. x = PutState i ''running'') \<longrightarrow> (\<exists>w. a = AbortUnfence w))
    \<and> ((\<exists>i. x = PutState i ''stopped'') \<longrightarrow> a = FencePrimary)
    \<and> ((\<exists>u. x = PutLabel u) \<or> x = WritePromoted \<longrightarrow> (\<exists>w. a = ResumeUnderstudy w))
    \<and> ((\<exists>o_id b e. x = Launch o_id b e) \<longrightarrow> a = LaunchUnderstudy)"
  proof (cases a)
    case LaunchUnderstudy
    then have "x \<in> set (snd (launch_understudy_move an st hf))"
      using assms by (auto simp: do_handoff_move_def)
    then show ?thesis using l LaunchUnderstudy by auto
  next
    case (AbortUnfence w)
    then obtain p where "ios = handoff_unfence_primary p hf None (an_put_ok an) @ snd (handoff_abort st hf)"
      using assms(1) by (auto simp: do_handoff_move_def Let_def split: prod.splits)
    then show ?thesis using u AbortUnfence by auto
  next
    case (AbortReap w)
    then have "x \<in> set (snd (handoff_abort st hf))" using assms by (auto simp: do_handoff_move_def)
    then show ?thesis using abort_io by blast
  qed (use assms in \<open>auto simp: do_handoff_move_def Let_def split: option.splits if_splits prod.splits\<close>)
  then show "(\<exists>i. x = DestroyPrimary i) \<longrightarrow> a = DrainPrimary"
    "(\<exists>i. x = PutState i ''running'') \<longrightarrow> (\<exists>w. a = AbortUnfence w)"
    "(\<exists>i. x = PutState i ''stopped'') \<longrightarrow> a = FencePrimary"
    "(\<exists>u. x = PutLabel u) \<or> x = WritePromoted \<longrightarrow> (\<exists>w. a = ResumeUnderstudy w)"
    "(\<exists>o_id b e. x = Launch o_id b e) \<longrightarrow> a = LaunchUnderstudy" by blast+
qed

text \<open>A call of a tick that is not the alarm is a call of its move.\<close>

lemma tick_io:
  assumes "handoff_tick an act st hf = (st', hf', ios)" "x \<in> set ios" "\<nexists>w. x = EmitStall w"
  obtains st1 hf1 alarm ios1 where "handoff_observe an st hf = (st1, hf1, alarm)"
    "do_handoff_move an st1 hf1 (handoff_poll (handoff_build_state st1 hf1 act)) = (st', hf', ios1)"
    "x \<in> set ios1" "hf_core hf1 = hf_core hf" "lc_now st1 = lc_now st" "ios = alarm @ ios1"
proof -
  obtain st1 hf1 alarm ios1 where t: "handoff_observe an st hf = (st1, hf1, alarm)"
    "do_handoff_move an st1 hf1 (handoff_poll (handoff_build_state st1 hf1 act)) = (st', hf', ios1)"
    "ios = alarm @ ios1" using assms(1) by (rule handoff_tickE)
  have "x \<in> set ios1" using assms(2,3) t(3) observe_frame(5) [OF t(1)] by auto
  then show thesis using that t observe_frame(1,2) [OF t(1)] by blast
qed

section \<open>Clocks\<close>

definition hf_overdue :: "handoff_sub \<Rightarrow> secs \<Rightarrow> bool" where
  "hf_overdue hf now \<longleftrightarrow>
     hf_phase hf \<in> HANDOFF_PRE_CUTOVER \<and> past (hf_handoff_started_ts hf) now HANDOFF_DEADLINE_S
   \<or> hf_phase hf = CUTOVER \<and> past (hf_fence_ts hf) now HANDOFF_FENCE_TIMEOUT_S
   \<or> hf_phase hf = DRAINING \<and> \<not> hf_understudy_producing hf
     \<and> past (hf_drain_ts hf) now HANDOFF_DRAIN_DEADLINE_S"

lemma overdue_build: "overdue (handoff_build_state st hf act) = hf_overdue hf (lc_now st)"
  by (simp add: overdue_def hf_overdue_def)

lemma not_past_now: "0 < limit \<Longrightarrow> \<not> past (Some t) t limit"
  by (simp add: past_def)

lemma reset_not_overdue: "\<not> hf_overdue (handoff_reset n t) now"
  by (simp add: hf_overdue_def handoff_reset_def init_handoff_state_def HANDOFF_PRE_CUTOVER_def)

lemma move_not_overdue:
  assumes inv: "hf_inv hf"
    and m: "do_handoff_move an st hf (handoff_poll (handoff_build_state st hf act)) = (st', hf', ios)"
  shows "\<not> hf_overdue hf' (lc_now st)"
proof -
  let ?a = "handoff_poll (handoff_build_state st hf act)"
  note m' = m [unfolded do_handoff_move_def]
  have fresh: "\<not> past (Some t) t HANDOFF_DEADLINE_S" "\<not> past (Some t) t HANDOFF_FENCE_TIMEOUT_S"
    "\<not> past (Some t) t HANDOFF_DRAIN_DEADLINE_S" for t
    by (simp_all add: past_def handoff_constants)
  have stay: "\<not> hf_overdue hf (lc_now st)"
    if "\<nexists>w. ?a = AbortReap w" "\<nexists>w. ?a = AbortUnfence w" "\<nexists>w. ?a = ResumeUnderstudy w"
    using overdue_leaves [of "handoff_build_state st hf act"] that unfolding overdue_build by blast
  show ?thesis
  proof (cases ?a)
    case Arm
    then show ?thesis using m' fresh by (auto simp: hf_overdue_def)
  next
    case LaunchUnderstudy
    then obtain ios' where l: "launch_understudy_move an st hf = (hf', ios')" using m' by auto
    have ph: "hf_phase hf = ARMED" using handoff_phase_of(1) [OF LaunchUnderstudy] by simp
    have "\<not> past (hf_handoff_started_ts hf) (lc_now st) HANDOFF_DEADLINE_S"
      using stay LaunchUnderstudy ph by (simp add: hf_overdue_def HANDOFF_PRE_CUTOVER_def)
    then show ?thesis using launch_understudy_cases [OF l] ph reset_not_overdue
      by (auto simp: hf_overdue_def handoff_abort_def HANDOFF_PRE_CUTOVER_def)
  next
    case MarkSynced
    then show ?thesis using m' stay handoff_phase_of(2) [OF MarkSynced]
      by (auto simp: hf_overdue_def HANDOFF_PRE_CUTOVER_def)
  next
    case FencePrimary
    then show ?thesis using m' fresh by (auto simp: hf_overdue_def HANDOFF_PRE_CUTOVER_def)
  next
    case (ResumeUnderstudy w)
    then show ?thesis using m' fresh by (auto simp: hf_overdue_def HANDOFF_PRE_CUTOVER_def)
  next
    case DrainPrimary
    then show ?thesis using m' handoff_drain(1,2) [OF DrainPrimary]
      by (auto simp: hf_overdue_def HANDOFF_PRE_CUTOVER_def Let_def split: if_splits)
  next
    case Complete
    then show ?thesis using m' reset_not_overdue by (auto simp: handoff_complete_def Let_def)
  next
    case (AbortReap w)
    then show ?thesis using m' reset_not_overdue by (auto simp: handoff_abort_def)
  next
    case (AbortUnfence w)
    then show ?thesis using m' reset_not_overdue by (auto simp: handoff_abort_def Let_def)
  next
    case (HNoop w)
    then show ?thesis using m' stay by simp
  next
    case WarmWait
    then show ?thesis using m' stay by simp
  qed
qed

lemma tick_not_overdue:
  assumes "hf_inv hf" "handoff_tick an act st hf = (st', hf', ios)"
  shows "\<not> hf_overdue hf' (lc_now st)"
  using assms(2)
  by (rule handoff_tickE) (use assms(1) hf_inv_observe move_not_overdue observe_frame(2) in metis)

section \<open>Properties\<close>

text \<open>The phases in the order a migration passes through them.\<close>

fun phase_rank :: "phase \<Rightarrow> nat" where
  "phase_rank IDLE = 0"
| "phase_rank ARMED = 1"
| "phase_rank LAUNCHING = 2"
| "phase_rank WARMING = 3"
| "phase_rank SYNCED = 4"
| "phase_rank CUTOVER = 5"
| "phase_rank DRAINING = 6"
| "phase_rank DONE = 7"
| "phase_rank ABORT = 8"

lemma phase_rank_inject: "phase_rank a = phase_rank b \<Longrightarrow> a = b"
  by (cases a; cases b) simp_all

instantiation phase :: linorder
begin

definition "less_eq_phase a b \<longleftrightarrow> phase_rank a \<le> phase_rank b"
definition "less_phase a b \<longleftrightarrow> phase_rank a < phase_rank b"

instance
  by standard (auto simp: less_eq_phase_def less_phase_def intro: phase_rank_inject)

end

lemmas phase_order = less_eq_phase_def less_phase_def

text \<open>A log of ticks.\<close>

definition handoff_run :: "handoff_sub \<Rightarrow> (answers \<times> action \<times> lane) list \<Rightarrow> handoff_sub" where
  "handoff_run hf ticks = foldl tick_sub hf ticks"

lemma handoff_run_inv: "handoff_start hf \<Longrightarrow> hf_inv (handoff_run hf ticks)"
  using hm.reached [of hf ticks] by (simp add: handoff_run_def)

lemma observed:
  assumes "handoff_observe an st hf = (st1, hf1, alarm)"
  shows "hf_phase hf1 = hf_phase hf" "hf_primary_gone hf1 = hf_primary_gone hf"
    "hf_fence_ts hf1 = hf_fence_ts hf" "hf_prefence_bid hf1 = hf_prefence_bid hf" "lc_now st1 = lc_now st"
  using observe_frame(1,2) [OF assms] by (auto dest: hf_coreD)

lemma move_phase:
  assumes "do_handoff_move an st hf (handoff_poll (handoff_build_state st hf act)) = (st', hf', ios)"
  shows "(hf_phase hf \<le> hf_phase hf' \<and> hf_handoffs_done hf' = hf_handoffs_done hf)
    \<or> (hf_phase hf' = IDLE \<and> hf_cooldown_until hf' = lc_now st + HANDOFF_COOLDOWN_S
        \<and> (hf_handoffs_done hf' = hf_handoffs_done hf
           \<or> hf_handoffs_done hf' = hf_handoffs_done hf + 1 \<and> hf_phase hf = DRAINING \<and> hf_primary_gone hf))"
proof -
  let ?a = "handoff_poll (handoff_build_state st hf act)"
  note m = assms [unfolded do_handoff_move_def]
  have reset: "hf_phase (handoff_reset n t) = IDLE \<and> hf_cooldown_until (handoff_reset n t) = t
      \<and> hf_handoffs_done (handoff_reset n t) = n" for n t
    by (simp add: handoff_reset_def init_handoff_state_def)
  show ?thesis
  proof (cases ?a)
    case Arm
    then show ?thesis using m handoff_arm(1) [OF Arm] by (auto simp: phase_order)
  next
    case LaunchUnderstudy
    then obtain ios' where l: "launch_understudy_move an st hf = (hf', ios')" using m by auto
    show ?thesis using launch_understudy_cases [OF l] handoff_phase_of(1) [OF LaunchUnderstudy] reset
      by (auto simp: phase_order handoff_abort_def)
  next
    case MarkSynced
    then show ?thesis using m handoff_phase_of(2) [OF MarkSynced] by (auto simp: phase_order)
  next
    case FencePrimary
    then show ?thesis using m handoff_fence(1) [OF FencePrimary] by (auto simp: phase_order)
  next
    case (ResumeUnderstudy w)
    then show ?thesis using m handoff_phase_of(4) [OF ResumeUnderstudy] by (auto simp: phase_order)
  next
    case DrainPrimary
    then show ?thesis using m by (auto simp: Let_def split: if_splits)
  next
    case Complete
    then show ?thesis using m handoff_phase_of(3) [OF Complete] reset
      by (auto simp: handoff_complete_def Let_def)
  next
    case (AbortReap w)
    then show ?thesis using m reset by (auto simp: handoff_abort_def)
  next
    case (AbortUnfence w)
    then show ?thesis using m reset by (auto simp: handoff_abort_def Let_def)
  qed (use m in auto)
qed

text \<open>The machine has six phases: from a fresh or an adopted start, no log of ticks, whatever the
  outside world answers, reaches \<open>WARMING\<close>, \<open>DONE\<close> or \<open>ABORT\<close>; the clock of the current phase
  is always set, a migration in flight leaves room in the count cap, the count never exceeds it, and the
  primary is only marked gone while draining.\<close>

lemma handoff_run_sound:
  assumes "handoff_start hf0" "hf = handoff_run hf0 ticks"
  shows "hf_phase hf \<in> {IDLE, ARMED, LAUNCHING, SYNCED, CUTOVER, DRAINING}
    \<and> (hf_phase hf \<in> {ARMED, LAUNCHING, SYNCED} \<longrightarrow> hf_handoff_started_ts hf \<noteq> None)
    \<and> (hf_phase hf = CUTOVER \<longrightarrow> hf_fence_ts hf \<noteq> None)
    \<and> (hf_phase hf = DRAINING \<longrightarrow> hf_drain_ts hf \<noteq> None)
    \<and> (hf_primary_gone hf \<longrightarrow> hf_phase hf = DRAINING)
    \<and> hf_handoffs_done hf \<le> HANDOFF_MAX \<and> (hf_phase hf \<noteq> IDLE \<longrightarrow> hf_handoffs_done hf < HANDOFF_MAX)"
  using handoff_run_inv [OF assms(1), of ticks] assms(2)
  by (auto simp: hf_inv_def HANDOFF_PRE_CUTOVER_def)

text \<open>C18. No phase outlives its clock: after a tick at time \<open>now\<close> no pre-cutover phase is past the
  migration deadline, no fence is past the fence timeout, and no unproductive drain is past its
  deadline; whatever the world answered, such a state was left in that same tick.\<close>

theorem no_phase_outlives_its_clock:
  assumes "handoff_start hf0" "handoff_tick an act st (handoff_run hf0 ticks) = (st', hf', ios)"
  shows "(hf_phase hf' \<in> HANDOFF_PRE_CUTOVER \<longrightarrow>
            (\<exists>t. hf_handoff_started_ts hf' = Some t \<and> lc_now st - t < HANDOFF_DEADLINE_S))
    \<and> (hf_phase hf' = CUTOVER \<longrightarrow>
            (\<exists>t. hf_fence_ts hf' = Some t \<and> lc_now st - t < HANDOFF_FENCE_TIMEOUT_S))
    \<and> (hf_phase hf' = DRAINING \<and> \<not> hf_understudy_producing hf' \<longrightarrow>
            (\<exists>t. hf_drain_ts hf' = Some t \<and> lc_now st - t < HANDOFF_DRAIN_DEADLINE_S))"
proof -
  have inv: "hf_inv (handoff_run hf0 ticks)" using handoff_run_inv [OF assms(1)] .
  have "hf' = tick_sub (handoff_run hf0 ticks) (an, act, st)" using assms(2) by (simp add: tick_sub_def)
  then have "hf_inv hf'" using hm.step_inv [OF inv, of "(an, act, st)"] by simp
  moreover have "\<not> hf_overdue hf' (lc_now st)" using tick_not_overdue [OF inv assms(2)] .
  ultimately show ?thesis
    by (auto simp: hf_inv_def hf_overdue_def past_def not_le split: option.splits)
qed

text \<open>C19. The old box is destroyed only behind a working replacement: a tick calls for its destruction only
  while draining, with the understudy producing (seen before or read in this tick), and with the
  primary not already gone.\<close>

theorem destroy_only_behind_producer:
  assumes "handoff_tick an act st hf = (st', hf', ios)" "DestroyPrimary i \<in> set ios"
  shows "hf_phase hf = DRAINING \<and> (hf_understudy_producing hf \<or> an_producing an) \<and> \<not> hf_primary_gone hf"
proof -
  obtain st1 hf1 alarm ios1 where o1: "handoff_observe an st hf = (st1, hf1, alarm)"
    and m: "do_handoff_move an st1 hf1 (handoff_poll (handoff_build_state st1 hf1 act)) = (st', hf', ios1)"
    and x: "DestroyPrimary i \<in> set ios1" by (rule tick_io [OF assms]) auto
  have "handoff_poll (handoff_build_state st1 hf1 act) = DrainPrimary" using move_io(1) [OF m x] by blast
  from handoff_drain [OF this] show ?thesis using observed(1,2) [OF o1] observe_frame(3) [OF o1] by auto
qed

definition primary_lost :: "lane \<Rightarrow> action \<Rightarrow> bool" where
  "primary_lost st act \<longleftrightarrow> ln_evicted_pending st \<or> (\<exists>r. act = EmitEvicted r) \<or> act = Relaunch"

lemma observed_lost:
  assumes "handoff_observe an st hf = (st1, hf1, alarm)"
  shows "hs_primary_evicted (handoff_build_state st1 hf1 act) \<longleftrightarrow> primary_lost st act"
proof -
  have "ln_evicted_pending (fst (handoff_accrue st h)) = ln_evicted_pending st" for h
    by (auto simp: handoff_accrue_def Let_def split: option.splits)
  moreover obtain h where "st1 = fst (handoff_accrue st h)"
    using assms by (auto simp: handoff_observe_def Let_def split: prod.splits) (metis fst_conv)
  ultimately have "ln_evicted_pending st1 = ln_evicted_pending st" by simp
  then show ?thesis
    by (auto simp: handoff_build_state_def mk_handoff_state_def primary_lost_def split: action.splits)
qed

text \<open>The understudy is promoted only when the old writer is out: a tick calls for the promotion only
  after the primary was lost before any fence, or after the fence with the final flush seen or the
  fence timeout run out.\<close>

lemma promotion_only_after_old_writer:
  assumes "handoff_tick an act st hf = (st', hf', ios)" "WritePromoted \<in> set ios"
  shows "hf_phase hf = SYNCED \<and> primary_lost st act
    \<or> hf_phase hf = CUTOVER \<and> (hf_final_flush_seen hf \<or> an_flush an
        \<or> past (hf_fence_ts hf) (lc_now st) HANDOFF_FENCE_TIMEOUT_S)"
proof -
  obtain st1 hf1 alarm ios1 where o1: "handoff_observe an st hf = (st1, hf1, alarm)"
    and m: "do_handoff_move an st1 hf1 (handoff_poll (handoff_build_state st1 hf1 act)) = (st', hf', ios1)"
    and x: "WritePromoted \<in> set ios1" by (rule tick_io [OF assms]) auto
  obtain w where w: "handoff_poll (handoff_build_state st1 hf1 act) = ResumeUnderstudy w"
    using move_io(4) [OF m x] by blast
  note r = handoff_resume [OF w, simplified, unfolded observed_lost [OF o1]] and ob = observed [OF o1]
  show ?thesis
  proof (cases w)
    case FastCutover
    then show ?thesis using r(1) ob(1) by simp
  next
    case PostFlush
    then show ?thesis using r(2) ob(1) observe_frame(4) [OF o1] by auto
  next
    case FlushTimeout
    then show ?thesis using r(3) ob(1,3,5) by simp
  qed
qed

text \<open>A fenced primary is never resumed at the fence pin: every resume of the old box is preceded by a
  bid above the pin, the one captured before the fence, and happens only after the fence and while
  the box still stands.\<close>

lemma never_resumed_at_the_pin:
  assumes "handoff_tick an act st hf = (st', hf', ios)" "PutState i ''running'' \<in> set ios"
  shows "\<exists>v pre post. HANDOFF_PARK_BID < v \<and> hf_prefence_bid hf = Some v
    \<and> ios = pre @ [PutBid i v, PutState i ''running''] @ post
    \<and> (hf_phase hf = CUTOVER \<or> hf_phase hf = DRAINING \<and> \<not> hf_primary_gone hf)"
proof -
  obtain st1 hf1 alarm ios1 where o1: "handoff_observe an st hf = (st1, hf1, alarm)"
    and m: "do_handoff_move an st1 hf1 (handoff_poll (handoff_build_state st1 hf1 act)) = (st', hf', ios1)"
    and x: "PutState i ''running'' \<in> set ios1" and ios: "ios = alarm @ ios1"
    by (rule tick_io [OF assms]) auto
  obtain w where w: "handoff_poll (handoff_build_state st1 hf1 act) = AbortUnfence w"
    using move_io(2) [OF m x] by blast
  define p where "p = (case hf_primary_iid hf1 of Some i \<Rightarrow> Some i | None \<Rightarrow> ln_instance_id st1)"
  let ?u = "handoff_unfence_primary p hf1 None (an_put_ok an)"
  have ios1: "ios1 = ?u @ snd (handoff_abort st1 hf1)"
    using m by (simp add: w do_handoff_move_def p_def Let_def split: prod.splits)
  have "PutState i ''running'' \<in> set ?u" using x ios1 by (auto dest: abort_io)
  from unfence_io [OF this] obtain j v where v: "hf_prefence_bid hf1 = Some v" "HANDOFF_PARK_BID < v"
    "?u = [PutBid j v, PutState j ''running'', EmitUnfence (Some v) (an_put_ok an)]" by auto
  then have "j = i" using \<open>PutState i ''running'' \<in> set ?u\<close> by auto
  then have "ios = alarm @ [PutBid i v, PutState i ''running'']
      @ (EmitUnfence (Some v) (an_put_ok an) # snd (handoff_abort st1 hf1))"
    using ios ios1 v(3) by simp
  then show ?thesis using v handoff_abort_phase(2) [OF w] observed [OF o1] by auto
qed

text \<open>The phases only advance: a tick leaves the phase where it is, moves it up the order of the
  phases, or resets the machine to \<open>IDLE\<close> with a full cooldown from now; the count of migrations
  grows only when a drain completes.\<close>

lemma phases_only_advance:
  assumes "handoff_tick an act st hf = (st', hf', ios)"
  shows "(hf_phase hf \<le> hf_phase hf' \<and> hf_handoffs_done hf' = hf_handoffs_done hf)
    \<or> (hf_phase hf' = IDLE \<and> hf_cooldown_until hf' = lc_now st + HANDOFF_COOLDOWN_S
        \<and> (hf_handoffs_done hf' = hf_handoffs_done hf
           \<or> hf_handoffs_done hf' = hf_handoffs_done hf + 1 \<and> hf_phase hf = DRAINING \<and> hf_primary_gone hf))"
proof -
  obtain st1 hf1 alarm ios1 where o1: "handoff_observe an st hf = (st1, hf1, alarm)"
    and m: "do_handoff_move an st1 hf1 (handoff_poll (handoff_build_state st1 hf1 act)) = (st', hf', ios1)"
    using assms by (rule handoff_tickE)
  have core: "hf_phase hf1 = hf_phase hf" "hf_handoffs_done hf1 = hf_handoffs_done hf"
    "hf_primary_gone hf1 = hf_primary_gone hf" "lc_now st1 = lc_now st"
    using observe_frame(1,2) [OF o1] by (auto dest: hf_coreD)
  have "(hf_phase hf1 \<le> hf_phase hf' \<and> hf_handoffs_done hf' = hf_handoffs_done hf1)
    \<or> (hf_phase hf' = IDLE \<and> hf_cooldown_until hf' = lc_now st1 + HANDOFF_COOLDOWN_S
        \<and> (hf_handoffs_done hf' = hf_handoffs_done hf1
           \<or> hf_handoffs_done hf' = hf_handoffs_done hf1 + 1 \<and> hf_phase hf1 = DRAINING \<and> hf_primary_gone hf1))"
    using m by (rule move_phase)
  then show ?thesis unfolding core .
qed

definition drain_answers :: answers where
  "drain_answers = \<lparr>an_instances = [], an_synced_epoch = None, an_offer = None, an_body = None,
     an_preflight_ok = False, an_launch = None, an_destroyed = (\<lambda>_. True), an_gone = (\<lambda>_. True),
     an_put_ok = True, an_flush = True, an_producing = True, an_clock = []\<rparr>"

definition lane_at :: "secs \<Rightarrow> lane" where
  "lane_at now = ladder_ctx.extend (lane_sample\<lparr>lc_now := now\<rparr>)
     \<lparr>ln_instance_id = Some ''old'', ln_husk_id = None, ln_dph_total = None, ln_on_demand = Some 1,
      ln_budget_usd = None, ln_spend_usd = 0, ln_dt = 60, ln_wall_budget_s = None, ln_wall_clock_s = 0,
      ln_evicted_pending = False, ln_not_live_streak = 0, ln_over_pref = True\<rparr>"

definition adopted :: handoff_sub where
  "adopted = handoff_reconcile (drain_answers\<lparr>an_instances := [\<lparr>in_id = ''new'', in_twin = True,
      in_status = Some ''running'', in_dph_total = Some (2/10), in_is_bid = True, in_dph_base = Some (2/10)\<rparr>],
      an_synced_epoch := Some 1\<rparr>) (lane_at 1000) init_handoff_state"

definition tick_at :: "secs \<Rightarrow> bool \<Rightarrow> answers \<times> action \<times> lane" where
  "tick_at now sees = (drain_answers\<lparr>an_flush := sees, an_producing := sees\<rparr>, Noop Live, lane_at now)"

lemma adopted_start: "handoff_start adopted"
  by (auto simp: handoff_start_def adopted_def)

text \<open>From the adopted twin: fence at 1100, flush and promotion at 1200, destruction at 1300.\<close>

lemma handoff_run_sound_witness:
  "hf_phase (handoff_run adopted [tick_at 1100 False, tick_at 1200 True]) = DRAINING
   \<and> hf_drain_ts (handoff_run adopted [tick_at 1100 False, tick_at 1200 True]) \<noteq> None"
proof -
  have p: "hf_phase (handoff_run adopted [tick_at 1100 False, tick_at 1200 True]) = DRAINING" by code_simp
  show ?thesis using handoff_run_sound [OF adopted_start refl, of "[tick_at 1100 False, tick_at 1200 True]"] p
    by simp
qed

theorem no_phase_outlives_its_clock_witness:
  "hf_phase (handoff_run adopted [tick_at 1100 False, tick_at 2100 False]) = DRAINING
   \<and> (\<exists>t. hf_fence_ts (handoff_run adopted [tick_at 1100 False]) = Some t \<and> lc_now (lane_at 1100) - t < 900)"
proof -
  have p: "hf_phase (handoff_run adopted [tick_at 1100 False, tick_at 2100 False]) = DRAINING"
    "hf_phase (handoff_run adopted [tick_at 1100 False]) = CUTOVER" by code_simp+
  obtain st' hf' ios where t: "handoff_tick (fst (tick_at 1100 False)) (fst (snd (tick_at 1100 False)))
      (snd (snd (tick_at 1100 False))) (handoff_run adopted []) = (st', hf', ios)" by (rule prod_cases3)
  then have h: "hf' = handoff_run adopted [tick_at 1100 False]" by (simp add: handoff_run_def tick_sub_def)
  have "\<exists>t. hf_fence_ts hf' = Some t \<and> lc_now (snd (snd (tick_at 1100 False))) - t < HANDOFF_FENCE_TIMEOUT_S"
    using no_phase_outlives_its_clock [OF adopted_start t] p(2) h by simp
  then show ?thesis using p(1) by (simp add: h tick_at_def HANDOFF_FENCE_TIMEOUT_S_def)
qed

theorem destroy_only_behind_producer_witness:
  "\<exists>hf. DestroyPrimary (Some ''old'') \<in> set (snd (snd (handoff_tick drain_answers (Noop Live) (lane_at 1300) hf)))
     \<and> hf_phase hf = DRAINING \<and> \<not> hf_primary_gone hf"
proof -
  let ?hf = "handoff_run adopted [tick_at 1100 False, tick_at 1200 True]"
  obtain st' hf' ios where t: "handoff_tick drain_answers (Noop Live) (lane_at 1300) ?hf = (st', hf', ios)"
    by (rule prod_cases3)
  have "DestroyPrimary (Some ''old'') \<in> set (snd (snd (handoff_tick drain_answers (Noop Live) (lane_at 1300) ?hf)))"
    by code_simp
  then have d: "DestroyPrimary (Some ''old'') \<in> set ios" using t by simp
  show ?thesis using destroy_only_behind_producer [OF t d] d t by (intro exI [of _ ?hf]) simp
qed

end
