(* ===== verification/Durability.thy ===== *)
theory Durability
  imports Prelude
begin

text \<open>
  Is the work of a parked box safely in the bucket, and what may a sweep do to it
  (\<open>tools/vast/parked_lifecycle.py\<close>): the three-valued durability verdict of a run and of a job
  box, the attribution of the terminal marker, the graded zombie action and the orphaned ticket
  verdict. \<open>True\<close>/\<open>False\<close>/\<open>None\<close> evidence is a \<open>bool option\<close>; the reason strings are
  constructors.

  Lemma groups: what DURABLE and DESTROY are evidence of, as equivalences; evidence that becomes
  unreadable never turns a hold into DURABLE; any later activity revokes DURABLE.
\<close>

datatype verdict = DURABLE | UNSYNCED | UNKNOWN

definition ORDER_MARKERS :: "string list" where
  "ORDER_MARKERS = [''done'', ''failed'', ''final_flush'']"

definition POST_TERMINAL_ACTIVITY :: "string list" where
  "POST_TERMINAL_ACTIVITY = [''launched'', ''relaunched'', ''resumed'', ''running'',
     ''supervisor_started'', ''runset_cmd_start'']"

definition CKPT_PAYLOAD_SUFFIXES :: "string list" where
  "CKPT_PAYLOAD_SUFFIXES = [''.safetensors'', ''.bin'', ''.pt'', ''.pth'', ''.gguf'']"

definition CKPT_PAYLOAD_NAMES :: "string list" where
  "CKPT_PAYLOAD_NAMES = [''trainer_state.json'', ''adapter_config.json'']"

definition FRESH_WINDOW_S :: secs where "FRESH_WINDOW_S = 900"

section \<open>Payload recognition\<close>

definition is_payload :: "string \<Rightarrow> bool" where
  "is_payload n =
     (let parts = filter (\<lambda>p. p \<noteq> []) (split_on (CHR ''/'') n)
      in parts \<noteq> []
         \<and> (list_ex (starts_with ''checkpoint-'') parts
            \<or> last parts \<in> set CKPT_PAYLOAD_NAMES
            \<or> list_ex (\<lambda>sfx. ends_with sfx (last parts)) CKPT_PAYLOAD_SUFFIXES))"

definition ckpt_payload_names :: "string list \<Rightarrow> string list" where
  "ckpt_payload_names names = filter is_payload names"

definition payload_is_fresh :: "secs option \<Rightarrow> secs option \<Rightarrow> secs \<Rightarrow> bool option" where
  "payload_is_fresh newest_payload_ts terminal_ts window_s =
     (case (newest_payload_ts, terminal_ts) of
        (Some n, Some t) \<Rightarrow> Some (t - window_s \<le> n) | _ \<Rightarrow> None)"

section \<open>Durability of a run\<close>

datatype run_reason =
    NoEvents | MaxHours | SyncFailedNoTerminal | NoMarker | SyncFailedAfter string
  | StaleMarker string "string list" | ArtifactsUnreadable | ArtifactsEmpty | ArtifactsPresent
  | PayloadUnreadable string | PayloadAbsent string | PayloadStale string
  | PayloadAgeUnknown string | PayloadFresh string
  | EmitterUnknown | EmitterOther string

record run_evidence =
  re_events :: "string list"
  re_fail_reason :: "string option"
  re_artifacts_present :: "bool option"
  re_ckpt_payload_present :: "bool option"
  re_ckpt_payload_fresh :: "bool option"

text \<open>The last element that satisfies a test, and what follows it.\<close>

fun last_split :: "('a \<Rightarrow> bool) \<Rightarrow> 'a list \<Rightarrow> ('a \<times> 'a list) option" where
  "last_split P [] = None"
| "last_split P (x # xs) =
     (case last_split P xs of Some r \<Rightarrow> Some r | None \<Rightarrow> if P x then Some (x, xs) else None)"

definition is_marker :: "string \<Rightarrow> bool" where
  "is_marker e = (e \<in> set ORDER_MARKERS)"

definition classify_run_durability :: "run_evidence \<Rightarrow> verdict \<times> run_reason list" where
  "classify_run_durability r =
     (let ev = re_events r
      in if ev = [] then (UNKNOWN, [NoEvents])
         else if ''failed'' \<in> set ev \<and> py_lower (dflt [] (re_fail_reason r)) = ''max_hours''
         then (UNSYNCED, [MaxHours])
         else case last_split is_marker ev of
                None \<Rightarrow> if ''checkpoint_sync_failed'' \<in> set ev then (UNSYNCED, [SyncFailedNoTerminal])
                        else (UNKNOWN, [NoMarker])
              | Some (marker, later) \<Rightarrow>
                  if ''checkpoint_sync_failed'' \<in> set later then (UNSYNCED, [SyncFailedAfter marker])
                  else (let stale_by = filter (\<lambda>e. e \<in> set POST_TERMINAL_ACTIVITY) later
                        in if stale_by \<noteq> [] then (UNKNOWN, [StaleMarker marker stale_by])
                           else if marker = ''done'' then
                             (case re_artifacts_present r of
                                None \<Rightarrow> (UNKNOWN, [ArtifactsUnreadable])
                              | Some False \<Rightarrow> (UNKNOWN, [ArtifactsEmpty])
                              | Some True \<Rightarrow> (DURABLE, [ArtifactsPresent]))
                           else (case re_ckpt_payload_present r of
                                   None \<Rightarrow> (UNKNOWN, [PayloadUnreadable marker])
                                 | Some False \<Rightarrow> (UNKNOWN, [PayloadAbsent marker])
                                 | Some True \<Rightarrow>
                                    (case re_ckpt_payload_fresh r of
                                       Some False \<Rightarrow> (UNKNOWN, [PayloadStale marker])
                                     | None \<Rightarrow> (UNKNOWN, [PayloadAgeUnknown marker])
                                     | Some True \<Rightarrow> (DURABLE, [PayloadFresh marker])))))"

definition classify_box_run_durability ::
  "string option \<Rightarrow> string option \<Rightarrow> run_evidence \<Rightarrow> verdict \<times> run_reason list" where
  "classify_box_run_durability box_iid terminal_emitter_iid r =
     (let (verdict, reasons) = classify_run_durability r
      in if verdict \<noteq> DURABLE then (verdict, reasons)
         else case (terminal_emitter_iid, box_iid) of
                (Some e, Some b) \<Rightarrow>
                  if e \<noteq> b then (UNKNOWN, reasons @ [EmitterOther e]) else (verdict, reasons)
              | _ \<Rightarrow> (UNKNOWN, reasons @ [EmitterUnknown]))"

text \<open>A raw event body: its name, the \<open>actor\<close> (empty when missing), the rendered \<open>instance_id\<close>.\<close>

record raw_event =
  rw_event :: string
  rw_actor :: string
  rw_instance_id :: "string option"

definition event_emitter :: "raw_event \<Rightarrow> string option" where
  "event_emitter e =
     (if starts_with ''box_'' (rw_actor e)
      then (if drop 4 (rw_actor e) = [] then None else Some (drop 4 (rw_actor e)))
      else rw_instance_id e)"

definition terminal_emitter :: "raw_event list \<Rightarrow> string option" where
  "terminal_emitter raw =
     foldl (\<lambda>em e. if is_marker (rw_event e) then event_emitter e else em) None raw"

section \<open>The zombie sweep\<close>

datatype zombie_verdict = LoadingStall | NoJobd | TicketUnclaimed | Pyhalf | OtherVerdict

datatype zombie_act = ZombieDestroy | ZombiePark | ZombieAlarm

datatype zombie_why =
    NotActionable | BundleFault | Kept | JobdAlive | Unconfirmed | BootStalled
  | WorklessAndBilling | JobdDied | EvidenceUnreadable

record zombie_in =
  zi_verdict :: zombie_verdict
  zi_is_jobs_box :: bool
  zi_jobd_ever_stamped :: "bool option"
  zi_jobd_hb_read :: bool
  zi_label_kept :: bool
  zi_confirmed :: bool

definition zombie_action :: "zombie_in \<Rightarrow> zombie_act \<times> zombie_why" where
  "zombie_action z =
     (if zi_verdict z = OtherVerdict then (ZombieAlarm, NotActionable)
      else if zi_verdict z = Pyhalf then (ZombieAlarm, BundleFault)
      else if zi_label_kept z then (ZombieAlarm, Kept)
      else if zi_verdict z = TicketUnclaimed then (ZombieAlarm, JobdAlive)
      else if \<not> zi_confirmed z then (ZombieAlarm, Unconfirmed)
      else if zi_verdict z = LoadingStall then (ZombiePark, BootStalled)
      else if zi_is_jobs_box z \<and> zi_jobd_ever_stamped z = Some False
      then (ZombieDestroy, WorklessAndBilling)
      else if zi_jobd_hb_read z then (ZombiePark, JobdDied)
      else (ZombieAlarm, EvidenceUnreadable))"

definition stall_sweepable :: "zombie_verdict \<Rightarrow> bool \<Rightarrow> bool option \<Rightarrow> bool \<Rightarrow> bool" where
  "stall_sweepable v is_jobs_box jobd_ever_stamped label_kept =
     (fst (zombie_action \<lparr>zi_verdict = v, zi_is_jobs_box = is_jobs_box,
             zi_jobd_ever_stamped = jobd_ever_stamped, zi_jobd_hb_read = False,
             zi_label_kept = label_kept, zi_confirmed = True\<rparr>) = ZombieDestroy
      \<and> v = LoadingStall)"

section \<open>Durability of a jobs box\<close>

record job_ticket =
  tk_id :: string
  tk_status :: string
  tk_results :: "string list option"
  tk_declared_globs :: "int option"
  tk_events :: "string list"

datatype job_reason =
    NoTickets | NotTerminal string | PublishFailed string | ManifestUnreadable string
  | ManifestEmpty string | ZeroGlobs string | ResultsLanded string nat

definition TERMINAL_JOB :: "string list" where
  "TERMINAL_JOB = [''done'', ''failed'', ''cancelled'']"

text \<open>A \<open>publish_verify_failed\<close> later than the last successful publish.\<close>

definition publish_failed :: "string list \<Rightarrow> bool" where
  "publish_failed ev =
     (case last_split (\<lambda>e. e \<in> {''publish_verify_failed'', ''results_uploaded'', ''publish_verified''}) ev of
        Some (e, _) \<Rightarrow> e = ''publish_verify_failed'' | None \<Rightarrow> False)"

fun classify_tickets :: "job_ticket list \<Rightarrow> job_reason list \<Rightarrow> verdict \<times> job_reason list" where
  "classify_tickets [] reasons = (DURABLE, reasons)"
| "classify_tickets (t # ts) reasons =
     (let jid = (if tk_id t = [] then ''<job>'' else tk_id t); status = py_lower (tk_status t)
      in if status \<notin> set TERMINAL_JOB then (UNKNOWN, [NotTerminal jid])
         else if publish_failed (tk_events t) then (UNSYNCED, [PublishFailed jid])
         else case tk_results t of
                None \<Rightarrow> (UNKNOWN, [ManifestUnreadable jid])
              | Some res \<Rightarrow>
                  if res = [] then
                    (if tk_declared_globs t = Some 0 then classify_tickets ts (reasons @ [ZeroGlobs jid])
                     else (UNKNOWN, [ManifestEmpty jid]))
                  else classify_tickets ts (reasons @ [ResultsLanded jid (length res)]))"

definition classify_jobs_durability :: "job_ticket list \<Rightarrow> verdict \<times> job_reason list" where
  "classify_jobs_durability tickets =
     (if tickets = [] then (UNKNOWN, [NoTickets]) else classify_tickets tickets [])"

section \<open>Orphaned tickets\<close>

datatype ticket_verdict =
    TicketOk | TicketUnknown | OrphanUnclaimed | OrphanInterrupted | OrphanTerminal

definition TICKET_ORPHANS :: "ticket_verdict set" where
  "TICKET_ORPHANS = {OrphanUnclaimed, OrphanInterrupted, OrphanTerminal}"

definition TICKET_ORPHANS_STUCK :: "ticket_verdict set" where
  "TICKET_ORPHANS_STUCK = {OrphanUnclaimed, OrphanInterrupted}"

definition ticket_orphan_verdict :: "bool option \<Rightarrow> string option \<Rightarrow> ticket_verdict" where
  "ticket_orphan_verdict box_present job_status =
     (case box_present of
        None \<Rightarrow> TicketUnknown
      | Some True \<Rightarrow> TicketOk
      | Some False \<Rightarrow>
         (let st = py_lower (case job_status of Some s \<Rightarrow> if s = [] then ''unknown'' else s
                             | None \<Rightarrow> ''unknown'')
          in if st \<in> set TERMINAL_JOB then OrphanTerminal
             else if st \<in> {''claimed'', ''started''} then OrphanInterrupted
             else OrphanUnclaimed))"

section \<open>The last marker\<close>

lemma last_split_None: "last_split P xs = None \<longleftrightarrow> (\<forall>x\<in>set xs. \<not> P x)"
  by (induction xs) (auto split: option.splits)

lemma last_split_Some:
  "last_split P xs = Some (x, later) \<longleftrightarrow>
   (\<exists>pre. xs = pre @ x # later) \<and> P x \<and> (\<forall>y\<in>set later. \<not> P y)"
proof (induction xs)
  case Nil
  then show ?case by simp
next
  case (Cons a xs)
  show ?case
  proof (cases "last_split P xs")
    case None
    then have n: "\<forall>y\<in>set xs. \<not> P y" by (simp add: last_split_None)
    show ?thesis using None n by (auto simp: Cons_eq_append_conv)
  next
    case (Some r)
    then obtain b l where r: "last_split P xs = Some (b, l)" by (cases r) auto
    then have "\<exists>y\<in>set xs. P y" using last_split_None [of P xs] by force
    then show ?thesis using Cons.IH r by (fastforce simp: Cons_eq_append_conv)
  qed
qed

lemma last_split_snoc:
  "last_split P (xs @ [x]) = (if P x then Some (x, [])
     else map_option (\<lambda>(y, l). (y, l @ [x])) (last_split P xs))"
  by (induction xs) (auto split: option.splits)

section \<open>What a verdict is evidence of\<close>

lemma run_DURABLE_iff:
  "fst (classify_run_durability r) = DURABLE \<longleftrightarrow>
     (\<exists>marker later. last_split is_marker (re_events r) = Some (marker, later)
        \<and> \<not> (''failed'' \<in> set (re_events r) \<and> py_lower (dflt [] (re_fail_reason r)) = ''max_hours'')
        \<and> ''checkpoint_sync_failed'' \<notin> set later
        \<and> (\<forall>e\<in>set later. e \<notin> set POST_TERMINAL_ACTIVITY)
        \<and> (if marker = ''done'' then re_artifacts_present r = Some True
           else re_ckpt_payload_present r = Some True \<and> re_ckpt_payload_fresh r = Some True))"
  by (cases "re_events r = []")
    (auto simp: classify_run_durability_def Let_def filter_empty_conv split: option.splits bool.splits)

text \<open>Evidence order: an unreadable reading is below both answers.\<close>

definition less_evidence :: "'a option \<Rightarrow> 'a option \<Rightarrow> bool" where
  "less_evidence a b \<longleftrightarrow> a = None \<or> a = b"

lemma run_DURABLE_mono:
  assumes "fst (classify_run_durability (r\<lparr>re_artifacts_present := a, re_ckpt_payload_present := p,
      re_ckpt_payload_fresh := f\<rparr>)) = DURABLE"
    "less_evidence a (re_artifacts_present r)" "less_evidence p (re_ckpt_payload_present r)"
    "less_evidence f (re_ckpt_payload_fresh r)"
  shows "fst (classify_run_durability r) = DURABLE"
  using assms unfolding run_DURABLE_iff less_evidence_def by (auto split: if_splits)

lemma run_DURABLE_later:
  assumes "e \<in> set POST_TERMINAL_ACTIVITY \<or> e = ''checkpoint_sync_failed''"
  shows "fst (classify_run_durability (r\<lparr>re_events := re_events r @ [e]\<rparr>)) \<noteq> DURABLE"
proof
  assume d: "fst (classify_run_durability (r\<lparr>re_events := re_events r @ [e]\<rparr>)) = DURABLE"
  have "\<not> is_marker e" using assms
    by (auto simp: is_marker_def ORDER_MARKERS_def POST_TERMINAL_ACTIVITY_def)
  then show False using d assms unfolding run_DURABLE_iff by (auto simp: last_split_snoc)
qed

lemma box_DURABLE_iff:
  "fst (classify_box_run_durability box em r) = DURABLE \<longleftrightarrow>
     fst (classify_run_durability r) = DURABLE \<and> em \<noteq> None \<and> em = box"
  by (auto simp: classify_box_run_durability_def split: prod.splits option.splits)

lemma terminal_emitter_last:
  "terminal_emitter raw = (case last_split (is_marker \<circ> rw_event) raw of
     None \<Rightarrow> None | Some (e, _) \<Rightarrow> event_emitter e)"
proof (induction raw rule: rev_induct)
  case Nil
  then show ?case by (simp add: terminal_emitter_def)
next
  case (snoc e raw)
  then show ?case by (auto simp: terminal_emitter_def last_split_snoc split: option.splits)
qed

lemma zombie_destroy_iff:
  "fst (zombie_action z) = ZombieDestroy \<longleftrightarrow>
     zi_verdict z = NoJobd \<and> zi_is_jobs_box z \<and> zi_jobd_ever_stamped z = Some False
     \<and> zi_confirmed z \<and> \<not> zi_label_kept z"
  by (cases "zi_verdict z") (auto simp: zombie_action_def)

lemma zombie_touch:
  "fst (zombie_action z) \<noteq> ZombieAlarm \<Longrightarrow> zi_confirmed z \<and> \<not> zi_label_kept z
     \<and> zi_verdict z \<in> {LoadingStall, NoJobd}"
  by (cases "zi_verdict z") (auto simp: zombie_action_def split: if_splits)

definition ticket_durable :: "job_ticket \<Rightarrow> bool" where
  "ticket_durable t \<longleftrightarrow> py_lower (tk_status t) \<in> set TERMINAL_JOB \<and> \<not> publish_failed (tk_events t)
     \<and> (case tk_results t of None \<Rightarrow> False | Some res \<Rightarrow> res = [] \<longrightarrow> tk_declared_globs t = Some 0)"

lemma classify_tickets_DURABLE:
  "fst (classify_tickets ts rs) = DURABLE \<longleftrightarrow> (\<forall>t\<in>set ts. ticket_durable t)"
proof (induction ts arbitrary: rs)
  case Nil
  then show ?case by simp
next
  case (Cons t ts)
  then show ?case by (auto simp: ticket_durable_def [of t] Let_def split: option.splits)
qed

lemma jobs_DURABLE_iff:
  "fst (classify_jobs_durability ts) = DURABLE \<longleftrightarrow> ts \<noteq> [] \<and> (\<forall>t\<in>set ts. ticket_durable t)"
  by (simp add: classify_jobs_durability_def classify_tickets_DURABLE)

section \<open>Properties\<close>

text \<open>A box that ran a run counts as durable exactly when: the terminal marker is known to come from
  that box; the run did not end on the hour cap; the last terminal marker is followed neither by a
  failed checkpoint sync nor by any later activity; and the artifacts are there (after \<open>done\<close>), or
  a fresh checkpoint payload is (after \<open>failed\<close> or a final flush).\<close>

lemma run_durable_exactly:
  "fst (classify_box_run_durability box em r) = DURABLE \<longleftrightarrow>
     em \<noteq> None \<and> em = box
   \<and> \<not> (''failed'' \<in> set (re_events r) \<and> py_lower (dflt [] (re_fail_reason r)) = ''max_hours'')
   \<and> (\<exists>pre marker later. re_events r = pre @ marker # later
        \<and> marker \<in> set ORDER_MARKERS \<and> set later \<inter> set ORDER_MARKERS = {}
        \<and> ''checkpoint_sync_failed'' \<notin> set later \<and> set later \<inter> set POST_TERMINAL_ACTIVITY = {}
        \<and> (if marker = ''done'' then re_artifacts_present r = Some True
           else re_ckpt_payload_present r = Some True \<and> re_ckpt_payload_fresh r = Some True))"
  unfolding box_DURABLE_iff run_DURABLE_iff last_split_Some is_marker_def by blast

text \<open>Missing evidence never makes work look safe: if a run counts as durable while some of its bucket
  readings are unreadable, it counts as durable under every reading that fills them in.\<close>

lemma unreadable_never_durable:
  assumes "fst (classify_box_run_durability box em
      (r\<lparr>re_artifacts_present := a, re_ckpt_payload_present := p, re_ckpt_payload_fresh := f\<rparr>)) = DURABLE"
    and "a = None \<or> a = re_artifacts_present r" "p = None \<or> p = re_ckpt_payload_present r"
    "f = None \<or> f = re_ckpt_payload_fresh r"
  shows "fst (classify_box_run_durability box em r) = DURABLE"
  using run_DURABLE_mono [of f p a r] assms by (auto simp: box_DURABLE_iff less_evidence_def)

definition done_run :: run_evidence where
  "done_run = \<lparr>re_events = [''running'', ''done''], re_fail_reason = None, re_artifacts_present = Some True,
     re_ckpt_payload_present = Some True, re_ckpt_payload_fresh = Some False\<rparr>"

text \<open>Any activity recorded after the terminal marker, or a failed checkpoint sync, takes the verdict
  back: the run is not durable until a new marker is recorded.\<close>

lemma later_activity_revokes:
  assumes "e \<in> set POST_TERMINAL_ACTIVITY \<or> e = ''checkpoint_sync_failed''"
  shows "fst (classify_box_run_durability box em (r\<lparr>re_events := re_events r @ [e]\<rparr>)) \<noteq> DURABLE"
  using run_DURABLE_later [OF assms, of r] by (simp add: box_DURABLE_iff)

text \<open>The sweep destroys a box in one case only: a confirmed jobs box that bills without its agent, that
  is known never to have been stamped by one, and that no label keeps; a stalled boot is never
  swept as such.\<close>

lemma destroy_exactly:
  "(fst (zombie_action z) = ZombieDestroy \<longleftrightarrow>
     zi_verdict z = NoJobd \<and> zi_is_jobs_box z \<and> zi_jobd_ever_stamped z = Some False
     \<and> zi_confirmed z \<and> \<not> zi_label_kept z)
   \<and> \<not> stall_sweepable v jobs_box stamped kept"
  unfolding zombie_destroy_iff stall_sweepable_def by simp

text \<open>A jobs box counts as durable exactly when it has tickets and each of them has ended, has no failed
  publish after its last successful one, and has a readable result list that is not empty, or that
  is empty because the ticket declared no results.\<close>

lemma jobs_durable_exactly:
  "fst (classify_jobs_durability ts) = DURABLE \<longleftrightarrow>
     ts \<noteq> [] \<and> set ts \<subseteq> {t. py_lower (tk_status t) \<in> {''done'', ''failed'', ''cancelled''}
        \<and> \<not> publish_failed (tk_events t)
        \<and> ((\<exists>r rs. tk_results t = Some (r # rs)) \<or> tk_results t = Some [] \<and> tk_declared_globs t = Some 0)}"
proof -
  have "ticket_durable t \<longleftrightarrow> py_lower (tk_status t) \<in> {''done'', ''failed'', ''cancelled''}
      \<and> \<not> publish_failed (tk_events t)
      \<and> ((\<exists>r rs. tk_results t = Some (r # rs)) \<or> tk_results t = Some [] \<and> tk_declared_globs t = Some 0)" for t
    by (cases "tk_results t"; cases "the (tk_results t)") (auto simp: ticket_durable_def TERMINAL_JOB_def)
  then show ?thesis unfolding jobs_DURABLE_iff by blast
qed

end
