(* ===== verification/WorkflowSpec.thy ===== *)
theory WorkflowSpec
  imports Prelude
begin

text \<open>
  The workflow DSL and its validation (\<open>tools/vast/vastlib/workflows/spec.py\<close> and
  \<open>workflows/meta.py\<close>): the dataclasses with their per-field checks, the depth-first cycle test
  (\<open>_check_acyclic\<close>) and the cross-object rules (\<open>validate_workflow_spec\<close>). The types carry the
  \<open>isinstance\<close> checks; a dict is a list of pairs with distinct keys, in insertion order.

  The search threads its colours and carries fuel, with \<open>None\<close> for out of fuel; as many units as
  there are stages are always enough. Lemma groups: the search reports nothing exactly when every
  stage can eventually run, which excludes undeclared dependencies and cycles.
\<close>

section \<open>Slugs\<close>

definition slug_first :: "char \<Rightarrow> bool" where
  "slug_first c = (let n = of_char c :: nat in (97 \<le> n \<and> n \<le> 122) \<or> (48 \<le> n \<and> n \<le> 57))"

definition slug_char :: "char \<Rightarrow> bool" where
  "slug_char c = (slug_first c \<or> c = CHR ''-'')"

definition slug_body :: "nat \<Rightarrow> string \<Rightarrow> bool" where
  "slug_body maxlen s = (s \<noteq> [] \<and> slug_first (hd s) \<and> list_all slug_char (tl s) \<and> length s \<le> maxlen)"

text \<open>\<open>$\<close> also matches in front of one final newline.\<close>

definition chomp :: "string \<Rightarrow> string" where
  "chomp s = (if s \<noteq> [] \<and> last s = CHR 0x0A then butlast s else s)"

definition is_stage_name :: "string \<Rightarrow> bool" where
  "is_stage_name s = slug_body 32 (chomp s)"

section \<open>The dataclasses\<close>

record resource_profile =
  rp_image :: string
  rp_image_digest :: "string option"
  rp_gpu :: "string list"
  rp_num_gpus :: int
  rp_gpu_ram_gb :: "int option"
  rp_disk_gb :: "int option"
  rp_rental :: string
  rp_max_bid :: "price option"
  rp_budget_usd :: price
  rp_max_wall_s :: int
  rp_geo :: "string list"

record artifact_contract =
  ac_kind :: string
  ac_manifest_path :: string

record input_ref =
  ir_stage :: string
  ir_artifact :: string
  ir_dest :: string

record retry_policy =
  rt_max_attempts :: int
  rt_retry_on :: "string list"

record job_stage =
  js_name :: string
  js_bundle :: string
  js_profile :: string
  js_after :: "string list"
  js_inputs :: "(string \<times> input_ref) list"
  js_outputs :: "(string \<times> artifact_contract) list"
  js_retry :: retry_policy
  js_secrets :: "string list"

record workflow =
  wf_version :: int
  wf_name :: string
  wf_budget_usd :: price
  wf_max_wall_s :: int
  wf_teardown :: string
  wf_profiles :: "(string \<times> resource_profile) list"
  wf_stages :: "job_stage list"

definition TEARDOWN_CHOICES :: "string list" where "TEARDOWN_CHOICES = [''stop'', ''destroy'']"
definition RENTAL_CHOICES :: "string list" where "RENTAL_CHOICES = [''bid'', ''on-demand'']"
definition RETRY_CLASSES :: "string list" where
  "RETRY_CLASSES = [''infrastructure'', ''entrypoint'', ''postcondition'']"

text \<open>A \<open>WorkflowError\<close>, by the field it names.\<close>

datatype field_error =
    Required string
  | EmptyEntry string
  | BadChoice string
  | TooSmall string
  | Negative string
  | BadSlug string
  | EscapingPath
  | SecretNotName string

text \<open>The checks run in order and the first failure is raised.\<close>

fun first_failure :: "(bool \<times> 'e) list \<Rightarrow> 'e option" where
  "first_failure [] = None"
| "first_failure ((ok, e) # cs) = (if ok then first_failure cs else Some e)"

lemma first_failure_None: "first_failure cs = None \<longleftrightarrow> (\<forall>c\<in>set cs. fst c)"
  by (induction cs rule: first_failure.induct) auto

definition entries_ok :: "string list \<Rightarrow> bool" where
  "entries_ok xs = list_all (\<lambda>x. x \<noteq> []) xs"

definition opt_nonneg :: "'a::{zero,ord} option \<Rightarrow> bool" where
  "opt_nonneg v = (case v of None \<Rightarrow> True | Some x \<Rightarrow> 0 \<le> x)"

definition check_profile :: "resource_profile \<Rightarrow> field_error option" where
  "check_profile p = first_failure
     [(rp_image p \<noteq> [], Required ''image''),
      (entries_ok (rp_gpu p), EmptyEntry ''gpu''),
      (entries_ok (rp_geo p), EmptyEntry ''geo''),
      (rp_rental p \<in> set RENTAL_CHOICES, BadChoice ''rental''),
      (1 \<le> rp_num_gpus p, TooSmall ''num_gpus''),
      (0 \<le> rp_budget_usd p, Negative ''budget_usd''),
      (0 \<le> rp_max_wall_s p, Negative ''max_wall_s''),
      (opt_nonneg (rp_max_bid p), Negative ''max_bid''),
      (opt_nonneg (rp_gpu_ram_gb p), Negative ''gpu_ram_gb''),
      (opt_nonneg (rp_disk_gb p), Negative ''disk_gb'')]"

definition check_artifact :: "artifact_contract \<Rightarrow> field_error option" where
  "check_artifact a = first_failure
     [(ac_kind a \<noteq> [], Required ''kind''),
      (ac_manifest_path a \<noteq> [], Required ''manifest_path''),
      (\<not> starts_with ''/'' (ac_manifest_path a) \<and> ''..'' \<notin> set (split_on (CHR ''/'') (ac_manifest_path a)),
       EscapingPath)]"

definition check_input_ref :: "input_ref \<Rightarrow> field_error option" where
  "check_input_ref r = first_failure
     [(ir_stage r \<noteq> [], Required ''stage''), (ir_artifact r \<noteq> [], Required ''artifact''),
      (ir_dest r \<noteq> [], Required ''dest'')]"

definition check_retry :: "retry_policy \<Rightarrow> field_error option" where
  "check_retry r = first_failure
     [(1 \<le> rt_max_attempts r, TooSmall ''max_attempts''), (entries_ok (rt_retry_on r), EmptyEntry ''retry_on'')]"

definition secret_ok :: "string \<Rightarrow> bool" where
  "secret_ok s = list_all (\<lambda>c. c \<noteq> CHR ''='' \<and> \<not> py_isspace c) s"

definition check_stage :: "job_stage \<Rightarrow> field_error option" where
  "check_stage s = first_failure
     ([(is_stage_name (js_name s), BadSlug ''name''),
       (js_bundle s \<noteq> [], Required ''bundle''),
       (is_stage_name (js_profile s), BadSlug ''profile''),
       (entries_ok (js_after s), EmptyEntry ''after'')]
      @ map (\<lambda>d. (is_stage_name d, BadSlug ''after entry'')) (js_after s)
      @ map (\<lambda>kv. (is_stage_name (fst kv), BadSlug ''inputs key'')) (js_inputs s)
      @ map (\<lambda>kv. (is_stage_name (fst kv), BadSlug ''outputs key'')) (js_outputs s)
      @ [(entries_ok (js_secrets s), EmptyEntry ''secrets'')]
      @ map (\<lambda>x. (secret_ok x, SecretNotName x)) (js_secrets s))"

definition check_workflow :: "workflow \<Rightarrow> field_error option" where
  "check_workflow w = first_failure
     ([(wf_version w = 1, BadChoice ''version''),
       (wf_name w \<noteq> [], Required ''name''),
       (0 \<le> wf_budget_usd w, Negative ''budget_usd''),
       (0 \<le> wf_max_wall_s w, Negative ''max_wall_s''),
       (wf_teardown w \<in> set TEARDOWN_CHOICES, BadChoice ''teardown'')]
      @ map (\<lambda>kv. (is_stage_name (fst kv), BadSlug ''profiles key'')) (wf_profiles w))"

section \<open>The dependency search\<close>

type_synonym graph = "string \<rightharpoonup> string list"

datatype color = White | Gray | Black

datatype violation =
    DuplicateStage string
  | UndeclaredProfile string string
  | UndeclaredDep string string
  | CycleFound "string list"
  | UnknownInputStage string string
  | InputWithoutDependency string string
  | UnknownArtifact string string
  | UnpinnedProfile string
  | BadRetryClass string

type_synonym colors = "string \<Rightarrow> color"

fun visit :: "nat \<Rightarrow> graph \<Rightarrow> string \<Rightarrow> string list \<Rightarrow> colors \<Rightarrow> (violation list \<times> colors) option"
and visit_deps :: "nat \<Rightarrow> graph \<Rightarrow> string list \<Rightarrow> string \<Rightarrow> string list \<Rightarrow> colors \<Rightarrow> (violation list \<times> colors) option"
where
  "visit 0 g n stack c = None"
| "visit (Suc k) g n stack c =
     (case visit_deps k g (dflt [] (g n)) n stack (c(n := Gray)) of
        None \<Rightarrow> None | Some (errs, c') \<Rightarrow> Some (errs, c'(n := Black)))"
| "visit_deps k g [] n stack c = Some ([], c)"
| "visit_deps k g (d # ds) n stack c =
     (case (if g d = None then Some ([UndeclaredDep n d], c)
            else if c d = Gray then Some ([CycleFound (stack @ [d])], c)
            else if c d = White then visit k g d (stack @ [d]) c
            else Some ([], c)) of
        None \<Rightarrow> None
      | Some (errs, c') \<Rightarrow> map_option (\<lambda>(errs', c''). (errs @ errs', c'')) (visit_deps k g ds n stack c'))"

fun visit_all :: "nat \<Rightarrow> graph \<Rightarrow> string list \<Rightarrow> colors \<Rightarrow> violation list option" where
  "visit_all k g [] c = Some []"
| "visit_all k g (n # ns) c =
     (if c n = White then
        (case visit k g n [n] c of
           None \<Rightarrow> None | Some (errs, c') \<Rightarrow> map_option (\<lambda>errs'. errs @ errs') (visit_all k g ns c'))
      else visit_all k g ns c)"

text \<open>\<open>stages_by_name\<close>: the first declaration of a name counts.\<close>

fun first_by_name :: "job_stage list \<Rightarrow> string list \<Rightarrow> job_stage list" where
  "first_by_name [] seen = []"
| "first_by_name (s # ss) seen =
     (if js_name s \<in> set seen then first_by_name ss seen
      else s # first_by_name ss (js_name s # seen))"

definition stages_by_name :: "job_stage list \<Rightarrow> (string \<times> job_stage) list" where
  "stages_by_name ss = map (\<lambda>s. (js_name s, s)) (first_by_name ss [])"

definition dep_graph :: "(string \<times> job_stage) list \<Rightarrow> graph" where
  "dep_graph ss = (\<lambda>n. map_option js_after (map_of ss n))"

definition check_acyclic :: "(string \<times> job_stage) list \<Rightarrow> violation list option" where
  "check_acyclic ss = visit_all (length ss) (dep_graph ss) (map fst ss) (\<lambda>_. White)"

section \<open>The cross-object rules\<close>

fun duplicates :: "string list \<Rightarrow> string list \<Rightarrow> violation list" where
  "duplicates [] seen = []"
| "duplicates (n # ns) seen =
     (if n \<in> set seen then DuplicateStage n # duplicates ns seen else duplicates ns (n # seen))"

definition input_errors :: "(string \<times> job_stage) list \<Rightarrow> job_stage \<Rightarrow> violation list" where
  "input_errors byname s = concat (map (\<lambda>(k, r).
     case map_of byname (ir_stage r) of
       None \<Rightarrow> [UnknownInputStage (js_name s) k]
     | Some up \<Rightarrow>
         (if ir_stage r \<notin> set (js_after s) then [InputWithoutDependency (js_name s) k] else [])
         @ (if ir_artifact r \<notin> fst ` set (js_outputs up) then [UnknownArtifact (js_name s) k] else []))
     (js_inputs s))"

definition validate_workflow_spec :: "workflow \<Rightarrow> bool \<Rightarrow> violation list option" where
  "validate_workflow_spec w of_record =
     (let ss = wf_stages w; byname = stages_by_name ss
      in map_option (\<lambda>cyc.
           duplicates (map js_name ss) []
           @ concat (map (\<lambda>s. if js_profile s \<in> fst ` set (wf_profiles w) then []
                               else [UndeclaredProfile (js_name s) (js_profile s)]) ss)
           @ cyc
           @ concat (map (input_errors byname) ss)
           @ (if of_record
              then concat (map (\<lambda>(n, p). if rp_image_digest p = None \<or> rp_image_digest p = Some []
                                          then [UnpinnedProfile n] else []) (wf_profiles w))
              else [])
           @ concat (map (\<lambda>s. if set (rt_retry_on (js_retry s)) \<subseteq> set RETRY_CLASSES then []
                               else [BadRetryClass (js_name s)]) ss))
         (check_acyclic byname))"

section \<open>The search is correct\<close>

text \<open>A stage that can eventually run: declared, and so is everything it waits for.\<close>

inductive runnable :: "graph \<Rightarrow> string \<Rightarrow> bool" for g where
  runnableI: "g n = Some deps \<Longrightarrow> \<forall>d\<in>set deps. runnable g d \<Longrightarrow> runnable g n"

inductive_cases runnableE: "runnable g n"

definition edges :: "graph \<Rightarrow> (string \<times> string) set" where
  "edges g = {(n, d). \<exists>deps. g n = Some deps \<and> d \<in> set deps}"

lemma runnable_no_cycle: "runnable g n \<Longrightarrow> (n, n) \<notin> (edges g)\<^sup>+"
proof (induction rule: runnable.induct)
  case (runnableI n deps)
  show ?case
  proof
    assume "(n, n) \<in> (edges g)\<^sup>+"
    then obtain d where d: "(n, d) \<in> edges g" "(d, n) \<in> (edges g)\<^sup>*"
      by (meson tranclD)
    then have dd: "d \<in> set deps" using runnableI.hyps by (auto simp: edges_def)
    have "(d, d) \<in> (edges g)\<^sup>+" using d by (meson rtrancl_into_trancl1)
    then show False using runnableI.IH dd by blast
  qed
qed

lemma runnable_reach: "(m, n) \<in> (edges g)\<^sup>* \<Longrightarrow> runnable g m \<Longrightarrow> runnable g n"
  by (induction rule: rtrancl_induct) (auto simp: edges_def elim: runnableE)

definition whites :: "graph \<Rightarrow> colors \<Rightarrow> string set" where
  "whites g c = {n. g n \<noteq> None \<and> c n = White}"

text \<open>A colour only moves forward, and a finished call leaves the grey path as it found it.\<close>

definition later :: "colors \<Rightarrow> colors \<Rightarrow> bool" where
  "later c c' \<longleftrightarrow> (\<forall>m. c' m = Gray \<longleftrightarrow> c m = Gray) \<and> (\<forall>m. c m = Black \<longrightarrow> c' m = Black)"

lemma later_refl [simp]: "later c c" by (simp add: later_def)

lemma later_trans: "later a b \<Longrightarrow> later b c \<Longrightarrow> later a c" by (auto simp: later_def)

lemma later_whites: "later c c' \<Longrightarrow> whites g c' \<subseteq> whites g c"
  by (auto simp: later_def whites_def) (metis color.exhaust)+

lemma visit_colors:
  "visit k g n stack c = Some (errs, c') \<Longrightarrow> c n = White \<Longrightarrow> later c c' \<and> c' n = Black"
  "visit_deps k g ds n stack c = Some (errs, c') \<Longrightarrow> later c c'"
proof (induction k g n stack c and k g ds n stack c arbitrary: errs c' and errs c' rule: visit_visit_deps.induct)
  case (2 k g n stack c)
  then obtain c1 where c1: "visit_deps k g (dflt [] (g n)) n stack (c(n := Gray)) = Some (errs, c1)"
    "c' = c1(n := Black)" by (auto split: option.splits)
  have "later (c(n := Gray)) c1" using "2.IH" c1(1) by (simp add: fun_upd_def)
  then show ?case using c1(2) "2.prems"(2) by (auto simp: later_def split: if_splits)
next
  case (4 k g d ds n stack c)
  let ?first = "if g d = None then Some ([UndeclaredDep n d], c)
            else if c d = Gray then Some ([CycleFound (stack @ [d])], c)
            else if c d = White then visit k g d (stack @ [d]) c else Some ([], c)"
  obtain e1 c1 e2 where s: "?first = Some (e1, c1)" "visit_deps k g ds n stack c1 = Some (e2, c')"
    using "4.prems" by (auto split: option.splits)
  have "later c c1" using s(1) "4.IH"(1) by (auto split: if_splits)
  moreover have "later c1 c'" using "4.IH"(2) s by auto
  ultimately show ?case by (rule later_trans)
qed auto

lemma visit_fuel:
  "finite (dom g) \<Longrightarrow> g n \<noteq> None \<Longrightarrow> c n = White \<Longrightarrow> card (whites g c) \<le> k \<Longrightarrow> visit k g n stack c \<noteq> None"
  "finite (dom g) \<Longrightarrow> card (whites g c) \<le> k \<Longrightarrow> visit_deps k g ds n stack c \<noteq> None"
proof (induction k g n stack c and k g ds n stack c rule: visit_visit_deps.induct)
  case (1 g n stack c)
  have "finite (whites g c)" using 1 by (auto intro: finite_subset [of _ "dom g"] simp: whites_def)
  moreover have "n \<in> whites g c" using 1(2,3) by (simp add: whites_def)
  ultimately have "0 < card (whites g c)" by (auto simp: card_gt_0_iff)
  then show ?case using 1(4) by simp
next
  case (2 k g n stack c)
  have fin: "finite (whites g c)" using 2 by (auto intro: finite_subset [of _ "dom g"] simp: whites_def)
  have "whites g (c(n := Gray)) = whites g c - {n}" by (auto simp: whites_def)
  moreover have "n \<in> whites g c" using 2 by (auto simp: whites_def)
  ultimately have "card (whites g (c(n := Gray))) \<le> k" using 2(5) fin by simp
  then have "visit_deps k g (dflt [] (g n)) n stack (c(n := Gray)) \<noteq> None"
    by (rule "2.IH" [OF "2.prems"(1)])
  then show ?case by auto
next
  case (3 k g n stack c)
  then show ?case by simp
next
  case (4 k g d ds n stack c)
  let ?first = "if g d = None then Some ([UndeclaredDep n d], c)
            else if c d = Gray then Some ([CycleFound (stack @ [d])], c)
            else if c d = White then visit k g d (stack @ [d]) c else Some ([], c)"
  have "?first \<noteq> None" using "4.IH"(1) "4.prems" by auto
  then obtain e1 c1 where s: "?first = Some (e1, c1)" by auto
  have "later c c1" using s visit_colors(1) [of k g d "stack @ [d]" c e1 c1] by (auto split: if_splits)
  then have "whites g c1 \<subseteq> whites g c" by (rule later_whites)
  moreover have "finite (whites g c)" using 4 by (auto intro: finite_subset [of _ "dom g"] simp: whites_def)
  ultimately have "card (whites g c1) \<le> k" using "4.prems"(2) card_mono by (meson order_trans)
  then have "visit_deps k g ds n stack c1 \<noteq> None" using "4.IH"(2) s "4.prems"(1) by auto
  then show ?case using s by auto
qed

text \<open>No error: whatever is finished can run.\<close>

lemma visit_sound:
  "visit k g n stack c = Some ([], c') \<Longrightarrow> g n \<noteq> None \<Longrightarrow> c n = White \<Longrightarrow>
     (\<forall>m. c m = Black \<longrightarrow> runnable g m) \<Longrightarrow> (\<forall>m. c' m = Black \<longrightarrow> runnable g m)"
  "visit_deps k g ds n stack c = Some ([], c') \<Longrightarrow>
     (\<forall>m. c m = Black \<longrightarrow> runnable g m) \<Longrightarrow>
     (\<forall>m. c' m = Black \<longrightarrow> runnable g m) \<and> (\<forall>d\<in>set ds. c' d = Black)"
proof (induction k g n stack c and k g ds n stack c arbitrary: c' and c' rule: visit_visit_deps.induct)
  case (2 k g n stack c)
  then obtain deps where deps: "g n = Some deps" by auto
  obtain c1 where c1: "visit_deps k g deps n stack (c(n := Gray)) = Some ([], c1)" "c' = c1(n := Black)"
    using 2 deps by (auto split: option.splits)
  have ih: "(\<forall>m. c1 m = Black \<longrightarrow> runnable g m) \<and> (\<forall>d\<in>set deps. c1 d = Black)"
  proof -
    have v: "visit_deps k g (dflt [] (g n)) n stack (c(n := Gray)) = Some ([], c1)" using c1 deps by simp
    have p: "\<forall>m. (c(n := Gray)) m = Black \<longrightarrow> runnable g m" using "2.prems"(4) by simp
    show ?thesis using "2.IH" [OF v p] deps by simp
  qed
  then have "\<forall>d\<in>set deps. runnable g d" by blast
  then have "runnable g n" by (rule runnableI [where g = g and n = n, OF deps])
  then show ?case using ih by (simp add: c1(2))
next
  case (4 k g d ds n stack c)
  let ?first = "if g d = None then Some ([UndeclaredDep n d], c)
            else if c d = Gray then Some ([CycleFound (stack @ [d])], c)
            else if c d = White then visit k g d (stack @ [d]) c else Some ([], c)"
  obtain e1 c1 e2 where s: "?first = Some (e1, c1)" "visit_deps k g ds n stack c1 = Some (e2, c')" "e1 @ e2 = []"
    using "4.prems" by (auto split: option.splits)
  then have e: "e1 = []" "e2 = []" by auto
  have g: "g d \<noteq> None" "c d \<noteq> Gray" using s(1) e by (auto split: if_splits)
  have step: "(\<forall>m. c1 m = Black \<longrightarrow> runnable g m) \<and> c1 d = Black"
  proof (cases "c d")
    case White
    then have v: "visit k g d (stack @ [d]) c = Some ([], c1)" using s(1) e g by auto
    then show ?thesis using "4.IH"(1) White g "4.prems"(2) visit_colors(1) [OF v White] by auto
  next
    case Black
    then show ?thesis using s(1) g "4.prems"(2) by auto
  qed (use g in simp)
  have rest: "(\<forall>m. c' m = Black \<longrightarrow> runnable g m) \<and> (\<forall>d\<in>set ds. c' d = Black)"
    using "4.IH"(2) [OF s(1) refl] s(2) e step by simp
  have "later c1 c'" using visit_colors(2) s(2) by blast
  then have "c' d = Black" using step by (auto simp: later_def)
  then show ?case using rest by auto
qed auto

text \<open>Every stage runnable: no error, because a grey dependency would close a cycle.\<close>

lemma visit_complete:
  "visit k g n stack c = Some (errs, c') \<Longrightarrow> c n = White \<Longrightarrow> runnable g n \<Longrightarrow>
     (\<forall>m. c m = Gray \<longrightarrow> (m, n) \<in> (edges g)\<^sup>*) \<Longrightarrow> errs = []"
  "visit_deps k g ds n stack c = Some (errs, c') \<Longrightarrow> runnable g n \<Longrightarrow> (\<forall>d\<in>set ds. (n, d) \<in> edges g) \<Longrightarrow>
     (\<forall>m. c m = Gray \<longrightarrow> (m, n) \<in> (edges g)\<^sup>*) \<Longrightarrow> errs = []"
proof (induction k g n stack c and k g ds n stack c arbitrary: errs c' and errs c' rule: visit_visit_deps.induct)
  case (2 k g n stack c)
  then obtain deps where deps: "g n = Some deps" by (auto elim: runnableE)
  obtain c1 where c1: "visit_deps k g deps n stack (c(n := Gray)) = Some (errs, c1)"
    using 2 deps by (auto split: option.splits)
  have "\<forall>d\<in>set deps. (n, d) \<in> edges g" using deps by (auto simp: edges_def)
  moreover have "\<forall>m. (c(n := Gray)) m = Gray \<longrightarrow> (m, n) \<in> (edges g)\<^sup>*" using "2.prems" by auto
  ultimately show ?case using "2.IH" c1 "2.prems"(3) deps by (simp add: fun_upd_def)
next
  case (4 k g d ds n stack c)
  let ?first = "if g d = None then Some ([UndeclaredDep n d], c)
            else if c d = Gray then Some ([CycleFound (stack @ [d])], c)
            else if c d = White then visit k g d (stack @ [d]) c else Some ([], c)"
  obtain e1 c1 e2 where s: "?first = Some (e1, c1)" "visit_deps k g ds n stack c1 = Some (e2, c')" "errs = e1 @ e2"
    using "4.prems" by (auto split: option.splits)
  have nd: "(n, d) \<in> edges g" using "4.prems" by auto
  have rd: "runnable g d" using runnable_reach [of n d g] nd "4.prems"(2) by auto
  have g: "g d \<noteq> None" using rd by (auto elim: runnableE)
  have ng: "c d \<noteq> Gray"
  proof
    assume "c d = Gray"
    then have "(d, n) \<in> (edges g)\<^sup>*" using "4.prems"(4) by blast
    then have "(d, d) \<in> (edges g)\<^sup>+" using nd by (rule rtrancl_into_trancl1)
    then show False using runnable_no_cycle rd by blast
  qed
  have e1: "e1 = [] \<and> later c c1"
  proof (cases "c d")
    case White
    then have v: "visit k g d (stack @ [d]) c = Some (e1, c1)" using s(1) g by auto
    have "\<forall>m. c m = Gray \<longrightarrow> (m, d) \<in> (edges g)\<^sup>*" using "4.prems"(4) nd by (meson rtrancl.rtrancl_into_rtrancl)
    then show ?thesis using "4.IH"(1) g White v rd visit_colors(1) [OF v White] by auto
  next
    case Black
    then show ?thesis using s(1) g by auto
  qed (use ng in simp)
  then have "\<forall>m. c1 m = Gray \<longrightarrow> (m, n) \<in> (edges g)\<^sup>*" using "4.prems"(4) by (auto simp: later_def)
  then have "e2 = []" using "4.IH"(2) s "4.prems" by auto
  then show ?case using s(3) e1 by simp
qed auto

lemma visit_all_total:
  "finite (dom g) \<Longrightarrow> card (dom g) \<le> k \<Longrightarrow> set ns \<subseteq> dom g \<Longrightarrow> visit_all k g ns c \<noteq> None"
proof (induction ns arbitrary: c)
  case (Cons n ns)
  have "card (whites g c) \<le> k" using Cons.prems card_mono [of "dom g" "whites g c"]
    by (auto simp: whites_def dom_def intro: order_trans)
  then have "visit k g n [n] c \<noteq> None" if "c n = White"
    using visit_fuel(1) [of g n c k "[n]"] Cons.prems that by auto
  then show ?case using Cons by (auto split: option.splits)
qed simp

lemma visit_all_correct:
  assumes "visit_all k g ns c = Some errs" "\<forall>m. c m \<noteq> Gray" "\<forall>m. c m = Black \<longrightarrow> runnable g m" "set ns \<subseteq> dom g"
  shows "errs = [] \<longleftrightarrow> (\<forall>n\<in>set ns. runnable g n)"
  using assms
proof (induction ns arbitrary: c errs)
  case (Cons n ns)
    show ?case
    proof (cases "c n = White")
      case True
      obtain e1 c1 e2 where s: "visit k g n [n] c = Some (e1, c1)" "visit_all k g ns c1 = Some e2" "errs = e1 @ e2"
        using Cons.prems True by (auto split: option.splits)
      have l: "later c c1" "c1 n = Black" using visit_colors(1) [OF s(1) True] by auto
      have ng: "\<forall>m. c1 m \<noteq> Gray" using l(1) Cons.prems by (auto simp: later_def)
      have gn: "g n \<noteq> None" using Cons.prems by auto
      have b: "e1 = [] \<Longrightarrow> \<forall>m. c1 m = Black \<longrightarrow> runnable g m"
        using visit_sound(1) [of k g n "[n]" c c1] s(1) gn True Cons.prems by auto
      have c: "runnable g n \<Longrightarrow> e1 = []"
        using visit_complete(1) [OF s(1) True] Cons.prems by auto
      have sub: "set ns \<subseteq> dom g" using Cons.prems by auto
      show ?thesis
      proof
        assume "errs = []"
        then have e: "e1 = []" "e2 = []" using s(3) by auto
        have "\<forall>m\<in>set ns. runnable g m" using Cons.IH [of c1 e2] s(2) ng b e sub by auto
        then show "\<forall>m\<in>set (n # ns). runnable g m" using b e l(2) by auto
      next
        assume r: "\<forall>m\<in>set (n # ns). runnable g m"
        then have e1: "e1 = []" using c by simp
        have "e2 = []" using Cons.IH [of c1 e2] s(2) ng b e1 sub r by auto
        then show "errs = []" using s(3) e1 by simp
      qed
    next
      case False
      then have "c n = Black" using Cons.prems by (metis color.exhaust)
      then have r: "runnable g n" using Cons.prems by blast
      have v: "visit_all k g ns c = Some errs" using Cons.prems False by auto
      show ?thesis using Cons.IH [of c errs] v r Cons.prems by auto
    qed
qed auto

lemma dom_dep_graph: "dom (dep_graph ss) = fst ` set ss"
  by (auto simp: dep_graph_def dom_def map_of_eq_None_iff)

lemma check_acyclic_total: "\<exists>errs. check_acyclic ss = Some errs"
proof -
  have "card (dom (dep_graph ss)) \<le> length ss"
    unfolding dom_dep_graph by (metis card_image_le card_length finite_set order_trans)
  then show ?thesis
    using visit_all_total [of "dep_graph ss" "length ss" "map fst ss" "\<lambda>_. White"]
    by (auto simp: check_acyclic_def dom_dep_graph)
qed

lemma check_acyclic_iff:
  "check_acyclic ss = Some [] \<longleftrightarrow> (\<forall>n\<in>fst ` set ss. runnable (dep_graph ss) n)"
proof -
  obtain errs where e: "visit_all (length ss) (dep_graph ss) (map fst ss) (\<lambda>_. White) = Some errs"
    using check_acyclic_total [of ss] by (auto simp: check_acyclic_def)
  show ?thesis using visit_all_correct [OF e] e by (auto simp: check_acyclic_def dom_dep_graph)
qed

section \<open>Runnable stages and acyclic graphs\<close>

lemma finite_edges: "finite (dom g) \<Longrightarrow> finite (edges g)"
proof -
  assume f: "finite (dom g)"
  have "edges g \<subseteq> (\<Union>n\<in>dom g. Pair n ` set (the (g n)))" by (force simp: edges_def)
  then show "finite (edges g)" using f by (auto intro: finite_subset)
qed

lemma runnable_iff_acyclic:
  assumes "finite (dom g)"
  shows "dom g \<subseteq> Collect (runnable g) \<longleftrightarrow> acyclic (edges g) \<and> snd ` edges g \<subseteq> dom g"
proof (intro iffI conjI)
  assume r: "dom g \<subseteq> Collect (runnable g)"
  have "(x, x) \<notin> (edges g)\<^sup>+" for x
  proof
    assume c: "(x, x) \<in> (edges g)\<^sup>+"
    then have "x \<in> dom g" by (auto dest!: tranclD simp: edges_def)
    then show False using c r runnable_no_cycle by blast
  qed
  then show "acyclic (edges g)" by (simp add: acyclic_def)
  show "snd ` edges g \<subseteq> dom g"
  proof
    fix d assume "d \<in> snd ` edges g"
    then obtain n where e: "(n, d) \<in> edges g" by auto
    then have "runnable g n" using r by (auto simp: edges_def)
    then have "runnable g d" using e by (auto intro: runnable_reach [of n d])
    then show "d \<in> dom g" by (auto elim: runnableE)
  qed
next
  assume a: "acyclic (edges g) \<and> snd ` edges g \<subseteq> dom g"
  have wf: "wf ((edges g)\<inverse>)"
    using a finite_edges [OF assms] by (simp add: finite_acyclic_wf_converse)
  have "n \<in> dom g \<longrightarrow> runnable g n" for n
  proof (induction n rule: wf_induct_rule [OF wf])
    case (1 n)
    show ?case
    proof
      assume "n \<in> dom g"
      then obtain deps where d: "g n = Some deps" by auto
      have "\<forall>m\<in>set deps. runnable g m"
      proof
        fix m assume m: "m \<in> set deps"
        then have e: "(n, m) \<in> edges g" using d by (auto simp: edges_def)
        then have "m \<in> dom g" using a by (force simp: image_subset_iff)
        then show "runnable g m" using 1 e by auto
      qed
      then show "runnable g n" using runnableI [of g n deps] d by simp
    qed
  qed
  then show "dom g \<subseteq> Collect (runnable g)" by auto
qed

section \<open>Properties\<close>

text \<open>C40. The dependency check of a workflow always returns, and reports nothing exactly when the
  dependency graph of the declared stages has no cycle and names only declared stages.\<close>

theorem acyclic_check_exact:
  "(\<exists>errs. check_acyclic ss = Some errs)
   \<and> (check_acyclic ss = Some [] \<longleftrightarrow>
        acyclic {(n, d). \<exists>s. map_of ss n = Some s \<and> d \<in> set (js_after s)}
      \<and> {d. \<exists>n s. map_of ss n = Some s \<and> d \<in> set (js_after s)} \<subseteq> fst ` set ss)"
proof -
  have e: "edges (dep_graph ss) = {(n, d). \<exists>s. map_of ss n = Some s \<and> d \<in> set (js_after s)}"
    by (auto simp: edges_def dep_graph_def)
  then have s: "snd ` edges (dep_graph ss) = {d. \<exists>n s. map_of ss n = Some s \<and> d \<in> set (js_after s)}"
    by force
  have "check_acyclic ss = Some [] \<longleftrightarrow> dom (dep_graph ss) \<subseteq> Collect (runnable (dep_graph ss))"
    by (auto simp: check_acyclic_iff dom_dep_graph)
  also have "\<dots> \<longleftrightarrow> acyclic (edges (dep_graph ss)) \<and> snd ` edges (dep_graph ss) \<subseteq> fst ` set ss"
    using runnable_iff_acyclic [of "dep_graph ss"] by (simp add: dom_dep_graph)
  finally show ?thesis unfolding e [symmetric] s [symmetric] by (intro conjI check_acyclic_total)
qed

end
