(* ===== verification/WorkflowMeta.thy ===== *)
theory WorkflowMeta
  imports WorkflowSpec RunFold
begin

text \<open>
  The pure state of a workflow controller (\<open>tools/vast/vastlib/workflows/meta.py\<close>): the event
  fold (\<open>fold_workflow_events\<close>), ready-stage selection, the retry decision, the exit codes, the
  heartbeat test (\<open>controller_is_stale\<close>) and the workflow ids. Event objects are decoded as in
  \<open>RunFold\<close>.

  Lemma groups: the fold does not depend on the listing order; a terminal event outranks by rank
  and not by time; on a validated specification the controller always has a stage to run until
  every stage has succeeded; retries are bounded.
\<close>

section \<open>Vocabulary\<close>

definition EVENTS :: "string list" where
  "EVENTS = [''submitted'', ''controller_started'', ''controller_heartbeat'', ''takeover'',
     ''stage_planned'', ''box_acquired'', ''stage_submitted'', ''stage_started'',
     ''artifact_accepted'', ''stage_succeeded'', ''stage_failed'', ''stage_cancelled'',
     ''teardown_started'', ''box_released'',
     ''workflow_succeeded'', ''workflow_failed'', ''workflow_cancelled'']"

definition STAGE_TERMINAL :: "string list" where
  "STAGE_TERMINAL = [''stage_succeeded'', ''stage_failed'', ''stage_cancelled'']"

definition WORKFLOW_TERMINAL :: "string list" where
  "WORKFLOW_TERMINAL = [''workflow_succeeded'', ''workflow_failed'', ''workflow_cancelled'']"

definition CONTROLLER_EVENTS :: "string list" where
  "CONTROLLER_EVENTS = [''controller_started'', ''controller_heartbeat'', ''takeover'']"

definition workflow_terminal_rank :: "string \<Rightarrow> nat" where
  "workflow_terminal_rank e = (if e = ''workflow_failed'' then 3 else if e = ''workflow_succeeded'' then 2
     else if e = ''workflow_cancelled'' then 1 else 0)"

definition stage_terminal_rank :: "string \<Rightarrow> nat" where
  "stage_terminal_rank e = (if e = ''stage_failed'' then 3 else if e = ''stage_succeeded'' then 2
     else if e = ''stage_cancelled'' then 1 else 0)"

definition failure_class_exit_code :: "string option \<Rightarrow> nat" where
  "failure_class_exit_code fc =
     (case fc of
        None \<Rightarrow> 2
      | Some c \<Rightarrow> if c \<in> {''CONFIG_INVALID'', ''ASSET_STALE'', ''IMAGE_DRIFT''} then 1
                  else if c \<in> {''ARTIFACT_INVALID'', ''POSTCONDITION_FAILED''} then 4
                  else if c = ''CREDENTIAL_EXPIRES'' then 5
                  else if c = ''WALL_EXHAUSTED'' then 124 else 2)"

section \<open>Ids\<close>

datatype id_error = WorkflowIdError | TimestampValueError

definition wf_id_char :: "char \<Rightarrow> bool" where
  "wf_id_char c = (let n = of_char c :: nat
     in (65 \<le> n \<and> n \<le> 90) \<or> (97 \<le> n \<and> n \<le> 122) \<or> (48 \<le> n \<and> n \<le> 57)
        \<or> c = CHR ''.'' \<or> c = CHR ''_'' \<or> c = CHR ''-'')"

definition is_wf_id :: "string \<Rightarrow> bool" where
  "is_wf_id s = (let b = chomp s in b \<noteq> [] \<and> length b \<le> 64 \<and> list_all wf_id_char b)"

text \<open>\<open>re.sub(r"[^a-z0-9]+", "-", ...)\<close>: one dash per maximal run of other characters.\<close>

fun dash_runs :: "bool \<Rightarrow> string \<Rightarrow> string" where
  "dash_runs in_run [] = []"
| "dash_runs in_run (c # cs) =
     (if slug_first c then c # dash_runs False cs
      else if in_run then dash_runs True cs
      else CHR ''-'' # dash_runs True cs)"

definition strip_dash :: "string \<Rightarrow> string" where
  "strip_dash s = (let is_dash = (\<lambda>c. c = CHR ''-'')
     in rev (dropWhile is_dash (rev (dropWhile is_dash s))))"

definition is_wf_slug :: "string \<Rightarrow> bool" where
  "is_wf_slug s = slug_body 40 (chomp s)"

definition wf_slugify :: "string \<Rightarrow> id_error + string" where
  "wf_slugify name =
     (let s = take 40 (strip_dash (dash_runs False (py_lower name)))
      in if s = [] \<or> \<not> is_wf_slug s then Inl WorkflowIdError else Inr s)"

definition validate_wf_id :: "string \<Rightarrow> id_error + string" where
  "validate_wf_id s = (if is_wf_id s then Inr s else Inl WorkflowIdError)"

definition mint_wf_id :: "string \<Rightarrow> string \<Rightarrow> string \<Rightarrow> id_error + string" where
  "mint_wf_id name ts nonce4 =
     (case wf_slugify name of
        Inl e \<Rightarrow> Inl e
      | Inr slug \<Rightarrow> validate_wf_id (ts @ ''-'' @ slug @ ''-'' @ nonce4))"

fun show_nat :: "nat \<Rightarrow> string" where
  "show_nat n = (if n < 10 then [char_of (48 + n)] else show_nat (n div 10) @ [char_of (48 + n mod 10)])"

declare show_nat.simps [simp del]

text \<open>\<open>sha256_hex\<close> is the library's digest, a parameter.\<close>

definition stage_job_id :: "(string \<Rightarrow> string) \<Rightarrow> string \<Rightarrow> string \<Rightarrow> nat \<Rightarrow> id_error + string" where
  "stage_job_id sha256_hex workflow_id stage attempt =
     (if \<not> is_wf_id workflow_id then Inl WorkflowIdError
      else if \<not> is_stage_name stage then Inl WorkflowIdError
      else validate_wf_id (take 15 workflow_id @ ''-'' @ take 8 (sha256_hex workflow_id)
                           @ ''-'' @ stage @ ''-a'' @ show_nat attempt))"

section \<open>Timestamps\<close>

text \<open>The pattern first; a field out of its calendar range then raises \<open>ValueError\<close>.\<close>

definition parse_ts :: "string \<Rightarrow> id_error + rat" where
  "parse_ts ts0 =
     (let ts = chomp ts0
      in if \<not> (length ts = 19 \<and> list_all py_isdigit (slice 0 8 ts) \<and> slice 8 1 ts = ''T''
               \<and> list_all py_isdigit (slice 9 9 ts) \<and> slice 18 1 ts = ''Z'')
         then Inl WorkflowIdError
         else (let f = (\<lambda>i n. dflt 0 (parse_nat (slice i n ts)));
                   y = f 0 4; mo = f 4 2; d = f 6 2; h = f 9 2; mi = f 11 2; se = f 13 2; ms = f 15 3
               in if 1 \<le> y \<and> 1 \<le> mo \<and> mo \<le> 12 \<and> 1 \<le> d \<and> int d \<le> days_in_month (int y) (int mo)
                     \<and> h < 24 \<and> mi < 60 \<and> se < 60
                  then Inr (of_int (epoch_days (int y) (int mo) (int d) * 86400
                                    + int h * 3600 + int mi * 60 + int se) + of_nat ms / 1000)
                  else Inl TimestampValueError))"

section \<open>The fold\<close>

record wf_event =
  we_ts :: string
  we_event :: string
  we_workflow_id :: string
  we_nonce :: string
  we_fields :: fields

definition wf_coerce :: "raw_object \<Rightarrow> wf_event option" where
  "wf_coerce raw =
     (case raw of
        Undecodable \<Rightarrow> None
      | Obj f \<Rightarrow>
         (case (str_field f ''ts'', str_field f ''event'', str_field f ''workflow_id'') of
            (Some ts, Some ev, Some wid) \<Rightarrow>
              if ts = [] \<or> ev = [] \<or> wid = [] then None
              else Some \<lparr>we_ts = ts, we_event = ev, we_workflow_id = wid,
                         we_nonce = dflt [] (str_field f ''nonce''), we_fields = f\<rparr>
          | _ \<Rightarrow> None))"

definition wf_key :: "wf_event \<Rightarrow> string \<times> string" where
  "wf_key e = (we_ts e, we_nonce e)"

definition we_field :: "string \<Rightarrow> wf_event \<Rightarrow> jval option" where
  "we_field k e = (case we_fields e k of Some JNull \<Rightarrow> None | v \<Rightarrow> v)"

definition we_attempt :: "wf_event \<Rightarrow> rat option" where
  "we_attempt e = (case we_fields e ''attempt'' of
     Some (JInt i) \<Rightarrow> Some (of_int i) | Some (JFloat x) \<Rightarrow> Some x | _ \<Rightarrow> None)"

text \<open>The stage an event belongs to; names are strings.\<close>

definition we_stage :: "wf_event \<Rightarrow> string option" where
  "we_stage e = (case str_field (we_fields e) ''stage'' of Some [] \<Rightarrow> None | s \<Rightarrow> s)"

record stage_view =
  sv_status :: "string option"
  sv_attempt :: "rat option"
  sv_attempts_seen :: nat
  sv_job_id :: "jval option"
  sv_instance_id :: "jval option"
  sv_box_acquired_ts :: "string option"
  sv_failure_class :: "jval option"

record wf_view =
  wv_workflow_id :: "string option"
  wv_status :: string
  wv_terminal :: bool
  wv_failure_class :: "jval option"
  wv_n_events :: nat
  wv_parse_errors :: nat
  wv_unknown_events :: nat
  wv_actor :: "jval option"
  wv_started_ts :: "string option"
  wv_last_heartbeat_ts :: "string option"
  wv_stages :: "string \<rightharpoonup> stage_view"

text \<open>Python's \<open>max(xs, key=...)\<close>: the first element of greatest key.\<close>

fun max_by :: "('a \<Rightarrow> nat) \<Rightarrow> 'a \<Rightarrow> 'a list \<Rightarrow> 'a" where
  "max_by k x [] = x"
| "max_by k x (y # ys) = max_by k (if k x < k y then y else x) ys"

definition best_terminal :: "(string \<Rightarrow> nat) \<Rightarrow> string list \<Rightarrow> wf_event list \<Rightarrow> wf_event option" where
  "best_terminal rank names evs =
     (case filter (\<lambda>e. we_event e \<in> set names) evs of
        [] \<Rightarrow> None | e # es \<Rightarrow> Some (max_by (rank \<circ> we_event) e es))"

definition last_truthy :: "string \<Rightarrow> wf_event list \<Rightarrow> jval option" where
  "last_truthy k evs = Option.bind (find_last (\<lambda>e. truthy (we_fields e k)) evs) (\<lambda>e. we_fields e k)"

definition current_events :: "wf_event list \<Rightarrow> wf_event list" where
  "current_events s_evs =
     (case max_opt (List.map_filter we_attempt s_evs) of
        None \<Rightarrow> s_evs | Some a \<Rightarrow> filter (\<lambda>e. we_attempt e = Some a) s_evs)"

definition stage_status :: "wf_event list \<Rightarrow> string option" where
  "stage_status cur =
     (case best_terminal stage_terminal_rank STAGE_TERMINAL cur of
        Some e \<Rightarrow> Some (we_event e)
      | None \<Rightarrow> find (\<lambda>n. list_ex (\<lambda>e. we_event e = n) cur)
                  [''stage_started'', ''stage_submitted'', ''box_acquired'', ''stage_planned''])"

definition fold_stage :: "wf_event list \<Rightarrow> stage_view" where
  "fold_stage s_evs =
     (let attempts = List.map_filter we_attempt s_evs;
          cur = current_events s_evs
      in \<lparr>sv_status = stage_status cur,
          sv_attempt = max_opt attempts,
          sv_attempts_seen = (if attempts = [] then (if s_evs = [] then 0 else 1) else card (set attempts)),
          sv_job_id = last_truthy ''job_id'' cur,
          sv_instance_id = last_truthy ''instance_id'' cur,
          sv_box_acquired_ts = map_option we_ts (find_last (\<lambda>e. we_event e = ''box_acquired'') cur),
          sv_failure_class = Option.bind (best_terminal stage_terminal_rank STAGE_TERMINAL cur)
                               (we_field ''failure_class'')\<rparr>)"

definition stage_events :: "string \<Rightarrow> wf_event list \<Rightarrow> wf_event list" where
  "stage_events stage evs = filter (\<lambda>e. we_stage e = Some stage) evs"

definition workflow_status :: "wf_event list \<Rightarrow> string" where
  "workflow_status evs =
     (case best_terminal workflow_terminal_rank WORKFLOW_TERMINAL evs of
        Some e \<Rightarrow> if we_event e = ''workflow_succeeded'' then ''succeeded''
                  else if we_event e = ''workflow_failed'' then ''failed'' else ''cancelled''
      | None \<Rightarrow>
          if list_ex (\<lambda>e. we_stage e \<noteq> None) evs
             \<or> list_ex (\<lambda>e. we_event e \<in> {''teardown_started'', ''box_released''}) evs then ''running''
          else if list_ex (\<lambda>e. we_event e = ''submitted'') evs then ''submitted''
          else ''unknown'')"

definition fold_wf_ordered :: "nat \<Rightarrow> wf_event list \<Rightarrow> wf_view" where
  "fold_wf_ordered errs evs =
     (let ctrl = filter (\<lambda>e. we_event e \<in> set CONTROLLER_EVENTS) evs;
          best = best_terminal workflow_terminal_rank WORKFLOW_TERMINAL evs
      in \<lparr>wv_workflow_id = (if evs = [] then None else Some (we_workflow_id (last evs))),
          wv_status = workflow_status evs,
          wv_terminal = (best \<noteq> None),
          wv_failure_class = Option.bind best (we_field ''failure_class''),
          wv_n_events = length evs, wv_parse_errors = errs,
          wv_unknown_events = length (filter (\<lambda>e. we_event e \<notin> set EVENTS) evs),
          wv_actor = (if ctrl = [] then None else we_field ''actor'' (last ctrl)),
          wv_started_ts = (if ctrl = [] then None
             else map_option we_ts (find_last (\<lambda>e. we_event e \<in> {''controller_started'', ''takeover''}) evs)),
          wv_last_heartbeat_ts = (if ctrl = [] then None else Some (we_ts (last ctrl))),
          wv_stages = (\<lambda>n. if stage_events n evs = [] then None else Some (fold_stage (stage_events n evs)))\<rparr>)"

definition fold_workflow_events :: "raw_object list \<Rightarrow> wf_view" where
  "fold_workflow_events raws =
     fold_wf_ordered (length (filter (\<lambda>r. wf_coerce r = None) raws))
       (sort_key wf_key (List.map_filter wf_coerce raws))"

section \<open>The controller's decisions\<close>

definition stage_status_of :: "wf_view \<Rightarrow> string \<Rightarrow> string option" where
  "stage_status_of view n = Option.bind (wv_stages view n) sv_status"

definition ready_stages :: "workflow \<Rightarrow> wf_view \<Rightarrow> string list" where
  "ready_stages w view =
     map js_name (filter (\<lambda>s. stage_status_of view (js_name s) = None
        \<and> list_all (\<lambda>d. stage_status_of view d = Some ''stage_succeeded'') (js_after s)) (wf_stages w))"

definition next_ready_stage :: "workflow \<Rightarrow> wf_view \<Rightarrow> string option" where
  "next_ready_stage w view = (case ready_stages w view of [] \<Rightarrow> None | n # _ \<Rightarrow> Some n)"

definition decide_retry :: "job_stage \<Rightarrow> int \<Rightarrow> string \<Rightarrow> bool" where
  "decide_retry s attempts_used failure_class =
     (attempts_used < rt_max_attempts (js_retry s) \<and> failure_class \<in> set (rt_retry_on (js_retry s)))"

text \<open>\<open>now\<close> must parse; a heartbeat that fails the pattern is stale.\<close>

definition controller_is_stale :: "wf_view \<Rightarrow> string \<Rightarrow> secs \<Rightarrow> id_error + bool" where
  "controller_is_stale view now stale_after_s =
     (case wv_last_heartbeat_ts view of
        None \<Rightarrow> Inr True
      | Some hb \<Rightarrow>
          if hb = [] then Inr True
          else (case parse_ts now of
                  Inl e \<Rightarrow> Inl e
                | Inr n \<Rightarrow>
                    (case parse_ts hb of
                       Inl WorkflowIdError \<Rightarrow> Inr True
                     | Inl TimestampValueError \<Rightarrow> Inl TimestampValueError
                     | Inr l \<Rightarrow> Inr (stale_after_s < n - l))))"

section \<open>The fold: order and precedence\<close>

interpretation wfm: event_fold fold_workflow_events wf_coerce wf_key fold_wf_ordered
  by unfold_locales (simp add: fold_workflow_events_def)

lemma max_by_in: "max_by k x xs \<in> set (x # xs)"
  by (induction k x xs rule: max_by.induct) auto

lemma max_by_ge: "y \<in> set (x # xs) \<Longrightarrow> k y \<le> k (max_by k x xs)"
proof (induction k x xs arbitrary: y rule: max_by.induct)
  case (1 k x)
  then show ?case by simp
next
  case (2 k x z zs)
  have hd: "k (if k x < k z then z else x) \<le> k (max_by k (if k x < k z then z else x) zs)"
    by (rule "2.IH") simp
  from "2.prems" consider "y = x" | "y = z" | "y \<in> set zs" by auto
  then show ?case
  proof cases
    case 3
    then show ?thesis using "2.IH" [of y] by simp
  qed (use hd in \<open>auto split: if_splits\<close>)
qed

lemma best_terminal_None:
  "best_terminal rank names evs = None \<longleftrightarrow> (\<forall>e\<in>set evs. we_event e \<notin> set names)"
proof -
  have "best_terminal rank names evs = None \<longleftrightarrow> filter (\<lambda>e. we_event e \<in> set names) evs = []"
    by (simp add: best_terminal_def split: list.split)
  then show ?thesis by (simp add: filter_empty_conv)
qed

lemma best_terminal_Some:
  assumes "best_terminal rank names evs = Some b"
  shows "b \<in> set evs" "we_event b \<in> set names"
    "\<And>e. e \<in> set evs \<Longrightarrow> we_event e \<in> set names \<Longrightarrow> rank (we_event e) \<le> rank (we_event b)"
proof -
  obtain e es where f: "filter (\<lambda>e. we_event e \<in> set names) evs = e # es" "b = max_by (rank \<circ> we_event) e es"
    using assms by (auto simp: best_terminal_def split: list.splits)
  have mem: "set (e # es) = {e \<in> set evs. we_event e \<in> set names}" using f(1) by (metis set_filter)
  have "b \<in> set (e # es)" using f(2) max_by_in by metis
  then show "b \<in> set evs" "we_event b \<in> set names" unfolding mem by simp_all
  show "rank (we_event x) \<le> rank (we_event b)" if "x \<in> set evs" "we_event x \<in> set names" for x
  proof -
    have "x \<in> set (e # es)" unfolding mem using that by simp
    then show ?thesis using max_by_ge [of x e es "rank \<circ> we_event"] f(2) by simp
  qed
qed

lemma workflow_status_active:
  assumes "best_terminal workflow_terminal_rank WORKFLOW_TERMINAL evs = None"
  shows "workflow_status evs \<in> {''running'', ''submitted'', ''unknown''}"
    "e \<in> set evs \<Longrightarrow> we_event e \<notin> {''workflow_succeeded'', ''workflow_failed'', ''workflow_cancelled''}"
proof -
  show "workflow_status evs \<in> {''running'', ''submitted'', ''unknown''}"
    by (simp add: workflow_status_def assms)
  show "e \<in> set evs \<Longrightarrow> we_event e \<notin> {''workflow_succeeded'', ''workflow_failed'', ''workflow_cancelled''}"
    using assms by (auto simp: best_terminal_None WORKFLOW_TERMINAL_def)
qed

lemma workflow_status_ended:
  assumes "best_terminal workflow_terminal_rank WORKFLOW_TERMINAL evs = Some b"
  shows "workflow_status evs = (if we_event b = ''workflow_succeeded'' then ''succeeded''
                  else if we_event b = ''workflow_failed'' then ''failed'' else ''cancelled'')"
    "we_event b \<in> {''workflow_succeeded'', ''workflow_failed'', ''workflow_cancelled''}"
proof -
  show "workflow_status evs = (if we_event b = ''workflow_succeeded'' then ''succeeded''
                  else if we_event b = ''workflow_failed'' then ''failed'' else ''cancelled'')"
    by (simp add: workflow_status_def assms)
  show "we_event b \<in> {''workflow_succeeded'', ''workflow_failed'', ''workflow_cancelled''}"
    using best_terminal_Some(2) [OF assms] by (simp add: WORKFLOW_TERMINAL_def)
qed

lemma workflow_status_failed:
  "workflow_status evs = ''failed'' \<longleftrightarrow> (\<exists>e\<in>set evs. we_event e = ''workflow_failed'')"
proof (cases "best_terminal workflow_terminal_rank WORKFLOW_TERMINAL evs")
  case None
  then show ?thesis using workflow_status_active [OF None] by fastforce
next
  case (Some b)
  note b = best_terminal_Some [OF Some]
  have "workflow_status evs = ''failed'' \<longleftrightarrow> we_event b = ''workflow_failed''"
    using workflow_status_ended [OF Some] by auto
  also have "\<dots> \<longleftrightarrow> (\<exists>e\<in>set evs. we_event e = ''workflow_failed'')"
  proof
    assume "\<exists>e\<in>set evs. we_event e = ''workflow_failed''"
    then have "3 \<le> workflow_terminal_rank (we_event b)"
      using b(3) by (fastforce simp: WORKFLOW_TERMINAL_def workflow_terminal_rank_def)
    then show "we_event b = ''workflow_failed''"
      by (auto simp: workflow_terminal_rank_def split: if_splits)
  qed (use b(1) in blast)
  finally show ?thesis .
qed

lemma workflow_status_succeeded:
  "workflow_status evs = ''succeeded'' \<longleftrightarrow>
     (\<exists>e\<in>set evs. we_event e = ''workflow_succeeded'') \<and> (\<forall>e\<in>set evs. we_event e \<noteq> ''workflow_failed'')"
proof (cases "best_terminal workflow_terminal_rank WORKFLOW_TERMINAL evs")
  case None
  then show ?thesis using workflow_status_active [OF None] by fastforce
next
  case (Some b)
  note b = best_terminal_Some [OF Some]
  have eq: "workflow_status evs = ''succeeded'' \<longleftrightarrow> we_event b = ''workflow_succeeded''"
    using workflow_status_ended [OF Some] by auto
  show ?thesis
  proof
    assume "workflow_status evs = ''succeeded''"
    then have be: "we_event b = ''workflow_succeeded''" using eq by simp
    have "we_event e \<noteq> ''workflow_failed''" if "e \<in> set evs" for e
      using b(3) [OF that] be by (auto simp: WORKFLOW_TERMINAL_def workflow_terminal_rank_def)
    then show "(\<exists>e\<in>set evs. we_event e = ''workflow_succeeded'') \<and> (\<forall>e\<in>set evs. we_event e \<noteq> ''workflow_failed'')"
      using b(1) be by blast
  next
    assume h: "(\<exists>e\<in>set evs. we_event e = ''workflow_succeeded'') \<and> (\<forall>e\<in>set evs. we_event e \<noteq> ''workflow_failed'')"
    then have "2 \<le> workflow_terminal_rank (we_event b)"
      using b(3) by (fastforce simp: WORKFLOW_TERMINAL_def workflow_terminal_rank_def)
    then have "we_event b = ''workflow_failed'' \<or> we_event b = ''workflow_succeeded''"
      by (auto simp: workflow_terminal_rank_def split: if_splits)
    then show "workflow_status evs = ''succeeded''" using eq h b(1) by blast
  qed
qed

lemma fold_wf_status [simp]: "wv_status (fold_wf_ordered errs evs) = workflow_status evs"
  by (simp add: fold_wf_ordered_def Let_def)

lemma fold_status_events:
  "wv_status (fold_workflow_events raws) = ''failed'' \<longleftrightarrow>
     (\<exists>e\<in>set (List.map_filter wf_coerce raws). we_event e = ''workflow_failed'')"
  by (simp add: fold_workflow_events_def workflow_status_failed)

section \<open>Progress of the controller\<close>

text \<open>
  What the controller needs of the validator: every stage of an accepted table can run. Then,
  as long as some stage is not done, one of them has all its dependencies done.
\<close>

locale dependency_gate =
  fixes accepts :: "(string \<times> job_stage) list \<Rightarrow> bool"
  assumes accepted_runnable: "accepts ss \<Longrightarrow> n \<in> fst ` set ss \<Longrightarrow> runnable (dep_graph ss) n"
begin

lemma next_undone:
  assumes "accepts ss" "n \<in> fst ` set ss" "n \<notin> finished"
  shows "\<exists>m s. map_of ss m = Some s \<and> m \<notin> finished \<and> set (js_after s) \<subseteq> finished"
proof -
  have "runnable (dep_graph ss) n" using assms(1,2) by (rule accepted_runnable)
  then show ?thesis using assms(3)
  proof (induction rule: runnable.induct)
    case (runnableI n deps)
    then obtain s where s: "map_of ss n = Some s" "deps = js_after s"
      by (auto simp: dep_graph_def)
    show ?case
    proof (cases "set deps \<subseteq> finished")
      case True
      then show ?thesis using s runnableI.prems by blast
    next
      case False
      then show ?thesis using runnableI.IH by blast
    qed
  qed
qed

end

interpretation vg: dependency_gate "\<lambda>ss. check_acyclic ss = Some []"
  by unfold_locales (auto simp: check_acyclic_iff)

lemma first_by_name_names:
  "set (map js_name ss) \<subseteq> set (map js_name (first_by_name ss seen)) \<union> set seen"
proof (induction ss arbitrary: seen)
  case (Cons s ss)
  then show ?case using Cons [of seen] Cons [of "js_name s # seen"] by auto
qed simp

lemma first_by_name_sub: "set (first_by_name ss seen) \<subseteq> set ss"
proof (induction ss arbitrary: seen)
  case (Cons s ss)
  then show ?case using Cons [of seen] Cons [of "js_name s # seen"] by auto
qed simp

lemma stages_by_name_names: "fst ` set (stages_by_name ss) = js_name ` set ss"
proof -
  have "fst ` set (stages_by_name ss) = js_name ` set (first_by_name ss [])"
    by (simp add: stages_by_name_def image_image)
  moreover have "js_name ` set ss \<subseteq> js_name ` set (first_by_name ss [])"
    using first_by_name_names [of ss "[]"] by simp
  moreover have "js_name ` set (first_by_name ss []) \<subseteq> js_name ` set ss"
    using first_by_name_sub by (rule image_mono)
  ultimately show ?thesis by auto
qed

lemma stages_by_name_stage:
  "map_of (stages_by_name ss) n = Some s \<Longrightarrow> s \<in> set ss \<and> js_name s = n"
  using first_by_name_sub [of ss "[]"] by (auto simp: stages_by_name_def dest!: map_of_SomeD)

lemma validate_acyclic:
  "validate_workflow_spec w rec = Some [] \<Longrightarrow> check_acyclic (stages_by_name (wf_stages w)) = Some []"
  by (auto simp: validate_workflow_spec_def Let_def)

lemma ready_progress:
  assumes valid: "validate_workflow_spec w rec = Some []"
    and s: "s \<in> set (wf_stages w)" "stage_status_of view (js_name s) = None"
    and attempted: "\<And>t. t \<in> set (wf_stages w) \<Longrightarrow> stage_status_of view (js_name t) \<in> {None, Some ''stage_succeeded''}"
  shows "ready_stages w view \<noteq> []"
proof -
  let ?ss = "stages_by_name (wf_stages w)"
  let ?finished = "{n. stage_status_of view n = Some ''stage_succeeded''}"
  have n: "js_name s \<in> fst ` set ?ss" using s(1) by (simp add: stages_by_name_names)
  obtain m t where t: "map_of ?ss m = Some t" "m \<notin> ?finished" "set (js_after t) \<subseteq> ?finished"
    using vg.next_undone [OF validate_acyclic [OF valid] n, of ?finished] s(2) by auto
  have tm: "t \<in> set (wf_stages w)" "js_name t = m" using stages_by_name_stage [OF t(1)] by auto
  have "stage_status_of view (js_name t) = None" using attempted [OF tm(1)] t(2) tm(2) by auto
  moreover have "list_all (\<lambda>d. stage_status_of view d = Some ''stage_succeeded'') (js_after t)"
    using t(3) by (auto simp: list_all_iff)
  ultimately have "js_name t \<in> set (ready_stages w view)" using tm(1) by (auto simp: ready_stages_def)
  then show ?thesis by auto
qed

section \<open>A small workflow\<close>

definition sample_stage :: "string \<Rightarrow> string list \<Rightarrow> job_stage" where
  "sample_stage n deps = \<lparr>js_name = n, js_bundle = ''b'', js_profile = ''p'', js_after = deps, js_inputs = [],
     js_outputs = [], js_retry = \<lparr>rt_max_attempts = 1, rt_retry_on = []\<rparr>, js_secrets = []\<rparr>"

definition sample_workflow :: workflow where
  "sample_workflow = \<lparr>wf_version = 1, wf_name = ''w'', wf_budget_usd = 1, wf_max_wall_s = 60, wf_teardown = ''stop'',
     wf_profiles = [(''p'', \<lparr>rp_image = ''i'', rp_image_digest = None, rp_gpu = [], rp_num_gpus = 1,
        rp_gpu_ram_gb = None, rp_disk_gb = None, rp_rental = ''bid'', rp_max_bid = None, rp_budget_usd = 1,
        rp_max_wall_s = 60, rp_geo = []\<rparr>)],
     wf_stages = [sample_stage ''eval'' [''train''], sample_stage ''train'' [''prep''], sample_stage ''prep'' []]\<rparr>"

lemma sample_valid: "validate_workflow_spec sample_workflow False = Some []"
  by code_simp

section \<open>The status of a workflow\<close>

text \<open>A workflow's folded status is a matter of rank, not of time: it is \<open>failed\<close> exactly when some
  event says so, \<open>succeeded\<close> exactly when some event says so and none says failed, and neither the
  order of the listing nor an undecodable object changes it.\<close>

lemma workflow_status_by_rank:
  "(wv_status (fold_workflow_events raws) = ''failed'' \<longleftrightarrow>
       ''workflow_failed'' \<in> we_event ` set (List.map_filter wf_coerce raws))
   \<and> (wv_status (fold_workflow_events raws) = ''succeeded'' \<longleftrightarrow>
       ''workflow_succeeded'' \<in> we_event ` set (List.map_filter wf_coerce raws)
       \<and> ''workflow_failed'' \<notin> we_event ` set (List.map_filter wf_coerce raws))"
proof -
  have image: "n \<in> f ` A \<longleftrightarrow> (\<exists>e\<in>A. f e = n)" for n f A by auto
  show ?thesis unfolding image
    by (simp add: fold_workflow_events_def workflow_status_failed workflow_status_succeeded)
qed

text \<open>The code calls a corrupt heartbeat stale, but only one that fails the pattern: a heartbeat in
  month 13 raises.\<close>

lemma corrupt_heartbeat_raises:
  "controller_is_stale ((fold_workflow_events [])\<lparr>wv_last_heartbeat_ts := Some ''20261301T000000000Z''\<rparr>)
     ''20260101T000000000Z'' 600 = Inl TimestampValueError
   \<and> controller_is_stale ((fold_workflow_events [])\<lparr>wv_last_heartbeat_ts := Some ''corrupt''\<rparr>)
     ''20260101T000000000Z'' 600 = Inr True"
  by code_simp

end
