(* ===== verification/JobFold.thy ===== *)
theory JobFold
  imports RunFold
begin

text \<open>
  The job-event fold of \<open>tools/vast/jobmeta.py\<close>. A job is an append-only log of immutable
  events; \<open>fold_events\<close> turns an unordered listing of them into the view every reader uses:
  status, whose queue holds the ticket, where the job runs, attempts, interruptions, results.

  Lemma groups: the view does not depend on the listing order; the set-based status rules with
  their ordering exceptions are the run of a small state machine over the sorted log; what a
  requeue re-opens and what it cannot; the ticket's box after a move; the attempt counters.
  The box-event fold and the dating of DONE markers close the file.
\<close>

section \<open>Events\<close>

record job_event =
  je_ts :: string
  je_event :: string
  je_job_id :: string
  je_nonce :: string
  je_fields :: fields

definition JOB_TERMINAL :: "string list" where
  "JOB_TERMINAL = [''done'', ''failed'', ''cancelled'']"

text \<open>As in the run fold, the core keys are strings when present, which every emitter writes.\<close>

definition job_coerce :: "raw_object \<Rightarrow> job_event option" where
  "job_coerce raw =
     (case raw of
        Undecodable \<Rightarrow> None
      | Obj f \<Rightarrow>
         (case (str_field f ''ts'', str_field f ''event'', str_field f ''job_id'') of
            (Some ts, Some ev, Some jid) \<Rightarrow>
              if ts = [] \<or> ev = [] \<or> jid = [] then None
              else Some \<lparr>je_ts = ts, je_event = ev, je_job_id = jid,
                         je_nonce = dflt [] (str_field f ''nonce''), je_fields = f\<rparr>
          | _ \<Rightarrow> None))"

definition ev_order :: "job_event \<Rightarrow> string \<times> string" where
  "ev_order e = (je_ts e, je_nonce e)"

definition job_is :: "string \<Rightarrow> job_event \<Rightarrow> bool" where
  "job_is n e = (je_event e = n)"

definition job_in :: "string list \<Rightarrow> job_event \<Rightarrow> bool" where
  "job_in ns e = (je_event e \<in> set ns)"

text \<open>\<open>e.get(k)\<close>: a missing key and a JSON null are both \<open>None\<close>.\<close>

definition job_get :: "string \<Rightarrow> job_event \<Rightarrow> jval option" where
  "job_get k e = (case je_fields e k of Some JNull \<Rightarrow> None | v \<Rightarrow> v)"

definition has_field :: "string \<Rightarrow> job_event \<Rightarrow> bool" where
  "has_field k e = truthy (job_get k e)"

text \<open>The key of the newest event a test selects, \<open>max(..., default=None)\<close>.\<close>

definition newest_order :: "(job_event \<Rightarrow> bool) \<Rightarrow> job_event list \<Rightarrow> (string \<times> string) option" where
  "newest_order P evs =
     (case filter P evs of [] \<Rightarrow> None | x # xs \<Rightarrow> Some (foldr max (map ev_order xs) (ev_order x)))"

definition last_ev :: "(job_event \<Rightarrow> bool) \<Rightarrow> job_event list \<Rightarrow> job_event option" where
  "last_ev P evs = find_last P evs"

section \<open>Status\<close>

definition status_lattice :: "string set \<Rightarrow> string" where
  "status_lattice types =
     (if ''failed'' \<in> types then ''failed''
      else if ''done'' \<in> types then ''done''
      else if ''cancelled'' \<in> types then ''cancelled''
      else if ''started'' \<in> types then ''started''
      else if ''claimed'' \<in> types then ''claimed''
      else if ''submitted'' \<in> types then ''submitted''
      else ''unknown'')"

definition fold_status :: "job_event list \<Rightarrow> string" where
  "fold_status evs =
     (let types = set (map je_event evs)
      in if ''failed'' \<in> types \<and> ''done'' \<in> types
         then (if the (newest_order (job_is ''failed'') evs) < the (newest_order (job_is ''done'') evs)
               then ''done'' else ''failed'')
         else status_lattice types)"

text \<open>The order key of the \<open>resumed\<close> that re-opens a failed job, if there is one.\<close>

definition reopen_order :: "job_event list \<Rightarrow> (string \<times> string) option" where
  "reopen_order evs =
     (if set (map je_event evs) \<inter> set JOB_TERMINAL = {''failed''}
      then (case (newest_order (job_is ''failed'') evs, newest_order (job_is ''resumed'') evs) of
              (Some f, Some r) \<Rightarrow> if f < r then Some r else None
            | _ \<Rightarrow> None)
      else None)"

definition job_status :: "job_event list \<Rightarrow> string" where
  "job_status evs =
     (case reopen_order evs of
        None \<Rightarrow> fold_status evs
      | Some r \<Rightarrow> (let s = fold_status (filter (\<lambda>e. r \<le> ev_order e) evs)
                  in if s = ''unknown'' then ''submitted'' else s))"

definition job_reopened :: "job_event list \<Rightarrow> bool" where
  "job_reopened evs \<longleftrightarrow> reopen_order evs \<noteq> None \<and> job_status evs \<notin> set JOB_TERMINAL"

section \<open>Placement\<close>

text \<open>The events that moved the ticket to another box's queue.\<close>

definition ticket_moves :: "job_event list \<Rightarrow> job_event list" where
  "ticket_moves evs = filter (\<lambda>e. has_field ''box'' e \<and> job_in [''retargeted'', ''resumed''] e) evs"

definition last_opt :: "'a list \<Rightarrow> 'a option" where
  "last_opt xs = (if xs = [] then None else Some (last xs))"

definition first_ev :: "string \<Rightarrow> job_event list \<Rightarrow> job_event option" where
  "first_ev n evs = find (job_is n) evs"

definition fold_target_box :: "job_event list \<Rightarrow> jval option" where
  "fold_target_box evs =
     (case last_opt (ticket_moves evs) of
        Some e \<Rightarrow> job_get ''box'' e
      | None \<Rightarrow> Option.bind (first_ev ''submitted'' evs) (job_get ''box''))"

definition fold_retargeted_from :: "job_event list \<Rightarrow> jval option" where
  "fold_retargeted_from evs =
     Option.bind (last_opt (ticket_moves evs)) (\<lambda>e.
       if has_field ''from_box'' e \<and> job_get ''from_box'' e \<noteq> Some (JStr ''-'')
       then job_get ''from_box'' e else None)"

definition box_events :: "job_event list \<Rightarrow> job_event list" where
  "box_events evs =
     filter (\<lambda>e. job_in [''claimed'', ''started'', ''heartbeat''] e \<and> has_field ''instance_id'' e
                 \<and> (case last_opt (ticket_moves evs) of None \<Rightarrow> True | Some m \<Rightarrow> je_ts m \<le> je_ts e)) evs"

definition job_instance_id :: "job_event list \<Rightarrow> jval option" where
  "job_instance_id evs =
     (let base = Option.bind (last_opt (box_events evs)) (job_get ''instance_id'')
      in case last_opt (filter (job_is ''resumed'') evs) of
           None \<Rightarrow> base
         | Some r \<Rightarrow> if has_field ''instance_id'' r then job_get ''instance_id'' r else base)"

section \<open>Attempts and interruptions\<close>

definition preempt_resume :: "job_event \<Rightarrow> bool" where
  "preempt_resume e \<longleftrightarrow> job_is ''resumed'' e \<and> job_get ''kind'' e = Some (JStr ''preempt'')"

definition fold_attempts :: "job_event list \<Rightarrow> int" where
  "fold_attempts evs =
     (let starts = filter (job_is ''started'') evs;
          n = int (length starts) - int (length (filter preempt_resume evs))
      in if starts = [] then n else max n 1)"

definition pending_preempted :: "job_event list \<Rightarrow> job_event list" where
  "pending_preempted evs =
     filter (\<lambda>e. job_is ''preempted'' e
                 \<and> (case newest_order preempt_resume evs of None \<Rightarrow> True | Some r \<Rightarrow> r < ev_order e)) evs"

definition fold_n_preempted :: "job_event list \<Rightarrow> nat" where
  "fold_n_preempted evs = length (filter preempt_resume evs) + length (pending_preempted evs)"

section \<open>Outcome\<close>

text \<open>Does a \<open>done\<close> newer than every \<open>failed\<close> speak for the job?\<close>

definition done_newer :: "job_event list \<Rightarrow> bool" where
  "done_newer evs =
     (case (newest_order (job_is ''done'') evs, newest_order (job_is ''failed'') evs) of
        (None, _) \<Rightarrow> False
      | (Some d, None) \<Rightarrow> True
      | (Some d, Some f) \<Rightarrow> f < d)"

text \<open>\<open>str(x)\<close> of a scalar is the parameter \<open>show\<close>; a box actor is \<open>box:<iid>\<close>.\<close>

definition terminal_box :: "(jval \<Rightarrow> string) \<Rightarrow> job_event \<Rightarrow> string option" where
  "terminal_box show_v e =
     (if has_field ''instance_id'' e then Some (show_v (the (job_get ''instance_id'' e)))
      else if has_field ''actor'' e \<and> starts_with ''box:'' (show_v (the (job_get ''actor'' e)))
           \<and> drop 4 (show_v (the (job_get ''actor'' e))) \<noteq> []
      then Some (drop 4 (show_v (the (job_get ''actor'' e))))
      else None)"

definition terminal_boxes :: "(jval \<Rightarrow> string) \<Rightarrow> job_event list \<Rightarrow> string list" where
  "terminal_boxes show_v evs =
     sort (remdups (List.map_filter (terminal_box show_v) (filter (job_in JOB_TERMINAL) evs)))"

text \<open>The outcome fields before a re-opening moves them aside: rc, reason, and the prior pair.\<close>

record outcome =
  oc_rc :: "rat option"
  oc_reason :: "jval option"
  oc_prior_rc :: "rat option"
  oc_prior_reason :: "jval option"

definition last_num :: "string \<Rightarrow> job_event option \<Rightarrow> rat option" where
  "last_num k e = Option.bind e (\<lambda>e. num (job_get k e))"

definition closed_outcome :: "job_event list \<Rightarrow> outcome" where
  "closed_outcome evs =
     (let f = last_ev (job_is ''failed'') evs; d = last_ev (job_is ''done'') evs;
          c = last_ev (job_is ''cancelled'') evs; dn = done_newer evs;
          rc0 = (if f \<noteq> None \<and> \<not> dn then last_num ''rc'' f else if dn then last_num ''rc'' d else None);
          fr0 = (if f \<noteq> None \<and> \<not> dn then Option.bind f (job_get ''reason'') else None);
          cw = (job_status evs = ''cancelled'' \<and> c \<noteq> None)
      in \<lparr>oc_rc = (if cw \<and> rc0 = None then last_num ''rc'' c else rc0),
          oc_reason = (if cw then Option.bind c (job_get ''reason'') else fr0),
          oc_prior_rc = (if dn \<and> f \<noteq> None then last_num ''rc'' f else None),
          oc_prior_reason = (if dn \<and> f \<noteq> None then Option.bind f (job_get ''reason'') else None)\<rparr>)"

definition fold_outcome :: "job_event list \<Rightarrow> outcome" where
  "fold_outcome evs =
     (let o1 = closed_outcome evs
      in if job_reopened evs
         then \<lparr>oc_rc = None, oc_reason = None, oc_prior_rc = oc_rc o1, oc_prior_reason = oc_reason o1\<rparr>
         else o1)"

text \<open>The log tail: the newest heartbeat's, unless a standing failure carries one that no later
  heartbeat supersedes.\<close>

definition fold_tail :: "job_event list \<Rightarrow> jval option" where
  "fold_tail evs =
     (let hb = last_ev (job_is ''heartbeat'') evs; f = last_ev (job_is ''failed'') evs;
          base = Option.bind hb (job_get ''tail'')
      in case f of
           None \<Rightarrow> base
         | Some fe \<Rightarrow>
             if \<not> done_newer evs \<and> has_field ''tail'' fe
                \<and> \<not> (case hb of None \<Rightarrow> False | Some h \<Rightarrow> je_ts fe < je_ts h)
             then job_get ''tail'' fe else base)"

definition fold_results :: "job_event list \<Rightarrow> jval option" where
  "fold_results evs =
     Option.bind (last_ev (\<lambda>e. job_in [''results_uploaded'', ''done''] e \<and> job_get ''results'' e \<noteq> None) evs)
       (job_get ''results'')"

text \<open>The newest heartbeat with host metrics that belongs to the box the job is on.\<close>

definition metric_beat :: "job_event list \<Rightarrow> job_event option" where
  "metric_beat evs =
     last_ev (\<lambda>e. job_is ''heartbeat'' e \<and> has_field ''host_metrics'' e
                  \<and> (job_instance_id evs = None \<or> job_get ''instance_id'' e = job_instance_id evs)) evs"

section \<open>The view\<close>

record job_view =
  jv_job_id :: "string option"
  jv_status :: string
  jv_display_status :: string
  jv_live :: bool
  jv_instance_id :: "jval option"
  jv_target_box :: "jval option"
  jv_retargeted_from :: "jval option"
  jv_exp_id :: "jval option"
  jv_arm :: "jval option"
  jv_bundle_sha256 :: "jval option"
  jv_name :: "jval option"
  jv_entrypoint :: "jval option"
  jv_timeout_s :: "rat option"
  jv_defend :: "jval option"
  jv_gpu :: "bool option"
  jv_declared_globs :: "rat option"
  jv_rc :: "rat option"
  jv_fail_reason :: "jval option"
  jv_reopened :: bool
  jv_reopened_at :: "string option"
  jv_prior_rc :: "rat option"
  jv_prior_fail_reason :: "jval option"
  jv_started_at :: "string option"
  jv_ended_at :: "string option"
  jv_last_event :: "string option"
  jv_last_event_ts :: "string option"
  jv_last_heartbeat_ts :: "string option"
  jv_last_tail :: "jval option"
  jv_last_metrics :: "jval option"
  jv_last_metrics_box :: "jval option"
  jv_last_metrics_ts :: "string option"
  jv_last_checkpoint_ts :: "string option"
  jv_n_checkpoints :: nat
  jv_attempts :: int
  jv_n_preempted :: nat
  jv_last_resumed_ts :: "string option"
  jv_results :: "jval option"
  jv_terminal_boxes :: "string list"
  jv_n_events :: nat
  jv_parse_errors :: nat

definition empty_job_view :: "nat \<Rightarrow> job_view" where
  "empty_job_view errs = \<lparr>jv_job_id = None, jv_status = ''unknown'', jv_display_status = ''unknown'',
     jv_live = False, jv_instance_id = None, jv_target_box = None, jv_retargeted_from = None,
     jv_exp_id = None, jv_arm = None, jv_bundle_sha256 = None, jv_name = None, jv_entrypoint = None,
     jv_timeout_s = None, jv_defend = None, jv_gpu = None, jv_declared_globs = None, jv_rc = None,
     jv_fail_reason = None, jv_reopened = False, jv_reopened_at = None, jv_prior_rc = None,
     jv_prior_fail_reason = None, jv_started_at = None, jv_ended_at = None, jv_last_event = None,
     jv_last_event_ts = None, jv_last_heartbeat_ts = None, jv_last_tail = None, jv_last_metrics = None,
     jv_last_metrics_box = None, jv_last_metrics_ts = None, jv_last_checkpoint_ts = None,
     jv_n_checkpoints = 0, jv_attempts = 0, jv_n_preempted = 0, jv_last_resumed_ts = None,
     jv_results = None, jv_terminal_boxes = [], jv_n_events = 0, jv_parse_errors = errs\<rparr>"

definition min_ts :: "string list \<Rightarrow> string option" where
  "min_ts xs = (case xs of [] \<Rightarrow> None | y # ys \<Rightarrow> Some (foldr min ys y))"

definition max_ts :: "string list \<Rightarrow> string option" where
  "max_ts xs = (case xs of [] \<Rightarrow> None | y # ys \<Rightarrow> Some (foldr max ys y))"

definition newest_value :: "string \<Rightarrow> job_event list \<Rightarrow> jval option" where
  "newest_value k evs = Option.bind (last_ev (has_field k) evs) (job_get k)"

definition job_display :: "string \<Rightarrow> bool \<Rightarrow> string" where
  "job_display status live =
     (if status \<in> set JOB_TERMINAL then status
      else if status \<in> {''claimed'', ''started''} then (if live then ''running'' else ''interrupted'')
      else status)"

definition fold_job_ordered :: "(jval \<Rightarrow> string) \<Rightarrow> string set \<Rightarrow> nat \<Rightarrow> job_event list \<Rightarrow> job_view" where
  "fold_job_ordered show_v live_iids errs evs =
     (if evs = [] then empty_job_view errs
      else
        let status = job_status evs; iid = job_instance_id evs; oc = fold_outcome evs;
            sub = first_ev ''submitted'' evs; subf = (\<lambda>k. Option.bind sub (job_get k));
            live = (case iid of None \<Rightarrow> False | Some v \<Rightarrow> show_v v \<in> live_iids)
        in \<lparr>jv_job_id = Some (je_job_id (last evs)), jv_status = status,
            jv_display_status = job_display status live, jv_live = live,
            jv_instance_id = iid, jv_target_box = fold_target_box evs,
            jv_retargeted_from = fold_retargeted_from evs,
            jv_exp_id = newest_value ''exp_id'' evs, jv_arm = newest_value ''arm'' evs,
            jv_bundle_sha256 = subf ''bundle_sha256'', jv_name = subf ''name'',
            jv_entrypoint = subf ''entrypoint'', jv_timeout_s = num (subf ''timeout_s''),
            jv_defend = subf ''defend'',
            jv_gpu = Option.bind sub (\<lambda>e. map_option (\<lambda>v. truthy (Some v)) (je_fields e ''gpu'')),
            jv_declared_globs = num (subf ''n_results_globs''),
            jv_rc = oc_rc oc, jv_fail_reason = oc_reason oc,
            jv_reopened = job_reopened evs,
            jv_reopened_at = Option.bind (reopen_order evs) (\<lambda>r. if fst r = [] then None else Some (fst r)),
            jv_prior_rc = oc_prior_rc oc, jv_prior_fail_reason = oc_prior_reason oc,
            jv_started_at = min_ts (map je_ts (filter (job_in [''claimed'', ''started'']) evs)),
            jv_ended_at = (if job_reopened evs then None
                           else max_ts (map je_ts (filter (job_in JOB_TERMINAL) evs))),
            jv_last_event = Some (je_event (last evs)), jv_last_event_ts = Some (je_ts (last evs)),
            jv_last_heartbeat_ts = map_option je_ts (last_ev (job_is ''heartbeat'') evs),
            jv_last_tail = fold_tail evs,
            jv_last_metrics = Option.bind (metric_beat evs) (job_get ''host_metrics''),
            jv_last_metrics_box = Option.bind (metric_beat evs) (job_get ''instance_id''),
            jv_last_metrics_ts = map_option je_ts (metric_beat evs),
            jv_last_checkpoint_ts = map_option je_ts (last_ev (job_is ''checkpoint'') evs),
            jv_n_checkpoints = length (filter (job_is ''checkpoint'') evs),
            jv_attempts = fold_attempts evs, jv_n_preempted = fold_n_preempted evs,
            jv_last_resumed_ts = map_option je_ts (last_ev (job_is ''resumed'') evs),
            jv_results = fold_results evs, jv_terminal_boxes = terminal_boxes show_v evs,
            jv_n_events = length evs, jv_parse_errors = errs\<rparr>)"

definition fold_job_events :: "(jval \<Rightarrow> string) \<Rightarrow> string set \<Rightarrow> raw_object list \<Rightarrow> job_view" where
  "fold_job_events show_v live_iids raws =
     fold_job_ordered show_v live_iids (length (filter (\<lambda>r. job_coerce r = None) raws))
       (sort_key ev_order (List.map_filter job_coerce raws))"

interpretation jf: event_fold "fold_job_events show_v live_iids" job_coerce ev_order
    "fold_job_ordered show_v live_iids" for show_v live_iids
  by unfold_locales (simp add: fold_job_events_def)

section \<open>Waiting for a state\<close>

datatype wait_verdict = Match | Unreachable | Pending

definition wait_decision :: "job_view \<Rightarrow> string \<Rightarrow> wait_verdict" where
  "wait_decision v want =
     (if want = ''terminal'' then (if jv_status v \<in> set JOB_TERMINAL then Match else Pending)
      else if want = jv_status v \<or> want = jv_display_status v then Match
      else if jv_status v \<in> set JOB_TERMINAL then Unreachable
      else Pending)"

section \<open>The status machine\<close>

text \<open>
  The same rules read as a machine over the log in order: a job is open, has failed and may be
  requeued, runs again after a requeue, or has ended for good. \<open>lift_status\<close> is the progress of
  one attempt.
\<close>

datatype job_phase =
    Open string
  | FailedOnce
  | Requeued string
  | FailedFinal
  | Succeeded
  | Cancelled

definition lift_status :: "string \<Rightarrow> string \<Rightarrow> string" where
  "lift_status s n = status_lattice {s, n}"

fun job_step :: "job_phase \<Rightarrow> string \<Rightarrow> job_phase" where
  "job_step (Open s) n =
     (if n = ''failed'' then FailedOnce else if n = ''done'' then Succeeded
      else if n = ''cancelled'' then Cancelled else Open (lift_status s n))"
| "job_step FailedOnce n =
     (if n = ''resumed'' then Requeued ''unknown'' else if n = ''done'' then Succeeded
      else if n = ''cancelled'' then FailedFinal else FailedOnce)"
| "job_step (Requeued s) n =
     (if n = ''failed'' then FailedOnce else if n = ''done'' then Succeeded
      else if n = ''cancelled'' then FailedFinal else if n = ''resumed'' then Requeued ''unknown''
      else Requeued (lift_status s n))"
| "job_step FailedFinal n = (if n = ''done'' then Succeeded else FailedFinal)"
| "job_step Succeeded n = (if n = ''failed'' then FailedFinal else Succeeded)"
| "job_step Cancelled n =
     (if n = ''failed'' then FailedFinal else if n = ''done'' then Succeeded else Cancelled)"

fun phase_status :: "job_phase \<Rightarrow> string" where
  "phase_status (Open s) = s"
| "phase_status FailedOnce = ''failed''"
| "phase_status (Requeued s) = (if s = ''unknown'' then ''submitted'' else s)"
| "phase_status FailedFinal = ''failed''"
| "phase_status Succeeded = ''done''"
| "phase_status Cancelled = ''cancelled''"

definition job_run :: "string list \<Rightarrow> job_phase" where
  "job_run ns = foldl job_step (Open ''unknown'') ns"

definition in_time_order :: "job_event list \<Rightarrow> bool" where
  "in_time_order evs = sorted_wrt (\<lambda>a b. ev_order a < ev_order b) evs"

definition newer_than :: "job_event list \<Rightarrow> job_event \<Rightarrow> bool" where
  "newer_than evs e = (\<forall>x\<in>set evs. ev_order x < ev_order e)"

lemma in_time_order_snoc: "in_time_order (evs @ [e]) \<longleftrightarrow> in_time_order evs \<and> newer_than evs e"
  by (auto simp: in_time_order_def newer_than_def sorted_wrt_append)

lemma newest_order_None: "newest_order P evs = None \<longleftrightarrow> (\<forall>x\<in>set evs. \<not> P x)"
  by (auto simp: newest_order_def filter_empty_conv filter_eq_Cons_iff split: list.splits)

lemma newest_order_in: "newest_order P evs = Some k \<Longrightarrow> \<exists>x\<in>set evs. P x \<and> k = ev_order x"
proof -
  assume k: "newest_order P evs = Some k"
  then obtain y ys where f: "filter P evs = y # ys" "k = foldr max (map ev_order ys) (ev_order y)"
    by (auto simp: newest_order_def split: list.splits)
  from f(2) have "k \<in> set (map ev_order (y # ys))" using foldr_max_in [of "map ev_order ys" "ev_order y"] by simp
  then obtain x where "x \<in> set (y # ys)" "k = ev_order x" unfolding set_map by (rule imageE)
  moreover have "set (y # ys) = set (filter P evs)" by (simp only: f(1))
  ultimately show ?thesis by auto
qed

lemma newest_order_ge: "x \<in> set evs \<Longrightarrow> P x \<Longrightarrow> \<exists>k. newest_order P evs = Some k \<and> ev_order x \<le> k"
proof -
  assume x: "x \<in> set evs" "P x"
  then have m: "x \<in> set (filter P evs)" by simp
  then obtain y ys where f: "filter P evs = y # ys" by (cases "filter P evs") auto
  from m f have "ev_order x \<in> set (ev_order y # map ev_order ys)" by auto
  then have "ev_order x \<le> foldr max (map ev_order ys) (ev_order y)" by (rule foldr_max_ge)
  with f show ?thesis by (simp add: newest_order_def)
qed

lemma newest_order_below: "newest_order P evs = Some k \<Longrightarrow> newer_than evs e \<Longrightarrow> k < ev_order e"
  using newest_order_in by (fastforce simp: newer_than_def)

lemma foldr_max_snoc: "foldr max (xs @ [y]) a = max y (foldr max xs (a::'a::linorder))"
  by (induction xs) (auto simp: max.left_commute max.commute)

lemma newest_order_snoc:
  assumes "newer_than evs e"
  shows "newest_order P (evs @ [e]) = (if P e then Some (ev_order e) else newest_order P evs)"
proof (cases "P e")
  case True
  show ?thesis
  proof (cases "filter P evs")
    case Nil
    with True show ?thesis by (simp add: newest_order_def)
  next
    case (Cons y ys)
    let ?k = "foldr max (map ev_order ys) (ev_order y)"
    have "newest_order P evs = Some ?k" using Cons by (simp add: newest_order_def)
    then have "?k < ev_order e" using assms by (rule newest_order_below)
    with True Cons foldr_max_snoc [of "map ev_order ys" "ev_order e" "ev_order y"] show ?thesis
      by (auto simp: newest_order_def max_def dest: leD)
  qed
next
  case False
  then show ?thesis by (simp add: newest_order_def)
qed

definition names_of :: "job_event list \<Rightarrow> string set" where
  "names_of evs = set (map je_event evs)"

definition since :: "string \<times> string \<Rightarrow> job_event list \<Rightarrow> job_event list" where
  "since r evs = filter (\<lambda>e. r \<le> ev_order e) evs"

lemma names_of_snoc: "names_of (evs @ [e]) = insert (je_event e) (names_of evs)"
  by (simp add: names_of_def)

lemma names_of_simps [simp]: "names_of [] = {}" "n \<in> names_of (evs @ [e]) \<longleftrightarrow> je_event e = n \<or> n \<in> names_of evs"
  by (auto simp: names_of_def)

lemma sole_element:
  "a \<noteq> b \<Longrightarrow> a \<noteq> c \<Longrightarrow> X \<inter> {b, a, c} = {a} \<longleftrightarrow> a \<in> X \<and> b \<notin> X \<and> c \<notin> X"
  by (auto simp: set_eq_iff)

lemma sole_failed: "set (map je_event evs) \<inter> set JOB_TERMINAL = {''failed''} \<longleftrightarrow>
    ''failed'' \<in> names_of evs \<and> ''done'' \<notin> names_of evs \<and> ''cancelled'' \<notin> names_of evs"
  unfolding names_of_def JOB_TERMINAL_def list.set by (rule sole_element) simp_all

lemma newest_named: "n \<in> names_of evs \<longleftrightarrow> (\<exists>k. newest_order (job_is n) evs = Some k)"
proof -
  have "newest_order (job_is n) evs = None \<longleftrightarrow> n \<notin> names_of evs"
    by (auto simp: newest_order_None job_is_def names_of_def)
  then show ?thesis by (cases "newest_order (job_is n) evs") auto
qed

lemma guarded_later:
  "(if A then (case (x, y) of (Some f, Some r) \<Rightarrow> if f < r then Some r else None | _ \<Rightarrow> None) else None) = Some q
     \<longleftrightarrow> A \<and> y = Some q \<and> (\<exists>f. x = Some f \<and> f < (q::'a::linorder))"
  by (cases x; cases y) auto

lemma reopen_order_Some:
  "reopen_order evs = Some r \<longleftrightarrow>
     (''failed'' \<in> names_of evs \<and> ''done'' \<notin> names_of evs \<and> ''cancelled'' \<notin> names_of evs)
     \<and> newest_order (job_is ''resumed'') evs = Some r
     \<and> (\<exists>f. newest_order (job_is ''failed'') evs = Some f \<and> f < r)"
  unfolding reopen_order_def sole_failed by (rule guarded_later)

lemma fold_status_alone:
  assumes "\<not> (''failed'' \<in> names_of evs \<and> ''done'' \<in> names_of evs)"
  shows "fold_status evs = status_lattice (names_of evs)"
proof -
  have "\<not> (''failed'' \<in> set (map je_event evs) \<and> ''done'' \<in> set (map je_event evs))"
    using assms unfolding names_of_def .
  then show ?thesis unfolding fold_status_def names_of_def Let_def by (rule if_not_P)
qed

lemma fold_status_ranked:
  assumes "newest_order (job_is ''failed'') evs = Some f" "newest_order (job_is ''done'') evs = Some d"
  shows "fold_status evs = (if f < d then ''done'' else ''failed'')"
proof -
  have "''failed'' \<in> names_of evs" "''done'' \<in> names_of evs" using assms newest_named by blast+
  then show ?thesis using assms unfolding fold_status_def names_of_def Let_def by simp
qed

lemma since_snoc:
  "r \<le> ev_order e \<Longrightarrow> since r (evs @ [e]) = since r evs @ [e]"
  by (simp add: since_def)

lemma lift_status_insert:
  assumes "n \<notin> set JOB_TERMINAL" "T \<inter> set JOB_TERMINAL = {}"
  shows "lift_status (status_lattice T) n = status_lattice (insert n T)"
  using assms by (auto simp: lift_status_def status_lattice_def JOB_TERMINAL_def)

lemma lattice_not_terminal: "T \<inter> set JOB_TERMINAL = {} \<Longrightarrow> status_lattice T \<notin> set JOB_TERMINAL"
  by (auto simp: status_lattice_def JOB_TERMINAL_def)

text \<open>What the log says in each phase of the machine.\<close>

fun phase_inv :: "job_event list \<Rightarrow> job_phase \<Rightarrow> bool" where
  "phase_inv evs (Open s) =
     (names_of evs \<inter> set JOB_TERMINAL = {} \<and> s = status_lattice (names_of evs))"
| "phase_inv evs FailedOnce =
     (''failed'' \<in> names_of evs \<and> ''done'' \<notin> names_of evs \<and> ''cancelled'' \<notin> names_of evs
      \<and> (\<forall>f r. newest_order (job_is ''failed'') evs = Some f \<longrightarrow>
               newest_order (job_is ''resumed'') evs = Some r \<longrightarrow> r < f))"
| "phase_inv evs (Requeued s) =
     (\<exists>r. reopen_order evs = Some r \<and> names_of (since r evs) \<inter> set JOB_TERMINAL = {}
          \<and> s = status_lattice (names_of (since r evs)))"
| "phase_inv evs FailedFinal =
     (''failed'' \<in> names_of evs \<and> (''done'' \<in> names_of evs \<or> ''cancelled'' \<in> names_of evs)
      \<and> (\<forall>f d. newest_order (job_is ''failed'') evs = Some f \<longrightarrow>
               newest_order (job_is ''done'') evs = Some d \<longrightarrow> d < f))"
| "phase_inv evs Succeeded =
     (''done'' \<in> names_of evs
      \<and> (\<forall>f d. newest_order (job_is ''failed'') evs = Some f \<longrightarrow>
               newest_order (job_is ''done'') evs = Some d \<longrightarrow> f < d))"
| "phase_inv evs Cancelled =
     (''cancelled'' \<in> names_of evs \<and> ''done'' \<notin> names_of evs \<and> ''failed'' \<notin> names_of evs)"

lemma job_is_event [simp]: "job_is n e \<longleftrightarrow> je_event e = n"
  by (simp add: job_is_def)

lemma since_newest:
  assumes "newest_order (job_is ''resumed'') (evs @ [e]) = Some (ev_order e)" "newer_than evs e"
  shows "since (ev_order e) (evs @ [e]) = [e]"
  using assms(2) by (auto simp: since_def newer_than_def filter_empty_conv not_le)

lemma phase_inv_status: "phase_inv evs ph \<Longrightarrow> job_status evs = phase_status ph"
proof (cases ph)
  case (Open s)
  assume "phase_inv evs ph"
  with Open have n: "names_of evs \<inter> set JOB_TERMINAL = {}" "s = status_lattice (names_of evs)" by simp_all
  then have f: "''failed'' \<notin> names_of evs" by (auto simp: JOB_TERMINAL_def)
  then have "reopen_order evs = None" using reopen_order_Some [of evs] by (cases "reopen_order evs") auto
  with f n Open show ?thesis by (simp add: job_status_def fold_status_alone)
next
  case FailedOnce
  assume i: "phase_inv evs ph"
  have "reopen_order evs = None"
  proof (cases "reopen_order evs")
    case (Some r)
    then show ?thesis using i FailedOnce by (auto simp: reopen_order_Some dest: order.asym)
  qed
  with i FailedOnce show ?thesis by (simp add: job_status_def fold_status_alone status_lattice_def)
next
  case (Requeued s)
  assume "phase_inv evs ph"
  with Requeued obtain r where r: "reopen_order evs = Some r"
      "names_of (since r evs) \<inter> set JOB_TERMINAL = {}" "s = status_lattice (names_of (since r evs))" by auto
  then have "''failed'' \<notin> names_of (since r evs)" by (auto simp: JOB_TERMINAL_def)
  with r Requeued show ?thesis by (simp add: job_status_def fold_status_alone since_def Let_def)
next
  case FailedFinal
  assume i: "phase_inv evs ph"
  have "reopen_order evs = None"
    using i FailedFinal reopen_order_Some [of evs] by (cases "reopen_order evs") auto
  moreover have "fold_status evs = ''failed''"
  proof (cases "''done'' \<in> names_of evs")
    case True
    then obtain d where d: "newest_order (job_is ''done'') evs = Some d" using newest_named by blast
    obtain f where f: "newest_order (job_is ''failed'') evs = Some f"
      using i FailedFinal newest_named [of "''failed''"] by auto
    with d i FailedFinal have "\<not> f < d" by (auto simp del: less_prod_simp dest: order.asym)
    with f d show ?thesis by (simp only: fold_status_ranked if_False)
  next
    case False
    then show ?thesis using i FailedFinal by (simp add: fold_status_alone status_lattice_def)
  qed
  ultimately show ?thesis using FailedFinal by (simp add: job_status_def)
next
  case Succeeded
  assume i: "phase_inv evs ph"
  have "reopen_order evs = None"
    using i Succeeded reopen_order_Some [of evs] by (cases "reopen_order evs") auto
  moreover have "fold_status evs = ''done''"
  proof (cases "''failed'' \<in> names_of evs")
    case True
    then obtain f where f: "newest_order (job_is ''failed'') evs = Some f" using newest_named by blast
    obtain d where d: "newest_order (job_is ''done'') evs = Some d"
      using i Succeeded newest_named [of "''done''"] by auto
    with f i Succeeded have "f < d" by (simp del: less_prod_simp)
    with f d show ?thesis by (simp only: fold_status_ranked if_True)
  next
    case False
    then show ?thesis using i Succeeded by (simp add: fold_status_alone status_lattice_def)
  qed
  ultimately show ?thesis using Succeeded by (simp add: job_status_def)
next
  case Cancelled
  assume i: "phase_inv evs ph"
  have "reopen_order evs = None"
    using i Cancelled reopen_order_Some [of evs] by (cases "reopen_order evs") auto
  then show ?thesis using i Cancelled by (simp add: job_status_def fold_status_alone status_lattice_def)
qed

lemma reopen_order_le: "reopen_order evs = Some r \<Longrightarrow> newer_than evs e \<Longrightarrow> r \<le> ev_order e"
  unfolding reopen_order_Some using newest_order_below less_imp_le by blast

lemma reopen_order_snoc:
  assumes "reopen_order evs = Some r" "newer_than evs e" "je_event e \<notin> set JOB_TERMINAL" "je_event e \<noteq> ''resumed''"
  shows "reopen_order (evs @ [e]) = Some r"
  using assms unfolding reopen_order_Some JOB_TERMINAL_def by (simp add: newest_order_snoc)

lemma reopen_order_resumed:
  assumes "''failed'' \<in> names_of evs" "''done'' \<notin> names_of evs" "''cancelled'' \<notin> names_of evs"
    "newer_than evs e" "je_event e = ''resumed''"
  shows "reopen_order (evs @ [e]) = Some (ev_order e)"
proof -
  obtain f where f: "newest_order (job_is ''failed'') evs = Some f" using assms(1) newest_named by blast
  have "f < ev_order e" using f assms(4) by (rule newest_order_below)
  with f assms show ?thesis unfolding reopen_order_Some by (simp add: newest_order_snoc)
qed

lemma since_resumed: "newer_than evs e \<Longrightarrow> since (ev_order e) (evs @ [e]) = [e]"
  by (auto simp: since_def newer_than_def filter_empty_conv not_le)

lemma phase_inv_requeued:
  assumes "''failed'' \<in> names_of evs" "''done'' \<notin> names_of evs" "''cancelled'' \<notin> names_of evs"
    "newer_than evs e" "je_event e = ''resumed''"
  shows "phase_inv (evs @ [e]) (Requeued ''unknown'')"
  using reopen_order_resumed [OF assms] since_resumed [OF assms(4)] assms(5)
  by (simp add: names_of_def status_lattice_def JOB_TERMINAL_def)

lemma phase_inv_failed:
  assumes "''done'' \<notin> names_of evs" "''cancelled'' \<notin> names_of evs" "newer_than evs e" "je_event e = ''failed''"
  shows "phase_inv (evs @ [e]) FailedOnce"
  using assms by (auto simp del: less_prod_simp simp: newest_order_snoc newest_order_below)

lemma phase_inv_failed_final:
  assumes "''done'' \<in> names_of evs \<or> ''cancelled'' \<in> names_of evs" "newer_than evs e" "je_event e = ''failed''"
  shows "phase_inv (evs @ [e]) FailedFinal"
  using assms by (auto simp del: less_prod_simp simp: newest_order_snoc newest_order_below)

lemma phase_inv_cancel_failed:
  assumes "''failed'' \<in> names_of evs" "''done'' \<notin> names_of evs" "newer_than evs e" "je_event e = ''cancelled''"
  shows "phase_inv (evs @ [e]) FailedFinal"
proof -
  have "newest_order (job_is ''done'') evs = None"
    using assms(2) newest_named [of "''done''" evs] by (cases "newest_order (job_is ''done'') evs") auto
  then show ?thesis using assms by (simp add: newest_order_snoc)
qed

lemma phase_inv_done:
  assumes "newer_than evs e" "je_event e = ''done''"
  shows "phase_inv (evs @ [e]) Succeeded"
  using assms by (auto simp del: less_prod_simp simp: newest_order_snoc newest_order_below)

lemma phase_inv_open:
  assumes "phase_inv evs (Open s)" "je_event e \<notin> set JOB_TERMINAL"
  shows "phase_inv (evs @ [e]) (Open (lift_status s (je_event e)))"
  using assms by (simp add: lift_status_insert names_of_snoc)

lemma phase_inv_requeued_on:
  assumes "phase_inv evs (Requeued s)" "newer_than evs e" "je_event e \<notin> set JOB_TERMINAL" "je_event e \<noteq> ''resumed''"
  shows "phase_inv (evs @ [e]) (Requeued (lift_status s (je_event e)))"
proof -
  obtain r where r: "reopen_order evs = Some r" "names_of (since r evs) \<inter> set JOB_TERMINAL = {}"
      "s = status_lattice (names_of (since r evs))" using assms(1) by auto
  then have "reopen_order (evs @ [e]) = Some r" using assms by (simp add: reopen_order_snoc)
  moreover have "since r (evs @ [e]) = since r evs @ [e]" using r(1) assms(2) reopen_order_le since_snoc by blast
  ultimately show ?thesis using r assms(3) by (simp add: lift_status_insert names_of_snoc)
qed

lemma requeued_names: "phase_inv evs (Requeued s) \<Longrightarrow>
    ''failed'' \<in> names_of evs \<and> ''done'' \<notin> names_of evs \<and> ''cancelled'' \<notin> names_of evs"
  unfolding phase_inv.simps reopen_order_Some by blast

lemma phase_inv_other:
  assumes "newer_than evs e" "je_event e \<noteq> ''failed''" "je_event e \<noteq> ''done''"
  shows "phase_inv evs Succeeded \<Longrightarrow> phase_inv (evs @ [e]) Succeeded"
    and "phase_inv evs FailedFinal \<Longrightarrow> phase_inv (evs @ [e]) FailedFinal"
    and "phase_inv evs Cancelled \<Longrightarrow> phase_inv (evs @ [e]) Cancelled"
    and "phase_inv evs FailedOnce \<Longrightarrow> je_event e \<noteq> ''cancelled'' \<Longrightarrow> je_event e \<noteq> ''resumed'' \<Longrightarrow>
         phase_inv (evs @ [e]) FailedOnce"
  using assms by (simp_all add: newest_order_snoc, blast?)

text \<open>Which outcomes are on record in each phase.\<close>

lemma phase_names:
  "phase_inv evs (Open s) \<Longrightarrow> ''failed'' \<notin> names_of evs \<and> ''done'' \<notin> names_of evs \<and> ''cancelled'' \<notin> names_of evs"
  "phase_inv evs FailedOnce \<Longrightarrow> ''failed'' \<in> names_of evs \<and> ''done'' \<notin> names_of evs \<and> ''cancelled'' \<notin> names_of evs"
  "phase_inv evs (Requeued s) \<Longrightarrow> ''failed'' \<in> names_of evs \<and> ''done'' \<notin> names_of evs \<and> ''cancelled'' \<notin> names_of evs"
  "phase_inv evs FailedFinal \<Longrightarrow> ''done'' \<in> names_of evs \<or> ''cancelled'' \<in> names_of evs"
  "phase_inv evs Succeeded \<Longrightarrow> ''done'' \<in> names_of evs"
  "phase_inv evs Cancelled \<Longrightarrow> ''cancelled'' \<in> names_of evs \<and> ''done'' \<notin> names_of evs \<and> ''failed'' \<notin> names_of evs"
  by (auto simp: JOB_TERMINAL_def reopen_order_Some)

lemma phase_inv_cancelled:
  assumes "''failed'' \<notin> names_of evs" "''done'' \<notin> names_of evs" "je_event e = ''cancelled''"
  shows "phase_inv (evs @ [e]) Cancelled"
  using assms by simp

lemma phase_inv_step:
  assumes "phase_inv evs ph" "newer_than evs e"
  shows "phase_inv (evs @ [e]) (job_step ph (je_event e))"
proof -
  let ?n = "je_event e"
  note facts = assms(1) phase_names [of evs]
  consider "?n = ''failed''" | "?n = ''done''" | "?n = ''cancelled''" | "?n = ''resumed''"
    | "?n \<notin> set JOB_TERMINAL" "?n \<noteq> ''resumed''" "?n \<noteq> ''failed''" "?n \<noteq> ''done''" "?n \<noteq> ''cancelled''"
    by (auto simp: JOB_TERMINAL_def)
  then show ?thesis
  proof cases
    case 1
    then show ?thesis
      using facts phase_inv_failed [OF _ _ assms(2) 1] phase_inv_failed_final [OF _ assms(2) 1]
      by (cases ph) (simp_all del: phase_inv.simps)
  next
    case 2
    then show ?thesis using phase_inv_done [OF assms(2) 2] phase_inv_other by (cases ph) (simp_all del: phase_inv.simps)
  next
    case 3
    then show ?thesis
      using facts phase_inv_cancel_failed [OF _ _ assms(2) 3] phase_inv_cancelled [OF _ _ 3] phase_inv_other [OF assms(2)]
      by (cases ph) (simp_all del: phase_inv.simps)
  next
    case 4
    then show ?thesis
      using facts phase_inv_requeued [OF _ _ _ assms(2) 4] phase_inv_open [of evs _ e] phase_inv_other [OF assms(2)]
      by (cases ph) (simp_all del: phase_inv.simps add: JOB_TERMINAL_def)
  next
    case 5
    then show ?thesis
      using facts phase_inv_requeued_on [OF _ assms(2) 5(1,2)] phase_inv_open [OF _ 5(1)] phase_inv_other [OF assms(2)]
      by (cases ph) (simp_all del: phase_inv.simps)
  qed
qed

lemma phase_inv_run: "in_time_order evs \<Longrightarrow> phase_inv evs (job_run (map je_event evs))"
proof (induction evs rule: rev_induct)
  case Nil
  show ?case by (simp add: job_run_def names_of_def status_lattice_def)
next
  case (snoc e evs)
  then have "phase_inv (evs @ [e]) (job_step (job_run (map je_event evs)) (je_event e))"
    using in_time_order_snoc phase_inv_step by blast
  then show ?case by (simp add: job_run_def)
qed

section \<open>What the view says\<close>

lemma jv_status_fold: "jv_status (fold_job_ordered show_v live errs evs) = job_status evs"
  by (cases "evs = []")
     (simp_all add: fold_job_ordered_def empty_job_view_def Let_def job_status_def reopen_order_def
        fold_status_def status_lattice_def JOB_TERMINAL_def)

lemma in_time_order_sort:
  assumes "distinct (map ev_order evs)"
  shows "in_time_order (sort_key ev_order evs)"
proof -
  have "sorted (map ev_order (sort_key ev_order evs))" by (rule sorted_sort_key)
  moreover have "distinct (map ev_order (sort_key ev_order evs))"
    using assms by (simp add: distinct_map)
  ultimately have "sorted_wrt (<) (map ev_order (sort_key ev_order evs))"
    by (simp add: strict_sorted_iff)
  then show ?thesis unfolding in_time_order_def sorted_wrt_map .
qed

lemma names_disjoint:
  "names_of evs \<inter> set JOB_TERMINAL = {} \<longleftrightarrow> (\<forall>e\<in>set evs. je_event e \<notin> set JOB_TERMINAL)"
  by (auto simp: names_of_def)

lemma names_of_member: "n \<in> names_of evs \<longleftrightarrow> (\<exists>e\<in>set evs. je_event e = n)"
  by (auto simp: names_of_def)

lemma newest_order_less:
  "newest_order P evs = Some k \<Longrightarrow> k < q \<longleftrightarrow> (\<forall>x\<in>set evs. P x \<longrightarrow> ev_order x < q)"
  by (metis newest_order_ge newest_order_in option.inject order_le_less_trans)

lemma window_alive:
  assumes "reopen_order evs = Some r"
  shows "names_of (since r evs) \<inter> set JOB_TERMINAL = {}"
proof -
  obtain f where f: "newest_order (job_is ''failed'') evs = Some f" "f < r"
    and n: "''done'' \<notin> names_of evs" "''cancelled'' \<notin> names_of evs"
    using assms unfolding reopen_order_Some by blast
  have "je_event e \<noteq> ''failed''" if el: "e \<in> set evs" "r \<le> ev_order e" for e
  proof
    assume "je_event e = ''failed''"
    then obtain k where "newest_order (job_is ''failed'') evs = Some k" "ev_order e \<le> k"
      using newest_order_ge [of e evs "job_is ''failed''"] el(1) by (auto simp del: split_paired_Ex)
    then show False using f el(2) by auto
  qed
  then show ?thesis using n unfolding names_disjoint names_of_member by (auto simp: since_def JOB_TERMINAL_def)
qed

lemma job_status_terminal:
  "job_status evs \<in> set JOB_TERMINAL \<longleftrightarrow>
     reopen_order evs = None \<and> names_of evs \<inter> set JOB_TERMINAL \<noteq> {}"
proof (cases "reopen_order evs")
  case None
  have "fold_status evs \<in> set JOB_TERMINAL \<longleftrightarrow> names_of evs \<inter> set JOB_TERMINAL \<noteq> {}"
  proof (cases "''failed'' \<in> names_of evs \<and> ''done'' \<in> names_of evs")
    case True
    then obtain f d where "newest_order (job_is ''failed'') evs = Some f"
        "newest_order (job_is ''done'') evs = Some d" using newest_named by blast
    then have "fold_status evs \<in> set JOB_TERMINAL"
      by (simp add: fold_status_ranked JOB_TERMINAL_def del: less_prod_simp split del: if_split split: if_splits)
    with True show ?thesis by (auto simp: JOB_TERMINAL_def)
  next
    case False
    show ?thesis
      unfolding fold_status_alone [OF False] by (auto simp: status_lattice_def JOB_TERMINAL_def)
  qed
  then show ?thesis using None by (simp add: job_status_def)
next
  case (Some r)
  have a: "names_of (since r evs) \<inter> set JOB_TERMINAL = {}" using Some by (rule window_alive)
  then have "fold_status (since r evs) = status_lattice (names_of (since r evs))"
    by (intro fold_status_alone) (auto simp: JOB_TERMINAL_def)
  then have "fold_status (since r evs) \<notin> set JOB_TERMINAL" using a lattice_not_terminal by simp
  then show ?thesis using Some by (simp add: job_status_def since_def Let_def JOB_TERMINAL_def)
qed

lemma reopened_exactly:
  "(\<exists>r. reopen_order evs = Some r) \<longleftrightarrow>
     (\<exists>e\<in>set evs. je_event e = ''failed'') \<and> (\<forall>e\<in>set evs. je_event e \<notin> {''done'', ''cancelled''})
     \<and> (\<exists>r\<in>set evs. je_event r = ''resumed''
           \<and> (\<forall>f\<in>set evs. je_event f = ''failed'' \<longrightarrow> ev_order f < ev_order r))" (is "?L \<longleftrightarrow> ?F \<and> ?N \<and> ?R")
proof
  assume ?L
  then obtain r f where r: "newest_order (job_is ''resumed'') evs = Some r"
      "newest_order (job_is ''failed'') evs = Some f" "f < r"
    and n: "''failed'' \<in> names_of evs" "''done'' \<notin> names_of evs" "''cancelled'' \<notin> names_of evs"
    unfolding reopen_order_Some by blast
  from r(1) obtain e where "e \<in> set evs" "je_event e = ''resumed''" "r = ev_order e"
    using newest_order_in by fastforce
  moreover have "\<forall>x\<in>set evs. je_event x = ''failed'' \<longrightarrow> ev_order x < r"
    using r(2,3) newest_order_less [OF r(2), of r] by simp
  ultimately have ?R by blast
  with n show "?F \<and> ?N \<and> ?R" unfolding names_of_member by blast
next
  assume a: "?F \<and> ?N \<and> ?R"
  then obtain e where e: "e \<in> set evs" "job_is ''resumed'' e"
      "\<forall>f\<in>set evs. job_is ''failed'' f \<longrightarrow> ev_order f < ev_order e" by auto
  from e(1,2) obtain r where r: "newest_order (job_is ''resumed'') evs = Some r" "ev_order e \<le> r"
    using newest_order_ge by blast
  have n: "''failed'' \<in> names_of evs" "''done'' \<notin> names_of evs" "''cancelled'' \<notin> names_of evs"
    using a unfolding names_of_member by auto
  from n(1) obtain f where f: "newest_order (job_is ''failed'') evs = Some f" using newest_named by blast
  with e(3) have "f < ev_order e" by (simp only: newest_order_less)
  with r(2) have "f < r" by order
  with r(1) f n show ?L unfolding reopen_order_Some by blast
qed

lemma terminal_names: "set JOB_TERMINAL = {''done'', ''failed'', ''cancelled''}"
  by (simp add: JOB_TERMINAL_def)

section \<open>Properties\<close>

text \<open>C35. The set-based status rules are a state machine: reading the events once in time order, the
  folded status is the status of the phase the machine has reached, whatever order the bucket
  listed them in.\<close>

theorem status_is_machine:
  assumes "distinct (map ev_order (List.map_filter job_coerce raws))"
  shows "jv_status (fold_job_events show_v live_iids raws) =
    phase_status (job_run (map je_event (sort_key ev_order (List.map_filter job_coerce raws))))"
  using phase_inv_status [OF phase_inv_run [OF in_time_order_sort [OF assms]]]
  by (simp add: fold_job_events_def jv_status_fold)

definition raw_job :: "string \<Rightarrow> string \<Rightarrow> (string \<times> jval) list \<Rightarrow> raw_object" where
  "raw_job ts ev fs = Obj (map_of ([(''ts'', JStr ts), (''event'', JStr ev), (''job_id'', JStr ''j1'')] @ fs))"

definition rerun_log :: "raw_object list" where
  "rerun_log = [raw_job ''20260101T030000000Z'' ''resumed'' [(''box'', JStr ''9'')],
                raw_job ''20260101T010000000Z'' ''started'' [],
                raw_job ''20260101T020000000Z'' ''failed'' [],
                raw_job ''20260101T000000000Z'' ''submitted'' [],
                raw_job ''20260101T040000000Z'' ''claimed'' []]"

theorem status_is_machine_witness:
  "jv_status (fold_job_events (\<lambda>_. []) {} rerun_log) = ''claimed''"
proof -
  have "distinct (map ev_order (List.map_filter job_coerce rerun_log))" by code_simp
  from status_is_machine [OF this, of "\<lambda>_. []" "{}"] show ?thesis
    by (simp, code_simp)
qed

text \<open>A job is shown as not ended exactly if nothing has ended it, or if every ending on record is a
  failure and the newest resume came after all of them: success and cancellation are never undone.\<close>

lemma alive_exactly:
  "jv_status (fold_job_ordered show_v live errs evs) \<notin> {''done'', ''failed'', ''cancelled''} \<longleftrightarrow>
     (\<forall>e\<in>set evs. je_event e \<notin> {''done'', ''failed'', ''cancelled''})
     \<or> ((\<forall>e\<in>set evs. je_event e \<notin> {''done'', ''cancelled''})
        \<and> (\<exists>r\<in>set evs. je_event r = ''resumed''
              \<and> (\<forall>f\<in>set evs. je_event f = ''failed'' \<longrightarrow> ev_order f < ev_order r)))"
  unfolding jv_status_fold terminal_names [symmetric] job_status_terminal
  using reopened_exactly [of evs] unfolding names_disjoint
  by (cases "reopen_order evs") (auto simp: terminal_names)
definition job_ev :: "string \<Rightarrow> string \<Rightarrow> job_event" where
  "job_ev ts n = \<lparr>je_ts = ts, je_event = n, je_job_id = ''j1'', je_nonce = [], je_fields = Map.empty\<rparr>"

text \<open>The counters: a job that was ever launched shows at least one attempt, never more attempts
  than launches, and every resume after a preemption is counted as an interruption.\<close>

lemma attempts_bounds:
  assumes "\<exists>e\<in>set evs. je_event e = ''started''"
  shows "1 \<le> fold_attempts evs" "fold_attempts evs \<le> int (length (filter (job_is ''started'') evs))"
proof -
  have "filter (job_is ''started'') evs \<noteq> []" using assms by (auto simp: filter_empty_conv)
  then show "1 \<le> fold_attempts evs" "fold_attempts evs \<le> int (length (filter (job_is ''started'') evs))"
    by (cases "filter (job_is ''started'') evs"; simp add: fold_attempts_def Let_def)+
qed

text \<open>A box is listed as poisoned exactly if some terminal event is attributed to it.\<close>

lemma terminal_boxes_exact:
  "b \<in> set (terminal_boxes show_v evs) \<longleftrightarrow>
     (\<exists>e\<in>set evs. je_event e \<in> set JOB_TERMINAL \<and> terminal_box show_v e = Some b)"
proof -
  have "set (terminal_boxes show_v evs) = set (List.map_filter (terminal_box show_v) (filter (job_in JOB_TERMINAL) evs))"
    by (simp add: terminal_boxes_def)
  then show ?thesis by (force simp: List.map_filter_def job_in_def)
qed

text \<open>Once the newest move has put the ticket on a box, that box is the target, and before a box
  reports, no box is named as the one the job runs on.\<close>

lemma moved_ticket_target:
  assumes "newer_than evs m" "je_event m = ''retargeted''" "has_field ''box'' m"
  shows "fold_target_box (evs @ [m]) = job_get ''box'' m"
  using assms by (simp add: fold_target_box_def ticket_moves_def job_in_def last_opt_def)

lemma moved_ticket_no_box:
  assumes "\<forall>x\<in>set evs. je_ts x < je_ts m" "je_event m = ''retargeted''" "has_field ''box'' m"
    "\<forall>x\<in>set evs. je_event x \<noteq> ''resumed''"
  shows "job_instance_id (evs @ [m]) = None"
proof -
  have "ticket_moves (evs @ [m]) = ticket_moves evs @ [m]"
    using assms by (simp add: ticket_moves_def job_in_def)
  then have "box_events (evs @ [m]) = []"
    using assms by (auto simp: box_events_def job_in_def last_opt_def filter_empty_conv dest: leD)
  moreover have "filter (job_is ''resumed'') (evs @ [m]) = []"
    using assms by (auto simp: filter_empty_conv)
  ultimately show ?thesis by (simp add: job_instance_id_def last_opt_def)
qed

text \<open>With an earlier \<open>resumed\<close> on record the old box stays named after the move: the search for the
  last \<open>resumed\<close> is not bounded by the newest move.\<close>

lemma stale_resume_pins_old_box:
  "job_instance_id
     [(job_ev ''1'' ''resumed'')\<lparr>je_fields := [''instance_id'' \<mapsto> JStr ''A'', ''box'' \<mapsto> JStr ''A'']\<rparr>,
      (job_ev ''2'' ''retargeted'')\<lparr>je_fields := [''box'' \<mapsto> JStr ''B'']\<rparr>,
      (job_ev ''3'' ''started'')\<lparr>je_fields := [''instance_id'' \<mapsto> JStr ''B'']\<rparr>] = Some (JStr ''A'')"
  by code_simp

section \<open>DONE markers\<close>

text \<open>
  A marker is a JSON object at a mutable key: it may have been written by an earlier attempt.
  \<open>TS_RE\<close> is eight digits, \<open>T\<close>, nine digits, \<open>Z\<close> (its \<open>$\<close> also admits one trailing newline).
\<close>

definition ts_shape :: "string \<Rightarrow> bool" where
  "ts_shape s =
     (let t = (if s \<noteq> [] \<and> last s = CHR 0x0A then butlast s else s)
      in length t = 19 \<and> list_all py_isdigit (take 8 t) \<and> t ! 8 = CHR ''T''
         \<and> list_all py_isdigit (take 9 (drop 9 t)) \<and> t ! 18 = CHR ''Z'')"

datatype done_marker = NotAnObject | Marker fields

datatype marker_age = MarkerCurrent | MarkerStale | MarkerUnknown

definition nonempty :: "string option \<Rightarrow> string option" where
  "nonempty x = (case x of Some s \<Rightarrow> if s = [] then None else Some s | None \<Rightarrow> None)"

definition done_marker_ts :: "done_marker option \<Rightarrow> string option \<Rightarrow> string option" where
  "done_marker_ts marker mtime_ts =
     (case marker of
        Some (Marker f) \<Rightarrow>
          (case f ''written_ts'' of
             Some (JStr s) \<Rightarrow> if ts_shape (py_strip s) then Some (py_strip s) else nonempty mtime_ts
           | _ \<Rightarrow> nonempty mtime_ts)
      | _ \<Rightarrow> nonempty mtime_ts)"

definition classify_done_marker ::
  "done_marker option \<Rightarrow> string option \<Rightarrow> string option \<Rightarrow> marker_age option" where
  "classify_done_marker marker marker_ts reopened_at =
     (case marker of None \<Rightarrow> None
      | Some _ \<Rightarrow>
         (case nonempty reopened_at of
            None \<Rightarrow> Some MarkerCurrent
          | Some r \<Rightarrow>
             (case nonempty marker_ts of
                None \<Rightarrow> Some MarkerUnknown
              | Some t \<Rightarrow> Some (if r < t then MarkerCurrent else MarkerStale))))"

text \<open>A marker counts for a re-opened job only with a date after the re-opening.\<close>

lemma current_marker_exact:
  assumes "reopened_at = Some r" "r \<noteq> []"
  shows "classify_done_marker (Some mk) mts reopened_at = Some MarkerCurrent \<longleftrightarrow> (\<exists>t. mts = Some t \<and> r < t)"
  using assms by (auto simp: classify_done_marker_def nonempty_def split: option.splits)

section \<open>Box events\<close>

record box_event =
  be_ts :: string
  be_event :: string
  be_instance_id :: jval
  be_nonce :: string
  be_fields :: fields

definition box_coerce :: "raw_object \<Rightarrow> box_event option" where
  "box_coerce raw =
     (case raw of
        Undecodable \<Rightarrow> None
      | Obj f \<Rightarrow>
         (case (str_field f ''ts'', str_field f ''event'') of
            (Some ts, Some ev) \<Rightarrow>
              if ts = [] \<or> ev = [] \<or> \<not> truthy (f ''instance_id'') then None
              else Some \<lparr>be_ts = ts, be_event = ev, be_instance_id = the (f ''instance_id''),
                         be_nonce = dflt [] (str_field f ''nonce''), be_fields = f\<rparr>
          | _ \<Rightarrow> None))"

definition be_order :: "box_event \<Rightarrow> string \<times> string" where
  "be_order e = (be_ts e, be_nonce e)"

definition box_get :: "string \<Rightarrow> box_event \<Rightarrow> jval option" where
  "box_get k e = (case be_fields e k of Some JNull \<Rightarrow> None | v \<Rightarrow> v)"

record box_view =
  bv_instance_id :: "jval option"
  bv_parked :: bool
  bv_parked_ts :: "string option"
  bv_park_reason :: "jval option"
  bv_n_done :: "rat option"
  bv_n_failed :: "rat option"
  bv_idle_s :: "rat option"
  bv_drained_pending :: bool
  bv_last_event :: "string option"
  bv_last_event_ts :: "string option"
  bv_n_events :: nat
  bv_parse_errors :: nat

definition fold_box_ordered :: "nat \<Rightarrow> box_event list \<Rightarrow> box_view" where
  "fold_box_ordered errs evs =
     (let park = find_last (\<lambda>e. be_event e = ''parked_self'') evs;
          drained = find_last (\<lambda>e. be_event e = ''drained'') evs;
          pget = (\<lambda>k. Option.bind park (box_get k));
          pending = (drained \<noteq> None \<and> park = None)
      in \<lparr>bv_instance_id = map_option be_instance_id (last_opt evs), bv_parked = (park \<noteq> None),
          bv_parked_ts = map_option be_ts park,
          bv_park_reason = (if pending then Option.bind drained (box_get ''reason'') else pget ''reason''),
          bv_n_done = num (pget ''n_done''), bv_n_failed = num (pget ''n_failed''),
          bv_idle_s = num (pget ''idle_s''), bv_drained_pending = pending,
          bv_last_event = map_option be_event (last_opt evs),
          bv_last_event_ts = map_option be_ts (last_opt evs),
          bv_n_events = length evs, bv_parse_errors = errs\<rparr>)"

definition fold_box_events :: "raw_object list \<Rightarrow> box_view" where
  "fold_box_events raws =
     fold_box_ordered (length (filter (\<lambda>r. box_coerce r = None) raws))
       (sort_key be_order (List.map_filter box_coerce raws))"

interpretation bxf: event_fold fold_box_events box_coerce be_order fold_box_ordered
  by unfold_locales (simp add: fold_box_events_def)

text \<open>\<open>parked_self\<close> is sticky: no further event object un-parks the box, and a drain then asks
  nothing of the laptop any more.\<close>

lemma parked_sticky:
  assumes "r \<in> set raws" "box_coerce r = Some e" "be_event e = ''parked_self''"
  shows "bv_parked (fold_box_events raws) \<and> \<not> bv_drained_pending (fold_box_events raws)"
proof -
  have "e \<in> set (List.map_filter box_coerce raws)" using assms(1,2) by (force simp: List.map_filter_def)
  then have "find_last (\<lambda>e. be_event e = ''parked_self'') (sort_key be_order (List.map_filter box_coerce raws)) \<noteq> None"
    using assms(3) by (auto simp: find_last_def find_None_iff)
  then show ?thesis by (auto simp: fold_box_events_def fold_box_ordered_def Let_def)
qed
end
