(* ===== verification/JobTime.thy ===== *)
theory JobTime
  imports JobFold
begin

text \<open>
  The event timestamps of \<open>tools/vast/runmeta.py\<close>, \<open>YYYYMMDDTHHMMSSmmmZ\<close>, and \<open>ts_succ\<close>: the
  next millisecond, with the calendar carried through to the year. The main lemma is that the
  successor is the greater string, which is the order every fold sorts by.
\<close>

section \<open>Fixed-width decimals\<close>

definition digit :: "nat \<Rightarrow> char" where
  "digit n = char_of (n + 48)"

fun pad :: "nat \<Rightarrow> nat \<Rightarrow> string" where
  "pad 0 n = []"
| "pad (Suc k) n = pad k (n div 10) @ [digit (n mod 10)]"

definition dec_value :: "string \<Rightarrow> nat" where
  "dec_value s = foldl (\<lambda>n c. 10 * n + digit_val c) 0 s"

lemma length_pad [simp]: "length (pad k n) = k"
  by (induction k arbitrary: n) auto

lemma of_char_digit: "n < 10 \<Longrightarrow> (of_char (digit n) :: nat) = n + 48"
  by (simp add: digit_def)

lemma digit_less: "m < n \<Longrightarrow> n < 10 \<Longrightarrow> digit m < digit n"
  by (simp add: less_char_def of_char_digit)

lemma digit_of_val: "py_isdigit c \<Longrightarrow> digit (digit_val c) = c"
  by (simp add: py_isdigit_def digit_val_def digit_def Let_def)

lemma digit_val_less: "py_isdigit c \<Longrightarrow> digit_val c < 10"
  by (simp add: py_isdigit_def digit_val_def Let_def) linarith

lemma isdigit_digit: "n < 10 \<Longrightarrow> py_isdigit (digit n)"
  by (simp add: py_isdigit_def of_char_digit Let_def)

lemma append_less: "length a = length b \<Longrightarrow> a < b \<Longrightarrow> a @ x < b @ (y :: 'a::linorder list)"
  by (induction a b rule: list_induct2) auto

lemma same_prefix [simp]: "a @ x < a @ y \<longleftrightarrow> x < (y :: 'a::linorder list)"
  by (induction a) auto

lemma pad_less: "m < n \<Longrightarrow> n < 10 ^ k \<Longrightarrow> pad k m < pad k n"
proof (induction k arbitrary: m n)
  case (Suc k)
  show ?case
  proof (cases "m div 10 < n div 10")
    case True
    with Suc have "pad k (m div 10) < pad k (n div 10)" by (simp add: less_mult_imp_div_less)
    then show ?thesis by (simp add: append_less)
  next
    case False
    moreover have "m div 10 \<le> n div 10" using Suc.prems(1) by (simp add: div_le_mono)
    ultimately have d: "m div 10 = n div 10" by simp
    moreover have "m mod 10 < n mod 10"
      using Suc.prems(1) div_mult_mod_eq [of m 10] div_mult_mod_eq [of n 10] d by linarith
    ultimately have e: "m div 10 = n div 10" "m mod 10 < n mod 10" .
    then show ?thesis by (simp add: digit_less)
  qed
qed simp

lemma dec_value_snoc: "dec_value (s @ [c]) = 10 * dec_value s + digit_val c"
  by (simp add: dec_value_def)

lemma pad_dec_value: "list_all py_isdigit s \<Longrightarrow> pad (length s) (dec_value s) = s"
proof (induction s rule: rev_induct)
  case (snoc c s)
  then show ?case using digit_val_less [of c] by (simp add: dec_value_snoc digit_of_val)
qed (simp add: dec_value_def)

lemma pad_value: "list_all py_isdigit s \<Longrightarrow> length s = k \<Longrightarrow> pad k (dec_value s) = s"
  using pad_dec_value by blast

lemma dec_value_less: "list_all py_isdigit s \<Longrightarrow> dec_value s < 10 ^ length s"
proof (induction s rule: rev_induct)
  case (snoc c s)
  then show ?case using digit_val_less [of c] by (simp add: dec_value_snoc)
qed (simp add: dec_value_def)

section \<open>Timestamps\<close>

record stamp =
  st_y :: nat
  st_mo :: nat
  st_d :: nat
  st_h :: nat
  st_mi :: nat
  st_s :: nat
  st_ms :: nat

definition month_len :: "nat \<Rightarrow> nat \<Rightarrow> nat" where
  "month_len y m = nat (days_in_month (int y) (int m))"

definition stamp_ok :: "stamp \<Rightarrow> bool" where
  "stamp_ok t \<longleftrightarrow> 1 \<le> st_y t \<and> st_y t \<le> 9999 \<and> 1 \<le> st_mo t \<and> st_mo t \<le> 12
     \<and> 1 \<le> st_d t \<and> st_d t \<le> month_len (st_y t) (st_mo t)
     \<and> st_h t < 24 \<and> st_mi t < 60 \<and> st_s t < 60 \<and> st_ms t < 1000"

text \<open>
  \<open>strptime(ts, "%Y%m%dT%H%M%S%fZ")\<close> on strings of the \<open>now_ts\<close> shape, the only ones its caller
  passes. A field out of its calendar range counts as malformed.
\<close>

definition parse_stamp :: "string \<Rightarrow> stamp option" where
  "parse_stamp s =
     (if length s = 19 \<and> ts_shape s
      then (let f = (\<lambda>i n. dec_value (slice i n s));
                t = \<lparr>st_y = f 0 4, st_mo = f 4 2, st_d = f 6 2, st_h = f 9 2, st_mi = f 11 2,
                     st_s = f 13 2, st_ms = f 15 3\<rparr>
            in if stamp_ok t then Some t else None)
      else None)"

text \<open>\<open>strftime\<close>; a year below 1000 is not padded.\<close>

definition year_str :: "nat \<Rightarrow> string" where
  "year_str y = (if y < 1000 then dropWhile (\<lambda>c. c = CHR ''0'') (pad 4 y) else pad 4 y)"

definition render_stamp :: "stamp \<Rightarrow> string" where
  "render_stamp t = year_str (st_y t) @ pad 2 (st_mo t) @ pad 2 (st_d t) @ ''T''
     @ pad 2 (st_h t) @ pad 2 (st_mi t) @ pad 2 (st_s t) @ pad 3 (st_ms t) @ ''Z''"

text \<open>\<open>dt + timedelta(milliseconds=1)\<close>; past the last representable instant it raises.\<close>

definition next_day :: "stamp \<Rightarrow> stamp option" where
  "next_day t =
     (if st_d t < month_len (st_y t) (st_mo t) then Some (t\<lparr>st_d := st_d t + 1\<rparr>)
      else if st_mo t < 12 then Some (t\<lparr>st_mo := st_mo t + 1, st_d := 1\<rparr>)
      else if st_y t < 9999 then Some (t\<lparr>st_y := st_y t + 1, st_mo := 1, st_d := 1\<rparr>)
      else None)"

definition add_ms :: "stamp \<Rightarrow> stamp option" where
  "add_ms t =
     (if st_ms t < 999 then Some (t\<lparr>st_ms := st_ms t + 1\<rparr>)
      else let t1 = t\<lparr>st_ms := 0\<rparr>
      in if st_s t < 59 then Some (t1\<lparr>st_s := st_s t + 1\<rparr>)
      else let t2 = t1\<lparr>st_s := 0\<rparr>
      in if st_mi t < 59 then Some (t2\<lparr>st_mi := st_mi t + 1\<rparr>)
      else let t3 = t2\<lparr>st_mi := 0\<rparr>
      in if st_h t < 23 then Some (t3\<lparr>st_h := st_h t + 1\<rparr>)
      else next_day (t3\<lparr>st_h := 0\<rparr>))"

text \<open>\<open>None\<close> is the \<open>OverflowError\<close> at the end of year 9999; malformed input comes back unchanged.\<close>

definition ts_succ :: "string \<Rightarrow> string option" where
  "ts_succ ts = (case parse_stamp ts of None \<Rightarrow> Some ts | Some t \<Rightarrow> map_option render_stamp (add_ms t))"

section \<open>The successor is the greater string\<close>

lemma parse_stamp_ok: "parse_stamp s = Some t \<Longrightarrow> stamp_ok t"
  by (auto simp: parse_stamp_def Let_def split: if_splits)

lemma list19: "length s = 19 \<Longrightarrow> \<exists>a b c d e f g h i j k l m n p q r t u. s = [a,b,c,d,e,f,g,h,i,j,k,l,m,n,p,q,r,t,u]"
  by (simp add: eval_nat_numeral length_Suc_conv) blast

lemma render_parse:
  assumes "parse_stamp s = Some t" "1000 \<le> st_y t"
  shows "render_stamp t = s"
proof -
  have l: "length s = 19" "ts_shape s" using assms(1) by (auto simp: parse_stamp_def split: if_splits)
  obtain a b c d e f g h i j k l m n p q r v u where s: "s = [a,b,c,d,e,f,g,h,i,j,k,l,m,n,p,q,r,v,u]"
    using list19 [OF l(1)] by blast
  have sh: "u = CHR ''Z''" "i = CHR ''T''" "list_all py_isdigit [a,b,c,d]" "list_all py_isdigit [e,f]"
      "list_all py_isdigit [g,h]" "list_all py_isdigit [j,k]" "list_all py_isdigit [l,m]"
      "list_all py_isdigit [n,p]" "list_all py_isdigit [q,r,v]"
    using l(2) unfolding s by (auto simp: ts_shape_def Let_def split: if_splits)
  have "t = \<lparr>st_y = dec_value [a,b,c,d], st_mo = dec_value [e,f], st_d = dec_value [g,h], st_h = dec_value [j,k],
      st_mi = dec_value [l,m], st_s = dec_value [n,p], st_ms = dec_value [q,r,v]\<rparr>"
    using assms(1) unfolding parse_stamp_def s Let_def slice_def by (simp split: if_splits)
  moreover have "pad 4 (dec_value [a,b,c,d]) = [a,b,c,d]" using sh(3) by (rule pad_value) simp
  moreover have "pad 2 (dec_value [e,f]) = [e,f]" using sh(4) by (rule pad_value) simp
  moreover have "pad 2 (dec_value [g,h]) = [g,h]" using sh(5) by (rule pad_value) simp
  moreover have "pad 2 (dec_value [j,k]) = [j,k]" using sh(6) by (rule pad_value) simp
  moreover have "pad 2 (dec_value [l,m]) = [l,m]" using sh(7) by (rule pad_value) simp
  moreover have "pad 2 (dec_value [n,p]) = [n,p]" using sh(8) by (rule pad_value) simp
  moreover have "pad 3 (dec_value [q,r,v]) = [q,r,v]" using sh(9) by (rule pad_value) simp
  ultimately show ?thesis using assms(2) sh(1,2) unfolding s by (simp add: render_stamp_def year_str_def)
qed

lemma stamp_bounds:
  assumes "stamp_ok t"
  shows "st_y t < 10 ^ 4" "st_mo t < 10 ^ 2" "st_d t < 10 ^ 2" "st_h t < 10 ^ 2" "st_mi t < 10 ^ 2"
    "st_s t < 10 ^ 2" "st_ms t < 10 ^ 3"
  using assms by (auto simp: stamp_ok_def month_len_def days_in_month_def split: if_splits)

lemma month_len_bounds: "28 \<le> month_len y m" "month_len y m \<le> 31"
  by (auto simp: month_len_def days_in_month_def)

text \<open>One field grows and the fields above it stay: the string grows.\<close>

lemma add_ms_less:
  assumes "stamp_ok t" "1000 \<le> st_y t" "add_ms t = Some t'"
  shows "render_stamp t < render_stamp t'"
proof -
  show ?thesis
    using assms month_len_bounds [of "st_y t" "st_mo t"]
    by (auto simp: add_ms_def next_day_def Let_def render_stamp_def year_str_def stamp_ok_def split: if_splits)
       (auto intro!: append_less pad_less)
qed

text \<open>The carry stays on the calendar and the year only grows.\<close>

lemma add_ms_ok: "stamp_ok t \<Longrightarrow> add_ms t = Some t' \<Longrightarrow> stamp_ok t' \<and> st_y t \<le> st_y t'"
  using month_len_bounds [of "st_y t" "Suc (st_mo t)"] month_len_bounds [of "Suc (st_y t)" 1]
  by (auto simp: add_ms_def next_day_def Let_def stamp_ok_def split: if_splits)

lemma add_ms_total: "st_y t < 9999 \<Longrightarrow> \<exists>t'. add_ms t = Some t'"
  by (auto simp: add_ms_def next_day_def Let_def)

text \<open>A timestamp of the present millennium has a successor, and it is a strictly greater string.\<close>

definition event_time :: "string \<Rightarrow> bool" where
  "event_time s = (case parse_stamp s of None \<Rightarrow> False | Some t \<Rightarrow> 1000 \<le> st_y t \<and> st_y t < 9999)"

lemma ts_succ_greater:
  assumes "event_time s"
  shows "\<exists>s'. ts_succ s = Some s' \<and> s < s'"
proof -
  obtain t where t: "parse_stamp s = Some t" "1000 \<le> st_y t" "st_y t < 9999"
    using assms by (auto simp: event_time_def split: option.splits)
  then obtain t' where t': "add_ms t = Some t'" using add_ms_total by blast
  have "render_stamp t < render_stamp t'" using parse_stamp_ok [OF t(1)] t(2) t' by (rule add_ms_less)
  then show ?thesis using t t' by (simp add: ts_succ_def render_parse)
qed

end
