(* ===== verification/JobQueue.thy ===== *)
theory JobQueue
  imports JobTime "HOL-Library.State_Monad"
begin

text \<open>
  The ticket queue of \<open>tools/vast/jobmeta.py\<close>: submit, retarget, requeue, dead-letter and restore,
  as programs over a bucket whose every call may be served, refused, or carried out and yet
  reported as failed. Reads that fail look like absent objects, as in the code.

  Lemma groups: what each primitive leaves in the bucket; a ticket is never lost and keeps its
  frozen content through every move, whatever calls fail; dead-letter and restore are inverse;
  submitting is idempotent; a requeue re-opens the fold by construction of its timestamp.
\<close>

section \<open>Tickets\<close>

text \<open>The canonical config: the keys the queue code reads, and the rest as its canonical text.\<close>

record job_config =
  jc_name :: "jval option"
  jc_entrypoint :: "jval option"
  jc_timeout_s :: "jval option"
  jc_defend :: "jval option"
  jc_results :: "string list"
  jc_needs_gpu :: "jval option"
  jc_asset_prefixes :: "string list"
  jc_rest :: string

record dead_letter =
  dl_ts :: string
  dl_actor :: "string option"
  dl_reason :: string
  dl_verdict :: "string option"
  dl_source_key :: "string \<times> string"
  dl_age_days :: "rat option"

record ticket =
  tk_job_id :: string
  tk_bundle_sha256 :: string
  tk_submitted_ts :: string
  tk_actor :: string
  tk_box :: string
  tk_config :: job_config
  tk_retargeted_from :: "string option"
  tk_requeued_ts :: "string option"
  tk_dead_letter :: "dead_letter option"

text \<open>An object under a queue or dead-letter key: unparsable bytes, or a ticket.\<close>

datatype body = Garbled | Body ticket

datatype queue_error =
    BadJobId
  | UnresolvedPrefix
  | TicketWriteFailed
  | ResumeNotEmitted
  | SubmitConflict
  | TsOverflow

text \<open>\<open>JOB_ID_RE\<close> under \<open>re.match\<close>: its \<open>$\<close> also admits one trailing newline.\<close>

definition job_id_char :: "char \<Rightarrow> bool" where
  "job_id_char c = (let n = of_char c :: nat in
     (48 \<le> n \<and> n \<le> 57) \<or> (65 \<le> n \<and> n \<le> 90) \<or> (97 \<le> n \<and> n \<le> 122) \<or> c \<in> {CHR ''.'', CHR ''_'', CHR ''-''})"

definition job_id_ok :: "string \<Rightarrow> bool" where
  "job_id_ok s =
     (let t = (if s \<noteq> [] \<and> last s = CHR 0x0A then butlast s else s)
      in t \<noteq> [] \<and> length t \<le> 64 \<and> list_all job_id_char t)"

fun has_placeholder :: "string \<Rightarrow> bool" where
  "has_placeholder (c # d # cs) = ((c = CHR ''$'' \<and> d = CHR ''{'') \<or> has_placeholder (d # cs))"
| "has_placeholder _ = False"

definition make_ticket :: "string \<Rightarrow> string \<Rightarrow> string \<Rightarrow> job_config \<Rightarrow> string \<Rightarrow> string \<Rightarrow> queue_error + ticket" where
  "make_ticket jid sha actor config box now =
     (if \<not> job_id_ok jid then Inl BadJobId
      else if list_ex has_placeholder (jc_asset_prefixes config) then Inl UnresolvedPrefix
      else Inr \<lparr>tk_job_id = jid, tk_bundle_sha256 = sha, tk_submitted_ts = now, tk_actor = actor,
                tk_box = box, tk_config = config, tk_retargeted_from = None, tk_requeued_ts = None,
                tk_dead_letter = None\<rparr>)"

definition ticket_identity :: "ticket \<Rightarrow> string \<times> string \<times> string \<times> job_config" where
  "ticket_identity t = (tk_job_id t, tk_bundle_sha256 t, tk_box t, tk_config t)"

section \<open>Staleness and bulk moves\<close>

definition STALE_TICKET_DAYS :: rat where "STALE_TICKET_DAYS = 3"

definition ticket_age_days :: "ticket \<Rightarrow> string \<Rightarrow> rat option" where
  "ticket_age_days t now =
     (case (ts_epoch (tk_submitted_ts t), ts_epoch now) of
        (Some t0, Some t1) \<Rightarrow> Some ((t1 - t0) / 86400)
      | _ \<Rightarrow> None)"

definition ticket_stale :: "ticket \<Rightarrow> string \<Rightarrow> rat option \<Rightarrow> bool" where
  "ticket_stale t now max_age =
     (case ticket_age_days t now of None \<Rightarrow> False | Some age \<Rightarrow> \<not> age \<le> dflt STALE_TICKET_DAYS max_age)"

definition bulk_move_verdict :: "ticket \<Rightarrow> string option \<Rightarrow> string \<Rightarrow> rat option \<Rightarrow> bool" where
  "bulk_move_verdict t status now max_age =
     (let st = py_lower (case status of None \<Rightarrow> ''unknown'' | Some s \<Rightarrow> if s = [] then ''unknown'' else s)
      in st \<notin> set JOB_TERMINAL \<and> \<not> ticket_stale t now max_age)"

section \<open>Listings\<close>

text \<open>The lines an \<open>rclone lsf\<close> prints; \<open>None\<close> is a listing that failed, which raises.\<close>

definition json_stem :: "string \<Rightarrow> string option" where
  "json_stem line =
     (let s = py_strip line in if ends_with ''.json'' s then Some (take (length s - 5) s) else None)"

definition list_queue :: "string list option \<Rightarrow> string list option" where
  "list_queue lines = map_option (\<lambda>ls. sort (List.map_filter json_stem ls)) lines"

definition list_all_queued :: "string list option \<Rightarrow> (string \<times> string) list option" where
  "list_all_queued lines =
     map_option (\<lambda>ls. sort (List.map_filter (\<lambda>l.
         case split_on CHR ''/'' (py_strip l) of
           [box, name] \<Rightarrow> if ends_with ''.json'' (py_strip l) then Some (box, take (length name - 5) name) else None
         | _ \<Rightarrow> None) ls)) lines"

definition list_dlq :: "string option \<Rightarrow> string list option \<Rightarrow> (string \<times> string) list option" where
  "list_dlq box lines =
     map_option (\<lambda>ls. sort (List.map_filter (\<lambda>l. Option.bind (json_stem l) (\<lambda>p.
         case box of
           Some b \<Rightarrow> Some (b, p)
         | None \<Rightarrow> (let h = takeWhile (\<lambda>c. c \<noteq> CHR ''/'') p; t = drop (length h + 1) p
                    in if t = [] then None else Some (h, t)))) ls)) lines"

section \<open>The bucket\<close>

record bucket =
  bk_queue :: "string \<times> string \<Rightarrow> body option"
  bk_dlq :: "string \<times> string \<Rightarrow> body option"
  bk_events :: "string \<Rightarrow> job_event list"
  bk_cancels :: "string \<Rightarrow> bool"
  bk_tick :: nat

text \<open>
  What the world does at each call: a call is served, refused, or carried out although the client
  sees a failure (a lost reply). Uploads replace a whole object or leave it. The clock and the
  random nonce are read the same way.
\<close>

datatype io_outcome = Served | Refused | Unsure

record world =
  w_io :: "nat \<Rightarrow> io_outcome"
  w_now :: "nat \<Rightarrow> string"
  w_nonce :: "nat \<Rightarrow> string"

type_synonym 'a bucket_op = "(bucket, 'a) state"

definition tick :: "bucket \<Rightarrow> bucket" where
  "tick b = b\<lparr>bk_tick := bk_tick b + 1\<rparr>"

definition io_call :: "world \<Rightarrow> (bucket \<Rightarrow> bucket) \<Rightarrow> bool bucket_op" where
  "io_call w upd = State (\<lambda>b. case w_io w (bk_tick b) of
       Served \<Rightarrow> (True, upd (tick b)) | Refused \<Rightarrow> (False, tick b) | Unsure \<Rightarrow> (False, upd (tick b)))"

definition io_read :: "world \<Rightarrow> (bucket \<Rightarrow> 'a option) \<Rightarrow> 'a option bucket_op" where
  "io_read w sel = State (\<lambda>b. (if w_io w (bk_tick b) = Served then sel b else None, tick b))"

definition now_ts :: "world \<Rightarrow> string bucket_op" where
  "now_ts w = State (\<lambda>b. (w_now w (bk_tick b), tick b))"

definition nonce :: "world \<Rightarrow> string bucket_op" where
  "nonce w = State (\<lambda>b. (w_nonce w (bk_tick b), tick b))"

definition raise_error :: "queue_error \<Rightarrow> (queue_error + 'a) bucket_op" where
  "raise_error e = State_Monad.return (Inl e)"

definition readable :: "body option \<Rightarrow> ticket option" where
  "readable x = (case x of Some (Body t) \<Rightarrow> Some t | _ \<Rightarrow> None)"

definition write_ticket :: "world \<Rightarrow> ticket \<Rightarrow> bool bucket_op" where
  "write_ticket w t =
     io_call w (\<lambda>b. b\<lparr>bk_queue := (bk_queue b)((tk_box t, tk_job_id t) \<mapsto> Body t)\<rparr>)"

definition read_ticket :: "world \<Rightarrow> string \<Rightarrow> string \<Rightarrow> ticket option bucket_op" where
  "read_ticket w box jid = io_read w (\<lambda>b. readable (bk_queue b (box, jid)))"

definition delete_ticket :: "world \<Rightarrow> string \<Rightarrow> string \<Rightarrow> bool bucket_op" where
  "delete_ticket w box jid = io_call w (\<lambda>b. b\<lparr>bk_queue := (bk_queue b)((box, jid) := None)\<rparr>)"

definition write_dlq_entry ::
  "world \<Rightarrow> ticket \<Rightarrow> string \<Rightarrow> string option \<Rightarrow> string option \<Rightarrow> string option \<Rightarrow> bool bucket_op" where
  "write_dlq_entry w t reason actor verdict now =
     do { ts \<leftarrow> (case nonempty now of Some n \<Rightarrow> State_Monad.return n | None \<Rightarrow> now_ts w);
          age_at \<leftarrow> (case nonempty now of Some n \<Rightarrow> State_Monad.return n | None \<Rightarrow> now_ts w);
          let entry = t\<lparr>tk_dead_letter := Some \<lparr>dl_ts = ts, dl_actor = actor, dl_reason = reason,
                        dl_verdict = verdict, dl_source_key = (tk_box t, tk_job_id t),
                        dl_age_days = ticket_age_days t age_at\<rparr>\<rparr>;
          io_call w (\<lambda>b. b\<lparr>bk_dlq := (bk_dlq b)((tk_box t, tk_job_id t) \<mapsto> Body entry)\<rparr>) }"

definition read_dlq_entry :: "world \<Rightarrow> string \<Rightarrow> string \<Rightarrow> ticket option bucket_op" where
  "read_dlq_entry w box jid = io_read w (\<lambda>b. readable (bk_dlq b (box, jid)))"

definition delete_dlq_entry :: "world \<Rightarrow> string \<Rightarrow> string \<Rightarrow> bool bucket_op" where
  "delete_dlq_entry w box jid = io_call w (\<lambda>b. b\<lparr>bk_dlq := (bk_dlq b)((box, jid) := None)\<rparr>)"

section \<open>Events\<close>

definition opt_field :: "string \<Rightarrow> jval option \<Rightarrow> (string \<times> jval) list" where
  "opt_field k v = (case v of None \<Rightarrow> [] | Some JNull \<Rightarrow> [] | Some x \<Rightarrow> [(k, x)])"

definition make_event ::
  "string \<Rightarrow> string \<Rightarrow> string \<Rightarrow> string \<Rightarrow> string \<Rightarrow> (string \<times> jval) list \<Rightarrow> job_event" where
  "make_event jid ev actor ts nn fs =
     \<lparr>je_ts = ts, je_event = ev, je_job_id = jid, je_nonce = nn,
      je_fields = map_of (fs @ [(''v'', JInt 1), (''ts'', JStr ts), (''actor'', JStr actor),
                                (''event'', JStr ev), (''job_id'', JStr jid), (''nonce'', JStr nn)])\<rparr>"

definition emit_event ::
  "world \<Rightarrow> string \<Rightarrow> string \<Rightarrow> string \<Rightarrow> string option \<Rightarrow> (string \<times> jval) list \<Rightarrow> (queue_error + bool) bucket_op" where
  "emit_event w jid ev actor ts fs =
     (if \<not> job_id_ok jid then raise_error BadJobId
      else do { t \<leftarrow> (case ts of Some t \<Rightarrow> State_Monad.return t | None \<Rightarrow> now_ts w);
                nn \<leftarrow> nonce w;
                ok \<leftarrow> io_call w (\<lambda>b. b\<lparr>bk_events := (bk_events b)
                        (jid := bk_events b jid @ [make_event jid ev actor t nn fs])\<rparr>);
                State_Monad.return (Inr ok) })"

text \<open>The newest timestamp among the event key names, \<open><ts>-<actor>-<nonce>.json\<close>.\<close>

definition latest_event_ts :: "world \<Rightarrow> string \<Rightarrow> string option bucket_op" where
  "latest_event_ts w jid = io_read w (\<lambda>b.
     max_ts (filter ts_shape (map (\<lambda>e. takeWhile (\<lambda>c. c \<noteq> CHR ''-'') (je_ts e)) (bk_events b jid))))"

definition write_cancel_marker :: "world \<Rightarrow> string \<Rightarrow> (queue_error + bool) bucket_op" where
  "write_cancel_marker w jid =
     (if \<not> job_id_ok jid then raise_error BadJobId
      else do { ok \<leftarrow> io_call w (\<lambda>b. b\<lparr>bk_cancels := (bk_cancels b)(jid := True)\<rparr>);
                State_Monad.return (Inr ok) })"

definition has_cancel_marker :: "world \<Rightarrow> string \<Rightarrow> bool bucket_op" where
  "has_cancel_marker w jid =
     do { x \<leftarrow> io_read w (\<lambda>b. if bk_cancels b jid then Some () else None);
          State_Monad.return (x \<noteq> None) }"

section \<open>Operations\<close>

text \<open>How an operation ends when it does not raise; the Boolean of a move is whether the pointer it
  replaces was reported deleted.\<close>

datatype queue_result =
    SubmittedNew
  | NoopSame
  | TicketPresent
  | NoTicket
  | Retargeted bool
  | RequeuedAt string "bool option"
  | AlreadyDeadLettered
  | DlqFailed
  | DeadLettered bool
  | NoEntry
  | RestoreFailed
  | Restored bool

definition submit_with_id ::
  "world \<Rightarrow> string \<Rightarrow> job_config \<Rightarrow> string \<Rightarrow> string \<Rightarrow> string \<Rightarrow> (queue_error + queue_result) bucket_op" where
  "submit_with_id w jid config box sha actor =
     (if \<not> job_id_ok jid then raise_error BadJobId
      else do {
        existing \<leftarrow> read_ticket w box jid;
        now \<leftarrow> now_ts w;
        case make_ticket jid sha actor config box now of
          Inl e \<Rightarrow> raise_error e
        | Inr tk \<Rightarrow>
           (case existing of
              None \<Rightarrow> do {
                ok \<leftarrow> write_ticket w tk;
                if \<not> ok then raise_error TicketWriteFailed
                else do {
                  _ \<leftarrow> emit_event w jid ''submitted'' actor None
                    ([(''bundle_sha256'', JStr sha)] @ opt_field ''name'' (jc_name config)
                     @ opt_field ''entrypoint'' (jc_entrypoint config)
                     @ opt_field ''timeout_s'' (jc_timeout_s config)
                     @ [(''box'', JStr box), (''n_results_globs'', JInt (int (length (jc_results config))))]
                     @ opt_field ''defend'' (jc_defend config)
                     @ [(''gpu'', JBool (truthy (jc_needs_gpu config)))]);
                  State_Monad.return (Inr SubmittedNew) } }
            | Some t \<Rightarrow>
                if ticket_identity t = ticket_identity tk then State_Monad.return (Inr NoopSame)
                else raise_error SubmitConflict) })"

definition retarget_ticket ::
  "world \<Rightarrow> string \<Rightarrow> string \<Rightarrow> string \<Rightarrow> string \<Rightarrow> (queue_error + queue_result) bucket_op" where
  "retarget_ticket w jid old_box new_box actor =
     (if old_box = new_box then State_Monad.return (Inr NoopSame)
      else do {
        existing_new \<leftarrow> read_ticket w new_box jid;
        src \<leftarrow> read_ticket w old_box jid;
        case src of
          None \<Rightarrow> State_Monad.return (Inr (if existing_new \<noteq> None then TicketPresent else NoTicket))
        | Some t \<Rightarrow> do {
            ok \<leftarrow> write_ticket w (t\<lparr>tk_box := new_box, tk_retargeted_from := Some old_box\<rparr>);
            if \<not> ok then raise_error TicketWriteFailed
            else do {
              del_ok \<leftarrow> delete_ticket w old_box jid;
              ev \<leftarrow> emit_event w jid ''retargeted'' actor None
                [(''box'', JStr new_box), (''from_box'', JStr old_box)];
              case ev of Inl e \<Rightarrow> raise_error e
              | Inr _ \<Rightarrow> State_Monad.return (Inr (Retargeted del_ok)) } } })"

definition requeue_fields :: "string \<Rightarrow> string option \<Rightarrow> string \<Rightarrow> int option \<Rightarrow> (string \<times> jval) list" where
  "requeue_fields new_box old sha attempt =
     [(''kind'', JStr ''requeue''), (''box'', JStr new_box), (''instance_id'', JStr new_box),
      (''from_box'', JStr (dflt ''-'' old)), (''retargeted_from'', JStr (dflt ''-'' old)),
      (''bundle_sha256'', JStr sha)] @ opt_field ''attempt'' (map_option JInt attempt)"

definition requeue_ticket ::
  "world \<Rightarrow> string \<Rightarrow> string \<Rightarrow> job_config \<Rightarrow> string \<Rightarrow> string option \<Rightarrow> int option \<Rightarrow> string
   \<Rightarrow> (queue_error + queue_result) bucket_op" where
  "requeue_ticket w jid new_box config sha old_box attempt actor =
     (if \<not> job_id_ok jid then raise_error BadJobId
      else do {
        ts0 \<leftarrow> now_ts w;
        newest \<leftarrow> latest_event_ts w jid;
        case (case newest of Some n \<Rightarrow> if ts0 \<le> n then ts_succ n else Some ts0 | None \<Rightarrow> Some ts0) of
          None \<Rightarrow> raise_error TsOverflow
        | Some ts \<Rightarrow> do {
            now \<leftarrow> now_ts w;
            case make_ticket jid sha actor config new_box now of
              Inl e \<Rightarrow> raise_error e
            | Inr tk \<Rightarrow> do {
                let old = nonempty old_box;
                ok \<leftarrow> write_ticket w (tk\<lparr>tk_retargeted_from := old, tk_requeued_ts := Some ts\<rparr>);
                if \<not> ok then raise_error TicketWriteFailed
                else do {
                  ev \<leftarrow> emit_event w jid ''resumed'' actor (Some ts)
                    (requeue_fields new_box old sha attempt);
                  case ev of
                    Inl e \<Rightarrow> raise_error e
                  | Inr emitted \<Rightarrow>
                     if \<not> emitted then raise_error ResumeNotEmitted
                     else (case old of
                        None \<Rightarrow> State_Monad.return (Inr (RequeuedAt ts None))
                      | Some ob \<Rightarrow>
                         if ob = new_box then State_Monad.return (Inr (RequeuedAt ts None))
                         else do {
                           stale \<leftarrow> read_ticket w ob jid;
                           if stale = None then State_Monad.return (Inr (RequeuedAt ts None))
                           else do { d \<leftarrow> delete_ticket w ob jid;
                                     State_Monad.return (Inr (RequeuedAt ts (Some d))) } }) } } } })"

definition dead_letter_ticket ::
  "world \<Rightarrow> string \<Rightarrow> string \<Rightarrow> string \<Rightarrow> string option \<Rightarrow> string option \<Rightarrow> string option
   \<Rightarrow> queue_result bucket_op" where
  "dead_letter_ticket w box jid reason actor verdict now =
     do {
       src \<leftarrow> read_ticket w box jid;
       case src of
         None \<Rightarrow> do {
           existing \<leftarrow> read_dlq_entry w box jid;
           State_Monad.return (if existing \<noteq> None then AlreadyDeadLettered else NoTicket) }
       | Some t \<Rightarrow> do {
           ok \<leftarrow> write_dlq_entry w t reason actor verdict now;
           if \<not> ok then State_Monad.return DlqFailed
           else do { d \<leftarrow> delete_ticket w box jid; State_Monad.return (DeadLettered d) } } }"

definition restored_ticket :: "ticket \<Rightarrow> string \<Rightarrow> string option \<Rightarrow> ticket" where
  "restored_ticket entry box new_box =
     (let target = dflt (if tk_box entry = [] then box else tk_box entry) new_box; t = entry\<lparr>tk_dead_letter := None\<rparr>;
          t1 = (if target \<noteq> tk_box t then t\<lparr>tk_retargeted_from := Some (tk_box t)\<rparr> else t)
      in t1\<lparr>tk_box := target\<rparr>)"

definition restore_dlq_entry ::
  "world \<Rightarrow> string \<Rightarrow> string \<Rightarrow> string option \<Rightarrow> string \<Rightarrow> (queue_error + queue_result) bucket_op" where
  "restore_dlq_entry w jid box new_box actor =
     do {
       entry \<leftarrow> read_dlq_entry w box jid;
       case entry of
         None \<Rightarrow> State_Monad.return (Inr NoEntry)
       | Some e \<Rightarrow> do {
           ok \<leftarrow> write_ticket w (restored_ticket e box new_box);
           if \<not> ok then State_Monad.return (Inr RestoreFailed)
           else do {
             ev \<leftarrow> emit_event w jid ''retargeted'' actor None
               [(''box'', JStr (tk_box (restored_ticket e box new_box))), (''from_box'', JStr (tk_box e)),
                (''reason'', JStr ''dlq_restore'')];
             case ev of
               Inl er \<Rightarrow> raise_error er
             | Inr _ \<Rightarrow> do { d \<leftarrow> delete_dlq_entry w box jid; State_Monad.return (Inr (Restored d)) } } } }"

section \<open>What a program leaves behind\<close>

text \<open>\<open>post m Q b\<close>: run from \<open>b\<close>, the program returns a value and a bucket that satisfy \<open>Q\<close>. The
  rules for the calls cover every outcome of the call.\<close>

definition post :: "'a bucket_op \<Rightarrow> ('a \<Rightarrow> bucket \<Rightarrow> bool) \<Rightarrow> bucket \<Rightarrow> bool" where
  "post m Q b = (case run_state m b of (x, b') \<Rightarrow> Q x b')"

lemma post_return [simp]: "post (State_Monad.return x) Q b = Q x b"
  by (simp add: post_def)

lemma post_bind [simp]: "post (State_Monad.bind m f) Q b = post m (\<lambda>x. post (f x) Q) b"
  by (simp add: post_def split: prod.splits)

lemma post_raise [simp]: "post (raise_error e) Q b = Q (Inl e) b"
  by (simp add: raise_error_def)

lemma post_io_call: "Q True (upd (tick b)) \<Longrightarrow> Q False (tick b) \<Longrightarrow> Q False (upd (tick b)) \<Longrightarrow> post (io_call w upd) Q b"
  by (simp add: post_def io_call_def split: io_outcome.splits)

lemma post_io_read: "Q (sel b) (tick b) \<Longrightarrow> Q None (tick b) \<Longrightarrow> post (io_read w sel) Q b"
  by (simp add: post_def io_read_def)

lemma post_now: "(\<And>t. Q t (tick b)) \<Longrightarrow> post (now_ts w) Q b"
  by (simp add: post_def now_ts_def)

lemma post_nonce: "(\<And>t. Q t (tick b)) \<Longrightarrow> post (nonce w) Q b"
  by (simp add: post_def nonce_def)

lemma post_mono: "post m P b \<Longrightarrow> (\<And>x b'. P x b' \<Longrightarrow> Q x b') \<Longrightarrow> post m Q b"
  by (simp add: post_def split: prod.splits)

lemma tick_simps [simp]:
  "bk_queue (tick b) = bk_queue b" "bk_dlq (tick b) = bk_dlq b" "bk_events (tick b) = bk_events b"
  "bk_cancels (tick b) = bk_cancels b" "bk_tick (tick b) = Suc (bk_tick b)"
  by (simp_all add: tick_def)

section \<open>Tickets are never lost\<close>

definition stored :: "bucket \<Rightarrow> string \<Rightarrow> string \<Rightarrow> ticket \<Rightarrow> bool" where
  "stored b box jid t \<longleftrightarrow> readable (bk_queue b (box, jid)) = Some t \<or> readable (bk_dlq b (box, jid)) = Some t"

text \<open>Every object lies under the key its ticket names, as every writer puts it there.\<close>

definition keyed :: "bucket \<Rightarrow> bool" where
  "keyed b \<longleftrightarrow> (\<forall>box jid t. stored b box jid t \<longrightarrow> tk_box t = box \<and> tk_job_id t = jid)"

definition held :: "(ticket \<Rightarrow> bool) \<Rightarrow> string \<Rightarrow> bucket \<Rightarrow> bool" where
  "held F jid b \<longleftrightarrow> keyed b \<and> (\<exists>box t. stored b box jid t) \<and> (\<forall>box t. stored b box jid t \<longrightarrow> F t)"

text \<open>The content a ticket was frozen with at submit.\<close>

definition frozen :: "ticket \<Rightarrow> string \<times> string \<times> string \<times> job_config" where
  "frozen t = (tk_job_id t, tk_bundle_sha256 t, tk_submitted_ts t, tk_config t)"

lemma readable_Body [simp]: "readable (Some (Body t)) = Some t" "readable None = None"
  by (simp_all add: readable_def)

lemma held_same: "bk_queue b' = bk_queue b \<Longrightarrow> bk_dlq b' = bk_dlq b \<Longrightarrow> held F jid b' = held F jid b"
  by (simp add: held_def keyed_def stored_def)

lemma held_tick [simp]: "held F jid (tick b) = held F jid b"
  by (rule held_same) simp_all

lemma held_events [simp]: "held F jid (b\<lparr>bk_events := e\<rparr>) = held F jid b"
  by (rule held_same) simp_all

lemma held_put:
  assumes "held F jid b" "tk_job_id t = jid \<Longrightarrow> F t"
  shows "held F jid (b\<lparr>bk_queue := (bk_queue b)((tk_box t, tk_job_id t) \<mapsto> Body t)\<rparr>)"
  using assms unfolding held_def keyed_def stored_def
  by (auto split: if_splits)

lemma held_put_dlq:
  assumes "held F jid b" "tk_job_id t = jid \<Longrightarrow> F t"
  shows "held F jid (b\<lparr>bk_dlq := (bk_dlq b)((tk_box t, tk_job_id t) \<mapsto> Body t)\<rparr>)"
  using assms unfolding held_def keyed_def stored_def
  by (auto split: if_splits)

text \<open>A pointer may go when the job has a ticket elsewhere.\<close>

lemma held_shrink:
  assumes "held F jid b" "\<And>box j t. stored b' box j t \<Longrightarrow> stored b box j t" "stored b' box jid t"
  shows "held F jid b'"
  using assms unfolding held_def keyed_def by blast

lemma held_other:
  assumes "held F jid b"
  obtains box t where "stored b box jid t"
  using assms unfolding held_def by blast

lemma held_del:
  assumes "held F jid b" "j = jid \<Longrightarrow> \<exists>t. stored (b\<lparr>bk_queue := (bk_queue b)((box, j) := None)\<rparr>) box' jid t"
  shows "held F jid (b\<lparr>bk_queue := (bk_queue b)((box, j) := None)\<rparr>)"
proof -
  obtain c t where "stored b c jid t" using assms(1) by (rule held_other)
  then have "j \<noteq> jid \<Longrightarrow> stored (b\<lparr>bk_queue := (bk_queue b)((box, j) := None)\<rparr>) c jid t"
    by (auto simp: stored_def)
  then obtain c' t' where "stored (b\<lparr>bk_queue := (bk_queue b)((box, j) := None)\<rparr>) c' jid t'"
    using assms(2) by blast
  then show ?thesis by (rule held_shrink [OF assms(1), rotated]) (auto simp: stored_def split: if_splits)
qed

lemma held_del_dlq:
  assumes "held F jid b" "j = jid \<Longrightarrow> \<exists>t. stored (b\<lparr>bk_dlq := (bk_dlq b)((box, j) := None)\<rparr>) box' jid t"
  shows "held F jid (b\<lparr>bk_dlq := (bk_dlq b)((box, j) := None)\<rparr>)"
proof -
  obtain c t where "stored b c jid t" using assms(1) by (rule held_other)
  then have "j \<noteq> jid \<Longrightarrow> stored (b\<lparr>bk_dlq := (bk_dlq b)((box, j) := None)\<rparr>) c jid t"
    by (auto simp: stored_def)
  then obtain c' t' where "stored (b\<lparr>bk_dlq := (bk_dlq b)((box, j) := None)\<rparr>) c' jid t'"
    using assms(2) by blast
  then show ?thesis by (rule held_shrink [OF assms(1), rotated]) (auto simp: stored_def split: if_splits)
qed

lemma held_keyed:
  "held F jid b \<Longrightarrow> readable (bk_queue b (box, j)) = Some t \<Longrightarrow> tk_box t = box \<and> tk_job_id t = j \<and> (j = jid \<longrightarrow> F t)"
  "held F jid b \<Longrightarrow> readable (bk_dlq b (box, j)) = Some t \<Longrightarrow> tk_box t = box \<and> tk_job_id t = j \<and> (j = jid \<longrightarrow> F t)"
  by (auto simp: held_def keyed_def stored_def)

text \<open>The content tests a move respects.\<close>

definition content_test :: "(ticket \<Rightarrow> bool) \<Rightarrow> bool" where
  "content_test F \<longleftrightarrow> (\<forall>t t'. frozen t = frozen t' \<longrightarrow> F t = F t')"

lemma content_testD: "content_test F \<Longrightarrow> F t \<Longrightarrow> frozen t' = frozen t \<Longrightarrow> F t'"
  unfolding content_test_def by blast

lemma held_frame: "held F jid b \<Longrightarrow> bk_queue b' = bk_queue b \<Longrightarrow> bk_dlq b' = bk_dlq b \<Longrightarrow> held F jid b'"
  using held_same by blast

text \<open>The calls as rules over \<open>held\<close>: what is known after each, whatever its outcome.\<close>

lemma held_emit:
  assumes "held F jid b" "\<And>r b'. held F jid b' \<Longrightarrow> bk_queue b' = bk_queue b \<Longrightarrow> bk_dlq b' = bk_dlq b \<Longrightarrow> Q r b'"
  shows "post (emit_event w j ev actor ts fs) Q b"
proof -
  have q: "Q r b'" if "bk_queue b' = bk_queue b" "bk_dlq b' = bk_dlq b" for r b'
    using assms(2) held_frame [OF assms(1) that] that by blast
  show ?thesis unfolding emit_event_def by (auto intro!: post_io_call post_nonce post_now q split: option.splits)
qed

lemma held_now: "held F jid b \<Longrightarrow> (\<And>t b'. held F jid b' \<Longrightarrow> bk_queue b' = bk_queue b \<Longrightarrow> bk_dlq b' = bk_dlq b \<Longrightarrow> Q t b') \<Longrightarrow>
    post (now_ts w) Q b"
  by (rule post_now) simp

lemma held_read:
  assumes "held F jid b" "\<And>b'. held F jid b' \<Longrightarrow> Q None b'"
    "\<And>t b'. held F jid b' \<Longrightarrow> bk_queue b' = bk_queue b \<Longrightarrow> tk_box t = box \<Longrightarrow> tk_job_id t = j \<Longrightarrow> (j = jid \<Longrightarrow> F t) \<Longrightarrow> Q (Some t) b'"
  shows "post (read_ticket w box j) Q b"
  unfolding read_ticket_def using assms held_keyed(1) [OF assms(1), of box j]
  by (cases "readable (bk_queue b (box, j))") (auto intro!: post_io_read)

lemma held_read_dlq:
  assumes "held F jid b" "\<And>b'. held F jid b' \<Longrightarrow> Q None b'"
    "\<And>t b'. held F jid b' \<Longrightarrow> tk_box t = box \<Longrightarrow> tk_job_id t = j \<Longrightarrow> (j = jid \<Longrightarrow> F t) \<Longrightarrow> Q (Some t) b'"
  shows "post (read_dlq_entry w box j) Q b"
  unfolding read_dlq_entry_def using assms held_keyed(2) [OF assms(1), of box j]
  by (cases "readable (bk_dlq b (box, j))") (auto intro!: post_io_read)

lemma held_write:
  assumes "held F jid b" "tk_job_id t = jid \<Longrightarrow> F t" "\<And>b'. held F jid b' \<Longrightarrow> Q False b'"
    "\<And>b'. held F jid b' \<Longrightarrow> bk_queue b' (tk_box t, tk_job_id t) = Some (Body t) \<Longrightarrow> Q True b'"
  shows "post (write_ticket w t) Q b"
proof -
  have h: "held F jid (tick b\<lparr>bk_queue := (bk_queue (tick b))((tk_box t, tk_job_id t) \<mapsto> Body t)\<rparr>)"
    by (rule held_put) (use assms in simp_all)
  show ?thesis unfolding write_ticket_def using h assms by (auto intro!: post_io_call)
qed

lemma held_delete:
  assumes "held F jid b" "j = jid \<Longrightarrow> \<exists>box' t. (box' \<noteq> box \<and> bk_queue b (box', jid) = Some (Body t)) \<or> bk_dlq b (box', jid) = Some (Body t)"
    "\<And>r b'. held F jid b' \<Longrightarrow> Q r b'"
  shows "post (delete_ticket w box j) Q b"
proof -
  have "held F jid (tick b\<lparr>bk_queue := (bk_queue (tick b))((box, j) := None)\<rparr>)"
  proof (cases "j = jid")
    case True
    with assms(2) obtain box' t where
      "(box' \<noteq> box \<and> bk_queue b (box', jid) = Some (Body t)) \<or> bk_dlq b (box', jid) = Some (Body t)" by blast
    then show ?thesis using assms(1) by (intro held_del [where box' = box']) (auto simp: stored_def)
  next
    case False
    then show ?thesis using assms(1) by (intro held_del) simp_all
  qed
  then show ?thesis unfolding delete_ticket_def using assms by (auto intro!: post_io_call)
qed

lemma held_write_dlq:
  assumes "held F jid b" "content_test F" "tk_job_id t = jid \<Longrightarrow> F t" "\<And>b'. held F jid b' \<Longrightarrow> Q False b'"
    "\<And>e b'. held F jid b' \<Longrightarrow> bk_dlq b' (tk_box t, tk_job_id t) = Some (Body e) \<Longrightarrow> Q True b'"
  shows "post (write_dlq_entry w t reason actor verdict now) Q b"
proof -
  have h: "held F jid (b'\<lparr>bk_dlq := (bk_dlq b')((tk_box t, tk_job_id t) \<mapsto> Body (t\<lparr>tk_dead_letter := d\<rparr>))\<rparr>)"
    if "held F jid b'" for b' d
  proof -
    have "tk_job_id t = jid \<Longrightarrow> F (t\<lparr>tk_dead_letter := d\<rparr>)"
      using content_testD [OF assms(2), of t "t\<lparr>tk_dead_letter := d\<rparr>"] assms(3) by (simp add: frozen_def)
    then show ?thesis using held_put_dlq [OF that, of "t\<lparr>tk_dead_letter := d\<rparr>"] by simp
  qed
  have q: "Q x (b'\<lparr>bk_dlq := dl((tk_box t, tk_job_id t) \<mapsto> Body (t\<lparr>tk_dead_letter := d\<rparr>))\<rparr>)"
    if "held F jid b'" "dl = bk_dlq b'" for x b' d dl
    using h [OF that(1)] assms(4,5) that(2) by (cases x) simp_all
  show ?thesis unfolding write_dlq_entry_def Let_def using assms(1,4)
    by (auto intro!: post_io_call post_now q split: option.splits)
qed

lemma held_delete_dlq:
  assumes "held F jid b" "j = jid \<Longrightarrow> \<exists>box' t. bk_queue b (box', jid) = Some (Body t)"
    "\<And>r b'. held F jid b' \<Longrightarrow> Q r b'"
  shows "post (delete_dlq_entry w box j) Q b"
proof -
  have "held F jid (tick b\<lparr>bk_dlq := (bk_dlq (tick b))((box, j) := None)\<rparr>)"
  proof (cases "j = jid")
    case True
    with assms(2) obtain box' t where "bk_queue b (box', jid) = Some (Body t)" by blast
    then show ?thesis using assms(1) by (intro held_del_dlq [where box' = box']) (auto simp: stored_def)
  next
    case False
    then show ?thesis using assms(1) by (intro held_del_dlq) simp_all
  qed
  then show ?thesis unfolding delete_dlq_entry_def using assms by (auto intro!: post_io_call)
qed

section \<open>Every operation keeps a job's ticket\<close>

lemma elsewhere:
  "bk_queue b (c, jid) = Some (Body t) \<Longrightarrow> c \<noteq> box \<Longrightarrow>
     \<exists>box' t. (box' \<noteq> box \<and> bk_queue b (box', jid) = Some (Body t)) \<or> bk_dlq b (box', jid) = Some (Body t)"
  "bk_dlq b (c, jid) = Some (Body t) \<Longrightarrow>
     \<exists>box' t. (box' \<noteq> box \<and> bk_queue b (box', jid) = Some (Body t)) \<or> bk_dlq b (box', jid) = Some (Body t)"
  by blast+

lemma restored_job [simp]: "tk_job_id (restored_ticket t box new) = tk_job_id t"
  by (simp add: restored_ticket_def Let_def)

lemma frozen_restored: "frozen (restored_ticket t box new) = frozen t"
  by (simp add: frozen_def restored_ticket_def Let_def)

lemmas held_calls = held_read held_read_dlq held_write held_write_dlq held_delete held_delete_dlq held_emit held_now

lemma held_retarget:
  assumes "held F jid b" "content_test F"
  shows "post (retarget_ticket w j old new actor) (\<lambda>_. held F jid) b"
proof (cases "old = new")
  case False
  have ft: "F (t\<lparr>tk_box := n, tk_retargeted_from := r\<rparr>)" if "F t" for t n r
    using content_testD [OF assms(2) that] by (simp add: frozen_def)
  show ?thesis
    unfolding retarget_ticket_def using False assms(1)
    by (auto intro!: held_calls [where F = F and jid = jid] split: sum.splits)
      (auto simp: ft intro: elsewhere)
qed (use assms in \<open>simp add: retarget_ticket_def\<close>)

lemma held_dead_letter:
  assumes "held F jid b" "content_test F"
  shows "post (dead_letter_ticket w box j reason actor verdict now) (\<lambda>_. held F jid) b"
  unfolding dead_letter_ticket_def using assms
  by (auto intro!: held_calls [where F = F and jid = jid]) blast+

lemma held_restore:
  assumes "held F jid b" "content_test F"
  shows "post (restore_dlq_entry w j box new actor) (\<lambda>_. held F jid) b"
proof -
  have ft: "F (restored_ticket t c n)" if "F t" for t c n
    using content_testD [OF assms(2) that frozen_restored] .
  show ?thesis
    unfolding restore_dlq_entry_def using assms
    by (auto intro!: held_calls [where F = F and jid = jid] split: sum.splits) (auto simp: ft)
qed

lemma held_latest:
  assumes "held F jid b" "\<And>n b'. held F jid b' \<Longrightarrow> bk_queue b' = bk_queue b \<Longrightarrow> bk_dlq b' = bk_dlq b \<Longrightarrow> Q n b'"
  shows "post (latest_event_ts w j) Q b"
  unfolding latest_event_ts_def by (rule post_io_read) (use assms in auto)

lemma make_ticket_fields:
  "make_ticket j sha actor config box now = Inr t \<Longrightarrow> tk_job_id t = j \<and> tk_box t = box"
  by (auto simp: make_ticket_def split: if_splits)

text \<open>Submit and requeue freeze new content; a job that has a ticket still has one.\<close>

lemma held_submit:
  assumes "held F jid b" "\<And>t. F t"
  shows "post (submit_with_id w j config box sha actor) (\<lambda>_. held F jid) b"
  unfolding submit_with_id_def using assms
  by (auto intro!: held_calls [where F = F and jid = jid] split: sum.splits option.splits)

lemma held_requeue:
  assumes "held F jid b" "\<And>t. F t"
  shows "post (requeue_ticket w j new config sha old attempt actor) (\<lambda>_. held F jid) b"
  unfolding requeue_ticket_def Let_def using assms
  by (auto intro!: held_calls [where F = F and jid = jid] held_latest [where F = F and jid = jid]
      split: sum.splits option.splits)
     (drule make_ticket_fields, metis)+

section \<open>Sequences of operations\<close>

datatype queue_op =
    Submit string job_config string string string
  | Retarget string string string string
  | Requeue string string job_config string "string option" "int option" string
  | DeadLetter string string string "string option" "string option" "string option"
  | Restore string string "string option" string

definition after :: "'a bucket_op \<Rightarrow> bucket \<Rightarrow> bucket" where
  "after m b = snd (run_state m b)"

fun apply_op :: "world \<Rightarrow> bucket \<Rightarrow> queue_op \<Rightarrow> bucket" where
  "apply_op w b (Submit j c box sha actor) = after (submit_with_id w j c box sha actor) b"
| "apply_op w b (Retarget j old new actor) = after (retarget_ticket w j old new actor) b"
| "apply_op w b (Requeue j new c sha old att actor) = after (requeue_ticket w j new c sha old att actor) b"
| "apply_op w b (DeadLetter box j reason actor verdict now) = after (dead_letter_ticket w box j reason actor verdict now) b"
| "apply_op w b (Restore j box new actor) = after (restore_dlq_entry w j box new actor) b"

text \<open>The operations that move a ticket and mint none.\<close>

fun is_move :: "queue_op \<Rightarrow> bool" where
  "is_move (Submit _ _ _ _ _) = False"
| "is_move (Requeue _ _ _ _ _ _ _) = False"
| "is_move _ = True"

lemma held_after: "post m (\<lambda>_. held F jid) b \<Longrightarrow> held F jid (after m b)"
  by (simp add: post_def after_def split: prod.splits)

lemma held_move: "is_move op \<Longrightarrow> held F jid b \<Longrightarrow> content_test F \<Longrightarrow> held F jid (apply_op w b op)"
  by (cases op) (auto intro!: held_after held_retarget held_dead_letter held_restore)

lemma content_test_True: "content_test (\<lambda>_. True)"
  by (simp add: content_test_def)

lemma held_any_op: "held (\<lambda>_. True) jid b \<Longrightarrow> held (\<lambda>_. True) jid (apply_op w b op)"
  by (cases op) (auto intro!: held_after held_retarget held_dead_letter held_restore held_submit held_requeue content_test_True)

text \<open>Two contracts on the same machine: any operation keeps the job's ticket, a move keeps its content.\<close>

interpretation any_op: invariant_machine "held (\<lambda>_. True) jid" "apply_op w" "\<lambda>_. True" "held (\<lambda>_. True) jid" for jid w
  by unfold_locales (auto intro: held_any_op)

definition frozen_as :: "ticket \<Rightarrow> ticket \<Rightarrow> bool" where
  "frozen_as t0 t \<longleftrightarrow> frozen t = frozen t0"

lemma content_test_frozen: "content_test (frozen_as t0)"
  by (simp add: content_test_def frozen_as_def)

interpretation moves: invariant_machine "held (frozen_as t0) jid" "apply_op w" is_move "held (frozen_as t0) jid" for t0 jid w
  by unfold_locales (auto intro: held_move content_test_frozen)

section \<open>Properties\<close>

text \<open>C33. No ticket is ever lost: whatever sequence of submits, moves, requeues, dead-letterings and
  restores is run, by whom and on which jobs, and whichever of their bucket calls fail or are carried
  out although reported failed, a job that has a readable ticket in a queue or the dead-letter prefix
  still has one, under the key it names.\<close>

theorem ticket_never_lost:
  assumes "keyed b" "stored b box jid t"
  shows "\<exists>box' t'. stored (foldl (apply_op w) b ops) box' jid t' \<and> tk_box t' = box' \<and> tk_job_id t' = jid"
proof -
  have "held (\<lambda>_. True) jid b" unfolding held_def using assms by blast
  then have h: "held (\<lambda>_. True) jid (foldl (apply_op w) b ops)" by (rule any_op.reached) simp
  then obtain box' t' where "stored (foldl (apply_op w) b ops) box' jid t'" by (rule held_other)
  with h show ?thesis unfolding held_def keyed_def by blast
qed

text \<open>A move never alters what the ticket was frozen with: through any sequence of retargets,
  dead-letterings and restores, with any calls failing, every readable ticket of the job carries the
  bundle, the config and the submit time it had.\<close>

lemma moves_keep_frozen_content:
  assumes "keyed b" "stored b box jid t" "\<forall>box' t'. stored b box' jid t' \<longrightarrow> frozen t' = frozen t"
    "\<forall>op\<in>set ops. is_move op"
  shows "(\<exists>box' t'. stored (foldl (apply_op w) b ops) box' jid t')
       \<and> (\<forall>box' t'. stored (foldl (apply_op w) b ops) box' jid t' \<longrightarrow> frozen t' = frozen t)"
proof -
  have "held (frozen_as t) jid b" unfolding held_def frozen_as_def using assms(1-3) by blast
  then have "held (frozen_as t) jid (foldl (apply_op w) b ops)" using assms(4) by (rule moves.reached)
  then show ?thesis unfolding held_def frozen_as_def by blast
qed

section \<open>With every call served\<close>

definition served :: "world \<Rightarrow> bool" where
  "served w \<longleftrightarrow> (\<forall>n. w_io w n = Served)"

lemma run_io_call [simp]: "served w \<Longrightarrow> run_state (io_call w upd) b = (True, upd (tick b))"
  by (simp add: served_def io_call_def)

lemma run_io_read [simp]: "served w \<Longrightarrow> run_state (io_read w sel) b = (sel b, tick b)"
  by (simp add: served_def io_read_def)

lemma run_clock [simp]:
  "run_state (now_ts w) b = (w_now w (bk_tick b), tick b)" "run_state (nonce w) b = (w_nonce w (bk_tick b), tick b)"
  by (simp_all add: now_ts_def nonce_def)

lemma run_raise [simp]: "run_state (raise_error e) b = (Inl e, b)"
  by (simp add: raise_error_def)

lemmas ticket_calls = write_ticket_def read_ticket_def delete_ticket_def write_dlq_entry_def read_dlq_entry_def
  delete_dlq_entry_def emit_event_def latest_event_ts_def

text \<open>Restoring a dead letter to the queue it came from undoes the dead-lettering.\<close>

lemma restore_undoes_dead_letter:
  assumes "served w" "job_id_ok jid" "bk_queue b (box, jid) = Some (Body t)" "tk_box t = box" "box \<noteq> []"
    "tk_job_id t = jid" "tk_dead_letter t = None"
  shows "bk_queue (after (restore_dlq_entry w jid box None actor) (after (dead_letter_ticket w box jid reason act verdict now) b))
           = bk_queue b
       \<and> bk_dlq (after (restore_dlq_entry w jid box None actor) (after (dead_letter_ticket w box jid reason act verdict now) b))
           (box, jid) = None"
proof -
  have "run_state (dead_letter_ticket w box jid reason act verdict now) b = (DeadLettered True, b')
      \<Longrightarrow> bk_queue b' = (bk_queue b)((box, jid) := None)
        \<and> (\<exists>d. bk_dlq b' = (bk_dlq b)((box, jid) \<mapsto> Body (t\<lparr>tk_dead_letter := Some d\<rparr>)))" for b'
    using assms by (cases "nonempty now") (auto simp: dead_letter_ticket_def ticket_calls)
  moreover have "\<exists>b'. run_state (dead_letter_ticket w box jid reason act verdict now) b = (DeadLettered True, b')"
    using assms by (cases "nonempty now") (auto simp: dead_letter_ticket_def ticket_calls)
  ultimately obtain b' d where b': "run_state (dead_letter_ticket w box jid reason act verdict now) b = (DeadLettered True, b')"
      "bk_queue b' = (bk_queue b)((box, jid) := None)"
      "bk_dlq b' = (bk_dlq b)((box, jid) \<mapsto> Body (t\<lparr>tk_dead_letter := Some d\<rparr>))" by blast
  have "restored_ticket (t\<lparr>tk_dead_letter := Some d\<rparr>) box None = t"
    using assms(4,5,7) by (simp add: restored_ticket_def)
  then show ?thesis using assms b' by (auto simp: after_def restore_dlq_entry_def ticket_calls fun_eq_iff)
qed

text \<open>C34. Submitting is idempotent and refuses to replace: when the bucket answers the read and a ticket
  is there, an identical submission is a no-op, a different one is a conflict, and in every case the
  bucket stays as it was.\<close>

theorem submit_never_replaces:
  assumes "w_io w (bk_tick b) = Served" "readable (bk_queue b (box, jid)) = Some t"
  shows "fst (run_state (submit_with_id w jid config box sha actor) b) =
      (if \<not> job_id_ok jid then Inl BadJobId
       else if list_ex has_placeholder (jc_asset_prefixes config) then Inl UnresolvedPrefix
       else if ticket_identity t = (jid, sha, box, config) then Inr NoopSame else Inl SubmitConflict)
    \<and> (let b' = after (submit_with_id w jid config box sha actor) b
       in bk_queue b' = bk_queue b \<and> bk_dlq b' = bk_dlq b \<and> bk_events b' = bk_events b)"
proof -
  have r: "run_state (io_read w (\<lambda>b. readable (bk_queue b (box, jid)))) b = (Some t, tick b)"
    using assms by (simp add: io_read_def)
  show ?thesis
    by (auto simp: after_def submit_with_id_def read_ticket_def r make_ticket_def ticket_identity_def Let_def)
qed

text \<open>A read that fails counts as an absent ticket, and the next write replaces the one that is
  there.\<close>

lemma unread_ticket_replaced:
  assumes "w_io w (bk_tick b) = Refused" "\<forall>n. n \<noteq> bk_tick b \<longrightarrow> w_io w n = Served" "job_id_ok jid"
    "\<not> list_ex has_placeholder (jc_asset_prefixes config)" "bk_queue b (box, jid) = Some (Body t)" "tk_bundle_sha256 t \<noteq> sha"
  shows "\<exists>t'. bk_queue (after (submit_with_id w jid config box sha actor) b) (box, jid) = Some (Body t')
          \<and> tk_bundle_sha256 t' = sha"
  using assms
  by (auto simp: after_def submit_with_id_def read_ticket_def write_ticket_def emit_event_def make_ticket_def
      io_read_def io_call_def)

section \<open>Requeue\<close>

lemma max_ts_ge: "x \<in> set xs \<Longrightarrow> \<exists>m. max_ts xs = Some m \<and> x \<le> m"
  using foldr_max_ge [of x "hd xs" "tl xs"] by (cases xs) (auto simp: max_ts_def)

lemma max_ts_in: "max_ts xs = Some m \<Longrightarrow> m \<in> set xs"
  using foldr_max_in [of "tl xs" "hd xs"] by (cases xs) (auto simp: max_ts_def)

lemma event_time_shape:
  assumes "event_time s"
  shows "ts_shape s" "takeWhile (\<lambda>c. c \<noteq> CHR ''-'') s = s"
proof -
  have l: "length s = 19" and sh: "ts_shape s"
    using assms by (auto simp: event_time_def parse_stamp_def split: option.splits if_splits)
  obtain a b c d e f g h i j k l m n p q r v u where s: "s = [a,b,c,d,e,f,g,h,i,j,k,l,m,n,p,q,r,v,u]"
    using list19 [OF l] by blast
  have nd: "\<And>c. py_isdigit c \<Longrightarrow> c \<noteq> CHR ''-''" by (auto simp: py_isdigit_def)
  have "CHR ''-'' \<notin> set s"
    using sh nd unfolding s by (auto simp: ts_shape_def Let_def split: if_splits)
  then show "takeWhile (\<lambda>c. c \<noteq> CHR ''-'') s = s" by (auto simp: takeWhile_eq_all_conv)
  show "ts_shape s" by (rule sh)
qed

lemma sort_key_newest:
  assumes "newer_than evs e"
  shows "sort_key ev_order (evs @ [e]) = sort_key ev_order evs @ [e]"
proof (rule properties_for_sort_key)
  fix k assume "k \<in> set (sort_key ev_order evs @ [e])"
  show "filter (\<lambda>x. ev_order k = ev_order x) (sort_key ev_order evs @ [e]) = filter (\<lambda>x. ev_order k = ev_order x) (evs @ [e])"
    using sort_key_stable [of ev_order "ev_order k" evs] by (simp add: eq_commute)
next
  show "sorted (map ev_order (sort_key ev_order evs @ [e]))"
    using assms by (auto simp: sorted_append newer_than_def order_less_imp_le)
qed simp

lemma newer_than_ts: "\<forall>x\<in>set evs. je_ts x < je_ts e \<Longrightarrow> newer_than evs e"
  by (auto simp: newer_than_def ev_order_def)

text \<open>What a \<open>resumed\<close> that carries its new box does to the fold of a failed job.\<close>

lemma resumed_reopens:
  assumes "newer_than evs e" "je_event e = ''resumed''" "\<exists>x\<in>set evs. je_event x = ''failed''"
    "\<forall>x\<in>set evs. je_event x \<notin> {''done'', ''cancelled''}"
  shows "job_status (evs @ [e]) = ''submitted''" "job_reopened (evs @ [e])"
proof -
  have n: "''failed'' \<in> names_of evs" "''done'' \<notin> names_of evs" "''cancelled'' \<notin> names_of evs"
    using assms(3,4) unfolding names_of_member by auto
  have i: "phase_inv (evs @ [e]) (Requeued ''unknown'')" using n assms(1,2) by (rule phase_inv_requeued)
  show s: "job_status (evs @ [e]) = ''submitted''" using phase_inv_status [OF i] by simp
  show "job_reopened (evs @ [e])"
    using i s unfolding job_reopened_def by (auto simp: JOB_TERMINAL_def)
qed

lemma resumed_places:
  assumes "je_event e = ''resumed''" "job_get ''box'' e = Some (JStr nb)" "job_get ''instance_id'' e = Some (JStr nb)" "nb \<noteq> []"
  shows "fold_target_box (evs @ [e]) = Some (JStr nb)" "job_instance_id (evs @ [e]) = Some (JStr nb)"
  using assms by (simp_all add: fold_target_box_def ticket_moves_def job_in_def has_field_def last_opt_def
      job_instance_id_def Let_def)

text \<open>The timestamp a requeue picks lies after every event on record.\<close>

definition requeue_ts :: "string \<Rightarrow> job_event list \<Rightarrow> string option" where
  "requeue_ts now evs =
     (case max_ts (filter ts_shape (map (\<lambda>e. takeWhile (\<lambda>c. c \<noteq> CHR ''-'') (je_ts e)) evs)) of
        Some n \<Rightarrow> if now \<le> n then ts_succ n else Some now | None \<Rightarrow> Some now)"

lemma requeue_ts_newest:
  assumes "\<forall>e\<in>set evs. event_time (je_ts e)"
  shows "\<exists>ts. requeue_ts now evs = Some ts \<and> (\<forall>e\<in>set evs. je_ts e < ts)"
proof -
  have e: "filter ts_shape (map (\<lambda>e. takeWhile (\<lambda>c. c \<noteq> CHR ''-'') (je_ts e)) evs) = map je_ts evs"
  proof -
    have "map (\<lambda>e. takeWhile (\<lambda>c. c \<noteq> CHR ''-'') (je_ts e)) evs = map je_ts evs"
      using assms event_time_shape(2) by (intro map_cong) auto
    moreover have "filter ts_shape (map je_ts evs) = map je_ts evs"
      using assms event_time_shape(1) by (simp add: filter_id_conv)
    ultimately show ?thesis by (simp only:)
  qed
  show ?thesis
  proof (cases "max_ts (map je_ts evs)")
    case None
    then have "evs = []" by (cases evs) (auto simp: max_ts_def)
    with None e show ?thesis by (simp add: requeue_ts_def)
  next
    case (Some n)
    have le: "\<forall>e\<in>set evs. je_ts e \<le> n"
    proof
      fix e assume "e \<in> set evs"
      then have "je_ts e \<in> set (map je_ts evs)" by simp
      from max_ts_ge [OF this] show "je_ts e \<le> n" using Some by simp
    qed
    have "event_time n" using max_ts_in [OF Some] assms by auto
    then obtain s where s: "ts_succ n = Some s" "n < s" using ts_succ_greater by blast
    show ?thesis
    proof (cases "now \<le> n")
      case True
      then show ?thesis using Some e s le by (auto simp: requeue_ts_def intro: order_le_less_trans)
    next
      case False
      then show ?thesis using Some e le by (auto simp: requeue_ts_def intro: order_le_less_trans)
    qed
  qed
qed

lemma requeue_run:
  assumes "served w" "job_id_ok jid" "\<not> list_ex has_placeholder (jc_asset_prefixes config)"
    "requeue_ts (w_now w (bk_tick b)) (bk_events b jid) = Some ts"
  shows "\<exists>nn. bk_events (after (requeue_ticket w jid nb config sha old att actor) b) jid
             = bk_events b jid @ [make_event jid ''resumed'' actor ts nn (requeue_fields nb (nonempty old) sha att)]"
    and "\<exists>t. bk_queue (after (requeue_ticket w jid nb config sha old att actor) b) (nb, jid) = Some (Body t)
             \<and> tk_requeued_ts t = Some ts \<and> tk_config t = config"
proof -
  have m: "make_ticket jid sha actor config nb now = Inr \<lparr>tk_job_id = jid, tk_bundle_sha256 = sha, tk_submitted_ts = now, tk_actor = actor,
                tk_box = nb, tk_config = config, tk_retargeted_from = None, tk_requeued_ts = None,
                tk_dead_letter = None\<rparr>" for now
    using assms(2,3) by (simp add: make_ticket_def)
  have r: "run_state (latest_event_ts w jid) b = (max_ts (filter ts_shape (map (\<lambda>e. takeWhile (\<lambda>c. c \<noteq> CHR ''-'') (je_ts e)) (bk_events b jid))), tick b)" for b
    using assms(1) by (simp add: latest_event_ts_def)
  have ts: "(case max_ts (filter ts_shape (map (\<lambda>e. takeWhile (\<lambda>c. c \<noteq> CHR ''-'') (je_ts e)) (bk_events b jid))) of
        Some n \<Rightarrow> if w_now w (bk_tick b) \<le> n then ts_succ n else Some (w_now w (bk_tick b)) | None \<Rightarrow> Some (w_now w (bk_tick b))) = Some ts"
    using assms(4) by (simp add: requeue_ts_def)
  show "\<exists>nn. bk_events (after (requeue_ticket w jid nb config sha old att actor) b) jid
             = bk_events b jid @ [make_event jid ''resumed'' actor ts nn (requeue_fields nb (nonempty old) sha att)]"
    "\<exists>t. bk_queue (after (requeue_ticket w jid nb config sha old att actor) b) (nb, jid) = Some (Body t)
             \<and> tk_requeued_ts t = Some ts \<and> tk_config t = config"
    using assms(1,2) unfolding after_def requeue_ticket_def
    by (auto simp: r m ts write_ticket_def emit_event_def read_ticket_def delete_ticket_def Let_def split: option.splits)
qed

text \<open>A requeue of a job whose every ending is a failure re-opens it by construction: with the bucket
  answering, its \<open>resumed\<close> is newer than every event on record whatever the clocks say, so the folded
  job is submitted, re-opened, without a return code, and placed on the new box, whose queue holds a
  ticket marked as requeued.\<close>

lemma requeue_reopens:
  assumes "served w" "job_id_ok jid" "\<not> list_ex has_placeholder (jc_asset_prefixes config)" "nb \<noteq> []"
    "\<forall>e\<in>set (bk_events b jid). event_time (je_ts e)"
    "\<exists>e\<in>set (bk_events b jid). je_event e = ''failed''"
    "\<forall>e\<in>set (bk_events b jid). je_event e \<notin> {''done'', ''cancelled''}"
    "b' = after (requeue_ticket w jid nb config sha old att actor) b"
    "v = fold_job_ordered show_v live 0 (sort_key ev_order (bk_events b' jid))"
  shows "jv_status v = ''submitted'' \<and> jv_reopened v \<and> jv_rc v = None \<and> jv_ended_at v = None
       \<and> jv_target_box v = Some (JStr nb) \<and> jv_instance_id v = Some (JStr nb)
       \<and> (\<exists>t. bk_queue b' (nb, jid) = Some (Body t) \<and> tk_requeued_ts t \<noteq> None)"
proof -
  obtain ts where ts: "requeue_ts (w_now w (bk_tick b)) (bk_events b jid) = Some ts" "\<forall>e\<in>set (bk_events b jid). je_ts e < ts"
    using requeue_ts_newest [OF assms(5)] by blast
  note run = requeue_run [OF assms(1-3) ts(1), of nb sha old att actor, folded assms(8)]
  obtain nn where b': "bk_events b' jid = bk_events b jid @ [make_event jid ''resumed'' actor ts nn (requeue_fields nb (nonempty old) sha att)]"
    (is "_ = _ @ [?e]") using run(1) by blast
  let ?evs = "sort_key ev_order (bk_events b jid)"
  have new: "newer_than (bk_events b jid) ?e" using ts(2) by (intro newer_than_ts) (simp add: make_event_def)
  have s: "sort_key ev_order (bk_events b' jid) = ?evs @ [?e]" unfolding b' using new by (rule sort_key_newest)
  have ev: "je_event ?e = ''resumed''" "job_get ''box'' ?e = Some (JStr nb)" "job_get ''instance_id'' ?e = Some (JStr nb)"
    by (simp_all add: make_event_def job_get_def requeue_fields_def)
  have nw: "newer_than ?evs ?e" using new by (simp add: newer_than_def)
  have r: "job_status (?evs @ [?e]) = ''submitted''" "job_reopened (?evs @ [?e])"
    by (rule resumed_reopens; use nw ev assms(6,7) in simp)+
  have p: "fold_target_box (?evs @ [?e]) = Some (JStr nb)" "job_instance_id (?evs @ [?e]) = Some (JStr nb)"
    using resumed_places [OF ev assms(4)] by simp_all
  show ?thesis using r p run(2) unfolding assms(9) s by (auto simp: fold_job_ordered_def fold_outcome_def Let_def)
qed

section \<open>Concrete queues\<close>

definition plain_config :: "string list \<Rightarrow> job_config" where
  "plain_config prefixes = \<lparr>jc_name = None, jc_entrypoint = None, jc_timeout_s = None, jc_defend = None, jc_results = [],
     jc_needs_gpu = None, jc_asset_prefixes = prefixes, jc_rest = []\<rparr>"

definition demo_ticket :: ticket where
  "demo_ticket = \<lparr>tk_job_id = ''j1'', tk_bundle_sha256 = ''sha'', tk_submitted_ts = ''20260101T000000000Z'',
     tk_actor = ''cli:ws'', tk_box = ''7'', tk_config = plain_config [], tk_retargeted_from = None,
     tk_requeued_ts = None, tk_dead_letter = None\<rparr>"

definition demo_bucket :: "job_event list \<Rightarrow> bucket" where
  "demo_bucket evs = \<lparr>bk_queue = (\<lambda>_. None)((''7'', ''j1'') \<mapsto> Body demo_ticket), bk_dlq = (\<lambda>_. None),
     bk_events = (\<lambda>_. [])(''j1'' := evs), bk_cancels = (\<lambda>_. False), bk_tick = 0\<rparr>"

definition demo_world :: "(nat \<Rightarrow> io_outcome) \<Rightarrow> world" where
  "demo_world io = \<lparr>w_io = io, w_now = (\<lambda>_. ''20260102T000000000Z''), w_nonce = (\<lambda>_. ''ab'')\<rparr>"

definition demo_ops :: "queue_op list" where
  "demo_ops = [Retarget ''j1'' ''7'' ''8'' ''fleetd'', DeadLetter ''8'' ''j1'' ''stale'' None None None,
               Restore ''j1'' ''8'' (Some ''9'') ''cli:ws'']"

lemma demo_stored: "stored (demo_bucket evs) box jid t \<longleftrightarrow> box = ''7'' \<and> jid = ''j1'' \<and> t = demo_ticket"
  by (auto simp: stored_def demo_bucket_def)

lemma demo_keyed: "keyed (demo_bucket evs)"
  by (auto simp: keyed_def demo_stored demo_ticket_def)

lemma demo_served: "served (demo_world (\<lambda>_. Served))"
  by (simp add: served_def demo_world_def)

lemma demo_job_id: "job_id_ok ''j1''"
  by code_simp

theorem ticket_never_lost_witness:
  "\<exists>box' t'. stored (foldl (apply_op (demo_world (\<lambda>n. if n mod 3 = 2 then Unsure else Served))) (demo_bucket []) demo_ops) box' ''j1'' t'
     \<and> tk_box t' = box' \<and> tk_job_id t' = ''j1''"
  by (rule ticket_never_lost [where b = "demo_bucket []" and box = "''7''" and t = demo_ticket])
     (simp_all add: demo_keyed demo_stored)

theorem submit_never_replaces_witness:
  "fst (run_state (submit_with_id (demo_world (\<lambda>_. Served)) ''j1'' (plain_config []) ''7'' ''other'' ''a'') (demo_bucket []))
   = Inl SubmitConflict"
proof -
  have r: "w_io (demo_world (\<lambda>_. Served)) (bk_tick (demo_bucket [])) = Served"
    "readable (bk_queue (demo_bucket []) (''7'', ''j1'')) = Some demo_ticket"
    by (simp_all add: demo_world_def demo_bucket_def)
  show ?thesis using submit_never_replaces [OF r, of "plain_config []" "''other''" "''a''"] demo_job_id
    by (simp add: plain_config_def ticket_identity_def demo_ticket_def)
qed

end
