(* ===== verification/CkptRetention.thy ===== *)
theory CkptRetention
  imports JobFold
begin

text \<open>
  The retention sweep for intermediate checkpoints, \<open>tools/vast/ckpt_retention.py\<close>: the path check
  that fences every deletion, the keys of checkpoint objects, the keep policy, the gates of
  \<open>classify_job\<close>, and the driver over them. Listings and probes of the bucket are arguments.

  Lemma groups: what a path that passes the check looks like; which steps the policy keeps; the
  exact condition of a sweep; what a sweep can never delete; deletion is all or nothing on unsafe
  paths.
\<close>

section \<open>The path check\<close>

definition lstrip_slash :: "string \<Rightarrow> string" where
  "lstrip_slash s = dropWhile (\<lambda>c. c = CHR ''/'') s"

abbreviation segments :: "string \<Rightarrow> string list" where
  "segments \<equiv> split_on CHR ''/''"

text \<open>\<open>None\<close> is \<open>UnsafePath\<close>.\<close>

definition assert_sweepable :: "string \<Rightarrow> string option" where
  "assert_sweepable path =
     (let p = lstrip_slash path; parts = segments p
      in if p = [] \<or> ends_with ''/'' p then None
         else if ''..'' \<in> set parts \<or> ''.'' \<in> set parts then None
         else if \<not> starts_with ''jobs/'' p then None
         else if length parts < 4 \<or> parts ! 2 \<noteq> ''checkpoints'' \<or> parts ! 1 = [] then None
         else Some p)"

definition job_id_of :: "string \<Rightarrow> string option" where
  "job_id_of path = map_option (\<lambda>p. segments p ! 1) (assert_sweepable path)"

section \<open>Checkpoint keys\<close>

type_synonym ckpt_id = "string \<times> nat"

fun join_slash :: "string list \<Rightarrow> string" where
  "join_slash [] = []"
| "join_slash [x] = x"
| "join_slash (x # y # ys) = x @ ''/'' @ join_slash (y # ys)"

definition step_of_name :: "string \<Rightarrow> nat option" where
  "step_of_name seg = (if starts_with ''checkpoint-'' seg then parse_nat (drop 11 seg) else None)"

definition inner_parts :: "string \<Rightarrow> string list" where
  "inner_parts p = drop 3 (segments p)"

text \<open>The deepest segment \<open>checkpoint-<N>\<close>; the root is everything before it.\<close>

fun key_from_end :: "string list \<Rightarrow> ckpt_id option" where
  "key_from_end [] = None"
| "key_from_end (seg # before) =
     (case step_of_name seg of
        Some n \<Rightarrow> Some (join_slash (rev before), n)
      | None \<Rightarrow> key_from_end before)"

definition ckpt_key :: "string \<Rightarrow> ckpt_id option" where
  "ckpt_key p = key_from_end (rev (inner_parts p))"

definition CKPT_COMPLETE_SUFFIX :: string where
  "CKPT_COMPLETE_SUFFIX = ''.complete.json''"

definition marker_key :: "string \<Rightarrow> ckpt_id option" where
  "marker_key p =
     (let parts = inner_parts p
      in if parts = [] \<or> \<not> ends_with CKPT_COMPLETE_SUFFIX (last parts) then None
         else map_option (Pair (join_slash (butlast parts)))
                (step_of_name (take (length (last parts) - length CKPT_COMPLETE_SUFFIX) (last parts))))"

definition any_key :: "string \<Rightarrow> ckpt_id option" where
  "any_key p = (case ckpt_key p of None \<Rightarrow> marker_key p | Some k \<Rightarrow> Some k)"

section \<open>Completeness\<close>

definition CKPT_REQUIRED_FILES :: "string list list" where
  "CKPT_REQUIRED_FILES =
     [[''trainer_state.json''],
      [''optimizer.pt'', ''optimizer.bin''],
      [''scheduler.pt''],
      [''adapter_model.safetensors'', ''adapter_model.bin'', ''model.safetensors'',
       ''pytorch_model.bin'', ''model.safetensors.index.json'', ''pytorch_model.bin.index.json'']]"

definition names_complete :: "string list \<Rightarrow> bool" where
  "names_complete names =
     list_all (\<lambda>group. list_ex (\<lambda>n. n \<in> set names \<or> n @ ''.bnb_skipped'' \<in> set names) group) CKPT_REQUIRED_FILES"

definition marked_keys :: "string list \<Rightarrow> ckpt_id list" where
  "marked_keys paths = List.map_filter marker_key paths"

definition member_names :: "string list \<Rightarrow> ckpt_id \<Rightarrow> string list" where
  "member_names paths k =
     map (\<lambda>p. last (segments p)) (filter (\<lambda>p. marker_key p = None \<and> ckpt_key p = Some k) paths)"

definition member_keys :: "string list \<Rightarrow> ckpt_id list" where
  "member_keys paths = List.map_filter (\<lambda>p. if marker_key p = None then ckpt_key p else None) paths"

definition judgeable_roots :: "string list \<Rightarrow> string list" where
  "judgeable_roots paths =
     map fst (marked_keys paths)
     @ map fst (filter (\<lambda>k. names_complete (member_names paths k)) (member_keys paths))"

definition incomplete_keys :: "string list \<Rightarrow> ckpt_id list" where
  "incomplete_keys paths =
     filter (\<lambda>k. fst k \<in> set (judgeable_roots paths) \<and> k \<notin> set (marked_keys paths)
                 \<and> \<not> names_complete (member_names paths k)) (member_keys paths)"

section \<open>The keep policy\<close>

record keep_policy =
  kp_first :: int
  kp_last :: int
  kp_stride :: int

definition every_nth :: "nat \<Rightarrow> 'a list \<Rightarrow> 'a list" where
  "every_nth k xs = map (\<lambda>i. xs ! i) (filter (\<lambda>i. i mod k = 0) [0..<length xs])"

definition steps_to_keep :: "keep_policy \<Rightarrow> nat list \<Rightarrow> nat list" where
  "steps_to_keep pol steps =
     (let ordered = sort (remdups steps)
      in (if 0 < kp_first pol then take (nat (kp_first pol)) ordered else [])
         @ (if 0 < kp_last pol then drop (length ordered - nat (kp_last pol)) ordered else [])
         @ (if 0 < kp_stride pol then every_nth (nat (kp_stride pol)) ordered else []))"

definition root_steps :: "string \<Rightarrow> ckpt_id list \<Rightarrow> nat list" where
  "root_steps r ks = map snd (filter (\<lambda>k. fst k = r) ks)"

definition keys_to_keep :: "keep_policy \<Rightarrow> ckpt_id list \<Rightarrow> ckpt_id list" where
  "keys_to_keep pol ks =
     concat (map (\<lambda>r. map (Pair r) (steps_to_keep pol (root_steps r ks))) (remdups (map fst ks)))"

section \<open>The gates\<close>

record ckpt_obj =
  co_path :: string
  co_size :: int
  co_mtime :: "rat option"

datatype sweep_action =
    NothingToDo
  | KeepUnknownStatus
  | KeepResumable
  | KeepLive
  | KeepUnpublished
  | KeepUnknownAge
  | KeepPrunedUnknown
  | KeepBoxPruned
  | KeepBoxPrunedNoPolicy
  | KeepYoung
  | Sweep

record ckpt_verdict =
  vd_job_id :: string
  vd_action :: sweep_action
  vd_bytes :: int
  vd_paths :: "string list"
  vd_status :: "string option"
  vd_steps :: "ckpt_id list"
  vd_kept :: "ckpt_id list"
  vd_newest :: "rat option"

record sweep_opts =
  so_window_days :: rat
  so_include_failed :: bool
  so_policy :: keep_policy
  so_sweep_box_pruned :: bool

definition SWEEPABLE_STATUSES :: "string list" where
  "SWEEPABLE_STATUSES = [''done'', ''cancelled'']"

definition RESUMABLE_STATUSES :: "string list" where
  "RESUMABLE_STATUSES = [''failed'']"

definition status_sweepable :: "sweep_opts \<Rightarrow> string \<Rightarrow> bool" where
  "status_sweepable opts s \<longleftrightarrow>
     s \<in> set SWEEPABLE_STATUSES \<or> (so_include_failed opts \<and> s \<in> set RESUMABLE_STATUSES)"

definition policy_empty :: "keep_policy \<Rightarrow> bool" where
  "policy_empty pol \<longleftrightarrow> kp_first pol = 0 \<and> kp_last pol = 0 \<and> kp_stride pol = 0"

definition newest_mtime :: "ckpt_obj list \<Rightarrow> rat option" where
  "newest_mtime objs = max_opt (List.map_filter co_mtime objs)"

text \<open>The gates in the code's order; the objects' paths have passed the check.\<close>

definition gate ::
  "sweep_opts \<Rightarrow> ckpt_obj list \<Rightarrow> string option \<Rightarrow> bool option \<Rightarrow> bool option \<Rightarrow> rat \<Rightarrow> sweep_action option" where
  "gate opts objs status published pruned now =
     (if objs = [] then Some NothingToDo
      else case status of
        None \<Rightarrow> Some KeepUnknownStatus
      | Some s \<Rightarrow>
         if s \<in> set RESUMABLE_STATUSES \<and> \<not> so_include_failed opts then Some KeepResumable
         else if \<not> status_sweepable opts s then Some KeepLive
         else if published \<noteq> Some True then Some KeepUnpublished
         else if list_ex (\<lambda>ob. co_mtime ob = None) objs then Some KeepUnknownAge
         else if pruned = None then Some KeepPrunedUnknown
         else if pruned = Some True \<and> \<not> so_sweep_box_pruned opts then Some KeepBoxPruned
         else if pruned = Some True \<and> policy_empty (so_policy opts) then Some KeepBoxPrunedNoPolicy
         else case newest_mtime objs of
           None \<Rightarrow> Some KeepUnknownAge
         | Some n \<Rightarrow> if now - so_window_days opts * 86400 < n then Some KeepYoung else None)"

definition safe_path :: "ckpt_obj \<Rightarrow> string" where
  "safe_path ob = the (assert_sweepable (co_path ob))"

definition ckpt_steps :: "ckpt_obj list \<Rightarrow> ckpt_id list" where
  "ckpt_steps objs = sort (remdups (List.map_filter any_key (map safe_path objs)))"

text \<open>Torn uploads take no keep slot.\<close>

definition kept_keys :: "keep_policy \<Rightarrow> ckpt_obj list \<Rightarrow> ckpt_id list" where
  "kept_keys pol objs =
     keys_to_keep pol (filter (\<lambda>k. k \<notin> set (incomplete_keys (map safe_path objs))) (ckpt_steps objs))"

definition doomed_objects :: "keep_policy \<Rightarrow> ckpt_obj list \<Rightarrow> ckpt_obj list" where
  "doomed_objects pol objs =
     filter (\<lambda>ob. case any_key (safe_path ob) of None \<Rightarrow> True | Some k \<Rightarrow> k \<notin> set (kept_keys pol objs)) objs"

definition keep_verdict :: "string \<Rightarrow> ckpt_obj list \<Rightarrow> string option \<Rightarrow> sweep_action \<Rightarrow> ckpt_id list \<Rightarrow> ckpt_verdict" where
  "keep_verdict jid objs status a kept =
     \<lparr>vd_job_id = jid, vd_action = a, vd_bytes = 0, vd_paths = [], vd_status = status,
      vd_steps = ckpt_steps objs, vd_kept = kept, vd_newest = newest_mtime objs\<rparr>"

definition classify_job ::
  "sweep_opts \<Rightarrow> string \<Rightarrow> ckpt_obj list \<Rightarrow> string option \<Rightarrow> bool option \<Rightarrow> bool option \<Rightarrow> rat \<Rightarrow> ckpt_verdict option" where
  "classify_job opts jid objects status published pruned now =
     (let objs = filter (\<lambda>ob. 0 \<le> co_size ob) objects; pol = so_policy opts
      in if list_ex (\<lambda>ob. assert_sweepable (co_path ob) = None) objs then None
      else case gate opts objs status published pruned now of
            Some a \<Rightarrow> Some (keep_verdict jid objs status a [])
          | None \<Rightarrow>
             (let doomed = doomed_objects pol objs; kept = sort (remdups (kept_keys pol objs))
              in if doomed = [] then Some (keep_verdict jid objs status NothingToDo kept)
                 else Some \<lparr>vd_job_id = jid, vd_action = Sweep, vd_bytes = sum_list (map co_size doomed),
                        vd_paths = map co_path doomed, vd_status = status, vd_steps = ckpt_steps objs,
                        vd_kept = kept, vd_newest = newest_mtime objs\<rparr>))"

definition count_actions :: "ckpt_verdict list \<Rightarrow> sweep_action \<Rightarrow> nat" where
  "count_actions vs a = length (filter (\<lambda>v. vd_action v = a) vs)"

record plan_totals =
  pt_jobs :: nat
  pt_sweep_jobs :: nat
  pt_sweep_objects :: nat
  pt_sweep_bytes :: int

definition plan_summary :: "ckpt_verdict list \<Rightarrow> plan_totals" where
  "plan_summary vs =
     (let sw = filter (\<lambda>v. vd_action v = Sweep) vs
      in \<lparr>pt_jobs = length vs, pt_sweep_jobs = length sw,
          pt_sweep_objects = sum_list (map (\<lambda>v. length (vd_paths v)) sw),
          pt_sweep_bytes = sum_list (map vd_bytes sw)\<rparr>)"

section \<open>Listings and probes\<close>

text \<open>One row of the recursive listing under \<open>jobs/\<close>: its path there, its size, and its modification
  time where that parses.\<close>

record ls_row =
  lr_path :: string
  lr_size :: int
  lr_mtime :: "rat option"

definition row_object :: "ls_row \<Rightarrow> (string \<times> ckpt_obj) option" where
  "row_object row =
     (let path = ''jobs/'' @ lstrip_slash (lr_path row)
      in map_option (\<lambda>jid. (jid, \<lparr>co_path = path, co_size = lr_size row, co_mtime = lr_mtime row\<rparr>)) (job_id_of path))"

definition list_checkpoint_objects :: "ls_row list option \<Rightarrow> (string \<times> ckpt_obj) list option" where
  "list_checkpoint_objects listing = map_option (List.map_filter row_object) listing"

text \<open>An \<open>lsf\<close> probe: it printed something or nothing, the key is reported absent, or it failed.\<close>

datatype probe = Found | Blank | Absent | ProbeFailed

definition is_box_pruned :: "probe \<Rightarrow> bool option" where
  "is_box_pruned p = (case p of Found \<Rightarrow> Some True | Blank \<Rightarrow> Some False | Absent \<Rightarrow> Some False | ProbeFailed \<Rightarrow> None)"

definition is_published :: "probe option \<Rightarrow> probe \<Rightarrow> probe \<Rightarrow> bool option" where
  "is_published published_json done_marker results =
     (if published_json = Some Found then Some True
      else case done_marker of
        Absent \<Rightarrow> Some False
      | ProbeFailed \<Rightarrow> None
      | Blank \<Rightarrow> Some False
      | Found \<Rightarrow> (case results of Found \<Rightarrow> Some True | Blank \<Rightarrow> Some False | Absent \<Rightarrow> Some False | ProbeFailed \<Rightarrow> None))"

text \<open>The folded status of a job, \<open>None\<close> when its event stream said nothing; a re-opened job has a
  status of its own.\<close>

definition ckpt_job_status :: "raw_object list \<Rightarrow> string option" where
  "ckpt_job_status raws =
     (if raws = [] then None
      else let v = fold_job_events (\<lambda>_. []) {} raws
        in if jv_reopened v then Some ''reopened'' else Some (jv_status v))"

record job_evidence =
  je_raws :: "raw_object list"
  je_published :: "bool option"
  je_pruned :: "bool option"

definition build_verdicts ::
  "sweep_opts \<Rightarrow> (string \<times> ckpt_obj) list option \<Rightarrow> (string \<Rightarrow> job_evidence) \<Rightarrow> string list option \<Rightarrow> rat
   \<Rightarrow> ckpt_verdict option list option" where
  "build_verdicts opts listed evidence only now =
     map_option (\<lambda>rows.
       map (\<lambda>jid.
          let ev = evidence jid; st = ckpt_job_status (je_raws ev);
              probed = (case st of None \<Rightarrow> False | Some s \<Rightarrow> status_sweepable opts s)
          in classify_job opts jid (map snd (filter (\<lambda>r. fst r = jid) rows)) st
               (if probed then je_published ev else None) (if probed then je_pruned ev else None) now)
        (filter (\<lambda>jid. case only of None \<Rightarrow> True | Some js \<Rightarrow> js = [] \<or> jid \<in> set js)
           (sort (remdups (map fst rows))))) listed"

section \<open>Deleting\<close>

text \<open>\<open>None\<close> is the raised \<open>UnsafePath\<close>; the calls that succeed are given by \<open>served\<close>. The result is
  the paths deleted and the paths that failed.\<close>

definition delete_objects :: "(string \<Rightarrow> bool) \<Rightarrow> string list \<Rightarrow> (string list \<times> string list) option" where
  "delete_objects served paths =
     (if list_ex (\<lambda>p. assert_sweepable p = None) paths then None
      else let checked = map (the \<circ> assert_sweepable) paths
        in Some (filter served checked, filter (\<lambda>p. \<not> served p) checked))"

text \<open>The sweep over a plan: everything deleted before it stops, and whether it ran to the end.\<close>

fun sweep_plan :: "(string \<Rightarrow> bool) \<Rightarrow> ckpt_verdict list \<Rightarrow> string list \<times> bool" where
  "sweep_plan served [] = ([], True)"
| "sweep_plan served (v # vs) =
     (case delete_objects served (vd_paths v) of
        None \<Rightarrow> ([], False)
      | Some (d, _) \<Rightarrow> (let (ds, ok) = sweep_plan served vs in (d @ ds, ok)))"

definition sweep :: "bool \<Rightarrow> (string \<Rightarrow> bool) \<Rightarrow> ckpt_verdict list \<Rightarrow> string list \<times> bool" where
  "sweep apply_it served verdicts =
     (if \<not> apply_it then ([], True) else sweep_plan served (filter (\<lambda>v. vd_action v = Sweep) verdicts))"

section \<open>What the path check admits\<close>

lemma split_on_nonempty [simp]: "split_on c s \<noteq> []"
  by (induction s) (auto split: list.splits)

lemma starts_with_append: "starts_with p s \<longleftrightarrow> (\<exists>r. s = p @ r)"
  by (induction p s rule: starts_with.induct) auto

lemma split_on_prefix: "c \<notin> set p \<Longrightarrow> split_on c (p @ c # r) = p # split_on c r"
  by (induction p) auto

lemma sweepable_shape:
  assumes "assert_sweepable path = Some p"
  shows "\<exists>jid rest. segments p = ''jobs'' # jid # ''checkpoints'' # rest \<and> jid \<noteq> [] \<and> rest \<noteq> [] \<and> ''..'' \<notin> set (segments p)"
proof -
  have p: "starts_with ''jobs/'' p" "4 \<le> length (segments p)" "segments p ! 2 = ''checkpoints''" "segments p ! 1 \<noteq> []"
      "''..'' \<notin> set (segments p)"
    using assms by (auto simp: assert_sweepable_def Let_def split: if_splits)
  from p(1) obtain r where "p = ''jobs/'' @ r" unfolding starts_with_append by blast
  then have "segments p = ''jobs'' # segments r" using split_on_prefix [of "CHR ''/''" "''jobs''" r] by simp
  then obtain jid c rest where s: "segments p = ''jobs'' # jid # c # rest" "rest \<noteq> []"
    using p(2) by (cases "segments r"; cases "tl (segments r)"; cases "tl (tl (segments r))") auto
  then show ?thesis using p(3-5) by auto
qed

text \<open>A published adapter lies under \<open>checkpoints/\<close> at the top of the bucket; no admitted path does.\<close>

lemma sweepable_not_published: "assert_sweepable path = Some p \<Longrightarrow> hd (segments p) \<noteq> ''checkpoints''"
  using sweepable_shape [of path p] by auto

section \<open>What the policy keeps\<close>

lemma keys_to_keep_iff:
  "(r, n) \<in> set (keys_to_keep pol ks) \<longleftrightarrow> r \<in> fst ` set ks \<and> n \<in> set (steps_to_keep pol (root_steps r ks))"
  by (auto simp: keys_to_keep_def)

lemma drop_last_in: "xs \<noteq> [] \<Longrightarrow> 0 < k \<Longrightarrow> last xs \<in> set (drop (length xs - k) xs)"
  by (metis diff_less last_drop last_in_set length_greater_0_conv drop_eq_Nil not_le)

lemma sorted_last_max: "sorted xs \<Longrightarrow> x \<in> set xs \<Longrightarrow> x \<le> last (xs :: 'a::linorder list)"
  by (induction xs) auto

lemma newest_step_kept:
  assumes "0 < kp_last pol" "n \<in> set steps" "\<forall>m\<in>set steps. m \<le> n"
  shows "n \<in> set (steps_to_keep pol steps)"
proof -
  let ?o = "sort (remdups steps)"
  have so: "set ?o = set steps" by simp
  then have ne: "?o \<noteq> []" using assms(2) by (metis empty_iff list.set(1))
  have "last ?o = n"
  proof (rule antisym)
    show "last ?o \<le> n" using so assms(3) last_in_set [OF ne] by blast
    show "n \<le> last ?o" using so assms(2) by (intro sorted_last_max) auto
  qed
  then have "n \<in> set (drop (length ?o - nat (kp_last pol)) ?o)"
    using drop_last_in [OF ne, of "nat (kp_last pol)"] assms(1) by simp
  then show ?thesis using assms(1) by (simp add: steps_to_keep_def Let_def)
qed

section \<open>When a job is swept\<close>

lemma gate_open:
  "gate opts objs status published pruned now = None \<longleftrightarrow>
     objs \<noteq> [] \<and> (\<exists>s. status = Some s \<and> status_sweepable opts s) \<and> published = Some True
     \<and> (\<forall>ob\<in>set objs. \<exists>m. co_mtime ob = Some m \<and> m \<le> now - so_window_days opts * 86400)
     \<and> pruned \<noteq> None \<and> (pruned = Some True \<longrightarrow> so_sweep_box_pruned opts \<and> \<not> policy_empty (so_policy opts))"
  (is "?L \<longleftrightarrow> ?R")
proof
  assume ?L
  then obtain s n where s: "objs \<noteq> []" "status = Some s" "status_sweepable opts s" "published = Some True"
      "\<forall>ob\<in>set objs. co_mtime ob \<noteq> None" "pruned \<noteq> None"
      "pruned = Some True \<longrightarrow> so_sweep_box_pruned opts \<and> \<not> policy_empty (so_policy opts)"
      "newest_mtime objs = Some n" "n \<le> now - so_window_days opts * 86400"
    by (auto simp: gate_def list_ex_iff not_less split: option.splits if_splits)
  have "\<exists>m. co_mtime ob = Some m \<and> m \<le> n" if "ob \<in> set objs" for ob
  proof -
    from s(5) that obtain m where m: "co_mtime ob = Some m" by auto
    then have "m \<in> set (List.map_filter co_mtime objs)" using that by (force simp: List.map_filter_def)
    with s(8) m show ?thesis using max_opt_ge unfolding newest_mtime_def by fastforce
  qed
  with s show ?R by (fastforce intro: order_trans)
next
  assume r: ?R
  then obtain s where s: "status = Some s" "status_sweepable opts s" by blast
  have "newest_mtime objs \<noteq> None"
  proof -
    from r obtain ob m where "ob \<in> set objs" "co_mtime ob = Some m" by (metis last_in_set)
    then have "List.map_filter co_mtime objs \<noteq> []" by (induction objs) (auto simp: List.map_filter_simps split: option.splits)
    then show ?thesis by (simp add: newest_mtime_def max_opt_def)
  qed
  then obtain n where n: "newest_mtime objs = Some n" by blast
  then have "n \<in> set (List.map_filter co_mtime objs)" unfolding newest_mtime_def by (rule max_opt_in)
  then have "n \<le> now - so_window_days opts * 86400" using r by (auto simp: List.map_filter_def)
  moreover have "\<not> list_ex (\<lambda>ob. co_mtime ob = None) objs" using r by (auto simp: list_ex_iff)
  moreover have "s \<in> set RESUMABLE_STATUSES \<longrightarrow> so_include_failed opts"
    using s(2) by (auto simp: status_sweepable_def SWEEPABLE_STATUSES_def RESUMABLE_STATUSES_def)
  ultimately show ?L using r s n by (auto simp: gate_def)
qed

lemma classify_swept:
  assumes "classify_job opts jid objects status published pruned now = Some v" "vd_paths v \<noteq> []"
    "objs = filter (\<lambda>ob. 0 \<le> co_size ob) objects"
  shows "gate opts objs status published pruned now = None"
    "\<forall>ob\<in>set objs. assert_sweepable (co_path ob) \<noteq> None"
    "vd_paths v = map co_path (doomed_objects (so_policy opts) objs)"
proof -
  have a: "\<not> list_ex (\<lambda>ob. assert_sweepable (co_path ob) = None) objs"
    using assms(1,3) by (auto simp: classify_job_def Let_def)
  then show "\<forall>ob\<in>set objs. assert_sweepable (co_path ob) \<noteq> None" by (simp add: list_ex_iff)
  show g: "gate opts objs status published pruned now = None"
    using assms a by (cases "gate opts objs status published pruned now") (auto simp: classify_job_def keep_verdict_def Let_def)
  show "vd_paths v = map co_path (doomed_objects (so_policy opts) objs)"
    using assms a g by (auto simp: classify_job_def keep_verdict_def Let_def split: if_splits)
qed

lemma doomed_sub: "set (doomed_objects pol objs) \<subseteq> set objs"
  by (auto simp: doomed_objects_def)

lemma delete_objects_safe:
  assumes "delete_objects served paths = Some (d, f)" "p \<in> set d"
  shows "\<exists>path\<in>set paths. assert_sweepable path = Some p"
  using assms by (auto simp: delete_objects_def Let_def list_ex_iff split: if_splits) blast

lemma sweep_plan_safe: "p \<in> set (fst (sweep_plan served vs)) \<Longrightarrow> \<exists>v\<in>set vs. \<exists>path\<in>set (vd_paths v). assert_sweepable path = Some p"
  by (induction vs) (auto split: option.splits prod.splits dest!: delete_objects_safe)

section \<open>Properties\<close>

text \<open>C36. Every gate must pass: a path is planned for deletion only for a job whose status is known and
  sweepable, with a published artifact, every object readably older than the window, the box-prune
  marker readable and, if set, opted in with a non-empty keep policy; and the path is an object under
  \<open>jobs/<job>/checkpoints/\<close>.\<close>

theorem sweep_needs_every_gate:
  assumes "classify_job opts jid objects status published pruned now = Some v" "path \<in> set (vd_paths v)"
  shows "(\<exists>s. status = Some s \<and> status_sweepable opts s) \<and> published = Some True \<and> pruned \<noteq> None
    \<and> (pruned = Some True \<longrightarrow> so_sweep_box_pruned opts \<and> \<not> policy_empty (so_policy opts))
    \<and> (\<forall>ob\<in>set objects. 0 \<le> co_size ob \<longrightarrow> (\<exists>m. co_mtime ob = Some m \<and> m \<le> now - so_window_days opts * 86400))
    \<and> (\<exists>p j rest. assert_sweepable path = Some p \<and> segments p = ''jobs'' # j # ''checkpoints'' # rest \<and> j \<noteq> [] \<and> rest \<noteq> [])"
proof -
  define objs where "objs = filter (\<lambda>ob. 0 \<le> co_size ob) objects"
  have ne: "vd_paths v \<noteq> []" using assms(2) by auto
  note sw = classify_swept [OF assms(1) ne objs_def]
  have g: "(\<exists>s. status = Some s \<and> status_sweepable opts s)" "published = Some True" "pruned \<noteq> None"
      "pruned = Some True \<longrightarrow> so_sweep_box_pruned opts \<and> \<not> policy_empty (so_policy opts)"
      "\<forall>ob\<in>set objs. \<exists>m. co_mtime ob = Some m \<and> m \<le> now - so_window_days opts * 86400"
    using sw(1) unfolding gate_open by blast+
  from assms(2) sw(3) obtain ob where "ob \<in> set objs" "path = co_path ob" using doomed_sub by fastforce
  with sw(2) obtain p where p: "assert_sweepable path = Some p" by auto
  have "\<exists>j rest. segments p = ''jobs'' # j # ''checkpoints'' # rest \<and> j \<noteq> [] \<and> rest \<noteq> []"
    using sweepable_shape [OF p] by blast
  with g p show ?thesis by (simp add: objs_def)
qed

text \<open>With \<open>keep-last\<close> set, the newest checkpoint of a layout root that is not positively torn survives
  every sweep, each of its objects and its completion marker included.\<close>

lemma newest_checkpoint_survives:
  assumes "classify_job opts jid objects status published pruned now = Some v" "0 < kp_last (so_policy opts)"
    "objs = filter (\<lambda>ob. 0 \<le> co_size ob) objects" "ob \<in> set objs" "any_key (safe_path ob) = Some (r, n)"
    "(r, n) \<notin> set (incomplete_keys (map safe_path objs))"
    "\<forall>ob'\<in>set objs. \<forall>m. any_key (safe_path ob') = Some (r, m) \<longrightarrow> m \<le> n"
  shows "co_path ob \<notin> set (vd_paths v)"
proof
  assume mem: "co_path ob \<in> set (vd_paths v)"
  then have ne: "vd_paths v \<noteq> []" by auto
  note sw = classify_swept [OF assms(1) ne assms(3)]
  let ?ks = "filter (\<lambda>k. k \<notin> set (incomplete_keys (map safe_path objs))) (ckpt_steps objs)"
  have st: "k \<in> set (ckpt_steps objs) \<longleftrightarrow> (\<exists>ob'\<in>set objs. any_key (safe_path ob') = Some k)" for k
    by (force simp: ckpt_steps_def List.map_filter_def)
  have k: "(r, n) \<in> set ?ks" using assms(4-6) st by auto
  have "n \<in> set (root_steps r ?ks)" using k by (force simp: root_steps_def)
  moreover have "\<forall>m\<in>set (root_steps r ?ks). m \<le> n" using assms(7) st by (auto simp: root_steps_def)
  ultimately have "n \<in> set (steps_to_keep (so_policy opts) (root_steps r ?ks))" using assms(2) by (intro newest_step_kept)
  moreover have "r \<in> fst ` set ?ks" using k by force
  ultimately have kept: "(r, n) \<in> set (kept_keys (so_policy opts) objs)" unfolding kept_keys_def keys_to_keep_iff by blast
  from mem sw(3) obtain ob' where ob': "ob' \<in> set (doomed_objects (so_policy opts) objs)" "co_path ob' = co_path ob" by auto
  then have "safe_path ob' = safe_path ob" by (simp add: safe_path_def)
  with ob'(1) kept assms(5) show False by (simp add: doomed_objects_def)
qed

lemma fold_status_on_record:
  assumes "fold_status evs = s" "s \<in> {''done'', ''cancelled''}"
  shows "s \<in> names_of evs"
proof (cases "''failed'' \<in> names_of evs \<and> ''done'' \<in> names_of evs")
  case True
  then obtain f d where "newest_order (job_is ''failed'') evs = Some f" "newest_order (job_is ''done'') evs = Some d"
    using newest_named by blast
  then show ?thesis using assms True by (auto simp: fold_status_ranked simp del: less_prod_simp split: if_splits)
next
  case False
  then show ?thesis using assms unfolding fold_status_alone [OF False] by (auto simp: status_lattice_def split: if_splits)
qed

lemma job_status_on_record:
  assumes "job_status evs \<in> {''done'', ''cancelled''}"
  shows "\<exists>e\<in>set evs. je_event e \<in> {''done'', ''cancelled''}"
proof -
  have "job_status evs \<in> set JOB_TERMINAL" using assms by (auto simp: JOB_TERMINAL_def)
  then have "reopen_order evs = None" unfolding job_status_terminal by simp
  then have fs: "fold_status evs \<in> {''done'', ''cancelled''}" using assms by (simp add: job_status_def)
  then have "fold_status evs \<in> names_of evs" using fold_status_on_record [OF refl] by blast
  then obtain e where "e \<in> set evs" "je_event e = fold_status evs" unfolding names_of_member by blast
  then show ?thesis using fs by auto
qed

text \<open>Only an ended job is swept: unless failed jobs are opted in, a path is planned for deletion only if
  the job's event log holds a \<open>done\<close> or a \<open>cancelled\<close>; failed and re-opened jobs, whose checkpoints
  are their resume state, are never touched.\<close>

lemma swept_job_has_ended:
  assumes "classify_job opts jid objects (ckpt_job_status raws) published pruned now = Some v" "vd_paths v \<noteq> []"
    "\<not> so_include_failed opts"
  shows "\<exists>r\<in>set raws. \<exists>e. job_coerce r = Some e \<and> je_event e \<in> {''done'', ''cancelled''}"
proof -
  have "gate opts (filter (\<lambda>ob. 0 \<le> co_size ob) objects) (ckpt_job_status raws) published pruned now = None"
    using assms(1,2) refl by (rule classify_swept(1))
  then obtain s where s: "ckpt_job_status raws = Some s" "status_sweepable opts s" unfolding gate_open by blast
  then have t: "s \<in> {''done'', ''cancelled''}" using assms(3) by (auto simp: status_sweepable_def SWEEPABLE_STATUSES_def)
  let ?evs = "sort_key ev_order (List.map_filter job_coerce raws)"
  have "jv_status (fold_job_events (\<lambda>_. []) {} raws) = s"
    using s(1) t by (auto simp: ckpt_job_status_def Let_def split: if_splits)
  then have "job_status ?evs \<in> {''done'', ''cancelled''}" using t by (simp add: fold_job_events_def jv_status_fold)
  then obtain e where e: "e \<in> set ?evs" "je_event e \<in> {''done'', ''cancelled''}" using job_status_on_record by blast
  then have "e \<in> set (List.map_filter job_coerce raws)" by simp
  then obtain r where "r \<in> set raws" "job_coerce r = Some e" by (auto simp: List.map_filter_def)
  with e(2) show ?thesis by blast
qed

text \<open>One unsafe path in a job's plan deletes nothing of that job; but the jobs before it in the plan are
  already gone.\<close>

lemma unsafe_plan_deletes_nothing: "path \<in> set paths \<Longrightarrow> assert_sweepable path = None \<Longrightarrow> delete_objects served paths = None"
  by (auto simp: delete_objects_def list_ex_iff)

lemma sweep_stops_midway:
  "sweep True (\<lambda>_. True)
     [keep_verdict ''a'' [] None Sweep []\<lparr>vd_paths := [''jobs/a/checkpoints/x'']\<rparr>,
      keep_verdict ''b'' [] None Sweep []\<lparr>vd_paths := [''checkpoints/RUN/adapter'']\<rparr>]
   = ([''jobs/a/checkpoints/x''], False)"
  by code_simp

definition old_obj :: "string \<Rightarrow> ckpt_obj" where
  "old_obj path = \<lparr>co_path = path, co_size = 5, co_mtime = Some 0\<rparr>"

definition demo_objs :: "ckpt_obj list" where
  "demo_objs = [old_obj ''jobs/j1/checkpoints/out/checkpoint-5/optimizer.pt'',
                old_obj ''jobs/j1/checkpoints/out/checkpoint-10/optimizer.pt'']"

definition demo_opts :: "keep_policy \<Rightarrow> sweep_opts" where
  "demo_opts pol = \<lparr>so_window_days = 7, so_include_failed = False, so_policy = pol, so_sweep_box_pruned = False\<rparr>"

definition keep_newest :: keep_policy where
  "keep_newest = \<lparr>kp_first = 0, kp_last = 1, kp_stride = 0\<rparr>"

definition demo_verdict :: ckpt_verdict where
  "demo_verdict = the (classify_job (demo_opts keep_newest) ''j1'' demo_objs (Some ''done'') (Some True) (Some False) 1000000)"

lemma demo_classified:
  "classify_job (demo_opts keep_newest) ''j1'' demo_objs (Some ''done'') (Some True) (Some False) 1000000 = Some demo_verdict"
  "vd_paths demo_verdict = [''jobs/j1/checkpoints/out/checkpoint-5/optimizer.pt'']"
  by code_simp+

theorem sweep_needs_every_gate_witness:
  "\<exists>p j rest. assert_sweepable ''jobs/j1/checkpoints/out/checkpoint-5/optimizer.pt'' = Some p
     \<and> segments p = ''jobs'' # j # ''checkpoints'' # rest \<and> j \<noteq> [] \<and> rest \<noteq> []"
  using sweep_needs_every_gate [OF demo_classified(1), of "''jobs/j1/checkpoints/out/checkpoint-5/optimizer.pt''"] demo_classified(2)
  by simp

text \<open>A negative count passes the test for a non-empty policy and protects no step: the sole copies go.\<close>

lemma negative_policy_keeps_nothing:
  "map_option vd_paths (classify_job
     ((demo_opts \<lparr>kp_first = - 1, kp_last = 0, kp_stride = 0\<rparr>)\<lparr>so_sweep_box_pruned := True\<rparr>)
     ''j1'' demo_objs (Some ''done'') (Some True) (Some True) 1000000)
   = Some (map co_path demo_objs)"
  by code_simp

end
