(* ===== verification/Credentials.thy ===== *)
theory Credentials
  imports JobTime "HOL-Library.Word"
begin

text \<open>
  The credential-broker core, \<open>tools/vast/credbroker.py\<close>, and the copy of its wire format a box
  carries (\<open>onstart/cred_client.py\<close>): instance verification, write-prefix policy, the per-box mint
  throttle, the sealed envelope and the request proof.

  The hash and the MAC are arguments, as is the JSON codec of the sealed object; what is used of
  them (a digest is not empty, decoding inverts encoding) is a hypothesis where it is needed.
  Strings are ASCII, so their UTF-8 bytes are their character codes.

  Lemma groups: decimal and hexadecimal texts round-trip; opening undoes sealing and nothing opens
  without the MAC; the proof's message names one request; the throttle bounds the keys a box gets;
  what a verified box and a granted prefix are.
\<close>

section \<open>Bytes and texts\<close>

type_synonym byte = "8 word"
type_synonym bytes = "byte list"

definition encode :: "string \<Rightarrow> bytes" where
  "encode s = map (\<lambda>c. of_nat (of_char c)) s"

function dec_str :: "nat \<Rightarrow> string" where
  "dec_str n = (if n < 10 then [digit n] else dec_str (n div 10) @ [digit (n mod 10)])"
  by auto
termination by (relation "measure id") auto

declare dec_str.simps [simp del]

definition int_str :: "int \<Rightarrow> string" where
  "int_str i = (if i < 0 then ''-'' @ dec_str (nat (- i)) else dec_str (nat i))"

definition nibble :: "nat \<Rightarrow> char" where
  "nibble n = (if n < 10 then char_of (n + 48) else char_of (n + 87))"

definition hex_byte :: "byte \<Rightarrow> string" where
  "hex_byte b = [nibble (unat b div 16), nibble (unat b mod 16)]"

definition hexdigest :: "bytes \<Rightarrow> string" where
  "hexdigest bs = concat (map hex_byte bs)"

definition unnibble :: "char \<Rightarrow> nat option" where
  "unnibble c = (let n = of_char c :: nat in
     if 48 \<le> n \<and> n \<le> 57 then Some (n - 48)
     else if 97 \<le> n \<and> n \<le> 102 then Some (n - 87)
     else if 65 \<le> n \<and> n \<le> 70 then Some (n - 55) else None)"

text \<open>\<open>bytes.fromhex\<close>: blanks are skipped between bytes.\<close>

fun fromhex :: "string \<Rightarrow> bytes option" where
  "fromhex [] = Some []"
| "fromhex [c] = (if py_isspace c then Some [] else None)"
| "fromhex (c # d # cs) =
     (if py_isspace c then fromhex (d # cs)
      else case (unnibble c, unnibble d, fromhex cs) of
             (Some h, Some l, Some bs) \<Rightarrow> Some (of_nat (16 * h + l) # bs)
           | _ \<Rightarrow> None)"

section \<open>Instances and policy\<close>

record vast_inst =
  vi_id :: int
  vi_status :: "string option"
  vi_env :: "(string \<times> string) list"

text \<open>A later pair of the wire list overwrites an earlier one.\<close>

definition instance_env :: "vast_inst \<Rightarrow> string \<rightharpoonup> string" where
  "instance_env i = map_of (rev (vi_env i))"

definition BROKER_LIVE :: "string list" where
  "BROKER_LIVE = [''running'', ''loading'', ''created'']"

definition is_live :: "vast_inst \<Rightarrow> bool" where
  "is_live i = (py_lower (dflt [] (vi_status i)) \<in> set BROKER_LIVE)"

record crypto =
  cr_sha256 :: "bytes \<Rightarrow> bytes"
  cr_hmac :: "bytes \<Rightarrow> bytes \<Rightarrow> bytes"

record reg_entry =
  re_nonce_sha256 :: "string option"
  re_role :: "string option"
  re_keys :: "(string \<times> string) list"

type_synonym registry = "int \<Rightarrow> reg_entry"

datatype verify_reason = ByNonce | ByRegistry | UnknownInstance | NotLive | NonceMismatch | InstancesUnavailable

definition verify_instance ::
  "crypto \<Rightarrow> int \<Rightarrow> string \<Rightarrow> vast_inst list option \<Rightarrow> registry \<Rightarrow> bool \<times> verify_reason" where
  "verify_instance c iid nonce listing reg =
     (case listing of
        None \<Rightarrow> (False, InstancesUnavailable)
      | Some insts \<Rightarrow>
         (case find (\<lambda>i. vi_id i = iid) insts of
            None \<Rightarrow> (False, UnknownInstance)
          | Some inst \<Rightarrow>
              if \<not> is_live inst then (False, NotLive)
              else if nonce = [] then (False, NonceMismatch)
              else if dflt [] (instance_env inst ''BOX_IDENTITY_NONCE'') \<noteq> []
                      \<and> nonce = dflt [] (instance_env inst ''BOX_IDENTITY_NONCE'') then (True, ByNonce)
              else (case nonempty (re_nonce_sha256 (reg iid)) of
                      Some h \<Rightarrow> if hexdigest (cr_sha256 c (encode nonce)) = py_lower h then (True, ByRegistry)
                               else (False, NonceMismatch)
                    | None \<Rightarrow> (False, NonceMismatch))))"

definition ROLE_WRITE_PREFIX :: "string \<rightharpoonup> string option" where
  "ROLE_WRITE_PREFIX = [''jobs'' \<mapsto> Some ''jobs/'', ''serve'' \<mapsto> Some ''serve/'', ''train'' \<mapsto> None]"

text \<open>\<open>None\<close> is a denial; an inner \<open>None\<close> is the bucket-wide key of a training box.\<close>

definition check_policy :: "string \<Rightarrow> string option \<Rightarrow> string option option" where
  "check_policy role want =
     (case ROLE_WRITE_PREFIX role of
        None \<Rightarrow> None
      | Some None \<Rightarrow> if nonempty want = None then Some None else None
      | Some (Some pol) \<Rightarrow>
         (case nonempty want of
            None \<Rightarrow> Some (Some pol)
          | Some w \<Rightarrow> if w = pol \<or> starts_with pol w then Some (Some w) else None))"

section \<open>The throttle\<close>

definition RATE_MIN_SPACING_S :: rat where "RATE_MIN_SPACING_S = 60"
definition RATE_DAILY_CAP :: nat where "RATE_DAILY_CAP = 24"

datatype rate_reason = Spacing | DailyCap

type_synonym stamps = "rat list"

text \<open>One box's stamps: the verdict and what is stored.\<close>

definition try_acquire :: "stamps \<Rightarrow> rat \<Rightarrow> rate_reason option \<times> stamps" where
  "try_acquire data now =
     (let live = filter (\<lambda>t. now - t < 86400) data
      in if live \<noteq> [] \<and> now - foldr max (tl live) (hd live) < RATE_MIN_SPACING_S then (Some Spacing, live)
         else if RATE_DAILY_CAP \<le> length live then (Some DailyCap, live)
         else (None, live @ [now]))"

definition ephemeral_hours :: "rat \<Rightarrow> rat option \<Rightarrow> rat" where
  "ephemeral_hours floor_h timeout_s =
     (case timeout_s of
        None \<Rightarrow> floor_h
      | Some t \<Rightarrow> if t = 0 then floor_h else max floor_h (t / 3600 + 72))"

section \<open>The envelope\<close>

definition enc_key :: "crypto \<Rightarrow> string \<Rightarrow> bytes" where
  "enc_key c nonce = cr_sha256 c (encode nonce @ encode ''enc'')"

definition mac_key :: "crypto \<Rightarrow> string \<Rightarrow> bytes" where
  "mac_key c nonce = cr_sha256 c (encode nonce @ encode ''mac'')"

text \<open>The loop adds one digest per turn until \<open>n\<close> bytes are there; with digests that are not empty,
  \<open>n\<close> turns are enough.\<close>

fun keystream_loop :: "crypto \<Rightarrow> bytes \<Rightarrow> int \<Rightarrow> nat \<Rightarrow> nat \<Rightarrow> nat \<Rightarrow> bytes \<Rightarrow> bytes" where
  "keystream_loop c k ts n i 0 out = take n out"
| "keystream_loop c k ts n i (Suc fuel) out =
     (if length out < n
      then keystream_loop c k ts n (i + 1) fuel (out @ cr_hmac c k (encode (int_str ts @ ''|'' @ int_str (int i))))
      else take n out)"

definition keystream :: "crypto \<Rightarrow> bytes \<Rightarrow> int \<Rightarrow> nat \<Rightarrow> bytes" where
  "keystream c k ts n = keystream_loop c k ts n 0 n []"

definition xor_bytes :: "bytes \<Rightarrow> bytes \<Rightarrow> bytes" where
  "xor_bytes a b = map2 (\<lambda>x y. xor x y) a b"

definition envelope_mac :: "crypto \<Rightarrow> string \<Rightarrow> int \<Rightarrow> bytes \<Rightarrow> string" where
  "envelope_mac c nonce ts ct = hexdigest (cr_hmac c (mac_key c nonce) (encode (int_str ts @ ''|'') @ ct))"

record sealed =
  bl_ts :: "jval option"
  bl_ciphertext :: "jval option"
  bl_mac :: "jval option"

definition seal_envelope :: "crypto \<Rightarrow> ('a \<Rightarrow> bytes) \<Rightarrow> string \<Rightarrow> 'a \<Rightarrow> int \<Rightarrow> sealed" where
  "seal_envelope c dumps nonce obj ts =
     (let pt = dumps obj; ct = xor_bytes pt (keystream c (enc_key c nonce) ts (length pt))
      in \<lparr>bl_ts = Some (JInt ts), bl_ciphertext = Some (JStr (hexdigest ct)),
          bl_mac = Some (JStr (envelope_mac c nonce ts ct))\<rparr>)"

definition py_int :: "jval \<Rightarrow> int option" where
  "py_int v =
     (case v of
        JInt i \<Rightarrow> Some i
      | JBool b \<Rightarrow> Some (if b then 1 else 0)
      | JFloat x \<Rightarrow> Some (if 0 \<le> x then \<lfloor>x\<rfloor> else \<lceil>x\<rceil>)
      | JStr s \<Rightarrow> parse_int (py_strip s)
      | _ \<Rightarrow> None)"

text \<open>\<open>str(mac)\<close>: the text of a float, a list or an object is never 64 hexadecimal digits.\<close>

definition mac_text :: "jval \<Rightarrow> string" where
  "mac_text v = (case v of JStr s \<Rightarrow> s | JInt i \<Rightarrow> int_str i | _ \<Rightarrow> [])"

datatype envelope_error = Malformed | BadMac | BadPlaintext

definition open_envelope :: "crypto \<Rightarrow> (bytes \<Rightarrow> 'a option) \<Rightarrow> string \<Rightarrow> sealed \<Rightarrow> envelope_error + 'a" where
  "open_envelope c loads nonce blob =
     (case (Option.bind (bl_ts blob) py_int,
            Option.bind (bl_ciphertext blob) (\<lambda>v. case v of JStr s \<Rightarrow> fromhex s | _ \<Rightarrow> None), bl_mac blob) of
        (Some ts, Some ct, Some mac) \<Rightarrow>
          if envelope_mac c nonce ts ct \<noteq> mac_text mac then Inl BadMac
          else (case loads (xor_bytes ct (keystream c (enc_key c nonce) ts (length ct))) of
                  None \<Rightarrow> Inl BadPlaintext
                | Some obj \<Rightarrow> Inr obj)
      | _ \<Rightarrow> Inl Malformed)"

section \<open>The request proof\<close>

definition credreq_message :: "int \<Rightarrow> int \<Rightarrow> string \<Rightarrow> string" where
  "credreq_message iid ts role = ''credreq|'' @ int_str iid @ ''|'' @ int_str ts @ ''|'' @ role"

definition make_credreq_proof :: "crypto \<Rightarrow> string \<Rightarrow> int \<Rightarrow> int \<Rightarrow> string \<Rightarrow> string" where
  "make_credreq_proof c nonce iid ts role =
     hexdigest (cr_hmac c (encode nonce) (encode (credreq_message iid ts role)))"

definition verify_credreq_proof :: "crypto \<Rightarrow> string \<Rightarrow> int \<Rightarrow> int \<Rightarrow> string \<Rightarrow> string \<Rightarrow> bool" where
  "verify_credreq_proof c nonce iid ts role proof = (make_credreq_proof c nonce iid ts role = proof)"

definition REPLAY_WINDOW_S :: rat where "REPLAY_WINDOW_S = 600"

definition ts_fresh :: "int \<Rightarrow> rat \<Rightarrow> bool" where
  "ts_fresh ts now = (\<bar>now - of_int ts\<bar> \<le> REPLAY_WINDOW_S)"

section \<open>Texts round-trip\<close>

lemma digit_val_digit: "n < 10 \<Longrightarrow> digit_val (digit n) = n"
  by (simp add: digit_val_def of_char_digit)

lemma dec_value_dec_str: "dec_value (dec_str n) = n"
proof (induction n rule: dec_str.induct)
  case (1 n)
  show ?case
  proof (cases "n < 10")
    case True
    then show ?thesis by (subst dec_str.simps) (simp add: dec_value_def digit_val_digit)
  next
    case False
    with 1 show ?thesis by (subst dec_str.simps) (simp add: dec_value_snoc digit_val_digit)
  qed
qed

lemma dec_str_digits: "list_all py_isdigit (dec_str n)"
proof (induction n rule: dec_str.induct)
  case (1 n)
  then show ?case by (subst dec_str.simps) (simp add: isdigit_digit)
qed

lemma digits_no: "list_all py_isdigit s \<Longrightarrow> c \<in> set s \<Longrightarrow> c \<noteq> CHR ''|'' \<and> c \<noteq> CHR ''-''"
  by (auto simp: list_all_iff py_isdigit_def Let_def)

lemma dec_str_inj: "dec_str m = dec_str n \<Longrightarrow> m = n"
  by (metis dec_value_dec_str)

lemma dec_str_no_minus: "dec_str n \<noteq> CHR ''-'' # s"
  using digits_no [OF dec_str_digits, of "CHR ''-''" n] by force

lemma int_str_inj: "int_str i = int_str j \<Longrightarrow> i = j"
  using dec_str_inj [of "nat i" "nat j"] dec_str_inj [of "nat (- i)" "nat (- j)"] dec_str_no_minus
  by (auto simp: int_str_def split: if_splits) (metis dec_str_no_minus)+

lemma int_str_no_bar: "CHR ''|'' \<notin> set (int_str i)"
  using digits_no [OF dec_str_digits] by (auto simp: int_str_def)

lemma split_at_bar:
  "c \<notin> set a \<Longrightarrow> c \<notin> set b \<Longrightarrow> a @ c # x = b @ c # y \<longleftrightarrow> a = b \<and> x = y"
  by (induction a arbitrary: b) (case_tac b; auto)+

lemma nibble_props: "n < 16 \<Longrightarrow> unnibble (nibble n) = Some n \<and> \<not> py_isspace (nibble n)"
proof -
  assume "n < 16"
  then consider "n < 10" | "10 \<le> n" "n < 16" by linarith
  then show ?thesis by cases (auto simp: nibble_def unnibble_def py_isspace_def Let_def)
qed

lemma unat_byte: "unat (b :: byte) < 256"
  using unsigned_less [of b] by simp

lemma fromhex_hexdigest [simp]: "fromhex (hexdigest bs) = Some bs"
proof (induction bs)
  case (Cons b bs)
  have u: "unat b div 16 < 16" "unat b mod 16 < 16" using unat_byte [of b] by (auto simp: less_mult_imp_div_less)
  have "16 * (unat b div 16) + unat b mod 16 = unat b" by (rule mult_div_mod_eq)
  then have "word_of_nat (16 * (unat b div 16) + unat b mod 16) = b" by simp
  then show ?case using Cons nibble_props [OF u(1)] nibble_props [OF u(2)]
    by (simp add: hexdigest_def hex_byte_def)
qed (simp add: hexdigest_def)

section \<open>Opening undoes sealing\<close>

lemma keystream_loop_length:
  "\<forall>k m. cr_hmac c k m \<noteq> [] \<Longrightarrow> n \<le> length out + fuel \<Longrightarrow> length (keystream_loop c k ts n i fuel out) = n"
proof (induction fuel arbitrary: i out)
  case (Suc fuel)
  let ?d = "cr_hmac c k (encode (int_str ts @ ''|'' @ int_str (int i)))"
  have "1 \<le> length ?d" using Suc.prems(1) by (simp add: Suc_leI)
  then have "n \<le> length (out @ ?d) + fuel" using Suc.prems(2) by simp
  then have "length (keystream_loop c k ts n (i + 1) fuel (out @ ?d)) = n" using Suc.prems(1) Suc.IH by blast
  then show ?case by simp
qed simp

lemma keystream_length: "\<forall>k m. cr_hmac c k m \<noteq> [] \<Longrightarrow> length (keystream c k ts n) = n"
  by (simp add: keystream_def keystream_loop_length)

lemma xor_bytes_length [simp]: "length (xor_bytes a b) = min (length a) (length b)"
  by (simp add: xor_bytes_def)

lemma xor_bytes_twice: "length a \<le> length b \<Longrightarrow> xor_bytes (xor_bytes a b) b = a"
  by (rule nth_equalityI) (auto simp: xor_bytes_def xor.assoc)

lemma opened_sealed:
  assumes "\<forall>k m. cr_hmac c k m \<noteq> []" "loads (dumps obj) = Some obj"
  shows "open_envelope c loads nonce (seal_envelope c dumps nonce obj ts) = Inr obj"
proof -
  let ?pt = "dumps obj" let ?ks = "keystream c (enc_key c nonce) ts (length (dumps obj))"
  have l: "length ?ks = length ?pt" using assms(1) by (rule keystream_length)
  then have "xor_bytes (xor_bytes ?pt ?ks) ?ks = ?pt" by (intro xor_bytes_twice) simp
  with l show ?thesis using assms(2)
    by (simp add: open_envelope_def seal_envelope_def py_int_def mac_text_def Let_def)
qed

text \<open>C23. What the broker seals for a box, the box opens with the same nonce to the same object.\<close>

theorem envelope_roundtrip:
  assumes "\<forall>k m. cr_hmac c k m \<noteq> []" "loads (dumps obj) = Some obj"
  shows "open_envelope c loads nonce (seal_envelope c dumps nonce obj ts) = Inr obj"
  using assms by (rule opened_sealed)

text \<open>Nothing opens without the MAC: an envelope that opens carries the MAC the box's own nonce gives
  its timestamp and ciphertext.\<close>

lemma opened_is_authentic:
  assumes "open_envelope c loads nonce blob = Inr obj"
  shows "\<exists>ts ct mac. Option.bind (bl_ts blob) py_int = Some ts \<and> bl_mac blob = Some mac
    \<and> mac_text mac = envelope_mac c nonce ts ct
    \<and> loads (xor_bytes ct (keystream c (enc_key c nonce) ts (length ct))) = Some obj"
  using assms by (auto simp: open_envelope_def split: option.splits if_splits) metis

text \<open>The MAC input determines timestamp and ciphertext, and the proof's message determines the
  instance, the timestamp and the role: neither can be read as another one's.\<close>

lemma encode_inj: "encode s = encode t \<Longrightarrow> s = t"
proof (induction s arbitrary: t)
  case (Cons a s)
  then obtain b u where t: "t = b # u" by (cases t) (auto simp: encode_def)
  have "(of_nat (of_char a) :: byte) = of_nat (of_char b)" using Cons.prems t by (simp add: encode_def)
  then have "(of_char a :: nat) = of_char b"
    using nat_of_char_less_256 [of a] nat_of_char_less_256 [of b] by (simp add: word_of_nat_eq_iff take_bit_nat_eq_self_iff take_bit_nat_def)
  then show ?case using Cons t by (simp add: encode_def)
qed (cases t; simp add: encode_def)

theorem proof_message_unambiguous:
  "credreq_message iid ts role = credreq_message iid' ts' role' \<longleftrightarrow> iid = iid' \<and> ts = ts' \<and> role = role'"
  using int_str_inj [of iid iid'] int_str_inj [of ts ts']
  by (auto simp: credreq_message_def split_at_bar int_str_no_bar)

section \<open>The throttle bounds the keys a box gets\<close>

text \<open>A box's calls in time order: the stored stamps and the times that were granted.\<close>

definition throttle_step :: "stamps \<times> rat list \<Rightarrow> rat \<Rightarrow> stamps \<times> rat list" where
  "throttle_step st now =
     (case try_acquire (fst st) now of
        (None, data) \<Rightarrow> (data, snd st @ [now])
      | (Some _, data) \<Rightarrow> (data, snd st))"

definition granted :: "rat list \<Rightarrow> rat list" where
  "granted nows = snd (foldl throttle_step ([], []) nows)"

definition in_window :: "rat \<Rightarrow> rat list \<Rightarrow> rat list" where
  "in_window t ts = filter (\<lambda>x. t - 86400 < x \<and> x \<le> t) ts"

text \<open>What holds of the two after calls up to time \<open>T\<close>: the stamps are the recent grants, grants are a
  minute apart, and no day-long window holds more than the cap.\<close>

definition throttle_inv :: "rat \<Rightarrow> stamps \<times> rat list \<Rightarrow> bool" where
  "throttle_inv T st \<longleftrightarrow>
     fst st = filter (\<lambda>x. T - x < 86400) (snd st) \<and> (\<forall>x\<in>set (snd st). x \<le> T)
     \<and> sorted_wrt (\<lambda>a b. a + RATE_MIN_SPACING_S \<le> b) (snd st)
     \<and> (\<forall>t. length (in_window t (snd st)) \<le> RATE_DAILY_CAP)"

lemma max_stamp_ge: "x \<in> set xs \<Longrightarrow> x \<le> foldr max (tl xs) (hd xs :: rat)"
  using foldr_max_ge [of x "hd xs" "tl xs"] by (cases xs) auto

lemma throttle_live:
  assumes "throttle_inv T st" "T \<le> now"
  shows "filter (\<lambda>t. now - t < 86400) (fst st) = filter (\<lambda>t. now - t < 86400) (snd st)"
proof -
  have "fst st = filter (\<lambda>x. T - x < 86400) (snd st)" using assms(1) by (simp add: throttle_inv_def)
  then show ?thesis using assms(2) by (auto intro!: filter_cong)
qed

lemma throttle_step_inv:
  assumes "throttle_inv T st" "T \<le> now"
  shows "throttle_inv now (throttle_step st now)"
proof -
  obtain data g where st: "st = (data, g)" by (cases st)
  let ?live = "filter (\<lambda>t. now - t < 86400) g"
  have live: "filter (\<lambda>t. now - t < 86400) data = ?live" using throttle_live [OF assms] st by simp
  have inv: "\<forall>x\<in>set g. x \<le> T" "sorted_wrt (\<lambda>a b. a + RATE_MIN_SPACING_S \<le> b) g"
      "\<forall>t. length (in_window t g) \<le> RATE_DAILY_CAP" using assms(1) st by (simp_all add: throttle_inv_def)
  have le: "\<forall>x\<in>set g. x \<le> now" using inv(1) assms(2) by auto
  show ?thesis
  proof (cases "fst (try_acquire data now)")
    case (Some r)
    then have "throttle_step st now = (?live, g)"
      using live by (auto simp: throttle_step_def try_acquire_def st Let_def split: if_splits)
    then show ?thesis using inv le by (simp add: throttle_inv_def)
  next
    case None
    then have s: "throttle_step st now = (?live @ [now], g @ [now])" and n: "length ?live < RATE_DAILY_CAP"
      and sp: "?live = [] \<or> \<not> now - foldr max (tl ?live) (hd ?live) < RATE_MIN_SPACING_S"
      using live by (auto simp: throttle_step_def try_acquire_def st Let_def split: if_splits)
    have far: "x + RATE_MIN_SPACING_S \<le> now" if x: "x \<in> set g" for x
    proof (cases "now - x < 86400")
      case True
      with x have m: "x \<in> set ?live" by simp
      then have "?live \<noteq> []" by (metis empty_iff list.set(1))
      then have "\<not> now - foldr max (tl ?live) (hd ?live) < RATE_MIN_SPACING_S" using sp by blast
      then show ?thesis using max_stamp_ge [OF m] by linarith
    next
      case False
      then show ?thesis by (simp add: RATE_MIN_SPACING_S_def)
    qed
    have w: "length (in_window t (g @ [now])) \<le> RATE_DAILY_CAP" for t
    proof (cases "now \<le> t \<and> t - 86400 < now")
      case True
      then have "filter (\<lambda>x. t - 86400 < x \<and> x \<le> t) g = filter (\<lambda>x. t - 86400 < x \<and> x \<le> t) ?live"
        by (auto intro!: filter_cong)
      then have "length (in_window t g) \<le> length ?live" by (metis in_window_def length_filter_le)
      then show ?thesis using n True by (simp add: in_window_def)
    next
      case False
      then have "in_window t (g @ [now]) = in_window t g" by (auto simp: in_window_def)
      then show ?thesis using inv(3) by simp
    qed
    have "sorted_wrt (\<lambda>a b. a + RATE_MIN_SPACING_S \<le> b) (g @ [now])"
      using inv(2) far by (simp add: sorted_wrt_append)
    then show ?thesis using le w by (simp add: s throttle_inv_def)
  qed
qed

lemma throttle_run_inv: "sorted (T # nows) \<Longrightarrow> throttle_inv T st \<Longrightarrow> \<exists>T'. throttle_inv T' (foldl throttle_step st nows)"
proof (induction nows arbitrary: T st)
  case (Cons n nows)
  then have "throttle_inv n (throttle_step st n)" by (intro throttle_step_inv) auto
  then show ?case using Cons.IH [of n "throttle_step st n"] Cons.prems(1) by simp
qed auto

text \<open>However often a box asks, in time order: two keys are at least a minute apart and no window of a
  day holds more than twenty-four.\<close>

lemma minting_bounded:
  assumes "sorted nows"
  shows "sorted_wrt (\<lambda>a b. a + 60 \<le> b) (granted nows)
       \<and> (\<forall>t. length (in_window t (granted nows)) \<le> 24)"
proof (cases nows)
  case Nil
  then show ?thesis by (simp add: granted_def in_window_def)
next
  case (Cons n ns)
  have "throttle_inv n ([], [])" by (simp add: throttle_inv_def in_window_def RATE_DAILY_CAP_def)
  then obtain T where "throttle_inv T (foldl throttle_step ([], []) nows)"
    using throttle_run_inv [of n nows "([], [])"] assms Cons by auto
  then show ?thesis by (simp add: throttle_inv_def granted_def RATE_MIN_SPACING_S_def RATE_DAILY_CAP_def)
qed

section \<open>Who is verified, what is granted\<close>

text \<open>A request is verified exactly if the instance is listed, live, and the nonce presented is the one
  its launch recorded or hashes to the registered digest.\<close>

lemma verified_exactly:
  "fst (verify_instance c iid nonce listing reg) \<longleftrightarrow>
     (\<exists>insts inst. listing = Some insts \<and> find (\<lambda>i. vi_id i = iid) insts = Some inst \<and> is_live inst \<and> nonce \<noteq> []
        \<and> (instance_env inst ''BOX_IDENTITY_NONCE'' = Some nonce
           \<or> (\<exists>h. re_nonce_sha256 (reg iid) = Some h \<and> h \<noteq> [] \<and> hexdigest (cr_sha256 c (encode nonce)) = py_lower h)))"
  by (cases "listing"; simp add: verify_instance_def)
     (auto simp: dflt_def nonempty_def split: option.splits if_splits)

text \<open>A granted prefix never leaves the role's own: a scoped role gets its prefix or a longer one, and
  only a training box gets the key without a prefix.\<close>

lemma granted_prefix_scoped:
  assumes "check_policy role want = Some p"
  shows "(role = ''train'' \<and> p = None) \<or> (\<exists>pol w. ROLE_WRITE_PREFIX role = Some (Some pol) \<and> p = Some w \<and> starts_with pol w)"
proof -
  have "starts_with s s" for s by (induction s) auto
  then show ?thesis using assms
    by (cases "nonempty want") (auto simp: check_policy_def ROLE_WRITE_PREFIX_def split: option.splits if_splits)
qed

definition toy_crypto :: crypto where
  "toy_crypto = \<lparr>cr_sha256 = (\<lambda>m. replicate 32 (sum_list m)), cr_hmac = (\<lambda>k m. replicate 32 (sum_list k + 3 * sum_list m))\<rparr>"

theorem envelope_roundtrip_witness:
  "open_envelope toy_crypto (\<lambda>bs. Some bs) ''n0nce'' (seal_envelope toy_crypto (\<lambda>bs. bs) ''n0nce'' [1, 2, 3] 1700000000) = Inr [1, 2, 3]"
  by (rule envelope_roundtrip) (simp_all add: toy_crypto_def)

end
