(* ===== verification/BrokerDaemon.thy ===== *)
theory BrokerDaemon
  imports Credentials
begin

text \<open>
  The credential-broker daemon, \<open>tools/vast/credbrokerd.py\<close>, with the key minting it calls
  (\<open>credbroker.issue_keys\<close>, \<open>b2_mint_key.mint\<close> and \<open>mint_pair\<close>): the two request handlers of the
  HTTP surface and the sweep of the bucket lane, over the persisted state (registry, throttle,
  replay log). The vast listing, the bucket objects, the delivery of a response and the creation
  of a key are arguments. Fields whose names end in \<open>_log\<close> record effects for the theorems.

  Lemma groups: what a minted key can do; the replay log only grows; a request mints at most once
  and only for the box whose nonce proves it.
\<close>

section \<open>Minting\<close>

definition CAPS_DEFAULT :: "string list" where "CAPS_DEFAULT = [''listFiles'', ''readFiles'', ''writeFiles'']"
definition READ_CAPS :: "string list" where "READ_CAPS = [''listFiles'', ''readFiles'']"
definition WRITE_CAPS :: "string list" where "WRITE_CAPS = [''listFiles'', ''readFiles'', ''writeFiles'']"
definition MAX_HOURS :: rat where "MAX_HOURS = 24 * 999"

definition is_alnum :: "char \<Rightarrow> bool" where
  "is_alnum c = (let n = of_char c :: nat in
     (48 \<le> n \<and> n \<le> 57) \<or> (65 \<le> n \<and> n \<le> 90) \<or> (97 \<le> n \<and> n \<le> 122))"

fun squeeze_dashes :: "string \<Rightarrow> string" where
  "squeeze_dashes (c # d # cs) =
     (if c = CHR ''-'' \<and> d = CHR ''-'' then squeeze_dashes (d # cs) else c # squeeze_dashes (d # cs))"
| "squeeze_dashes s = s"

definition strip_dashes :: "string \<Rightarrow> string" where
  "strip_dashes s = rev (dropWhile (\<lambda>c. c = CHR ''-'') (rev (dropWhile (\<lambda>c. c = CHR ''-'') s)))"

definition sanitize_name :: "string \<Rightarrow> string option" where
  "sanitize_name s =
     (let out = strip_dashes (squeeze_dashes (map (\<lambda>c. if is_alnum c \<or> c = CHR ''-'' then c else CHR ''-'') s))
      in if out = [] then None else Some (take 100 out))"

record key_request =
  kr_name :: string
  kr_caps :: "string list"
  kr_seconds :: int
  kr_prefix :: "string option"

text \<open>The body \<open>mint\<close> posts, \<open>None\<close> where it refuses; creating the key is the argument \<open>create\<close>,
  \<open>None\<close> where a call of it fails.\<close>

definition key_seconds :: "rat \<Rightarrow> int" where
  "key_seconds hours = \<lfloor>max 1 (min hours MAX_HOURS) * 3600\<rfloor>"

definition mint_request :: "string \<Rightarrow> rat \<Rightarrow> string list \<Rightarrow> string option \<Rightarrow> key_request option" where
  "mint_request name hours caps prefix =
     (case sanitize_name name of
        None \<Rightarrow> None
      | Some n \<Rightarrow>
         if ''deleteFiles'' \<in> set caps then None
         else Some \<lparr>kr_name = n, kr_caps = caps, kr_seconds = key_seconds hours,
                    kr_prefix = nonempty prefix\<rparr>)"

type_synonym create = "key_request \<Rightarrow> (string \<times> string) option"

definition mint :: "create \<Rightarrow> string \<Rightarrow> rat \<Rightarrow> string list \<Rightarrow> string option \<Rightarrow> (key_request \<times> string \<times> string) option" where
  "mint create name hours caps prefix =
     (case mint_request name hours caps prefix of
        None \<Rightarrow> None
      | Some r \<Rightarrow> map_option (Pair r) (create r))"

record issued_keys =
  ik_key :: "string \<times> string"
  ik_write :: "(string \<times> string) option"
  ik_expires_at :: int

section \<open>State\<close>

record broker =
  br_registry :: registry
  br_stamps :: "int \<Rightarrow> stamps"
  br_seen :: "int \<times> int \<rightharpoonup> rat"
  br_issued :: "int \<rightharpoonup> int"
  br_created_log :: "(string \<times> key_request) list"
  br_revoked_log :: "string list"
  br_minted_log :: "(int \<times> int) list"

definition revoke_previous :: "int \<Rightarrow> broker \<Rightarrow> broker" where
  "revoke_previous iid b =
     b\<lparr>br_revoked_log := br_revoked_log b @
        map snd (filter (\<lambda>k. starts_with (''box-'' @ int_str iid @ ''-brk'') (fst k) \<and> snd k \<noteq> [])
                   (re_keys (br_registry b iid)))\<rparr>"

definition set_last_keys :: "int \<Rightarrow> (string \<times> string) list \<Rightarrow> broker \<Rightarrow> broker" where
  "set_last_keys iid ks b = b\<lparr>br_registry := (br_registry b)(iid := br_registry b iid\<lparr>re_keys := ks\<rparr>)\<rparr>"

definition log_created :: "string \<Rightarrow> key_request \<Rightarrow> broker \<Rightarrow> broker" where
  "log_created role r b = b\<lparr>br_created_log := br_created_log b @ [(role, r)]\<rparr>"

text \<open>A scoped role gets a bucket-wide reader and a writer under the prefix; a key of the pair that was
  created stays created when the other fails.\<close>

definition issue_keys ::
  "create \<Rightarrow> int \<Rightarrow> string \<Rightarrow> string option \<Rightarrow> rat \<Rightarrow> int \<Rightarrow> broker \<Rightarrow> issued_keys option \<times> broker" where
  "issue_keys create iid role prefix hours now b =
     (let base = ''box-'' @ int_str iid @ ''-brk'' @ int_str now; b1 = revoke_previous iid b;
          exp = now + \<lfloor>hours * 3600\<rfloor>
      in case nonempty prefix of
           Some w \<Rightarrow>
            (case mint create (base @ ''-ro'') hours READ_CAPS None of
               None \<Rightarrow> (None, b1)
             | Some (r, rk, rs) \<Rightarrow>
                (case mint create (base @ ''-rw'') hours WRITE_CAPS (Some w) of
                   None \<Rightarrow> (None, log_created role r b1)
                 | Some (wr, wk, ws) \<Rightarrow>
                    (Some \<lparr>ik_key = (rk, rs), ik_write = Some (wk, ws), ik_expires_at = exp\<rparr>,
                     set_last_keys iid [(base @ ''-ro'', rk), (base @ ''-rw'', wk)]
                       (log_created role wr (log_created role r b1)))))
         | None \<Rightarrow>
            (case mint create base hours CAPS_DEFAULT None of
               None \<Rightarrow> (None, b1)
             | Some (r, kid, key) \<Rightarrow>
                (Some \<lparr>ik_key = (kid, key), ik_write = None, ik_expires_at = exp\<rparr>,
                 set_last_keys iid [(base, kid)] (log_created role r b1))))"

definition authorized_role :: "vast_inst option \<Rightarrow> registry \<Rightarrow> int \<Rightarrow> string" where
  "authorized_role inst reg iid =
     (let r = dflt [] (Option.bind inst (\<lambda>i. instance_env i ''CRED_ROLE''))
      in if r \<noteq> [] then r else dflt [] (re_role (reg iid)))"

definition throttle :: "int \<Rightarrow> rat \<Rightarrow> broker \<Rightarrow> rate_reason option \<times> broker" where
  "throttle iid now b =
     (let (v, st) = try_acquire (br_stamps b iid) now in (v, b\<lparr>br_stamps := (br_stamps b)(iid := st)\<rparr>))"

section \<open>The HTTP requests\<close>

datatype want = NoWant | WantDict "jval option" | WantOther

record creds_body =
  cb_instance_id :: "jval option"
  cb_nonce :: "jval option"
  cb_role :: "jval option"
  cb_want :: want

datatype reply = BadRequest | Denied | RateLimited | Issued issued_keys | Registered | Unauthorized

definition creds_fields :: "creds_body \<Rightarrow> (int \<times> string \<times> string \<times> string option) option" where
  "creds_fields q =
     (case (cb_instance_id q, cb_nonce q, cb_role q,
            case cb_want q of NoWant \<Rightarrow> Some None | WantOther \<Rightarrow> None
            | WantDict v \<Rightarrow> (case v of None \<Rightarrow> Some None | Some JNull \<Rightarrow> Some None
                            | Some (JStr w) \<Rightarrow> Some (Some w) | _ \<Rightarrow> None)) of
        (Some (JInt iid), Some (JStr nonce), Some (JStr role), Some wp) \<Rightarrow> Some (iid, nonce, role, wp)
      | _ \<Rightarrow> None)"

definition handle_creds ::
  "crypto \<Rightarrow> create \<Rightarrow> vast_inst list option \<Rightarrow> rat \<Rightarrow> rat \<Rightarrow> int \<Rightarrow> creds_body option \<Rightarrow> broker \<Rightarrow> reply \<times> broker" where
  "handle_creds c create listing ttl now clock body b =
     (case Option.bind body creds_fields of
        None \<Rightarrow> (BadRequest, b)
      | Some (iid, nonce, role, wp) \<Rightarrow>
         if \<not> fst (verify_instance c iid nonce listing (br_registry b)) then (Denied, b)
         else let inst = find (\<lambda>i. vi_id i = iid) (dflt [] listing);
                  granted_role = authorized_role inst (br_registry b) iid
              in if granted_role = [] \<or> role \<noteq> granted_role then (Denied, b)
         else (case check_policy role wp of
            None \<Rightarrow> (Denied, b)
          | Some prefix \<Rightarrow>
             (case throttle iid now b of
                (Some _, b1) \<Rightarrow> (RateLimited, b1)
              | (None, b1) \<Rightarrow>
                 (case issue_keys create iid role prefix ttl clock b1 of
                    (None, b2) \<Rightarrow> (Denied, b2)
                  | (Some k, b2) \<Rightarrow> (Issued k, b2)))))"

definition is_hex :: "char \<Rightarrow> bool" where
  "is_hex c = (unnibble c \<noteq> None)"

record register_body =
  rb_instance_id :: "jval option"
  rb_nonce_sha256 :: "jval option"
  rb_role :: "jval option"

definition handle_register ::
  "string \<Rightarrow> string \<Rightarrow> register_body option \<Rightarrow> broker \<Rightarrow> reply \<times> broker" where
  "handle_register admin token body b =
     (if admin = [] \<or> token \<noteq> admin then (Unauthorized, b)
      else case body of
        None \<Rightarrow> (BadRequest, b)
      | Some q \<Rightarrow>
        (case (rb_instance_id q, rb_nonce_sha256 q) of
           (Some (JInt iid), Some (JStr ns)) \<Rightarrow>
             if length ns \<noteq> 64 \<or> \<not> list_all is_hex ns then (BadRequest, b)
             else (case rb_role q of
                     None \<Rightarrow> (Registered, b\<lparr>br_registry := (br_registry b)(iid := br_registry b iid\<lparr>re_nonce_sha256 := Some (py_lower ns)\<rparr>)\<rparr>)
                   | Some JNull \<Rightarrow> (Registered, b\<lparr>br_registry := (br_registry b)(iid := br_registry b iid\<lparr>re_nonce_sha256 := Some (py_lower ns)\<rparr>)\<rparr>)
                   | Some (JStr role) \<Rightarrow>
                       if ROLE_WRITE_PREFIX role = None then (BadRequest, b)
                       else (Registered, b\<lparr>br_registry := (br_registry b)(iid :=
                               br_registry b iid\<lparr>re_nonce_sha256 := Some (py_lower ns), re_role := Some role\<rparr>)\<rparr>)
                   | _ \<Rightarrow> (BadRequest, b))
         | _ \<Rightarrow> (BadRequest, b)))"

section \<open>The bucket lane\<close>

record credreq =
  cq_iid :: int
  cq_ts :: int
  cq_role :: string
  cq_proof :: string
  cq_want :: "jval option"

datatype credreq_obj = CatFailed | Unparsable | Parsed credreq

datatype deny_reason =
    IidPathMismatch | StaleTs | ReplayedTs | NotListed | BoxNotLive | NoLaunchNonce | BadProof | RoleMismatch
  | PolicyDenied | Throttled rate_reason | MintFailed

datatype sweep_verdict = SvCatFailed | SvMalformed | SvDenied deny_reason | SvRcatFailed | SvIssued

text \<open>A prefix that is not a string reaches \<open>startswith\<close>: the outer \<open>None\<close> is the exception.\<close>

definition policy_of_want :: "string \<Rightarrow> jval option \<Rightarrow> string option option option" where
  "policy_of_want role want =
     (if \<not> truthy want then Some (check_policy role None)
      else case want of
        Some (JStr w) \<Rightarrow> Some (check_policy role (Some w))
      | _ \<Rightarrow> (case ROLE_WRITE_PREFIX role of Some (Some _) \<Rightarrow> None | _ \<Rightarrow> Some None))"

record sweep_world =
  sw_instances :: "vast_inst list option"
  sw_object :: "string \<Rightarrow> credreq_obj"
  sw_deliver :: "int \<Rightarrow> sealed \<Rightarrow> bool"
  sw_create :: create
  sw_ttl :: rat
  sw_clock :: int
  sw_dumps :: "issued_keys \<Rightarrow> bytes"

definition mark_seen :: "int \<Rightarrow> int \<Rightarrow> rat \<Rightarrow> broker \<Rightarrow> broker" where
  "mark_seen iid ts now b = b\<lparr>br_seen := (br_seen b)((iid, ts) \<mapsto> now)\<rparr>"

definition issued_ts :: "int \<Rightarrow> broker \<Rightarrow> int" where
  "issued_ts iid b = dflt 0 (br_issued b iid)"

definition mark_issued :: "int \<Rightarrow> int \<Rightarrow> broker \<Rightarrow> broker" where
  "mark_issued iid ts b = b\<lparr>br_issued := (br_issued b)(iid \<mapsto> max ts (issued_ts iid b))\<rparr>"

definition prune_seen :: "rat \<Rightarrow> broker \<Rightarrow> broker" where
  "prune_seen cutoff b =
     b\<lparr>br_seen := (\<lambda>k. case br_seen b k of Some v \<Rightarrow> if v < cutoff then None else Some v | None \<Rightarrow> None)\<rparr>"

text \<open>The last instance with an id wins, as in the dict the sweep builds.\<close>

definition by_id :: "vast_inst list \<Rightarrow> int \<Rightarrow> vast_inst option" where
  "by_id insts iid = find (\<lambda>i. vi_id i = iid) (rev insts)"

definition launch_nonce :: "vast_inst \<Rightarrow> string" where
  "launch_nonce i = dflt [] (instance_env i ''BOX_IDENTITY_NONCE'')"

text \<open>The checks of one request before anything is minted: the reason it is denied, or the instance, the
  nonce and the prefix; the outer \<open>None\<close> is an exception.\<close>

definition check_credreq ::
  "crypto \<Rightarrow> sweep_world \<Rightarrow> string \<Rightarrow> rat \<Rightarrow> credreq \<Rightarrow> broker \<Rightarrow> (deny_reason + string \<times> string option) option" where
  "check_credreq c w iid_s now q b =
     (if int_str (cq_iid q) \<noteq> iid_s then Some (Inl IidPathMismatch)
      else if \<not> ts_fresh (cq_ts q) now then Some (Inl StaleTs)
      else if cq_ts q \<le> issued_ts (cq_iid q) b then Some (Inl ReplayedTs)
      else case by_id (dflt [] (sw_instances w)) (cq_iid q) of
        None \<Rightarrow> Some (Inl NotListed)
      | Some inst \<Rightarrow>
         if \<not> is_live inst then Some (Inl BoxNotLive)
         else if launch_nonce inst = [] then Some (Inl NoLaunchNonce)
         else if \<not> verify_credreq_proof c (launch_nonce inst) (cq_iid q) (cq_ts q) (cq_role q) (cq_proof q)
              then Some (Inl BadProof)
         else let g = authorized_role (Some inst) (br_registry b) (cq_iid q)
              in if g = [] \<or> cq_role q \<noteq> g then Some (Inl RoleMismatch)
         else case policy_of_want (cq_role q) (cq_want q) of
                None \<Rightarrow> None
              | Some None \<Rightarrow> Some (Inl PolicyDenied)
              | Some (Some prefix) \<Rightarrow> Some (Inr (launch_nonce inst, prefix)))"

definition log_minted :: "int \<Rightarrow> int \<Rightarrow> broker \<Rightarrow> broker" where
  "log_minted iid ts b = b\<lparr>br_minted_log := br_minted_log b @ [(iid, ts)]\<rparr>"

definition grant_credreq ::
  "crypto \<Rightarrow> sweep_world \<Rightarrow> rat \<Rightarrow> credreq \<Rightarrow> string \<Rightarrow> string option \<Rightarrow> broker \<Rightarrow> sweep_verdict \<times> broker" where
  "grant_credreq c w now q nonce prefix b =
     (case throttle (cq_iid q) now b of
        (Some r, b1) \<Rightarrow> (SvDenied (Throttled r), b1)
      | (None, b1) \<Rightarrow>
         (case issue_keys (sw_create w) (cq_iid q) (cq_role q) prefix (sw_ttl w) (sw_clock w) b1 of
            (None, b2) \<Rightarrow> (SvDenied MintFailed, mark_seen (cq_iid q) (cq_ts q) now b2)
          | (Some k, b2) \<Rightarrow>
             (let env = seal_envelope c (sw_dumps w) nonce k \<lfloor>now\<rfloor>;
                  b3 = mark_issued (cq_iid q) (cq_ts q) (mark_seen (cq_iid q) (cq_ts q) now
                         (log_minted (cq_iid q) (cq_ts q) b2))
              in (if sw_deliver w (cq_iid q) env then SvIssued else SvRcatFailed, b3))))"

text \<open>One object of the lane; \<open>None\<close> for the verdict is a silent skip, an outer \<open>None\<close> an exception.\<close>

definition sweep_one ::
  "crypto \<Rightarrow> sweep_world \<Rightarrow> string \<Rightarrow> rat \<Rightarrow> broker \<Rightarrow> sweep_verdict option option \<times> broker" where
  "sweep_one c w iid_s now b =
     (case sw_object w iid_s of
        CatFailed \<Rightarrow> (Some (Some SvCatFailed), b)
      | Unparsable \<Rightarrow> (Some (Some SvMalformed), b)
      | Parsed q \<Rightarrow>
         if br_seen b (cq_iid q, cq_ts q) \<noteq> None then (Some None, b)
         else let b1 = prune_seen (now - 2 * REPLAY_WINDOW_S) b
         in case check_credreq c w iid_s now q b1 of
              None \<Rightarrow> (None, b1)
            | Some (Inl r) \<Rightarrow> (Some (Some (SvDenied r)), mark_seen (cq_iid q) (cq_ts q) now b1)
            | Some (Inr (nonce, prefix)) \<Rightarrow>
                (let (v, b2) = grant_credreq c w now q nonce prefix b1 in (Some (Some v), b2)))"

text \<open>One pass over the listed keys: an exception ends the pass with what was done so far.\<close>

fun sweep_all :: "crypto \<Rightarrow> sweep_world \<Rightarrow> rat \<Rightarrow> string list \<Rightarrow> broker \<Rightarrow> (string \<times> sweep_verdict) list option \<times> broker" where
  "sweep_all c w now [] b = (Some [], b)"
| "sweep_all c w now (s # ss) b =
     (case sweep_one c w s now b of
        (None, b1) \<Rightarrow> (None, b1)
      | (Some v, b1) \<Rightarrow>
         (let (r, b2) = sweep_all c w now ss b1
          in (map_option (\<lambda>vs. case v of None \<Rightarrow> vs | Some x \<Rightarrow> (s, x) # vs) r, b2)))"

text \<open>The lines of the listing that name a request, reduced to their first path segment; with no
  listing or no instances the pass does nothing.\<close>

definition b2_sweep ::
  "crypto \<Rightarrow> sweep_world \<Rightarrow> rat \<Rightarrow> string list option \<Rightarrow> broker \<Rightarrow> (string \<times> sweep_verdict) list option \<times> broker" where
  "b2_sweep c w now listing b =
     (case (listing, sw_instances w) of
        (Some lines, Some _) \<Rightarrow>
         sweep_all c w now
           (map (takeWhile (\<lambda>ch. ch \<noteq> CHR ''/''))
             (filter (ends_with ''/credreq'') (map py_strip lines))) b
      | _ \<Rightarrow> (Some [], b))"

section \<open>What a created key can do\<close>

definition key_safe :: "string \<times> key_request \<Rightarrow> bool" where
  "key_safe k \<longleftrightarrow> ''deleteFiles'' \<notin> set (kr_caps (snd k))
     \<and> (''writeFiles'' \<in> set (kr_caps (snd k)) \<longrightarrow> fst k = ''train''
          \<or> (\<exists>pol p. ROLE_WRITE_PREFIX (fst k) = Some (Some pol) \<and> kr_prefix (snd k) = Some p \<and> starts_with pol p))
     \<and> 3600 \<le> kr_seconds (snd k) \<and> kr_seconds (snd k) \<le> 24 * 999 * 3600"

lemma mint_seconds: "3600 \<le> key_seconds h" "key_seconds h \<le> 86313600"
  unfolding key_seconds_def
proof -
  have "of_int 3600 \<le> max 1 (min h MAX_HOURS) * (3600 :: rat)" by (simp add: max_def)
  then show "3600 \<le> \<lfloor>max 1 (min h MAX_HOURS) * 3600\<rfloor>" by (simp only: le_floor_iff)
  have "max 1 (min h MAX_HOURS) * 3600 < (of_int (24 * 999 * 3600 + 1) :: rat)"
    by (simp add: max_def min_def MAX_HOURS_def)
  then have "\<lfloor>max 1 (min h MAX_HOURS) * 3600\<rfloor> < 24 * 999 * 3600 + 1" by (simp only: floor_less_iff)
  then show "\<lfloor>max 1 (min h MAX_HOURS) * 3600\<rfloor> \<le> 86313600" by simp
qed

lemma mint_reader_safe: "mint create name h READ_CAPS p = Some (r, k) \<Longrightarrow> key_safe (role, r)"
  by (cases "sanitize_name name")
     (auto simp: mint_def mint_request_def READ_CAPS_def key_safe_def mint_seconds split: if_splits)

lemma mint_writer_safe:
  assumes "mint create name h caps (Some w) = Some (r, k)" "caps = WRITE_CAPS"
    "ROLE_WRITE_PREFIX role = Some (Some pol)" "starts_with pol w" "w \<noteq> []"
  shows "key_safe (role, r)"
  using assms by (cases "sanitize_name name")
     (auto simp: mint_def mint_request_def WRITE_CAPS_def key_safe_def mint_seconds nonempty_def split: if_splits)

lemma mint_train_safe: "mint create name h CAPS_DEFAULT None = Some (r, k) \<Longrightarrow> key_safe (''train'', r)"
  by (cases "sanitize_name name")
     (auto simp: mint_def mint_request_def CAPS_DEFAULT_def key_safe_def mint_seconds split: if_splits)

section \<open>What minting leaves alone\<close>

lemma issue_keys_frame [simp]:
  "br_minted_log (snd (issue_keys create iid role prefix h now b)) = br_minted_log b"
  "br_issued (snd (issue_keys create iid role prefix h now b)) = br_issued b"
  "br_seen (snd (issue_keys create iid role prefix h now b)) = br_seen b"
  by (auto simp: issue_keys_def Let_def revoke_previous_def log_created_def set_last_keys_def split: option.split)

lemma throttle_frame [simp]:
  "br_minted_log (snd (throttle iid now b)) = br_minted_log b"
  "br_issued (snd (throttle iid now b)) = br_issued b"
  "br_seen (snd (throttle iid now b)) = br_seen b"
  "br_created_log (snd (throttle iid now b)) = br_created_log b"
  by (simp_all add: throttle_def case_prod_beta Let_def)

lemma issued_ts_frame [simp]:
  "issued_ts i (snd (issue_keys create iid role prefix h now b)) = issued_ts i b"
  "issued_ts i (snd (throttle iid t b)) = issued_ts i b"
  "issued_ts i (prune_seen t0 b) = issued_ts i b"
  "issued_ts i (mark_seen iid ts n b) = issued_ts i b"
  "issued_ts i (log_minted iid ts b) = issued_ts i b"
  by (simp_all add: issued_ts_def prune_seen_def mark_seen_def log_minted_def)

lemma registry_prune [simp]: "br_registry (prune_seen t0 b) = br_registry b"
  by (simp add: prune_seen_def)

lemma issued_ts_mark [simp]: "issued_ts i (mark_issued iid ts b) = (if i = iid then max ts (issued_ts i b) else issued_ts i b)"
  by (simp add: issued_ts_def mark_issued_def)

lemma log_frame [simp]:
  "br_minted_log (prune_seen t0 b) = br_minted_log b" "br_created_log (prune_seen t0 b) = br_created_log b"
  "br_minted_log (mark_seen iid ts n b) = br_minted_log b" "br_created_log (mark_seen iid ts n b) = br_created_log b"
  "br_minted_log (mark_issued iid ts b) = br_minted_log b" "br_created_log (mark_issued iid ts b) = br_created_log b"
  "br_minted_log (log_minted iid ts b) = br_minted_log b @ [(iid, ts)]" "br_created_log (log_minted iid ts b) = br_created_log b"
  by (simp_all add: prune_seen_def mark_seen_def mark_issued_def log_minted_def)

lemma issue_keys_created:
  assumes "check_policy role want = Some prefix" "\<forall>k\<in>set (br_created_log b). key_safe k"
  shows "\<forall>k\<in>set (br_created_log (snd (issue_keys create iid role prefix h now b))). key_safe k"
proof (cases "nonempty prefix")
  case None
  then have "role = ''train''"
    using granted_prefix_scoped [OF assms(1)] by (auto simp: nonempty_def ROLE_WRITE_PREFIX_def split: option.splits if_splits)
  then show ?thesis using None assms(2)
    by (auto simp: issue_keys_def Let_def revoke_previous_def log_created_def set_last_keys_def split: option.split
        dest: mint_train_safe)
next
  case (Some w)
  then have p: "prefix = Some w" "w \<noteq> []" by (auto simp: nonempty_def split: option.splits if_splits)
  then obtain pol where pol: "ROLE_WRITE_PREFIX role = Some (Some pol)" "starts_with pol w"
    using granted_prefix_scoped [OF assms(1)] by auto
  note safe = mint_reader_safe [where role = role] mint_writer_safe [OF _ refl pol p(2)]
  show ?thesis using Some assms(2)
    by (auto simp: issue_keys_def Let_def revoke_previous_def log_created_def set_last_keys_def split: option.split
        dest: safe)
qed

section \<open>The broker over any sequence of requests\<close>

datatype broker_call =
    CredsCall create "vast_inst list option" rat rat int "creds_body option"
  | RegisterCall string string "register_body option"
  | SweepCall sweep_world rat "string list option"

fun broker_apply :: "crypto \<Rightarrow> broker \<Rightarrow> broker_call \<Rightarrow> broker" where
  "broker_apply c b (CredsCall create listing ttl now clock body) = snd (handle_creds c create listing ttl now clock body b)"
| "broker_apply c b (RegisterCall admin token body) = snd (handle_register admin token body b)"
| "broker_apply c b (SweepCall w now listing) = snd (b2_sweep c w now listing b)"

definition unlogged :: "broker \<Rightarrow> bool" where
  "unlogged b \<longleftrightarrow> br_minted_log b = [] \<and> br_created_log b = []"

text \<open>Every request served is at most the latest one recorded for its box, and each box's are in
  increasing order.\<close>

definition served_once :: "broker \<Rightarrow> bool" where
  "served_once b \<longleftrightarrow> (\<forall>(i, t)\<in>set (br_minted_log b). t \<le> issued_ts i b)
     \<and> sorted_wrt (\<lambda>x y. fst x = fst y \<longrightarrow> snd x < snd y) (br_minted_log b)"

definition broker_inv :: "broker \<Rightarrow> bool" where
  "broker_inv b \<longleftrightarrow> served_once b \<and> (\<forall>k\<in>set (br_created_log b). key_safe k)"

lemma served_once_cong:
  "br_minted_log b' = br_minted_log b \<Longrightarrow> \<forall>i. issued_ts i b' = issued_ts i b \<Longrightarrow> served_once b' = served_once b"
  by (simp add: served_once_def)

lemma broker_inv_frame:
  "broker_inv b \<Longrightarrow> br_minted_log b' = br_minted_log b \<Longrightarrow> (\<And>i. issued_ts i b' = issued_ts i b)
     \<Longrightarrow> br_created_log b' = br_created_log b \<Longrightarrow> broker_inv b'"
  by (simp add: broker_inv_def served_once_def)

lemma served_once_serve:
  assumes "served_once b" "issued_ts iid b < ts"
  shows "served_once (mark_issued iid ts (mark_seen iid ts n (log_minted iid ts b)))"
proof -
  let ?b = "mark_issued iid ts (mark_seen iid ts n (log_minted iid ts b))"
  have "t \<le> issued_ts i ?b" if "(i, t) \<in> set (br_minted_log ?b)" for i t
    using that assms by (fastforce simp: served_once_def)
  moreover have "snd x < ts" if "x \<in> set (br_minted_log b)" "fst x = iid" for x
    using that assms by (force simp: served_once_def)
  then have "sorted_wrt (\<lambda>x y. fst x = fst y \<longrightarrow> snd x < snd y) (br_minted_log ?b)"
    using assms(1) by (simp add: served_once_def sorted_wrt_append)
  ultimately show ?thesis by (auto simp: served_once_def)
qed

lemma policy_of_want_granted: "policy_of_want role want = Some (Some p) \<Longrightarrow> \<exists>w. check_policy role w = Some p"
  by (auto simp: policy_of_want_def split: if_splits option.splits jval.splits)

lemma check_credreq_passed:
  assumes "check_credreq c w s now q b = Some (Inr (nonce, prefix))"
  shows "int_str (cq_iid q) = s" "ts_fresh (cq_ts q) now" "issued_ts (cq_iid q) b < cq_ts q"
    "\<exists>want. check_policy (cq_role q) want = Some prefix"
    "\<exists>inst. by_id (dflt [] (sw_instances w)) (cq_iid q) = Some inst \<and> is_live inst \<and> nonce = launch_nonce inst \<and> nonce \<noteq> []
       \<and> verify_credreq_proof c nonce (cq_iid q) (cq_ts q) (cq_role q) (cq_proof q)
       \<and> authorized_role (Some inst) (br_registry b) (cq_iid q) = cq_role q \<and> cq_role q \<noteq> []"
  using assms
  by (auto simp: check_credreq_def Let_def split: if_splits option.splits dest: policy_of_want_granted)

lemma issue_keys_inv:
  assumes "broker_inv b" "check_policy role want = Some prefix" "issue_keys create iid role prefix h now b = (k, b')"
  shows "broker_inv b'" "issued_ts i b' = issued_ts i b"
proof -
  let ?m = "issue_keys create iid role prefix h now b"
  have b': "b' = snd ?m" using assms(3) by simp
  have "served_once (snd ?m)" using assms(1) by (subst served_once_cong [where b = b]) (auto simp: broker_inv_def)
  then show "broker_inv b'" using issue_keys_created [OF assms(2), of b create iid h now] assms(1)
    unfolding b' broker_inv_def by blast
  show "issued_ts i b' = issued_ts i b" unfolding b' by simp
qed

lemma throttle_inv_frame:
  assumes "broker_inv b" "throttle iid now b = (r, b')"
  shows "broker_inv b'" "issued_ts i b' = issued_ts i b" "br_registry b' = br_registry b"
proof -
  have b': "b' = snd (throttle iid now b)" using assms(2) by simp
  show "broker_inv b'" unfolding b' by (rule broker_inv_frame [OF assms(1)]) simp_all
  show "issued_ts i b' = issued_ts i b" unfolding b' by simp
  show "br_registry b' = br_registry b" unfolding b' by (simp add: throttle_def case_prod_beta Let_def)
qed

lemma broker_inv_mark: "broker_inv b \<Longrightarrow> broker_inv (mark_seen i t now b)"
  by (erule broker_inv_frame) simp_all

lemma broker_inv_prune: "broker_inv b \<Longrightarrow> broker_inv (prune_seen t0 b)"
  by (erule broker_inv_frame) simp_all

lemma grant_credreq_inv:
  assumes "broker_inv b" "issued_ts (cq_iid q) b < cq_ts q" "check_policy (cq_role q) want = Some prefix"
  shows "broker_inv (snd (grant_credreq c w now q nonce prefix b))"
proof -
  obtain r b1 where t: "throttle (cq_iid q) now b = (r, b1)" by (cases "throttle (cq_iid q) now b")
  obtain k b2 where k: "issue_keys (sw_create w) (cq_iid q) (cq_role q) prefix (sw_ttl w) (sw_clock w) b1 = (k, b2)"
    by (cases "issue_keys (sw_create w) (cq_iid q) (cq_role q) prefix (sw_ttl w) (sw_clock w) b1")
  note b1 = throttle_inv_frame [OF assms(1) t]
  note b2 = issue_keys_inv [OF b1(1) assms(3) k]
  have "served_once (mark_issued (cq_iid q) (cq_ts q) (mark_seen (cq_iid q) (cq_ts q) now
      (log_minted (cq_iid q) (cq_ts q) b2)))"
    using b2 b1(2) assms(2) by (intro served_once_serve) (simp_all add: broker_inv_def)
  then have "broker_inv (mark_issued (cq_iid q) (cq_ts q) (mark_seen (cq_iid q) (cq_ts q) now
      (log_minted (cq_iid q) (cq_ts q) b2)))" using b2(1) by (simp add: broker_inv_def)
  then show ?thesis using t k b1(1) broker_inv_mark [OF b2(1)]
    by (cases r; cases k) (simp_all add: grant_credreq_def Let_def)
qed

lemma sweep_one_inv: "broker_inv b \<Longrightarrow> broker_inv (snd (sweep_one c w s now b))"
proof -
  assume inv: "broker_inv b"
  let ?b1 = "prune_seen (now - 2 * REPLAY_WINDOW_S) b"
  have p: "broker_inv ?b1" "broker_inv (mark_seen i t now ?b1)" for i t
    using inv by (simp_all add: broker_inv_mark broker_inv_prune)
  have "broker_inv (snd (grant_credreq c w now q nonce prefix ?b1))"
    if "check_credreq c w s now q ?b1 = Some (Inr (nonce, prefix))" for q nonce prefix
    using grant_credreq_inv [OF p(1)] check_credreq_passed [OF that] by blast
  note granted = this
  show ?thesis
  proof (cases "sw_object w s")
    case (Parsed q)
    show ?thesis
    proof (cases "check_credreq c w s now q ?b1")
      case None
      then show ?thesis using Parsed inv p(1) by (simp add: sweep_one_def)
    next
      case (Some v)
      then show ?thesis using Parsed inv p granted [of q]
        by (cases v) (auto simp: sweep_one_def case_prod_beta Let_def)
    qed
  qed (use inv in \<open>simp_all add: sweep_one_def\<close>)
qed

lemma sweep_all_inv: "broker_inv b \<Longrightarrow> broker_inv (snd (sweep_all c w now ss b))"
proof (induction ss arbitrary: b)
  case (Cons s ss)
  obtain v b1 where s: "sweep_one c w s now b = (v, b1)" by (cases "sweep_one c w s now b")
  then have "broker_inv b1" using sweep_one_inv [OF Cons.prems, of c w s now] by simp
  then show ?case using Cons.IH [of b1] s by (simp add: case_prod_beta Let_def split: option.split)
qed simp

lemma handle_creds_inv:
  assumes "broker_inv b"
  shows "broker_inv (snd (handle_creds c create listing ttl now clock body b))"
proof (cases "Option.bind body creds_fields")
  case None
  then show ?thesis using assms by (simp add: handle_creds_def)
next
  case (Some f)
  obtain iid nonce role wp where f: "f = (iid, nonce, role, wp)" by (cases f)
  let ?g = "authorized_role (find (\<lambda>i. vi_id i = iid) (dflt [] listing)) (br_registry b) iid"
  show ?thesis
  proof (cases "fst (verify_instance c iid nonce listing (br_registry b)) \<and> ?g \<noteq> [] \<and> role = ?g \<and> check_policy role wp \<noteq> None")
    case False
    then show ?thesis using Some f assms by (auto simp: handle_creds_def Let_def)
  next
    case True
    then obtain prefix where p: "check_policy role wp = Some prefix" by blast
    obtain r b1 where t: "throttle iid now b = (r, b1)" by (cases "throttle iid now b")
    obtain k b2 where k: "issue_keys create iid role prefix ttl clock b1 = (k, b2)"
      by (cases "issue_keys create iid role prefix ttl clock b1")
    note b1 = throttle_inv_frame [OF assms t]
    note b2 = issue_keys_inv [OF b1(1) p k]
    show ?thesis using Some f True p t k b1(1) b2(1)
      by (cases r; cases k) (simp_all add: handle_creds_def Let_def)
  qed
qed

lemma handle_register_inv: "broker_inv b \<Longrightarrow> broker_inv (snd (handle_register admin token body b))"
  by (auto simp: handle_register_def broker_inv_def served_once_def issued_ts_def split: option.split jval.split)

lemma b2_sweep_inv: "broker_inv b \<Longrightarrow> broker_inv (snd (b2_sweep c w now listing b))"
  by (cases listing; cases "sw_instances w") (simp_all add: b2_sweep_def sweep_all_inv)

interpretation bm: invariant_machine unlogged "broker_apply c" "\<lambda>_. True" broker_inv
proof unfold_locales
  show "broker_inv b" if "unlogged b" for b
    using that by (simp add: unlogged_def broker_inv_def served_once_def)
  show "broker_inv (broker_apply c b k)" if "broker_inv b" for b k
    using that by (cases k) (simp_all add: handle_creds_inv handle_register_inv b2_sweep_inv)
qed

text \<open>C21. Over any sequence of requests and sweeps, no bucket request is served twice, and a box is only
  ever served a request newer than the last one it was served.\<close>

theorem request_served_once:
  assumes "unlogged b" "xs @ (i, t) # ys @ (i, u) # zs = br_minted_log (foldl (broker_apply c) b calls)"
  shows "t < u"
proof -
  have "served_once (foldl (broker_apply c) b calls)" using bm.reached [OF assms(1), of calls] by (simp add: broker_inv_def)
  then show ?thesis by (simp add: served_once_def assms(2) [symmetric] sorted_wrt_append)
qed

text \<open>Over any sequence of requests and sweeps, no key the broker creates can delete files; one that
  can write is under the prefix of the role it was created for, training boxes apart; and every key
  expires, after an hour at the soonest and 999 days at the latest.\<close>

lemma created_keys_confined:
  assumes "unlogged b" "(role, r) \<in> set (br_created_log (foldl (broker_apply c) b calls))"
  shows "''deleteFiles'' \<notin> set (kr_caps r)
    \<and> (''writeFiles'' \<in> set (kr_caps r) \<longrightarrow> role = ''train''
        \<or> (\<exists>pol p. ROLE_WRITE_PREFIX role = Some (Some pol) \<and> kr_prefix r = Some p \<and> starts_with pol p))
    \<and> 3600 \<le> kr_seconds r \<and> kr_seconds r \<le> 999 * 24 * 3600"
proof -
  have "key_safe (role, r)" using bm.reached [OF assms(1), of calls] assms(2) by (auto simp: broker_inv_def)
  then show ?thesis by (simp add: key_safe_def)
qed

lemma sweep_one_issued:
  assumes "fst (sweep_one c w s now b) = Some (Some SvIssued)"
  obtains q nonce prefix k where "sw_object w s = Parsed q"
    "check_credreq c w s now q (prune_seen (now - 2 * REPLAY_WINDOW_S) b) = Some (Inr (nonce, prefix))"
    "sw_deliver w (cq_iid q) (seal_envelope c (sw_dumps w) nonce k \<lfloor>now\<rfloor>)"
proof (cases "sw_object w s")
  case (Parsed q)
  let ?b1 = "prune_seen (now - 2 * REPLAY_WINDOW_S) b"
  obtain nonce prefix where p: "check_credreq c w s now q ?b1 = Some (Inr (nonce, prefix))"
    and g: "fst (grant_credreq c w now q nonce prefix ?b1) = SvIssued"
    using assms Parsed by (auto simp: sweep_one_def Let_def case_prod_beta split: if_splits option.splits sum.splits)
  obtain r b1 where t: "throttle (cq_iid q) now ?b1 = (r, b1)" by (cases "throttle (cq_iid q) now ?b1")
  obtain k b2 where k: "issue_keys (sw_create w) (cq_iid q) (cq_role q) prefix (sw_ttl w) (sw_clock w) b1 = (k, b2)"
    by (cases "issue_keys (sw_create w) (cq_iid q) (cq_role q) prefix (sw_ttl w) (sw_clock w) b1")
  from g t k obtain k' where "sw_deliver w (cq_iid q) (seal_envelope c (sw_dumps w) nonce k' \<lfloor>now\<rfloor>)"
    by (cases r; cases k) (auto simp: grant_credreq_def Let_def split: if_splits)
  then show thesis using that Parsed p by blast
qed (use assms in \<open>simp_all add: sweep_one_def\<close>)

text \<open>C22. A bucket request is answered with keys only if it lies in the box's own directory, is at most ten
  minutes off the clock and newer than the last one served, the box is listed and live, the proof
  verifies under the nonce its launch recorded, and the role is the one it was authorized for; and
  the box that knows that nonce opens the answer.\<close>

theorem served_only_to_the_box:
  assumes "fst (sweep_one c w s now b) = Some (Some SvIssued)"
    "\<forall>k m. cr_hmac c k m \<noteq> []"
  shows "\<exists>q inst env k. sw_object w s = Parsed q \<and> int_str (cq_iid q) = s \<and> \<bar>now - of_int (cq_ts q)\<bar> \<le> 600
     \<and> issued_ts (cq_iid q) b < cq_ts q
     \<and> by_id (dflt [] (sw_instances w)) (cq_iid q) = Some inst \<and> is_live inst \<and> launch_nonce inst \<noteq> []
     \<and> verify_credreq_proof c (launch_nonce inst) (cq_iid q) (cq_ts q) (cq_role q) (cq_proof q)
     \<and> authorized_role (Some inst) (br_registry b) (cq_iid q) = cq_role q
     \<and> sw_deliver w (cq_iid q) env
     \<and> (\<forall>loads. loads (sw_dumps w k) = Some k \<longrightarrow> open_envelope c loads (launch_nonce inst) env = Inr k)"
proof -
  obtain q nonce prefix k where q: "sw_object w s = Parsed q"
    "check_credreq c w s now q (prune_seen (now - 2 * REPLAY_WINDOW_S) b) = Some (Inr (nonce, prefix))"
    "sw_deliver w (cq_iid q) (seal_envelope c (sw_dumps w) nonce k \<lfloor>now\<rfloor>)"
    using assms(1) by (rule sweep_one_issued)
  note passed = check_credreq_passed [OF q(2)]
  obtain inst where inst: "by_id (dflt [] (sw_instances w)) (cq_iid q) = Some inst" "is_live inst"
      "nonce = launch_nonce inst" "nonce \<noteq> []"
      "verify_credreq_proof c nonce (cq_iid q) (cq_ts q) (cq_role q) (cq_proof q)"
      "authorized_role (Some inst) (br_registry b) (cq_iid q) = cq_role q"
    using passed(5) by auto
  have opens: "loads (sw_dumps w k) = Some k \<Longrightarrow> open_envelope c loads nonce (seal_envelope c (sw_dumps w) nonce k \<lfloor>now\<rfloor>) = Inr k"
    for loads by (rule opened_sealed [OF assms(2)])
  have fresh: "\<bar>now - of_int (cq_ts q)\<bar> \<le> 600" "issued_ts (cq_iid q) b < cq_ts q"
    using passed(2,3) by (simp_all only: ts_fresh_def REPLAY_WINDOW_S_def issued_ts_frame)
  note holds = q(1) passed(1) fresh inst(1,2) inst(4-6) [unfolded inst(3)] q(3) [unfolded inst(3)] opens [unfolded inst(3)]
  show ?thesis
    by (rule exI [of _ q], rule exI [of _ inst], rule exI, rule exI) (intro conjI allI impI; (rule holds; assumption?))
qed

text \<open>A request whose prefix is not a string raises inside the pass: the boxes listed after it are not
  reached, and since nothing records the request, neither are they on the next pass.\<close>

lemma malformed_prefix_ends_the_pass:
  assumes "sw_object w s = Parsed q" "br_seen b (cq_iid q, cq_ts q) = None"
    "check_credreq c w s now q (prune_seen (now - 2 * REPLAY_WINDOW_S) b) = None"
  shows "fst (sweep_all c w now (s # ss) b) = None
    \<and> br_seen (snd (sweep_all c w now (s # ss) b)) (cq_iid q, cq_ts q) = None"
  using assms by (simp add: sweep_one_def Let_def prune_seen_def)

definition flat_crypto :: crypto where
  "flat_crypto = \<lparr>cr_sha256 = (\<lambda>_. [1]), cr_hmac = (\<lambda>_ _. [1])\<rparr>"

definition toy_inst :: vast_inst where
  "toy_inst = \<lparr>vi_id = 7, vi_status = Some ''running'',
     vi_env = [(''BOX_IDENTITY_NONCE'', ''abc''), (''CRED_ROLE'', ''jobs'')]\<rparr>"

definition toy_request :: "int \<Rightarrow> credreq" where
  "toy_request ts = \<lparr>cq_iid = 7, cq_ts = ts, cq_role = ''jobs'',
     cq_proof = ''01'', cq_want = None\<rparr>"

definition toy_sweep :: "int \<Rightarrow> sweep_world" where
  "toy_sweep ts = \<lparr>sw_instances = Some [toy_inst], sw_object = (\<lambda>_. Parsed (toy_request ts)),
     sw_deliver = (\<lambda>_ _. True), sw_create = (\<lambda>r. Some (''k'', ''s'')), sw_ttl = 72, sw_clock = ts,
     sw_dumps = (\<lambda>k. encode (snd (ik_key k)))\<rparr>"

definition toy_broker :: broker where
  "toy_broker = \<lparr>br_registry = (\<lambda>_. \<lparr>re_nonce_sha256 = None, re_role = None, re_keys = []\<rparr>), br_stamps = (\<lambda>_. []),
     br_seen = Map.empty, br_issued = Map.empty, br_created_log = [], br_revoked_log = [], br_minted_log = []\<rparr>"

definition toy_calls :: "broker_call list" where
  "toy_calls = [SweepCall (toy_sweep 1000) 1000 (Some [''7/credreq'']), SweepCall (toy_sweep 1000) 1100 (Some [''7/credreq'']),
     SweepCall (toy_sweep 1200) 1200 (Some [''7/credreq''])]"

definition logs :: "broker \<Rightarrow> (int \<times> int) list \<times> (string \<times> key_request) list" where
  "logs b = (br_minted_log b, br_created_log b)"

definition toy_key :: "string \<Rightarrow> string list \<Rightarrow> string option \<Rightarrow> string \<times> key_request" where
  "toy_key name caps prefix = (''jobs'', \<lparr>kr_name = name, kr_caps = caps, kr_seconds = 259200, kr_prefix = prefix\<rparr>)"

lemma toy_run: "logs (foldl (broker_apply flat_crypto) toy_broker toy_calls)
  = ([(7, 1000), (7, 1200)],
     [toy_key ''box-7-brk1000-ro'' READ_CAPS None, toy_key ''box-7-brk1000-rw'' WRITE_CAPS (Some ''jobs/''),
      toy_key ''box-7-brk1200-ro'' READ_CAPS None, toy_key ''box-7-brk1200-rw'' WRITE_CAPS (Some ''jobs/'')])"
  by code_simp

lemma toy_unlogged: "unlogged toy_broker"
  by (simp add: unlogged_def toy_broker_def)

theorem request_served_once_witness: "(1000 :: int) < 1200"
proof (rule request_served_once [OF toy_unlogged])
  show "[] @ (7, 1000) # [] @ (7, 1200) # [] = br_minted_log (foldl (broker_apply flat_crypto) toy_broker toy_calls)"
    using toy_run by (simp add: logs_def)
qed

lemma toy_writer:
  "(''jobs'', \<lparr>kr_name = ''box-7-brk1000-rw'', kr_caps = WRITE_CAPS, kr_seconds = 259200, kr_prefix = Some ''jobs/''\<rparr>)
     \<in> set (br_created_log (foldl (broker_apply flat_crypto) toy_broker toy_calls))"
  using toy_run by (simp add: logs_def toy_key_def)

theorem served_only_to_the_box_witness:
  "\<exists>q inst. sw_object (toy_sweep 1000) ''7'' = Parsed q \<and> by_id [toy_inst] (cq_iid q) = Some inst \<and> is_live inst"
proof -
  have issued: "fst (sweep_one flat_crypto (toy_sweep 1000) ''7'' 1000 toy_broker) = Some (Some SvIssued)" by code_simp
  have hmac: "\<forall>k m. cr_hmac flat_crypto k m \<noteq> []" by (simp add: flat_crypto_def)
  have insts: "dflt [] (sw_instances (toy_sweep 1000)) = [toy_inst]" by (simp add: toy_sweep_def)
  show ?thesis using served_only_to_the_box [OF issued hmac] unfolding insts by blast
qed

end
