(* ===== verification/HostRep.thy ===== *)
theory HostRep
  imports RunFold "HOL-Library.AList" "HOL-Library.Product_Lexorder" "HOL-Library.Multiset"
begin

text \<open>
  The reputation of rental hosts (\<open>market/hostrep.py\<close>) and the latch that keeps an account's own
  failure from being charged to one (\<open>core/acctfault.py\<close>).

  The store is the JSON object's \<open>machines\<close> map; a record another program mangled is \<open>Junk\<close>. Times are
  seconds and scores real numbers, as the exponential decay needs them; the knobs are a parameter whose
  defaults are the table of \<open>core/config.py\<close>. Each operation takes whether the file could be saved; a
  failed save leaves the store as it was.

  Lemma groups: the decay of a score; what the newest-first list of strikes keeps; the cause behind every
  block; ranking.
\<close>

section \<open>The account latch\<close>

datatype acct_code = InsufficientCredit | BadAuth | NotPermitted | NoApiKey

definition ACCT_TOKENS :: "(string \<times> acct_code) list" where
  "ACCT_TOKENS =
     [(''insufficient_credit'', InsufficientCredit), (''insufficient credit'', InsufficientCredit),
      (''lacks credit'', InsufficientCredit), (''lack credit'', InsufficientCredit),
      (''billing page'', InsufficientCredit), (''negative balance'', InsufficientCredit),
      (''out of credit'', InsufficientCredit), (''invalid_api_key'', BadAuth), (''invalid api key'', BadAuth),
      (''bad api key'', BadAuth), (''api key is invalid'', BadAuth), (''expired api key'', BadAuth),
      (''unauthorized'', BadAuth), (''authentication failed'', BadAuth), (''account suspended'', NotPermitted),
      (''account is suspended'', NotPermitted), (''account disabled'', NotPermitted),
      (''account_disabled'', NotPermitted), (''account is banned'', NotPermitted),
      (''not_authorized'', NotPermitted), (''permission denied'', NotPermitted)]"

text \<open>The first \<open>http \d{3}\<close> of the text.\<close>

fun http_status :: "string \<Rightarrow> nat option" where
  "http_status [] = None"
| "http_status (c # cs) =
     (if starts_with ''http '' (c # cs)
      then (case drop 4 cs of
              a # b # d # r \<Rightarrow> if py_isdigit a \<and> py_isdigit b \<and> py_isdigit d
                             then Some (100 * digit_val a + 10 * digit_val b + digit_val d) else http_status cs
            | _ \<Rightarrow> http_status cs)
      else http_status cs)"

definition classify :: "string option \<Rightarrow> acct_code option" where
  "classify err =
     (case err of None \<Rightarrow> None
      | Some e \<Rightarrow>
         (let txt = py_lower (py_strip e)
          in if txt = [] then None
             else if contains ''vastai_api_key not set'' txt then Some NoApiKey
             else case find (\<lambda>(tok, _). contains tok txt) ACCT_TOKENS of
                    Some (_, c) \<Rightarrow> Some c
                  | None \<Rightarrow> (case http_status txt of
                      Some s \<Rightarrow> if s = 401 then Some BadAuth else if s = 403 then Some NotPermitted else None
                    | None \<Rightarrow> None)))"

definition ACCT_WINDOW_S :: real where "ACCT_WINDOW_S = 900"

type_synonym acct_latch = "(acct_code \<times> real) option"

definition acct_note :: "string option \<Rightarrow> real \<Rightarrow> acct_latch \<Rightarrow> acct_code option \<times> acct_latch" where
  "acct_note err now l = (case classify err of None \<Rightarrow> (None, l) | Some c \<Rightarrow> (Some c, Some (c, now)))"

definition acct_recent :: "real \<Rightarrow> acct_latch \<Rightarrow> (acct_code \<times> real) option" where
  "acct_recent now l =
     (case l of None \<Rightarrow> None
      | Some (c, ts) \<Rightarrow> (let age = now - ts in if age < 0 \<or> ACCT_WINDOW_S < age then None else Some (c, age)))"

section \<open>The store\<close>

record strike =
  sk_ts :: real
  sk_kind :: string
  sk_iid :: "string option"
  sk_note :: "string option"

record hold_rec =
  hd_until :: real
  hd_reason :: string
  hd_ts :: real

record host_rec =
  ho_strikes :: "strike list"
  ho_last_ok :: real
  ho_ok_count :: nat
  ho_last_ok_iid :: "string option"
  ho_hold :: "hold_rec option"
  ho_blocked_at :: "real option"
  ho_blocked_until :: real

datatype host_obj = Junk | Host host_rec

type_synonym host_store = "(string \<times> host_obj) list"

record host_knobs =
  kn_half_life_d :: real
  kn_bonus :: real
  kn_per_point :: real
  kn_penalty_max :: real
  kn_block_score :: real
  kn_cooldown_d :: real
  kn_keep :: int

definition HOSTREP_DEFAULTS :: host_knobs where
  "HOSTREP_DEFAULTS = \<lparr>kn_half_life_d = 14, kn_bonus = 3/4, kn_per_point = 35/100, kn_penalty_max = 4,
     kn_block_score = 3, kn_cooldown_d = 14, kn_keep = 40\<rparr>"

definition DAY_S :: real where "DAY_S = 86400"

definition STRIKE_WEIGHTS :: "(string \<times> real) list" where
  "STRIKE_WEIGHTS = [(''pull_timeout'', 1), (''pull_slow'', 1), (''boot_sla'', 1), (''host_failure'', 1),
     (''host_stop'', 16/10), (''operator'', 2)]"

definition strike_weight :: "string \<Rightarrow> real" where
  "strike_weight k = dflt 1 (map_of STRIKE_WEIGHTS k)"

definition SUPERSEDED_DISCOUNT :: real where "SUPERSEDED_DISCOUNT = 4/10"

definition new_host :: host_rec where
  "new_host = \<lparr>ho_strikes = [], ho_last_ok = 0, ho_ok_count = 0, ho_last_ok_iid = None, ho_hold = None,
     ho_blocked_at = None, ho_blocked_until = 0\<rparr>"

section \<open>Scores\<close>

definition half_life_s :: "host_knobs \<Rightarrow> real" where
  "half_life_s kn = max (1 / 10 ^ 9) (kn_half_life_d kn) * DAY_S"

definition strike_age :: "real \<Rightarrow> strike \<Rightarrow> real" where
  "strike_age now s = max 0 (now - sk_ts s)"

definition strike_value :: "host_knobs \<Rightarrow> real \<Rightarrow> real \<Rightarrow> strike \<Rightarrow> real" where
  "strike_value kn last_ok now s =
     strike_weight (sk_kind s) * 2 powr (- strike_age now s / half_life_s kn)
       * (if last_ok \<noteq> 0 \<and> sk_ts s < last_ok then SUPERSEDED_DISCOUNT else 1)"

definition strike_day :: "real \<Rightarrow> strike \<Rightarrow> int" where
  "strike_day now s = \<lfloor>strike_age now s / DAY_S\<rfloor>"

definition host_score :: "host_knobs \<Rightarrow> real \<Rightarrow> host_rec \<Rightarrow> real" where
  "host_score kn now r =
     (let base = sum_list (map (strike_value kn (ho_last_ok r) now) (ho_strikes r));
          days = card (set (map (strike_day now) (ho_strikes r)))
      in if base \<le> 0 then 0 else base * (1 + kn_bonus kn * real (days - 1)))"

definition block_until :: "host_knobs \<Rightarrow> host_rec \<Rightarrow> real" where
  "block_until kn r =
     (case ho_blocked_at r of Some t \<Rightarrow> t + kn_cooldown_d kn * DAY_S | None \<Rightarrow> ho_blocked_until r)"

text \<open>Why a host is excluded: an operator's hold, or strikes with their number, the score, the threshold;
  and the time left.\<close>

datatype block_reason = HeldFor string real | StruckFor nat real real real

definition blocked_rec :: "host_knobs \<Rightarrow> real \<Rightarrow> host_obj \<Rightarrow> block_reason option" where
  "blocked_rec kn now h =
     (case h of Junk \<Rightarrow> None
      | Host r \<Rightarrow>
         (case ho_hold r of
            Some hl \<Rightarrow> if now < hd_until hl then Some (HeldFor (hd_reason hl) (hd_until hl - now))
                       else if now < block_until kn r
                       then Some (StruckFor (length (ho_strikes r)) (host_score kn now r) (kn_block_score kn) (block_until kn r - now))
                       else None
          | None \<Rightarrow> if now < block_until kn r
                    then Some (StruckFor (length (ho_strikes r)) (host_score kn now r) (kn_block_score kn) (block_until kn r - now))
                    else None))"

section \<open>Operations\<close>

definition commit :: "bool \<Rightarrow> host_store \<Rightarrow> host_store option \<Rightarrow> bool \<times> host_store" where
  "commit saved st new = (case new of Some st' \<Rightarrow> if saved then (True, st') else (False, st) | None \<Rightarrow> (False, st))"

definition on_host :: "(host_rec \<Rightarrow> host_rec) \<Rightarrow> string \<Rightarrow> host_store \<Rightarrow> host_store option" where
  "on_host f m st =
     (case map_of st m of
        Some Junk \<Rightarrow> None
      | Some (Host r) \<Rightarrow> Some (AList.update m (Host (f r)) st)
      | None \<Rightarrow> Some (AList.update m (Host (f new_host)) st))"

definition add_strike :: "host_knobs \<Rightarrow> strike \<Rightarrow> host_rec \<Rightarrow> host_rec" where
  "add_strike kn s r =
     (let r1 = r\<lparr>ho_strikes := take (nat (max 1 (kn_keep kn))) (sort_key (\<lambda>s. - sk_ts s) (ho_strikes r @ [s]))\<rparr>
      in if kn_block_score kn \<le> host_score kn (sk_ts s) r1
         then r1\<lparr>ho_blocked_at := Some (max (dflt 0 (ho_blocked_at r)) (sk_ts s))\<rparr> else r1)"

definition host_of :: "host_store \<Rightarrow> string \<Rightarrow> host_rec" where
  "host_of st m = (case map_of st m of Some (Host r) \<Rightarrow> r | _ \<Rightarrow> new_host)"

definition note_strike ::
  "host_knobs \<Rightarrow> bool \<Rightarrow> acct_latch \<Rightarrow> string option \<Rightarrow> string \<Rightarrow> string option \<Rightarrow> string option \<Rightarrow> real \<Rightarrow> bool
   \<Rightarrow> host_store \<Rightarrow> real option \<times> host_store" where
  "note_strike kn enabled latch machine kind iid note_txt now saved st =
     (case machine of
        None \<Rightarrow> (None, st)
      | Some m \<Rightarrow>
         if \<not> enabled \<or> acct_recent now latch \<noteq> None then (None, st)
         else (let s = \<lparr>sk_ts = now, sk_kind = kind, sk_iid = iid, sk_note = note_txt\<rparr>;
                   (ok, st') = commit saved st (on_host (add_strike kn s) m st)
               in (if ok then Some (host_score kn now (add_strike kn s (host_of st m))) else None, st')))"

definition mark_ok :: "string option \<Rightarrow> real \<Rightarrow> host_rec \<Rightarrow> host_rec" where
  "mark_ok iid now r =
     r\<lparr>ho_last_ok := max (ho_last_ok r) now, ho_ok_count := ho_ok_count r + 1,
       ho_last_ok_iid := (case iid of Some i \<Rightarrow> Some i | None \<Rightarrow> ho_last_ok_iid r)\<rparr>"

definition note_ok :: "bool \<Rightarrow> string option \<Rightarrow> string option \<Rightarrow> real \<Rightarrow> bool \<Rightarrow> host_store \<Rightarrow> bool \<times> host_store" where
  "note_ok enabled machine iid now saved st =
     (case machine of
        None \<Rightarrow> (False, st)
      | Some m \<Rightarrow> if \<not> enabled then (False, st) else commit saved st (on_host (mark_ok iid now) m st))"

definition set_hold :: "real \<Rightarrow> string \<Rightarrow> real \<Rightarrow> host_rec \<Rightarrow> host_rec" where
  "set_hold days reason now r =
     r\<lparr>ho_hold := Some \<lparr>hd_until = now + days * DAY_S, hd_reason = (if reason = [] then ''operator hold'' else reason),
        hd_ts = now\<rparr>\<rparr>"

definition hold :: "string option \<Rightarrow> real \<Rightarrow> string \<Rightarrow> real \<Rightarrow> bool \<Rightarrow> host_store \<Rightarrow> bool \<times> host_store" where
  "hold machine days reason now saved st =
     (case machine of
        None \<Rightarrow> (False, st)
      | Some m \<Rightarrow> commit saved st (on_host (set_hold days reason now) m st))"

definition lift_block :: "host_rec \<Rightarrow> host_rec" where
  "lift_block r = r\<lparr>ho_hold := None, ho_blocked_at := None, ho_blocked_until := 0\<rparr>"

definition release :: "string \<Rightarrow> bool \<Rightarrow> host_store \<Rightarrow> bool \<times> host_store" where
  "release m saved st =
     commit saved st (Some (case map_of st m of
        Some (Host r) \<Rightarrow> AList.update m (Host (lift_block r)) st
      | _ \<Rightarrow> st))"

definition forget :: "string \<Rightarrow> bool \<Rightarrow> host_store \<Rightarrow> bool \<times> host_store" where
  "forget m saved st = commit saved st (Some (AList.delete m st))"

definition prune_host :: "host_knobs \<Rightarrow> real \<Rightarrow> real \<Rightarrow> host_obj \<Rightarrow> host_obj option" where
  "prune_host kn oldest now h =
     (case h of Junk \<Rightarrow> None
      | Host r \<Rightarrow>
         (let r1 = r\<lparr>ho_strikes := filter (\<lambda>s. oldest \<le> sk_ts s) (ho_strikes r)\<rparr>;
              live_hold = (case ho_hold r of Some hl \<Rightarrow> now < hd_until hl | None \<Rightarrow> now < 0)
          in if ho_strikes r1 = [] \<and> \<not> live_hold \<and> \<not> now < block_until kn r1 then None else Some (Host r1)))"

definition prune :: "host_knobs \<Rightarrow> real \<Rightarrow> real \<Rightarrow> bool \<Rightarrow> host_store \<Rightarrow> nat \<times> host_store" where
  "prune kn older_than_d now saved st =
     (let oldest = now - older_than_d * DAY_S;
          st' = List.map_filter (\<lambda>(m, h). map_option (Pair m) (prune_host kn oldest now h)) st
      in (length (filter (\<lambda>(m, h). prune_host kn oldest now h = None) st), snd (commit saved st (Some st'))))"

section \<open>Verdicts and offers\<close>

definition penalty_for_score :: "host_knobs \<Rightarrow> real \<Rightarrow> real" where
  "penalty_for_score kn sc = (if sc \<le> 0 then 1 else min (kn_penalty_max kn) (1 + kn_per_point kn * sc))"

record host_verdict =
  vd_score :: real
  vd_penalty :: real
  vd_blocked :: "block_reason option"

type_synonym verdict_table = "(string \<times> host_verdict) list"

definition obj_score :: "host_knobs \<Rightarrow> real \<Rightarrow> host_obj \<Rightarrow> real" where
  "obj_score kn now h = (case h of Junk \<Rightarrow> 0 | Host r \<Rightarrow> host_score kn now r)"

definition verdicts :: "host_knobs \<Rightarrow> bool \<Rightarrow> real \<Rightarrow> host_store \<Rightarrow> verdict_table" where
  "verdicts kn enabled now st =
     (if \<not> enabled then []
      else List.map_filter (\<lambda>(m, h).
        (let sc = obj_score kn now h; reason = blocked_rec kn now h
         in if sc \<le> 0 \<and> reason = None then None
            else Some (m, \<lparr>vd_score = sc, vd_penalty = penalty_for_score kn sc, vd_blocked = reason\<rparr>))) st)"

definition int_of_text :: "string \<Rightarrow> int option" where
  "int_of_text t = parse_int (py_strip t)"

definition blocked_machines :: "host_knobs \<Rightarrow> bool \<Rightarrow> real \<Rightarrow> host_store \<Rightarrow> int set" where
  "blocked_machines kn enabled now st =
     set (List.map_filter (\<lambda>(m, v). if vd_blocked v \<noteq> None then int_of_text m else None) (verdicts kn enabled now st))"

definition vd_multiplier :: "host_verdict option \<Rightarrow> real" where
  "vd_multiplier v = (case v of None \<Rightarrow> 1 | Some x \<Rightarrow> if vd_penalty x = 0 then 1 else vd_penalty x)"

definition penalty :: "verdict_table \<Rightarrow> string option \<Rightarrow> real" where
  "penalty vd machine = (case machine of None \<Rightarrow> 1 | Some m \<Rightarrow> vd_multiplier (map_of vd m))"

text \<open>An offer: its machine, and its price when the field parses as a number.\<close>

record offer_row =
  ow_machine :: "string option"
  ow_price :: "real option"

datatype rank_remark =
    Skipped "(string \<times> block_reason) list" nat
  | Preferring "string option" "real option" "string option" "real option" real

definition offer_verdict :: "verdict_table \<Rightarrow> 'a offer_row_scheme \<Rightarrow> host_verdict option" where
  "offer_verdict vd x = (case ow_machine x of None \<Rightarrow> None | Some m \<Rightarrow> map_of vd m)"

definition offer_block :: "verdict_table \<Rightarrow> 'a offer_row_scheme \<Rightarrow> (string \<times> block_reason) option" where
  "offer_block vd x =
     (case ow_machine x of None \<Rightarrow> None
      | Some m \<Rightarrow> Option.bind (map_of vd m) (\<lambda>v. map_option (Pair m) (vd_blocked v)))"

text \<open>The sort key: the price times the penalty, with what does not parse after everything else.\<close>

definition rank_price :: "verdict_table \<Rightarrow> 'a offer_row_scheme \<Rightarrow> bool \<times> real" where
  "rank_price vd x =
     (case ow_price x of None \<Rightarrow> (True, 0) | Some p \<Rightarrow> (False, p * vd_multiplier (offer_verdict vd x)))"

definition outscored :: "verdict_table \<Rightarrow> 'a offer_row_scheme \<Rightarrow> bool" where
  "outscored vd x \<longleftrightarrow> ow_price x \<noteq> None \<and> 1 < vd_multiplier (offer_verdict vd x)"

definition rank_offers :: "bool \<Rightarrow> verdict_table \<Rightarrow> 'a offer_row_scheme list \<Rightarrow> 'a offer_row_scheme list \<times> rank_remark list" where
  "rank_offers enabled vd rows =
     (if rows = [] \<or> \<not> enabled \<or> vd = [] then (rows, [])
      else
       (let dropped = List.map_filter (offer_block vd) rows;
            kept = map (\<lambda>(i, x). (rank_price vd x, i, x)) (filter (\<lambda>(i, x). offer_block vd x = None) (enumerate 0 rows));
            moved = length (filter (outscored vd) (filter (\<lambda>x. offer_block vd x = None) rows));
            ranked = sort_key (\<lambda>(k, i, x). (k, i)) kept;
            skip = (if dropped = [] then [] else [Skipped (take 4 dropped) (length dropped - 4)]);
            pref = (case ranked of
                [] \<Rightarrow> []
              | (k, i, x) # _ \<Rightarrow> if 0 < moved \<and> i \<noteq> 0
                  then [Preferring (ow_machine x) (ow_price x) (ow_machine (rows ! 0)) (ow_price (rows ! 0)) (penalty vd (ow_machine (rows ! 0)))]
                  else [])
        in (map (\<lambda>(k, i, x). x) ranked, skip @ pref)))"

datatype excl = ExInt int | ExText string

definition excl_int :: "excl \<Rightarrow> int option" where
  "excl_int e = (case e of ExInt i \<Rightarrow> Some i | ExText t \<Rightarrow> int_of_text t)"

definition with_blocked :: "host_knobs \<Rightarrow> bool \<Rightarrow> real \<Rightarrow> host_store \<Rightarrow> excl list \<Rightarrow> excl list option" where
  "with_blocked kn enabled now st exclude =
     (let ints = set (List.map_filter excl_int exclude) \<union> blocked_machines kn enabled now st;
          out = map ExInt (sorted_list_of_set ints) @ filter (\<lambda>e. excl_int e = None) exclude
      in if out = [] then None else Some out)"

section \<open>Histories\<close>

datatype host_op =
    StrikeOp string string "string option" "string option" real bool
  | OkOp string "string option" real bool
  | HoldOp string real string real bool
  | ReleaseOp string bool
  | ForgetOp string bool
  | PruneOp real real bool
  | AcctErrorOp "string option" real
  | AcctClearOp

fun host_step :: "host_knobs \<Rightarrow> bool \<Rightarrow> acct_latch \<times> host_store \<Rightarrow> host_op \<Rightarrow> acct_latch \<times> host_store" where
  "host_step kn en (l, st) (StrikeOp m k i n t sv) = (l, snd (note_strike kn en l (Some m) k i n t sv st))"
| "host_step kn en (l, st) (OkOp m i t sv) = (l, snd (note_ok en (Some m) i t sv st))"
| "host_step kn en (l, st) (HoldOp m d r t sv) = (l, snd (hold (Some m) d r t sv st))"
| "host_step kn en (l, st) (ReleaseOp m sv) = (l, snd (release m sv st))"
| "host_step kn en (l, st) (ForgetOp m sv) = (l, snd (forget m sv st))"
| "host_step kn en (l, st) (PruneOp d t sv) = (l, snd (prune kn d t sv st))"
| "host_step kn en (l, st) (AcctErrorOp e t) = (snd (acct_note e t l), st)"
| "host_step kn en (l, st) AcctClearOp = (None, st)"

definition host_run :: "host_knobs \<Rightarrow> bool \<Rightarrow> host_op list \<Rightarrow> acct_latch \<times> host_store" where
  "host_run kn en ops = foldl (host_step kn en) (None, []) ops"

section \<open>Decay\<close>

definition strikes_past :: "real \<Rightarrow> host_rec \<Rightarrow> bool" where
  "strikes_past now r \<longleftrightarrow> list_all (\<lambda>s. sk_ts s \<le> now) (ho_strikes r)"

lemma half_life_pos: "0 < half_life_s kn"
  by (simp add: half_life_s_def DAY_S_def less_max_iff_disj)

lemma strike_value_later:
  assumes "sk_ts s \<le> now" "0 \<le> d"
  shows "strike_value kn ok (now + d) s = strike_value kn ok now s * 2 powr (- d / half_life_s kn)"
proof -
  have "- strike_age (now + d) s / half_life_s kn = - strike_age now s / half_life_s kn + - d / half_life_s kn"
    using assms by (simp add: strike_age_def diff_divide_distrib [symmetric] add_divide_distrib [symmetric])
  then have "2 powr (- strike_age (now + d) s / half_life_s kn) = 2 powr (- strike_age now s / half_life_s kn) * 2 powr (- d / half_life_s kn)"
    by (simp only: powr_add)
  then show ?thesis by (simp only: strike_value_def ac_simps)
qed

lemma strike_day_later:
  assumes "sk_ts s \<le> now"
  shows "strike_day (now + real n * DAY_S) s = strike_day now s + int n"
proof -
  have "strike_age (now + real n * DAY_S) s / DAY_S = strike_age now s / DAY_S + of_int (int n)"
    using assms by (simp add: strike_age_def DAY_S_def add_divide_distrib field_simps)
  then show ?thesis by (simp add: strike_day_def)
qed

lemma host_score_later:
  assumes "strikes_past now r"
  shows "host_score kn (now + real n * DAY_S) r = host_score kn now r * 2 powr (- (real n * DAY_S) / half_life_s kn)"
proof -
  let ?q = "2 powr (- (real n * DAY_S) / half_life_s kn)" let ?t = "now + real n * DAY_S"
  have p: "sk_ts s \<le> now" if "s \<in> set (ho_strikes r)" for s
    using assms that by (simp add: strikes_past_def list_all_iff)
  have "0 \<le> real n * DAY_S" by (simp add: DAY_S_def)
  then have "map (strike_value kn (ho_last_ok r) ?t) (ho_strikes r) = map (\<lambda>s. strike_value kn (ho_last_ok r) now s * ?q) (ho_strikes r)"
    using p strike_value_later by (intro map_cong) auto
  then have base: "sum_list (map (strike_value kn (ho_last_ok r) ?t) (ho_strikes r))
      = sum_list (map (strike_value kn (ho_last_ok r) now) (ho_strikes r)) * ?q"
    by (simp only: sum_list_mult_const)
  have "strike_day ?t ` set (ho_strikes r) = (\<lambda>z. z + int n) ` (strike_day now ` set (ho_strikes r))"
    using p strike_day_later by (simp add: image_image)
  then have days: "card (strike_day ?t ` set (ho_strikes r)) = card (strike_day now ` set (ho_strikes r))"
    by (simp add: card_image)
  have "0 < ?q" by simp
  then show ?thesis unfolding host_score_def Let_def set_map base days
    by (simp add: mult_le_0_iff)
qed

text \<open>With the knobs as shipped, and no new strike or good boot, the score of a host is halved after
  exactly fourteen days, the recurrence term included.\<close>

lemma score_halves_in_a_fortnight:
  assumes "strikes_past now r"
  shows "host_score HOSTREP_DEFAULTS (now + 14 * DAY_S) r = host_score HOSTREP_DEFAULTS now r / 2"
proof -
  have "- (real 14 * DAY_S) / half_life_s HOSTREP_DEFAULTS = - 1"
    by (simp add: half_life_s_def HOSTREP_DEFAULTS_def DAY_S_def)
  then show ?thesis using host_score_later [OF assms, of HOSTREP_DEFAULTS 14]
    by (simp add: powr_minus)
qed

lemma powr_half_lower: "0 \<le> x \<Longrightarrow> 1 - x \<le> (2::real) powr (- x)"
proof -
  assume x: "0 \<le> x"
  have "ln 2 \<le> (1::real)" using ln_le_minus_one [of 2] by simp
  then have "1 - x \<le> 1 + (- x) * ln 2" using x mult_left_mono [of "ln 2" 1 x] by simp
  also have "\<dots> \<le> exp (- x * ln 2)" by (rule exp_ge_add_one_self)
  finally show ?thesis by (simp add: powr_def)
qed

text \<open>Between whole days the score of an untouched history can go up: two strikes that counted as one day
  are two as soon as the older one is a day old and the younger is not.\<close>

lemma score_can_rise:
  fixes a b :: strike and r :: host_rec
  defines "a \<equiv> \<lparr>sk_ts = 0, sk_kind = ''pull_slow'', sk_iid = None, sk_note = None\<rparr>"
    and "b \<equiv> \<lparr>sk_ts = 3600, sk_kind = ''pull_slow'', sk_iid = None, sk_note = None\<rparr>"
    and "r \<equiv> new_host\<lparr>ho_strikes := [b, a]\<rparr>"
  shows "host_score HOSTREP_DEFAULTS 82800 r < host_score HOSTREP_DEFAULTS 86400 r"
proof -
  let ?v = "\<lambda>now. sum_list (map (strike_value HOSTREP_DEFAULTS 0 now) [b, a])"
  let ?q = "2 powr (- 3600 / half_life_s HOSTREP_DEFAULTS)"
  have w: "strike_weight ''pull_slow'' = 1" by (simp add: strike_weight_def STRIKE_WEIGHTS_def)
  have pos: "0 < ?v now" for now by (simp add: a_def b_def strike_value_def w add_pos_pos)
  have later: "strike_value HOSTREP_DEFAULTS 0 86400 s = strike_value HOSTREP_DEFAULTS 0 82800 s * ?q" if "s = a \<or> s = b" for s
    using strike_value_later [of s 82800 3600 HOSTREP_DEFAULTS 0] that by (auto simp: a_def b_def)
  have "1 - 3600 / half_life_s HOSTREP_DEFAULTS \<le> ?q"
    using powr_half_lower [of "3600 / half_life_s HOSTREP_DEFAULTS"] half_life_pos [of HOSTREP_DEFAULTS] by simp
  then have q: "9 / 10 \<le> ?q" by (simp add: half_life_s_def HOSTREP_DEFAULTS_def DAY_S_def)
  have "?v 86400 = ?v 82800 * ?q" using later by (simp add: distrib_right)
  then have v: "?v 82800 * (9 / 10) \<le> ?v 86400" using mult_left_mono [OF q, of "?v 82800"] pos [of 82800] by simp
  have f: "\<lfloor>(23::real) / 24\<rfloor> = 0" "\<lfloor>(11::real) / 12\<rfloor> = 0" by (simp_all add: floor_eq_iff)
  then have d: "set (map (strike_day 82800) [b, a]) = {0}" "set (map (strike_day 86400) [b, a]) = {0, 1}"
    by (auto simp: a_def b_def strike_day_def strike_age_def DAY_S_def)
  have "ho_last_ok r = 0" "ho_strikes r = [b, a]" by (simp_all add: r_def new_host_def)
  then have "host_score HOSTREP_DEFAULTS 82800 r = ?v 82800" "host_score HOSTREP_DEFAULTS 86400 r = ?v 86400 * (7 / 4)"
    using pos [of 82800] pos [of 86400] unfolding host_score_def Let_def by (simp_all only: d) (simp_all add: HOSTREP_DEFAULTS_def)
  then show ?thesis using v pos [of 82800] by simp
qed

section \<open>Ranking\<close>

lemma insort_key_cong:
  "(\<And>y. y \<in> set ys \<Longrightarrow> f x \<le> f y \<longleftrightarrow> g x \<le> g y) \<Longrightarrow> insort_key f x ys = insort_key g x ys"
  by (induction ys) auto

lemma sort_by_index:
  fixes key :: "'b \<Rightarrow> 'k::linorder"
  assumes "sorted_wrt (\<lambda>x y. fst x < fst y) ts"
  shows "sort_key (\<lambda>(i, x). (key x, i :: nat)) ts = sort_key (\<lambda>(i, x). key x) ts"
  using assms
proof (induction ts)
  case (Cons t ts)
  have "insort_key (\<lambda>(i, x). (key x, i)) t ys = insort_key (\<lambda>(i, x). key x) t ys" if "set ys = set ts" for ys
    using Cons.prems that by (intro insort_key_cong) (auto simp: less_eq_prod_def split: prod.splits)
  then show ?case using Cons by simp
qed simp

lemma map_insort_key: "map h (insort_key (\<lambda>x. key (h x)) x xs) = insort_key key (h x) (map h xs)"
  by (induction xs) auto

lemma map_sort_key: "map h (sort_key (\<lambda>x. key (h x)) xs) = sort_key key (map h xs)"
  by (induction xs) (simp_all add: map_insort_key)

lemma filter_enumerate: "map snd (filter (\<lambda>(i, x). P x) (enumerate n xs)) = filter P xs"
  by (induction xs arbitrary: n) auto

lemma enumerate_increasing: "sorted_wrt (\<lambda>x y. fst x < fst y) (filter P (enumerate n xs))"
  by (induction xs arbitrary: n) (auto simp: in_set_enumerate_eq sorted_wrt_append)

text \<open>What a ranked list is, as one stable sort.\<close>

definition ranked :: "verdict_table \<Rightarrow> 'a offer_row_scheme list \<Rightarrow> 'a offer_row_scheme list" where
  "ranked vd rows = sort_key (rank_price vd) (filter (\<lambda>x. offer_block vd x = None) rows)"

lemma rank_offers_ranked:
  assumes "enabled" "vd \<noteq> []"
  shows "fst (rank_offers enabled vd rows) = ranked vd rows"
proof (cases "rows = []")
  case True
  then show ?thesis by (simp add: rank_offers_def ranked_def)
next
  case False
  let ?es = "filter (\<lambda>(i, x). offer_block vd x = None) (enumerate 0 rows)"
  let ?kept = "map (\<lambda>(i, x). (rank_price vd x, i, x)) ?es"
  have "fst (rank_offers enabled vd rows) = map (\<lambda>(k, i, x). x) (sort_key (\<lambda>(k, i, x). (k, i)) ?kept)"
    using assms False by (simp add: rank_offers_def Let_def)
  also have "\<dots> = map (\<lambda>(k, i, x). x) (map (\<lambda>(i, x). (rank_price vd x, i, x)) (sort_key (\<lambda>(i, x). (rank_price vd x, i)) ?es))"
    using map_sort_key [of "\<lambda>(i, x). (rank_price vd x, i, x)" "\<lambda>(k, i, x). (k, i)" ?es] by (simp add: case_prod_unfold)
  also have "\<dots> = map snd (sort_key (\<lambda>(i, x). rank_price vd x) ?es)"
    using sort_by_index [OF enumerate_increasing, of "rank_price vd" "\<lambda>(i, x). offer_block vd x = None" 0 rows]
    by (simp add: comp_def case_prod_unfold)
  also have "\<dots> = ranked vd rows"
    using map_sort_key [of snd "rank_price vd" ?es] filter_enumerate [of "\<lambda>x. offer_block vd x = None" 0 rows]
    by (simp add: ranked_def case_prod_unfold)
  finally show ?thesis .
qed

text \<open>Two keys that order a list alike sort it alike.\<close>

lemma insort_key_alike: "\<forall>y\<in>set ys. (f x \<le> f y) = (g x \<le> g y) \<Longrightarrow> insort_key f x ys = insort_key g x ys"
  by (induction ys) auto

lemma sort_key_alike: "\<forall>x\<in>set xs. \<forall>y\<in>set xs. (f x \<le> f y) = (g x \<le> g y) \<Longrightarrow> sort_key f xs = sort_key g xs"
  by (induction xs) (simp_all add: insort_key_alike)

definition adjusted_price :: "verdict_table \<Rightarrow> 'a offer_row_scheme \<Rightarrow> real" where
  "adjusted_price vd x = the (ow_price x) * penalty vd (ow_machine x)"

lemma rank_price_adjusted: "ow_price x \<noteq> None \<Longrightarrow> rank_price vd x = (False, adjusted_price vd x)"
  by (cases "ow_machine x") (auto simp: rank_price_def adjusted_price_def penalty_def offer_verdict_def vd_multiplier_def)

lemma ranked_adjusted:
  assumes "list_all (\<lambda>x. ow_price x \<noteq> None) rows"
  shows "ranked vd rows = sort_key (adjusted_price vd) (filter (\<lambda>x. offer_block vd x = None) rows)"
  unfolding ranked_def using assms
  by (intro sort_key_alike) (simp add: list_all_iff rank_price_adjusted less_eq_prod_def)

text \<open>C32. Where the reputation layer is enabled, holds some verdict and every offer's price parses, ranking is one
  stable sort by the price times the penalty of the machine, of the offers whose machine is not blocked: nothing
  else is dropped, nothing is added, and offers of one adjusted price keep the order the market gave them.\<close>

theorem rank_offers_stable_sort:
  assumes "enabled" "vd \<noteq> []" "list_all (\<lambda>x. ow_price x \<noteq> None) rows"
  shows "fst (rank_offers enabled vd rows) = sort_key (adjusted_price vd) (filter (\<lambda>x. offer_block vd x = None) rows)
    \<and> mset (fst (rank_offers enabled vd rows)) = filter_mset (\<lambda>x. offer_block vd x = None) (mset rows)
    \<and> sorted (map (adjusted_price vd) (fst (rank_offers enabled vd rows)))"
  using rank_offers_ranked [OF assms(1,2), of rows] ranked_adjusted [OF assms(3), of vd] by simp

text \<open>Offers that no machine has a verdict on, and that come cheapest first, are left exactly as they are,
  whatever is known about other machines.\<close>

theorem rank_offers_without_evidence:
  assumes "list_all (\<lambda>x. offer_verdict vd x = None \<and> ow_price x \<noteq> None) rows" "sorted (map (\<lambda>x. the (ow_price x)) rows)"
  shows "rank_offers enabled vd rows = (rows, [])"
proof (cases "rows = [] \<or> \<not> enabled \<or> vd = []")
  case True
  then show ?thesis by (auto simp: rank_offers_def)
next
  case False
  have o: "offer_verdict vd x = None" "ow_price x \<noteq> None" if "x \<in> set rows" for x
    using assms(1) that by (simp_all add: list_all_iff)
  have b: "offer_block vd x = None" if "x \<in> set rows" for x
    using o(1) [OF that] by (auto simp: offer_block_def offer_verdict_def split: option.splits)
  have k: "rank_price vd x = (False, the (ow_price x))" if "x \<in> set rows" for x
    using o [OF that] by (auto simp: rank_price_def vd_multiplier_def)
  have "filter (\<lambda>x. offer_block vd x = None) rows = rows" using b by (simp add: filter_id_conv)
  moreover have "map (rank_price vd) rows = map (Pair False) (map (\<lambda>x. the (ow_price x)) rows)"
    using k by simp
  then have "sorted (map (rank_price vd) rows)"
    using assms(2) by (simp only: sorted_wrt_map less_eq_prod_def) (simp add: sorted_wrt_map)
  ultimately have f: "fst (rank_offers enabled vd rows) = rows"
    using False by (simp add: rank_offers_ranked ranked_def sort_key_id_if_sorted)
  have d: "List.map_filter (offer_block vd) rows = []" using b by (simp add: map_filter_def)
  have m: "\<not> outscored vd x" if "x \<in> set rows" for x
    using o(1) [OF that] by (simp add: outscored_def vd_multiplier_def)
  have "snd (rank_offers enabled vd rows) = []"
    using False by (auto simp: rank_offers_def Let_def d m filter_empty_conv split: list.split)
  then show ?thesis using f by (metis prod.collapse)
qed

lemma rank_offers_without_evidence_witness:
  "rank_offers True [(''3'', \<lparr>vd_score = 1, vd_penalty = 2, vd_blocked = None\<rparr>)]
      [\<lparr>ow_machine = Some ''1'', ow_price = Some 1\<rparr>, \<lparr>ow_machine = None, ow_price = Some 2\<rparr>]
    = ([\<lparr>ow_machine = Some ''1'', ow_price = Some 1\<rparr>, \<lparr>ow_machine = None, ow_price = Some 2\<rparr>], [])"
  by (rule rank_offers_without_evidence) (simp_all add: offer_verdict_def)

lemma rank_offers_stable_sort_witness:
  "mset (fst (rank_offers True [(''3'', \<lparr>vd_score = 1, vd_penalty = 2, vd_blocked = None\<rparr>)]
      [\<lparr>ow_machine = Some ''3'', ow_price = Some 1\<rparr>, \<lparr>ow_machine = None, ow_price = Some (3/2)\<rparr>]))
    = filter_mset (\<lambda>x. offer_block [(''3'', \<lparr>vd_score = 1, vd_penalty = 2, vd_blocked = None\<rparr>)] x = None)
       (mset [\<lparr>ow_machine = Some ''3'', ow_price = Some 1\<rparr>, \<lparr>ow_machine = None, ow_price = Some (3/2)\<rparr>])"
  by (rule rank_offers_stable_sort [THEN conjunct2, THEN conjunct1]) (simp_all del: not_None_eq)

text \<open>An offer whose price does not parse goes behind every offer whose price does.\<close>

lemma unpriced_goes_last:
  "fst (rank_offers True [(''3'', \<lparr>vd_score = 1, vd_penalty = 2, vd_blocked = None\<rparr>)]
      [\<lparr>ow_machine = Some ''1'', ow_price = None\<rparr>, \<lparr>ow_machine = Some ''2'', ow_price = Some 9\<rparr>])
    = [\<lparr>ow_machine = Some ''2'', ow_price = Some 9\<rparr>, \<lparr>ow_machine = Some ''1'', ow_price = None\<rparr>]"
  by (simp add: rank_offers_ranked ranked_def offer_block_def rank_price_def less_eq_prod_def)

section \<open>What the strikes of a host look like\<close>

text \<open>Newest first, and no more than the knob keeps.\<close>

definition strikes_ok :: "host_knobs \<Rightarrow> host_rec \<Rightarrow> bool" where
  "strikes_ok kn r \<longleftrightarrow> sorted (map (\<lambda>s. - sk_ts s) (ho_strikes r)) \<and> length (ho_strikes r) \<le> nat (max 1 (kn_keep kn))"

lemma pruned_keys: "fst ` set (List.map_filter (\<lambda>(m, h). map_option (Pair m) (f h)) st) \<subseteq> fst ` set st"
proof (induction st)
  case (Cons x st)
  then show ?case by (cases x; cases "f (snd x)") (auto simp: map_filter_simps)
qed (simp add: map_filter_simps)

lemma pruned_distinct:
  "distinct (map fst st) \<Longrightarrow> distinct (map fst (List.map_filter (\<lambda>(m, h). map_option (Pair m) (f h)) st))"
proof (induction st)
  case (Cons x st)
  then show ?case using pruned_keys [of f st] by (cases x; cases "f (snd x)") (auto simp: map_filter_simps)
qed (simp add: map_filter_simps)

lemma prune_at:
  "distinct (map fst st) \<Longrightarrow> map_of (List.map_filter (\<lambda>(m, h). map_option (Pair m) (f h)) st) m = Option.bind (map_of st m) f"
proof (induction st)
  case (Cons x st)
  obtain k h where x: "x = (k, h)" by (cases x)
  have "map_of st k = None" using Cons.prems x by (simp add: map_of_eq_None_iff)
  then show ?case using Cons x by (cases "f h"; cases "m = k") (auto simp: map_filter_simps)
qed (simp add: map_filter_simps)

lemma keys_distinct_step: "distinct (map fst (snd s)) \<Longrightarrow> distinct (map fst (snd (host_step kn en s op)))"
  by (cases "(kn, en, s, op)" rule: host_step.cases)
     (auto simp: note_strike_def note_ok_def hold_def release_def forget_def prune_def commit_def on_host_def Let_def
        distinct_update distinct_delete pruned_distinct split: option.split host_obj.split)


text \<open>What one step can do to one host.\<close>

fun lifts :: "string \<Rightarrow> host_op \<Rightarrow> bool" where
  "lifts m (ReleaseOp m' saved) = (m = m' \<and> saved)"
| "lifts m (ForgetOp m' saved) = (m = m' \<and> saved)"
| "lifts m op = False"

lemma host_of_update: "host_of (AList.update k (Host r) st) m = (if m = k then r else host_of st m)"
  by (simp add: host_of_def update_conv')

lemma host_of_on_host:
  "on_host f k st = Some st' \<Longrightarrow> host_of st' m = (if m = k then f (host_of st k) else host_of st m)"
  by (auto simp: on_host_def host_of_update split: option.splits host_obj.splits) (simp_all add: host_of_def)

lemma commit_on_host:
  "host_of (snd (commit sv st (on_host f k st))) m = host_of st m
     \<or> m = k \<and> sv \<and> host_of (snd (commit sv st (on_host f k st))) m = f (host_of st m)"
  by (auto simp: commit_def host_of_on_host split: option.split)

lemma host_change:
  assumes "distinct (map fst (snd s))" "s' = host_step kn en s op"
  obtains (same) "host_of (snd s') m = host_of (snd s) m" "\<not> lifts m op"
    | (fresh) "host_of (snd s') m = new_host"
    | (strike) k i n t where "op = StrikeOp m k i n t True" "en" "acct_recent t (fst s) = None"
        "host_of (snd s') m = add_strike kn \<lparr>sk_ts = t, sk_kind = k, sk_iid = i, sk_note = n\<rparr> (host_of (snd s) m)"
    | (ok) i t where "op = OkOp m i t True" "host_of (snd s') m = mark_ok i t (host_of (snd s) m)"
    | (held) d x t where "op = HoldOp m d x t True" "host_of (snd s') m = set_hold d x t (host_of (snd s) m)"
    | (lifted) "host_of (snd s') m = lift_block (host_of (snd s) m)"
    | (pruned) c where "\<not> lifts m op"
        "host_of (snd s') m = (host_of (snd s) m)\<lparr>ho_strikes := filter (\<lambda>x. c \<le> sk_ts x) (ho_strikes (host_of (snd s) m))\<rparr>"
proof (cases "(kn, en, s, op)" rule: host_step.cases)
  case (1 kn' en' l st m' k i n t sv)
  let ?f = "add_strike kn \<lparr>sk_ts = t, sk_kind = k, sk_iid = i, sk_note = n\<rparr>"
  have "host_of (snd s') m = host_of (snd s) m
      \<or> m = m' \<and> sv \<and> en \<and> acct_recent t (fst s) = None \<and> host_of (snd s') m = ?f (host_of (snd s) m)"
    using 1 assms(2) commit_on_host [of sv st ?f m' m]
    by (cases "acct_recent t l") (auto simp: note_strike_def Let_def case_prod_beta)
  then show thesis using 1 strike same by auto
next
  case (2 kn' en' l st m' i t sv)
  have "host_of (snd s') m = host_of (snd s) m \<or> m = m' \<and> sv \<and> host_of (snd s') m = mark_ok i t (host_of (snd s) m)"
    using 2 assms(2) commit_on_host [of sv st "mark_ok i t" m' m] by (auto simp: note_ok_def)
  then show thesis using 2 ok same by auto
next
  case (3 kn' en' l st m' d x t sv)
  have "host_of (snd s') m = host_of (snd s) m \<or> m = m' \<and> sv \<and> host_of (snd s') m = set_hold d x t (host_of (snd s) m)"
    using 3 assms(2) commit_on_host [of sv st "set_hold d x t" m' m] by (auto simp: hold_def)
  then show thesis using 3 held same by auto
next
  case (4 kn' en' l st m' sv)
  have "host_of (snd s') m = host_of (snd s) m \<and> \<not> lifts m op \<or> host_of (snd s') m = new_host
      \<or> host_of (snd s') m = lift_block (host_of (snd s) m)"
    using 4 assms(2) by (auto simp: release_def commit_def host_of_update split: option.splits host_obj.splits) (auto simp: host_of_def)
  then show thesis using same fresh lifted by blast
next
  case (5 kn' en' l st m' sv)
  have "host_of (snd s') m = host_of (snd s) m \<and> \<not> lifts m op \<or> host_of (snd s') m = new_host"
    using 5 assms(2) by (auto simp: forget_def commit_def host_of_def delete_conv')
  then show thesis using fresh same by blast
next
  case (6 kn' en' l st d t sv)
  let ?c = "t - d * DAY_S" let ?P = "\<lambda>r. r\<lparr>ho_strikes := filter (\<lambda>x. ?c \<le> sk_ts x) (ho_strikes r)\<rparr>"
  let ?st' = "List.map_filter (\<lambda>(m, h). map_option (Pair m) (prune_host kn ?c t h)) st"
  have "host_of ?st' m = new_host \<or> host_of ?st' m = ?P (host_of st m)"
    using 6 assms(1) by (auto simp: host_of_def prune_at prune_host_def Let_def split: option.split host_obj.split)
  then have "host_of (snd s') m = host_of (snd s) m \<or> host_of (snd s') m = new_host \<or> host_of (snd s') m = ?P (host_of (snd s) m)"
    using 6 assms(2) by (auto simp: prune_def Let_def commit_def)
  then show thesis using 6 fresh same pruned [of ?c] by auto
next
  case 7
  then show thesis using assms(2) same by auto
next
  case 8
  then show thesis using assms(2) same by auto
qed

definition host_wf :: "host_knobs \<Rightarrow> host_rec \<Rightarrow> bool" where
  "host_wf kn r \<longleftrightarrow> strikes_ok kn r \<and> 0 \<le> ho_last_ok r
     \<and> (case ho_hold r of Some h \<Rightarrow> hd_reason h \<noteq> [] | None \<Rightarrow> True)
     \<and> (case ho_blocked_at r of Some b \<Rightarrow> 0 \<le> b | None \<Rightarrow> True)"

definition store_wf :: "host_knobs \<Rightarrow> host_store \<Rightarrow> bool" where
  "store_wf kn st \<longleftrightarrow> distinct (map fst st) \<and> list_all (\<lambda>(m, h). case h of Host r \<Rightarrow> host_wf kn r | Junk \<Rightarrow> False) st"

lemma host_run_distinct: "distinct (map fst (snd (host_run kn en ops)))"
  by (induction ops rule: rev_induct) (simp_all add: host_run_def keys_distinct_step)

lemma sorted_map_take: "sorted (map f xs) \<Longrightarrow> sorted (map f (take n xs))"
  by (simp add: take_map [symmetric] sorted_wrt_take)

lemma add_strike_ok: "strikes_ok kn (add_strike kn s r)"
  by (simp add: strikes_ok_def add_strike_def Let_def sorted_map_take)

lemma host_score_block [simp]: "host_score kn now (r\<lparr>ho_blocked_at := x\<rparr>) = host_score kn now r"
  by (simp add: host_score_def)

lemma add_strike_fields:
  "ho_blocked_until (add_strike kn s r) = ho_blocked_until r" "ho_hold (add_strike kn s r) = ho_hold r"
  "ho_blocked_at (add_strike kn s r) =
     (if kn_block_score kn \<le> host_score kn (sk_ts s) (add_strike kn s r) then Some (max (dflt 0 (ho_blocked_at r)) (sk_ts s)) else ho_blocked_at r)"
  by (simp_all add: add_strike_def Let_def)

lemma add_strike_last_ok: "ho_last_ok (add_strike kn s r) = ho_last_ok r"
  by (simp add: add_strike_def Let_def)

lemma host_wf_run: "host_wf kn (host_of (snd (host_run kn en ops)) m)"
proof (induction ops rule: rev_induct)
  case Nil
  show ?case by (simp add: host_run_def host_of_def host_wf_def strikes_ok_def new_host_def)
next
  case (snoc op ops)
  have s: "host_run kn en (ops @ [op]) = host_step kn en (host_run kn en ops) op" by (simp add: host_run_def)
  have f: "strikes_ok kn (r\<lparr>ho_strikes := filter P (ho_strikes r)\<rparr>)" if "strikes_ok kn r" for r P
    using that by (auto simp: strikes_ok_def sorted_filter intro: order_trans [OF length_filter_le])
  show ?case
  proof (rule host_change [OF host_run_distinct s, of m])
    fix k i n t
    assume "host_of (snd (host_run kn en (ops @ [op]))) m = add_strike kn \<lparr>sk_ts = t, sk_kind = k, sk_iid = i, sk_note = n\<rparr> (host_of (snd (host_run kn en ops)) m)"
    then show ?thesis using snoc add_strike_fields
      by (auto simp: host_wf_def add_strike_ok add_strike_last_ok split: option.splits)
  qed (use snoc f in \<open>auto simp: host_wf_def strikes_ok_def new_host_def mark_ok_def set_hold_def lift_block_def split: option.splits\<close>)
qed

lemma no_junk_run: "map_of (snd (host_run kn en ops)) m \<noteq> Some Junk"
proof (induction ops rule: rev_induct)
  case (snoc op ops)
  have "map_of (snd (host_step kn en s op)) m \<noteq> Some Junk" if "map_of (snd s) m \<noteq> Some Junk" "distinct (map fst (snd s))" for s
    using that by (cases "(kn, en, s, op)" rule: host_step.cases)
     (auto simp: note_strike_def note_ok_def hold_def release_def forget_def prune_def prune_host_def commit_def on_host_def Let_def
        update_conv' delete_conv' prune_at bind_eq_Some_conv split: option.splits host_obj.splits if_splits)
  then show ?case using snoc host_run_distinct by (simp add: host_run_def)
qed (simp add: host_run_def)

text \<open>C31. The store stays well formed over any history: one record per machine, every record's strikes newest
  first and no more than the knob keeps, no negative time of a good boot or a block, and every hold with a
  reason to show.\<close>

theorem host_store_well_formed: "store_wf kn (snd (host_run kn en ops))"
proof -
  have "case h of Host r \<Rightarrow> host_wf kn r | Junk \<Rightarrow> False" if "(m, h) \<in> set (snd (host_run kn en ops))" for m h
  proof -
    have at: "map_of (snd (host_run kn en ops)) m = Some h" using that host_run_distinct by (simp add: map_of_is_SomeI)
    then show ?thesis using no_junk_run [of kn en ops m] host_wf_run [of kn en ops m]
      by (cases h) (simp_all add: host_of_def)
  qed
  then show ?thesis using host_run_distinct by (auto simp: store_wf_def list_all_iff)
qed

section \<open>The cause of a block\<close>

definition crossing :: "host_knobs \<Rightarrow> bool \<Rightarrow> host_op list \<Rightarrow> string \<Rightarrow> strike \<Rightarrow> bool" where
  "crossing kn en pre m s \<longleftrightarrow> acct_recent (sk_ts s) (fst (host_run kn en pre)) = None
     \<and> kn_block_score kn \<le> host_score kn (sk_ts s) (add_strike kn s (host_of (snd (host_run kn en pre)) m))"

definition struck_out :: "host_knobs \<Rightarrow> bool \<Rightarrow> host_op list \<Rightarrow> string \<Rightarrow> real \<Rightarrow> bool" where
  "struck_out kn en ops m b \<longleftrightarrow>
     (\<exists>pre k i n t post. ops = pre @ StrikeOp m k i n t True # post \<and> list_all (\<lambda>x. \<not> lifts m x) post
        \<and> crossing kn en pre m \<lparr>sk_ts = t, sk_kind = k, sk_iid = i, sk_note = n\<rparr> \<and> b = max 0 t)"

definition held_out :: "host_op list \<Rightarrow> string \<Rightarrow> real \<Rightarrow> bool" where
  "held_out ops m u \<longleftrightarrow>
     (\<exists>pre d x t post. ops = pre @ HoldOp m d x t True # post \<and> list_all (\<lambda>x. \<not> lifts m x) post \<and> u = t + d * DAY_S)"

lemma struck_out_snoc:
  assumes "struck_out kn en ops m b" "\<not> lifts m op"
  shows "struck_out kn en (ops @ [op]) m b"
proof -
  obtain pre k i n t post where p: "ops = pre @ StrikeOp m k i n t True # post" "list_all (\<lambda>x. \<not> lifts m x) post"
    "crossing kn en pre m \<lparr>sk_ts = t, sk_kind = k, sk_iid = i, sk_note = n\<rparr>" "b = max 0 t"
    using assms(1) unfolding struck_out_def by blast
  then have "ops @ [op] = pre @ StrikeOp m k i n t True # (post @ [op])" "list_all (\<lambda>x. \<not> lifts m x) (post @ [op])"
    using assms(2) by simp_all
  then show ?thesis unfolding struck_out_def using p(3,4) by blast
qed

lemma held_out_snoc:
  assumes "held_out ops m u" "\<not> lifts m op"
  shows "held_out (ops @ [op]) m u"
proof -
  obtain pre d x t post where p: "ops = pre @ HoldOp m d x t True # post" "list_all (\<lambda>x. \<not> lifts m x) post" "u = t + d * DAY_S"
    using assms(1) unfolding held_out_def by blast
  then have "ops @ [op] = pre @ HoldOp m d x t True # (post @ [op])" "list_all (\<lambda>x. \<not> lifts m x) (post @ [op])"
    using assms(2) by simp_all
  then show ?thesis unfolding held_out_def using p(3) by blast
qed

definition block_caused :: "host_knobs \<Rightarrow> bool \<Rightarrow> host_op list \<Rightarrow> string \<Rightarrow> host_rec \<Rightarrow> bool" where
  "block_caused kn en ops m r \<longleftrightarrow> ho_blocked_until r = 0
     \<and> (\<forall>b. ho_blocked_at r = Some b \<longrightarrow> struck_out kn en ops m b)
     \<and> (\<forall>h. ho_hold r = Some h \<longrightarrow> held_out ops m (hd_until h))"

lemma block_caused_snoc:
  "block_caused kn en ops m r \<Longrightarrow> \<not> lifts m op \<Longrightarrow> ho_blocked_until r' = ho_blocked_until r \<Longrightarrow>
     ho_blocked_at r' = ho_blocked_at r \<Longrightarrow> ho_hold r' = ho_hold r \<Longrightarrow> block_caused kn en (ops @ [op]) m r'"
  by (simp add: block_caused_def struck_out_snoc held_out_snoc)

lemma block_caused_strike:
  assumes "block_caused kn en ops m r" "r = host_of (snd (host_run kn en ops)) m" "acct_recent t (fst (host_run kn en ops)) = None"
  shows "block_caused kn en (ops @ [StrikeOp m k i n t True]) m (add_strike kn \<lparr>sk_ts = t, sk_kind = k, sk_iid = i, sk_note = n\<rparr> r)"
proof -
  let ?s = "\<lparr>sk_ts = t, sk_kind = k, sk_iid = i, sk_note = n\<rparr>" let ?op = "StrikeOp m k i n t True"
  have old: "struck_out kn en (ops @ [?op]) m b" if "ho_blocked_at r = Some b" for b
    using assms(1) that by (simp add: block_caused_def struck_out_snoc)
  have new: "struck_out kn en (ops @ [?op]) m (max 0 t)" if "kn_block_score kn \<le> host_score kn t (add_strike kn ?s r)"
    unfolding struck_out_def
    by (intro exI [of _ ops] exI [of _ k] exI [of _ i] exI [of _ n] exI [of _ t] exI [of _ "[]"])
       (use that assms(2,3) in \<open>simp add: crossing_def\<close>)
  have "struck_out kn en (ops @ [?op]) m b" if "ho_blocked_at (add_strike kn ?s r) = Some b" for b
  proof (cases "kn_block_score kn \<le> host_score kn t (add_strike kn ?s r)")
    case True
    show ?thesis
    proof (cases "ho_blocked_at r")
      case None
      then show ?thesis using that True new by (simp add: add_strike_fields)
    next
      case (Some b0)
      then have "0 \<le> b0" using old by (auto simp: struck_out_def)
      then have "b = b0 \<or> b = max 0 t" using that True Some by (auto simp: add_strike_fields max_def)
      then show ?thesis using old [OF Some] new [OF True] by auto
    qed
  next
    case False
    then show ?thesis using that old by (simp add: add_strike_fields)
  qed
  then show ?thesis using assms(1) by (simp add: block_caused_def add_strike_fields held_out_snoc)
qed

lemma block_caused_hold:
  assumes "block_caused kn en ops m r"
  shows "block_caused kn en (ops @ [HoldOp m d x t True]) m (set_hold d x t r)"
proof -
  have "held_out (ops @ [HoldOp m d x t True]) m (t + d * DAY_S)"
    unfolding held_out_def by (intro exI [of _ ops] exI [of _ d] exI [of _ x] exI [of _ t] exI [of _ "[]"]) simp
  then show ?thesis using assms by (auto simp: block_caused_def set_hold_def struck_out_snoc)
qed

lemma block_caused_run: "block_caused kn en ops m (host_of (snd (host_run kn en ops)) m)"
proof (induction ops rule: rev_induct)
  case Nil
  show ?case by (simp add: host_run_def host_of_def block_caused_def new_host_def)
next
  case (snoc op ops)
  have s: "host_run kn en (ops @ [op]) = host_step kn en (host_run kn en ops) op" by (simp add: host_run_def)
  show ?case
  proof (rule host_change [OF host_run_distinct s, of m])
    fix k i n t
    assume "op = StrikeOp m k i n t True" "acct_recent t (fst (host_run kn en ops)) = None"
      "host_of (snd (host_run kn en (ops @ [op]))) m = add_strike kn \<lparr>sk_ts = t, sk_kind = k, sk_iid = i, sk_note = n\<rparr> (host_of (snd (host_run kn en ops)) m)"
    then show ?thesis using block_caused_strike [OF snoc refl] by simp
  next
    fix d x t
    assume "op = HoldOp m d x t True" "host_of (snd (host_run kn en (ops @ [op]))) m = set_hold d x t (host_of (snd (host_run kn en ops)) m)"
    then show ?thesis using block_caused_hold [OF snoc] by simp
  qed (use snoc in \<open>auto simp: mark_ok_def intro: block_caused_snoc\<close>, auto simp: block_caused_def new_host_def lift_block_def)
qed

text \<open>No host is excluded without a cause that is still fresh: over any history from an empty store, a host
  is blocked only if a recorded strike took its score over the threshold within the cooldown, at a moment
  the account itself was not at fault, or an operator's hold on it has not run out; and nobody released or
  forgot it since.\<close>

lemma blocks_have_a_fresh_cause:
  assumes "0 \<le> now" "map_of (snd (host_run kn en ops)) m = Some h" "blocked_rec kn now h \<noteq> None"
  shows "(\<exists>t. struck_out kn en ops m t \<and> now < t + kn_cooldown_d kn * DAY_S) \<or> (\<exists>u. held_out ops m u \<and> now < u)"
proof -
  obtain r where h: "h = Host r" using assms(3) by (cases h) (simp_all add: blocked_rec_def)
  then have "host_of (snd (host_run kn en ops)) m = r" using assms(2) by (simp add: host_of_def)
  then show ?thesis using block_caused_run [of kn en ops m] assms(1,3) h
    by (auto simp: block_caused_def blocked_rec_def block_until_def split: option.splits if_splits)
qed

section \<open>The weight of a stop\<close>

lemma note_strike_host:
  assumes "map_of st m \<noteq> Some Junk" "acct_recent t l = None"
  shows "map_of (snd (note_strike kn True l (Some m) k i n t True st)) m =
    Some (Host (add_strike kn \<lparr>sk_ts = t, sk_kind = k, sk_iid = i, sk_note = n\<rparr> (host_of st m)))"
  using assms by (auto simp: note_strike_def Let_def commit_def on_host_def host_of_def update_conv' split: option.split host_obj.split)

lemma stop_value: "strike_value HOSTREP_DEFAULTS 0 now \<lparr>sk_ts = t, sk_kind = ''host_stop'', sk_iid = i, sk_note = n\<rparr>
    = 16 / 10 * 2 powr (- max 0 (now - t) / (14 * DAY_S))"
  by (simp add: strike_value_def strike_age_def strike_weight_def STRIKE_WEIGHTS_def half_life_s_def HOSTREP_DEFAULTS_def)

lemma score_at_least_base:
  assumes "0 \<le> kn_bonus kn" "b \<le> sum_list (map (strike_value kn (ho_last_ok r) now) (ho_strikes r))" "0 < b"
  shows "b \<le> host_score kn now r"
proof -
  let ?s = "sum_list (map (strike_value kn (ho_last_ok r) now) (ho_strikes r))"
  have "?s * 1 \<le> ?s * (1 + kn_bonus kn * real (card (set (map (strike_day now) (ho_strikes r))) - 1))"
    using assms by (intro mult_left_mono) auto
  then have "b \<le> ?s * (1 + kn_bonus kn * real (card (set (map (strike_day now) (ho_strikes r))) - 1))" using assms(2) by linarith
  moreover have "\<not> ?s \<le> 0" using assms(2,3) by linarith
  ultimately show ?thesis by (simp only: host_score_def Let_def if_False)
qed

lemma two_stops_block:
  assumes "map_of st m = None" "0 \<le> t" "t \<le> t'" "t' \<le> t + DAY_S" "0 \<le> early" "t' \<le> now" "now < t' + 14 * DAY_S"
    "st1 = snd (note_strike HOSTREP_DEFAULTS True None (Some m) ''host_stop'' i n t True st)"
    "st2 = snd (note_strike HOSTREP_DEFAULTS True None (Some m) ''host_stop'' i' n' t' True st1)"
  shows "map_option (blocked_rec HOSTREP_DEFAULTS early) (map_of st1 m) = Some None
    \<and> map_of st2 m \<noteq> None \<and> map_option (blocked_rec HOSTREP_DEFAULTS now) (map_of st2 m) \<noteq> Some None"
proof -
  let ?k = HOSTREP_DEFAULTS
  let ?s = "\<lparr>sk_ts = t, sk_kind = ''host_stop'', sk_iid = i, sk_note = n\<rparr>"
  let ?s' = "\<lparr>sk_ts = t', sk_kind = ''host_stop'', sk_iid = i', sk_note = n'\<rparr>"
  have keep: "nat (max 1 (kn_keep ?k)) = 40" "kn_block_score ?k = 3" "kn_cooldown_d ?k = 14" "0 \<le> kn_bonus ?k"
    by (simp_all add: HOSTREP_DEFAULTS_def)
  have "host_score ?k t (new_host\<lparr>ho_strikes := [?s]\<rparr>) = 16 / 10"
    by (simp add: host_score_def new_host_def stop_value)
  then have one: "add_strike ?k ?s new_host = new_host\<lparr>ho_strikes := [?s]\<rparr>"
    by (simp add: add_strike_def keep new_host_def)
  have m1: "map_of st1 m = Some (Host (new_host\<lparr>ho_strikes := [?s]\<rparr>))"
    using note_strike_host [of st m t None ?k "''host_stop''" i n] assms(1,8) one by (simp add: acct_recent_def host_of_def)
  let ?r = "add_strike ?k ?s' (new_host\<lparr>ho_strikes := [?s]\<rparr>)"
  have m2: "map_of st2 m = Some (Host ?r)"
    using note_strike_host [of st1 m t' None ?k "''host_stop''" i' n'] assms(9) m1 by (simp add: acct_recent_def host_of_def)
  have "1 - 1 / 14 \<le> (2::real) powr (- 1 / 14)" using powr_half_lower [of "1 / 14"] by simp
  also have "\<dots> \<le> 2 powr (- max 0 (t' - t) / (14 * DAY_S))"
    using assms(3,4) by (intro powr_mono) (simp_all add: DAY_S_def field_simps)
  finally have "3 \<le> strike_value ?k 0 t' ?s' + strike_value ?k 0 t' ?s" by (simp add: stop_value)
  moreover have two: "ho_strikes ?r = (if t < t' then [?s', ?s] else [?s, ?s'])" "ho_last_ok ?r = 0"
    using assms(3) by (auto simp: add_strike_def Let_def keep new_host_def)
  ultimately have "3 \<le> host_score ?k t' ?r" using keep(4) by (intro score_at_least_base) (simp_all add: add.commute)
  then have "ho_blocked_at ?r = Some t'" "ho_hold ?r = None"
    using assms(2,3) keep(2) by (simp_all add: add_strike_fields new_host_def)
  then show ?thesis using assms m1 m2 keep(3)
    by (simp add: blocked_rec_def block_until_def new_host_def)
qed

text \<open>With the knobs as shipped, one stop of an unknown host blocks nothing, and a second stop within a
  day blocks it for the whole fourteen days after it.\<close>

theorem second_stop_blocks:
  assumes "map_of st m = None" "0 \<le> t" "t \<le> t'" "t' \<le> t + DAY_S" "0 \<le> early" "t' \<le> now" "now < t' + 14 * DAY_S"
    "st1 = snd (note_strike HOSTREP_DEFAULTS True None (Some m) ''host_stop'' i n t True st)"
    "st2 = snd (note_strike HOSTREP_DEFAULTS True None (Some m) ''host_stop'' i' n' t' True st1)"
  shows "map_option (blocked_rec HOSTREP_DEFAULTS early) (map_of st1 m) = Some None
    \<and> map_of st2 m \<noteq> None \<and> map_option (blocked_rec HOSTREP_DEFAULTS now) (map_of st2 m) \<noteq> Some None"
  using assms by (rule two_stops_block)

lemma second_stop_blocks_witness:
  "map_option (blocked_rec HOSTREP_DEFAULTS 100) (map_of (snd (note_strike HOSTREP_DEFAULTS True None (Some ''9'') ''host_stop'' None None 60 True
      (snd (note_strike HOSTREP_DEFAULTS True None (Some ''9'') ''host_stop'' None None 0 True [])))) ''9'') \<noteq> Some None"
  using second_stop_blocks [of "[]" "''9''" 0 60 0 100, OF _ _ _ _ _ _ _ refl refl] by (simp add: DAY_S_def)

section \<open>Account faults\<close>

text \<open>Within a quarter of an hour of a refusal that was the account's own fault, no strike is recorded
  against anyone.\<close>

lemma account_fault_charges_nobody:
  assumes "fst (acct_note err t0 l) = Some c" "t0 \<le> now" "now \<le> t0 + 900"
  shows "note_strike kn en (snd (acct_note err t0 l)) (Some m) k i n now saved st = (None, st)"
  using assms by (auto simp: acct_note_def note_strike_def acct_recent_def ACCT_WINDOW_S_def split: option.splits)

end
