(* ===== verification/Offers.thy ===== *)
theory Offers
  imports Replacement HostRep Credentials
begin

text \<open>
  The offer search of the automatic lanes (\<open>market/offers.py\<close>, \<open>pick_offers\<close>) and the candidate search of the
  replacement rung over it (\<open>supervise/replacement.py\<close>, \<open>_job_replacement_offers\<close>).

  A search is a list of queries, tried in order; each answer is narrowed here, and the first that leaves
  anything is ordered by host reputation. What vast answers to a query is a parameter, as are the measured
  rates of processors. The notes that are printed are left out.

  Lemma groups: every query carries the exclusions; what an offer that comes back has passed; which query wins.
\<close>

section \<open>Offers and queries\<close>

record gpu_offer =
  go_id :: int
  go_machine :: "int option"
  go_gpus :: "nat option"
  go_min_bid :: "price option"
  go_dph_total :: "price option"
  go_gpu :: "string option"
  go_compute_cap :: "rat option"
  go_cpu_ram :: "rat option"
  go_gpu_frac :: "rat option"

text \<open>A query of the bundles endpoint; a filter that is not set is \<open>None\<close>.\<close>

record market_query =
  mq_limit :: int
  mq_kind :: rental
  mq_gpus :: nat
  mq_verified :: bool
  mq_names :: "string list option"
  mq_gpu_ram :: "int option"
  mq_disk :: "rat option"
  mq_cpu_ram :: "int option"
  mq_price :: "price option"
  mq_inet :: "rat option"
  mq_notin :: "excl list option"
  mq_cuda :: "rat option"
  mq_geo :: "string list option"

record pick_args =
  pk_gpu :: "string list"
  pk_gpus :: nat
  pk_gpu_ram :: "rat option"
  pk_disk :: "rat option"
  pk_host_ram :: "rat option"
  pk_max_dph :: "price option"
  pk_rental :: rental
  pk_verified :: bool
  pk_inet :: "rat option"
  pk_exclude :: "excl list"
  pk_geo :: "string list"
  pk_any_gpu :: bool
  pk_any_inet :: bool
  pk_cuda :: "rat option"
  pk_cc_allow :: "int list"
  pk_hostrep :: bool
  pk_min_cpu :: "rat option"
  pk_limit :: int

text \<open>What a search reads: the answer to a query (\<open>None\<close> when the call failed), the memory of hosts, the
  download knob, and what was measured of an offer's processor and of the fleet.\<close>

record offer_market =
  om_search :: "market_query \<Rightarrow> gpu_offer list option"
  om_knobs :: host_knobs
  om_hostrep_on :: bool
  om_now :: secs
  om_hosts :: host_store
  om_inet_knob :: rat
  om_rate :: "gpu_offer \<Rightarrow> rat option"
  om_median :: "rat option"

section \<open>Names and floors\<close>

definition CC_ALLOW_SCAN_LIMIT :: int where "CC_ALLOW_SCAN_LIMIT = 64"
definition VRAM_SEARCH_TOLERANCE :: rat where "VRAM_SEARCH_TOLERANCE = 99/100"

definition GPU_ALIASES :: "(string \<times> string list) list" where
  "GPU_ALIASES =
     [(''3090'', [''RTX 3090'']), (''rtx3090'', [''RTX 3090'']), (''4090'', [''RTX 4090'']), (''rtx4090'', [''RTX 4090'']),
      (''5090'', [''RTX 5090'']), (''rtx5090'', [''RTX 5090'']),
      (''a100'', [''A100 SXM4'', ''A100 PCIE'', ''A100X'']), (''a100-80'', [''A100 SXM4'', ''A100 PCIE'']),
      (''h100'', [''H100 SXM'', ''H100 PCIE'', ''H100 NVL'']), (''h200'', [''H200'', ''H200 NVL'']),
      (''b200'', [''B200'']), (''b300'', [''B300'']),
      (''rtxpro6000'', [''RTX PRO 6000 WS'', ''RTX PRO 6000 S'']), (''pro6000'', [''RTX PRO 6000 WS'', ''RTX PRO 6000 S'']),
      (''6000blackwell'', [''RTX PRO 6000 WS'', ''RTX PRO 6000 S'']),
      (''l40'', [''L40'', ''L40S'']), (''l40s'', [''L40S'']), (''a6000'', [''RTX A6000'']), (''rtxa6000'', [''RTX A6000'']),
      (''a5000'', [''RTX A5000'']), (''rtxa5000'', [''RTX A5000'']), (''a4000'', [''RTX A4000'']), (''rtxa4000'', [''RTX A4000'']),
      (''a40'', [''A40'']),
      (''6000ada'', [''RTX 6000Ada'']), (''rtx6000ada'', [''RTX 6000Ada'']), (''5880ada'', [''RTX 5880Ada'']),
      (''rtx5880ada'', [''RTX 5880Ada'']), (''5000ada'', [''RTX 5000Ada'']), (''rtx5000ada'', [''RTX 5000Ada'']),
      (''4500ada'', [''RTX 4500Ada'']), (''rtx4500ada'', [''RTX 4500Ada'']), (''4000ada'', [''RTX 4000Ada'']),
      (''rtx4000ada'', [''RTX 4000Ada'']), (''4080'', [''RTX 4080'']), (''3080'', [''RTX 3080''])]"

text \<open>A name by its alias, or by its alias written without spaces, or as it is; duplicates go, in order.\<close>

definition gpu_names_of :: "string \<Rightarrow> string list" where
  "gpu_names_of n =
     (let low = py_lower n
      in case map_of GPU_ALIASES low of Some v \<Rightarrow> v
         | None \<Rightarrow> dflt [n] (map_of GPU_ALIASES (filter (\<lambda>c. \<not> py_isspace c) low)))"

definition dedup :: "'a list \<Rightarrow> 'a list" where
  "dedup xs = rev (remdups (rev xs))"

definition normalize_gpu :: "string list \<Rightarrow> string list" where
  "normalize_gpu names = dedup (concat (map gpu_names_of names))"

definition gpu_family_names :: "string \<Rightarrow> string list" where
  "gpu_family_names name =
     (if name = [] then []
      else (let w = py_strip name; fam = dedup (concat (filter (\<lambda>ns. w \<in> set ns) (map snd GPU_ALIASES)))
            in if fam = [] then [w] else fam))"

definition GPU_DEFAULT_POLICY_TIERS :: "string list list" where
  "GPU_DEFAULT_POLICY_TIERS =
     [[''RTX 5090'', ''RTX PRO 6000 WS'', ''RTX PRO 6000 S'', ''RTX PRO 5000'', ''RTX PRO 4500'', ''B200'', ''B300'', ''H200'', ''H200 NVL'',
       ''H100 SXM'', ''H100 PCIE'', ''H100 NVL'', ''A100 SXM4'', ''A100 PCIE'', ''A100X'', ''A800 PCIE'', ''L40S'', ''L40'', ''A40'',
       ''RTX A6000'', ''RTX 6000Ada'', ''RTX 5880Ada''],
      [''RTX 5080'', ''RTX 5070 Ti'', ''RTX 5070'', ''RTX PRO 4000'', ''RTX 4090'', ''RTX 4080'', ''RTX 3090'', ''RTX A5000'']]"

definition upper_char :: "char \<Rightarrow> char" where
  "upper_char c = (let n = of_char c :: nat in if 97 \<le> n \<and> n \<le> 122 then char_of (n - 32) else c)"

text \<open>Zero is falsy: a knob of zero sets no filter.\<close>

definition truthy :: "rat option \<Rightarrow> bool" where
  "truthy x \<longleftrightarrow> (case x of None \<Rightarrow> False | Some v \<Rightarrow> v \<noteq> 0)"

definition inet_floor :: "rat option \<Rightarrow> bool \<Rightarrow> rat \<Rightarrow> rat option" where
  "inet_floor explicit any_inet knob =
     (case explicit of Some x \<Rightarrow> if x = 0 then None else Some x
      | None \<Rightarrow> if any_inet \<or> knob = 0 then None else Some knob)"

definition gpu_ram_floor_mib :: "rat \<Rightarrow> int" where
  "gpu_ram_floor_mib gb = (let nominal = gb * 1024 in if nominal \<le> 0 then 0 else \<lfloor>nominal * VRAM_SEARCH_TOLERANCE\<rfloor>)"

definition host_ram_floor_mib :: "rat \<Rightarrow> int" where
  "host_ram_floor_mib gb = (let mib = gb * 1024 in if 0 < mib then \<lfloor>mib\<rfloor> else 0)"

section \<open>Narrowing an answer\<close>

definition offer_sm :: "gpu_offer \<Rightarrow> int option" where
  "offer_sm x = (case go_compute_cap x of None \<Rightarrow> None | Some r \<Rightarrow> let cc = \<lfloor>r\<rfloor> in if 0 < cc then Some (cc div 10) else None)"

definition cc_allow_ok :: "int list \<Rightarrow> gpu_offer \<Rightarrow> bool" where
  "cc_allow_ok allow x \<longleftrightarrow> allow = [] \<or> (case offer_sm x of None \<Rightarrow> False | Some sm \<Rightarrow> sm \<in> set allow)"

definition filter_cc_allow :: "int list \<Rightarrow> gpu_offer list \<Rightarrow> gpu_offer list" where
  "filter_cc_allow allow rows = filter (cc_allow_ok allow) rows"

text \<open>The memory of the slice that is sold, when it can be told.\<close>

definition effective_host_ram_gb :: "gpu_offer \<Rightarrow> rat option" where
  "effective_host_ram_gb x =
     (case (pos_opt (go_cpu_ram x), pos_opt (go_gpu_frac x)) of
        (Some ram, Some fr) \<Rightarrow> Some (round_dp 2 (ram / 1024 * fr)) | _ \<Rightarrow> None)"

definition filter_host_ram :: "rat \<Rightarrow> gpu_offer list \<Rightarrow> gpu_offer list" where
  "filter_host_ram need rows =
     (if need \<le> 0 then rows
      else filter (\<lambda>x. case effective_host_ram_gb x of Some got \<Rightarrow> need \<le> got | None \<Rightarrow> False) rows
           @ filter (\<lambda>x. effective_host_ram_gb x = None) rows)"

definition cpu_perf_floor :: "offer_market \<Rightarrow> rat \<Rightarrow> rat option" where
  "cpu_perf_floor om ratio =
     (case pos_opt (om_median om) of None \<Rightarrow> None | Some med \<Rightarrow> if ratio \<le> 0 then None else Some (med * ratio))"

definition filter_cpu_perf :: "offer_market \<Rightarrow> rat \<Rightarrow> gpu_offer list \<Rightarrow> gpu_offer list" where
  "filter_cpu_perf om ratio rows =
     (case cpu_perf_floor om ratio of
        None \<Rightarrow> rows
      | Some fl \<Rightarrow> filter (\<lambda>x. case om_rate om x of Some r \<Rightarrow> fl \<le> r | None \<Rightarrow> False) rows
                   @ filter (\<lambda>x. om_rate om x = None) rows)"

definition overfetch :: "pick_args \<Rightarrow> bool" where
  "overfetch a \<longleftrightarrow> pk_cc_allow a \<noteq> [] \<or> truthy (pk_host_ram a) \<or> truthy (pk_min_cpu a)"

definition wanted :: "pick_args \<Rightarrow> int" where
  "wanted a = max 1 (pk_limit a)"

definition narrow_rows :: "offer_market \<Rightarrow> pick_args \<Rightarrow> gpu_offer list \<Rightarrow> gpu_offer list" where
  "narrow_rows om a rows =
     (let r1 = filter_cc_allow (pk_cc_allow a) rows;
          r2 = (case pk_host_ram a of Some n \<Rightarrow> if n = 0 then r1 else filter_host_ram n r1 | None \<Rightarrow> r1);
          r3 = (case pk_min_cpu a of Some n \<Rightarrow> if n = 0 then r2 else filter_cpu_perf om n r2 | None \<Rightarrow> r2)
      in if overfetch a then take (nat (wanted a)) r3 else r3)"

section \<open>The search\<close>

definition exclusions :: "offer_market \<Rightarrow> pick_args \<Rightarrow> excl list option" where
  "exclusions om a =
     (if pk_hostrep a then with_blocked (om_knobs om) (om_hostrep_on om) (real_of_rat (om_now om)) (om_hosts om) (pk_exclude a)
      else if pk_exclude a = [] then None else Some (pk_exclude a))"

definition base_query :: "offer_market \<Rightarrow> pick_args \<Rightarrow> market_query" where
  "base_query om a =
     \<lparr>mq_limit = (if overfetch a then max (wanted a) CC_ALLOW_SCAN_LIMIT else wanted a), mq_kind = pk_rental a, mq_gpus = pk_gpus a,
      mq_verified = pk_verified a, mq_names = (if pk_gpu a = [] then None else Some (normalize_gpu (pk_gpu a))),
      mq_gpu_ram = (if truthy (pk_gpu_ram a) then map_option gpu_ram_floor_mib (pk_gpu_ram a) else None),
      mq_disk = (if truthy (pk_disk a) then pk_disk a else None),
      mq_cpu_ram = (if truthy (pk_host_ram a) then map_option host_ram_floor_mib (pk_host_ram a) else None),
      mq_price = pk_max_dph a, mq_inet = inet_floor (pk_inet a) (pk_any_inet a) (om_inet_knob om), mq_notin = exclusions om a,
      mq_cuda = (if truthy (pk_cuda a) then pk_cuda a else None),
      mq_geo = (if pk_geo a = [] then None else Some (map (map upper_char) (pk_geo a)))\<rparr>"

text \<open>The tiers of the default policy when no card was named; then all again without the default download floor.\<close>

definition pick_queries :: "offer_market \<Rightarrow> pick_args \<Rightarrow> market_query list" where
  "pick_queries om a =
     (let q = base_query om a;
          qs = (if pk_gpu a \<noteq> [] \<or> pk_any_gpu a then [q] else map (\<lambda>t. q\<lparr>mq_names := Some t\<rparr>) GPU_DEFAULT_POLICY_TIERS)
      in if mq_inet q \<noteq> None \<and> pk_inet a = None then qs @ map (\<lambda>x. x\<lparr>mq_inet := None\<rparr>) qs else qs)"

definition offer_price :: "rental \<Rightarrow> gpu_offer \<Rightarrow> price option" where
  "offer_price k x = (if k = RentOndemand then go_dph_total x else go_min_bid x)"

definition hostrep_rerank :: "offer_market \<Rightarrow> pick_args \<Rightarrow> gpu_offer list \<Rightarrow> gpu_offer list" where
  "hostrep_rerank om a rows =
     (if \<not> pk_hostrep a then rows
      else map offer_row.more
        (fst (rank_offers (om_hostrep_on om)
                (verdicts (om_knobs om) (om_hostrep_on om) (real_of_rat (om_now om)) (om_hosts om))
                (map (\<lambda>x. \<lparr>ow_machine = map_option int_str (go_machine x),
                             ow_price = map_option real_of_rat (offer_price (pk_rental a) x), \<dots> = x\<rparr>) rows))))"

fun first_answer :: "(market_query \<Rightarrow> gpu_offer list) \<Rightarrow> market_query list \<Rightarrow> gpu_offer list" where
  "first_answer f [] = []"
| "first_answer f (q # qs) = (case f q of [] \<Rightarrow> first_answer f qs | x # xs \<Rightarrow> x # xs)"

definition answered_rows :: "offer_market \<Rightarrow> pick_args \<Rightarrow> market_query \<Rightarrow> gpu_offer list" where
  "answered_rows om a q = narrow_rows om a (dflt [] (om_search om q))"

definition pick_offers :: "offer_market \<Rightarrow> pick_args \<Rightarrow> gpu_offer list" where
  "pick_offers om a = hostrep_rerank om a (first_answer (answered_rows om a) (pick_queries om a))"

section \<open>The candidates for a replacement\<close>

definition REPLACEMENT_CANDIDATES :: int where "REPLACEMENT_CANDIDATES = 16"
definition REPLACEMENT_FALLBACK_GB :: rat where "REPLACEMENT_FALLBACK_GB = 120"
definition UNDERSTUDY_HEADROOM_FACTOR :: rat where "UNDERSTUDY_HEADROOM_FACTOR = 7/5"
definition BASE_OVERHEAD_GB :: rat where "BASE_OVERHEAD_GB = 12"
definition ROUND_STEP_GB :: rat where "ROUND_STEP_GB = 10"

text \<open>The box that is replaced and the demands of its watch.\<close>

record replacement_search =
  rs_market :: offer_market
  rs_gpu_name :: string
  rs_gpu_ram :: "rat option"
  rs_launch_gb :: "rat option"
  rs_alloc_gb :: "rat option"
  rs_used_gb :: "rat option"
  rs_verified :: bool
  rs_cuda :: "rat option"
  rs_cc_allow :: "int list"

text \<open>Memory of a card in GB, from a field that says megabytes or, when it is small, gigabytes.\<close>

definition card_gb :: "rat option \<Rightarrow> rat option" where
  "card_gb raw = (case raw of None \<Rightarrow> None | Some v \<Rightarrow> if 1024 \<le> v then Some (v / 1024) else if 4 \<le> v then Some v else None)"

definition replacement_candidate_class :: "string \<Rightarrow> rat option \<Rightarrow> string list \<times> rat option" where
  "replacement_candidate_class name raw =
     (let fam = gpu_family_names (py_strip name)
      in case card_gb raw of
           None \<Rightarrow> (fam, None)
         | Some gb \<Rightarrow> (dedup (concat GPU_DEFAULT_POLICY_TIERS @ fam), Some gb))"

definition disk_round_up :: "rat \<Rightarrow> rat" where
  "disk_round_up gb = ROUND_STEP_GB * of_int \<lfloor>(gb + ROUND_STEP_GB - 1 / 10 ^ 9) / ROUND_STEP_GB\<rfloor>"

text \<open>The disk the workload was launched with, what the lost box had, or what was measured on it: the largest.\<close>

definition replacement_disk_gb :: "rat option \<Rightarrow> rat option \<Rightarrow> rat option \<Rightarrow> rat option" where
  "replacement_disk_gb launch alloc used =
     (let terms = opt_list (pos_opt launch) @ opt_list (pos_opt alloc)
                  @ opt_list (map_option (\<lambda>u. disk_round_up (u * UNDERSTUDY_HEADROOM_FACTOR + BASE_OVERHEAD_GB)) (pos_opt used))
      in if terms = [] then None else Some (foldr max terms (hd terms)))"

definition replacement_disk_need :: "replacement_search \<Rightarrow> rat" where
  "replacement_disk_need rs =
     dflt REPLACEMENT_FALLBACK_GB (replacement_disk_gb (rs_launch_gb rs) (rs_alloc_gb rs) (rs_used_gb rs))"

definition replacement_args :: "replacement_search \<Rightarrow> nat \<Rightarrow> int set \<Rightarrow> rental \<Rightarrow> price option \<Rightarrow> int \<Rightarrow> pick_args" where
  "replacement_args rs ngpu excl k cap n =
     (let (names, ram) = replacement_candidate_class (rs_gpu_name rs) (rs_gpu_ram rs)
      in \<lparr>pk_gpu = names, pk_gpus = max 1 ngpu, pk_gpu_ram = ram, pk_disk = Some (replacement_disk_need rs), pk_host_ram = None,
          pk_max_dph = cap, pk_rental = k, pk_verified = rs_verified rs, pk_inet = None,
          pk_exclude = map ExInt (sorted_list_of_set excl), pk_geo = [], pk_any_gpu = False, pk_any_inet = False,
          pk_cuda = rs_cuda rs, pk_cc_allow = rs_cc_allow rs, pk_hostrep = True, pk_min_cpu = None, pk_limit = n\<rparr>)"

definition job_replacement_offers ::
  "replacement_search \<Rightarrow> nat \<Rightarrow> int set \<Rightarrow> rental \<Rightarrow> price option \<Rightarrow> int \<Rightarrow> gpu_offer list" where
  "job_replacement_offers rs ngpu excl k cap n = pick_offers (rs_market rs) (replacement_args rs ngpu excl k cap n)"

definition job_replacement_offer ::
  "replacement_search \<Rightarrow> nat \<Rightarrow> int set \<Rightarrow> rental \<Rightarrow> price option \<Rightarrow> gpu_offer option" where
  "job_replacement_offer rs ngpu excl k cap = (case job_replacement_offers rs ngpu excl k cap 1 of [] \<Rightarrow> None | x # _ \<Rightarrow> Some x)"

section \<open>What comes back\<close>

lemma rank_offers_sub: "x \<in> set (fst (rank_offers en vd rows)) \<Longrightarrow> x \<in> set rows \<and> (en \<longrightarrow> offer_block vd x = None)"
proof (cases "rows = [] \<or> \<not> en \<or> vd = []")
  case True
  assume "x \<in> set (fst (rank_offers en vd rows))"
  then have "x \<in> set rows" using True by (auto simp: rank_offers_def)
  moreover have "offer_block [] y = None" for y :: "'a offer_row_scheme" by (simp add: offer_block_def split: option.split)
  ultimately show ?thesis using True by auto
next
  case False
  assume "x \<in> set (fst (rank_offers en vd rows))"
  then show ?thesis using False by (auto simp: rank_offers_ranked ranked_def)
qed

lemma rerank_sub: "x \<in> set (hostrep_rerank om a rows) \<Longrightarrow> x \<in> set rows"
  by (auto simp: hostrep_rerank_def split: if_splits dest!: rank_offers_sub)

lemma first_answer_split:
  "(first_answer f qs = [] \<and> (\<forall>q\<in>set qs. f q = []))
   \<or> (\<exists>pre q post. qs = pre @ q # post \<and> (\<forall>p\<in>set pre. f p = []) \<and> f q \<noteq> [] \<and> first_answer f qs = f q)"
proof (induction qs)
  case (Cons q qs)
  show ?case
  proof (cases "f q")
    case Nil
    from Cons.IH show ?thesis
    proof
      assume "\<exists>pre r post. qs = pre @ r # post \<and> (\<forall>p\<in>set pre. f p = []) \<and> f r \<noteq> [] \<and> first_answer f qs = f r"
      then obtain pre r post where h: "qs = pre @ r # post" "\<forall>p\<in>set pre. f p = []" "f r \<noteq> []" "first_answer f qs = f r" by blast
      have "q # qs = (q # pre) @ r # post \<and> (\<forall>p\<in>set (q # pre). f p = []) \<and> f r \<noteq> [] \<and> first_answer f (q # qs) = f r"
        using h Nil by simp
      then show ?thesis by blast
    qed (use Nil in simp)
  next
    case (Cons x xs)
    then have "q # qs = [] @ q # qs \<and> (\<forall>p\<in>set []. f p = []) \<and> f q \<noteq> [] \<and> first_answer f (q # qs) = f q" by simp
    then show ?thesis by blast
  qed
qed simp

lemma host_ram_mem:
  assumes "x \<in> set (filter_host_ram n rows)"
  shows "x \<in> set rows \<and> (0 < n \<longrightarrow> (\<forall>got. effective_host_ram_gb x = Some got \<longrightarrow> n \<le> got))"
  using assms by (cases "effective_host_ram_gb x") (auto simp: filter_host_ram_def split: if_splits)

lemma cpu_perf_mem:
  assumes "x \<in> set (filter_cpu_perf om n rows)"
  shows "x \<in> set rows \<and> (\<forall>fl r. cpu_perf_floor om n = Some fl \<longrightarrow> om_rate om x = Some r \<longrightarrow> fl \<le> r)"
  using assms by (cases "om_rate om x"; cases "cpu_perf_floor om n") (auto simp: filter_cpu_perf_def)

text \<open>What an offer that passes has: a card on the list, and no measurement that is too small.\<close>

definition passes :: "offer_market \<Rightarrow> pick_args \<Rightarrow> gpu_offer \<Rightarrow> bool" where
  "passes om a x \<longleftrightarrow> cc_allow_ok (pk_cc_allow a) x
     \<and> (\<forall>n got. pk_host_ram a = Some n \<longrightarrow> 0 < n \<longrightarrow> effective_host_ram_gb x = Some got \<longrightarrow> n \<le> got)
     \<and> (\<forall>n fl r. pk_min_cpu a = Some n \<longrightarrow> cpu_perf_floor om n = Some fl \<longrightarrow> om_rate om x = Some r \<longrightarrow> fl \<le> r)"

lemma narrow_mem:
  assumes "x \<in> set (narrow_rows om a rows)"
  shows "x \<in> set rows \<and> passes om a x"
proof -
  define r1 where "r1 = filter_cc_allow (pk_cc_allow a) rows"
  define r2 where "r2 = (case pk_host_ram a of Some n \<Rightarrow> if n = 0 then r1 else filter_host_ram n r1 | None \<Rightarrow> r1)"
  define r3 where "r3 = (case pk_min_cpu a of Some n \<Rightarrow> if n = 0 then r2 else filter_cpu_perf om n r2 | None \<Rightarrow> r2)"
  have n: "narrow_rows om a rows = (if overfetch a then take (nat (wanted a)) r3 else r3)"
    unfolding narrow_rows_def Let_def r1_def r2_def r3_def ..
  have "x \<in> set r3" using assms unfolding n by (auto split: if_splits dest: in_set_takeD)
  then have 3: "x \<in> set r2 \<and> (\<forall>m fl r. pk_min_cpu a = Some m \<longrightarrow> cpu_perf_floor om m = Some fl \<longrightarrow> om_rate om x = Some r \<longrightarrow> fl \<le> r)"
  proof (cases "pk_min_cpu a")
    case (Some m)
    have z: "cpu_perf_floor om 0 = None" by (simp add: cpu_perf_floor_def split: option.split)
    show ?thesis
    proof (cases "m = 0")
      case False
      then have "r3 = filter_cpu_perf om m r2" by (simp add: r3_def Some)
      then show ?thesis using \<open>x \<in> set r3\<close> cpu_perf_mem [of x om m r2] by (simp add: Some)
    qed (use \<open>x \<in> set r3\<close> Some z in \<open>simp add: r3_def\<close>)
  qed (simp add: r3_def)
  then have 2: "x \<in> set r1 \<and> (\<forall>m got. pk_host_ram a = Some m \<longrightarrow> 0 < m \<longrightarrow> effective_host_ram_gb x = Some got \<longrightarrow> m \<le> got)"
  proof (cases "pk_host_ram a")
    case (Some m)
    show ?thesis
    proof (cases "m = 0")
      case False
      then have "r2 = filter_host_ram m r1" by (simp add: r2_def Some)
      then show ?thesis using 3 host_ram_mem [of x m r1] by (simp add: Some)
    qed (use 3 Some in \<open>simp add: r2_def\<close>)
  qed (simp add: r2_def)
  then show ?thesis using 3 by (simp add: passes_def r1_def filter_cc_allow_def)
qed

lemma narrow_length: "overfetch a \<Longrightarrow> length (narrow_rows om a rows) \<le> nat (wanted a)"
  by (simp add: narrow_rows_def Let_def)

lemma narrow_nil [simp]: "narrow_rows om a [] = []"
proof (cases "narrow_rows om a []")
  case (Cons x xs)
  then show ?thesis using narrow_mem [of x om a "[]"] by simp
qed

lemma pick_queries_form:
  assumes "q \<in> set (pick_queries om a)"
  shows "\<exists>ns f. q = (base_query om a)\<lparr>mq_names := ns, mq_inet := f\<rparr>"
proof -
  let ?b = "base_query om a"
  have b: "\<exists>ns f. ?b = ?b\<lparr>mq_names := ns, mq_inet := f\<rparr>" by (intro exI [of _ "mq_names ?b"] exI [of _ "mq_inet ?b"]) simp
  have t: "\<exists>ns f. ?b\<lparr>mq_names := n\<rparr> = ?b\<lparr>mq_names := ns, mq_inet := f\<rparr>" for n
    by (intro exI [of _ n] exI [of _ "mq_inet ?b"]) simp
  let ?qs = "if pk_gpu a \<noteq> [] \<or> pk_any_gpu a then [?b] else map (\<lambda>t. ?b\<lparr>mq_names := Some t\<rparr>) GPU_DEFAULT_POLICY_TIERS"
  have q: "\<exists>ns f. p = ?b\<lparr>mq_names := ns, mq_inet := f\<rparr>" if "p \<in> set ?qs" for p
    using that b t by (auto split: if_splits)
  have "q \<in> set ?qs \<or> (\<exists>p\<in>set ?qs. q = p\<lparr>mq_inet := None\<rparr>)"
    using assms by (auto simp: pick_queries_def Let_def split: if_splits)
  then show ?thesis using q by fastforce
qed

lemma picked_from:
  assumes "x \<in> set (pick_offers om a)"
  obtains q rows where "q \<in> set (pick_queries om a)" "om_search om q = Some rows" "x \<in> set (narrow_rows om a rows)"
proof -
  have x: "x \<in> set (first_answer (answered_rows om a) (pick_queries om a))" using assms rerank_sub by (auto simp: pick_offers_def)
  then obtain q where q: "q \<in> set (pick_queries om a)" "x \<in> set (answered_rows om a q)"
    using first_answer_split [of "answered_rows om a" "pick_queries om a"] by fastforce
  obtain rows where "om_search om q = Some rows" "x \<in> set (narrow_rows om a rows)"
  proof (cases "om_search om q")
    case None
    then show ?thesis using q by (simp add: answered_rows_def)
  qed (use q that in \<open>simp add: answered_rows_def\<close>)
  then show thesis using q that by blast
qed

lemma blocked_never_picked:
  assumes "x \<in> set (pick_offers om a)" "pk_hostrep a" "om_hostrep_on om" "go_machine x = Some m"
    "map_of (verdicts (om_knobs om) (om_hostrep_on om) (real_of_rat (om_now om)) (om_hosts om)) (int_str m) = Some v"
  shows "vd_blocked v = None"
proof -
  let ?rows = "map (\<lambda>x. \<lparr>ow_machine = map_option int_str (go_machine x),
      ow_price = map_option real_of_rat (offer_price (pk_rental a) x), \<dots> = x\<rparr>) (first_answer (answered_rows om a) (pick_queries om a))"
  obtain y where y: "y \<in> set (fst (rank_offers (om_hostrep_on om)
      (verdicts (om_knobs om) (om_hostrep_on om) (real_of_rat (om_now om)) (om_hosts om)) ?rows))" "offer_row.more y = x"
    using assms(1,2) by (auto simp: pick_offers_def hostrep_rerank_def)
  have "y \<in> set ?rows" "offer_block (verdicts (om_knobs om) (om_hostrep_on om) (real_of_rat (om_now om)) (om_hosts om)) y = None"
    using rank_offers_sub [OF y(1)] assms(3) by simp_all
  moreover have "ow_machine y = Some (int_str m)" using calculation(1) y(2) assms(4) by auto
  ultimately show ?thesis using assms(5) by (simp add: offer_block_def)
qed

text \<open>An offer that a search hands back has passed every test. It was in the answer to a query of this search,
  which asked for the rental, the price limit and the excluded machines of the caller; its card is on the
  architecture list, what is measured of it is enough, and its machine is not blocked.\<close>

lemma picked_offer_qualifies:
  assumes "x \<in> set (pick_offers om a)"
  shows "(\<exists>q rows. q \<in> set (pick_queries om a) \<and> om_search om q = Some rows \<and> x \<in> set rows
      \<and> mq_kind q = pk_rental a \<and> mq_price q = pk_max_dph a \<and> mq_notin q = exclusions om a)
    \<and> passes om a x
    \<and> (pk_hostrep a \<and> om_hostrep_on om \<longrightarrow> (\<forall>m v. go_machine x = Some m \<longrightarrow>
         map_of (verdicts (om_knobs om) True (real_of_rat (om_now om)) (om_hosts om)) (int_str m) = Some v \<longrightarrow> vd_blocked v = None))"
proof -
  obtain q rows where q: "q \<in> set (pick_queries om a)" "om_search om q = Some rows" "x \<in> set (narrow_rows om a rows)"
    using picked_from [OF assms] by blast
  obtain ns f where "q = (base_query om a)\<lparr>mq_names := ns, mq_inet := f\<rparr>" using pick_queries_form [OF q(1)] by blast
  then have "mq_kind q = pk_rental a \<and> mq_price q = pk_max_dph a \<and> mq_notin q = exclusions om a" by (simp add: base_query_def)
  then show ?thesis using q narrow_mem [OF q(3)] blocked_never_picked [OF assms] by auto
qed

text \<open>What is left of the answer for these cards and this download floor.\<close>

definition left_by :: "offer_market \<Rightarrow> pick_args \<Rightarrow> string list \<Rightarrow> rat option \<Rightarrow> gpu_offer list" where
  "left_by om a t f = answered_rows om a ((base_query om a)\<lparr>mq_names := Some t, mq_inet := f\<rparr>)"

text \<open>Second choices only when the first are dry. With no card named, an offer of the second tier is taken
  only when the first tier left nothing, and one below the default download floor only when neither tier
  left anything above it.\<close>

lemma fallbacks_only_when_dry:
  assumes "x \<in> set (pick_offers om a)" "pk_gpu a = []" "\<not> pk_any_gpu a" "f = mq_inet (base_query om a)"
  shows "\<exists>t0 t1. GPU_DEFAULT_POLICY_TIERS = [t0, t1] \<and>
    (x \<in> set (left_by om a t0 f)
     \<or> left_by om a t0 f = [] \<and> x \<in> set (left_by om a t1 f)
     \<or> left_by om a t0 f = [] \<and> left_by om a t1 f = [] \<and> pk_inet a = None \<and> f \<noteq> None
       \<and> (x \<in> set (left_by om a t0 None) \<or> left_by om a t0 None = [] \<and> x \<in> set (left_by om a t1 None)))"
proof -
  obtain t0 t1 where t: "GPU_DEFAULT_POLICY_TIERS = [t0, t1]" unfolding GPU_DEFAULT_POLICY_TIERS_def by blast
  let ?b = "base_query om a"
  have q: "pick_queries om a = [?b\<lparr>mq_names := Some t0, mq_inet := f\<rparr>, ?b\<lparr>mq_names := Some t1, mq_inet := f\<rparr>]
      @ (if f \<noteq> None \<and> pk_inet a = None then [?b\<lparr>mq_names := Some t0, mq_inet := None\<rparr>, ?b\<lparr>mq_names := Some t1, mq_inet := None\<rparr>] else [])"
    using assms(2,3) by (simp add: pick_queries_def Let_def t assms(4))
  have x: "x \<in> set (first_answer (answered_rows om a) (pick_queries om a))" using assms(1) rerank_sub by (simp add: pick_offers_def)
  have "x \<in> set (left_by om a t0 f) \<or> left_by om a t0 f = [] \<and> x \<in> set (left_by om a t1 f)
      \<or> left_by om a t0 f = [] \<and> left_by om a t1 f = [] \<and> pk_inet a = None \<and> f \<noteq> None
        \<and> (x \<in> set (left_by om a t0 None) \<or> left_by om a t0 None = [] \<and> x \<in> set (left_by om a t1 None))"
    using x unfolding q left_by_def by (simp only: first_answer.simps append.simps split: list.splits if_splits) auto
  then show ?thesis using t by blast
qed

section \<open>The exclusions of a replacement\<close>

text \<open>The market keeps a machine that the query excludes out of its answer.\<close>

definition honours_notin :: "offer_market \<Rightarrow> bool" where
  "honours_notin om \<longleftrightarrow> (\<forall>q rows es x m. om_search om q = Some rows \<longrightarrow> mq_notin q = Some es \<longrightarrow> x \<in> set rows
     \<longrightarrow> go_machine x = Some m \<longrightarrow> ExInt m \<notin> set es)"

lemma excluded_in_query:
  assumes "finite e" "m \<in> e"
  shows "\<exists>es. exclusions om (replacement_args rs n e k cap j) = Some es \<and> ExInt m \<in> set es"
proof -
  let ?a = "replacement_args rs n e k cap j"
  have a: "pk_hostrep ?a" "pk_exclude ?a = map ExInt (sorted_list_of_set e)" by (simp_all add: replacement_args_def split: prod.split)
  let ?i = "set (List.map_filter excl_int (pk_exclude ?a))
    \<union> blocked_machines (om_knobs om) (om_hostrep_on om) (real_of_rat (om_now om)) (om_hosts om)"
  let ?out = "map ExInt (sorted_list_of_set ?i) @ filter (\<lambda>e. excl_int e = None) (pk_exclude ?a)"
  have "finite ?i" by (simp add: blocked_machines_def)
  moreover have "m \<in> ?i" using assms by (auto simp: a map_filter_def excl_int_def image_iff)
  ultimately have o: "ExInt m \<in> set ?out" by simp
  have "exclusions om ?a = (if ?out = [] then None else Some ?out)" by (simp only: exclusions_def a(1) if_True with_blocked_def Let_def)
  moreover have "?out \<noteq> []" using o by (metis list.distinct(1) list.set_cases)
  ultimately have "exclusions om ?a = Some ?out" by (simp only: if_False)
  with o show ?thesis by blast
qed

lemma excluded_never_offered:
  assumes "honours_notin (rs_market rs)" "finite e" "x \<in> set (job_replacement_offers rs n e k cap j)"
  shows "go_machine x \<notin> Some ` e"
proof
  assume "go_machine x \<in> Some ` e"
  then obtain m where m: "go_machine x = Some m" "m \<in> e" by auto
  let ?a = "replacement_args rs n e k cap j"
  obtain q rows where q: "q \<in> set (pick_queries (rs_market rs) ?a)" "om_search (rs_market rs) q = Some rows"
      "x \<in> set (narrow_rows (rs_market rs) ?a rows)"
    using picked_from assms(3) unfolding job_replacement_offers_def by blast
  obtain es where es: "exclusions (rs_market rs) ?a = Some es" "ExInt m \<in> set es" using excluded_in_query [OF assms(2) m(2)] by blast
  obtain ns f where "q = (base_query (rs_market rs) ?a)\<lparr>mq_names := ns, mq_inet := f\<rparr>" using pick_queries_form [OF q(1)] by blast
  then have "mq_notin q = Some es" using es(1) by (simp add: base_query_def)
  then show False using assms(1) q(2) narrow_mem [OF q(3)] m(1) es(2) unfolding honours_notin_def by blast
qed

section \<open>A demonstration\<close>

definition demo_offer :: gpu_offer where
  "demo_offer = \<lparr>go_id = 3, go_machine = Some 9, go_gpus = Some 1, go_min_bid = None, go_dph_total = Some 1, go_gpu = None,
     go_compute_cap = None, go_cpu_ram = None, go_gpu_frac = None\<rparr>"

text \<open>A market that has these offers on demand, less the excluded ones, and no interruptible one.\<close>

definition demo_market :: "gpu_offer list \<Rightarrow> offer_market" where
  "demo_market xs = \<lparr>om_search = (\<lambda>q. if mq_kind q = RentBid then Some [] else Some (filter (\<lambda>x. case go_machine x of None \<Rightarrow> True
        | Some m \<Rightarrow> ExInt m \<notin> set (dflt [] (mq_notin q))) xs)),
     om_knobs = HOSTREP_DEFAULTS, om_hostrep_on = True, om_now = 0, om_hosts = [], om_inet_knob = 1000, om_rate = (\<lambda>_. None), om_median = None\<rparr>"

definition demo_search :: "gpu_offer list \<Rightarrow> replacement_search" where
  "demo_search xs = \<lparr>rs_market = demo_market xs, rs_gpu_name = [], rs_gpu_ram = None, rs_launch_gb = Some 50, rs_alloc_gb = None,
     rs_used_gb = None, rs_verified = True, rs_cuda = None, rs_cc_allow = []\<rparr>"

lemma demo_honours: "honours_notin (rs_market (demo_search xs))"
  by (auto simp: honours_notin_def demo_search_def demo_market_def split: if_splits)

lemma demo_picked: "job_replacement_offers (demo_search [demo_offer]) 1 {5} RentOndemand (Some 2) 16 = [demo_offer]"
  by code_simp

definition demo_args :: pick_args where
  "demo_args = replacement_args (demo_search [demo_offer]) 1 {5} RentOndemand (Some 2) 16"

lemma demo_args_picked: "demo_offer \<in> set (pick_offers (demo_market [demo_offer]) demo_args)"
  using demo_picked by (simp add: job_replacement_offers_def demo_args_def) (simp add: demo_search_def)

lemma demo_args_simps: "pk_gpu demo_args = []" "\<not> pk_any_gpu demo_args" "pk_inet demo_args = None" "pk_rental demo_args = RentOndemand"
  by (simp_all add: demo_args_def replacement_args_def demo_search_def replacement_candidate_class_def card_gb_def gpu_family_names_def py_strip_def)

lemma picked_offer_qualifies_witness:
  "passes (demo_market [demo_offer]) demo_args demo_offer"
  using picked_offer_qualifies [OF demo_args_picked] by blast

lemma fallbacks_only_when_dry_witness:
  "\<exists>t\<in>set GPU_DEFAULT_POLICY_TIERS. \<exists>f. demo_offer \<in> set (left_by (demo_market [demo_offer]) demo_args t f)"
proof -
  let ?l = "\<lambda>t f. demo_offer \<in> set (left_by (demo_market [demo_offer]) demo_args t f)"
  obtain t0 t1 f where t: "GPU_DEFAULT_POLICY_TIERS = [t0, t1]" "?l t0 f \<or> ?l t1 f \<or> ?l t0 None \<or> ?l t1 None"
    using fallbacks_only_when_dry [OF demo_args_picked demo_args_simps(1,2) refl] by blast
  show ?thesis unfolding t(1) using t(2) by auto
qed

end
