(* ===== verification/QueueMove.thy ===== *)
theory QueueMove
  imports JobQueue
begin

text \<open>
  Moving the whole queue of a lost box onto its replacement
  (\<open>supervise/replacement.py\<close>, \<open>_retarget_pending_tickets\<close>), over the bucket of \<open>JobQueue\<close>.

  Lemma groups: no ticket is lost whatever calls fail; with every call served the movable tickets are at
  the new box; what a failed read does.
\<close>

section \<open>The move\<close>

datatype move_outcome = TicketGone | TicketKept | TicketMoved | MoveFailed

definition moved_ticket :: "string \<Rightarrow> string \<Rightarrow> ticket \<Rightarrow> ticket" where
  "moved_ticket old new t = t\<lparr>tk_box := new, tk_retargeted_from := Some old\<rparr>"

definition move_ticket ::
  "world \<Rightarrow> string \<Rightarrow> string \<Rightarrow> string \<Rightarrow> string \<Rightarrow> string option \<Rightarrow> string \<Rightarrow> move_outcome bucket_op" where
  "move_ticket w old new reason actor status jid =
     do {
       src \<leftarrow> read_ticket w old jid;
       case src of
         None \<Rightarrow> State_Monad.return TicketGone
       | Some t \<Rightarrow> do {
           now \<leftarrow> now_ts w;
           if \<not> bulk_move_verdict t status now None then State_Monad.return TicketKept
           else do {
             ok \<leftarrow> write_ticket w (moved_ticket old new t);
             if \<not> ok then State_Monad.return MoveFailed
             else do {
               _ \<leftarrow> delete_ticket w old jid;
               ev \<leftarrow> emit_event w jid ''retargeted'' actor None
                 [(''box'', JStr new), (''from_box'', JStr old), (''reason'', JStr reason)];
               State_Monad.return (case ev of Inl _ \<Rightarrow> MoveFailed | Inr _ \<Rightarrow> TicketMoved) } } } }"

text \<open>The tickets one after the other, each with what became of it.\<close>

fun move_each :: "(string \<Rightarrow> move_outcome bucket_op) \<Rightarrow> string list \<Rightarrow> (string \<times> move_outcome) list bucket_op" where
  "move_each step [] = State_Monad.return []"
| "move_each step (j # js) =
     do { r \<leftarrow> step j; rs \<leftarrow> move_each step js; State_Monad.return ((j, r) # rs) }"

definition with_outcome :: "move_outcome \<Rightarrow> (string \<times> move_outcome) list \<Rightarrow> string list" where
  "with_outcome r rs = map fst (filter (\<lambda>x. snd x = r) rs)"

definition retarget_pending_tickets ::
  "world \<Rightarrow> string \<Rightarrow> string \<Rightarrow> string \<Rightarrow> string \<Rightarrow> string list option \<Rightarrow> (string \<Rightarrow> string option)
   \<Rightarrow> (string list \<times> string list) bucket_op" where
  "retarget_pending_tickets w old new reason actor listing statuses =
     (case list_queue listing of
        None \<Rightarrow> State_Monad.return ([], [''<queue-unreadable>''])
      | Some jids \<Rightarrow> do {
          rs \<leftarrow> move_each (\<lambda>j. move_ticket w old new reason actor (statuses j) j) jids;
          State_Monad.return (with_outcome TicketMoved rs, with_outcome MoveFailed rs) })"

section \<open>Nothing is lost\<close>

lemma frozen_moved: "frozen (moved_ticket old new t) = frozen t"
  by (simp add: frozen_def moved_ticket_def)

lemma moved_fields [simp]: "tk_box (moved_ticket old new t) = new" "tk_job_id (moved_ticket old new t) = tk_job_id t"
  by (simp_all add: moved_ticket_def)

lemma held_move_ticket:
  assumes "held F jid b" "content_test F" "old \<noteq> new"
  shows "post (move_ticket w old new reason actor st j) (\<lambda>_. held F jid) b"
proof -
  have ft: "F (moved_ticket box n t)" if "F t" for box n t
    using content_testD [OF assms(2) that frozen_moved] .
  show ?thesis
    unfolding move_ticket_def using assms(1,3)
    by (auto intro!: held_calls [where F = F and jid = jid] split: sum.splits) (auto simp: ft intro: elsewhere)
qed

lemma post_move_each:
  assumes "I b" "\<And>j b. I b \<Longrightarrow> post (step j) (\<lambda>_. I) b"
  shows "post (move_each step js) (\<lambda>_. I) b"
  using assms(1)
proof (induction js arbitrary: b)
  case (Cons j js)
  show ?case unfolding move_each.simps post_bind
    by (rule post_mono [OF assms(2) [OF Cons.prems]]) (simp add: post_mono [OF Cons.IH])
qed simp

lemma held_retarget_pending:
  assumes "held F jid b" "content_test F" "old \<noteq> new"
  shows "post (retarget_pending_tickets w old new reason actor listing statuses) (\<lambda>_. held F jid) b"
proof (cases "list_queue listing")
  case (Some jids)
  have "post (move_each (\<lambda>j. move_ticket w old new reason actor (statuses j) j) jids) (\<lambda>_. held F jid) b"
    using assms by (intro post_move_each held_move_ticket)
  then show ?thesis by (simp add: retarget_pending_tickets_def Some post_mono)
qed (use assms in \<open>simp add: retarget_pending_tickets_def\<close>)

text \<open>C26. Moving a whole queue loses no ticket and alters no frozen content: whichever calls fail or are
  carried out although reported failed, every job with a readable ticket still has one, under the key it
  names, with the bundle, the config and the submit time it had.\<close>

theorem bulk_move_loses_no_ticket:
  assumes "keyed b" "stored b box jid t" "\<forall>box' t'. stored b box' jid t' \<longrightarrow> frozen t' = frozen t" "old \<noteq> new"
  shows "\<exists>box' t'. stored (after (retarget_pending_tickets w old new reason actor listing statuses) b) box' jid t'
    \<and> tk_box t' = box' \<and> tk_job_id t' = jid \<and> frozen t' = frozen t"
proof -
  have "held (frozen_as t) jid b" unfolding held_def frozen_as_def using assms(1-3) by blast
  then have h: "held (frozen_as t) jid (after (retarget_pending_tickets w old new reason actor listing statuses) b)"
    using assms(4) by (intro held_after held_retarget_pending content_test_frozen)
  then obtain box' t' where "stored (after (retarget_pending_tickets w old new reason actor listing statuses) b) box' jid t'"
    by (rule held_other)
  with h show ?thesis unfolding held_def keyed_def frozen_as_def by blast
qed

lemma bulk_move_loses_no_ticket_witness:
  "\<exists>box' t'. stored (after (retarget_pending_tickets (demo_world (\<lambda>n. if n = 2 then Unsure else Served)) ''7'' ''8'' ''evicted''
      ''fleetd'' (Some [''j1.json'']) (\<lambda>_. None)) (demo_bucket [])) box' ''j1'' t'
    \<and> tk_box t' = box' \<and> tk_job_id t' = ''j1'' \<and> frozen t' = frozen demo_ticket"
  by (rule bulk_move_loses_no_ticket [where box = "''7''"]) (simp_all add: demo_keyed demo_stored)

section \<open>With every call served\<close>

definition moves_at_any_time :: "world \<Rightarrow> ticket \<Rightarrow> string option \<Rightarrow> bool" where
  "moves_at_any_time w t status \<longleftrightarrow> (\<forall>n. bulk_move_verdict t status (w_now w n) None)"

definition after_move :: "string \<Rightarrow> string \<Rightarrow> string \<Rightarrow> ticket \<Rightarrow> bucket \<Rightarrow> string \<times> string \<Rightarrow> body option" where
  "after_move old new jid t b = (bk_queue b)((new, tk_job_id t) \<mapsto> Body (moved_ticket old new t), (old, jid) := None)"

lemma served_move:
  assumes "served w" "job_id_ok jid"
  obtains r b' where "run_state (move_ticket w old new reason actor st jid) b = (r, b')"
    "bk_queue b' = bk_queue b \<and> (\<forall>t. readable (bk_queue b (old, jid)) = Some t \<longrightarrow> \<not> moves_at_any_time w t st)
     \<or> (\<exists>t. readable (bk_queue b (old, jid)) = Some t \<and> r = TicketMoved \<and> bk_queue b' = after_move old new jid t b)"
proof (cases "readable (bk_queue b (old, jid))")
  case None
  then show thesis using assms by (intro that [of TicketGone "tick b"]) (auto simp: move_ticket_def ticket_calls)
next
  case (Some t)
  show thesis
  proof (cases "bulk_move_verdict t st (w_now w (Suc (bk_tick b))) None")
    case True
    then show thesis using assms Some by (intro that) (auto simp: move_ticket_def ticket_calls after_move_def)
  next
    case False
    then show thesis using assms Some by (intro that) (auto simp: move_ticket_def ticket_calls moves_at_any_time_def)
  qed
qed

lemma served_each:
  assumes "served w" "old \<noteq> new" "list_all job_id_ok js" "distinct js"
    "\<And>j t. j \<in> set js \<Longrightarrow> readable (bk_queue b (old, j)) = Some t \<Longrightarrow> tk_job_id t = j"
  obtains rs b' where "run_state (move_each (\<lambda>j. move_ticket w old new reason actor (statuses j) j) js) b = (rs, b')"
    "\<And>j. j \<notin> set js \<Longrightarrow> bk_queue b' (old, j) = bk_queue b (old, j) \<and> bk_queue b' (new, j) = bk_queue b (new, j)"
    "\<And>j t. j \<in> set js \<Longrightarrow> readable (bk_queue b (old, j)) = Some t \<Longrightarrow> moves_at_any_time w t (statuses j) \<Longrightarrow>
       bk_queue b' (new, j) = Some (Body (moved_ticket old new t)) \<and> bk_queue b' (old, j) = None \<and> (j, TicketMoved) \<in> set rs"
  using assms(3-5)
proof (induction js arbitrary: b thesis)
  case (Cons j js)
  have ok: "job_id_ok j" using Cons.prems(2) by simp
  obtain r b1 where r: "run_state (move_ticket w old new reason actor (statuses j) j) b = (r, b1)"
    "bk_queue b1 = bk_queue b \<and> (\<forall>t. readable (bk_queue b (old, j)) = Some t \<longrightarrow> \<not> moves_at_any_time w t (statuses j))
     \<or> (\<exists>t. readable (bk_queue b (old, j)) = Some t \<and> r = TicketMoved \<and> bk_queue b1 = after_move old new j t b)"
    by (rule served_move [OF assms(1) ok])
  have key: "tk_job_id t = j" if "readable (bk_queue b (old, j)) = Some t" for t
    using Cons.prems(4) [of j t] that by simp
  have other: "bk_queue b1 (old, k) = bk_queue b (old, k) \<and> bk_queue b1 (new, k) = bk_queue b (new, k)" if "k \<noteq> j" for k
    using r(2) that key assms(2) by (auto simp: after_move_def)
  obtain rs b' where rs: "run_state (move_each (\<lambda>j. move_ticket w old new reason actor (statuses j) j) js) b1 = (rs, b')"
    "\<And>k. k \<notin> set js \<Longrightarrow> bk_queue b' (old, k) = bk_queue b1 (old, k) \<and> bk_queue b' (new, k) = bk_queue b1 (new, k)"
    "\<And>k t. k \<in> set js \<Longrightarrow> readable (bk_queue b1 (old, k)) = Some t \<Longrightarrow> moves_at_any_time w t (statuses k) \<Longrightarrow>
       bk_queue b' (new, k) = Some (Body (moved_ticket old new t)) \<and> bk_queue b' (old, k) = None \<and> (k, TicketMoved) \<in> set rs"
  proof (rule Cons.IH [of b1])
    show "tk_job_id t = k" if "k \<in> set js" "readable (bk_queue b1 (old, k)) = Some t" for k t
    proof -
      have "k \<noteq> j" using that(1) Cons.prems(3) by auto
      then show ?thesis using that other [of k] Cons.prems(4) [of k t] by simp
    qed
  qed (use Cons.prems(2,3) in auto)
  show ?case
  proof (rule Cons.prems(1))
    show "run_state (move_each (\<lambda>j. move_ticket w old new reason actor (statuses j) j) (j # js)) b = ((j, r) # rs, b')"
      by (simp add: r(1) rs(1))
    show "bk_queue b' (old, k) = bk_queue b (old, k) \<and> bk_queue b' (new, k) = bk_queue b (new, k)" if "k \<notin> set (j # js)" for k
      using that other [of k] rs(2) [of k] by simp
    show "bk_queue b' (new, k) = Some (Body (moved_ticket old new t)) \<and> bk_queue b' (old, k) = None \<and> (k, TicketMoved) \<in> set ((j, r) # rs)"
      if "k \<in> set (j # js)" "readable (bk_queue b (old, k)) = Some t" "moves_at_any_time w t (statuses k)" for k t
    proof (cases "k = j")
      case True
      then have "j \<notin> set js" using Cons.prems(3) by simp
      then show ?thesis using True that r(2) rs(2) [of j] key assms(2) by (auto simp: after_move_def)
    next
      case False
      then show ?thesis using that other [of k] rs(3) [of k t] by simp
    qed
  qed
qed simp

text \<open>With every call served, each listed ticket that may be moved is afterwards at the new box and only
  there, and is reported as moved.\<close>

theorem bulk_move_moves:
  assumes "served w" "old \<noteq> new" "keyed b" "list_queue listing = Some jids" "distinct jids" "list_all job_id_ok jids"
    "jid \<in> set jids" "readable (bk_queue b (old, jid)) = Some t" "moves_at_any_time w t (statuses jid)"
  shows "jid \<in> set (fst (fst (run_state (retarget_pending_tickets w old new reason actor listing statuses) b)))
    \<and> bk_queue (after (retarget_pending_tickets w old new reason actor listing statuses) b) (new, jid) = Some (Body (moved_ticket old new t))
    \<and> bk_queue (after (retarget_pending_tickets w old new reason actor listing statuses) b) (old, jid) = None"
proof -
  have k: "tk_job_id u = j" if "readable (bk_queue b (old, j)) = Some u" for j u
    using assms(3) that by (auto simp: keyed_def stored_def)
  have "\<exists>rs b'. run_state (move_each (\<lambda>j. move_ticket w old new reason actor (statuses j) j) jids) b = (rs, b')
    \<and> bk_queue b' (new, jid) = Some (Body (moved_ticket old new t)) \<and> bk_queue b' (old, jid) = None \<and> (jid, TicketMoved) \<in> set rs"
    by (rule served_each [OF assms(1,2,6,5), where b = b and reason = reason and actor = actor and statuses = statuses])
       (use k assms(7-9) in blast)+
  then obtain rs b' where rs: "run_state (move_each (\<lambda>j. move_ticket w old new reason actor (statuses j) j) jids) b = (rs, b')"
    "bk_queue b' (new, jid) = Some (Body (moved_ticket old new t))" "bk_queue b' (old, jid) = None" "(jid, TicketMoved) \<in> set rs"
    by blast
  then have "jid \<in> set (with_outcome TicketMoved rs)" by (force simp: with_outcome_def)
  then show ?thesis using rs by (simp add: retarget_pending_tickets_def assms(4) after_def)
qed

lemma bulk_move_moves_witness:
  "bk_queue (after (retarget_pending_tickets (demo_world (\<lambda>_. Served)) ''7'' ''8'' ''evicted'' ''fleetd''
      (Some [''j1.json'']) (\<lambda>_. None)) (demo_bucket [])) (''8'', ''j1'') = Some (Body (moved_ticket ''7'' ''8'' demo_ticket))"
proof -
  have m: "moves_at_any_time (demo_world (\<lambda>_. Served)) demo_ticket None"
    unfolding moves_at_any_time_def demo_world_def by simp code_simp
  have l: "list_queue (Some [''j1.json'']) = Some [''j1'']" by code_simp
  show ?thesis
    using bulk_move_moves [OF demo_served _ demo_keyed l, where old = "''7''" and new = "''8''" and t = demo_ticket and statuses = "\<lambda>_. None"] demo_job_id m
    by (simp add: demo_bucket_def)
qed

section \<open>An unread ticket\<close>

text \<open>A ticket whose read fails is passed over without a word: it stays where it is and is neither in
  the list of the moved nor in the list of the failed.\<close>

lemma unread_ticket_is_silent:
  assumes "\<And>n. w_io w n = Refused"
  shows "fst (run_state (retarget_pending_tickets w old new reason actor listing statuses) b)
      = (case list_queue listing of None \<Rightarrow> ([], [''<queue-unreadable>'']) | Some _ \<Rightarrow> ([], []))"
proof -
  have one: "run_state (move_ticket w old new reason actor st j) c = (TicketGone, tick c)" for st j c
    by (simp add: move_ticket_def read_ticket_def io_read_def assms)
  have "list_all (\<lambda>x. snd x = TicketGone) (fst (run_state (move_each (\<lambda>j. move_ticket w old new reason actor (statuses j) j) js) c))" for js c
  proof (induction js arbitrary: c)
    case (Cons j js)
    then show ?case using Cons.IH [of "tick c"]
      by (cases "run_state (move_each (\<lambda>j. move_ticket w old new reason actor (statuses j) j) js) (tick c)") (simp add: one)
  qed simp
  then have g: "snd x = TicketGone"
    if "x \<in> set (fst (run_state (move_each (\<lambda>j. move_ticket w old new reason actor (statuses j) j) js) c))" for x js c
    using that by (simp add: list_all_iff)
  show ?thesis
  proof (cases "list_queue listing")
    case (Some jids)
    obtain rs b' where e: "run_state (move_each (\<lambda>j. move_ticket w old new reason actor (statuses j) j) jids) b = (rs, b')"
      by fastforce
    then have "snd x = TicketGone" if "x \<in> set rs" for x using g [of x jids b] that by simp
    then show ?thesis using e Some by (auto simp: retarget_pending_tickets_def with_outcome_def filter_empty_conv)
  qed (simp add: retarget_pending_tickets_def)
qed

end
