(* ===== verification/EvictReplace.thy ===== *)
theory EvictReplace
  imports LadderCore Replacement HostRep QueueMove Credentials Offers
begin

text \<open>
  The ladder that answers an eviction in the jobs lane (\<open>supervise/replacement.py\<close>): the memory of
  machines that took a box, the candidate walk and its ranking, the re-bid rung, and the driver that
  rents a replacement, moves the queue and disposes of the lost box.

  The policy is \<open>Replacement\<close>, \<open>Defense\<close> and \<open>BidRails\<close>, the durable memory \<open>HostRep\<close>, the queue
  \<open>QueueMove\<close>, the search for offers \<open>Offers\<close>; the state extends the standing-bid state of \<open>LadderCore\<close>. What the market and the API
  answer, and the knobs as resolved, are the fields of \<open>evict_world\<close>.
\<close>

section \<open>Constants\<close>

definition SPOT_FASTDEATH_S :: secs where "SPOT_FASTDEATH_S = 900"
definition EVICTED_EXCLUSION_TTL_S :: secs where "EVICTED_EXCLUSION_TTL_S = 1800"
definition HOST_STOP_TTL_ESCALATION :: rat where "HOST_STOP_TTL_ESCALATION = 4"
definition HOST_STOP_TTL_MAX_S :: secs where "HOST_STOP_TTL_MAX_S = 21600"
definition REPLACEMENT_OD_PROBES :: nat where "REPLACEMENT_OD_PROBES = 8"
definition P_ALT_MAX_AGE_S :: secs where "P_ALT_MAX_AGE_S = 1800"

definition EVICTED_TTL_CLASSES :: "eviction_class list" where
  "EVICTED_TTL_CLASSES = [EvOutbid, EvHostStop]"

definition STRIKE_FREE_EVICTION_CLASSES :: "eviction_class list" where
  "STRIKE_FREE_EVICTION_CLASSES = [EvOutbid, EvNoCredit]"

definition class_text :: "eviction_class option \<Rightarrow> string" where
  "class_text c = (case c of None \<Rightarrow> ''None'' | Some EvOutbid \<Rightarrow> ''outbid'' | Some EvOndemand \<Rightarrow> ''ondemand_displaced''
     | Some EvHostFailure \<Rightarrow> ''host_failure'' | Some EvHostStop \<Rightarrow> ''host_stop'' | Some EvNoCredit \<Rightarrow> ''no_credit''
     | Some EvUnknown \<Rightarrow> ''unknown'')"

definition strike_kind :: "eviction_class option \<Rightarrow> string" where
  "strike_kind c = (if c = Some EvHostStop then ''host_stop'' else ''host_failure'')"

section \<open>State\<close>

record evicted_rec =
  er_ts :: "secs option"
  er_class :: "eviction_class option"
  er_stops :: int

record repl_rec =
  rr_iid :: string
  rr_from :: string
  rr_ts :: secs
  rr_rental :: rental
  rr_price :: price
  rr_dph :: "price option"
  rr_class :: eviction_class
  rr_died :: "secs option"

datatype refused_why = Decided replacement_reason "string option" | LaunchFailed string "string option"

record evict_ctx = ladder_ctx +
  ev_iid :: string
  ev_evicted :: "int list"
  ev_meta :: "int \<Rightarrow> evicted_rec option"
  ev_pull_bad :: "int list"
  ev_history :: "repl_rec list"
  ev_replacements :: int
  ev_refused :: "refused_why option"
  ev_refusals :: int
  ev_refusals_since :: "secs option"
  ev_refusal_reason :: "string option"
  ev_refusal_ceiling :: "price option"
  ev_anchor :: "price option"
  ev_spend :: price
  ev_max_bid :: "price option"
  ev_market_floor :: "(price \<times> secs) option"
  ev_p_alt :: "(price option \<times> secs) option"
  ev_rebid_rungs :: int
  ev_rebid_refused :: "rebid_reason option"
  ev_rescue_deadline :: "secs option"
  ev_not_live :: nat
  ev_evicted_since :: "secs option"
  ev_last_error :: "string option"

text \<open>What the launch call answers: a contract (absent on a dry run) and its price, or an error.\<close>

datatype launch_answer = Launched "string option" "price option" | LaunchError string

record evict_world =
  ew_now :: secs
  ew_machine :: "int option"
  ew_present :: bool
  ew_storage_day :: "price option"
  ew_budget :: "price option"
  ew_dry_run :: bool
  ew_max_replacements :: int
  ew_ceiling_mult :: rat
  ew_escalation_cap_mult :: rat
  ew_evicted_ttl_s :: secs
  ew_setup_h :: hours
  ew_prior_lifetime_h :: hours
  ew_retention_h :: hours
  ew_rebid_step :: rat
  ew_rebid_max_rungs :: int
  ew_rebid_ceiling_mult :: rat
  ew_rebid_wait_s :: secs
  ew_remaining_h :: "hours option"
  ew_ckpt_h :: hours
  ew_defend :: "string option"
  ew_prior_runtime_h :: "hours option"
  ew_ngpu :: nat
  ew_search :: replacement_search
  ew_od_price :: "int option \<Rightarrow> price option"
  ew_auto_bid :: "price option \<Rightarrow> price option \<Rightarrow> price option"
  ew_train_rate :: "gpu_offer \<Rightarrow> (rat \<times> bool) option"
  ew_family :: bool
  ew_gpu_rate :: "gpu_offer \<Rightarrow> rat option"
  ew_disk_note :: "string option"
  ew_launch :: "gpu_offer \<Rightarrow> price option \<Rightarrow> launch_answer"
  ew_knobs :: host_knobs
  ew_hostrep_on :: bool
  ew_store_saved :: bool
  ew_bid_put :: "string option"

text \<open>The candidates of the two markets, without these machines and under this price.\<close>

definition ew_spot :: "evict_world \<Rightarrow> int set \<Rightarrow> price option \<Rightarrow> gpu_offer list" where
  "ew_spot wd excl cap = job_replacement_offers (ew_search wd) (ew_ngpu wd) excl RentBid cap REPLACEMENT_CANDIDATES"

definition ew_ondemand :: "evict_world \<Rightarrow> int set \<Rightarrow> price option \<Rightarrow> gpu_offer list" where
  "ew_ondemand wd excl cap = job_replacement_offers (ew_search wd) (ew_ngpu wd) excl RentOndemand cap REPLACEMENT_CANDIDATES"

section \<open>The memory of evictions\<close>

definition note_evicted_machine ::
  "evict_world \<Rightarrow> int option \<Rightarrow> eviction_class option \<Rightarrow> secs \<Rightarrow> acct_latch \<Rightarrow> evict_ctx \<times> host_store \<Rightarrow> evict_ctx \<times> host_store" where
  "note_evicted_machine wd machine cls now latch s =
     (case machine of
        None \<Rightarrow> s
      | Some m \<Rightarrow>
         (let (c, st) = s;
              stops = (case ev_meta c m of Some r \<Rightarrow> er_stops r | None \<Rightarrow> 0) + (if cls = Some EvHostStop then 1 else 0);
              c1 = c\<lparr>ev_evicted := List.insert m (ev_evicted c),
                     ev_meta := (ev_meta c)(m \<mapsto> \<lparr>er_ts = Some now, er_class = cls, er_stops = stops\<rparr>)\<rparr>
          in (c1, if (case cls of Some x \<Rightarrow> x \<in> set STRIKE_FREE_EVICTION_CLASSES | None \<Rightarrow> False) then st
                  else snd (note_strike (ew_knobs wd) (ew_hostrep_on wd) latch (Some (int_str m)) (strike_kind cls)
                              None (Some (''eviction class '' @ class_text cls)) (real_of_rat now) (ew_store_saved wd) st))))"

definition evicted_ttl_s :: "evicted_rec \<Rightarrow> secs \<Rightarrow> secs" where
  "evicted_ttl_s r base =
     (if er_class r \<noteq> Some EvHostStop \<or> er_stops r \<le> 1 then base
      else max base (min (base * HOST_STOP_TTL_ESCALATION ^ nat (er_stops r - 1)) HOST_STOP_TTL_MAX_S))"

definition aged_out :: "secs \<Rightarrow> secs \<Rightarrow> evicted_rec option \<Rightarrow> bool" where
  "aged_out ttl now r =
     (case r of None \<Rightarrow> False
      | Some x \<Rightarrow> (case er_class x of Some c \<Rightarrow> c \<in> set EVICTED_TTL_CLASSES | None \<Rightarrow> False)
                  \<and> (case er_ts x of Some ts \<Rightarrow> evicted_ttl_s x ttl \<le> now - ts | None \<Rightarrow> False))"

definition excluded_machines :: "evict_world \<Rightarrow> secs \<Rightarrow> evict_ctx \<Rightarrow> host_store \<Rightarrow> int set" where
  "excluded_machines wd now c st =
     set (ev_pull_bad c) \<union> blocked_machines (ew_knobs wd) (ew_hostrep_on wd) (real_of_rat now) st
       \<union> set (filter (\<lambda>m. \<not> aged_out (ew_evicted_ttl_s wd) now (ev_meta c m)) (ev_evicted c))"

section \<open>The record of replacements\<close>

text \<open>The newest replacement still alive is the one that just died.\<close>

fun mark_first_alive :: "secs \<Rightarrow> repl_rec list \<Rightarrow> repl_rec list" where
  "mark_first_alive now [] = []"
| "mark_first_alive now (r # rs) =
     (if rr_died r = None then r\<lparr>rr_died := Some now\<rparr> # rs else r # mark_first_alive now rs)"

definition note_replacement_death :: "secs \<Rightarrow> repl_rec list \<Rightarrow> repl_rec list" where
  "note_replacement_death now rs = rev (mark_first_alive now (rev rs))"

definition fast_deaths :: "repl_rec list \<Rightarrow> int" where
  "fast_deaths rs = int (length (filter (\<lambda>r. rr_rental r = RentBid \<and>
     (case rr_died r of Some d \<Rightarrow> d - rr_ts r < SPOT_FASTDEATH_S | None \<Rightarrow> False)) rs))"

definition observed_lifetime_h :: "repl_rec list \<Rightarrow> hours option" where
  "observed_lifetime_h rs =
     (let lives = List.map_filter (\<lambda>r. if rr_rental r \<noteq> RentBid then None
                    else case rr_died r of Some d \<Rightarrow> if d \<le> rr_ts r then None else Some ((d - rr_ts r) / 3600)
                                         | None \<Rightarrow> None) rs
      in if lives = [] then None else Some (round4 (median lives)))"

definition note_refusal :: "string \<Rightarrow> price option \<Rightarrow> secs \<Rightarrow> evict_ctx \<Rightarrow> evict_ctx" where
  "note_refusal reason cap now c =
     (let n = ev_refusals c + 1
      in c\<lparr>ev_refusals := n, ev_refusals_since := (if n = 1 then Some now else ev_refusals_since c),
           ev_refusal_reason := Some reason, ev_refusal_ceiling := cap\<rparr>)"

definition clear_refusals :: "evict_ctx \<Rightarrow> evict_ctx" where
  "clear_refusals c = c\<lparr>ev_refusals := 0, ev_refusals_since := None, ev_refusal_reason := None, ev_refusal_ceiling := None\<rparr>"

section \<open>Candidates\<close>

record candidate =
  cd_offer :: gpu_offer
  cd_price :: "price option"
  cd_ondemand :: "price option"
  cd_rate :: "rat option"

definition cd_tpd :: "candidate \<Rightarrow> rat" where
  "cd_tpd c = (case (cd_rate c, cd_price c) of (Some r, Some p) \<Rightarrow> if r = 0 \<or> p = 0 then 0 else r / p | _ \<Rightarrow> 0)"

text \<open>The offers of the box's own width, or all of them when there is none.\<close>

definition replacement_fit :: "nat \<Rightarrow> gpu_offer list \<Rightarrow> gpu_offer list" where
  "replacement_fit ngpu xs =
     (if xs = [] \<or> ngpu = 0 then xs
      else (let exact = filter (\<lambda>x. go_gpus x = Some ngpu) xs in if exact = [] then xs else exact))"

text \<open>Each offer with a floor is priced against its own machine's on-demand rate; one look-up per machine,
  a bounded number of look-ups, and nothing past the first offer that would need one more.\<close>

fun spot_walk ::
  "(int option \<Rightarrow> price option) \<Rightarrow> price option \<Rightarrow> nat \<Rightarrow> (int option \<times> price option) list \<Rightarrow> gpu_offer list
   \<Rightarrow> (gpu_offer \<times> price option \<times> price option) list" where
  "spot_walk look cap left seen [] = []"
| "spot_walk look cap left seen (x # xs) =
     (case pos_opt (go_min_bid x) of
        None \<Rightarrow> spot_walk look cap left seen xs
      | Some fl \<Rightarrow>
         (case map_of seen (go_machine x) of
            Some od \<Rightarrow> (x, bt_price (bid_decision (Some fl) cap od no_opts), od) # spot_walk look cap left seen xs
          | None \<Rightarrow>
             if left = 0 then []
             else (let od = look (go_machine x)
                   in (x, bt_price (bid_decision (Some fl) cap od no_opts), od)
                        # spot_walk look cap (left - 1) ((go_machine x, od) # seen) xs)))"

text \<open>Training rates when every offer has one, card rates otherwise.\<close>

definition rank_rates :: "evict_world \<Rightarrow> gpu_offer list \<Rightarrow> rat option list" where
  "rank_rates wd xs =
     (if ew_family wd \<and> xs \<noteq> [] \<and> list_all (\<lambda>x. ew_train_rate wd x \<noteq> None) xs
      then map (\<lambda>x. map_option fst (ew_train_rate wd x)) xs
      else map (ew_gpu_rate wd) xs)"

definition replacement_spot_walk :: "evict_world \<Rightarrow> price option \<Rightarrow> gpu_offer list \<Rightarrow> candidate list" where
  "replacement_spot_walk wd cap xs =
     (let priced = spot_walk (ew_od_price wd) cap REPLACEMENT_OD_PROBES [] xs
      in map (\<lambda>((x, p, od), r). \<lparr>cd_offer = x, cd_price = p, cd_ondemand = od, cd_rate = r\<rparr>)
           (zip priced (rank_rates wd (map fst priced))))"

definition replacement_ondemand_walk :: "evict_world \<Rightarrow> gpu_offer list \<Rightarrow> candidate list" where
  "replacement_ondemand_walk wd xs =
     (let priced = filter (\<lambda>x. pos_opt (go_dph_total x) \<noteq> None) xs
      in map (\<lambda>(x, r). \<lparr>cd_offer = x, cd_price = go_dph_total x, cd_ondemand = go_dph_total x, cd_rate = r\<rparr>)
           (zip priced (rank_rates wd priced)))"

definition cd_penalty :: "verdict_table \<Rightarrow> candidate \<Rightarrow> real" where
  "cd_penalty vd c = penalty vd (map_option int_str (go_machine (cd_offer c)))"

definition cd_cost :: "verdict_table \<Rightarrow> candidate \<Rightarrow> real" where
  "cd_cost vd c = real_of_rat (dflt 0 (cd_price c)) * cd_penalty vd c"

text \<open>Tokens per dollar over the penalty when every candidate has a rate, price times penalty otherwise.\<close>

definition replacement_rank :: "verdict_table \<Rightarrow> candidate list \<Rightarrow> candidate list" where
  "replacement_rank vd cs =
     (if cs \<noteq> [] \<and> list_all (\<lambda>c. cd_rate c \<noteq> None) cs
      then sort_key (\<lambda>c. (- (real_of_rat (cd_tpd c) / cd_penalty vd c), cd_cost vd c)) cs
      else sort_key (cd_cost vd) cs)"

definition first_of :: "'a list \<Rightarrow> 'a option" where
  "first_of xs = (case xs of [] \<Rightarrow> None | x # _ \<Rightarrow> Some x)"

section \<open>Ceilings and caches\<close>

definition palt_fresh :: "secs \<Rightarrow> evict_ctx \<Rightarrow> price option" where
  "palt_fresh now c =
     (case ev_p_alt c of None \<Rightarrow> None
      | Some (pa, ts) \<Rightarrow> (case pos_opt pa of None \<Rightarrow> None | Some p \<Rightarrow> if P_ALT_MAX_AGE_S < now - ts then None else Some p))"

definition market_floor_fresh :: "secs \<Rightarrow> evict_ctx \<Rightarrow> price option" where
  "market_floor_fresh now c =
     (case ev_market_floor c of None \<Rightarrow> None
      | Some (p, ts) \<Rightarrow> if p \<le> 0 \<or> P_ALT_MAX_AGE_S < now - ts then None else Some p)"

definition replacement_ceiling_of :: "evict_world \<Rightarrow> evict_ctx \<Rightarrow> price option" where
  "replacement_ceiling_of wd c =
     rc_price (replacement_ceiling
       \<lparr>ci_launch_dph_anchor = ev_anchor c, ci_ceiling_mult = ew_ceiling_mult wd,
        ci_market_floor = market_floor_fresh (ew_now wd) c, ci_p_alt = palt_fresh (ew_now wd) c,
        ci_on_demand = lc_on_demand_last c,
        ci_budget_left = map_option (\<lambda>b. round4 (b - ev_spend c)) (ew_budget wd),
        ci_horizon_h = ew_remaining_h wd, ci_escalation_cap_mult = ew_escalation_cap_mult wd,
        ci_cushion_mult = REPLACE_MIN_CUSHION, ci_min_runtime_h = REPLACE_MIN_RUNTIME_H\<rparr>)"

section \<open>The re-bid rung\<close>

datatype ladder_io =
    DBid string price
  | DLaunch gpu_offer rental "price option"
  | DMoveQueue string string
  | DDestroy string
  | DKeep string secs

record evict_state =
  es_ctx :: evict_ctx
  es_hosts :: host_store
  es_bucket :: bucket
  es_io :: "ladder_io list"

definition rebid_in_of :: "evict_world \<Rightarrow> price option \<Rightarrow> price option \<Rightarrow> eviction_class option \<Rightarrow> evict_ctx \<Rightarrow> rebid_in" where
  "rebid_in_of wd market on_demand cls c =
     (mk_rebid_in (lc_last_bid c) market on_demand (ev_max_bid c) (ev_rebid_rungs c) (ev_anchor c))
       \<lparr>ri_eviction_class := cls, ri_budget_usd := ew_budget wd, ri_spend_usd := ev_spend c,
        ri_step := ew_rebid_step wd, ri_max_rungs := ew_rebid_max_rungs wd, ri_ceiling_mult := ew_rebid_ceiling_mult wd,
        ri_p_alt := palt_fresh (ew_now wd) c, ri_remaining_h := ew_remaining_h wd,
        ri_ckpt_interval_h := Some (ew_ckpt_h wd), ri_defend := ew_defend wd,
        ri_prior_runtime_h := ew_prior_runtime_h wd, ri_setup_h := Some (ew_setup_h wd)\<rparr>"

text \<open>Whether the box is kept for now.\<close>

definition job_rebid_ladder ::
  "evict_world \<Rightarrow> price option \<Rightarrow> price option \<Rightarrow> eviction_class option \<Rightarrow> evict_state \<Rightarrow> bool \<times> evict_state" where
  "job_rebid_ladder wd market on_demand cls s =
     (let c = es_ctx s; dec = rebid_ladder (rebid_in_of wd market on_demand cls c)
      in case rb_price dec of
           None \<Rightarrow> (False, s\<lparr>es_ctx := c\<lparr>ev_rebid_refused := Some (rb_reason dec)\<rparr>\<rparr>)
         | Some p \<Rightarrow>
             if ew_dry_run wd then (False, s)
             else (let s1 = s\<lparr>es_io := es_io s @ [DBid (ev_iid c) p]\<rparr>
                   in case ew_bid_put wd of
                        Some err \<Rightarrow> (True, s1\<lparr>es_ctx := c\<lparr>ev_last_error := Some err\<rparr>\<rparr>)
                      | None \<Rightarrow> (True, s1\<lparr>es_ctx := c\<lparr>lc_last_bid := Some p, lc_put_ts := Some (ew_now wd),
                            ev_rebid_rungs := ev_rebid_rungs c + 1, ev_rebid_refused := None,
                            ev_rescue_deadline := Some (ew_now wd + ew_rebid_wait_s wd)\<rparr>\<rparr>)))"

section \<open>The launch\<close>

definition REASON_ACCOUNT_BLOCKED :: string where "REASON_ACCOUNT_BLOCKED = ''account_blocked''"

definition launch_failure_reason :: "string \<Rightarrow> string" where
  "launch_failure_reason err = (if classify (Some err) \<noteq> None then REASON_ACCOUNT_BLOCKED else ''unlaunchable'')"

definition pick_offer :: "evict_world \<Rightarrow> rental \<Rightarrow> int set \<Rightarrow> price option \<Rightarrow> gpu_offer option" where
  "pick_offer wd k excl cap = job_replacement_offer (ew_search wd) (ew_ngpu wd) excl k cap"

text \<open>The bid an interruptible launch makes, and what a launch would bill.\<close>

definition launch_price :: "evict_world \<Rightarrow> rental \<Rightarrow> price option \<Rightarrow> gpu_offer \<Rightarrow> price option" where
  "launch_price wd rental price x =
     (if rental = RentOndemand then None
      else case price of Some q \<Rightarrow> Some q
           | None \<Rightarrow> ew_auto_bid wd (go_min_bid x) (ew_od_price wd (go_machine x)))"

definition launch_pay :: "evict_world \<Rightarrow> rental \<Rightarrow> price option \<Rightarrow> gpu_offer \<Rightarrow> price option" where
  "launch_pay wd rental price x = (if rental = RentOndemand then go_dph_total x else launch_price wd rental price x)"

definition pay_over_ceiling :: "price option \<Rightarrow> price option \<Rightarrow> bool" where
  "pay_over_ceiling cap pay = (case (cap, pay) of (Some m, Some q) \<Rightarrow> m + 1/10^9 < q | _ \<Rightarrow> False)"

definition launch_pick :: "evict_world \<Rightarrow> int set \<Rightarrow> gpu_offer option \<Rightarrow> rental \<Rightarrow> price option \<Rightarrow> gpu_offer option" where
  "launch_pick wd excl offer rental cap = (case offer of Some x \<Rightarrow> Some x | None \<Rightarrow> pick_offer wd rental excl cap)"

text \<open>The contract and its price, or why there is none.\<close>

definition launch_replacement ::
  "evict_world \<Rightarrow> int set \<Rightarrow> gpu_offer option \<Rightarrow> rental \<Rightarrow> price option \<Rightarrow> price option \<Rightarrow> evict_state
   \<Rightarrow> (string + string \<times> price option) \<times> evict_state" where
  "launch_replacement wd excl offer rental price max_dph s =
     (let c = es_ctx s; fail = (\<lambda>why msg. (Inl why, s\<lparr>es_ctx := c\<lparr>ev_last_error := Some msg\<rparr>\<rparr>))
      in case launch_pick wd excl offer rental max_dph of
           None \<Rightarrow> fail ''no_offer'' ''no qualifying replacement offer''
         | Some x \<Rightarrow>
            (let p = launch_price wd rental price x; pay = launch_pay wd rental price x
             in if rental \<noteq> RentOndemand \<and> p = None then fail ''no_offer'' ''replacement offer has no winnable bid price''
                else if pay_over_ceiling max_dph pay
                then (Inl ''over_ceiling'', s\<lparr>es_ctx := c\<lparr>ev_last_error := Some ''over the replacement ceiling'',
                        ev_market_floor := Some (the pay, ew_now wd)\<rparr>\<rparr>)
                else (let s1 = s\<lparr>es_io := es_io s @ [DLaunch x rental p]\<rparr>
                      in case ew_launch wd x p of
                           LaunchError err \<Rightarrow>
                             (Inl (launch_failure_reason err),
                              s1\<lparr>es_ctx := c\<lparr>ev_last_error := Some (''replacement launch failed: '' @ err)\<rparr>\<rparr>)
                         | Launched cid dph \<Rightarrow>
                             (Inr (dflt (''dry-jr-'' @ int_str \<lfloor>ew_now wd\<rfloor>) cid,
                                   case dph of Some d \<Rightarrow> Some d | None \<Rightarrow> launch_pay wd rental price x), s1))))"

section \<open>The replacement\<close>

definition retain_or_destroy :: "evict_world \<Rightarrow> string \<Rightarrow> ladder_io list" where
  "retain_or_destroy wd old =
     (let plan = retention_plan (Some (ew_retention_h wd)) (ew_present wd) (ew_now wd) (ew_storage_day wd)
      in case rt_action plan of
           AlreadyGone \<Rightarrow> []
         | DestroyNow \<Rightarrow> [DDestroy old]
         | Retain \<Rightarrow> [DKeep old (dflt 0 (rt_deadline_ts plan))])"

text \<open>The market as the driver reads it: both candidate lists ranked, the picks, and the reference price.\<close>

record market_read =
  mr_excl :: "int set"
  mr_ceiling :: "price option"
  mr_spot :: "candidate option"
  mr_od :: "gpu_offer option"
  mr_od_ref :: "gpu_offer option"
  mr_disk_note :: "string option"

definition read_market :: "evict_world \<Rightarrow> price option \<Rightarrow> evict_ctx \<Rightarrow> host_store \<Rightarrow> market_read" where
  "read_market wd cap c st =
     (let excl = excluded_machines wd (ew_now wd) c st;
          vd = verdicts (ew_knobs wd) (ew_hostrep_on wd) (real_of_rat (ew_now wd)) st;
          spot = replacement_spot_walk wd cap (replacement_fit (ew_ngpu wd) (ew_spot wd excl cap));
          ranked = replacement_rank vd (filter (\<lambda>x. cd_price x \<noteq> None) spot);
          ods = replacement_rank vd (replacement_ondemand_walk wd (replacement_fit (ew_ngpu wd) (ew_ondemand wd excl cap)));
          od = map_option cd_offer (first_of ods)
      in \<lparr>mr_excl = excl, mr_ceiling = cap,
          mr_spot = (case first_of ranked of Some x \<Rightarrow> Some x | None \<Rightarrow> first_of spot),
          mr_od = od,
          mr_od_ref = (case od of Some x \<Rightarrow> Some x | None \<Rightarrow> pick_offer wd RentOndemand excl None),
          mr_disk_note = (if spot = [] \<and> ods = [] then ew_disk_note wd else None)\<rparr>)"

definition replace_in_of :: "evict_world \<Rightarrow> eviction_class \<Rightarrow> evict_ctx \<Rightarrow> market_read \<Rightarrow> replace_in" where
  "replace_in_of wd cls c mr =
     (mk_replace_in cls (ev_replacements c) (ew_budget wd) (ev_spend c) (ev_anchor c))
       \<lparr>re_offer_min_bid := Option.bind (mr_spot mr) (\<lambda>x. go_min_bid (cd_offer x)),
        re_offer_ondemand := Option.bind (mr_od_ref mr) go_dph_total,
        re_spot_ondemand := Option.bind (mr_spot mr) cd_ondemand,
        re_fast_deaths := fast_deaths (ev_history c), re_max_replacements := ew_max_replacements wd,
        re_ceiling_mult := ew_ceiling_mult wd, re_ceiling := mr_ceiling mr,
        re_observed_lifetime_h := observed_lifetime_h (ev_history c), re_setup_h := Some (ew_setup_h wd),
        re_prior_lifetime_h := Some (ew_prior_lifetime_h wd)\<rparr>"

text \<open>What the context becomes when the watch moves to the new box.\<close>

definition swapped :: "evict_world \<Rightarrow> eviction_class \<Rightarrow> rental \<Rightarrow> price \<Rightarrow> string \<Rightarrow> price option \<Rightarrow> evict_ctx \<Rightarrow> evict_ctx" where
  "swapped wd cls rental price cid dph c =
     (let c1 = clear_refusals (c\<lparr>ev_replacements := ev_replacements c + 1,
                 ev_history := ev_history c @ [\<lparr>rr_iid = cid, rr_from = ev_iid c, rr_ts = ew_now wd, rr_rental = rental,
                    rr_price = price, rr_dph = dph, rr_class = cls, rr_died = None\<rparr>],
                 ev_refused := None\<rparr>);
          bid = (if rental = RentBid then dph else None)
      in box_swap_reset (c1\<lparr>ev_iid := cid, lc_last_bid := bid, lc_first_seen_dph := bid, ev_rescue_deadline := None,
            ev_not_live := 0, ev_rebid_rungs := 0, ev_rebid_refused := None, ev_evicted_since := None\<rparr>) True)"

definition job_eviction_replace ::
  "evict_world \<Rightarrow> JobQueue.world \<Rightarrow> string \<Rightarrow> string list option \<Rightarrow> (string \<Rightarrow> string option) \<Rightarrow> acct_latch
   \<Rightarrow> eviction_class \<Rightarrow> eviction_class option \<Rightarrow> evict_state \<Rightarrow> (py_error + bool) \<times> evict_state" where
  "job_eviction_replace wd w actor listing statuses latch cls exclusion s =
     (let c0 = es_ctx s; old = ev_iid c0;
          c1 = c0\<lparr>ev_history := note_replacement_death (ew_now wd) (ev_history c0)\<rparr>;
          cap = replacement_ceiling_of wd c1;
          (c2, st) = note_evicted_machine wd (ew_machine wd) (Some (dflt cls exclusion)) (ew_now wd) latch (c1, es_hosts s);
          s2 = s\<lparr>es_ctx := c2, es_hosts := st\<rparr>;
          mr = read_market wd cap c2 st
      in case replacement_decision (replace_in_of wd cls c2 mr) of
           Inl e \<Rightarrow> (Inl e, s2)
         | Inr dec \<Rightarrow>
            (case rp_rent dec of
               None \<Rightarrow> (Inr False, s2\<lparr>es_ctx := c2\<lparr>ev_refused := Some (Decided (rp_reason dec) (mr_disk_note mr))\<rparr>\<rparr>)
             | Some (rental, price) \<Rightarrow>
                 if ew_dry_run wd then (Inr False, s2\<lparr>es_ctx := c2\<lparr>ev_refused := None\<rparr>\<rparr>)
                 else
                  (let offer = (if rental = RentOndemand then (case mr_od mr of Some x \<Rightarrow> Some x | None \<Rightarrow> mr_od_ref mr)
                                else map_option cd_offer (mr_spot mr))
                   in case launch_replacement wd (mr_excl mr) offer rental (Some price) cap s2 of
                        (Inl why, s3) \<Rightarrow>
                          (Inr False, s3\<lparr>es_ctx := note_refusal why cap (ew_now wd)
                             ((es_ctx s3)\<lparr>ev_refused := Some (LaunchFailed why (ev_last_error (es_ctx s3)))\<rparr>)\<rparr>)
                      | (Inr (cid, dph), s3) \<Rightarrow>
                          (Inr True, s3\<lparr>es_ctx := swapped wd cls rental price cid dph (es_ctx s3),
                             es_bucket := after (retarget_pending_tickets w old cid ''evicted'' actor listing statuses) (es_bucket s3),
                             es_io := es_io s3 @ DMoveQueue old cid # retain_or_destroy wd old\<rparr>))))"

end
