(* ===== verification/EvictSafety.thy ===== *)
theory EvictSafety
  imports EvictReplace
begin

text \<open>
  What the eviction ladder of \<open>EvictReplace\<close> guarantees, over one run and over any sequence of runs.

  Lemma groups: the walk over the candidates; what a launch can do; the order of a successful
  replacement; what a refused run leaves alone; which machines are never rented; how often a host is
  charged.
\<close>

section \<open>The candidate walk\<close>

lemma spot_walk_priced:
  assumes "list_all (\<lambda>(m, od). od = look m) seen"
  shows "list_all (\<lambda>(x, p, od). x \<in> set xs \<and> od = look (go_machine x)
    \<and> p = bt_price (bid_decision (pos_opt (go_min_bid x)) cap od no_opts)) (spot_walk look cap n seen xs)"
  using assms
proof (induction xs arbitrary: n seen)
  case (Cons x xs)
  have s: "od = look m" if "map_of seen m = Some od" for m od
    using Cons.prems map_of_SomeD [OF that] by (auto simp: list_all_iff)
  have w: "list_all P ys \<Longrightarrow> list_all Q ys" if "\<And>z. P z \<Longrightarrow> Q z" for P Q and ys :: "(gpu_offer \<times> price option \<times> price option) list"
    using that by (simp add: list_all_iff)
  have ih: "list_all (\<lambda>(y, p, od). y \<in> set (x # xs) \<and> od = look (go_machine y)
    \<and> p = bt_price (bid_decision (pos_opt (go_min_bid y)) cap od no_opts)) (spot_walk look cap k sn xs)"
    if "list_all (\<lambda>(m, od). od = look m) sn" for k sn
    by (rule w [OF _ Cons.IH [OF that]]) auto
  show ?case
    using ih [OF Cons.prems] ih [of "(go_machine x, look (go_machine x)) # seen" "n - 1"] Cons.prems
    by (auto simp: Let_def s split: option.split)
qed simp

lemma spot_walk_probes:
  "card (go_machine ` fst ` set (spot_walk look cap n seen xs) - fst ` set seen) \<le> n"
proof (induction xs arbitrary: n seen)
  case (Cons x xs)
  let ?m = "go_machine x"
  show ?case
  proof (cases "pos_opt (go_min_bid x)")
    case None
    then show ?thesis using Cons.IH [of n seen] by simp
  next
    case (Some fl)
    show ?thesis
    proof (cases "map_of seen ?m")
      case None
      let ?w = "spot_walk look cap (n - 1) ((?m, look ?m) # seen) xs"
      let ?A = "go_machine ` fst ` set ?w - insert ?m (fst ` set seen)"
      show ?thesis
      proof (cases "n = 0")
        case False
        have "card (insert ?m ?A) \<le> Suc (card ?A)" by (rule card_insert_le_m1) simp_all
        also have "\<dots> \<le> n" using Cons.IH [of "n - 1" "(?m, look ?m) # seen"] False by simp
        finally have "card (insert ?m ?A) \<le> n" .
        moreover have "go_machine ` fst ` set (spot_walk look cap n seen (x # xs)) - fst ` set seen \<subseteq> insert ?m ?A"
          using Some None False by (auto simp: Let_def)
        ultimately show ?thesis by (meson card_mono finite_imageI finite_set finite_Diff finite_insert le_trans)
      qed (use Some None in simp)
    next
      case (Some od)
      then have "?m \<in> fst ` set seen" using map_of_SomeD by force
      then show ?thesis using Some \<open>pos_opt (go_min_bid x) = Some fl\<close> Cons.IH [of n seen] by (simp add: insert_Diff_if)
    qed
  qed
qed simp

text \<open>The walk over the market is bounded and honest: it looks up the on-demand rate of at most eight
  machines, and prices every candidate against its own machine's rate and its own floor.\<close>

lemma candidate_walk_bounded:
  "card (go_machine ` fst ` set (spot_walk look cap REPLACEMENT_OD_PROBES [] xs)) \<le> 8
   \<and> list_all (\<lambda>(x, p, od). x \<in> set xs \<and> od = look (go_machine x)
        \<and> p = bt_price (bid_decision (pos_opt (go_min_bid x)) cap od no_opts)) (spot_walk look cap REPLACEMENT_OD_PROBES [] xs)"
  using spot_walk_probes [of look cap REPLACEMENT_OD_PROBES "[]" xs] spot_walk_priced [of look "[]" xs cap REPLACEMENT_OD_PROBES]
  by (simp add: REPLACEMENT_OD_PROBES_def)

section \<open>What a launch can do\<close>

text \<open>A launch that fails leaves everything but its error and its market reading; one that goes through
  rented the offer it was given, under the ceiling.\<close>

lemma launch_fails:
  assumes "launch_replacement wd excl offer k price cap s = (Inl why, s')"
  shows "ev_iid (es_ctx s') = ev_iid (es_ctx s) \<and> ev_replacements (es_ctx s') = ev_replacements (es_ctx s)
    \<and> es_bucket s' = es_bucket s \<and> es_hosts s' = es_hosts s
    \<and> (es_io s' = es_io s \<or> (\<exists>x p. es_io s' = es_io s @ [DLaunch x k p] \<and> launch_pick wd excl offer k cap = Some x))"
proof (cases "launch_pick wd excl offer k cap")
  case None
  then show ?thesis using assms by (auto simp: launch_replacement_def Let_def)
next
  case (Some x)
  note d = assms [unfolded launch_replacement_def Let_def Some option.case]
  show ?thesis
  proof (cases "k \<noteq> RentOndemand \<and> launch_price wd k price x = None")
    case True
    then have "s' = s\<lparr>es_ctx := (es_ctx s)\<lparr>ev_last_error := Some ''replacement offer has no winnable bid price''\<rparr>\<rparr>"
      using d by (simp only: if_True simp_thms prod.inject)
    then show ?thesis by simp
  next
    case False
    note d1 = d [unfolded if_not_P [OF False]]
    show ?thesis
    proof (cases "pay_over_ceiling cap (launch_pay wd k price x)")
      case True
      note d2 = d1 [unfolded if_P [OF True] prod.inject]
      show ?thesis unfolding d2 [THEN conjunct2, symmetric] by simp
    next
      case False
      note d2 = d1 [unfolded if_not_P [OF False]]
      show ?thesis
      proof (cases "ew_launch wd x (launch_price wd k price x)")
        case (Launched cid dph)
        then show ?thesis using d2 by simp
      next
        case (LaunchError err)
        note d3 = d2 [unfolded LaunchError launch_answer.case prod.inject]
        show ?thesis unfolding d3 [THEN conjunct2, symmetric] using Some by simp
      qed
    qed
  qed
qed

lemma launch_rents:
  assumes "launch_replacement wd excl offer k price cap s = (Inr (cid, dph), s')"
  shows "\<exists>x. launch_pick wd excl offer k cap = Some x \<and> s' = s\<lparr>es_io := es_io s @ [DLaunch x k (launch_price wd k price x)]\<rparr>
    \<and> \<not> pay_over_ceiling cap (launch_pay wd k price x)"
proof (cases "launch_pick wd excl offer k cap")
  case None
  then show ?thesis using assms by (simp add: launch_replacement_def Let_def)
next
  case (Some x)
  let ?p = "launch_price wd k price x"
  note d = assms [unfolded launch_replacement_def Let_def Some option.case]
  show ?thesis using d Some
    by (cases "k \<noteq> RentOndemand \<and> ?p = None"; cases "pay_over_ceiling cap (launch_pay wd k price x)"; cases "ew_launch wd x ?p") auto
qed

section \<open>One run\<close>

lemma note_evicted_frame:
  "ev_iid (fst (note_evicted_machine wd m cls now l (c, st))) = ev_iid c
   \<and> ev_replacements (fst (note_evicted_machine wd m cls now l (c, st))) = ev_replacements c
   \<and> ev_pull_bad (fst (note_evicted_machine wd m cls now l (c, st))) = ev_pull_bad c
   \<and> ev_spend (fst (note_evicted_machine wd m cls now l (c, st))) = ev_spend c
   \<and> ev_anchor (fst (note_evicted_machine wd m cls now l (c, st))) = ev_anchor c"
  by (simp add: note_evicted_machine_def Let_def split: option.split)

lemma swapped_simps [simp]:
  "ev_iid (swapped wd cls k price cid dph c) = cid"
  "ev_replacements (swapped wd cls k price cid dph c) = ev_replacements c + 1"
  by (simp_all add: swapped_def Let_def clear_refusals_def box_swap_reset_def self_floor_reset_def)

lemma replace_in_of_simps [simp]:
  "re_replacements_used (replace_in_of wd cls c mr) = ev_replacements c"
  "re_max_replacements (replace_in_of wd cls c mr) = ew_max_replacements wd"
  "re_budget_usd (replace_in_of wd cls c mr) = ew_budget wd"
  "re_spend_usd (replace_in_of wd cls c mr) = ev_spend c"
  "re_ceiling (replace_in_of wd cls c mr) = mr_ceiling mr"
  by (simp_all add: replace_in_of_def mk_replace_in_def)

text \<open>The two ways a run can end: everything but the bookkeeping of the refusal is left alone, or the
  whole swap happens.\<close>

definition left_alone :: "evict_state \<Rightarrow> evict_state \<Rightarrow> bool" where
  "left_alone s s' \<longleftrightarrow> ev_iid (es_ctx s') = ev_iid (es_ctx s) \<and> ev_replacements (es_ctx s') = ev_replacements (es_ctx s)
     \<and> es_bucket s' = es_bucket s
     \<and> (es_io s' = es_io s \<or> (\<exists>x k p. es_io s' = es_io s @ [DLaunch x k p]))"

definition box_replaced ::
  "evict_world \<Rightarrow> JobQueue.world \<Rightarrow> string \<Rightarrow> string list option \<Rightarrow> (string \<Rightarrow> string option) \<Rightarrow> evict_state \<Rightarrow> evict_state \<Rightarrow> bool" where
  "box_replaced wd w actor listing statuses s s' \<longleftrightarrow>
     es_bucket s' = after (retarget_pending_tickets w (ev_iid (es_ctx s)) (ev_iid (es_ctx s')) ''evicted'' actor listing statuses) (es_bucket s)
     \<and>
     (\<exists>x k p. es_io s' = es_io s @ [DLaunch x k p, DMoveQueue (ev_iid (es_ctx s)) (ev_iid (es_ctx s'))]
                              @ retain_or_destroy wd (ev_iid (es_ctx s))
        \<and> \<not> pay_over_ceiling (replacement_ceiling_of wd ((es_ctx s)\<lparr>ev_history := note_replacement_death (ew_now wd) (ev_history (es_ctx s))\<rparr>))
              (if k = RentOndemand then go_dph_total x else p))
     \<and> ev_replacements (es_ctx s') = ev_replacements (es_ctx s) + 1
     \<and> ev_replacements (es_ctx s) < ew_max_replacements wd
     \<and> (\<exists>b. ew_budget wd = Some b \<and> 0 < round4 (b - ev_spend (es_ctx s)))"

lemma job_eviction_replaceE:
  assumes "job_eviction_replace wd w actor listing statuses latch cls exclusion s = (r, s')"
  obtains "r \<noteq> Inr True" "left_alone s s'"
  | "r = Inr True" "box_replaced wd w actor listing statuses s s'"
proof -
  let ?c1 = "(es_ctx s)\<lparr>ev_history := note_replacement_death (ew_now wd) (ev_history (es_ctx s))\<rparr>"
  let ?cap = "replacement_ceiling_of wd ?c1"
  obtain c2 st where n: "note_evicted_machine wd (ew_machine wd) (Some (dflt cls exclusion)) (ew_now wd) latch (?c1, es_hosts s) = (c2, st)"
    by force
  have f: "ev_iid c2 = ev_iid (es_ctx s)" "ev_replacements c2 = ev_replacements (es_ctx s)" "ev_spend c2 = ev_spend (es_ctx s)"
    using note_evicted_frame [of wd "ew_machine wd" "Some (dflt cls exclusion)" "ew_now wd" latch ?c1 "es_hosts s"] n by simp_all
  let ?s2 = "s\<lparr>es_ctx := c2, es_hosts := st\<rparr>" let ?mr = "read_market wd ?cap c2 st"
  note d = assms [unfolded job_eviction_replace_def Let_def n prod.case]
  show thesis
  proof (cases "replacement_decision (replace_in_of wd cls c2 ?mr)")
    case (Inl e)
    then show thesis using d f that(1) by (auto simp: left_alone_def)
  next
    case dec: (Inr dec)
    show thesis
    proof (cases "rp_rent dec")
      case None
      then show thesis using d dec f that(1) by (auto simp: left_alone_def)
    next
      case (Some kp)
      obtain k price where kp: "kp = (k, price)" by force
      note aff = replacement_decision_affordable [OF dec Some [unfolded kp]]
      let ?off = "if k = RentOndemand then (case mr_od ?mr of Some x \<Rightarrow> Some x | None \<Rightarrow> mr_od_ref ?mr) else map_option cd_offer (mr_spot ?mr)"
      obtain res s3 where l: "launch_replacement wd (mr_excl ?mr) ?off k (Some price) ?cap ?s2 = (res, s3)" by force
      note d = d [unfolded dec sum.case Some option.case kp prod.case l]
      show thesis
      proof (cases "ew_dry_run wd")
        case True
        then show thesis using d f that(1) by (auto simp: left_alone_def)
      next
        case False
        show thesis
        proof (cases res)
          case (Inl why)
          note h = launch_fails [OF l [unfolded Inl]]
          have "r \<noteq> Inr True" using d False Inl by auto
          moreover have "left_alone s s'" using d False Inl h f by (auto simp: left_alone_def note_refusal_def Let_def)
          ultimately show thesis by (rule that(1))
        next
          case (Inr cd)
          obtain cid dph where cd: "cd = (cid, dph)" by force
          obtain x where h: "s3 = ?s2\<lparr>es_io := es_io s @ [DLaunch x k (launch_price wd k (Some price) x)]\<rparr>"
              "\<not> pay_over_ceiling ?cap (launch_pay wd k (Some price) x)"
            using launch_rents [OF l [unfolded Inr cd]] by auto
          have p: "launch_pay wd k (Some price) x = (if k = RentOndemand then go_dph_total x else launch_price wd k (Some price) x)"
            by (simp add: launch_pay_def)
          have r: "r = Inr True" using d False Inr cd by simp
          have "es_io s' = es_io s @ [DLaunch x k (launch_price wd k (Some price) x), DMoveQueue (ev_iid (es_ctx s)) (ev_iid (es_ctx s'))]
              @ retain_or_destroy wd (ev_iid (es_ctx s))" "ev_replacements (es_ctx s') = ev_replacements (es_ctx s) + 1"
              "es_bucket s' = after (retarget_pending_tickets w (ev_iid (es_ctx s)) (ev_iid (es_ctx s')) ''evicted'' actor listing statuses) (es_bucket s)"
            using d False Inr cd h(1) f by auto
          then have "box_replaced wd w actor listing statuses s s'" unfolding box_replaced_def using h(2) aff f by (auto simp: p)
          moreover note r
          ultimately show thesis by (metis that(2))
        qed
      qed
    qed
  qed
qed

text \<open>C24. An eviction is answered completely or not at all. When the run reports a replacement, it rented one
  offer within the ceiling, put the queue of the lost box through the bulk move to the new one, and only then
  disposed of the lost box, with the cap on replacements and the budget both still open and one replacement
  charged. Otherwise the watched box, the count and the queue are untouched and nothing but a refused rental
  was sent.\<close>

theorem eviction_replaced_or_left_alone:
  assumes "job_eviction_replace wd w actor listing statuses latch cls exclusion s = (r, s')"
  shows "if r = Inr True then box_replaced wd w actor listing statuses s s' else left_alone s s'"
  using assms by (rule job_eviction_replaceE) simp_all

text \<open>A replacement takes its jobs along. When a run reports a replacement and the bucket serves every call,
  each listed ticket of the lost box whose job may move is afterwards queued at the new box, marked with
  where it came from, and no longer at the old one (contracts differ, file keys and tickets agree).\<close>

lemma replacement_takes_the_queue:
  assumes "job_eviction_replace wd w actor listing statuses latch cls exclusion s = (Inr True, s')"
    "served w" "keyed (es_bucket s)" "ev_iid (es_ctx s') \<noteq> ev_iid (es_ctx s)"
    "list_queue listing = Some jids" "distinct jids" "list_all job_id_ok jids" "jid \<in> set jids"
    "readable (bk_queue (es_bucket s) (ev_iid (es_ctx s), jid)) = Some t" "moves_at_any_time w t (statuses jid)"
  shows "bk_queue (es_bucket s') (ev_iid (es_ctx s'), jid) = Some (Body (moved_ticket (ev_iid (es_ctx s)) (ev_iid (es_ctx s')) t))
    \<and> bk_queue (es_bucket s') (ev_iid (es_ctx s), jid) = None"
  using assms(1)
proof (rule job_eviction_replaceE)
  assume "box_replaced wd w actor listing statuses s s'"
  then have "es_bucket s' = after (retarget_pending_tickets w (ev_iid (es_ctx s)) (ev_iid (es_ctx s')) ''evicted'' actor listing statuses) (es_bucket s)"
    by (simp add: box_replaced_def)
  then show ?thesis using bulk_move_moves [where statuses = statuses, OF assms(2) assms(4) [symmetric] assms(3,5-10)] by simp
qed simp

section \<open>Any sequence of runs\<close>

text \<open>A watch: runs of the ladder and of its re-bid rung, and between them anything that leaves the count and
  the record of calls alone (a bid moves, the spend grows, a poll refreshes a price).\<close>

inductive eviction_watch :: "int \<Rightarrow> evict_state \<Rightarrow> evict_state \<Rightarrow> bool" for n where
  watch_start: "eviction_watch n s s"
| watch_replace: "eviction_watch n s s1 \<Longrightarrow> ew_max_replacements wd = n
    \<Longrightarrow> job_eviction_replace wd w actor listing statuses latch cls exclusion s1 = (r, s2) \<Longrightarrow> eviction_watch n s s2"
| watch_rebid: "eviction_watch n s s1 \<Longrightarrow> job_rebid_ladder wd market on_demand cls s1 = (kept, s2) \<Longrightarrow> eviction_watch n s s2"
| watch_other: "eviction_watch n s s1 \<Longrightarrow> ev_replacements (es_ctx s2) = ev_replacements (es_ctx s1)
    \<Longrightarrow> es_io s2 = es_io s1 \<Longrightarrow> eviction_watch n s s2"

definition is_queue_move :: "ladder_io \<Rightarrow> bool" where
  "is_queue_move x = (case x of DMoveQueue _ _ \<Rightarrow> True | _ \<Rightarrow> False)"

definition moves_of :: "evict_state \<Rightarrow> int" where
  "moves_of s = int (length (filter is_queue_move (es_io s)))"

lemma rebid_keeps:
  assumes "job_rebid_ladder wd market on_demand cls s = (kept, s')"
  shows "ev_replacements (es_ctx s') = ev_replacements (es_ctx s) \<and> moves_of s' = moves_of s"
  using assms
  by (auto simp: job_rebid_ladder_def Let_def moves_of_def is_queue_move_def split: option.splits if_splits)

lemma retain_is_no_move: "filter is_queue_move (retain_or_destroy wd old) = []"
  by (simp add: retain_or_destroy_def Let_def is_queue_move_def split: retention_action.split)

lemma replace_counts:
  assumes "job_eviction_replace wd w actor listing statuses latch cls exclusion s = (r, s')"
  shows "moves_of s' - moves_of s = ev_replacements (es_ctx s') - ev_replacements (es_ctx s)
    \<and> (ev_replacements (es_ctx s') = ev_replacements (es_ctx s) \<or> ev_replacements (es_ctx s') \<le> ew_max_replacements wd)"
  using assms
proof (rule job_eviction_replaceE)
  assume "left_alone s s'"
  then show ?thesis by (auto simp: left_alone_def moves_of_def is_queue_move_def)
next
  assume "box_replaced wd w actor listing statuses s s'"
  then show ?thesis by (auto simp: box_replaced_def moves_of_def is_queue_move_def retain_is_no_move)
qed

lemma watch_counts:
  assumes "eviction_watch n s s'"
  shows "moves_of s' - moves_of s = ev_replacements (es_ctx s') - ev_replacements (es_ctx s)
    \<and> (ev_replacements (es_ctx s') = ev_replacements (es_ctx s) \<or> ev_replacements (es_ctx s') \<le> n)"
  using assms
proof induction
  case (watch_replace s s1 wd w actor listing statuses latch cls exclusion r s2)
  then show ?case using replace_counts [OF watch_replace.hyps(3)] by auto
next
  case (watch_rebid s s1 wd market on_demand cls kept s2)
  then show ?case using rebid_keeps [OF watch_rebid.hyps(2)] by auto
next
  case (watch_other s s1 s2)
  then show ?case by (simp add: moves_of_def)
qed simp

text \<open>However many runs a watch makes and however they end, it swaps boxes no more often than the cap on
  replacements allows, and its count is exactly the number of swaps it made.\<close>

lemma replacements_capped_over_a_watch:
  assumes "eviction_watch n s s'" "ev_replacements (es_ctx s) = 0" "es_io s = []" "0 \<le> n"
  shows "moves_of s' = ev_replacements (es_ctx s') \<and> moves_of s' \<le> n"
  using watch_counts [OF assms(1)] assms(2-4) by (auto simp: moves_of_def)

section \<open>The machines that are never rented\<close>

text \<open>An offer that some search of this world, with these exclusions, hands back.\<close>

definition offered :: "evict_world \<Rightarrow> int set \<Rightarrow> gpu_offer \<Rightarrow> bool" where
  "offered wd e x \<longleftrightarrow> (\<exists>k cap j. x \<in> set (job_replacement_offers (ew_search wd) (ew_ngpu wd) e k cap j))"

lemma offered_here: "x \<in> set (ew_spot wd e cap) \<Longrightarrow> offered wd e x" "x \<in> set (ew_ondemand wd e cap) \<Longrightarrow> offered wd e x"
  by (auto simp: offered_def ew_spot_def ew_ondemand_def)

lemma first_of_mem: "first_of xs = Some x \<Longrightarrow> x \<in> set xs"
  by (simp add: first_of_def split: list.splits)

lemma replacement_rank_set [simp]: "set (replacement_rank vd cs) = set cs"
  by (simp add: replacement_rank_def)

lemma replacement_fit_sub: "x \<in> set (replacement_fit n xs) \<Longrightarrow> x \<in> set xs"
  by (auto simp: replacement_fit_def Let_def split: if_splits)

lemma spot_candidate_mem:
  assumes "c \<in> set (replacement_spot_walk wd cap xs)"
  shows "cd_offer c \<in> set xs"
proof -
  obtain x p od where "(x, p, od) \<in> set (spot_walk (ew_od_price wd) cap REPLACEMENT_OD_PROBES [] xs)" "cd_offer c = x"
    using assms by (auto simp: replacement_spot_walk_def Let_def dest: set_zip_leftD)
  then show ?thesis using spot_walk_priced [of "ew_od_price wd" "[]" xs cap REPLACEMENT_OD_PROBES]
    by (fastforce simp: list_all_iff)
qed

lemma ondemand_candidate_mem: "c \<in> set (replacement_ondemand_walk wd xs) \<Longrightarrow> cd_offer c \<in> set xs"
  by (auto simp: replacement_ondemand_walk_def Let_def dest: set_zip_leftD)

lemma pick_offer_mem: "pick_offer wd k e cap = Some x \<Longrightarrow> offered wd e x"
proof -
  assume "pick_offer wd k e cap = Some x"
  then obtain ys where "job_replacement_offers (ew_search wd) (ew_ngpu wd) e k cap 1 = x # ys"
    by (auto simp: pick_offer_def job_replacement_offer_def split: list.splits)
  then have "x \<in> set (job_replacement_offers (ew_search wd) (ew_ngpu wd) e k cap 1)" by simp
  then show ?thesis unfolding offered_def by blast
qed

lemma read_market_mem:
  assumes "mr = read_market wd cap c st"
  shows "mr_excl mr = excluded_machines wd (ew_now wd) c st"
    and "mr_spot mr = Some cd \<Longrightarrow> offered wd (mr_excl mr) (cd_offer cd)"
    and "mr_od mr = Some x \<Longrightarrow> offered wd (mr_excl mr) x"
    and "mr_od_ref mr = Some y \<Longrightarrow> offered wd (mr_excl mr) y"
proof -
  have o: "offered wd (excluded_machines wd (ew_now wd) c st) z"
    if "map_option cd_offer (first_of (replacement_rank vd (replacement_ondemand_walk wd
          (replacement_fit (ew_ngpu wd) (ew_ondemand wd (excluded_machines wd (ew_now wd) c st) cap))))) = Some z" for z vd
    using that by (auto dest!: first_of_mem ondemand_candidate_mem replacement_fit_sub offered_here(2))
  show "mr_excl mr = excluded_machines wd (ew_now wd) c st" by (simp add: assms read_market_def Let_def)
  show "offered wd (mr_excl mr) (cd_offer cd)" if "mr_spot mr = Some cd"
    using that unfolding assms read_market_def Let_def
    by (auto split: option.splits dest!: first_of_mem spot_candidate_mem replacement_fit_sub offered_here(1))
  show "offered wd (mr_excl mr) x" if "mr_od mr = Some x"
    using that o by (auto simp: assms read_market_def Let_def)
  show "offered wd (mr_excl mr) y" if "mr_od_ref mr = Some y"
  proof (cases "mr_od mr")
    case None
    then have "pick_offer wd RentOndemand (mr_excl mr) None = Some y" using that
      by (simp add: assms read_market_def Let_def)
    then show ?thesis using pick_offer_mem by blast
  next
    case (Some z)
    then have "y = z" using that by (auto simp: assms read_market_def Let_def)
    then show ?thesis using Some o by (auto simp: assms read_market_def Let_def)
  qed
qed

lemma driver_pick_mem:
  assumes "mr = read_market wd cap c st" "launch_pick wd (mr_excl mr) offer k cap = Some x"
    "offer = (if k = RentOndemand then (case mr_od mr of Some x \<Rightarrow> Some x | None \<Rightarrow> mr_od_ref mr) else map_option cd_offer (mr_spot mr))"
  shows "offered wd (excluded_machines wd (ew_now wd) c st) x"
proof -
  note m = read_market_mem [OF assms(1)]
  have "offered wd (mr_excl mr) x"
  proof (cases offer)
    case None
    then show ?thesis using assms(2) pick_offer_mem by (simp add: launch_pick_def)
  next
    case (Some y)
    then have x: "x = y" using assms(2) by (simp add: launch_pick_def)
    show ?thesis
    proof (cases "k = RentOndemand")
      case True
      then show ?thesis using assms(3) Some x m(3,4) by (cases "mr_od mr") auto
    next
      case False
      then obtain cd where "mr_spot mr = Some cd" "cd_offer cd = x" using assms(3) Some x by (cases "mr_spot mr") auto
      then show ?thesis using m(2) by blast
    qed
  qed
  then show ?thesis by (simp only: m(1))
qed

lemma launched_offer:
  assumes "job_eviction_replace wd w actor listing statuses latch cls exclusion s = (r, s')"
    "(c2, st) = note_evicted_machine wd (ew_machine wd) (Some (dflt cls exclusion)) (ew_now wd) latch
       ((es_ctx s)\<lparr>ev_history := note_replacement_death (ew_now wd) (ev_history (es_ctx s))\<rparr>, es_hosts s)"
    "es_io s' = es_io s @ DLaunch x k p # rest"
  shows "es_hosts s' = st \<and> offered wd (excluded_machines wd (ew_now wd) c2 st) x"
proof -
  let ?cap = "replacement_ceiling_of wd ((es_ctx s)\<lparr>ev_history := note_replacement_death (ew_now wd) (ev_history (es_ctx s))\<rparr>)"
  let ?s2 = "s\<lparr>es_ctx := c2, es_hosts := st\<rparr>" let ?mr = "read_market wd ?cap c2 st"
  let ?off = "\<lambda>k. if k = RentOndemand then (case mr_od ?mr of Some x \<Rightarrow> Some x | None \<Rightarrow> mr_od_ref ?mr) else map_option cd_offer (mr_spot ?mr)"
  note d = assms(1) [unfolded job_eviction_replace_def Let_def assms(2) [symmetric] prod.case]
  obtain dec where dec: "replacement_decision (replace_in_of wd cls c2 ?mr) = Inr dec"
    using d assms(3) by (cases "replacement_decision (replace_in_of wd cls c2 ?mr)") auto
  obtain k' price where kp: "rp_rent dec = Some (k', price)"
    using d assms(3) dec by (cases "rp_rent dec") auto
  have dry: "\<not> ew_dry_run wd" using d assms(3) dec kp by auto
  obtain res s3 where l: "launch_replacement wd (mr_excl ?mr) (?off k') k' (Some price) ?cap ?s2 = (res, s3)" by force
  note d = d [unfolded dec sum.case kp option.case prod.case l if_not_P [OF dry]]
  show ?thesis
  proof (cases res)
    case (Inl why)
    note h = launch_fails [OF l [unfolded Inl]]
    have "es_io s' = es_io s3" "es_hosts s' = es_hosts s3" using d Inl by auto
    then have "es_hosts s' = st \<and> launch_pick wd (mr_excl ?mr) (?off k') k' ?cap = Some x" using h assms(3) by auto
    then show ?thesis using driver_pick_mem [OF refl _ refl] by blast
  next
    case (Inr cd)
    obtain cid dph where cd: "cd = (cid, dph)" by force
    obtain y where y: "launch_pick wd (mr_excl ?mr) (?off k') k' ?cap = Some y"
        "s3 = ?s2\<lparr>es_io := es_io s @ [DLaunch y k' (launch_price wd k' (Some price) y)]\<rparr>"
      using launch_rents [OF l [unfolded Inr cd]] by auto
    then have "y = x" "es_hosts s' = st" using d Inr cd assms(3) by auto
    then show ?thesis using y(1) driver_pick_mem [OF refl _ refl] by blast
  qed
qed

lemma lost_machine_excluded:
  assumes "(c2, st) = note_evicted_machine wd (Some m) cls (ew_now wd) latch (c, st0)" "0 < ew_evicted_ttl_s wd"
  shows "m \<in> excluded_machines wd (ew_now wd) c2 st'"
proof -
  have "ew_evicted_ttl_s wd \<le> evicted_ttl_s r (ew_evicted_ttl_s wd)" for r by (simp add: evicted_ttl_s_def)
  then have "\<not> evicted_ttl_s r (ew_evicted_ttl_s wd) \<le> 0" for r using assms(2) by (meson less_le_trans not_le)
  then have "\<not> aged_out (ew_evicted_ttl_s wd) (ew_now wd) (ev_meta c2 m)" "m \<in> set (ev_evicted c2)"
    using assms(1) by (auto simp: note_evicted_machine_def Let_def aged_out_def)
  then show ?thesis by (simp add: excluded_machines_def)
qed

text \<open>C25. A replacement is never rented on the machine just lost, on one whose image pull went bad, or on one the
  durable memory blocks, the strike of this eviction included. Supposed: vast keeps machines named in a
  query's machine filter out of its answer, and the exclusion time of lost machines (an operator's knob) is
  positive.\<close>

theorem excluded_machines_never_rented:
  assumes "job_eviction_replace wd w actor listing statuses latch cls exclusion s = (r, s')"
    "es_io s' = es_io s @ DLaunch x k p # rest" "honours_notin (rs_market (ew_search wd))" "0 < ew_evicted_ttl_s wd"
  shows "go_machine x \<notin> Some ` (set (ev_pull_bad (es_ctx s)) \<union> set_option (ew_machine wd)
    \<union> blocked_machines (ew_knobs wd) (ew_hostrep_on wd) (real_of_rat (ew_now wd)) (es_hosts s'))"
proof -
  let ?c1 = "(es_ctx s)\<lparr>ev_history := note_replacement_death (ew_now wd) (ev_history (es_ctx s))\<rparr>"
  obtain c2 st where n: "(c2, st) = note_evicted_machine wd (ew_machine wd) (Some (dflt cls exclusion)) (ew_now wd) latch (?c1, es_hosts s)"
    by (metis surj_pair)
  let ?e = "excluded_machines wd (ew_now wd) c2 st"
  have off: "offered wd ?e x" and st: "es_hosts s' = st" using launched_offer [OF assms(1) n assms(2)] by simp_all
  have "finite ?e" by (simp add: excluded_machines_def blocked_machines_def)
  then have "go_machine x \<notin> Some ` ?e" using off excluded_never_offered [OF assms(3)] unfolding offered_def by blast
  moreover have "ev_pull_bad c2 = ev_pull_bad (es_ctx s)"
    using note_evicted_frame [of wd "ew_machine wd" "Some (dflt cls exclusion)" "ew_now wd" latch ?c1 "es_hosts s"] n [symmetric] by simp
  moreover have "set_option (ew_machine wd) \<subseteq> ?e"
    using n lost_machine_excluded [OF _ assms(4)] by (cases "ew_machine wd") auto
  ultimately show ?thesis by (auto simp: excluded_machines_def st)
qed

section \<open>How often a host is charged\<close>

lemma refused_run:
  assumes "job_eviction_replace wd w actor listing statuses latch cls (Some EvHostStop) s = (r, s')" "ew_budget wd = None"
    "ew_machine wd = Some m" "ew_knobs wd = HOSTREP_DEFAULTS" "ew_hostrep_on wd" "ew_store_saved wd"
  shows "es_hosts s' = snd (note_strike HOSTREP_DEFAULTS True latch (Some (int_str m)) ''host_stop'' None
      (Some ''eviction class host_stop'') (real_of_rat (ew_now wd)) True (es_hosts s))
    \<and> r = Inr False \<and> es_io s' = es_io s"
  using assms
  by (auto simp: job_eviction_replace_def Let_def note_evicted_machine_def replacement_decision_def STRIKE_FREE_EVICTION_CLASSES_def
      strike_kind_def class_text_def)

text \<open>One loss, ticked twice, condemns the host: with the replacement refused for want of a budget, the
  second run on the same lost box records a second strike for the same stop, and that blocks the machine.\<close>

lemma one_stop_charged_per_tick:
  assumes "job_eviction_replace wd w actor listing statuses None cls (Some EvHostStop) s = (r, s1)"
    "job_eviction_replace wd' w' actor' listing' statuses' None cls' (Some EvHostStop) s1 = (r', s2)"
    "ew_budget wd = None" "ew_machine wd = Some m" "ew_knobs wd = HOSTREP_DEFAULTS" "ew_hostrep_on wd" "ew_store_saved wd"
    "ew_budget wd' = None" "ew_machine wd' = Some m" "ew_knobs wd' = HOSTREP_DEFAULTS" "ew_hostrep_on wd'" "ew_store_saved wd'"
    "map_of (es_hosts s) (int_str m) = None" "0 \<le> ew_now wd" "ew_now wd \<le> ew_now wd'" "ew_now wd' \<le> ew_now wd + 86400"
  shows "r = Inr False \<and> r' = Inr False
    \<and> map_option (blocked_rec HOSTREP_DEFAULTS (real_of_rat (ew_now wd))) (map_of (es_hosts s1) (int_str m)) = Some None
    \<and> map_option (blocked_rec HOSTREP_DEFAULTS (real_of_rat (ew_now wd'))) (map_of (es_hosts s2) (int_str m)) \<noteq> Some None"
proof -
  have "real_of_rat (ew_now wd') \<le> real_of_rat (ew_now wd + 86400)" using assms(16) by (simp only: of_rat_less_eq)
  then have t: "real_of_rat (ew_now wd') \<le> real_of_rat (ew_now wd) + DAY_S" by (simp add: of_rat_add DAY_S_def)
  note a = refused_run [OF assms(1,3-7)] and b = refused_run [OF assms(2,8-12)]
  have "0 \<le> real_of_rat (ew_now wd)" using assms(14) by simp
  then have "map_option (blocked_rec HOSTREP_DEFAULTS (real_of_rat (ew_now wd))) (map_of (es_hosts s1) (int_str m)) = Some None
    \<and> map_of (es_hosts s2) (int_str m) \<noteq> None
    \<and> map_option (blocked_rec HOSTREP_DEFAULTS (real_of_rat (ew_now wd'))) (map_of (es_hosts s2) (int_str m)) \<noteq> Some None"
    using a [THEN conjunct1] b [THEN conjunct1] assms(15) t
    by (intro two_stops_block [OF assms(13)]) (auto simp: of_rat_less_eq DAY_S_def)
  then show ?thesis using a b by simp
qed

section \<open>A demonstration\<close>

text \<open>A box on machine 5 is evicted; the market has one on-demand offer, on machine 9.\<close>

definition demo_evict :: "price option \<Rightarrow> secs \<Rightarrow> bool \<Rightarrow> evict_world" where
  "demo_evict budget now on =
     \<lparr>ew_now = now, ew_machine = Some 5, ew_present = True, ew_storage_day = None, ew_budget = budget, ew_dry_run = False,
      ew_max_replacements = 1, ew_ceiling_mult = 2, ew_escalation_cap_mult = 3, ew_evicted_ttl_s = 1800, ew_setup_h = 0,
      ew_prior_lifetime_h = 1, ew_retention_h = 0, ew_rebid_step = 1, ew_rebid_max_rungs = 0, ew_rebid_ceiling_mult = 1,
      ew_rebid_wait_s = 60, ew_remaining_h = None, ew_ckpt_h = 1, ew_defend = None, ew_prior_runtime_h = None, ew_ngpu = 1,
      ew_search = demo_search [demo_offer], ew_od_price = (\<lambda>_. None),
      ew_auto_bid = (\<lambda>_ _. None), ew_train_rate = (\<lambda>_. None), ew_family = False, ew_gpu_rate = (\<lambda>_. None),
      ew_disk_note = None, ew_launch = (\<lambda>_ _. Launched (Some ''8'') (Some 1)), ew_knobs = HOSTREP_DEFAULTS,
      ew_hostrep_on = on, ew_store_saved = True, ew_bid_put = None\<rparr>"

definition demo_state :: evict_state where
  "demo_state = \<lparr>es_ctx = ladder_ctx.extend (\<lparr>lc_last_bid = None, lc_bid_history = [], lc_self_floor_at = None,
       lc_self_floor_since = None, lc_self_floor_sustained_said = False, lc_scaled_floor_said = False, lc_on_demand_last = None,
       lc_put_ts = None, lc_first_seen_dph = None, lc_now = 0\<rparr>)
     \<lparr>ev_iid = ''7'', ev_evicted = [], ev_meta = (\<lambda>_. None), ev_pull_bad = [], ev_history = [], ev_replacements = 0,
      ev_refused = None, ev_refusals = 0, ev_refusals_since = None, ev_refusal_reason = None, ev_refusal_ceiling = None,
      ev_anchor = Some 1, ev_spend = 0, ev_max_bid = None, ev_market_floor = None, ev_p_alt = None, ev_rebid_rungs = 0,
      ev_rebid_refused = None, ev_rescue_deadline = None, ev_not_live = 0, ev_evicted_since = None, ev_last_error = None\<rparr>,
    es_hosts = [], es_bucket = demo_bucket [], es_io = []\<rparr>"

definition demo_run :: "price option \<Rightarrow> secs \<Rightarrow> bool \<Rightarrow> evict_state \<Rightarrow> (py_error + bool) \<times> evict_state" where
  "demo_run budget now on = job_eviction_replace (demo_evict budget now on) (demo_world (\<lambda>_. Served)) ''fleetd'' (Some [])
     (\<lambda>_. None) None EvHostStop (Some EvHostStop)"

lemma demo_result:
  "es_io (snd (demo_run (Some 100) 0 False demo_state)) = [DLaunch demo_offer RentOndemand None, DMoveQueue ''7'' ''8'', DDestroy ''7'']
   \<and> fst (demo_run (Some 100) 0 False demo_state) = Inr True"
  by code_simp

lemmas demo_io = demo_result [THEN conjunct1]

lemma demo_run_eq:
  "job_eviction_replace (demo_evict budget now on) (demo_world (\<lambda>_. Served)) ''fleetd'' (Some []) (\<lambda>_. None) None EvHostStop
     (Some EvHostStop) s = (fst (demo_run budget now on s), snd (demo_run budget now on s))"
  by (simp add: demo_run_def)

text \<open>The same run with one job in the queue of the lost box.\<close>

definition moving_run :: "(py_error + bool) \<times> evict_state" where
  "moving_run = job_eviction_replace (demo_evict (Some 100) 0 False) (demo_world (\<lambda>_. Served)) ''fleetd'' (Some [''j1.json''])
     (\<lambda>_. None) None EvHostStop (Some EvHostStop) demo_state"

lemma moving_result: "fst moving_run = Inr True \<and> ev_iid (es_ctx (snd moving_run)) = ''8''"
  by code_simp

lemma demo_after: "fst (demo_run (Some 100) 0 False demo_state) = Inr True"
  "es_io demo_state = []" "ev_replacements (es_ctx demo_state) = 0" "ev_iid (es_ctx demo_state) = ''7''"
  by (simp_all add: demo_result) (simp_all add: demo_state_def ladder_ctx.defs)

lemma eviction_replaced_or_left_alone_witness:
  "box_replaced (demo_evict (Some 100) 0 False) (demo_world (\<lambda>_. Served)) ''fleetd'' (Some []) (\<lambda>_. None) demo_state (snd (demo_run (Some 100) 0 False demo_state))"
  using eviction_replaced_or_left_alone [OF demo_run_eq, of "Some 100" 0 False demo_state]
  by (simp add: demo_after)

lemma replacement_takes_the_queue_witness:
  "bk_queue (es_bucket (snd (moving_run))) (''8'', ''j1'') = Some (Body (moved_ticket ''7'' ''8'' demo_ticket))"
proof -
  have m: "moves_at_any_time (demo_world (\<lambda>_. Served)) demo_ticket None"
    unfolding moves_at_any_time_def demo_world_def by simp code_simp
  have l: "list_queue (Some [''j1.json'']) = Some [''j1'']" by code_simp
  have r: "moving_run = (Inr True, snd moving_run)" using moving_result by (metis prod.collapse)
  show ?thesis
    using replacement_takes_the_queue [OF r [unfolded moving_run_def] demo_served _ _ l, where t = demo_ticket] m moving_result
      demo_keyed demo_job_id
    by (simp add: demo_after demo_bucket_def moving_run_def) (simp add: demo_state_def demo_bucket_def)
qed

lemma excluded_machines_never_rented_witness:
  "go_machine demo_offer \<notin> Some ` {5}"
proof -
  have "es_io (snd (demo_run (Some 100) 0 False demo_state)) = es_io demo_state
      @ DLaunch demo_offer RentOndemand None # [DMoveQueue ''7'' ''8'', DDestroy ''7'']"
    by (simp add: demo_io demo_after)
  moreover have "honours_notin (rs_market (ew_search (demo_evict (Some 100) 0 False)))" "0 < ew_evicted_ttl_s (demo_evict (Some 100) 0 False)"
    using demo_honours by (simp_all add: demo_evict_def)
  ultimately have "go_machine demo_offer \<notin> Some ` (set (ev_pull_bad (es_ctx demo_state)) \<union> set_option (ew_machine (demo_evict (Some 100) 0 False))
    \<union> blocked_machines (ew_knobs (demo_evict (Some 100) 0 False)) (ew_hostrep_on (demo_evict (Some 100) 0 False))
        (real_of_rat (ew_now (demo_evict (Some 100) 0 False))) (es_hosts (snd (demo_run (Some 100) 0 False demo_state))))"
    by (rule excluded_machines_never_rented [OF demo_run_eq])
  then show ?thesis by (simp add: demo_evict_def)
qed

end
