(* ===== verification/FleetState.thy ===== *)
theory FleetState
  imports JobFold "HOL-Library.AList"
begin

text \<open>
  The state of the fleet daemon (\<open>tools/vast/vastlib/fleet/daemon.py\<close>, class \<open>Fleet\<close>) and its
  operations on watches, spend ceilings and requests; the label grammar (\<open>core/labels.py\<close>) and the
  pure readings of \<open>fleet/rows.py\<close> they use. Watches, strays and destroy requests are association
  lists in the order of the code's dicts. The journal, the latched alarms and the policy dict that
  is only handed to the ladder are left out.

  Lemma groups: label round trips; what an operation leaves alone; the spend of a ceiling never goes
  down unless it is reset, and the ceiling itself never goes away.
\<close>

section \<open>Labels\<close>

text \<open>\<open>str.split()\<close>: maximal runs of characters that are not blanks.\<close>

fun words_acc :: "string \<Rightarrow> string \<Rightarrow> string list" where
  "words_acc acc [] = (if acc = [] then [] else [rev acc])"
| "words_acc acc (c # cs) =
     (if py_isspace c then (if acc = [] then words_acc [] cs else rev acc # words_acc [] cs)
      else words_acc (c # acc) cs)"

definition py_words :: "string \<Rightarrow> string list" where
  "py_words s = words_acc [] s"

definition label_tokens :: "string \<Rightarrow> string list" where
  "label_tokens s = map (\<lambda>t. py_lower (py_strip t)) (split_on CHR '':'' s)"

fun join_colon :: "string list \<Rightarrow> string" where
  "join_colon [] = []"
| "join_colon [x] = x"
| "join_colon (x # y # ys) = x @ '':'' @ join_colon (y # ys)"

definition label_value :: "string \<Rightarrow> string \<Rightarrow> string option" where
  "label_value label prefix =
     (if label = [] \<or> \<not> starts_with (prefix @ '':'') label then None
      else case py_words (drop (length prefix + 1) label) of
        [] \<Rightarrow> None
      | w # _ \<Rightarrow> (let v = join_colon (takeWhile (\<lambda>t. py_lower (py_strip t) \<noteq> ''keep'') (split_on CHR '':'' w))
                 in if v = [] then None else Some v))"

definition label_exempt :: "string \<Rightarrow> bool" where
  "label_exempt label \<longleftrightarrow> ''nofleet'' \<in> set (label_tokens label)"

definition job_handoff_label :: "string \<Rightarrow> string" where
  "job_handoff_label primary = ''job:'' @ primary @ '':handoff''"

definition handoff_predecessor :: "string \<Rightarrow> string option" where
  "handoff_predecessor label =
     (let s = py_strip label; mid = drop 4 s; d = takeWhile py_isdigit mid
      in if starts_with ''job:'' s \<and> d \<noteq> [] \<and> drop (length d) mid = '':handoff'' then Some d else None)"

section \<open>Instances and evidence\<close>

record fleet_inst =
  in_id :: string
  in_status :: "string option"
  in_dph :: "rat option"
  in_storage_day :: "rat option"
  in_label :: string

definition inst_status :: "fleet_inst \<Rightarrow> string" where
  "inst_status i = py_lower (dflt [] (in_status i))"

definition LIVE_NAMES :: "string list" where
  "LIVE_NAMES = [''running'', ''loading'', ''created'']"

definition inst_live :: "fleet_inst \<Rightarrow> bool" where
  "inst_live i \<longleftrightarrow> inst_status i \<in> set LIVE_NAMES"

record health_row =
  hr_booting :: bool
  hr_zombie :: bool
  hr_boot_age :: "rat option"
  hr_heartbeat_age :: "rat option"
  hr_cpu :: "rat option"
  hr_jobs_box :: bool

datatype box_evidence = WkBooting | WkBooted | WkHeartbeat | WkCpu | WkLabel string | WkJobsBox

definition EVIDENCE_TOKENS :: "string list" where
  "EVIDENCE_TOKENS = [''run'', ''serve'', ''jobs'', ''wf'', ''workflow'', ''stage'', ''eval'', ''keep'']"

definition workload_evidence :: "fleet_inst \<Rightarrow> health_row \<Rightarrow> box_evidence option" where
  "workload_evidence i h =
     (if hr_booting h then Some WkBooting
      else if (case hr_boot_age h of Some a \<Rightarrow> a < 1800 | None \<Rightarrow> False) then Some WkBooted
      else if (case hr_heartbeat_age h of Some a \<Rightarrow> a < 900 | None \<Rightarrow> False) then Some WkHeartbeat
      else if hr_zombie h then None
      else if (case hr_cpu h of Some c \<Rightarrow> 5 < c | None \<Rightarrow> False) then Some WkCpu
      else case find (\<lambda>t. t \<in> set (label_tokens (in_label i))) EVIDENCE_TOKENS of
             Some t \<Rightarrow> Some (WkLabel t)
           | None \<Rightarrow> if hr_jobs_box h then Some WkJobsBox else None)"

section \<open>State\<close>

datatype profile = RunP | JobsP | ServeP | BareP
datatype cap_source = ExplicitCap | DefaultCap | DegradedCap
datatype cap_note = NoteExplicit | NoteInherited | NoteDefault | NoteUncapped
datatype cap_event = Armed | WatchEnded | StandingDrained

text \<open>A ledger record: its numbers as \<open>_num\<close> reads them.\<close>

record ceiling =
  cl_cap :: "rat option"
  cl_spend :: "rat option"
  cl_source :: cap_source
  cl_members :: "string list"
  cl_epochs :: nat
  cl_history :: "(cap_event \<times> rat \<times> rat) list"

datatype ceiling_obj = NotDict | Ceil ceiling

datatype box_action = ParkIt | ResumeIt

record fleet_watch =
  fw_profile :: profile
  fw_budget :: "rat option"
  fw_ceiling :: "string option"
  fw_note :: cap_note
  fw_spend :: rat
  fw_charged :: "rat option"
  fw_iid :: "string option"
  fw_adopted :: bool
  fw_state :: string
  fw_missing :: nat
  fw_pending :: "box_action option"
  fw_paused_until :: "rat option"
  fw_breach_pending :: bool
  fw_dormant :: bool
  fw_standing :: bool
  fw_standing_dormant :: bool
  fw_standing_since :: "rat option"
  fw_standing_live :: "rat option"
  fw_standing_cycles :: nat
  fw_wake :: bool
  fw_queue_unknown :: bool
  fw_queue_empty_since :: "rat option"
  fw_unrecoverable_since :: "rat option"
  fw_identity_since :: "rat option"
  fw_pyhalf_since :: "rat option"
  fw_spend_ts :: "rat option"
  fw_was_live :: bool
  fw_last_dph :: "rat option"

datatype destroy_when = WhenNow | WhenDrained | WhenParked

record destroy_req =
  dr_when :: destroy_when
  dr_ts :: rat
  dr_streak :: nat
  dr_since :: "rat option"
  dr_results_check :: bool

datatype intent = StopIntent | DestroyIntent

record stray =
  sr_observed :: rat
  sr_live_ts :: "rat option"
  sr_pending :: "box_action option"
  sr_paused_until :: "rat option"
  sr_parked_ts :: "rat option"

datatype fleet_io = IoDestroy string | IoPark string | IoResume string | IoKeep string | IoLane string

text \<open>\<open>fl_lane\<close> holds the targets with a live ladder object and the spend it carries; \<open>fl_io\<close> records
  the calls the daemon makes.\<close>

record fleet =
  fl_watches :: "(string \<times> fleet_watch) list"
  fl_lane :: "string \<rightharpoonup> rat"
  fl_ceilings :: "string \<rightharpoonup> ceiling_obj"
  fl_index :: "string \<rightharpoonup> string"
  fl_spend_by_box :: "(string \<times> rat) list"
  fl_destroys :: "(string \<times> destroy_req) list"
  fl_intents :: "string \<rightharpoonup> intent"
  fl_strays :: "(string \<times> stray) list"
  fl_last_ok :: "rat option"
  fl_io :: "fleet_io list"

record fleet_config =
  fc_adopt_cap :: rat
  fc_global :: "rat option"
  fc_grace :: rat
  fc_grace_expensive :: rat
  fc_expensive_dph :: rat
  fc_pyhalf_confirm :: rat

definition watch_at :: "fleet \<Rightarrow> string \<Rightarrow> fleet_watch option" where
  "watch_at f t = map_of (fl_watches f) t"

definition upd_watch :: "string \<Rightarrow> (fleet_watch \<Rightarrow> fleet_watch) \<Rightarrow> fleet \<Rightarrow> fleet" where
  "upd_watch t g f =
     (case watch_at f t of None \<Rightarrow> f
      | Some w \<Rightarrow> f\<lparr>fl_watches := AList.update t (g w) (fl_watches f)\<rparr>)"

definition drop_watch :: "string \<Rightarrow> fleet \<Rightarrow> fleet" where
  "drop_watch t f = f\<lparr>fl_watches := AList.delete t (fl_watches f), fl_lane := (fl_lane f)(t := None)\<rparr>"

definition drop_stray :: "string \<Rightarrow> fleet \<Rightarrow> fleet" where
  "drop_stray i f = f\<lparr>fl_strays := AList.delete i (fl_strays f)\<rparr>"

definition drop_intent :: "string \<Rightarrow> fleet \<Rightarrow> fleet" where
  "drop_intent i f = f\<lparr>fl_intents := (fl_intents f)(i := None)\<rparr>"

definition log_io :: "fleet_io \<Rightarrow> fleet \<Rightarrow> fleet" where
  "log_io x f = f\<lparr>fl_io := fl_io f @ [x]\<rparr>"

definition box_of :: "string \<Rightarrow> fleet_watch \<Rightarrow> string" where
  "box_of t w = (case nonempty (fw_iid w) of Some i \<Rightarrow> i | None \<Rightarrow> t)"

definition watch_box_iid :: "fleet_watch \<Rightarrow> string option" where
  "watch_box_iid w =
     (if fw_profile w = RunP then None
      else case fw_iid w of None \<Rightarrow> None | Some i \<Rightarrow> if i = [] \<or> i = ''None'' then None else Some i)"

definition nz :: "rat option \<Rightarrow> rat option" where
  "nz x = (case x of Some v \<Rightarrow> if v = 0 then None else Some v | None \<Rightarrow> None)"

section \<open>Ceilings\<close>

definition CEILING_HISTORY_MAX :: nat where "CEILING_HISTORY_MAX = 24"

text \<open>Cap, spend, and whether the record was degraded to the default.\<close>

definition normalize_ceiling :: "ceiling_obj \<Rightarrow> rat \<Rightarrow> rat \<times> rat \<times> bool" where
  "normalize_ceiling c default_cap =
     (case c of
        NotDict \<Rightarrow> (default_cap, 0, True)
      | Ceil r \<Rightarrow>
         (let sp = (case cl_spend r of Some s \<Rightarrow> if s < 0 then 0 else s | None \<Rightarrow> 0)
          in case cl_cap r of
               Some cap \<Rightarrow> if cap \<le> 0 then (default_cap, sp, True) else (cap, sp, False)
             | None \<Rightarrow> (default_cap, sp, True)))"

definition ceiling_peek :: "fleet_config \<Rightarrow> string option \<Rightarrow> fleet \<Rightarrow> (rat \<times> rat \<times> bool) option" where
  "ceiling_peek cfg cid f =
     (case nonempty cid of None \<Rightarrow> None
      | Some c \<Rightarrow> map_option (\<lambda>r. normalize_ceiling r (fc_adopt_cap cfg)) (fl_ceilings f c))"

definition empty_ceiling :: ceiling where
  "empty_ceiling = \<lparr>cl_cap = None, cl_spend = None, cl_source = DegradedCap, cl_members = [], cl_epochs = 0, cl_history = []\<rparr>"

definition as_dict :: "ceiling_obj \<Rightarrow> ceiling" where
  "as_dict c = (case c of NotDict \<Rightarrow> empty_ceiling | Ceil r \<Rightarrow> r)"

definition put_ceiling :: "string \<Rightarrow> ceiling \<Rightarrow> fleet \<Rightarrow> fleet" where
  "put_ceiling c r f = f\<lparr>fl_ceilings := (fl_ceilings f)(c \<mapsto> Ceil r)\<rparr>"

text \<open>A degraded record is repaired in place when it is read to be charged or enforced.\<close>

definition ceiling_read :: "fleet_config \<Rightarrow> string option \<Rightarrow> fleet \<Rightarrow> (rat \<times> rat) option \<times> fleet" where
  "ceiling_read cfg cid f =
     (case (nonempty cid, ceiling_peek cfg cid f) of
        (Some c, Some (cap, sp, degraded)) \<Rightarrow>
          (Some (cap, sp),
           if degraded then put_ceiling c (as_dict (the (fl_ceilings f c))\<lparr>cl_cap := Some cap, cl_spend := Some sp, cl_source := DegradedCap\<rparr>) f
           else f)
      | _ \<Rightarrow> (None, f))"

definition known_ceiling :: "fleet \<Rightarrow> string option \<Rightarrow> string option" where
  "known_ceiling f c = (case nonempty c of Some x \<Rightarrow> if fl_ceilings f x \<noteq> None then Some x else None | None \<Rightarrow> None)"

fun first_known :: "fleet \<Rightarrow> string option list \<Rightarrow> string option" where
  "first_known f [] = None"
| "first_known f (c # cs) = (case known_ceiling f c of Some x \<Rightarrow> Some x | None \<Rightarrow> first_known f cs)"

definition resolve_ceiling_id :: "string \<Rightarrow> string \<Rightarrow> fleet \<Rightarrow> string option" where
  "resolve_ceiling_id target label f =
     (let by_box = (if target = [] then None else fl_index f target);
          own = (if target = [] then None else Some target)
      in case first_known f [by_box, fl_index f target, own, Some target] of
           Some c \<Rightarrow> Some c
         | None \<Rightarrow> (case handoff_predecessor label of
                      None \<Rightarrow> None
                    | Some p \<Rightarrow> first_known f [fl_index f p, Some p]))"

definition ceiling_bind_box :: "string option \<Rightarrow> string option \<Rightarrow> fleet \<Rightarrow> fleet" where
  "ceiling_bind_box cid iid f =
     (case (nonempty cid, iid) of
        (Some c, Some i) \<Rightarrow>
          if i = [] \<or> i = ''None'' \<or> fl_ceilings f c = None \<or> fl_index f i = Some c then f
          else (let f1 = f\<lparr>fl_index := (fl_index f)(i \<mapsto> c)\<rparr>
            in case fl_ceilings f c of
                 Some (Ceil r) \<Rightarrow> if i \<in> set (cl_members r) then f1 else put_ceiling c (r\<lparr>cl_members := cl_members r @ [i]\<rparr>) f1
               | _ \<Rightarrow> f1)
      | _ \<Rightarrow> f)"

definition add_history :: "cap_event \<times> rat \<times> rat \<Rightarrow> ceiling \<Rightarrow> ceiling" where
  "add_history e r = r\<lparr>cl_history := (let h = cl_history r @ [e] in drop (length h - CEILING_HISTORY_MAX) h)\<rparr>"

definition ceiling_arm :: "string \<Rightarrow> rat \<Rightarrow> cap_source \<Rightarrow> bool \<Rightarrow> fleet \<Rightarrow> rat \<times> fleet" where
  "ceiling_arm c cap source reset f =
     (let r0 = (case fl_ceilings f c of
                  Some (Ceil r) \<Rightarrow> r
                | _ \<Rightarrow> \<lparr>cl_cap = None, cl_spend = Some 0, cl_source = source, cl_members = [], cl_epochs = 0, cl_history = []\<rparr>);
          r1 = (if reset then r0\<lparr>cl_spend := Some 0\<rparr> else r0);
          r2 = add_history (Armed, cap, round4 (dflt 0 (cl_spend r1))) (r1\<lparr>cl_cap := Some cap, cl_source := source\<rparr>)
      in (dflt 0 (cl_spend r2), put_ceiling c r2 f))"

text \<open>Which ceiling a registration is under: the key, the budget, the spend carried into it and why.\<close>

definition resolve_watch_ceiling ::
  "fleet_config \<Rightarrow> string \<Rightarrow> rat option \<Rightarrow> bool \<Rightarrow> string \<Rightarrow> bool \<Rightarrow> fleet
   \<Rightarrow> (string option \<times> rat option \<times> rat \<times> cap_note) \<times> fleet" where
  "resolve_watch_ceiling cfg target budget adopted label reset f =
     (let cid = resolve_ceiling_id target label f; (found, f1) = ceiling_read cfg cid f
      in case (budget, adopted, found) of
           (Some b, False, _) \<Rightarrow>
             (let c = dflt target cid; (carried, f2) = ceiling_arm c b ExplicitCap reset f1
              in ((Some c, Some b, carried, NoteExplicit), f2))
         | (_, _, Some (cap, sp)) \<Rightarrow> ((cid, Some cap, sp, NoteInherited), f1)
         | (_, True, None) \<Rightarrow>
             (let (_, f2) = ceiling_arm target (fc_adopt_cap cfg) DefaultCap False f1
              in ((Some target, Some (fc_adopt_cap cfg), 0, NoteDefault), f2))
         | (_, False, None) \<Rightarrow> ((None, budget, 0, NoteUncapped), f1))"

definition ceiling_spend :: "fleet_config \<Rightarrow> fleet_watch \<Rightarrow> fleet \<Rightarrow> rat" where
  "ceiling_spend cfg w f =
     (case ceiling_peek cfg (fw_ceiling w) f of None \<Rightarrow> fw_spend w | Some (_, sp, _) \<Rightarrow> max sp (fw_spend w))"

text \<open>The watch's spend since it was last charged goes to its ceiling.\<close>

definition charge_ceiling :: "fleet_config \<Rightarrow> string \<Rightarrow> fleet \<Rightarrow> fleet" where
  "charge_ceiling cfg t f =
     (case watch_at f t of
        None \<Rightarrow> f
      | Some w \<Rightarrow>
         (let (found, f1) = ceiling_read cfg (fw_ceiling w) f
          in case (found, nonempty (fw_ceiling w)) of
               (Some _, Some c) \<Rightarrow>
                 (let r = as_dict (the (fl_ceilings f1 c)); delta = fw_spend w - dflt (fw_spend w) (fw_charged w);
                      f2 = (if 0 < delta then put_ceiling c (r\<lparr>cl_spend := Some (dflt 0 (cl_spend r) + delta)\<rparr>) f1 else f1)
                  in upd_watch t (\<lambda>w. w\<lparr>fw_charged := Some (fw_spend w)\<rparr>) f2)
             | _ \<Rightarrow> f1))"

definition budget_breached :: "fleet_config \<Rightarrow> fleet_watch \<Rightarrow> fleet \<Rightarrow> bool" where
  "budget_breached cfg w f = (case fw_budget w of None \<Rightarrow> False | Some b \<Rightarrow> b \<le> ceiling_spend cfg w f)"

definition global_breached :: "fleet_config \<Rightarrow> fleet \<Rightarrow> bool" where
  "global_breached cfg f = (case fc_global cfg of None \<Rightarrow> False | Some cap \<Rightarrow> cap \<le> sum_list (map snd (fl_spend_by_box f)))"

section \<open>Requests of the operator\<close>

datatype watch_error = StandingNeedsJobs | BudgetRequired | FleetCeiling | AlreadySupervised string | WouldDowngrade string
datatype watch_outcome = AdoptRefused string | Registered string

definition policy_profile :: "profile \<Rightarrow> bool" where
  "policy_profile p \<longleftrightarrow> p = RunP \<or> p = JobsP \<or> p = ServeP"

definition explicit_owner :: "string \<Rightarrow> fleet \<Rightarrow> string option" where
  "explicit_owner target f =
     map_option fst (find (\<lambda>(t, w). (t = target \<or> box_of t w = target) \<and> \<not> fw_adopted w) (fl_watches f))"

definition blank_watch :: fleet_watch where
  "blank_watch = \<lparr>fw_profile = BareP, fw_budget = None, fw_ceiling = None, fw_note = NoteUncapped, fw_spend = 0,
     fw_charged = None, fw_iid = None, fw_adopted = False, fw_state = ''watched'', fw_missing = 0, fw_pending = None,
     fw_paused_until = None, fw_breach_pending = False, fw_dormant = False, fw_standing = False,
     fw_standing_dormant = False, fw_standing_since = None, fw_standing_live = None, fw_standing_cycles = 0,
     fw_wake = False, fw_queue_unknown = False, fw_queue_empty_since = None, fw_unrecoverable_since = None,
     fw_identity_since = None, fw_pyhalf_since = None, fw_spend_ts = None, fw_was_live = False, fw_last_dph = None\<rparr>"

text \<open>The watch another key holds on the box, and whether the registration is redirected to it.\<close>

definition redirect ::
  "string \<Rightarrow> profile \<Rightarrow> bool \<Rightarrow> fleet \<Rightarrow> watch_error + string" where
  "redirect target prof adopted f =
     (case find (\<lambda>(t, w). t \<noteq> target \<and> box_of t w = target) (fl_watches f) of
        None \<Rightarrow> Inr target
      | Some (other, ow) \<Rightarrow>
          if adopted \<or> watch_box_iid ow \<noteq> Some target then Inl (AlreadySupervised other)
          else if policy_profile (fw_profile ow) \<and> prof = BareP then Inl (WouldDowngrade other)
          else Inr other)"

definition register ::
  "fleet_config \<Rightarrow> string \<Rightarrow> profile \<Rightarrow> rat option \<Rightarrow> bool \<Rightarrow> string \<Rightarrow> bool \<Rightarrow> bool option \<Rightarrow> fleet \<Rightarrow> fleet" where
  "register cfg t prof budget adopted label reset standing f =
     (let w = dflt blank_watch (watch_at f t);
          ((cid, b, carried, why), f1) = resolve_watch_ceiling cfg t budget adopted label reset f;
          seed = (if reset \<and> why = NoteExplicit then carried else max (fw_spend w) carried);
          iid = (if prof = RunP then fw_iid w else Some (dflt t (watch_box_iid w)));
          w1 = w\<lparr>fw_profile := prof, fw_budget := b, fw_ceiling := cid, fw_note := why, fw_state := ''watched'',
                fw_spend := seed, fw_charged := Some seed, fw_iid := iid, fw_adopted := adopted,
                fw_standing := dflt (fw_standing w) standing, fw_standing_dormant := False,
                fw_standing_since := None, fw_wake := False, fw_dormant := False,
                fw_breach_pending := False, fw_missing := 0\<rparr>;
          f2 = ceiling_bind_box cid iid (f1\<lparr>fl_watches := AList.update t w1 (fl_watches f1)\<rparr>);
          box = box_of t w1
      in drop_intent box (drop_stray box (f2\<lparr>fl_lane := (fl_lane f2)(t := None)\<rparr>)))"

definition watch ::
  "fleet_config \<Rightarrow> string \<Rightarrow> profile \<Rightarrow> rat option \<Rightarrow> bool \<Rightarrow> string \<Rightarrow> bool \<Rightarrow> bool option \<Rightarrow> fleet
   \<Rightarrow> (watch_error + watch_outcome) \<times> fleet" where
  "watch cfg target prof budget adopted label reset standing f =
     (case (if adopted then explicit_owner target f else None) of
        Some t \<Rightarrow> (Inr (AdoptRefused t), f)
      | None \<Rightarrow>
         if standing = Some True \<and> prof \<noteq> JobsP then (Inl StandingNeedsJobs, f)
         else if policy_profile prof \<and> budget = None then (Inl BudgetRequired, f)
         else if policy_profile prof \<and> global_breached cfg f then (Inl FleetCeiling, f)
         else (case redirect target prof adopted f of
            Inl e \<Rightarrow> (Inl e, f)
          | Inr t \<Rightarrow> (Inr (Registered t), register cfg t prof budget adopted label reset standing f)))"

definition unwatch :: "string \<Rightarrow> fleet \<Rightarrow> bool \<times> fleet" where
  "unwatch target f = (watch_at f target \<noteq> None, drop_watch target f)"

definition MAX_PAUSE_S :: rat where "MAX_PAUSE_S = 6 * 3600"

definition new_stray :: stray where
  "new_stray = \<lparr>sr_observed = 0, sr_live_ts = None, sr_pending = None, sr_paused_until = None, sr_parked_ts = None\<rparr>"

definition upd_stray :: "string \<Rightarrow> (stray \<Rightarrow> stray) \<Rightarrow> fleet \<Rightarrow> fleet" where
  "upd_stray i g f =
     f\<lparr>fl_strays := AList.update i (g (dflt new_stray (map_of (fl_strays f) i))) (fl_strays f)\<rparr>"

definition pause :: "string \<Rightarrow> rat option \<Rightarrow> rat \<Rightarrow> fleet \<Rightarrow> fleet" where
  "pause target seconds now f =
     (let until = (case seconds of Some s \<Rightarrow> if s \<le> 0 then None else Some (now + min s MAX_PAUSE_S) | None \<Rightarrow> None)
      in if watch_at f target \<noteq> None then upd_watch target (\<lambda>w. w\<lparr>fw_paused_until := until\<rparr>) f
         else upd_stray target (\<lambda>s. s\<lparr>sr_paused_until := until\<rparr>) f)"

definition request_action :: "string \<Rightarrow> box_action \<Rightarrow> fleet \<Rightarrow> fleet" where
  "request_action target a f =
     (if watch_at f target \<noteq> None then upd_watch target (\<lambda>w. w\<lparr>fw_pending := Some a\<rparr>) f
      else upd_stray target (\<lambda>s. s\<lparr>sr_pending := Some a\<rparr>) f)"

datatype operator_kind = OpStop | OpStart | OpDestroy

definition operator_intent :: "string \<Rightarrow> operator_kind \<Rightarrow> fleet \<Rightarrow> fleet" where
  "operator_intent target k f =
     (let f1 = (case k of OpStart \<Rightarrow> drop_intent target f
                | OpStop \<Rightarrow> f\<lparr>fl_intents := (fl_intents f)(target \<mapsto> StopIntent)\<rparr>
                | OpDestroy \<Rightarrow> f\<lparr>fl_intents := (fl_intents f)(target \<mapsto> DestroyIntent)\<rparr>)
      in case find (\<lambda>(t, w). box_of t w = target) (fl_watches f1) of
           Some (t, w) \<Rightarrow> if k = OpStart \<and> \<not> fw_standing_dormant w then upd_watch t (\<lambda>w. w\<lparr>fw_dormant := False\<rparr>) f1 else f1
         | None \<Rightarrow> f1)"

definition ticket_placed :: "string \<Rightarrow> fleet \<Rightarrow> fleet" where
  "ticket_placed target f =
     (case find (\<lambda>(t, w). box_of t w = target \<or> t = target) (fl_watches f) of
        Some (t, w) \<Rightarrow> if fw_standing_dormant w then upd_watch t (\<lambda>w. w\<lparr>fw_wake := True\<rparr>) f else f
      | None \<Rightarrow> f)"

definition watches_on :: "string \<Rightarrow> fleet \<Rightarrow> string list" where
  "watches_on iid f = map fst (filter (\<lambda>(t, w). box_of t w = iid) (fl_watches f))"

definition request_destroy :: "string \<Rightarrow> destroy_when \<Rightarrow> bool \<Rightarrow> bool \<Rightarrow> rat \<Rightarrow> fleet \<Rightarrow> bool \<times> fleet" where
  "request_destroy target wh yes results_check now f =
     (if \<not> yes then (False, f)
      else (let f1 = f\<lparr>fl_destroys := AList.update target
                  \<lparr>dr_when = wh, dr_ts = now, dr_streak = 0, dr_since = None, dr_results_check = results_check\<rparr> (fl_destroys f)\<rparr>
            in (True, foldl (\<lambda>g t. drop_watch t g) f1 (watches_on target f1))))"

section \<open>Label round trips\<close>

lemma isdigit_nospace: "py_isdigit c \<Longrightarrow> \<not> py_isspace c"
  by (auto simp: py_isdigit_def py_isspace_def Let_def)

lemma strip_id: "s \<noteq> [] \<Longrightarrow> \<not> py_isspace (hd s) \<Longrightarrow> \<not> py_isspace (last s) \<Longrightarrow> py_strip s = s"
proof -
  assume "s \<noteq> []" "\<not> py_isspace (hd s)" "\<not> py_isspace (last s)"
  then have "dropWhile py_isspace s = s" "dropWhile py_isspace (rev s) = rev s"
    by (auto simp: dropWhile_eq_self_iff hd_rev)
  then show ?thesis by (simp add: py_strip_def)
qed

lemma takeWhile_digits: "list_all py_isdigit d \<Longrightarrow> takeWhile py_isdigit (d @ '':handoff'') = d"
  by (induction d) (auto simp: py_isdigit_def)

text \<open>The label of an understudy names the box it takes over from.\<close>

lemma predecessor_of_handoff_label:
  assumes "list_all py_isdigit d" "d \<noteq> []"
  shows "handoff_predecessor (job_handoff_label d) = Some d"
proof -
  have "\<not> py_isspace (CHR ''j'')" "\<not> py_isspace (CHR ''f'')" by (simp_all add: py_isspace_def)
  then have s: "py_strip (job_handoff_label d) = job_handoff_label d"
    by (intro strip_id) (simp_all add: job_handoff_label_def)
  show ?thesis using assms(2)
    by (simp add: handoff_predecessor_def s Let_def) (simp add: job_handoff_label_def takeWhile_digits assms(1) numeral_eq_Suc)
qed

section \<open>The ledger never forgets\<close>

definition ledger_spend :: "ceiling_obj \<Rightarrow> rat" where
  "ledger_spend c = (case c of NotDict \<Rightarrow> 0 | Ceil r \<Rightarrow> max 0 (dflt 0 (cl_spend r)))"

definition ledger :: "fleet \<Rightarrow> string \<Rightarrow> rat option" where
  "ledger f c = map_option ledger_spend (fl_ceilings f c)"

definition ledger_grows :: "fleet \<Rightarrow> fleet \<Rightarrow> bool" where
  "ledger_grows f g \<longleftrightarrow> (\<forall>c s. ledger f c = Some s \<longrightarrow> (\<exists>s'. ledger g c = Some s' \<and> s \<le> s'))"

lemma ledger_spend_simps [simp]:
  "ledger_spend NotDict = 0" "ledger_spend (Ceil r) = max 0 (dflt 0 (cl_spend r))"
  by (simp_all add: ledger_spend_def)

lemma normalize_spend [simp]: "fst (snd (normalize_ceiling c d)) = ledger_spend c"
  by (auto simp: normalize_ceiling_def Let_def max_def split: ceiling_obj.split option.split)

lemma normalize_cap_pos: "0 < d \<Longrightarrow> 0 < fst (normalize_ceiling c d)"
  by (auto simp: normalize_ceiling_def Let_def split: ceiling_obj.split option.split)

lemma ledger_grows_refl [simp]: "ledger_grows f f"
  by (simp add: ledger_grows_def)

lemma ledger_grows_trans: "ledger_grows f g \<Longrightarrow> ledger_grows g h \<Longrightarrow> ledger_grows f h"
  unfolding ledger_grows_def by (meson order_trans)

lemma ledger_cong: "fl_ceilings f = fl_ceilings g \<Longrightarrow> ledger f = ledger g"
  by (auto simp: ledger_def)

lemma ledger_growsI: "fl_ceilings g = fl_ceilings f \<Longrightarrow> ledger_grows f g"
  unfolding ledger_grows_def ledger_def by auto

lemma ledger_put: "ledger (put_ceiling c r f) = (ledger f)(c \<mapsto> max 0 (dflt 0 (cl_spend r)))"
  by (auto simp: ledger_def put_ceiling_def)

lemma ledger_grows_put:
  "(\<And>s. ledger f c = Some s \<Longrightarrow> s \<le> max 0 (dflt 0 (cl_spend r))) \<Longrightarrow> ledger_grows f (put_ceiling c r f)"
  by (auto simp: ledger_grows_def ledger_put)

lemma ledger_at: "fl_ceilings f c = Some r \<Longrightarrow> ledger f c = Some (max 0 (dflt 0 (cl_spend (as_dict r))))"
  by (cases r) (simp_all add: ledger_def as_dict_def empty_ceiling_def)

lemma nonempty_Some: "nonempty x = Some c \<longleftrightarrow> x = Some c \<and> c \<noteq> []"
  by (auto simp: nonempty_def split: option.splits if_splits)

lemma ceiling_peek_Some:
  "ceiling_peek cfg cid f = Some (cap, sp, dg) \<longleftrightarrow>
     (\<exists>c r. nonempty cid = Some c \<and> fl_ceilings f c = Some r \<and> normalize_ceiling r (fc_adopt_cap cfg) = (cap, sp, dg))"
  by (auto simp: ceiling_peek_def split: option.splits)

lemma ceiling_read_found:
  assumes "ceiling_read cfg cid f = (Some (cap, sp), g)"
  obtains c r where "nonempty cid = Some c" "fl_ceilings f c = Some r" "sp = ledger_spend r"
    "fst (normalize_ceiling r (fc_adopt_cap cfg)) = cap"
proof -
  obtain dg where p: "ceiling_peek cfg cid f = Some (cap, sp, dg)"
    using assms by (auto simp: ceiling_read_def split: option.splits)
  then obtain c r where "nonempty cid = Some c" "fl_ceilings f c = Some r"
    and n: "normalize_ceiling r (fc_adopt_cap cfg) = (cap, sp, dg)" by (auto simp: ceiling_peek_Some)
  then show thesis using that normalize_spend [of r "fc_adopt_cap cfg"] by simp
qed

lemma ceiling_read_ledger [simp]: "ledger (snd (ceiling_read cfg cid f)) = ledger f"
proof (cases "ceiling_peek cfg cid f")
  case None
  then show ?thesis by (simp add: ceiling_read_def split: option.split)
next
  case (Some p)
  obtain cap sp dg where p: "p = (cap, sp, dg)" by (cases p)
  then obtain c r where c: "nonempty cid = Some c" "fl_ceilings f c = Some r"
    and n: "normalize_ceiling r (fc_adopt_cap cfg) = (cap, sp, dg)" using Some by (auto simp: ceiling_peek_Some)
  have "sp = ledger_spend r" using normalize_spend [of r "fc_adopt_cap cfg"] n by simp
  then have m: "max 0 sp = ledger_spend r" by (cases r) simp_all
  have "ledger f c = Some (ledger_spend r)" using c by (simp add: ledger_def)
  then have "ledger (put_ceiling c (q\<lparr>cl_cap := Some cap, cl_spend := Some sp, cl_source := DegradedCap\<rparr>) f) = ledger f" for q
    using m by (auto simp: ledger_put)
  then show ?thesis using Some p c by (simp add: ceiling_read_def)
qed

lemma ceiling_read_rest [simp]:
  "fl_watches (snd (ceiling_read cfg cid f)) = fl_watches f" "watch_at (snd (ceiling_read cfg cid f)) t = watch_at f t"
  "fl_destroys (snd (ceiling_read cfg cid f)) = fl_destroys f" "fl_io (snd (ceiling_read cfg cid f)) = fl_io f"
  "fl_index (snd (ceiling_read cfg cid f)) = fl_index f" "fl_strays (snd (ceiling_read cfg cid f)) = fl_strays f"
  by (auto simp: ceiling_read_def put_ceiling_def watch_at_def split: option.split)

lemma upd_watch_rest [simp]:
  "fl_ceilings (upd_watch t g f) = fl_ceilings f" "fl_destroys (upd_watch t g f) = fl_destroys f"
  "fl_io (upd_watch t g f) = fl_io f" "fl_index (upd_watch t g f) = fl_index f"
  "fl_strays (upd_watch t g f) = fl_strays f"
  by (auto simp: upd_watch_def split: option.split)

lemma watch_at_upd: "watch_at (upd_watch t g f) s = (if s = t then map_option g (watch_at f t) else watch_at f s)"
  by (auto simp: watch_at_def upd_watch_def update_conv' split: option.split)

lemma watch_at_drop: "watch_at (drop_watch t f) s = (if s = t then None else watch_at f s)"
  by (simp add: watch_at_def drop_watch_def delete_conv')

lemma put_ceiling_rest [simp]:
  "fl_watches (put_ceiling c r f) = fl_watches f" "watch_at (put_ceiling c r f) t = watch_at f t"
  "fl_destroys (put_ceiling c r f) = fl_destroys f" "fl_io (put_ceiling c r f) = fl_io f"
  "fl_strays (put_ceiling c r f) = fl_strays f"
  by (simp_all add: put_ceiling_def watch_at_def)

lemma charge_ceiling_rest [simp]:
  "fl_destroys (charge_ceiling cfg t f) = fl_destroys f" "fl_io (charge_ceiling cfg t f) = fl_io f"
  by (simp_all add: charge_ceiling_def Let_def case_prod_beta split: option.split)

lemma charge_ceiling_grows: "ledger_grows f (charge_ceiling cfg t f)"
proof (cases "watch_at f t")
  case None
  then show ?thesis by (simp add: charge_ceiling_def)
next
  case (Some w)
  obtain found g where g: "ceiling_read cfg (fw_ceiling w) f = (found, g)" by (cases "ceiling_read cfg (fw_ceiling w) f")
  then have l: "ledger g = ledger f" using ceiling_read_ledger [of cfg "fw_ceiling w" f] by simp
  show ?thesis
  proof (cases "found = None \<or> nonempty (fw_ceiling w) = None")
    case True
    then show ?thesis using Some g l by (auto simp: charge_ceiling_def ledger_grows_def split: option.splits)
  next
    case False
    then obtain p c where pc: "found = Some p" "nonempty (fw_ceiling w) = Some c" by auto
    let ?r = "as_dict (the (fl_ceilings g c))" let ?d = "fw_spend w - dflt (fw_spend w) (fw_charged w)"
    have "s \<le> max 0 (dflt 0 (cl_spend ?r) + ?d)" if "ledger g c = Some s" "0 < ?d" for s
    proof -
      have "\<exists>r. fl_ceilings g c = Some r" using that(1) by (auto simp: ledger_def)
      then show ?thesis using that ledger_at [of g c] by auto
    qed
    then have "ledger_grows g (if 0 < ?d then put_ceiling c (?r\<lparr>cl_spend := Some (dflt 0 (cl_spend ?r) + ?d)\<rparr>) g else g)"
      by (auto intro!: ledger_grows_put)
    then have "ledger_grows f (if 0 < ?d then put_ceiling c (?r\<lparr>cl_spend := Some (dflt 0 (cl_spend ?r) + ?d)\<rparr>) g else g)"
      using l by (simp add: ledger_grows_def)
    then show ?thesis using Some g pc
      by (auto simp: charge_ceiling_def Let_def ledger_grows_def ledger_def)
  qed
qed

lemma ceiling_bind_rest [simp]:
  "ledger (ceiling_bind_box cid iid f) = ledger f" "fl_watches (ceiling_bind_box cid iid f) = fl_watches f"
  "watch_at (ceiling_bind_box cid iid f) t = watch_at f t"
  "fl_destroys (ceiling_bind_box cid iid f) = fl_destroys f" "fl_io (ceiling_bind_box cid iid f) = fl_io f"
  "fl_strays (ceiling_bind_box cid iid f) = fl_strays f"
  by (auto simp: ceiling_bind_box_def Let_def ledger_def put_ceiling_def watch_at_def fun_eq_iff
      split: option.split ceiling_obj.split)

lemma ceiling_arm_grows: "ledger_grows f (snd (ceiling_arm c cap src False f))"
  by (auto simp: ceiling_arm_def Let_def add_history_def ledger_def intro!: ledger_grows_put
      split: option.splits ceiling_obj.splits)

lemma ceiling_arm_rest [simp]:
  "fl_watches (snd (ceiling_arm c cap src rst f)) = fl_watches f" "fl_destroys (snd (ceiling_arm c cap src rst f)) = fl_destroys f"
  "fl_io (snd (ceiling_arm c cap src rst f)) = fl_io f"
  by (simp_all add: ceiling_arm_def Let_def)

end
