(* ===== verification/FleetTick.thy ===== *)
theory FleetTick
  imports FleetState
begin

text \<open>
  The reconcile pass of the fleet daemon, \<open>Fleet.tick\<close> in \<open>tools/vast/vastlib/fleet/daemon.py\<close>:
  deferred destroys, every watch, the safety net over strays. What the hooks answer during one pass
  (listing, queue, bucket, the calls to the API, the ladder of a policy watch) is the record
  \<open>fleet_world\<close>; the calls made are logged in \<open>fl_io\<close>.
\<close>

section \<open>What the hooks answer\<close>

text \<open>The ladder's tick: its initial spend (\<open>None\<close> if it could not be built), the spend after the tick from
  the spend before, the box it is on, the box of a migration under way, whether it rented a replacement, and the verdict.\<close>

record lane_answer =
  la_init :: "rat option"
  la_spend :: "rat \<Rightarrow> rat"
  la_iid :: "string option"
  la_status :: "string option"
  la_understudy :: "string option"
  la_replaced :: bool
  la_verdict :: "string option"

record fleet_world =
  wd_now :: rat
  wd_clock :: rat
  wd_instances :: "fleet_inst list option"
  wd_health :: "string \<Rightarrow> health_row"
  wd_drained :: "string \<Rightarrow> bool option"
  wd_results :: "string \<Rightarrow> bool option"
  wd_restat :: "string \<Rightarrow> bool"
  wd_destroy :: "string \<Rightarrow> bool"
  wd_park :: "string \<Rightarrow> bool"
  wd_resume :: "string \<Rightarrow> bool"
  wd_pyhalf :: "string \<Rightarrow> bool option"
  wd_migration :: "string \<Rightarrow> string option"
  wd_lane :: "string \<Rightarrow> lane_answer"

type_synonym listing = "(string \<times> fleet_inst) list"

definition by_iid :: "fleet_inst list \<Rightarrow> listing" where
  "by_iid insts = foldl (\<lambda>al i. AList.update (in_id i) i al) [] insts"

section \<open>Parking and requested actions\<close>

definition keep_stamp_needed :: "bool option \<Rightarrow> bool option \<Rightarrow> bool" where
  "keep_stamp_needed drained results \<longleftrightarrow> \<not> (drained = Some True \<and> results = Some True)"

definition park_box :: "fleet_world \<Rightarrow> string \<Rightarrow> bool \<Rightarrow> fleet \<Rightarrow> bool \<times> fleet" where
  "park_box wd iid graded f =
     (let f1 = (if \<not> graded \<or> keep_stamp_needed (wd_drained wd iid) (wd_results wd iid) then log_io (IoKeep iid) f else f)
      in (wd_park wd iid, log_io (IoPark iid) f1))"

definition exec_action :: "fleet_world \<Rightarrow> string \<Rightarrow> box_action \<Rightarrow> string option \<Rightarrow> fleet \<Rightarrow> fleet" where
  "exec_action wd iid a target f =
     (case a of
        ParkIt \<Rightarrow>
          (let (ok, f1) = park_box wd iid False f
           in case target of
                Some t \<Rightarrow> if ok then upd_watch t (\<lambda>w. w\<lparr>fw_dormant := True, fw_state := ''parked''\<rparr>) f1 else f1
              | None \<Rightarrow> f1)
      | ResumeIt \<Rightarrow>
          (let f1 = log_io (IoResume iid) f
           in case target of
                Some t \<Rightarrow> if wd_resume wd iid
                  then drop_intent iid (upd_watch t (\<lambda>w. w\<lparr>fw_dormant := False, fw_state := ''watched''\<rparr>) f1)
                  else f1
              | None \<Rightarrow> f1))"

definition park_on_budget :: "fleet_world \<Rightarrow> string \<Rightarrow> fleet \<Rightarrow> fleet" where
  "park_on_budget wd t f =
     (case watch_at f t of
        None \<Rightarrow> f
      | Some w \<Rightarrow>
         (let (ok, f1) = park_box wd (box_of t w) False f
          in upd_watch t (\<lambda>w. w\<lparr>fw_state := (if ok then ''budget_parked'' else ''budget_park_failed''), fw_dormant := ok\<rparr>) f1))"

section \<open>Accrual\<close>

definition observe :: "rat \<Rightarrow> fleet_inst option \<Rightarrow> fleet_watch \<Rightarrow> fleet_watch" where
  "observe now inst w =
     (let w1 = w\<lparr>fw_spend_ts := Some now\<rparr>
      in case inst of
           None \<Rightarrow> w1
         | Some i \<Rightarrow> (case nz (in_dph i) of None \<Rightarrow> w1 | Some d \<Rightarrow> w1\<lparr>fw_last_dph := Some d\<rparr>)\<lparr>fw_was_live := inst_live i\<rparr>)"

text \<open>The hourly rate: the full price while running, storage while it loads.\<close>

definition accrual_rate :: "fleet_inst \<Rightarrow> rat" where
  "accrual_rate i =
     (if inst_status i = ''running'' then dflt 0 (in_dph i)
      else case in_storage_day i of Some sd \<Rightarrow> sd / 24 | None \<Rightarrow> 0)"

definition accrue :: "fleet_config \<Rightarrow> fleet_world \<Rightarrow> string \<Rightarrow> fleet_inst option \<Rightarrow> fleet \<Rightarrow> fleet" where
  "accrue cfg wd t inst f =
     (case (watch_at f t, inst) of
        (None, _) \<Rightarrow> f
      | (Some w, None) \<Rightarrow> upd_watch t (\<lambda>w. w\<lparr>fw_spend_ts := Some (wd_now wd), fw_was_live := False\<rparr>) f
      | (Some w, Some i) \<Rightarrow>
          (let add = (case nz (fw_spend_ts w) of
                        Some prev \<Rightarrow> if inst_live i then accrual_rate i * (wd_now wd - prev) / 3600 else 0
                      | None \<Rightarrow> 0);
               f1 = upd_watch t (\<lambda>w. (observe (wd_now wd) inst w)\<lparr>fw_spend := fw_spend w + add\<rparr>) f;
               f2 = charge_ceiling cfg t f1
           in f2\<lparr>fl_spend_by_box := AList.update (box_of t w) (round4 (fw_spend w + add)) (fl_spend_by_box f2)\<rparr>))"

text \<open>The charge for the time the daemon was down.\<close>

definition spend_backfill :: "rat \<Rightarrow> fleet_watch \<Rightarrow> fleet_watch" where
  "spend_backfill clock w =
     (case (nz (fw_last_dph w), nz (fw_spend_ts w)) of
        (Some d, Some ts) \<Rightarrow>
          if fw_was_live w \<and> 0 < clock - ts
          then w\<lparr>fw_spend := fw_spend w + d * (clock - ts) / 3600, fw_spend_ts := Some clock\<rparr> else w
      | _ \<Rightarrow> w)"

section \<open>The end of a watch\<close>

definition note_end :: "fleet_config \<Rightarrow> string \<Rightarrow> cap_event \<Rightarrow> bool \<Rightarrow> fleet \<Rightarrow> fleet" where
  "note_end cfg t e epoch f =
     (let f1 = charge_ceiling cfg t f
      in case watch_at f1 t of
           None \<Rightarrow> f1
         | Some w \<Rightarrow>
            (let (found, f2) = ceiling_read cfg (fw_ceiling w) f1
             in case (found, nonempty (fw_ceiling w)) of
                  (Some (cap, sp), Some c) \<Rightarrow>
                    (let r = as_dict (the (fl_ceilings f2 c))
                     in put_ceiling c (add_history (e, round4 cap, round4 sp)
                          (if epoch then r\<lparr>cl_epochs := cl_epochs r + 1\<rparr> else r)) f2)
                | _ \<Rightarrow> f2))"

definition end_watch :: "fleet_config \<Rightarrow> string \<Rightarrow> fleet \<Rightarrow> fleet" where
  "end_watch cfg t f = drop_watch t (note_end cfg t WatchEnded True f)"

definition standing_drain :: "fleet_config \<Rightarrow> fleet_world \<Rightarrow> string \<Rightarrow> fleet \<Rightarrow> fleet" where
  "standing_drain cfg wd t f =
     upd_watch t (\<lambda>w. w\<lparr>fw_standing_dormant := True, fw_dormant := True, fw_state := ''standing'',
         fw_standing_since := Some (wd_clock wd), fw_standing_cycles := fw_standing_cycles w + 1,
         fw_standing_live := None, fw_queue_unknown := False, fw_wake := False, fw_queue_empty_since := None\<rparr>)
       (note_end cfg t StandingDrained False f)"

section \<open>The tick of a policy watch\<close>

definition JOBS_TRANSIENT :: "string list" where "JOBS_TRANSIENT = [''queue_empty'']"
definition STANDING_KEEP :: "string list" where "STANDING_KEEP = [''drained'', ''self_parked'']"

text \<open>A live ladder, or a new one: the target's spend first gets the backfill.\<close>

definition init_runtime :: "fleet_world \<Rightarrow> string \<Rightarrow> fleet \<Rightarrow> bool \<times> fleet" where
  "init_runtime wd t f =
     (let f1 = upd_watch t (spend_backfill (wd_clock wd)) f
      in case (la_init (wd_lane wd t), watch_at f1 t) of
           (Some s, Some w) \<Rightarrow>
             (True, f1\<lparr>fl_lane := (fl_lane f1)(t \<mapsto> (if fw_profile w = RunP then max s (fw_spend w) else fw_spend w))\<rparr>)
         | _ \<Rightarrow> (False, upd_watch t (\<lambda>w. w\<lparr>fw_state := ''init_error''\<rparr>) f1))"

definition text_of :: "string option \<Rightarrow> string" where
  "text_of x = dflt ''None'' x"

text \<open>One tick of the ladder: the spend and the box it reports go into the watch, its ceiling and the totals.\<close>

definition lane_tick :: "fleet_config \<Rightarrow> fleet_world \<Rightarrow> string \<Rightarrow> fleet \<Rightarrow> fleet" where
  "lane_tick cfg wd t f =
     (case (watch_at f t, fl_lane f t) of
        (Some w, Some s) \<Rightarrow>
          (let a = wd_lane wd t; sp = la_spend a (max s (fw_spend w));
               iid = (if fw_profile w = RunP
                      then (case nonempty (la_iid a) of Some i \<Rightarrow> Some i | None \<Rightarrow> nonempty (fw_iid w))
                      else Some (text_of (la_iid a)));
               st = (if fw_profile w = RunP then dflt ''unknown'' (nonempty (la_status a)) else ''watched'');
               f1 = log_io (IoLane t) f;
               f2 = upd_watch t (\<lambda>w. w\<lparr>fw_spend := sp, fw_iid := iid, fw_state := st\<rparr>) (f1\<lparr>fl_lane := (fl_lane f1)(t \<mapsto> sp)\<rparr>);
               f3 = ceiling_bind_box (fw_ceiling w) iid (charge_ceiling cfg t f2);
               f4 = (if fw_profile w = RunP then f3 else ceiling_bind_box (fw_ceiling w) (la_understudy a) f3);
               f5 = (if fw_profile w \<noteq> RunP \<and> la_replaced a then upd_watch t (\<lambda>w. w\<lparr>fw_unrecoverable_since := None\<rparr>) f4 else f4)
           in f5\<lparr>fl_spend_by_box := AList.update (text_of iid) (round4 sp) (fl_spend_by_box f5)\<rparr>)
      | _ \<Rightarrow> f)"

definition close_jobs :: "fleet_config \<Rightarrow> fleet_world \<Rightarrow> string \<Rightarrow> string option \<Rightarrow> fleet \<Rightarrow> fleet" where
  "close_jobs cfg wd t v f =
     (case v of
        None \<Rightarrow> f
      | Some s \<Rightarrow>
         (let f1 = upd_watch t (\<lambda>w. if s \<in> set [''budget'', ''drained'', ''self_parked''] then w\<lparr>fw_dormant := True\<rparr> else w) f
          in if s \<in> set STANDING_KEEP \<and> (case watch_at f1 t of Some w \<Rightarrow> fw_standing w | None \<Rightarrow> False)
             then standing_drain cfg wd t f1 else end_watch cfg t f1))"

definition jobs_verdict :: "fleet_config \<Rightarrow> fleet_world \<Rightarrow> string \<Rightarrow> bool \<Rightarrow> fleet \<Rightarrow> fleet" where
  "jobs_verdict cfg wd t listed f =
     (let v = la_verdict (wd_lane wd t); stamp = (\<lambda>x. Some (dflt (wd_clock wd) x))
      in if (\<exists>s\<in>set JOBS_TRANSIENT. v = Some s)
         then upd_watch t (\<lambda>w. w\<lparr>fw_state := dflt [] v, fw_queue_empty_since := stamp (fw_queue_empty_since w)\<rparr>) f
         else if v = Some ''identity_mismatch''
         then upd_watch t (\<lambda>w. w\<lparr>fw_state := ''identity_mismatch'', fw_identity_since := stamp (fw_identity_since w)\<rparr>) f
         else
          (let f1 = upd_watch t (\<lambda>w. w\<lparr>fw_queue_empty_since := None\<rparr>) f
           in if v = Some ''unrecoverable'' \<and> listed
              then upd_watch t (\<lambda>w. w\<lparr>fw_state := ''unrecoverable'', fw_unrecoverable_since := stamp (fw_unrecoverable_since w)\<rparr>) f1
              else
               close_jobs cfg wd t v (upd_watch t (\<lambda>w. w\<lparr>fw_unrecoverable_since := None\<rparr>) f1)))"

definition tick_policy :: "fleet_config \<Rightarrow> fleet_world \<Rightarrow> string \<Rightarrow> fleet_inst option \<Rightarrow> fleet \<Rightarrow> fleet" where
  "tick_policy cfg wd t inst f =
     (let f1 = upd_watch t (observe (wd_now wd) inst) f;
          (ready, f2) = (if fl_lane f1 t \<noteq> None then (True, f1) else init_runtime wd t f1)
      in if \<not> ready then f2
         else case watch_at f2 t of
                None \<Rightarrow> f2
              | Some w \<Rightarrow>
                 (let f3 = lane_tick cfg wd t f2
                  in if fw_profile w = RunP
                     then (if la_verdict (wd_lane wd t) = None then f3 else end_watch cfg t f3)
                     else jobs_verdict cfg wd t (inst \<noteq> None) f3))"

section \<open>The tick of a watch\<close>

definition after_colon :: "string \<Rightarrow> string" where
  "after_colon s = (if CHR '':'' \<in> set s then tl (dropWhile (\<lambda>c. c \<noteq> CHR '':'') s) else s)"

definition resolve_iid :: "string \<Rightarrow> fleet_watch \<Rightarrow> listing \<Rightarrow> string option" where
  "resolve_iid t w boxes =
     (if fw_profile w = RunP
      then (case find (\<lambda>(_, i). label_value (in_label i) ''run'' = Some (after_colon t)) boxes of
              Some (iid, _) \<Rightarrow> Some iid | None \<Rightarrow> fw_iid w)
      else Some (box_of t w))"

definition handoff_in_flight :: "fleet_world \<Rightarrow> string \<Rightarrow> listing \<Rightarrow> fleet \<Rightarrow> bool" where
  "handoff_in_flight wd t boxes f \<longleftrightarrow>
     fl_lane f t \<noteq> None \<and>
     (case Option.bind (wd_migration wd t) (map_of boxes) of Some i \<Rightarrow> inst_live i | None \<Rightarrow> False)"

text \<open>The check of a self-reported broken box: whether it was parked now.\<close>

definition pyhalf_tick :: "fleet_config \<Rightarrow> fleet_world \<Rightarrow> string \<Rightarrow> string option \<Rightarrow> fleet \<Rightarrow> bool \<times> fleet" where
  "pyhalf_tick cfg wd t iid f =
     (case (watch_at f t, nonempty iid) of
        (Some w, Some i) \<Rightarrow>
          if fw_profile w \<noteq> JobsP \<or> fc_pyhalf_confirm cfg \<le> 0 then (False, f)
          else if wd_pyhalf wd i \<noteq> Some True then (False, upd_watch t (\<lambda>w. w\<lparr>fw_pyhalf_since := None\<rparr>) f)
          else (case fw_pyhalf_since w of
             None \<Rightarrow> (False, upd_watch t (\<lambda>w. w\<lparr>fw_pyhalf_since := Some (wd_now wd)\<rparr>) f)
           | Some t0 \<Rightarrow>
              if wd_now wd - t0 < fc_pyhalf_confirm cfg then (False, f)
              else (let (ok, f1) = park_box wd i True f
                    in (True, upd_watch t (\<lambda>w. w\<lparr>fw_state := (if ok then ''pyhalf_parked'' else ''pyhalf_park_failed''),
                                 fw_dormant := ok\<rparr>) f1)))
      | _ \<Rightarrow> (False, f))"

text \<open>A standing watch that is dormant keeps accruing under its cap; it wakes on a ticket or a queue that is
  not drained, on a live box.\<close>

definition standing_tick ::
  "fleet_config \<Rightarrow> fleet_world \<Rightarrow> string \<Rightarrow> string \<Rightarrow> fleet_inst option \<Rightarrow> bool \<Rightarrow> fleet \<Rightarrow> bool \<times> fleet" where
  "standing_tick cfg wd t iid inst live f =
     (let f1 = accrue cfg wd t inst f
      in case watch_at f1 t of
           None \<Rightarrow> (False, f1)
         | Some w \<Rightarrow>
            if budget_breached cfg w f1
            then (False, if fw_state w = ''budget_parked'' then f1 else park_on_budget wd t f1)
            else if \<not> live then (False, upd_watch t (\<lambda>w. w\<lparr>fw_standing_live := None\<rparr>) f1)
            else (let f2 = upd_watch t (\<lambda>w. w\<lparr>fw_standing_live := Some (dflt (wd_now wd) (fw_standing_live w)), fw_wake := False\<rparr>) f1
              in if \<not> fw_wake w \<and> wd_drained wd iid \<noteq> Some False
                 then (False, if wd_drained wd iid = None then upd_watch t (\<lambda>w. w\<lparr>fw_queue_unknown := True\<rparr>) f2 else f2)
                 else (True, upd_watch t (\<lambda>w. w\<lparr>fw_queue_unknown := False, fw_standing_dormant := False, fw_dormant := False,
                               fw_state := ''watched'', fw_standing_since := None, fw_standing_live := None\<rparr>) f2)))"

definition tick_simple :: "fleet_config \<Rightarrow> fleet_world \<Rightarrow> string \<Rightarrow> fleet_inst option \<Rightarrow> fleet \<Rightarrow> fleet" where
  "tick_simple cfg wd t inst f =
     (case inst of
        None \<Rightarrow> upd_watch t (\<lambda>w. w\<lparr>fw_state := ''gone''\<rparr>) f
      | Some i \<Rightarrow>
         (let f1 = upd_watch t (\<lambda>w. w\<lparr>fw_state := (if inst_live i then ''live'' else ''not_live'')\<rparr>) (accrue cfg wd t inst f)
          in case watch_at f1 t of
               Some w \<Rightarrow> if budget_breached cfg w f1 then park_on_budget wd t f1 else f1
             | None \<Rightarrow> f1))"

text \<open>The part of a watch's tick that runs when nothing holds it back.\<close>

definition tick_active :: "fleet_config \<Rightarrow> fleet_world \<Rightarrow> string \<Rightarrow> string option \<Rightarrow> fleet_inst option \<Rightarrow> fleet \<Rightarrow> fleet" where
  "tick_active cfg wd t iid inst f =
     (let (parked, f1) = pyhalf_tick cfg wd t iid f
      in if parked then f1
         else case watch_at f1 t of
                None \<Rightarrow> f1
              | Some w \<Rightarrow>
                 if budget_breached cfg w f1 then park_on_budget wd t f1
                 else if global_breached cfg f1 then accrue cfg wd t inst f1
                 else if fw_profile w = BareP then tick_simple cfg wd t inst f1
                 else tick_policy cfg wd t inst f1)"

text \<open>A pause holds the policy back, not the accrual; a breach under it parks the box when it expires.\<close>

definition tick_unpaused :: "fleet_config \<Rightarrow> fleet_world \<Rightarrow> string \<Rightarrow> string option \<Rightarrow> fleet_inst option \<Rightarrow> fleet \<Rightarrow> fleet" where
  "tick_unpaused cfg wd t iid inst f =
     (case Option.bind (watch_at f t) (\<lambda>w. nz (fw_paused_until w)) of
        None \<Rightarrow> tick_active cfg wd t iid inst f
      | Some until \<Rightarrow>
         if until \<le> wd_now wd
         then (let pending = (case watch_at f t of Some w \<Rightarrow> fw_breach_pending w | None \<Rightarrow> False);
                   f1 = upd_watch t (\<lambda>w. w\<lparr>fw_paused_until := None, fw_state := ''watched'', fw_breach_pending := False\<rparr>) f
               in if pending then park_on_budget wd t f1 else tick_active cfg wd t iid inst f1)
         else (let f1 = accrue cfg wd t inst (upd_watch t (\<lambda>w. w\<lparr>fw_state := ''paused''\<rparr>) f)
               in upd_watch t (\<lambda>w. if budget_breached cfg w f1 then w\<lparr>fw_breach_pending := True\<rparr> else w) f1))"

definition tick_present :: "fleet_config \<Rightarrow> fleet_world \<Rightarrow> string \<Rightarrow> string option \<Rightarrow> fleet_inst option \<Rightarrow> fleet \<Rightarrow> fleet" where
  "tick_present cfg wd t iid inst f =
     (let f1 = upd_watch t (\<lambda>w. w\<lparr>fw_missing := 0\<rparr>) f;
          intent = fl_intents f1 (text_of iid);
          live = (case inst of Some i \<Rightarrow> inst_live i | None \<Rightarrow> False)
      in case watch_at f1 t of
           None \<Rightarrow> f1
         | Some w \<Rightarrow>
            if intent \<noteq> None
            then (if fw_dormant w then f1 else upd_watch t (\<lambda>w. w\<lparr>fw_dormant := True, fw_state := ''dormant''\<rparr>) f1)
            else (let f2 = (if fw_standing_dormant w \<and> \<not> fw_dormant w
                            then upd_watch t (\<lambda>w. w\<lparr>fw_dormant := True, fw_state := ''standing''\<rparr>) f1 else f1)
              in if \<not> (fw_dormant w \<or> fw_standing_dormant w) then tick_unpaused cfg wd t iid inst f2
                 else if fw_standing_dormant w
                 then (let (woken, f3) = standing_tick cfg wd t (text_of iid) inst live f2
                       in if woken then tick_unpaused cfg wd t iid inst f3 else f3)
                 else if live
                 then tick_unpaused cfg wd t iid inst (upd_watch t (\<lambda>w. w\<lparr>fw_dormant := False, fw_state := ''watched''\<rparr>) f2)
                 else f2))"

definition tick_watch :: "fleet_config \<Rightarrow> fleet_world \<Rightarrow> listing \<Rightarrow> string \<Rightarrow> fleet \<Rightarrow> fleet" where
  "tick_watch cfg wd boxes t f =
     (case watch_at f t of
        None \<Rightarrow> f
      | Some w \<Rightarrow>
         (let iid = resolve_iid t w boxes;
              f1 = upd_watch t (\<lambda>w. if fw_profile w = RunP then w\<lparr>fw_iid := iid\<rparr> else w) f;
              inst = Option.bind (nonempty iid) (map_of boxes)
          in case fw_pending w of
               Some a \<Rightarrow> exec_action wd (dflt t (nonempty iid)) a (Some t) (upd_watch t (\<lambda>w. w\<lparr>fw_pending := None\<rparr>) f1)
             | None \<Rightarrow>
                if inst = None \<and> fw_profile w \<noteq> RunP \<and> \<not> handoff_in_flight wd t boxes f1
                then (let f2 = upd_watch t (\<lambda>w. w\<lparr>fw_missing := fw_missing w + 1\<rparr>) f1
                      in if 2 \<le> fw_missing w + 1 then end_watch cfg t f2 else f2)
                else tick_present cfg wd t iid inst f1))"

section \<open>Deferred destroys\<close>

definition DESTROY_CONFIRM_OBS :: nat where "DESTROY_CONFIRM_OBS = 2"
definition DESTROY_CONFIRM_S :: rat where "DESTROY_CONFIRM_S = 90"
definition DESTROY_TTL_S :: rat where "DESTROY_TTL_S = 24 * 3600"

definition PARKED_NAMES :: "string list" where "PARKED_NAMES = [''stopped'', ''exited'', ''offline'']"

definition destroy_condition :: "fleet_world \<Rightarrow> string \<Rightarrow> fleet_inst \<Rightarrow> destroy_when \<Rightarrow> bool" where
  "destroy_condition wd iid i wh =
     (case wh of WhenNow \<Rightarrow> True
      | WhenParked \<Rightarrow> inst_status i \<in> set PARKED_NAMES
      | WhenDrained \<Rightarrow> wd_drained wd iid = Some True)"

definition put_destroy :: "string \<Rightarrow> destroy_req \<Rightarrow> fleet \<Rightarrow> fleet" where
  "put_destroy iid r f = f\<lparr>fl_destroys := AList.update iid r (fl_destroys f)\<rparr>"

definition drop_destroy :: "string \<Rightarrow> fleet \<Rightarrow> fleet" where
  "drop_destroy iid f = f\<lparr>fl_destroys := AList.delete iid (fl_destroys f)\<rparr>"

definition forget_box :: "string \<Rightarrow> fleet \<Rightarrow> fleet" where
  "forget_box iid f = drop_stray iid (foldl (\<lambda>g t. drop_watch t g) (drop_destroy iid f) (watches_on iid f))"

text \<open>The request after its condition was seen to hold once more.\<close>

definition confirmed :: "rat \<Rightarrow> destroy_req \<Rightarrow> destroy_req" where
  "confirmed now r = r\<lparr>dr_streak := dr_streak r + 1, dr_since := Some (dflt now (dr_since r))\<rparr>"

definition unconfirmed :: "destroy_req \<Rightarrow> destroy_req" where
  "unconfirmed r = r\<lparr>dr_streak := 0, dr_since := None\<rparr>"

definition destroy_one :: "fleet_world \<Rightarrow> listing \<Rightarrow> string \<Rightarrow> destroy_req \<Rightarrow> fleet \<Rightarrow> fleet" where
  "destroy_one wd boxes iid r f =
     (if DESTROY_TTL_S < wd_now wd - dr_ts r then drop_destroy iid f
      else case map_of boxes iid of
        None \<Rightarrow> drop_destroy iid f
      | Some i \<Rightarrow>
         if \<not> destroy_condition wd iid i (dr_when r) then put_destroy iid (unconfirmed r) f
         else (let r1 = confirmed (wd_now wd) r; held = wd_now wd - the (dr_since r1)
           in if dr_when r \<noteq> WhenNow \<and> (dr_streak r1 < DESTROY_CONFIRM_OBS \<or> held < DESTROY_CONFIRM_S)
              then put_destroy iid r1 f
              else if dr_results_check r \<and> dr_when r \<noteq> WhenNow \<and> wd_results wd iid = Some False
              then put_destroy iid (unconfirmed r) f
              else if \<not> wd_restat wd iid then drop_destroy iid f
              else (let f1 = log_io (IoDestroy iid) (put_destroy iid r1 f)
                    in if wd_destroy wd iid then forget_box iid f1 else f1)))"

definition tick_destroys :: "fleet_world \<Rightarrow> listing \<Rightarrow> fleet \<Rightarrow> fleet" where
  "tick_destroys wd boxes f = foldl (\<lambda>g (iid, r). destroy_one wd boxes iid r g) f (fl_destroys f)"

section \<open>Strays\<close>

definition UNWATCHED_STALE_S :: rat where "UNWATCHED_STALE_S = 900"

definition grace_for_dph :: "fleet_config \<Rightarrow> rat option \<Rightarrow> rat" where
  "grace_for_dph cfg dph =
     (case dph of None \<Rightarrow> fc_grace_expensive cfg
      | Some d \<Rightarrow> if fc_expensive_dph cfg \<le> d then fc_grace_expensive cfg else fc_grace cfg)"

definition stray_prunable :: "rat \<Rightarrow> listing \<Rightarrow> string \<times> stray \<Rightarrow> bool" where
  "stray_prunable now boxes x \<longleftrightarrow>
     map_of boxes (fst x) = None \<and>
     (case sr_live_ts (snd x) of None \<Rightarrow> True | Some seen \<Rightarrow> UNWATCHED_STALE_S < now - seen)"

definition tick_stray :: "fleet_config \<Rightarrow> fleet_world \<Rightarrow> rat \<Rightarrow> string list \<Rightarrow> string \<times> fleet_inst \<Rightarrow> fleet \<Rightarrow> fleet" where
  "tick_stray cfg wd obs_dt watched b f =
     (let iid = fst b; i = snd b; now = wd_now wd
      in if iid \<in> set watched then drop_stray iid f
         else if \<not> inst_live i \<or> label_exempt (in_label i) then f
         else
          (let s = (dflt new_stray (map_of (fl_strays f) iid))\<lparr>sr_live_ts := Some now\<rparr>;
               f1 = upd_stray iid (\<lambda>_. s) f
           in case sr_pending s of
                Some a \<Rightarrow> exec_action wd iid a None (upd_stray iid (\<lambda>s. s\<lparr>sr_pending := None\<rparr>) f1)
              | None \<Rightarrow>
                 if (case nz (sr_paused_until s) of Some u \<Rightarrow> now < u | None \<Rightarrow> False) then f1
                 else
                  (let s2 = s\<lparr>sr_observed := sr_observed s + obs_dt\<rparr>; f2 = upd_stray iid (\<lambda>_. s2) f1
                   in if workload_evidence i (wd_health wd iid) \<noteq> None
                      then (case watch cfg iid BareP None True (in_label i) False None (drop_stray iid f2) of
                              (Inl _, f3) \<Rightarrow> upd_stray iid (\<lambda>_. s2) f3
                            | (Inr _, f3) \<Rightarrow> f3)
                      else if nz (sr_parked_ts s2) \<noteq> None then f2
                      else (let grace = grace_for_dph cfg (in_dph i)
                        in if 0 < grace \<and> grace \<le> sr_observed s2
                           then (let (ok, f3) = park_box wd iid True f2
                                 in upd_stray iid (\<lambda>s. s\<lparr>sr_parked_ts := (if ok then Some now else None)\<rparr>) f3)
                           else f2))))"

definition tick_strays :: "fleet_config \<Rightarrow> fleet_world \<Rightarrow> rat \<Rightarrow> listing \<Rightarrow> fleet \<Rightarrow> fleet" where
  "tick_strays cfg wd obs_dt boxes f =
     (let watched = map (\<lambda>(t, w). box_of t w) (fl_watches f);
          f1 = f\<lparr>fl_strays := filter (\<lambda>x. \<not> stray_prunable (wd_now wd) boxes x) (fl_strays f)\<rparr>
      in foldl (\<lambda>g b. tick_stray cfg wd obs_dt watched b g) f1 boxes)"

section \<open>The pass\<close>

definition MAX_OBS_DT_S :: rat where "MAX_OBS_DT_S = 300"

definition obs_dt_of :: "fleet \<Rightarrow> rat \<Rightarrow> rat" where
  "obs_dt_of f now = (case nz (fl_last_ok f) of None \<Rightarrow> 0 | Some l \<Rightarrow> min (max 0 (now - l)) MAX_OBS_DT_S)"

text \<open>A listing that cannot be read changes nothing.\<close>

definition fleet_tick :: "fleet_config \<Rightarrow> fleet_world \<Rightarrow> fleet \<Rightarrow> fleet" where
  "fleet_tick cfg wd f =
     (case wd_instances wd of
        None \<Rightarrow> f
      | Some insts \<Rightarrow>
         (let boxes = by_iid insts; dt = obs_dt_of f (wd_now wd);
              f1 = tick_destroys wd boxes f;
              f2 = foldl (\<lambda>g t. tick_watch cfg wd boxes t g) f1 (map fst (fl_watches f1));
              f3 = tick_strays cfg wd dt boxes f2
          in f3\<lparr>fl_last_ok := Some (wd_now wd)\<rparr>))"

datatype fleet_call =
    WatchCall string profile "rat option" string bool "bool option"
  | UnwatchCall string
  | PauseCall string "rat option" rat
  | ActionCall string box_action
  | IntentCall string operator_kind
  | TicketCall string
  | DestroyCall string destroy_when bool bool rat
  | TickCall fleet_world

fun fleet_apply :: "fleet_config \<Rightarrow> fleet \<Rightarrow> fleet_call \<Rightarrow> fleet" where
  "fleet_apply cfg f (WatchCall t p b l r s) = snd (watch cfg t p b False l r s f)"
| "fleet_apply cfg f (UnwatchCall t) = snd (unwatch t f)"
| "fleet_apply cfg f (PauseCall t s n) = pause t s n f"
| "fleet_apply cfg f (ActionCall t a) = request_action t a f"
| "fleet_apply cfg f (IntentCall t k) = operator_intent t k f"
| "fleet_apply cfg f (TicketCall t) = ticket_placed t f"
| "fleet_apply cfg f (DestroyCall t wh y rc n) = snd (request_destroy t wh y rc n f)"
| "fleet_apply cfg f (TickCall wd) = fleet_tick cfg wd f"

section \<open>Relations every operation keeps\<close>

text \<open>Updates of a watch that leave its identity as a spender alone.\<close>

definition keeps_cap :: "(fleet_watch \<Rightarrow> fleet_watch) \<Rightarrow> bool" where
  "keeps_cap g \<longleftrightarrow> (\<forall>w. fw_budget (g w) = fw_budget w \<and> fw_adopted (g w) = fw_adopted w \<and> fw_ceiling (g w) = fw_ceiling w)"

definition is_destroy :: "fleet_io \<Rightarrow> bool" where
  "is_destroy x \<longleftrightarrow> (\<exists>i. x = IoDestroy i)"

lemma is_destroy_simps [simp]:
  "is_destroy (IoDestroy i)" "\<not> is_destroy (IoPark i)" "\<not> is_destroy (IoResume i)" "\<not> is_destroy (IoKeep i)" "\<not> is_destroy (IoLane i)"
  by (simp_all add: is_destroy_def)

lemma observe_cap [simp]:
  "fw_budget (observe now inst w) = fw_budget w" "fw_adopted (observe now inst w) = fw_adopted w"
  "fw_ceiling (observe now inst w) = fw_ceiling w"
  by (auto simp: observe_def Let_def split: option.split)

lemma backfill_cap [simp]:
  "fw_budget (spend_backfill t w) = fw_budget w" "fw_adopted (spend_backfill t w) = fw_adopted w"
  "fw_ceiling (spend_backfill t w) = fw_ceiling w"
  by (auto simp: spend_backfill_def split: option.split)

lemma keeps_cap_ops: "keeps_cap (observe now inst)" "keeps_cap (spend_backfill t)"
  by (simp_all add: keeps_cap_def)

text \<open>The contract of a relation between a state and a later one: every primitive change keeps it. Then
  every tick of a watch keeps it.\<close>

locale fleet_frame =
  fixes cfg :: fleet_config and R :: "fleet \<Rightarrow> fleet \<Rightarrow> bool"
  assumes R_refl: "R f f"
    and R_trans: "R f g \<Longrightarrow> R g h \<Longrightarrow> R f h"
    and R_watch: "keeps_cap u \<Longrightarrow> R g (upd_watch t u g)"
    and R_drop: "R g (drop_watch t g)"
    and R_strays: "R g (g\<lparr>fl_strays := ss\<rparr>)"
    and R_intents: "R g (g\<lparr>fl_intents := m\<rparr>)"
    and R_io: "\<not> is_destroy x \<Longrightarrow> R g (log_io x g)"
    and R_totals: "R g (g\<lparr>fl_spend_by_box := bs\<rparr>)"
    and R_lane: "R g (g\<lparr>fl_lane := l\<rparr>)"
    and R_charge: "R g (charge_ceiling cfg t g)"
    and R_bind: "R g (ceiling_bind_box cid iid g)"
    and R_note: "R g (note_end cfg t e ep g)"
begin

lemma R_intros [intro!]:
  "R f g \<Longrightarrow> keeps_cap u \<Longrightarrow> R f (upd_watch t u g)"
  "R f g \<Longrightarrow> R f (drop_watch t g)"
  "R f g \<Longrightarrow> R f (g\<lparr>fl_strays := ss\<rparr>)"
  "R f g \<Longrightarrow> R f (g\<lparr>fl_intents := m\<rparr>)"
  "R f g \<Longrightarrow> \<not> is_destroy x \<Longrightarrow> R f (log_io x g)"
  "R f g \<Longrightarrow> R f (g\<lparr>fl_spend_by_box := bs\<rparr>)"
  "R f g \<Longrightarrow> R f (g\<lparr>fl_lane := l\<rparr>)"
  "R f g \<Longrightarrow> R f (charge_ceiling cfg t g)"
  "R f g \<Longrightarrow> R f (ceiling_bind_box cid iid g)"
  "R f g \<Longrightarrow> R f (note_end cfg t e ep g)"
  by (blast intro: R_trans R_watch R_drop R_strays R_intents R_io R_totals R_lane R_charge R_bind R_note)+

lemma R_dropped [intro!]:
  "R f g \<Longrightarrow> R f (drop_stray i g)" "R f g \<Longrightarrow> R f (drop_intent i g)" "R f g \<Longrightarrow> R f (upd_stray i h g)"
  by (auto simp: drop_stray_def drop_intent_def upd_stray_def)

lemma R_park [intro!]: "R f g \<Longrightarrow> R f (snd (park_box wd iid graded g))"
  by (auto simp: park_box_def Let_def)

lemma R_action [intro!]: "R f g \<Longrightarrow> R f (exec_action wd iid a t g)"
  by (auto simp: exec_action_def Let_def case_prod_beta keeps_cap_def split: box_action.split option.split)

lemma R_park_budget [intro!]: "R f g \<Longrightarrow> R f (park_on_budget wd t g)"
  by (auto simp: park_on_budget_def Let_def case_prod_beta keeps_cap_def split: option.split)

lemma R_accrue [intro!]: "R f g \<Longrightarrow> R f (accrue cfg wd t inst g)"
  unfolding accrue_def Let_def by (auto simp: keeps_cap_def split: option.split)

lemma R_end [intro!]: "R f g \<Longrightarrow> R f (end_watch cfg t g)"
  by (auto simp: end_watch_def)

lemma R_standing_drain [intro!]: "R f g \<Longrightarrow> R f (standing_drain cfg wd t g)"
  by (auto simp: standing_drain_def keeps_cap_def)

lemma R_init [intro!]: "R f g \<Longrightarrow> R f (snd (init_runtime wd t g))"
  unfolding init_runtime_def Let_def by (auto simp: keeps_cap_def split: option.split)

lemma R_lane_tick [intro!]: "R f g \<Longrightarrow> R f (lane_tick cfg wd t g)"
  unfolding lane_tick_def Let_def by (auto simp: keeps_cap_def split: option.split)

lemma R_close [intro!]: "R f g \<Longrightarrow> R f (close_jobs cfg wd t v g)"
  unfolding close_jobs_def Let_def by (cases v) (auto simp: keeps_cap_def)

lemma R_jobs_verdict [intro!]: "R f g \<Longrightarrow> R f (jobs_verdict cfg wd t listed g)"
  unfolding jobs_verdict_def Let_def by (auto simp: keeps_cap_def)

lemma R_policy [intro!]: "R f g \<Longrightarrow> R f (tick_policy cfg wd t inst g)"
proof -
  assume "R f g"
  then have a: "R f (upd_watch t (observe (wd_now wd) inst) g)" using keeps_cap_ops(1) by blast
  then have "R f (snd (init_runtime wd t (upd_watch t (observe (wd_now wd) inst) g)))" by blast
  with a show ?thesis unfolding tick_policy_def Let_def by (auto simp: case_prod_beta split: option.split)
qed

lemma R_pyhalf [intro!]: "R f g \<Longrightarrow> R f (snd (pyhalf_tick cfg wd t iid g))"
  by (auto simp: pyhalf_tick_def Let_def case_prod_beta keeps_cap_def split: option.split)

lemma R_standing [intro!]: "R f g \<Longrightarrow> R f (snd (standing_tick cfg wd t iid inst live g))"
  unfolding standing_tick_def Let_def by (auto simp: keeps_cap_def split: option.split)

lemma R_simple [intro!]: "R f g \<Longrightarrow> R f (tick_simple cfg wd t inst g)"
  unfolding tick_simple_def Let_def by (auto simp: keeps_cap_def split: option.split)

lemma R_active [intro!]: "R f g \<Longrightarrow> R f (tick_active cfg wd t iid inst g)"
  unfolding tick_active_def Let_def by (auto simp: case_prod_beta split: option.split)

lemma R_unpaused [intro!]: "R f g \<Longrightarrow> R f (tick_unpaused cfg wd t iid inst g)"
  unfolding tick_unpaused_def Let_def by (auto simp: keeps_cap_def split: option.split)

lemma R_present [intro!]: "R f g \<Longrightarrow> R f (tick_present cfg wd t iid inst g)"
  unfolding tick_present_def Let_def by (auto simp: case_prod_beta keeps_cap_def split: option.split)

lemma R_tick_watch [intro!]: "R f g \<Longrightarrow> R f (tick_watch cfg wd boxes t g)"
  unfolding tick_watch_def Let_def by (auto simp: keeps_cap_def split: option.split)

lemma R_watches: "R f g \<Longrightarrow> R f (foldl (\<lambda>g t. tick_watch cfg wd boxes t g) g ts)"
  by (induction ts arbitrary: g) auto

end

text \<open>With registrations kept as well, the safety net over strays keeps the relation; with destroy requests,
  so does every call.\<close>

locale fleet_frame_reg = fleet_frame +
  assumes R_register: "\<not> reset \<Longrightarrow> R g (register cfg t p b ad l reset st g)"
begin

lemma R_watch_call [intro!]: "R f g \<Longrightarrow> \<not> reset \<Longrightarrow> R f (snd (watch cfg t p b ad l reset st g))"
  by (auto simp: watch_def split: option.split sum.split intro: R_trans R_register)

lemma R_tick_stray [intro!]: "R f g \<Longrightarrow> R f (tick_stray cfg wd dt watched b g)"
proof -
  assume "R f g"
  moreover have "R f (snd (watch cfg i BareP None True l False None (drop_stray i h)))" if "R f h" for i l h
    using that by auto
  ultimately show ?thesis
    unfolding tick_stray_def Let_def
    by (auto simp: case_prod_beta split: option.split sum.split prod.split)
qed

lemma R_strays_fold: "R f g \<Longrightarrow> R f (foldl (\<lambda>g b. tick_stray cfg wd dt watched b g) g bs)"
  by (induction bs arbitrary: g) auto

lemma R_tick_strays [intro!]: "R f g \<Longrightarrow> R f (tick_strays cfg wd dt boxes g)"
  unfolding tick_strays_def Let_def by (auto intro!: R_strays_fold)

lemma R_drops [intro!]: "R f g \<Longrightarrow> R f (foldl (\<lambda>g t. drop_watch t g) g ts)"
  by (induction ts arbitrary: g) auto

end

fun resets :: "fleet_call \<Rightarrow> bool" where
  "resets (WatchCall t p b l reset st) = reset"
| "resets k = False"

locale fleet_frame_all = fleet_frame_reg +
  assumes R_destroys: "R g (g\<lparr>fl_destroys := ds\<rparr>)"
    and R_any_io: "R g (log_io x g)"
    and R_ok: "R g (g\<lparr>fl_last_ok := tt\<rparr>)"
begin

lemma R_more [intro!]:
  "R f g \<Longrightarrow> R f (g\<lparr>fl_destroys := ds\<rparr>)" "R f g \<Longrightarrow> R f (log_io (IoDestroy i) g)" "R f g \<Longrightarrow> R f (g\<lparr>fl_last_ok := tt\<rparr>)"
  by (erule R_trans, rule R_destroys R_any_io R_ok)+

lemma R_tick_destroys [intro!]: "R f g \<Longrightarrow> R f (tick_destroys wd boxes g)"
proof -
  have one: "R f (destroy_one wd boxes iid r g)" if "R f g" for iid r g
    using that unfolding destroy_one_def Let_def put_destroy_def drop_destroy_def forget_box_def
    by (auto split: option.split)
  have "R f (foldl (\<lambda>g (iid, r). destroy_one wd boxes iid r g) g ds)" if "R f g" for ds g
    using that by (induction ds arbitrary: g) (auto intro: one)
  then show "R f g \<Longrightarrow> R f (tick_destroys wd boxes g)" unfolding tick_destroys_def by blast
qed

lemma R_fleet_tick: "R f g \<Longrightarrow> R f (fleet_tick cfg wd g)"
  unfolding fleet_tick_def Let_def by (auto split: option.split intro!: R_watches)

lemma R_fleet_apply: "R f g \<Longrightarrow> \<not> resets k \<Longrightarrow> R f (fleet_apply cfg g k)"
proof (cases k)
  case (IntentCall t x)
  assume "R f g"
  then show ?thesis using IntentCall
    by (cases x) (auto simp: operator_intent_def Let_def keeps_cap_def split: option.split)
next
  case (DestroyCall t wh y rc n)
  assume "R f g"
  then show ?thesis using DestroyCall by (auto simp: request_destroy_def Let_def)
qed (auto simp: unwatch_def pause_def request_action_def ticket_placed_def Let_def keeps_cap_def R_fleet_tick split: option.split)

lemma R_fleet_run: "R f g \<Longrightarrow> list_all (\<lambda>k. \<not> resets k) calls \<Longrightarrow> R f (foldl (fleet_apply cfg) g calls)"
  by (induction calls arbitrary: g) (auto intro: R_fleet_apply)

end

section \<open>The ledger over any sequence of calls\<close>

lemma note_end_grows: "ledger_grows f (note_end cfg t e ep f)"
proof -
  let ?f1 = "charge_ceiling cfg t f"
  have put: "ledger_grows ?f1 (put_ceiling c (add_history ev (if ep then r\<lparr>cl_epochs := n\<rparr> else r)) g)"
    if "r = as_dict (the (fl_ceilings g c))" "fl_ceilings g c \<noteq> None" "ledger g = ledger ?f1" for r g c ev n
  proof -
    have "ledger_grows g (put_ceiling c (add_history ev (if ep then r\<lparr>cl_epochs := n\<rparr> else r)) g)"
      using that(1,2) ledger_at [of g c] by (intro ledger_grows_put) (auto simp: add_history_def)
    then show ?thesis using that(3) by (simp add: ledger_grows_def)
  qed
  show ?thesis
  proof (cases "watch_at ?f1 t")
    case None
    then show ?thesis by (simp add: note_end_def charge_ceiling_grows)
  next
    case (Some w)
    obtain found g where g: "ceiling_read cfg (fw_ceiling w) ?f1 = (found, g)" by (cases "ceiling_read cfg (fw_ceiling w) ?f1")
    then have l: "ledger g = ledger ?f1" using ceiling_read_ledger [of cfg "fw_ceiling w" ?f1] by simp
    then have grow: "ledger_grows ?f1 g" by (simp add: ledger_grows_def)
    have "ledger_grows ?f1 (note_end cfg t e ep f)"
    proof (cases found)
      case None
      then show ?thesis using Some g grow by (simp add: note_end_def Let_def)
    next
      case (Some p)
      obtain cap sp where p: "p = (cap, sp)" by (cases p)
      obtain c r where c: "nonempty (fw_ceiling w) = Some c" "fl_ceilings ?f1 c = Some r"
        using ceiling_read_found [of cfg "fw_ceiling w" ?f1 cap sp g] g Some p by blast
      have "ledger g c \<noteq> None" using l c(2) by (simp add: ledger_def)
      then have "fl_ceilings g c \<noteq> None" by (auto simp: ledger_def)
      then show ?thesis using \<open>watch_at ?f1 t = Some w\<close> g Some p c(1) l
        by (simp add: note_end_def Let_def put)
    qed
    then show ?thesis by (rule ledger_grows_trans [OF charge_ceiling_grows])
  qed
qed

lemma resolve_grows: "ledger_grows f (snd (resolve_watch_ceiling cfg t b ad l False f))"
proof -
  obtain found g where g: "ceiling_read cfg (resolve_ceiling_id t l f) f = (found, g)"
    by (cases "ceiling_read cfg (resolve_ceiling_id t l f) f")
  then have "ledger g = ledger f" using ceiling_read_ledger [of cfg "resolve_ceiling_id t l f" f] by simp
  then have "ledger_grows f g" by (simp add: ledger_grows_def)
  moreover have "ledger_grows f (snd (ceiling_arm c cap src False g))" for c cap src
    using ledger_grows_trans [OF \<open>ledger_grows f g\<close> ceiling_arm_grows] .
  ultimately show ?thesis using g
    by (auto simp: resolve_watch_ceiling_def Let_def case_prod_beta split: option.split bool.split)
qed

lemma register_ledger: "ledger (register cfg t p b ad l rst st f) = ledger (snd (resolve_watch_ceiling cfg t b ad l rst f))"
proof -
  let ?g = "snd (resolve_watch_ceiling cfg t b ad l rst f)"
  obtain cid iid ws where
    "fl_ceilings (register cfg t p b ad l rst st f) = fl_ceilings (ceiling_bind_box cid iid (?g\<lparr>fl_watches := ws\<rparr>))"
    by (auto simp: register_def Let_def case_prod_beta drop_intent_def drop_stray_def)
  then have "ledger (register cfg t p b ad l rst st f) = ledger (ceiling_bind_box cid iid (?g\<lparr>fl_watches := ws\<rparr>))"
    by (rule ledger_cong)
  also have "ledger (ceiling_bind_box cid iid (?g\<lparr>fl_watches := ws\<rparr>)) = ledger (?g\<lparr>fl_watches := ws\<rparr>)"
    by (rule ceiling_bind_rest)
  also have "ledger (?g\<lparr>fl_watches := ws\<rparr>) = ledger ?g" by (rule ledger_cong) simp
  finally show ?thesis .
qed

interpretation lg: fleet_frame_all cfg ledger_grows
proof unfold_locales
  show "ledger_grows g (register cfg t p b ad l reset st g)" if "\<not> reset" for reset g t p b ad l st
    using that resolve_grows [of g cfg t b ad l] by (simp add: ledger_grows_def register_ledger)
qed (auto simp: ledger_growsI ledger_grows_trans charge_ceiling_grows note_end_grows drop_watch_def log_io_def
      intro: ledger_grows_trans ledger_growsI, simp add: ledger_grows_def)

end
