(* ===== verification/FleetSafety.thy ===== *)
theory FleetSafety
  imports FleetTick
begin

text \<open>
  What the fleet daemon can and cannot do, over any sequence of its calls: spending against a ceiling,
  destroying, the safety net over strays, and the caps of adopted boxes.

  Lemma groups: interpretations of \<open>fleet_frame\<close> (a tick of a watch touches no destroy request and
  keeps what a watch may spend); when the ladder is called; the history behind a destroy.
\<close>

section \<open>The spending identity of a watch\<close>

text \<open>A later state has the watch only if the earlier one had it, with the same budget and ceiling, and
  its ledger has not shrunk.\<close>

definition same_caps :: "string \<Rightarrow> fleet \<Rightarrow> fleet \<Rightarrow> bool" where
  "same_caps t f g \<longleftrightarrow> ledger_grows f g \<and>
     (\<forall>w'. watch_at g t = Some w' \<longrightarrow>
        (\<exists>w. watch_at f t = Some w \<and> fw_budget w' = fw_budget w \<and> fw_ceiling w' = fw_ceiling w))"

lemma same_capsD: "same_caps t f g \<Longrightarrow> watch_at g t = Some w' \<Longrightarrow>
    \<exists>w. watch_at f t = Some w \<and> fw_budget w' = fw_budget w \<and> fw_ceiling w' = fw_ceiling w"
  by (simp add: same_caps_def)

lemma watch_at_charge:
  "watch_at (charge_ceiling cfg t g) s = Some w' \<Longrightarrow>
     \<exists>w. watch_at g s = Some w \<and> fw_budget w' = fw_budget w \<and> fw_ceiling w' = fw_ceiling w \<and> fw_adopted w' = fw_adopted w"
  by (auto simp: charge_ceiling_def Let_def case_prod_beta watch_at_upd split: option.splits if_splits)

lemma watch_at_note [simp]: "watch_at (note_end cfg t e ep g) s = watch_at (charge_ceiling cfg t g) s"
  by (auto simp: note_end_def Let_def case_prod_beta split: option.split)

lemma watch_at_frame [simp]:
  "watch_at (log_io x g) s = watch_at g s"
  "watch_at (g\<lparr>fl_strays := ss\<rparr>) s = watch_at g s" "watch_at (g\<lparr>fl_intents := m\<rparr>) s = watch_at g s"
  "watch_at (g\<lparr>fl_spend_by_box := bs\<rparr>) s = watch_at g s" "watch_at (g\<lparr>fl_lane := l\<rparr>) s = watch_at g s"
  "watch_at (g\<lparr>fl_destroys := ds\<rparr>) s = watch_at g s" "watch_at (g\<lparr>fl_last_ok := tt\<rparr>) s = watch_at g s"
  by (simp_all add: watch_at_def log_io_def)

interpretation caps: fleet_frame cfg "same_caps t"
proof unfold_locales
  show "same_caps t f h" if "same_caps t f g" "same_caps t g h" for f g h
    using that ledger_grows_trans [of f g h] unfolding same_caps_def by metis
qed (auto simp: same_caps_def watch_at_upd watch_at_drop keeps_cap_def charge_ceiling_grows note_end_grows
      intro: ledger_growsI lg.R_watch lg.R_drop lg.R_io lg.R_bind dest: watch_at_charge split: if_splits)

section \<open>When the ladder is called\<close>

lemma note_end_rest [simp]: "fl_io (note_end cfg t e ep f) = fl_io f" "fl_destroys (note_end cfg t e ep f) = fl_destroys f"
  by (simp_all add: note_end_def Let_def case_prod_beta split: option.split)

lemma io_frame [simp]:
  "fl_io (log_io x f) = fl_io f @ [x]" "fl_io (drop_watch t f) = fl_io f" "fl_io (drop_intent i f) = fl_io f"
  "fl_io (drop_stray i f) = fl_io f" "fl_io (upd_stray i h f) = fl_io f" "fl_io (end_watch cfg t f) = fl_io f"
  "fl_io (standing_drain cfg wd t f) = fl_io f" "fl_io (accrue cfg wd t inst f) = fl_io f"
  "fl_io (snd (init_runtime wd t f)) = fl_io f" "fl_io (close_jobs cfg wd t v f) = fl_io f"
  "fl_io (jobs_verdict cfg wd t listed f) = fl_io f"
  by (auto simp: log_io_def drop_watch_def drop_intent_def drop_stray_def upd_stray_def end_watch_def standing_drain_def
      accrue_def init_runtime_def close_jobs_def jobs_verdict_def Let_def split: option.split)

lemma lane_not_logged [simp]:
  "IoLane t' \<in> set (fl_io (snd (park_box wd iid gr f))) \<longleftrightarrow> IoLane t' \<in> set (fl_io f)"
  "IoLane t' \<in> set (fl_io (park_on_budget wd t f)) \<longleftrightarrow> IoLane t' \<in> set (fl_io f)"
  "IoLane t' \<in> set (fl_io (exec_action wd iid a tg f)) \<longleftrightarrow> IoLane t' \<in> set (fl_io f)"
  "IoLane t' \<in> set (fl_io (snd (pyhalf_tick cfg wd t i f))) \<longleftrightarrow> IoLane t' \<in> set (fl_io f)"
  "IoLane t' \<in> set (fl_io (snd (standing_tick cfg wd t b inst live f))) \<longleftrightarrow> IoLane t' \<in> set (fl_io f)"
  "IoLane t' \<in> set (fl_io (tick_simple cfg wd t inst f)) \<longleftrightarrow> IoLane t' \<in> set (fl_io f)"
proof -
  show p: "IoLane t' \<in> set (fl_io (snd (park_box wd iid gr f))) \<longleftrightarrow> IoLane t' \<in> set (fl_io f)" for wd iid gr f
    by (simp add: park_box_def Let_def)
  show b: "IoLane t' \<in> set (fl_io (park_on_budget wd t f)) \<longleftrightarrow> IoLane t' \<in> set (fl_io f)" for wd t f
    by (simp add: park_on_budget_def Let_def case_prod_beta p split: option.split)
  show "IoLane t' \<in> set (fl_io (exec_action wd iid a tg f)) \<longleftrightarrow> IoLane t' \<in> set (fl_io f)"
    by (simp add: exec_action_def Let_def case_prod_beta p split: option.split box_action.split)
  show "IoLane t' \<in> set (fl_io (snd (pyhalf_tick cfg wd t i f))) \<longleftrightarrow> IoLane t' \<in> set (fl_io f)"
    by (simp add: pyhalf_tick_def Let_def case_prod_beta p split: option.split)
  show "IoLane t' \<in> set (fl_io (snd (standing_tick cfg wd t b inst live f))) \<longleftrightarrow> IoLane t' \<in> set (fl_io f)"
    by (simp add: standing_tick_def Let_def b split: option.split)
  show "IoLane t' \<in> set (fl_io (tick_simple cfg wd t inst f)) \<longleftrightarrow> IoLane t' \<in> set (fl_io f)"
    by (simp add: tick_simple_def Let_def b split: option.split)
qed

text \<open>A state on the way in which the watch was under its budget and the fleet under its own.\<close>

definition licensed :: "fleet_config \<Rightarrow> string \<Rightarrow> fleet \<Rightarrow> bool" where
  "licensed cfg t f \<longleftrightarrow> (\<exists>g w. same_caps t f g \<and> watch_at g t = Some w \<and> \<not> budget_breached cfg w g \<and> \<not> global_breached cfg g)"

lemma lane_tick_io:
  "fl_io (lane_tick cfg wd t f) = (if watch_at f t = None \<or> fl_lane f t = None then fl_io f else fl_io f @ [IoLane t])"
  by (simp add: lane_tick_def Let_def split: option.split)

lemma policy_io: "IoLane t' \<in> set (fl_io (tick_policy cfg wd t inst f)) \<Longrightarrow> IoLane t' \<in> set (fl_io f) \<or> t' = t"
  unfolding tick_policy_def Let_def
  by (auto simp: case_prod_beta lane_tick_io split: option.splits if_splits)

definition lane_from :: "fleet_config \<Rightarrow> string \<Rightarrow> fleet \<Rightarrow> fleet \<Rightarrow> fleet \<Rightarrow> bool" where
  "lane_from cfg t f g h \<longleftrightarrow>
     (\<forall>t'. IoLane t' \<in> set (fl_io h) \<longrightarrow> IoLane t' \<in> set (fl_io g) \<or> t' = t \<and> licensed cfg t f)"

lemma lane_fromI: "(\<And>t'. IoLane t' \<in> set (fl_io h) \<longleftrightarrow> IoLane t' \<in> set (fl_io g)) \<Longrightarrow> lane_from cfg t f g h"
  by (simp add: lane_from_def)

lemma lane_from_later:
  "(\<And>t'. IoLane t' \<in> set (fl_io g') \<longleftrightarrow> IoLane t' \<in> set (fl_io g)) \<Longrightarrow> lane_from cfg t f g' h \<Longrightarrow> lane_from cfg t f g h"
  by (simp add: lane_from_def)

lemma lane_active: "same_caps t f g \<Longrightarrow> lane_from cfg t f g (tick_active cfg wd t iid inst g)"
proof -
  assume c: "same_caps t f g"
  let ?g = "snd (pyhalf_tick cfg wd t iid g)"
  have c1: "same_caps t f ?g" using c by (rule caps.R_pyhalf)
  have "IoLane t' \<in> set (fl_io g) \<or> t' = t \<and> licensed cfg t f"
    if io: "IoLane t' \<in> set (fl_io (tick_active cfg wd t iid inst g))" for t'
  proof (cases "\<exists>w. watch_at ?g t = Some w \<and> \<not> budget_breached cfg w ?g \<and> \<not> global_breached cfg ?g")
    case True
    then have l: "licensed cfg t f" using c1 unfolding licensed_def by blast
    have "IoLane t' \<in> set (fl_io ?g) \<or> t' = t"
      using io unfolding tick_active_def Let_def
      by (auto simp: case_prod_beta simp del: lane_not_logged(4) split: option.splits if_splits dest: policy_io)
    then show ?thesis using l by auto
  next
    case False
    then have "IoLane t' \<in> set (fl_io ?g)"
      using io unfolding tick_active_def Let_def
      by (auto simp: case_prod_beta simp del: lane_not_logged(4) split: option.splits if_splits)
    then show ?thesis by simp
  qed
  then show ?thesis by (simp add: lane_from_def)
qed

lemma lane_unpaused: "same_caps t f g \<Longrightarrow> lane_from cfg t f g (tick_unpaused cfg wd t iid inst g)"
proof -
  assume c: "same_caps t f g"
  let ?u = "upd_watch t (\<lambda>w. w\<lparr>fw_paused_until := None, fw_state := ''watched'', fw_breach_pending := False\<rparr>) g"
  have "same_caps t f ?u" using c by (auto simp: keeps_cap_def)
  then have "lane_from cfg t f ?u (tick_active cfg wd t iid inst ?u)" by (rule lane_active)
  then have "lane_from cfg t f g (tick_active cfg wd t iid inst ?u)" by (rule lane_from_later [rotated]) simp
  moreover have "lane_from cfg t f g (park_on_budget wd t ?u)" by (rule lane_fromI) simp
  ultimately show ?thesis using lane_active [OF c]
    unfolding tick_unpaused_def Let_def by (auto intro: lane_fromI split: option.split)
qed

lemma lane_present: "same_caps t f g \<Longrightarrow> lane_from cfg t f g (tick_present cfg wd t iid inst g)"
proof -
  assume c: "same_caps t f g"
  have next_step: "lane_from cfg t f g (tick_unpaused cfg wd t iid inst h)"
    if "same_caps t f h" "\<And>t'. IoLane t' \<in> set (fl_io h) \<longleftrightarrow> IoLane t' \<in> set (fl_io g)" for h iid inst
    using that lane_unpaused by (blast intro: lane_from_later)
  show ?thesis
    unfolding tick_present_def Let_def using c
    by (auto simp: case_prod_beta keeps_cap_def intro!: next_step split: option.split intro: lane_fromI)
qed

lemma lane_tick_watch: "lane_from cfg t f f (tick_watch cfg wd boxes t f)"
proof -
  have step: "lane_from cfg t f f (tick_present cfg wd t iid inst h)" if "same_caps t f h" "fl_io h = fl_io f" for h iid inst
    using lane_present [OF that(1)] that(2) by (simp add: lane_from_def)
  have "same_caps t f f" by (rule caps.R_refl)
  then show ?thesis
    unfolding tick_watch_def Let_def
    by (auto simp: keeps_cap_def intro!: step split: option.split intro: lane_fromI)
qed

section \<open>A small fleet\<close>

text \<open>One box on a listing, a world in which every call succeeds, and the calls the examples make.\<close>

definition ex_cfg :: fleet_config where
  "ex_cfg = \<lparr>fc_adopt_cap = 5, fc_global = None, fc_grace = 600, fc_grace_expensive = 300, fc_expensive_dph = 2, fc_pyhalf_confirm = 60\<rparr>"

definition ex_box :: "string \<Rightarrow> string \<Rightarrow> fleet_inst" where
  "ex_box st label = \<lparr>in_id = ''7'', in_status = Some st, in_dph = Some 1, in_storage_day = Some 0, in_label = label\<rparr>"

definition ex_health :: health_row where
  "ex_health = \<lparr>hr_booting = False, hr_zombie = False, hr_boot_age = None, hr_heartbeat_age = None, hr_cpu = None, hr_jobs_box = False\<rparr>"

definition ex_world :: "rat \<Rightarrow> fleet_inst \<Rightarrow> fleet_world" where
  "ex_world now i = \<lparr>wd_now = now, wd_clock = now, wd_instances = Some [i], wd_health = (\<lambda>_. ex_health),
     wd_drained = (\<lambda>_. Some True), wd_results = (\<lambda>_. Some True), wd_restat = (\<lambda>_. True), wd_destroy = (\<lambda>_. True),
     wd_park = (\<lambda>_. True), wd_resume = (\<lambda>_. True), wd_pyhalf = (\<lambda>_. None), wd_migration = (\<lambda>_. None),
     wd_lane = (\<lambda>_. \<lparr>la_init = Some 0, la_spend = (\<lambda>s. s), la_iid = Some ''7'', la_status = None, la_understudy = None, la_replaced = False, la_verdict = None\<rparr>)\<rparr>"

definition no_fleet :: fleet where
  "no_fleet = \<lparr>fl_watches = [], fl_lane = Map.empty, fl_ceilings = Map.empty, fl_index = Map.empty, fl_spend_by_box = [],
     fl_destroys = [], fl_intents = Map.empty, fl_strays = [], fl_last_ok = None, fl_io = []\<rparr>"

definition ex_watched :: fleet where
  "ex_watched = snd (watch ex_cfg ''7'' JobsP (Some 1) False [] False None no_fleet)"

definition ex_spent :: fleet where
  "ex_spent = ex_watched\<lparr>fl_ceilings := map_option (\<lambda>c. Ceil (as_dict c\<lparr>cl_spend := Some 2\<rparr>)) \<circ> fl_ceilings ex_watched\<rparr>"

definition ex_calls :: "fleet_call list" where
  "ex_calls = [PauseCall ''7'' (Some 60) 0, TicketCall ''7'', TickCall (ex_world 100 (ex_box ''running'' []))]"


text \<open>C29. A ceiling never forgets a dollar: over any calls without an explicit reset, ticks with any answers
  included, its recorded spend does not go down and the ceiling does not disappear.\<close>

theorem ledger_never_forgets:
  assumes "ledger f c = Some s" "list_all (\<lambda>k. \<not> resets k) calls"
  shows "\<exists>s'. ledger (foldl (fleet_apply cfg) f calls) c = Some s' \<and> s \<le> s'"
  using lg.R_fleet_run [OF lg.R_refl assms(2), of f cfg] assms(1) by (auto simp: ledger_grows_def)

lemma ledger_never_forgets_witness: "\<exists>s'. ledger (foldl (fleet_apply ex_cfg) ex_spent ex_calls) ''7'' = Some s' \<and> 2 \<le> s'"
proof (rule ledger_never_forgets)
  show "ledger ex_spent ''7'' = Some 2" by code_simp
  show "list_all (\<lambda>k. \<not> resets k) ex_calls" by code_simp
qed

lemma under_cap_licensed:
  assumes "licensed cfg t g" "watch_at g t = Some w" "fw_ceiling w = Some c" "c \<noteq> []" "fw_budget w = Some b"
    "ledger g c = Some s"
  shows "s < b"
proof -
  obtain h v where h: "same_caps t g h" "watch_at h t = Some v" "\<not> budget_breached cfg v h"
    using assms(1) by (auto simp: licensed_def)
  then have v: "fw_budget v = Some b" "fw_ceiling v = Some c" using same_capsD [OF h(1,2)] assms by auto
  have "ledger_grows g h" using h(1) by (simp add: same_caps_def)
  then obtain s2 where s2: "ledger h c = Some s2" "s \<le> s2" using assms(6) unfolding ledger_grows_def by blast
  then obtain r where r: "fl_ceilings h c = Some r" "s2 = ledger_spend r" by (auto simp: ledger_def)
  obtain cap sp dg where n: "normalize_ceiling r (fc_adopt_cap cfg) = (cap, sp, dg)"
    by (cases "normalize_ceiling r (fc_adopt_cap cfg)")
  then have "sp = s2" using normalize_spend [of r "fc_adopt_cap cfg"] r(2) by simp
  then have "s2 \<le> ceiling_spend cfg v h"
    using v(2) assms(4) r(1) n by (simp add: ceiling_spend_def ceiling_peek_def nonempty_def)
  then show ?thesis using h(3) v(1) s2(2) by (simp add: budget_breached_def)
qed

text \<open>The calls one pass over a watch makes, and the calls of one tick.\<close>

definition watch_calls :: "fleet_config \<Rightarrow> fleet_world \<Rightarrow> listing \<Rightarrow> string \<Rightarrow> fleet \<Rightarrow> fleet_io list" where
  "watch_calls cfg wd boxes t f = fl_io (tick_watch cfg wd boxes t (f\<lparr>fl_io := []\<rparr>))"


text \<open>C28. An exhausted ceiling stops the ladder: when the spend recorded under a ceiling had, before any calls that
  reset nothing, already reached the budget that a watch has under that ceiling after them, a pass over that watch
  does not tick its ladder. A re-arm with a budget over the recorded spend is outside this, and opens it again.\<close>

theorem exhausted_ceiling_stops_the_ladder:
  assumes "ledger f c = Some s" "list_all (\<lambda>k. \<not> resets k) calls" "g = foldl (fleet_apply cfg) f calls"
    "watch_at g t = Some w" "fw_ceiling w = Some c" "c \<noteq> []" "fw_budget w = Some b" "b \<le> s"
  shows "IoLane t' \<notin> set (watch_calls cfg wd boxes t g)"
proof -
  let ?g = "g\<lparr>fl_io := []\<rparr>"
  have "ledger_grows f g" unfolding assms(3) using lg.R_fleet_run [OF lg.R_refl assms(2)] .
  then obtain s' where "ledger g c = Some s'" "s \<le> s'" using assms(1) unfolding ledger_grows_def by blast
  moreover have "watch_at ?g t = Some w" "ledger ?g = ledger g"
    using assms(4) ledger_cong [of ?g g] by (simp_all add: watch_at_def)
  ultimately have "\<not> licensed cfg t ?g" using under_cap_licensed [of cfg t ?g w c b s'] assms(5-8) by force
  then show ?thesis using lane_tick_watch [of cfg t ?g wd boxes] by (auto simp: lane_from_def watch_calls_def)
qed

lemma exhausted_ceiling_stops_the_ladder_witness:
  "IoLane ''7'' \<notin> set (watch_calls ex_cfg (ex_world 200 (ex_box ''running'' [])) [(''7'', ex_box ''running'' [])] ''7''
      (foldl (fleet_apply ex_cfg) ex_spent ex_calls))"
proof (rule exhausted_ceiling_stops_the_ladder)
  let ?w = "the (watch_at (foldl (fleet_apply ex_cfg) ex_spent ex_calls) ''7'')"
  show "ledger ex_spent ''7'' = Some 2" by code_simp
  show "list_all (\<lambda>k. \<not> resets k) ex_calls" by code_simp
  show "watch_at (foldl (fleet_apply ex_cfg) ex_spent ex_calls) ''7'' = Some ?w"
  proof -
    have "\<not> Option.is_none (watch_at (foldl (fleet_apply ex_cfg) ex_spent ex_calls) ''7'')" by code_simp
    then show ?thesis by (simp add: Option.is_none_def)
  qed
  show "fw_ceiling ?w = Some ''7''" by code_simp
  show "fw_budget ?w = Some 1" by code_simp
qed simp_all

section \<open>The history behind a destroy\<close>


lemma ceiling_rest_register [simp]:
  "fl_destroys (register cfg t p b ad l rst st f) = fl_destroys f" "fl_io (register cfg t p b ad l rst st f) = fl_io f"
proof -
  have "fl_destroys (snd (resolve_watch_ceiling cfg t b ad l rst f)) = fl_destroys f
      \<and> fl_io (snd (resolve_watch_ceiling cfg t b ad l rst f)) = fl_io f"
    by (auto simp: resolve_watch_ceiling_def Let_def case_prod_beta split: option.split bool.split)
  then show "fl_destroys (register cfg t p b ad l rst st f) = fl_destroys f" "fl_io (register cfg t p b ad l rst st f) = fl_io f"
    by (simp_all add: register_def Let_def case_prod_beta drop_intent_def drop_stray_def)
qed





lemma drops_destroys [simp]:
  "fl_destroys (foldl (\<lambda>g t. drop_watch t g) f ts) = fl_destroys f"
  "fl_io (foldl (\<lambda>g t. drop_watch t g) f ts) = fl_io f"
  by (induction ts arbitrary: f) (simp_all add: drop_watch_def)

lemma destroy_frame [simp]:
  "fl_destroys (log_io x f) = fl_destroys f" "fl_io (put_destroy i r f) = fl_io f" "fl_io (drop_destroy i f) = fl_io f"
  "fl_destroys (drop_stray i f) = fl_destroys f"
  "fl_destroys (drop_destroy i f) = AList.delete i (fl_destroys f)"
  "fl_destroys (put_destroy i r f) = AList.update i r (fl_destroys f)"
  "fl_destroys (forget_box i f) = AList.delete i (fl_destroys f)" "fl_io (forget_box i f) = fl_io f"
  by (simp_all add: log_io_def put_destroy_def drop_destroy_def drop_stray_def forget_box_def)






















end
