(* ===== verification/FleetCaps.thy ===== *)
theory FleetCaps
  imports FleetSafety
begin

text \<open>
  The safety net of the fleet daemon: when it parks a box nobody registered, that a box it adopts always
  has a positive cap, and that a successor box inherits the ceiling of the box it takes over from.

  Lemma groups: exactly when the net parks; the capped state as an interpretation of
  \<open>fleet_frame_all\<close>; inheritance through the handoff label.
\<close>

section \<open>Strays\<close>

lemma stray_frame [simp]: "fl_io (upd_stray i h f) = fl_io f" "fl_io (drop_stray i f) = fl_io f"
  by (simp_all add: upd_stray_def drop_stray_def)

lemma watch_io [simp]: "fl_io (snd (watch cfg t p b ad l rst st f)) = fl_io f"
  by (auto simp: watch_def split: option.split sum.split)

definition stray_at :: "fleet \<Rightarrow> string \<Rightarrow> stray" where
  "stray_at f iid = dflt new_stray (map_of (fl_strays f) iid)"

definition net_open :: "fleet_config \<Rightarrow> fleet_world \<Rightarrow> rat \<Rightarrow> string \<Rightarrow> fleet_inst \<Rightarrow> stray \<Rightarrow> bool" where
  "net_open cfg wd dt iid i s \<longleftrightarrow>
     sr_pending s = None \<and> (case nz (sr_paused_until s) of Some u \<Rightarrow> u \<le> wd_now wd | None \<Rightarrow> True)
     \<and> workload_evidence i (wd_health wd iid) = None \<and> nz (sr_parked_ts s) = None
     \<and> 0 < grace_for_dph cfg (in_dph i) \<and> grace_for_dph cfg (in_dph i) \<le> sr_observed s + dt"

definition stray_calls :: "fleet_config \<Rightarrow> fleet_world \<Rightarrow> rat \<Rightarrow> string list \<Rightarrow> string \<Rightarrow> fleet_inst \<Rightarrow> fleet \<Rightarrow> fleet_io list" where
  "stray_calls cfg wd dt watched iid i f = fl_io (tick_stray cfg wd dt watched (iid, i) (f\<lparr>fl_io := []\<rparr>))"

text \<open>The safety net parks exactly the live boxes nobody watches whose label does not exempt them, that
  show no sign of a workload, have not been parked or paused, and have been seen for their whole grace
  period; or one an operator asked to park.\<close>

lemma net_parks_exactly:
  "IoPark j \<in> set (stray_calls cfg wd dt watched iid i f) \<longleftrightarrow>
    j = iid \<and> iid \<notin> set watched \<and> inst_live i \<and> \<not> label_exempt (in_label i) \<and>
      (sr_pending (stray_at f iid) = Some ParkIt \<or> net_open cfg wd dt iid i (stray_at f iid))"
  unfolding tick_stray_def stray_calls_def Let_def
  by (auto simp: case_prod_beta park_box_def exec_action_def stray_at_def net_open_def Let_def
      split: option.split sum.split prod.split box_action.split)

section \<open>Adopted boxes\<close>

definition capped :: "fleet \<Rightarrow> bool" where
  "capped f \<longleftrightarrow> (\<forall>t w. watch_at f t = Some w \<longrightarrow> fw_adopted w \<longrightarrow> (\<exists>b. fw_budget w = Some b \<and> 0 < b))"

definition keeps_capped :: "fleet_config \<Rightarrow> fleet \<Rightarrow> fleet \<Rightarrow> bool" where
  "keeps_capped cfg f g \<longleftrightarrow> (0 < fc_adopt_cap cfg \<longrightarrow> capped f \<longrightarrow> capped g)"

lemma keeps_cappedI:
  assumes "\<And>t w'. watch_at g t = Some w' \<Longrightarrow> \<exists>w. watch_at f t = Some w \<and> fw_budget w' = fw_budget w \<and> fw_adopted w' = fw_adopted w"
  shows "keeps_capped cfg f g"
  unfolding keeps_capped_def capped_def using assms by metis

lemma keeps_capped_same: "fl_watches g = fl_watches f \<Longrightarrow> keeps_capped cfg f g"
  by (simp add: keeps_capped_def capped_def watch_at_def)

lemma found_cap_pos:
  assumes "ceiling_read cfg cid f = (Some (cap, sp), g)" "0 < fc_adopt_cap cfg"
  shows "0 < cap"
proof -
  obtain c r where "fl_ceilings f c = Some r" "fst (normalize_ceiling r (fc_adopt_cap cfg)) = cap"
    using assms(1) by (auto simp: ceiling_read_def ceiling_peek_def split: option.splits if_splits prod.splits)
  then show ?thesis using normalize_cap_pos [OF assms(2), of r] by simp
qed

lemma resolve_cap_pos:
  assumes "0 < fc_adopt_cap cfg" "adopted"
  shows "\<exists>b. fst (snd (fst (resolve_watch_ceiling cfg t p adopted l rst f))) = Some b \<and> 0 < b"
proof -
  obtain found g where g: "ceiling_read cfg (resolve_ceiling_id t l f) f = (found, g)"
    by (cases "ceiling_read cfg (resolve_ceiling_id t l f) f")
  then show ?thesis using assms found_cap_pos [of cfg "resolve_ceiling_id t l f" f _ _ g]
    by (cases found) (auto simp: resolve_watch_ceiling_def Let_def case_prod_beta split: option.split)
qed

lemma resolve_watches [simp]: "fl_watches (snd (resolve_watch_ceiling cfg t b ad l rst f)) = fl_watches f"
  by (auto simp: resolve_watch_ceiling_def Let_def case_prod_beta split: option.split bool.split)

lemma watch_at_new: "watch_at (g\<lparr>fl_watches := AList.update t w ws\<rparr>) = (map_of ws)(t \<mapsto> w)"
  by (simp add: watch_at_def update_conv' fun_eq_iff)

lemma watch_at_map: "map_of (fl_watches f) = watch_at f"
  by (simp add: watch_at_def fun_eq_iff)

lemma watch_at_dropped [simp]:
  "watch_at (drop_intent i f) = watch_at f" "watch_at (drop_stray i f) = watch_at f" "watch_at (f\<lparr>fl_lane := l\<rparr>) = watch_at f"
  "watch_at (ceiling_bind_box cid iid f) = watch_at f"
  by (simp_all add: watch_at_def fun_eq_iff drop_intent_def drop_stray_def)

lemma register_at:
  obtains w where "watch_at (register cfg t p b ad l rst st f) = (watch_at f)(t \<mapsto> w)" "fw_adopted w = ad"
    "fw_budget w = fst (snd (fst (resolve_watch_ceiling cfg t b ad l rst f)))"
    "fw_ceiling w = fst (fst (resolve_watch_ceiling cfg t b ad l rst f))"
    "fst (snd (snd (fst (resolve_watch_ceiling cfg t b ad l rst f)))) \<le> fw_spend w"
proof -
  obtain cid bb carried why g where r: "resolve_watch_ceiling cfg t b ad l rst f = ((cid, bb, carried, why), g)"
    by (metis prod.exhaust)
  then have g: "fl_watches g = fl_watches f" using resolve_watches [of cfg t b ad l rst f] by simp
  show thesis
    by (rule that, simp add: register_def r Let_def watch_at_new watch_at_map g) (simp_all add: r)
qed

lemma register_capped: "keeps_capped cfg g (register cfg t p b ad l rst st g)"
proof (cases "0 < fc_adopt_cap cfg")
  case True
  obtain w where w: "watch_at (register cfg t p b ad l rst st g) = (watch_at g)(t \<mapsto> w)" "fw_adopted w = ad"
    "fw_budget w = fst (snd (fst (resolve_watch_ceiling cfg t b ad l rst g)))" by (rule register_at)
  then show ?thesis using resolve_cap_pos [OF True, of ad t b l rst g] by (auto simp: keeps_capped_def capped_def)
qed (simp add: keeps_capped_def)

interpretation cp: fleet_frame_all cfg "keeps_capped cfg"
proof unfold_locales
  show "keeps_capped cfg g (register cfg t p b ad l reset st g)" for g t p b ad l reset st by (rule register_capped)
  show "keeps_capped cfg g (upd_watch t u g)" if "keeps_cap u" for u g t
    using that by (intro keeps_cappedI) (auto simp: watch_at_upd keeps_cap_def split: if_splits)
  show "keeps_capped cfg g (charge_ceiling cfg t g)" "keeps_capped cfg g (note_end cfg t e ep g)" for g t e ep
    by (intro keeps_cappedI; auto dest: watch_at_charge)+
  show "keeps_capped cfg g (drop_watch t g)" for g t
    by (intro keeps_cappedI) (auto simp: watch_at_drop split: if_splits)
qed (auto simp: keeps_capped_same log_io_def, auto simp: keeps_capped_def)


lemma capped_apply:
  assumes "0 < fc_adopt_cap cfg" "capped f"
  shows "capped (fleet_apply cfg f k)"
proof (cases k)
  case (WatchCall t p b l r st)
  have "capped (register cfg s p b False l r st f)" for s
    using register_capped [of cfg f s p b False l r st] assms by (simp add: keeps_capped_def)
  then show ?thesis using WatchCall assms(2) by (auto simp: watch_def split: sum.split)
qed (use assms cp.R_fleet_apply [OF cp.R_refl, of k cfg f] in \<open>auto simp: keeps_capped_def\<close>)

lemma capped_run: "0 < fc_adopt_cap cfg \<Longrightarrow> capped f \<Longrightarrow> capped (foldl (fleet_apply cfg) f calls)"
  by (induction calls arbitrary: f) (auto intro: capped_apply)

text \<open>C30. A box the daemon adopted on its own is never without a cap: started with no watches, over any
  calls, an adopted watch has a positive budget, however degraded the record it inherited from.\<close>

theorem adopted_always_capped:
  assumes "0 < fc_adopt_cap cfg" "fl_watches f0 = []"
    "watch_at (foldl (fleet_apply cfg) f0 calls) t = Some w" "fw_adopted w"
  shows "\<exists>b. fw_budget w = Some b \<and> 0 < b"
proof -
  have "capped f0" using assms(2) by (simp add: capped_def watch_at_def)
  then show ?thesis using capped_run [OF assms(1)] assms(3,4) unfolding capped_def by blast
qed

lemma adopted_always_capped_witness:
  "\<exists>b. fw_budget (the (watch_at (foldl (fleet_apply ex_cfg) no_fleet [TickCall (ex_world 100 (ex_box ''running'' ''x:run''))]) ''7'')) = Some b \<and> 0 < b"
  (is "\<exists>b. fw_budget (the ?w) = _ \<and> _")
proof (rule adopted_always_capped)
  have "\<not> Option.is_none ?w" by code_simp
  then show "?w = Some (the ?w)" by (simp add: Option.is_none_def)
  show "fw_adopted (the ?w)" by code_simp
qed (simp_all add: ex_cfg_def no_fleet_def)

section \<open>Inheritance\<close>

lemma resolve_by_label:
  assumes "fl_index f t = None" "fl_ceilings f t = None" "t \<noteq> []" "list_all py_isdigit p" "p \<noteq> []"
    "fl_index f p = Some c" "c \<noteq> []" "fl_ceilings f c = Some r"
  shows "resolve_ceiling_id t (job_handoff_label p) f = Some c"
  using assms by (simp add: resolve_ceiling_id_def Let_def known_ceiling_def nonempty_def predecessor_of_handoff_label)

text \<open>A successor box registered under the label the handoff gave it is under the ceiling of the box it
  takes over from, cap and dollars spent included, so a handoff cannot reset a budget.\<close>

lemma successor_inherits_the_ceiling:
  assumes "fl_index f t = None" "fl_ceilings f t = None" "t \<noteq> []" "list_all py_isdigit p" "p \<noteq> []"
    "fl_index f p = Some c" "c \<noteq> []" "fl_ceilings f c = Some (Ceil r)" "cl_cap r = Some cap" "0 < cap"
    "cl_spend r = Some s"
    "watch cfg t prof None adopted (job_handoff_label p) False st f = (Inr (Registered t), g)"
  shows "\<exists>w. watch_at g t = Some w \<and> fw_ceiling w = Some c \<and> fw_budget w = Some cap \<and> s \<le> fw_spend w
    \<and> (cap \<le> s \<longrightarrow> budget_breached cfg w g)"
proof -
  have cid: "resolve_ceiling_id t (job_handoff_label p) f = Some c" using resolve_by_label [OF assms(1-8)] .
  have "ceiling_read cfg (Some c) f = (Some (cap, max 0 s), f)"
    using assms by (simp add: ceiling_read_def ceiling_peek_def nonempty_def normalize_ceiling_def max_def)
  then have r: "resolve_watch_ceiling cfg t None adopted (job_handoff_label p) False f = ((Some c, Some cap, max 0 s, NoteInherited), f)"
    by (cases adopted) (simp_all add: resolve_watch_ceiling_def cid Let_def)
  have g: "g = register cfg t prof None adopted (job_handoff_label p) False st f"
    using assms(12) by (auto simp: watch_def split: option.splits if_splits sum.splits)
  obtain w where w: "watch_at g t = Some w" "fw_budget w = Some cap" "fw_ceiling w = Some c" "max 0 s \<le> fw_spend w"
    unfolding g by (rule register_at [of cfg t prof None adopted "job_handoff_label p" False st f]) (simp add: r)
  then have "cap \<le> s \<longrightarrow> budget_breached cfg w g"
    by (auto simp: budget_breached_def ceiling_spend_def split: option.split)
  then show ?thesis using w by auto
qed

end
