(* ===== verification/WorkflowCtl.thy ===== *)
theory WorkflowCtl
  imports WorkflowMeta JobQueue Eviction
begin

text \<open>
  The workflow controller (\<open>tools/vast/vastlib/workflows/ctl.py\<close>): its event log and objects in the
  bucket, the box seams, and \<open>reconcile_tick\<close>, which performs at most one action per tick. The
  decisions are those of \<open>WorkflowMeta\<close>, the jobs are the queue of \<open>JobQueue\<close>; a tick is a state-monad
  program over both, whose calls may be served, refused or left in doubt.

  The log is what the bucket holds under \<open>events/\<close>; fields of an event that no decision reads (images,
  prices, reasons) are left out. Box ids are strings. Calls to the API, the
  registry and the bundle tools are answered by the record \<open>ctl_world\<close>.
\<close>

section \<open>Constants\<close>

definition POLL_INTERVAL_S :: rat where "POLL_INTERVAL_S = 30"
definition HEARTBEAT_STALE_MULT :: rat where "HEARTBEAT_STALE_MULT = 3"
definition TAKEOVER_WAIT_GRACE_S :: rat where "TAKEOVER_WAIT_GRACE_S = 30"
definition BOOT_DEADLINE_S :: rat where "BOOT_DEADLINE_S = 1500"
definition JOB_HEARTBEAT_STALE_S :: rat where "JOB_HEARTBEAT_STALE_S = 900"
definition TEARDOWN_MAX_ATTEMPTS :: nat where "TEARDOWN_MAX_ATTEMPTS = 5"

definition STAGE_INFLIGHT :: "string list" where
  "STAGE_INFLIGHT = [''stage_planned'', ''stage_submitted'', ''stage_started'', ''box_acquired'']"

definition RUNNING_JOB_STATUSES :: "string list" where
  "RUNNING_JOB_STATUSES = [''submitted'', ''claimed'', ''started'', ''unknown'']"

section \<open>State\<close>

datatype image_state = ImgFresh | ImgStale | ImgUnresolved

datatype box_state = BoxLive | BoxStopped | BoxGone | BoxUnknown

record box_row =
  bx_id :: string
  bx_status :: string
  bx_machine :: "jval option"

record box_offer =
  bo_id :: int
  bo_machine :: "jval option"
  bo_min_bid :: "price option"
  bo_dph_total :: "price option"

datatype ctl_io =
    CtlLaunch int "price option"
  | CtlStart string
  | CtlTeardown string string
  | CtlRotate string
  | CtlSubmit string string
  | CtlRetarget string string string

record accepted =
  ap_job_id :: string
  ap_manifest :: string

text \<open>\<open>ct_verdict\<close> holds the outcome of \<open>verdict.json\<close>; \<open>ct_jobs\<close> the local copy of the job events;
  \<open>ct_refused\<close> the refusals the running process has already logged.\<close>

record ctl_state =
  ct_bucket :: bucket
  ct_log :: "raw_object list"
  ct_accepted :: "string \<times> string \<Rightarrow> accepted option"
  ct_verdict :: "bool option"
  ct_provenance :: bool
  ct_report :: bool
  ct_jobs :: "string \<Rightarrow> job_event list"
  ct_refused :: "(string \<times> image_state) list"
  ct_io :: "ctl_io list"

datatype ctl_error =
    QueueFailed queue_error
  | IdFailed id_error
  | UpstreamMissing string string
  | BundleRefused
  | ArtifactWriteFailed
  | VerdictWriteFailed
  | ProvenanceWriteFailed
  | ReportWriteFailed
  | RotationFailed
  | UnknownProfile
  | RetiredRegistry
  | ImageUnverifiable
  | ImageDrift
  | LaunchFailed
  | TakeoverRefused
  | SecondController

text \<open>The answers of one tick. An optional seam is one the caller may leave out.\<close>

record ctl_world =
  cw_jobs :: world
  cw_list :: "nat \<Rightarrow> bool"
  cw_cat :: "nat \<Rightarrow> nat \<Rightarrow> bool"
  cw_wf_id :: string
  cw_actor :: string
  cw_time :: string
  cw_sha256 :: "string \<Rightarrow> string"
  cw_show :: "jval \<Rightarrow> string"
  cw_resolver :: bool
  cw_boxes :: "string \<Rightarrow> box_row list"
  cw_image :: "string \<Rightarrow> image_state"
  cw_gate :: bool
  cw_retired :: "string \<Rightarrow> bool"
  cw_digest :: "string \<Rightarrow> string option"
  cw_offer :: "resource_profile \<Rightarrow> jval list \<Rightarrow> box_offer option"
  cw_bid_mult :: rat
  cw_launch :: "int \<Rightarrow> price option \<Rightarrow> string option"
  cw_expiry :: "(string \<Rightarrow> rat option) option"
  cw_rotate :: "string \<Rightarrow> bool"
  cw_config :: "job_stage \<Rightarrow> accepted list \<Rightarrow> (job_config \<times> string) option"
  cw_artifact :: "string \<Rightarrow> artifact_contract \<Rightarrow> string option"
  cw_cost :: "(string \<Rightarrow> rat option) option"
  cw_observe :: "(string \<Rightarrow> box_state) option"
  cw_slow :: "(string \<Rightarrow> bool) option"
  cw_teardown :: "(string \<Rightarrow> string \<Rightarrow> bool) option"
  cw_start :: "string \<Rightarrow> bool"
  cw_image_seen :: "(string \<Rightarrow> image_state) option"

type_synonym 'a ctl = "(ctl_state, 'a) state"

text \<open>An operation on the queue's bucket, and a program that goes on unless the one before raised.\<close>

definition on_bucket :: "'a bucket_op \<Rightarrow> 'a ctl" where
  "on_bucket m = State (\<lambda>s. case run_state m (ct_bucket s) of (x, b) \<Rightarrow> (x, s\<lparr>ct_bucket := b\<rparr>))"

definition and_then :: "('e + 'a) ctl \<Rightarrow> ('a \<Rightarrow> ('e + 'b) ctl) \<Rightarrow> ('e + 'b) ctl" where
  "and_then m f = State_Monad.bind m (\<lambda>x. case x of Inl e \<Rightarrow> State_Monad.return (Inl e) | Inr a \<Rightarrow> f a)"

definition queued :: "(queue_error + 'a) bucket_op \<Rightarrow> (ctl_error + 'a) ctl" where
  "queued m = State_Monad.bind (on_bucket m)
     (\<lambda>x. State_Monad.return (case x of Inl e \<Rightarrow> Inl (QueueFailed e) | Inr a \<Rightarrow> Inr a))"

definition log_call :: "ctl_io \<Rightarrow> unit ctl" where
  "log_call x = State (\<lambda>s. ((), s\<lparr>ct_io := ct_io s @ [x]\<rparr>))"

definition ctl_tick :: "ctl_state \<Rightarrow> ctl_state" where
  "ctl_tick s = s\<lparr>ct_bucket := tick (ct_bucket s)\<rparr>"

definition put_object :: "ctl_world \<Rightarrow> (ctl_state \<Rightarrow> ctl_state) \<Rightarrow> bool ctl" where
  "put_object cw upd = State (\<lambda>s. case w_io (cw_jobs cw) (bk_tick (ct_bucket s)) of
       Served \<Rightarrow> (True, upd (ctl_tick s)) | Refused \<Rightarrow> (False, ctl_tick s) | Unsure \<Rightarrow> (False, upd (ctl_tick s)))"

definition get_object :: "ctl_world \<Rightarrow> (ctl_state \<Rightarrow> 'a option) \<Rightarrow> 'a option ctl" where
  "get_object cw sel = State (\<lambda>s. (if w_io (cw_jobs cw) (bk_tick (ct_bucket s)) = Served then sel s else None, ctl_tick s))"

section \<open>The event log\<close>

definition wf_object :: "ctl_world \<Rightarrow> string \<Rightarrow> string \<Rightarrow> string \<Rightarrow> (string \<times> jval) list \<Rightarrow> raw_object" where
  "wf_object cw ev ts nn fs =
     Obj (map_of (fs @ [(''v'', JInt 1), (''ts'', JStr ts), (''actor'', JStr (cw_actor cw)), (''event'', JStr ev),
                        (''workflow_id'', JStr (cw_wf_id cw)), (''nonce'', JStr nn)]))"

definition emit :: "ctl_world \<Rightarrow> string \<Rightarrow> string option \<Rightarrow> (string \<times> jval) list \<Rightarrow> bool ctl" where
  "emit cw ev ts fs =
     do { t \<leftarrow> (case ts of Some t \<Rightarrow> State_Monad.return t | None \<Rightarrow> on_bucket (now_ts (cw_jobs cw)));
          nn \<leftarrow> on_bucket (nonce (cw_jobs cw));
          put_object cw (\<lambda>s. s\<lparr>ct_log := ct_log s @ [wf_object cw ev t nn fs]\<rparr>) }"

text \<open>A listing that fails reads as an empty log; an object that cannot be read is left out.\<close>

definition read_events :: "ctl_world \<Rightarrow> raw_object list ctl" where
  "read_events cw = State (\<lambda>s. let t = bk_tick (ct_bucket s) in
     (if cw_list cw t then map snd (filter (\<lambda>(i, _). cw_cat cw t i) (enumerate 0 (ct_log s))) else [], ctl_tick s))"

definition log_events :: "raw_object list \<Rightarrow> wf_event list" where
  "log_events raws = List.map_filter wf_coerce raws"

definition prior_stage_machines :: "string \<Rightarrow> raw_object list \<Rightarrow> jval list" where
  "prior_stage_machines n raws =
     remdups (List.map_filter (\<lambda>e. if we_event e = ''box_acquired'' \<and> we_stage e = Some n then we_field ''machine_id'' e else None)
       (log_events raws))"

section \<open>Boxes owned\<close>

text \<open>\<open>str\<close> of an id as the log holds it.\<close>

definition id_text :: "ctl_world \<Rightarrow> jval \<Rightarrow> string" where
  "id_text cw v = (case v of JStr s \<Rightarrow> s | _ \<Rightarrow> cw_show cw v)"

definition stage_names :: "raw_object list \<Rightarrow> string list" where
  "stage_names raws = remdups (List.map_filter we_stage (log_events raws))"

definition owned_instance_ids :: "ctl_world \<Rightarrow> raw_object list \<Rightarrow> string list" where
  "owned_instance_ids cw raws =
     sort (remdups (List.map_filter (\<lambda>n. Option.bind (wv_stages (fold_workflow_events raws) n)
        (\<lambda>sv. map_option (id_text cw) (sv_instance_id sv))) (stage_names raws)))"

definition released_instance_ids :: "ctl_world \<Rightarrow> raw_object list \<Rightarrow> string list" where
  "released_instance_ids cw raws =
     List.map_filter (\<lambda>e. if we_event e = ''box_released'' \<and> truthy (we_fields e ''instance_id'')
        then map_option (id_text cw) (we_fields e ''instance_id'') else None) (log_events raws)"

definition owned_boxes_remaining :: "ctl_world \<Rightarrow> raw_object list \<Rightarrow> string list ctl" where
  "owned_boxes_remaining cw raws =
     (let owned = owned_instance_ids cw raws
      in if owned = [] then State_Monad.return []
         else do { now \<leftarrow> read_events cw;
                   State_Monad.return (filter (\<lambda>i. i \<notin> set (released_instance_ids cw now)) owned) })"

definition teardown_attempts_seen :: "ctl_world \<Rightarrow> nat ctl" where
  "teardown_attempts_seen cw =
     do { raws \<leftarrow> read_events cw;
          State_Monad.return (length (filter (\<lambda>e. we_event e = ''teardown_attempt'') (log_events raws))) }"

definition teardown_failed_recorded :: "ctl_world \<Rightarrow> bool ctl" where
  "teardown_failed_recorded cw =
     do { raws \<leftarrow> read_events cw;
          State_Monad.return (list_ex (\<lambda>e. we_event e = ''workflow_failed''
            \<and> we_fields e ''failure_class'' = Some (JStr ''TEARDOWN_FAILED'')) (log_events raws)) }"

text \<open>The boxes released and those that were not.\<close>

fun teardown_boxes :: "ctl_world \<Rightarrow> (string \<Rightarrow> string \<Rightarrow> bool) \<Rightarrow> string \<Rightarrow> string list \<Rightarrow> (string list \<times> string list) ctl" where
  "teardown_boxes cw td mode [] = State_Monad.return ([], [])"
| "teardown_boxes cw td mode (i # is) =
     do { _ \<leftarrow> log_call (CtlTeardown i mode);
          _ \<leftarrow> (if td i mode then emit cw ''box_released'' (Some (cw_time cw)) [(''instance_id'', JStr i), (''mode'', JStr mode)]
                else State_Monad.return False);
          (rel, failed) \<leftarrow> teardown_boxes cw td mode is;
          State_Monad.return (if td i mode then (i # rel, failed) else (rel, i # failed)) }"

definition attempt_teardown ::
  "ctl_world \<Rightarrow> workflow \<Rightarrow> (string \<Rightarrow> string \<Rightarrow> bool) \<Rightarrow> string list \<Rightarrow> (string list \<times> string list \<times> string list \<times> nat) ctl" where
  "attempt_teardown cw wk td remaining =
     do { (rel, failed) \<leftarrow> teardown_boxes cw td (wf_teardown wk) remaining;
          _ \<leftarrow> emit cw ''teardown_attempt'' (Some (cw_time cw)) [(''attempted'', JOther), (''released'', JOther), (''failed'', JOther)];
          n \<leftarrow> teardown_attempts_seen cw;
          State_Monad.return (filter (\<lambda>i. i \<notin> set rel) remaining, rel, failed, n) }"

section \<open>Money\<close>

definition spend_of :: "raw_object list \<Rightarrow> rat" where
  "spend_of raws =
     foldl (\<lambda>best e. if we_event e = ''box_cost''
        then (case num (we_fields e ''cost_usd'') of Some v \<Rightarrow> if best < v then v else best | None \<Rightarrow> best) else best)
       0 (log_events raws)"

definition folded_spend :: "ctl_world \<Rightarrow> rat ctl" where
  "folded_spend cw = do { raws \<leftarrow> read_events cw; State_Monad.return (spend_of raws) }"

text \<open>No cap, or a cap of zero, is no bound.\<close>

definition budget_exhausted :: "workflow \<Rightarrow> rat \<Rightarrow> resource_profile option \<Rightarrow> bool" where
  "budget_exhausted wk spent prof \<longleftrightarrow>
     (wf_budget_usd wk \<noteq> 0 \<and> wf_budget_usd wk \<le> spent)
     \<or> (case prof of Some p \<Rightarrow> rp_budget_usd p \<noteq> 0 \<and> rp_budget_usd p \<le> spent | None \<Rightarrow> False)"

definition record_box_cost :: "ctl_world \<Rightarrow> rat \<Rightarrow> bool ctl" where
  "record_box_cost cw cost = emit cw ''box_cost'' None [(''cost_usd'', JFloat (round4 cost))]"

definition accrue_and_persist_cost :: "ctl_world \<Rightarrow> raw_object list \<Rightarrow> unit ctl" where
  "accrue_and_persist_cost cw raws =
     (case (cw_cost cw, owned_instance_ids cw raws) of
        (Some observe, i # is) \<Rightarrow>
          do { prior \<leftarrow> folded_spend cw;
               _ \<leftarrow> record_box_cost cw (prior + sum_list (List.map_filter (\<lambda>i. map_option (max 0) (observe i)) (i # is)));
               State_Monad.return () }
      | _ \<Rightarrow> State_Monad.return ())"

section \<open>Acquiring a box\<close>

definition image_gate_refuses :: "ctl_world \<Rightarrow> image_state \<Rightarrow> bool" where
  "image_gate_refuses cw st \<longleftrightarrow> cw_gate cw \<and> st \<in> {ImgStale, ImgUnresolved}"

definition image_class :: "image_state \<Rightarrow> jval option" where
  "image_class st = (case st of ImgStale \<Rightarrow> Some (JStr ''STALE_IMAGE'') | ImgUnresolved \<Rightarrow> Some (JStr ''IMAGE_UNRESOLVED'') | ImgFresh \<Rightarrow> None)"

definition state_text :: "image_state \<Rightarrow> string" where
  "state_text st = (case st of ImgFresh \<Rightarrow> ''fresh'' | ImgStale \<Rightarrow> ''stale'' | ImgUnresolved \<Rightarrow> ''unresolved'')"

definition box_live :: "box_row \<Rightarrow> bool" where
  "box_live b \<longleftrightarrow> py_lower (bx_status b) \<in> LIVE_STATES"

fun log_refusals :: "ctl_world \<Rightarrow> string \<Rightarrow> nat \<Rightarrow> box_row list \<Rightarrow> unit ctl" where
  "log_refusals cw n attempt [] = State_Monad.return ()"
| "log_refusals cw n attempt (b # bs) =
     do { said \<leftarrow> State (\<lambda>s. ((bx_id b, cw_image cw (bx_id b)) \<in> set (ct_refused s), s));
          _ \<leftarrow> (if said then State_Monad.return False
             else do { _ \<leftarrow> State (\<lambda>s. ((), s\<lparr>ct_refused := (bx_id b, cw_image cw (bx_id b)) # ct_refused s\<rparr>));
                       emit cw ''box_adopt_refused'' None
                         ([(''stage'', JStr n), (''attempt'', JInt (int attempt)), (''instance_id'', JStr (bx_id b)),
                           (''image_state'', JStr (state_text (cw_image cw (bx_id b))))]
                          @ opt_field ''failure_class'' (image_class (cw_image cw (bx_id b)))) });
          log_refusals cw n attempt bs }"

text \<open>The price of a launch: a bid over the floor, capped, or the offer's own price.\<close>

definition launch_price_of :: "ctl_world \<Rightarrow> resource_profile \<Rightarrow> box_offer \<Rightarrow> price option" where
  "launch_price_of cw p x =
     (if rp_rental p \<noteq> ''bid'' then bo_dph_total x
      else case bo_min_bid x of
             None \<Rightarrow> None
           | Some mb \<Rightarrow> (let q = round3 (mb * cw_bid_mult cw) in Some (case rp_max_bid p of Some m \<Rightarrow> min q m | None \<Rightarrow> q)))"

definition verify_image :: "ctl_world \<Rightarrow> resource_profile \<Rightarrow> ctl_error option" where
  "verify_image cw p =
     (if cw_retired cw (rp_image p) then Some RetiredRegistry
      else case rp_image_digest p of
             None \<Rightarrow> None
           | Some pin \<Rightarrow> (case cw_digest cw (rp_image p) of
                            None \<Rightarrow> Some ImageUnverifiable
                          | Some d \<Rightarrow> if d \<noteq> pin then Some ImageDrift else None))"

definition acquired :: "ctl_world \<Rightarrow> string \<Rightarrow> nat \<Rightarrow> string \<Rightarrow> bool \<Rightarrow> jval option \<Rightarrow> bool ctl" where
  "acquired cw n attempt iid adopted machine =
     emit cw ''box_acquired'' None
       ([(''stage'', JStr n), (''attempt'', JInt (int attempt)), (''instance_id'', JStr iid), (''adopted'', JBool adopted)]
        @ opt_field ''machine_id'' machine)"

definition launch_box :: "ctl_world \<Rightarrow> resource_profile \<Rightarrow> string \<Rightarrow> nat \<Rightarrow> (ctl_error + string option) ctl" where
  "launch_box cw p n attempt =
     (case verify_image cw p of
        Some e \<Rightarrow> State_Monad.return (Inl e)
      | None \<Rightarrow> do {
          raws \<leftarrow> read_events cw;
          case cw_offer cw p (prior_stage_machines n raws) of
            None \<Rightarrow> State_Monad.return (Inr None)
          | Some x \<Rightarrow> do {
              _ \<leftarrow> log_call (CtlLaunch (bo_id x) (launch_price_of cw p x));
              case cw_launch cw (bo_id x) (launch_price_of cw p x) of
                None \<Rightarrow> State_Monad.return (Inl LaunchFailed)
              | Some cid \<Rightarrow> do { _ \<leftarrow> acquired cw n attempt cid False (bo_machine x);
                                State_Monad.return (Inr (Some cid)) } } })"

text \<open>Adopt the box that already carries the attempt's label, or launch one.\<close>

definition box_resolver :: "ctl_world \<Rightarrow> workflow \<Rightarrow> job_stage \<Rightarrow> nat \<Rightarrow> (ctl_error + string option) ctl" where
  "box_resolver cw wk st attempt =
     (if \<not> cw_resolver cw then State_Monad.return (Inr None)
      else case (map_of (wf_profiles wk) (js_profile st), stage_job_id (cw_sha256 cw) (cw_wf_id cw) (js_name st) attempt) of
        (Some p, Inr jid) \<Rightarrow>
          (let found = cw_boxes cw (''run:'' @ jid); n = js_name st;
               refused = filter (\<lambda>b. image_gate_refuses cw (cw_image cw (bx_id b))) found;
               adoptable = filter (\<lambda>b. \<not> image_gate_refuses cw (cw_image cw (bx_id b))) found
           in do {
             _ \<leftarrow> log_refusals cw n attempt refused;
             case adoptable of
               b # bs \<Rightarrow> do { let x = dflt b (find box_live adoptable);
                              _ \<leftarrow> acquired cw n attempt (bx_id x) True (bx_machine x);
                              State_Monad.return (Inr (Some (bx_id x))) }
             | [] \<Rightarrow> if list_ex (\<lambda>b. cw_image cw (bx_id b) = ImgUnresolved) refused then State_Monad.return (Inr None)
                     else launch_box cw p n attempt })
      | (None, _) \<Rightarrow> State_Monad.return (Inl UnknownProfile)
      | (_, Inl e) \<Rightarrow> State_Monad.return (Inl (IdFailed e)))"

section \<open>Submitting a stage\<close>

datatype ctl_action =
    NoopTerminal string
  | NeedTeardown "string list"
  | TeardownReconciled "string list"
  | TeardownRetrying "string list"
  | TeardownStarted bool
  | WorkflowFailed string
  | WorkflowCancelled
  | WorkflowSucceeded
  | CancelPropagated string bool
  | CancelBudget string bool
  | CredentialTransient string
  | NeedBox string nat
  | StageSubmitted string nat string string
  | StageStarted string
  | NoopRunning string
  | ArtifactAccepted string string
  | ArtifactRejected string string
  | StageSucceeded string
  | StageFailed string string
  | BoxBootFailed string
  | BoxRetargeted string "string option"
  | BoxResumed string bool
  | ResumeHeld string

definition remaining_wall_s :: "resource_profile \<Rightarrow> rat \<Rightarrow> rat" where
  "remaining_wall_s p elapsed_s = max 0 (of_int (rp_max_wall_s p) - elapsed_s)"

definition credential_horizon_ok :: "rat \<Rightarrow> rat \<Rightarrow> rat \<Rightarrow> bool" where
  "credential_horizon_ok now_epoch expiry remaining \<longleftrightarrow> remaining \<le> expiry - now_epoch"

text \<open>The action that ends the tick when the credential would not outlive the stage.\<close>

definition check_credential_horizon :: "ctl_world \<Rightarrow> workflow \<Rightarrow> job_stage \<Rightarrow> (ctl_error + ctl_action option) ctl" where
  "check_credential_horizon cw wk st =
     (case cw_expiry cw of
        None \<Rightarrow> State_Monad.return (Inr None)
      | Some expiry_of \<Rightarrow>
         (case (map_of (wf_profiles wk) (js_profile st), expiry_of (js_name st), parse_ts (cw_time cw)) of
            (None, _, _) \<Rightarrow> State_Monad.return (Inl UnknownProfile)
          | (Some p, None, _) \<Rightarrow> State_Monad.return (Inr (Some (CredentialTransient (js_name st))))
          | (Some p, Some x, Inl e) \<Rightarrow> State_Monad.return (Inl (IdFailed e))
          | (Some p, Some x, Inr now) \<Rightarrow>
              if credential_horizon_ok now x (remaining_wall_s p 0) then State_Monad.return (Inr None)
              else do { _ \<leftarrow> emit cw ''workflow_failed'' (Some (cw_time cw))
                              [(''failure_class'', JStr ''CREDENTIAL_EXPIRES''), (''stage'', JStr (js_name st))];
                        State_Monad.return (Inr (Some (WorkflowFailed ''CREDENTIAL_EXPIRES''))) }))"

definition read_accepted :: "ctl_world \<Rightarrow> string \<Rightarrow> string \<Rightarrow> accepted option ctl" where
  "read_accepted cw n a = get_object cw (\<lambda>s. ct_accepted s (n, a))"

fun gather_inputs :: "ctl_world \<Rightarrow> (string \<times> input_ref) list \<Rightarrow> (ctl_error + accepted list) ctl" where
  "gather_inputs cw [] = State_Monad.return (Inr [])"
| "gather_inputs cw ((k, r) # rs) =
     do { a \<leftarrow> read_accepted cw (ir_stage r) (ir_artifact r);
          case a of
            None \<Rightarrow> State_Monad.return (Inl (UpstreamMissing (ir_stage r) (ir_artifact r)))
          | Some x \<Rightarrow> and_then (gather_inputs cw rs) (\<lambda>xs. State_Monad.return (Inr (x # xs))) }"

definition stage_fields :: "string \<Rightarrow> nat \<Rightarrow> string \<Rightarrow> (string \<times> jval) list" where
  "stage_fields n attempt jid = [(''stage'', JStr n), (''attempt'', JInt (int attempt)), (''job_id'', JStr jid)]"

text \<open>The same fields as the view of the stage has them.\<close>

definition view_fields :: "string \<Rightarrow> stage_view \<Rightarrow> string \<Rightarrow> (string \<times> jval) list" where
  "view_fields n sv jid = [(''stage'', JStr n)] @ opt_field ''attempt'' (map_option (\<lambda>a. JInt \<lfloor>a\<rfloor>) (sv_attempt sv)) @ [(''job_id'', JStr jid)]"

definition submit_on_box ::
  "ctl_world \<Rightarrow> workflow \<Rightarrow> job_stage \<Rightarrow> nat \<Rightarrow> string \<Rightarrow> (ctl_error + ctl_action) ctl" where
  "submit_on_box cw wk st attempt box =
     (case stage_job_id (cw_sha256 cw) (cw_wf_id cw) (js_name st) attempt of
        Inl e \<Rightarrow> State_Monad.return (Inl (IdFailed e))
      | Inr jid \<Rightarrow>
          and_then (gather_inputs cw (sort_key fst (js_inputs st))) (\<lambda>arts.
            case cw_config cw st arts of
              None \<Rightarrow> State_Monad.return (Inl BundleRefused)
            | Some (cfg, sha) \<Rightarrow> do {
                _ \<leftarrow> log_call (CtlSubmit jid box);
                and_then (queued (submit_with_id (cw_jobs cw) jid cfg box sha (cw_actor cw))) (\<lambda>_. do {
                  _ \<leftarrow> emit cw ''stage_planned'' (Some (cw_time cw)) (stage_fields (js_name st) attempt jid @ [(''box'', JStr box)]);
                  _ \<leftarrow> emit cw ''stage_submitted'' (Some (cw_time cw)) (stage_fields (js_name st) attempt jid @ [(''box'', JStr box)]);
                  State_Monad.return (Inr (StageSubmitted (js_name st) attempt jid box)) }) }))"

definition plan_and_submit_stage :: "ctl_world \<Rightarrow> workflow \<Rightarrow> job_stage \<Rightarrow> nat \<Rightarrow> (ctl_error + ctl_action) ctl" where
  "plan_and_submit_stage cw wk st attempt =
     and_then (check_credential_horizon cw wk st) (\<lambda>gate.
       case gate of
         Some act \<Rightarrow> State_Monad.return (Inr act)
       | None \<Rightarrow> and_then (box_resolver cw wk st attempt) (\<lambda>box.
           case nonempty box of
             None \<Rightarrow> State_Monad.return (Inr (NeedBox (js_name st) attempt))
           | Some b \<Rightarrow> submit_on_box cw wk st attempt b))"

section \<open>Accepting a stage\<close>

text \<open>The first output not yet accepted is validated; with every output accepted the stage has succeeded.\<close>

fun accept_outputs ::
  "ctl_world \<Rightarrow> string \<Rightarrow> stage_view \<Rightarrow> string \<Rightarrow> (string \<times> artifact_contract) list \<Rightarrow> (ctl_error + ctl_action) ctl" where
  "accept_outputs cw n sv jid [] =
     do { _ \<leftarrow> emit cw ''stage_succeeded'' (Some (cw_time cw)) (view_fields n sv jid);
          State_Monad.return (Inr (StageSucceeded n)) }"
| "accept_outputs cw n sv jid ((a, contract) # rest) =
     do { have \<leftarrow> read_accepted cw n a;
          if have \<noteq> None then accept_outputs cw n sv jid rest
          else (case cw_artifact cw jid contract of
             None \<Rightarrow> do { _ \<leftarrow> emit cw ''stage_failed'' (Some (cw_time cw))
                              (view_fields n sv jid @ [(''failure_class'', JStr ''ARTIFACT_INVALID'')]);
                        State_Monad.return (Inr (ArtifactRejected n a)) }
           | Some m \<Rightarrow> do {
               ok \<leftarrow> put_object cw (\<lambda>s. s\<lparr>ct_accepted := (ct_accepted s)((n, a) \<mapsto> \<lparr>ap_job_id = jid, ap_manifest = m\<rparr>)\<rparr>);
               if \<not> ok then State_Monad.return (Inl ArtifactWriteFailed)
               else do { _ \<leftarrow> emit cw ''artifact_accepted'' (Some (cw_time cw))
                               (view_fields n sv jid @ [(''artifact'', JStr a), (''manifest_sha256'', JStr m)]);
                         State_Monad.return (Inr (ArtifactAccepted n a)) } }) }"

definition accept_stage_artifacts :: "ctl_world \<Rightarrow> job_stage \<Rightarrow> stage_view \<Rightarrow> string \<Rightarrow> (ctl_error + ctl_action) ctl" where
  "accept_stage_artifacts cw st sv jid =
     accept_outputs cw (js_name st) sv jid (sort_key fst (js_outputs st))"

section \<open>Completion\<close>

definition finish_workflow :: "ctl_world \<Rightarrow> bool \<Rightarrow> (ctl_error + ctl_action) ctl" where
  "finish_workflow cw all_succeeded =
     (if all_succeeded
      then do { _ \<leftarrow> emit cw ''workflow_succeeded'' (Some (cw_time cw)) []; State_Monad.return (Inr WorkflowSucceeded) }
      else do { _ \<leftarrow> emit cw ''workflow_failed'' (Some (cw_time cw)) [(''failure_class'', JStr ''RETRY_EXHAUSTED'')];
                State_Monad.return (Inr (WorkflowFailed ''RETRY_EXHAUSTED'')) })"

definition teardown_failed :: "ctl_world \<Rightarrow> (ctl_error + ctl_action) ctl" where
  "teardown_failed cw =
     do { _ \<leftarrow> emit cw ''workflow_failed'' (Some (cw_time cw)) [(''failure_class'', JStr ''TEARDOWN_FAILED''), (''boxes'', JOther)];
          State_Monad.return (Inr (WorkflowFailed ''TEARDOWN_FAILED'')) }"

definition write_verdict :: "ctl_world \<Rightarrow> bool \<Rightarrow> (ctl_error + ctl_action) ctl" where
  "write_verdict cw all_succeeded =
     do { ok \<leftarrow> put_object cw (\<lambda>s. s\<lparr>ct_verdict := Some all_succeeded\<rparr>);
          if \<not> ok then State_Monad.return (Inl VerdictWriteFailed)
          else do { ok2 \<leftarrow> put_object cw (\<lambda>s. s\<lparr>ct_provenance := True\<rparr>);
            if \<not> ok2 then State_Monad.return (Inl ProvenanceWriteFailed)
            else do { ok3 \<leftarrow> put_object cw (\<lambda>s. s\<lparr>ct_report := True\<rparr>);
              if \<not> ok3 then State_Monad.return (Inl ReportWriteFailed)
              else do { _ \<leftarrow> emit cw ''teardown_started'' (Some (cw_time cw)) [];
                        State_Monad.return (Inr (TeardownStarted all_succeeded)) } } } }"

definition reconcile_completion :: "ctl_world \<Rightarrow> workflow \<Rightarrow> raw_object list \<Rightarrow> bool \<Rightarrow> (ctl_error + ctl_action) ctl" where
  "reconcile_completion cw wk raws all_succeeded =
     do { written \<leftarrow> get_object cw ct_verdict;
          if written = None then write_verdict cw all_succeeded
          else do { remaining \<leftarrow> owned_boxes_remaining cw raws;
            if remaining = [] then finish_workflow cw all_succeeded
            else (case cw_teardown cw of
                None \<Rightarrow> State_Monad.return (Inr (NeedTeardown remaining))
              | Some td \<Rightarrow> do {
                  (left, rel, failed, n) \<leftarrow> attempt_teardown cw wk td remaining;
                  if left = [] then finish_workflow cw all_succeeded
                  else if TEARDOWN_MAX_ATTEMPTS \<le> n then teardown_failed cw
                  else State_Monad.return (Inr (TeardownRetrying left)) }) } }"

section \<open>The active box\<close>

definition copy_job :: "ctl_world \<Rightarrow> string \<Rightarrow> job_view ctl" where
  "copy_job cw jid = State (\<lambda>s.
     let evs = (if w_io (cw_jobs cw) (bk_tick (ct_bucket s)) = Refused then ct_jobs s jid else bk_events (ct_bucket s) jid)
     in (fold_job_ordered (cw_show cw) {} 0 (sort_key ev_order evs), (ctl_tick s)\<lparr>ct_jobs := (ct_jobs s)(jid := evs)\<rparr>))"

definition seconds_between :: "string option \<Rightarrow> string \<Rightarrow> rat option" where
  "seconds_between early late =
     (case nonempty early of
        None \<Rightarrow> None
      | Some x \<Rightarrow> if late = [] then None
                  else (case (parse_ts late, parse_ts x) of (Inr b, Inr a) \<Rightarrow> Some (b - a) | _ \<Rightarrow> None))"

definition heartbeat_stale :: "string \<Rightarrow> job_view \<Rightarrow> rat option" where
  "heartbeat_stale now jv =
     (if jv_status jv \<noteq> ''started'' then None
      else (let base = (case nonempty (jv_last_heartbeat_ts jv) of Some t \<Rightarrow> Some t
                        | None \<Rightarrow> (case nonempty (jv_last_resumed_ts jv) of Some t \<Rightarrow> Some t | None \<Rightarrow> jv_started_at jv))
            in case seconds_between base now of
                 Some age \<Rightarrow> if JOB_HEARTBEAT_STALE_S < age then Some age else None
               | None \<Rightarrow> None))"

definition read_job :: "ctl_world \<Rightarrow> string \<Rightarrow> (ctl_error + job_view) ctl" where
  "read_job cw jid =
     (if \<not> job_id_ok jid then State_Monad.return (Inl (QueueFailed BadJobId))
      else do { jv \<leftarrow> copy_job cw jid; State_Monad.return (Inr jv) })"

text \<open>The stage being watched, its view, job and box.\<close>

record active =
  ac_stage :: job_stage
  ac_view :: stage_view
  ac_job :: string
  ac_box :: string

definition attempt_of :: "stage_view \<Rightarrow> nat" where
  "attempt_of sv = (case sv_attempt sv of None \<Rightarrow> 0 | Some a \<Rightarrow> nat \<lfloor>a\<rfloor>)"

text \<open>Destroy the box and fail its job, so that the retry policy takes over.\<close>

definition condemn_box :: "ctl_world \<Rightarrow> active \<Rightarrow> string \<Rightarrow> (ctl_error + ctl_action option) ctl" where
  "condemn_box cw ac why =
     do { _ \<leftarrow> log_call (CtlTeardown (ac_box ac) ''destroy'');
          and_then (queued (emit_event (cw_jobs cw) (ac_job ac) ''failed'' (cw_actor cw) None [(''reason'', JStr why)]))
            (\<lambda>_. State_Monad.return (Inr (Some (BoxBootFailed (js_name (ac_stage ac)))))) }"

definition boot_throughput_action :: "ctl_world \<Rightarrow> active \<Rightarrow> job_view \<Rightarrow> (ctl_error + ctl_action option) ctl" where
  "boot_throughput_action cw ac jv =
     (case (cw_teardown cw, cw_slow cw) of
        (Some _, Some slow) \<Rightarrow>
          if jv_status jv = ''submitted'' \<and> slow (ac_box ac) then condemn_box cw ac ''boot throughput floor''
          else State_Monad.return (Inr None)
      | _ \<Rightarrow> State_Monad.return (Inr None))"

definition boot_deadline_action :: "ctl_world \<Rightarrow> active \<Rightarrow> job_view \<Rightarrow> (ctl_error + ctl_action option) ctl" where
  "boot_deadline_action cw ac jv =
     (case (cw_teardown cw, seconds_between (sv_box_acquired_ts (ac_view ac)) (cw_time cw)) of
        (Some _, Some age) \<Rightarrow>
          if jv_status jv = ''submitted'' \<and> BOOT_DEADLINE_S < age
          then condemn_box cw ac ''boot deadline exceeded: jobd never claimed the job (box hung/loading timeout)''
          else State_Monad.return (Inr None)
      | _ \<Rightarrow> State_Monad.return (Inr None))"

definition boot_failed_action :: "ctl_world \<Rightarrow> active \<Rightarrow> job_view \<Rightarrow> (ctl_error + ctl_action option) ctl" where
  "boot_failed_action cw ac jv =
     and_then (boot_throughput_action cw ac jv) (\<lambda>a.
       case a of Some x \<Rightarrow> State_Monad.return (Inr (Some x)) | None \<Rightarrow> boot_deadline_action cw ac jv)"

definition rotate_credential :: "ctl_world \<Rightarrow> string \<Rightarrow> (ctl_error + unit) ctl" where
  "rotate_credential cw iid =
     (if cw_expiry cw = None then State_Monad.return (Inr ())
      else do { _ \<leftarrow> log_call (CtlRotate iid);
                State_Monad.return (if cw_rotate cw iid then Inr () else Inl RotationFailed) })"

definition retarget_box :: "ctl_world \<Rightarrow> workflow \<Rightarrow> active \<Rightarrow> string option \<Rightarrow> (ctl_error + ctl_action option) ctl" where
  "retarget_box cw wk ac why =
     and_then (rotate_credential cw (ac_box ac)) (\<lambda>_.
     and_then (box_resolver cw wk (ac_stage ac) (attempt_of (ac_view ac))) (\<lambda>new.
     and_then (case nonempty new of
                 Some b \<Rightarrow> if b = ac_box ac then State_Monad.return (Inr ())
                   else do { _ \<leftarrow> log_call (CtlRetarget (ac_job ac) (ac_box ac) b);
                             and_then (queued (retarget_ticket (cw_jobs cw) (ac_job ac) (ac_box ac) b (cw_actor cw)))
                               (\<lambda>_. State_Monad.return (Inr ())) }
               | None \<Rightarrow> State_Monad.return (Inr ())) (\<lambda>_. do {
       _ \<leftarrow> emit cw ''box_retargeted'' None
              ([(''stage'', JStr (js_name (ac_stage ac))), (''attempt'', JInt (int (attempt_of (ac_view ac)))),
                (''old_instance_id'', JStr (ac_box ac))]
               @ opt_field ''instance_id'' (map_option JStr new) @ opt_field ''reason'' (map_option JStr why));
       State_Monad.return (Inr (Some (BoxRetargeted (js_name (ac_stage ac)) new))) })))"

text \<open>The heartbeat is read twice before the box is destroyed and the job moved.\<close>

definition heartbeat_dead_action :: "ctl_world \<Rightarrow> workflow \<Rightarrow> active \<Rightarrow> job_view \<Rightarrow> (ctl_error + ctl_action option) ctl" where
  "heartbeat_dead_action cw wk ac jv =
     (if cw_teardown cw = None \<or> heartbeat_stale (cw_time cw) jv = None then State_Monad.return (Inr None)
      else and_then (read_job cw (ac_job ac)) (\<lambda>jv2.
                if heartbeat_stale (cw_time cw) jv2 = None then State_Monad.return (Inr None)
                else do { _ \<leftarrow> log_call (CtlTeardown (ac_box ac) ''destroy'');
                          retarget_box cw wk ac (Some ''job_heartbeat_stale'') }))"

definition stale_image_resume_action :: "ctl_world \<Rightarrow> workflow \<Rightarrow> active \<Rightarrow> (ctl_error + ctl_action option) ctl" where
  "stale_image_resume_action cw wk ac =
     (case cw_image_seen cw of
        None \<Rightarrow> State_Monad.return (Inr None)
      | Some seen \<Rightarrow>
          if \<not> image_gate_refuses cw (seen (ac_box ac)) then State_Monad.return (Inr None)
          else if seen (ac_box ac) = ImgUnresolved then State_Monad.return (Inr (Some (ResumeHeld (js_name (ac_stage ac)))))
          else retarget_box cw wk ac (Some ''stale_image''))"

definition resume_box :: "ctl_world \<Rightarrow> active \<Rightarrow> (ctl_error + ctl_action option) ctl" where
  "resume_box cw ac =
     and_then (rotate_credential cw (ac_box ac)) (\<lambda>_. do {
       _ \<leftarrow> log_call (CtlStart (ac_box ac));
       State_Monad.return (Inr (Some (BoxResumed (js_name (ac_stage ac)) (cw_start cw (ac_box ac))))) })"

definition or_else :: "('e + 'a option) ctl \<Rightarrow> ('e + 'a option) ctl \<Rightarrow> ('e + 'a option) ctl" where
  "or_else m n = and_then m (\<lambda>x. case x of Some a \<Rightarrow> State_Monad.return (Inr (Some a)) | None \<Rightarrow> n)"

text \<open>The recovery of an active box, or nothing to do about it.\<close>

definition reconcile_active_box :: "ctl_world \<Rightarrow> workflow \<Rightarrow> (string \<Rightarrow> box_state) \<Rightarrow> active \<Rightarrow> (ctl_error + ctl_action option) ctl" where
  "reconcile_active_box cw wk observe ac =
     and_then (read_job cw (ac_job ac)) (\<lambda>jv.
          if jv_status jv \<notin> set RUNNING_JOB_STATUSES then State_Monad.return (Inr None)
          else (case observe (ac_box ac) of
              BoxLive \<Rightarrow> or_else (boot_failed_action cw ac jv) (heartbeat_dead_action cw wk ac jv)
            | BoxStopped \<Rightarrow> or_else (heartbeat_dead_action cw wk ac jv)
                             (or_else (stale_image_resume_action cw wk ac) (resume_box cw ac))
            | BoxGone \<Rightarrow> retarget_box cw wk ac None
            | BoxUnknown \<Rightarrow> or_else (boot_failed_action cw ac jv)
                 (or_else (heartbeat_dead_action cw wk ac jv)
                   (State_Monad.return (Inr (Some (NoopRunning (js_name (ac_stage ac)))))))))"

section \<open>The tick\<close>

definition classify_job_failure :: "job_view \<Rightarrow> string" where
  "classify_job_failure jv =
     (if jv_status jv = ''cancelled'' then ''infrastructure''
      else (let reason = (case jv_fail_reason jv of Some (JStr s) \<Rightarrow> py_lower s | _ \<Rightarrow> [])
        in if list_ex (\<lambda>k. contains k reason)
              [''preempt'', ''evict'', ''lost'', ''timeout'', ''connection'', ''ssh'', ''spot'', ''throughput'']
           then ''infrastructure''
           else if list_ex (\<lambda>k. contains k reason) [''artifact'', ''manifest'', ''postcondition'', ''sha256'', ''validate'']
           then ''postcondition'' else ''entrypoint''))"

definition failure_name :: "string \<Rightarrow> string" where
  "failure_name c = (if c = ''infrastructure'' then ''INFRASTRUCTURE_FAILED''
     else if c = ''entrypoint'' then ''ENTRYPOINT_FAILED'' else ''POSTCONDITION_FAILED'')"

definition stage_named :: "workflow \<Rightarrow> string \<Rightarrow> job_stage option" where
  "stage_named wk n = find (\<lambda>s. js_name s = n) (rev (wf_stages wk))"

text \<open>The first stage, in the order of the specification, that has a status and has not succeeded.\<close>

definition active_stage :: "workflow \<Rightarrow> wf_view \<Rightarrow> string option" where
  "active_stage wk v = map_option js_name
     (find (\<lambda>s. stage_status_of v (js_name s) \<notin> {None, Some ''stage_succeeded''}) (wf_stages wk))"

definition in_flight :: "stage_view \<Rightarrow> bool" where
  "in_flight sv \<longleftrightarrow> (case sv_status sv of Some x \<Rightarrow> x \<in> set STAGE_INFLIGHT | None \<Rightarrow> False)"

definition truthy_text :: "ctl_world \<Rightarrow> jval option \<Rightarrow> string option" where
  "truthy_text cw v = (if truthy v then map_option (id_text cw) v else None)"

definition terminal_tick :: "ctl_world \<Rightarrow> workflow \<Rightarrow> raw_object list \<Rightarrow> (ctl_error + ctl_action) ctl" where
  "terminal_tick cw wk raws =
     do { remaining \<leftarrow> owned_boxes_remaining cw raws;
          if remaining = [] then State_Monad.return (Inr (NoopTerminal (wv_status (fold_workflow_events raws))))
          else (case cw_teardown cw of
              None \<Rightarrow> State_Monad.return (Inr (NeedTeardown remaining))
            | Some td \<Rightarrow> do {
                (left, rel, failed, n) \<leftarrow> attempt_teardown cw wk td remaining;
                if left = [] then State_Monad.return (Inr (TeardownReconciled rel))
                else do { said \<leftarrow> (if TEARDOWN_MAX_ATTEMPTS \<le> n then teardown_failed_recorded cw else State_Monad.return True);
                          if said then State_Monad.return (Inr (TeardownRetrying left)) else teardown_failed cw } }) }"

text \<open>The job of the active stage has ended without success: retry, or fail the stage.\<close>

definition retry_or_fail :: "ctl_world \<Rightarrow> workflow \<Rightarrow> job_stage \<Rightarrow> stage_view \<Rightarrow> string \<Rightarrow> job_view \<Rightarrow> (ctl_error + ctl_action) ctl" where
  "retry_or_fail cw wk st sv jid jv =
     (let cls = classify_job_failure jv;
          used = (if sv_attempts_seen sv = 0 then attempt_of sv + 1 else sv_attempts_seen sv)
      in if decide_retry st (int used) cls then plan_and_submit_stage cw wk st (attempt_of sv + 1)
         else (let c = (if cls \<in> set (rt_retry_on (js_retry st)) then ''RETRY_EXHAUSTED'' else failure_name cls)
               in do { _ \<leftarrow> emit cw ''stage_failed'' (Some (cw_time cw))
                              (view_fields (js_name st) sv jid @ [(''failure_class'', JStr c)]
                               @ opt_field ''fail_reason'' (jv_fail_reason jv));
                       State_Monad.return (Inr (StageFailed (js_name st) c)) }))"

definition running_tick ::
  "ctl_world \<Rightarrow> workflow \<Rightarrow> rat \<Rightarrow> job_stage \<Rightarrow> stage_view \<Rightarrow> string \<Rightarrow> job_view \<Rightarrow> (ctl_error + ctl_action) ctl" where
  "running_tick cw wk spent st sv jid jv =
     (let n = js_name st
      in if budget_exhausted wk spent (map_of (wf_profiles wk) (js_profile st))
         then and_then (queued (write_cancel_marker (cw_jobs cw) jid)) (\<lambda>ok. State_Monad.return (Inr (CancelBudget n ok)))
         else and_then (case (cw_observe cw, truthy_text cw (sv_instance_id sv)) of
                 (Some observe, Some box) \<Rightarrow>
                   reconcile_active_box cw wk observe \<lparr>ac_stage = st, ac_view = sv, ac_job = jid, ac_box = box\<rparr>
               | _ \<Rightarrow> State_Monad.return (Inr None)) (\<lambda>rec.
           case rec of
             Some a \<Rightarrow> State_Monad.return (Inr a)
           | None \<Rightarrow>
               if jv_status jv \<in> set [''claimed'', ''started''] \<and> sv_status sv \<in> set [Some ''stage_planned'', Some ''stage_submitted'']
               then do { _ \<leftarrow> emit cw ''stage_started'' (Some (cw_time cw)) (view_fields n sv jid);
                         State_Monad.return (Inr (StageStarted n)) }
               else State_Monad.return (Inr (NoopRunning n))))"

definition active_tick :: "ctl_world \<Rightarrow> workflow \<Rightarrow> rat \<Rightarrow> job_stage \<Rightarrow> stage_view \<Rightarrow> (ctl_error + ctl_action) ctl" where
  "active_tick cw wk spent st sv =
     (case truthy_text cw (sv_job_id sv) of
        None \<Rightarrow> plan_and_submit_stage cw wk st (attempt_of sv)
      | Some jid \<Rightarrow> and_then (read_job cw jid) (\<lambda>jv.
          if jv_status jv \<in> set RUNNING_JOB_STATUSES then running_tick cw wk spent st sv jid jv
          else if jv_status jv = ''done'' then accept_stage_artifacts cw st sv jid
          else retry_or_fail cw wk st sv jid jv))"

definition next_tick :: "ctl_world \<Rightarrow> workflow \<Rightarrow> rat \<Rightarrow> raw_object list \<Rightarrow> (ctl_error + ctl_action) ctl" where
  "next_tick cw wk spent raws =
     (let v = fold_workflow_events raws
      in case Option.bind (next_ready_stage wk v) (stage_named wk) of
           Some st \<Rightarrow>
             if budget_exhausted wk spent (map_of (wf_profiles wk) (js_profile st))
             then do { _ \<leftarrow> emit cw ''workflow_failed'' (Some (cw_time cw)) [(''failure_class'', JStr ''BUDGET_EXHAUSTED'')];
                       State_Monad.return (Inr (WorkflowFailed ''BUDGET_EXHAUSTED'')) }
             else plan_and_submit_stage cw wk st 0
         | None \<Rightarrow> reconcile_completion cw wk raws
             (list_all (\<lambda>s. stage_status_of v (js_name s) = Some ''stage_succeeded'') (wf_stages wk)))"

text \<open>What the operator's cancellation makes of the tick: nothing, or the action that ends it.\<close>

definition cancel_tick :: "ctl_world \<Rightarrow> (string \<times> stage_view) option \<Rightarrow> (ctl_error + ctl_action option) ctl" where
  "cancel_tick cw act =
     do { requested \<leftarrow> on_bucket (has_cancel_marker (cw_jobs cw) (cw_wf_id cw));
          if \<not> requested then State_Monad.return (Inr None)
          else (case act of
              Some (n, sv) \<Rightarrow>
                if \<not> in_flight sv
                then do { _ \<leftarrow> emit cw ''workflow_cancelled'' (Some (cw_time cw)) []; State_Monad.return (Inr (Some WorkflowCancelled)) }
                else (case truthy_text cw (sv_job_id sv) of
                    None \<Rightarrow> State_Monad.return (Inr None)
                  | Some jid \<Rightarrow> do {
                      marked \<leftarrow> on_bucket (has_cancel_marker (cw_jobs cw) jid);
                      if marked then State_Monad.return (Inr None)
                      else and_then (queued (write_cancel_marker (cw_jobs cw) jid))
                             (\<lambda>ok. State_Monad.return (Inr (Some (CancelPropagated n ok)))) })
            | None \<Rightarrow> do { _ \<leftarrow> emit cw ''workflow_cancelled'' (Some (cw_time cw)) []; State_Monad.return (Inr (Some WorkflowCancelled)) }) }"

definition reconcile_tick :: "ctl_world \<Rightarrow> workflow \<Rightarrow> (ctl_error + ctl_action) ctl" where
  "reconcile_tick cw wk =
     do { raws \<leftarrow> read_events cw;
          _ \<leftarrow> accrue_and_persist_cost cw raws;
          spent \<leftarrow> folded_spend cw;
          let v = fold_workflow_events raws;
          if wv_terminal v then terminal_tick cw wk raws
          else (let act = Option.bind (active_stage wk v) (\<lambda>n. map_option (\<lambda>sv. (n, sv)) (wv_stages v n))
                in and_then (cancel_tick cw act) (\<lambda>c.
                  case c of
                    Some a \<Rightarrow> State_Monad.return (Inr a)
                  | None \<Rightarrow>
                     (case Option.bind act (\<lambda>(n, sv). map_option (\<lambda>st. (st, sv)) (stage_named wk n)) of
                        Some (st, sv) \<Rightarrow> if in_flight sv then active_tick cw wk spent st sv else next_tick cw wk spent raws
                      | None \<Rightarrow> next_tick cw wk spent raws))) }"

section \<open>The loop\<close>

text \<open>\<open>polls\<close> are the views, with their times, that a takeover reads while it waits.\<close>

fun takeover_wait :: "string \<Rightarrow> string option \<Rightarrow> (string \<times> wf_view) list \<Rightarrow> (ctl_error + unit)" where
  "takeover_wait now baseline [] = Inl TakeoverRefused"
| "takeover_wait now baseline ((t, v) # ps) =
     (if (case (nonempty (wv_last_heartbeat_ts v), nonempty baseline) of (Some h, Some b) \<Rightarrow> b < h | _ \<Rightarrow> False) then Inl TakeoverRefused
      else case controller_is_stale v t (POLL_INTERVAL_S * HEARTBEAT_STALE_MULT) of
             Inl e \<Rightarrow> Inl (IdFailed e)
           | Inr True \<Rightarrow> Inr ()
           | Inr False \<Rightarrow>
              (if (case (parse_ts t, parse_ts now) of (Inr b, Inr a) \<Rightarrow>
                     POLL_INTERVAL_S * HEARTBEAT_STALE_MULT + TAKEOVER_WAIT_GRACE_S \<le> b - a | _ \<Rightarrow> False)
               then Inl TakeoverRefused else takeover_wait now baseline ps))"

text \<open>Whether the log lets this controller in, and under which event.\<close>

definition claim_verdict :: "string \<Rightarrow> string \<Rightarrow> bool \<Rightarrow> wf_view \<Rightarrow> (string \<times> wf_view) list \<Rightarrow> (ctl_error + string)" where
  "claim_verdict actor now takeover v polls =
     (case controller_is_stale v now (POLL_INTERVAL_S * HEARTBEAT_STALE_MULT) of
        Inl e \<Rightarrow> Inl (IdFailed e)
      | Inr stale \<Rightarrow>
          if takeover
          then (if stale \<or> wv_actor v = Some (JStr actor) then Inr ''takeover''
                else case takeover_wait now (wv_last_heartbeat_ts v) (take 5 polls) of Inl e \<Rightarrow> Inl e | Inr _ \<Rightarrow> Inr ''takeover'')
          else if truthy (wv_actor v) \<and> wv_actor v \<noteq> Some (JStr actor) \<and> \<not> stale then Inl SecondController
          else Inr ''controller_started'')"

definition claim_controller :: "ctl_world \<Rightarrow> bool \<Rightarrow> (string \<times> wf_view) list \<Rightarrow> (ctl_error + bool) ctl" where
  "claim_controller cw takeover polls =
     do { raws \<leftarrow> read_events cw;
          case claim_verdict (cw_actor cw) (cw_time cw) takeover (fold_workflow_events raws) polls of
            Inl e \<Rightarrow> State_Monad.return (Inl e)
          | Inr ev \<Rightarrow> do { ok \<leftarrow> emit cw ev None []; State_Monad.return (Inr ok) } }"

definition terminal_exit_code :: "string \<Rightarrow> jval option \<Rightarrow> nat" where
  "terminal_exit_code status fc =
     (if status = ''failed'' \<and> truthy fc then failure_class_exit_code (case fc of Some (JStr c) \<Rightarrow> Some c | _ \<Rightarrow> Some [])
      else if status = ''failed'' then 2 else if status = ''cancelled'' then 3 else 0)"

text \<open>One world per tick; the worlds running out is the bound on the ticks.\<close>

fun run_controller :: "ctl_world list \<Rightarrow> workflow \<Rightarrow> (ctl_error + nat) ctl" where
  "run_controller [] wk = State_Monad.return (Inr 0)"
| "run_controller (cw # cws) wk =
     do { _ \<leftarrow> emit cw ''controller_heartbeat'' None [];
          and_then (reconcile_tick cw wk) (\<lambda>_. do {
            raws \<leftarrow> read_events cw;
            let v = fold_workflow_events raws;
            if wv_terminal v then State_Monad.return (Inr (terminal_exit_code (wv_status v) (wv_failure_class v)))
            else run_controller cws wk }) }"

end
