(* ===== verification/WorkflowRun.thy ===== *)
theory WorkflowRun
  imports WorkflowCtl
begin

text \<open>
  What a tick of the workflow controller may do, and what holds after any sequence of ticks.

  Lemma groups: a program's events and calls (\<open>abides\<close>, a rule per construct and per operation); the events
  and calls of one tick; the invariants of the log over any run.
\<close>

section \<open>The events and calls of a program\<close>

definition obj_stage :: "fields \<Rightarrow> string option" where
  "obj_stage f = (case str_field f ''stage'' of Some [] \<Rightarrow> None | s \<Rightarrow> s)"

definition obj_attempt :: "fields \<Rightarrow> rat option" where
  "obj_attempt f = (case f ''attempt'' of Some (JInt i) \<Rightarrow> Some (of_int i) | Some (JFloat x) \<Rightarrow> Some x | _ \<Rightarrow> None)"

text \<open>An event obeys a rule on (stage, event name, attempt); events without a stage are free.\<close>

definition obeys :: "(string \<Rightarrow> string \<Rightarrow> rat option \<Rightarrow> bool) \<Rightarrow> raw_object \<Rightarrow> bool" where
  "obeys turn x \<longleftrightarrow> (\<forall>f n. x = Obj f \<longrightarrow> obj_stage f = Some n \<longrightarrow> turn n (dflt [] (str_field f ''event'')) (obj_attempt f))"

definition extends :: "(string \<Rightarrow> string \<Rightarrow> rat option \<Rightarrow> bool) \<Rightarrow> (ctl_io \<Rightarrow> bool) \<Rightarrow> ctl_state \<Rightarrow> ctl_state \<Rightarrow> bool" where
  "extends turn io s s' \<longleftrightarrow>
     (\<exists>l. ct_log s' = ct_log s @ l \<and> list_all (obeys turn) l) \<and> (\<exists>c. ct_io s' = ct_io s @ c \<and> list_all io c)"

text \<open>Run from any state, the program only logs events and makes calls that the rules allow, and its result is one
  of those allowed.\<close>

definition abides :: "(string \<Rightarrow> string \<Rightarrow> rat option \<Rightarrow> bool) \<Rightarrow> (ctl_io \<Rightarrow> bool) \<Rightarrow> ('a \<Rightarrow> bool) \<Rightarrow> 'a ctl \<Rightarrow> bool" where
  "abides turn io res m \<longleftrightarrow> (\<forall>s. case run_state m s of (x, s') \<Rightarrow> extends turn io s s' \<and> res x)"

lemma extends_refl [simp]: "extends turn io s s"
  by (simp add: extends_def)

lemma extends_trans: "extends turn io s s1 \<Longrightarrow> extends turn io s1 s2 \<Longrightarrow> extends turn io s s2"
  unfolding extends_def by (metis append.assoc list_all_append)

lemma extends_same: "ct_log s' = ct_log s \<Longrightarrow> ct_io s' = ct_io s \<Longrightarrow> extends turn io s s'"
  by (simp add: extends_def)

lemma extends_log: "ct_log s' = ct_log s @ [x] \<Longrightarrow> ct_io s' = ct_io s \<Longrightarrow> obeys turn x \<Longrightarrow> extends turn io s s'"
  by (simp add: extends_def)

lemma extends_io: "ct_log s' = ct_log s \<Longrightarrow> ct_io s' = ct_io s @ [x] \<Longrightarrow> io x \<Longrightarrow> extends turn io s s'"
  by (simp add: extends_def)

lemma abidesI: "(\<And>s x s'. run_state m s = (x, s') \<Longrightarrow> extends turn io s s' \<and> res x) \<Longrightarrow> abides turn io res m"
  by (auto simp: abides_def)

lemma abidesD: "abides turn io res m \<Longrightarrow> run_state m s = (x, s') \<Longrightarrow> extends turn io s s' \<and> res x"
  unfolding abides_def by (metis (mono_tags, lifting) case_prod_conv)

lemma abides_return [intro!]: "res x \<Longrightarrow> abides turn io res (State_Monad.return x)"
  by (simp add: abides_def)

lemma abides_weak: "abides turn io res m \<Longrightarrow> (\<And>x. res x \<Longrightarrow> res' x) \<Longrightarrow> abides turn io res' m"
  unfolding abides_def by (auto split: prod.splits)

lemma abides_bind:
  assumes "abides turn io P m" "\<And>x. P x \<Longrightarrow> abides turn io res (f x)"
  shows "abides turn io res (State_Monad.bind m f)"
proof (rule abidesI)
  fix s x s'
  assume r: "run_state (State_Monad.bind m f) s = (x, s')"
  obtain y s1 where 1: "run_state m s = (y, s1)" by force
  then have 2: "run_state (f y) s1 = (x, s')" using r by simp
  have p: "extends turn io s s1" "P y" using abidesD [OF assms(1) 1] by simp_all
  then show "extends turn io s s' \<and> res x"
    using abidesD [OF assms(2) [OF p(2)] 2] extends_trans by blast
qed

lemma abides_seq:
  "abides turn io (\<lambda>_. True) m \<Longrightarrow> (\<And>x. abides turn io res (f x)) \<Longrightarrow> abides turn io res (State_Monad.bind m f)"
  by (rule abides_bind)

lemma abides_and_then:
  assumes "abides turn io (\<lambda>x. case x of Inl e \<Rightarrow> True | Inr a \<Rightarrow> P a) m" "\<And>a. P a \<Longrightarrow> abides turn io res (f a)" "\<And>e. res (Inl e)"
  shows "abides turn io res (and_then m f)"
  unfolding and_then_def by (rule abides_bind [OF assms(1)]) (use assms(2,3) in \<open>auto split: sum.splits\<close>)

lemma abides_then:
  assumes "abides turn io (\<lambda>_. True) m" "\<And>a. abides turn io res (f a)" "\<And>e. res (Inl e)"
  shows "abides turn io res (and_then m f)"
  by (rule abides_and_then [where P = "\<lambda>_. True"]) (use assms in \<open>auto intro: abides_weak\<close>)

lemma abides_bucket [intro!]: "abides turn io (\<lambda>_. True) (on_bucket m)"
  by (rule abidesI) (auto simp: on_bucket_def split: prod.splits intro!: extends_same)

lemma abides_queued [intro!]: "abides turn io (\<lambda>_. True) (queued m)"
  unfolding queued_def by (rule abides_seq) auto

lemma abides_log [intro!]: "io x \<Longrightarrow> abides turn io (\<lambda>_. True) (log_call x)"
  by (rule abidesI) (auto simp: log_call_def intro!: extends_io)

lemma abides_put:
  "(\<And>s. ct_log (upd s) = ct_log s) \<Longrightarrow> (\<And>s. ct_io (upd s) = ct_io s) \<Longrightarrow> abides turn io (\<lambda>_. True) (put_object cw upd)"
  by (rule abidesI) (auto simp: put_object_def ctl_tick_def split: io_outcome.splits intro!: extends_same)

lemma abides_get [intro!]: "abides turn io (\<lambda>_. True) (get_object cw sel)"
  by (rule abidesI) (auto simp: get_object_def ctl_tick_def intro!: extends_same)

lemma abides_read_events [intro!]: "abides turn io (\<lambda>_. True) (read_events cw)"
  by (rule abidesI) (auto simp: read_events_def Let_def ctl_tick_def intro!: extends_same)

lemma abides_peek: "abides turn io (\<lambda>_. True) (State (\<lambda>s. (g s, s)))"
  by (rule abidesI) auto

lemma abides_poke: "(\<And>s. ct_log (upd s) = ct_log s) \<Longrightarrow> (\<And>s. ct_io (upd s) = ct_io s)
    \<Longrightarrow> abides turn io (\<lambda>_. True) (State (\<lambda>s. ((), upd s)))"
  by (rule abidesI) (auto intro!: extends_same)

lemma abides_copy [intro!]: "abides turn io (\<lambda>_. True) (copy_job cw jid)"
  by (rule abidesI) (auto simp: copy_job_def Let_def ctl_tick_def intro!: extends_same)

lemma abides_put_log: "obeys turn x \<Longrightarrow> abides turn io (\<lambda>_. True) (put_object cw (\<lambda>s. s\<lparr>ct_log := ct_log s @ [x]\<rparr>))"
  by (rule abidesI) (auto simp: put_object_def ctl_tick_def extends_def split: io_outcome.splits)

lemma abides_emit: "(\<And>t nn. obeys turn (wf_object cw ev t nn fs)) \<Longrightarrow> abides turn io (\<lambda>_. True) (emit cw ev ts fs)"
  unfolding emit_def by (intro abides_seq abides_put_log abides_bucket) (auto split: option.split)

section \<open>The events of each operation\<close>

text \<open>An event with no stage is always allowed.\<close>

lemma obeys_free: "obj_stage (map_of (fs @ core)) = None \<Longrightarrow> obeys turn (Obj (map_of (fs @ core)))"
  by (simp add: obeys_def)

lemma emit_free:
  "map_of fs ''stage'' = None \<Longrightarrow> abides turn io (\<lambda>_. True) (emit cw ev ts fs)"
  by (rule abides_emit) (auto simp: obeys_def wf_object_def obj_stage_def str_field_def map_add_def split: option.splits)

lemma emit_stage:
  assumes "map_of fs ''stage'' = Some (JStr n)" "map_of fs ''event'' = None" "n \<noteq> [] \<Longrightarrow> turn n ev (obj_attempt (map_of fs))"
  shows "abides turn io (\<lambda>_. True) (emit cw ev ts fs)"
  by (rule abides_emit)
     (use assms in \<open>auto simp: obeys_def wf_object_def obj_stage_def obj_attempt_def str_field_def map_add_def
        split: option.splits list.splits if_splits\<close>)

text \<open>Any event of stage \<open>n\<close> at attempt \<open>a\<close> is allowed.\<close>

definition may_speak :: "(string \<Rightarrow> string \<Rightarrow> rat option \<Rightarrow> bool) \<Rightarrow> string \<Rightarrow> nat \<Rightarrow> bool" where
  "may_speak turn n a \<longleftrightarrow> (\<forall>ev. turn n ev (Some (of_nat a)))"

lemma emit_attempt:
  assumes "may_speak turn n a" "map_of fs ''stage'' = Some (JStr n)" "map_of fs ''event'' = None" "map_of fs ''attempt'' = Some (JInt (int a))"
  shows "abides turn io (\<lambda>_. True) (emit cw ev ts fs)"
  by (rule emit_stage [OF assms(2,3)]) (use assms(1,4) in \<open>simp add: may_speak_def obj_attempt_def\<close>)

lemma opt_field_map [simp]: "map_of (opt_field k v) j = (if j = k then (case v of Some JNull \<Rightarrow> None | x \<Rightarrow> x) else None)"
  by (auto simp: opt_field_def split: option.split jval.split)

lemma abides_refusals: "may_speak turn n a \<Longrightarrow> abides turn io (\<lambda>_. True) (log_refusals cw n a bs)"
proof (induction bs)
  case (Cons b bs)
  let ?e = "emit cw ''box_adopt_refused'' None
     ([(''stage'', JStr n), (''attempt'', JInt (int a)), (''instance_id'', JStr (bx_id b)),
       (''image_state'', JStr (state_text (cw_image cw (bx_id b))))] @ opt_field ''failure_class'' (image_class (cw_image cw (bx_id b))))"
  have e: "abides turn io (\<lambda>_. True) ?e" by (rule emit_attempt [OF Cons.prems]) simp_all
  have p: "abides turn io (\<lambda>_. True) (State (\<lambda>s. ((), s\<lparr>ct_refused := (bx_id b, cw_image cw (bx_id b)) # ct_refused s\<rparr>)))"
    by (rule abides_poke) simp_all
  show ?case
    unfolding log_refusals.simps
  proof (intro abides_seq [OF abides_peek] abides_seq [OF _ Cons.IH [OF Cons.prems]])
    show "abides turn io (\<lambda>_. True) (if x then State_Monad.return False else do {
        _ \<leftarrow> State (\<lambda>s. ((), s\<lparr>ct_refused := (bx_id b, cw_image cw (bx_id b)) # ct_refused s\<rparr>)); ?e })" for x
      using abides_seq [OF p e] by auto
  qed
qed auto

lemma abides_acquired: "may_speak turn n a \<Longrightarrow> abides turn io (\<lambda>_. True) (acquired cw n a iid ad m)"
  unfolding acquired_def by (rule emit_attempt) auto

lemma abides_launch:
  assumes "may_speak turn n a" "\<And>x q. io (CtlLaunch x q)"
  shows "abides turn io (\<lambda>_. True) (launch_box cw p n a)"
  unfolding launch_box_def
  by (auto split: option.split intro!: abides_seq abides_acquired assms)

lemma abides_resolver:
  assumes "may_speak turn (js_name st) a" "\<And>x q. io (CtlLaunch x q)"
  shows "abides turn io (\<lambda>_. True) (box_resolver cw wk st a)"
  unfolding box_resolver_def Let_def
  by (auto split: option.split sum.split list.split intro!: abides_seq abides_acquired abides_launch abides_refusals assms)

lemma abides_gather: "abides turn io (\<lambda>_. True) (gather_inputs cw rs)"
  by (induction rs rule: gather_inputs.induct [where P = "\<lambda>_ rs. abides turn io (\<lambda>_. True) (gather_inputs cw rs)"])
     (auto simp: read_accepted_def split: option.split intro!: abides_seq abides_then)

lemma abides_credential:
  assumes "turn (js_name st) ''workflow_failed'' None"
  shows "abides turn io (\<lambda>r. r \<noteq> Inr (Some WorkflowSucceeded)) (check_credential_horizon cw wk st)"
proof -
  have "abides turn io (\<lambda>_. True) (emit cw ''workflow_failed'' (Some (cw_time cw))
      [(''failure_class'', JStr ''CREDENTIAL_EXPIRES''), (''stage'', JStr (js_name st))])"
    by (rule emit_stage [where n = "js_name st"]) (simp_all add: assms obj_attempt_def)
  then show ?thesis
    unfolding check_credential_horizon_def by (auto split: option.split sum.split intro!: abides_seq)
qed

lemma abides_submit:
  assumes "may_speak turn (js_name st) a"
    "\<And>jid. stage_job_id (cw_sha256 cw) (cw_wf_id cw) (js_name st) a = Inr jid \<Longrightarrow> io (CtlSubmit jid box)"
  shows "abides turn io (\<lambda>r. r \<noteq> Inr WorkflowSucceeded) (submit_on_box cw wk st a box)"
proof -
  have e: "abides turn io (\<lambda>_. True) (emit cw ev ts (stage_fields (js_name st) a jid @ [(''box'', v)]))" for ev ts jid v
    by (rule emit_attempt [OF assms(1)]) (simp_all add: stage_fields_def)
  show ?thesis
    unfolding submit_on_box_def using assms(2)
    by (auto split: option.split sum.split intro!: abides_seq abides_then abides_gather e)
qed

lemma abides_plan:
  assumes "may_speak turn (js_name st) a" "turn (js_name st) ''workflow_failed'' None" "\<And>x q. io (CtlLaunch x q)"
    "\<And>jid box. stage_job_id (cw_sha256 cw) (cw_wf_id cw) (js_name st) a = Inr jid \<Longrightarrow> io (CtlSubmit jid box)"
  shows "abides turn io (\<lambda>r. r \<noteq> Inr WorkflowSucceeded) (plan_and_submit_stage cw wk st a)"
  unfolding plan_and_submit_stage_def
proof (rule abides_and_then [where P = "\<lambda>g. g \<noteq> Some WorkflowSucceeded"])
  show "abides turn io (\<lambda>x. case x of Inl e \<Rightarrow> True | Inr a \<Rightarrow> a \<noteq> Some WorkflowSucceeded) (check_credential_horizon cw wk st)"
    using abides_credential [of turn st io cw wk, OF assms(2)] by (rule abides_weak) (auto split: sum.split)
qed (auto split: option.split intro!: abides_then abides_resolver abides_submit assms)

section \<open>The operations on an active stage\<close>

text \<open>Any event of stage \<open>n\<close> with the attempt of its view is allowed.\<close>

definition view_attempt :: "stage_view \<Rightarrow> rat option" where
  "view_attempt sv = map_option (\<lambda>a. of_int \<lfloor>a\<rfloor>) (sv_attempt sv)"

lemma emit_view:
  assumes "\<And>ev. turn n ev (view_attempt sv)" "map_of fs ''stage'' = None" "map_of fs ''event'' = None" "map_of fs ''attempt'' = None"
  shows "abides turn io (\<lambda>_. True) (emit cw ev ts (view_fields n sv jid @ fs))"
proof (rule emit_stage [where n = n])
  show "map_of (view_fields n sv jid @ fs) ''stage'' = Some (JStr n)" "map_of (view_fields n sv jid @ fs) ''event'' = None"
    using assms(2,3) by (simp_all add: view_fields_def map_add_def)
  have "map_of (view_fields n sv jid @ fs) ''attempt'' = map_option (\<lambda>a. JInt \<lfloor>a\<rfloor>) (sv_attempt sv)"
    using assms(4) by (simp add: view_fields_def map_add_def split: option.split)
  then have "obj_attempt (map_of (view_fields n sv jid @ fs)) = view_attempt sv"
    unfolding obj_attempt_def by (cases "sv_attempt sv") (simp_all only: view_attempt_def option.map option.case jval.case)
  then show "turn n ev (obj_attempt (map_of (view_fields n sv jid @ fs)))" using assms(1) by simp
qed

lemma emit_view0:
  "(\<And>ev. turn n ev (view_attempt sv)) \<Longrightarrow> abides turn io (\<lambda>_. True) (emit cw ev ts (view_fields n sv jid))"
  using emit_view [of turn n sv "[]" io cw ev ts jid] by simp

lemma abides_accept:
  assumes "\<And>ev. turn (js_name st) ev (view_attempt sv)"
  shows "abides turn io (\<lambda>r. r \<noteq> Inr WorkflowSucceeded) (accept_stage_artifacts cw st sv jid)"
proof -
  have "abides turn io (\<lambda>r. r \<noteq> Inr WorkflowSucceeded) (accept_outputs cw (js_name st) sv jid outs)" for outs
  proof (induction outs)
    case Nil
    then show ?case by (auto intro!: abides_seq emit_view0 assms)
  next
    case (Cons o1 outs)
    have p: "abides turn io (\<lambda>_. True) (put_object cw (\<lambda>s. s\<lparr>ct_accepted := (ct_accepted s)(k \<mapsto> v)\<rparr>))" for k v
      by (rule abides_put) simp_all
    have e: "abides turn io (\<lambda>_. True) (emit cw ev ts (view_fields (js_name st) sv jid @ [(''failure_class'', x)]))"
        "abides turn io (\<lambda>_. True) (emit cw ev ts (view_fields (js_name st) sv jid @ [(''artifact'', y), (''manifest_sha256'', z)]))" for ev ts x y z
      by (rule emit_view; (rule assms | simp))+
    show ?case
      by (cases o1) (auto simp: read_accepted_def split: option.split intro!: abides_seq abides_return e p Cons.IH)
  qed
  then show ?thesis by (simp add: accept_stage_artifacts_def)
qed

lemma abides_condemn:
  "io (CtlTeardown (ac_box ac) ''destroy'') \<Longrightarrow> abides turn io (\<lambda>r. r \<noteq> Inr (Some WorkflowSucceeded)) (condemn_box cw ac why)"
  unfolding condemn_box_def by (auto intro!: abides_seq abides_then)

lemma abides_boot_failed:
  assumes "io (CtlTeardown (ac_box ac) ''destroy'')"
  shows "abides turn io (\<lambda>r. r \<noteq> Inr (Some WorkflowSucceeded)) (boot_failed_action cw ac jv)"
  unfolding boot_failed_action_def
proof (rule abides_and_then [where P = "\<lambda>a. a \<noteq> Some WorkflowSucceeded"])
  have "abides turn io (\<lambda>r. r \<noteq> Inr (Some WorkflowSucceeded)) (boot_throughput_action cw ac jv)"
    unfolding boot_throughput_action_def by (auto split: option.split intro!: abides_condemn assms)
  then show "abides turn io (\<lambda>x. case x of Inl e \<Rightarrow> True | Inr a \<Rightarrow> a \<noteq> Some WorkflowSucceeded) (boot_throughput_action cw ac jv)"
    by (rule abides_weak) (auto split: sum.split)
next
  show "abides turn io (\<lambda>r. r \<noteq> Inr (Some WorkflowSucceeded)) (case a of Some x \<Rightarrow> State_Monad.return (Inr (Some x)) | None \<Rightarrow> boot_deadline_action cw ac jv)"
    if "a \<noteq> Some WorkflowSucceeded" for a
    using that unfolding boot_deadline_action_def by (auto split: option.split intro!: abides_condemn assms)
qed simp

text \<open>What recovery may do to the box of a stage: the calls \<open>R\<close> allows it.\<close>

definition may_recover :: "(ctl_io \<Rightarrow> bool) \<Rightarrow> active \<Rightarrow> bool" where
  "may_recover io ac \<longleftrightarrow> (\<forall>x q. io (CtlLaunch x q)) \<and> io (CtlTeardown (ac_box ac) ''destroy'') \<and> io (CtlStart (ac_box ac))
     \<and> io (CtlRotate (ac_box ac)) \<and> (\<forall>b. io (CtlRetarget (ac_job ac) (ac_box ac) b))"

lemma abides_rotate: "io (CtlRotate iid) \<Longrightarrow> abides turn io (\<lambda>_. True) (rotate_credential cw iid)"
  unfolding rotate_credential_def by (auto intro!: abides_seq)

lemma abides_retarget:
  assumes "may_speak turn (js_name (ac_stage ac)) (attempt_of (ac_view ac))" "may_recover io ac"
  shows "abides turn io (\<lambda>r. r \<noteq> Inr (Some WorkflowSucceeded)) (retarget_box cw wk ac why)"
proof -
  let ?n = "js_name (ac_stage ac)" let ?a = "attempt_of (ac_view ac)"
  have e: "abides turn io (\<lambda>_. True) (emit cw ''box_retargeted'' None
      ([(''stage'', JStr ?n), (''attempt'', JInt (int ?a)), (''old_instance_id'', JStr (ac_box ac))]
        @ opt_field ''instance_id'' x @ opt_field ''reason'' y))" for x y
    by (rule emit_attempt [OF assms(1)]) simp_all
  have r: "abides turn io (\<lambda>_. True) (rotate_credential cw (ac_box ac))"
    by (rule abides_rotate) (use assms(2) in \<open>simp add: may_recover_def\<close>)
  have b: "abides turn io (\<lambda>_. True) (box_resolver cw wk (ac_stage ac) ?a)"
    by (rule abides_resolver [OF assms(1)]) (use assms(2) in \<open>simp add: may_recover_def\<close>)
  have t: "io (CtlRetarget (ac_job ac) (ac_box ac) b)" for b using assms(2) by (simp add: may_recover_def)
  show ?thesis
    unfolding retarget_box_def
    by (intro abides_then [OF r] abides_then [OF b]) (auto split: option.split intro!: abides_then abides_seq e [simplified] t)
qed

lemma abides_read_job [intro!]: "abides turn io (\<lambda>_. True) (read_job cw jid)"
  unfolding read_job_def by (auto intro!: abides_seq)

lemma abides_dead:
  assumes "may_speak turn (js_name (ac_stage ac)) (attempt_of (ac_view ac))" "may_recover io ac"
  shows "abides turn io (\<lambda>r. r \<noteq> Inr (Some WorkflowSucceeded)) (heartbeat_dead_action cw wk ac jv)"
proof -
  have t: "io (CtlTeardown (ac_box ac) ''destroy'')" using assms(2) by (simp add: may_recover_def)
  show ?thesis unfolding heartbeat_dead_action_def by (auto intro!: abides_then abides_seq abides_retarget assms t)
qed

lemma abides_or_else:
  assumes "abides turn io (\<lambda>r. r \<noteq> Inr (Some WorkflowSucceeded)) m" "abides turn io (\<lambda>r. r \<noteq> Inr (Some WorkflowSucceeded)) k"
  shows "abides turn io (\<lambda>r. r \<noteq> Inr (Some WorkflowSucceeded)) (or_else m k)"
  unfolding or_else_def
proof (rule abides_and_then [where P = "\<lambda>a. a \<noteq> Some WorkflowSucceeded"])
  show "abides turn io (\<lambda>x. case x of Inl e \<Rightarrow> True | Inr a \<Rightarrow> a \<noteq> Some WorkflowSucceeded) m"
    using assms(1) by (rule abides_weak) (auto split: sum.split)
qed (use assms(2) in \<open>auto split: option.split\<close>)

lemma abides_active_box:
  assumes "may_speak turn (js_name (ac_stage ac)) (attempt_of (ac_view ac))" "may_recover io ac"
  shows "abides turn io (\<lambda>r. r \<noteq> Inr (Some WorkflowSucceeded)) (reconcile_active_box cw wk observe ac)"
proof -
  have t: "io (CtlTeardown (ac_box ac) ''destroy'')" "io (CtlStart (ac_box ac))" "io (CtlRotate (ac_box ac))"
    using assms(2) by (simp_all add: may_recover_def)
  have r: "abides turn io (\<lambda>r. r \<noteq> Inr (Some WorkflowSucceeded)) (resume_box cw ac)"
    unfolding resume_box_def by (auto intro!: abides_then abides_seq abides_rotate t)
  have g: "abides turn io (\<lambda>r. r \<noteq> Inr (Some WorkflowSucceeded)) (stale_image_resume_action cw wk ac)"
    unfolding stale_image_resume_action_def by (auto split: option.split intro!: abides_retarget assms)
  show ?thesis
    unfolding reconcile_active_box_def
    by (rule abides_then)
       (auto split: box_state.split intro!: abides_or_else abides_boot_failed abides_dead abides_retarget assms t r g)
qed

section \<open>Teardown and completion\<close>

lemma abides_owned: "abides turn io (\<lambda>l. set l \<subseteq> set (owned_instance_ids cw raws)) (owned_boxes_remaining cw raws)"
  unfolding owned_boxes_remaining_def Let_def
  by (auto intro!: abides_seq)

lemma abides_teardown:
  assumes "\<And>i. i \<in> set ids \<Longrightarrow> io (CtlTeardown i mode)"
  shows "abides turn io (\<lambda>(rel, failed). set rel = {i \<in> set ids. td i mode}) (teardown_boxes cw td mode ids)"
  using assms
proof (induction ids)
  case (Cons i ids)
  have e: "abides turn io (\<lambda>_. True) (if td i mode then emit cw ''box_released'' (Some (cw_time cw)) [(''instance_id'', JStr i), (''mode'', JStr mode)]
      else State_Monad.return False)" by (auto intro: emit_free)
  show ?case
    unfolding teardown_boxes.simps
    by (intro abides_seq [OF abides_log] abides_seq [OF e] abides_bind [OF Cons.IH]) (use Cons.prems in \<open>auto intro!: abides_return split: if_splits\<close>)
qed auto

lemma abides_attempt:
  assumes "\<And>i. i \<in> set remaining \<Longrightarrow> io (CtlTeardown i (wf_teardown wk))"
  shows "abides turn io (\<lambda>(left, _). set left = {i \<in> set remaining. \<not> td i (wf_teardown wk)}) (attempt_teardown cw wk td remaining)"
  unfolding attempt_teardown_def
proof (rule abides_bind [OF abides_teardown [where ids = remaining and mode = "wf_teardown wk" and td = td]])
  show "io (CtlTeardown i (wf_teardown wk))" if "i \<in> set remaining" for i using assms that .
next
  fix x assume x: "case x of (rel, failed) \<Rightarrow> set rel = {i \<in> set remaining. td i (wf_teardown wk)}"
  obtain rel failed where p: "x = (rel, failed)" by force
  have n: "abides turn io (\<lambda>_. True) (teardown_attempts_seen cw)"
    unfolding teardown_attempts_seen_def by (intro abides_seq [OF abides_read_events] abides_return) simp
  have f: "set (filter (\<lambda>i. i \<notin> set rel) remaining) = {i \<in> set remaining. \<not> td i (wf_teardown wk)}"
    using x p by auto
  show "abides turn io (\<lambda>(left, _). set left = {i \<in> set remaining. \<not> td i (wf_teardown wk)})
     (case x of (rel, failed) \<Rightarrow> do { _ \<leftarrow> emit cw ''teardown_attempt'' (Some (cw_time cw))
             [(''attempted'', JOther), (''released'', JOther), (''failed'', JOther)];
           n \<leftarrow> teardown_attempts_seen cw; State_Monad.return (filter (\<lambda>i. i \<notin> set rel) remaining, rel, failed, n) })"
    unfolding p prod.case by (intro abides_seq [OF emit_free] abides_seq [OF n] abides_return) (simp_all only: prod.case f, simp)
qed

lemma abides_finish: "abides turn io (\<lambda>_. True) (finish_workflow cw ok)" "abides turn io (\<lambda>_. True) (teardown_failed cw)"
  unfolding finish_workflow_def teardown_failed_def by (auto intro!: abides_seq emit_free)

lemma abides_verdict: "abides turn io (\<lambda>_. True) (write_verdict cw ok)"
proof -
  have p: "abides turn io (\<lambda>_. True) (put_object cw (\<lambda>s. s\<lparr>ct_verdict := v\<rparr>))"
    "abides turn io (\<lambda>_. True) (put_object cw (\<lambda>s. s\<lparr>ct_provenance := True\<rparr>))"
    "abides turn io (\<lambda>_. True) (put_object cw (\<lambda>s. s\<lparr>ct_report := True\<rparr>))" for v
    by (rule abides_put; simp)+
  show ?thesis unfolding write_verdict_def by (auto intro!: abides_seq emit_free p)
qed

lemma abides_completion:
  assumes "\<And>i. i \<in> set (owned_instance_ids cw raws) \<Longrightarrow> io (CtlTeardown i (wf_teardown wk))"
  shows "abides turn io (\<lambda>_. True) (reconcile_completion cw wk raws ok)"
proof -
  have a: "abides turn io (\<lambda>_. True) (attempt_teardown cw wk td rem)" if "set rem \<subseteq> set (owned_instance_ids cw raws)" for td rem
    by (rule abides_weak, rule abides_attempt) (use assms that in auto)
  have "abides turn io (\<lambda>_. True) (do { remaining \<leftarrow> owned_boxes_remaining cw raws;
            if remaining = [] then finish_workflow cw ok
            else (case cw_teardown cw of
                None \<Rightarrow> State_Monad.return (Inr (NeedTeardown remaining))
              | Some td \<Rightarrow> do {
                  (left, rel, failed, n) \<leftarrow> attempt_teardown cw wk td remaining;
                  if left = [] then finish_workflow cw ok
                  else if TEARDOWN_MAX_ATTEMPTS \<le> n then teardown_failed cw
                  else State_Monad.return (Inr (TeardownRetrying left)) }) })"
    by (rule abides_bind [OF abides_owned]) (auto split: option.split prod.split intro!: abides_seq [OF a] abides_finish)
  then show ?thesis
    unfolding reconcile_completion_def by (auto intro!: abides_seq [OF abides_get] abides_verdict)
qed

lemma abides_terminal:
  assumes "\<And>i. i \<in> set (owned_instance_ids cw raws) \<Longrightarrow> io (CtlTeardown i (wf_teardown wk))"
  shows "abides turn io (\<lambda>r. r \<noteq> Inr WorkflowSucceeded) (terminal_tick cw wk raws)"
proof -
  have a: "abides turn io (\<lambda>_. True) (attempt_teardown cw wk td rem)" if "set rem \<subseteq> set (owned_instance_ids cw raws)" for td rem
    by (rule abides_weak, rule abides_attempt) (use assms that in auto)
  have r: "abides turn io (\<lambda>_. True) (teardown_failed_recorded cw)"
    unfolding teardown_failed_recorded_def by (intro abides_seq [OF abides_read_events] abides_return) simp
  have f: "abides turn io (\<lambda>r. r \<noteq> Inr WorkflowSucceeded) (teardown_failed cw)"
    unfolding teardown_failed_def by (auto intro!: abides_seq emit_free)
  have c: "abides turn io (\<lambda>_. True) (if b then teardown_failed_recorded cw else State_Monad.return True)" for b
    using r by auto
  show ?thesis
    unfolding terminal_tick_def
    by (rule abides_bind [OF abides_owned])
       (auto split: option.split prod.split intro!: abides_seq [OF a] abides_seq [OF c] abides_seq [OF r] f)
qed

section \<open>The tick\<close>

definition may_retry :: "job_stage \<Rightarrow> stage_view \<Rightarrow> bool" where
  "may_retry st sv \<longleftrightarrow> int (if sv_attempts_seen sv = 0 then attempt_of sv + 1 else sv_attempts_seen sv) < rt_max_attempts (js_retry st)"

text \<open>Whose turn it is: a ready stage speaks for its first attempt, the active one for its current attempt, or for
  the next one while attempts are left.\<close>

definition stage_turn :: "workflow \<Rightarrow> wf_view \<Rightarrow> string \<Rightarrow> string \<Rightarrow> rat option \<Rightarrow> bool" where
  "stage_turn wk v n ev a \<longleftrightarrow>
     (n \<in> set (ready_stages wk v) \<and> a = (if ev = ''workflow_failed'' then a else Some 0) \<and> (a = None \<or> a = Some 0))
     \<or> (active_stage wk v = Some n \<and> (\<exists>st sv. stage_named wk n = Some st \<and> wv_stages v n = Some sv \<and>
          ((ev = ''workflow_failed'' \<and> a = None) \<or> a = view_attempt sv \<or> a = Some (of_nat (attempt_of sv))
           \<or> (a = Some (of_nat (attempt_of sv + 1)) \<and> may_retry st sv))))"

definition active_box :: "ctl_world \<Rightarrow> workflow \<Rightarrow> wf_view \<Rightarrow> string \<Rightarrow> bool" where
  "active_box cw wk v i \<longleftrightarrow> (\<exists>n sv. active_stage wk v = Some n \<and> wv_stages v n = Some sv \<and> in_flight sv
     \<and> truthy_text cw (sv_instance_id sv) = Some i)"

text \<open>When a job may be submitted, and what else a tick may do.\<close>

definition submission_due :: "ctl_world \<Rightarrow> workflow \<Rightarrow> raw_object list \<Rightarrow> job_stage \<Rightarrow> nat \<Rightarrow> bool" where
  "submission_due cw wk raws st a \<longleftrightarrow> (let v = fold_workflow_events raws in
     stage_named wk (js_name st) = Some st \<and>
     ((next_ready_stage wk v = Some (js_name st) \<and> a = 0
        \<and> \<not> budget_exhausted wk (spend_of raws) (map_of (wf_profiles wk) (js_profile st)))
      \<or> (active_stage wk v = Some (js_name st) \<and> (\<exists>sv. wv_stages v (js_name st) = Some sv \<and> in_flight sv
            \<and> ((a = attempt_of sv \<and> truthy_text cw (sv_job_id sv) = None) \<or> (a = attempt_of sv + 1 \<and> may_retry st sv))))))"

definition io_due :: "ctl_world \<Rightarrow> workflow \<Rightarrow> raw_object list \<Rightarrow> ctl_io \<Rightarrow> bool" where
  "io_due cw wk raws x = (let v = fold_workflow_events raws in
     case x of
       CtlSubmit jid box \<Rightarrow> \<not> wv_terminal v \<and> (\<exists>st a. submission_due cw wk raws st a
         \<and> stage_job_id (cw_sha256 cw) (cw_wf_id cw) (js_name st) a = Inr jid)
     | CtlLaunch _ _ \<Rightarrow> \<not> wv_terminal v
     | CtlTeardown i m \<Rightarrow> (i \<in> set (owned_instance_ids cw raws) \<and> m = wf_teardown wk \<and> (wv_terminal v \<or> next_ready_stage wk v = None))
         \<or> (\<not> wv_terminal v \<and> m = ''destroy'' \<and> active_box cw wk v i)
     | CtlStart i \<Rightarrow> \<not> wv_terminal v \<and> active_box cw wk v i
     | CtlRotate i \<Rightarrow> \<not> wv_terminal v \<and> active_box cw wk v i
     | CtlRetarget _ i _ \<Rightarrow> \<not> wv_terminal v \<and> active_box cw wk v i)"

lemma stage_named_name: "stage_named wk n = Some st \<Longrightarrow> js_name st = n"
  by (auto simp: stage_named_def find_Some_iff)

lemma active_stage_Some:
  assumes "active_stage wk v = Some n"
  shows "\<exists>sv x. wv_stages v n = Some sv \<and> sv_status sv = Some x \<and> x \<noteq> ''stage_succeeded''" "stage_named wk n \<noteq> None"
proof -
  obtain s where s: "find (\<lambda>s. stage_status_of v (js_name s) \<notin> {None, Some ''stage_succeeded''}) (wf_stages wk) = Some s" "js_name s = n"
    using assms by (auto simp: active_stage_def)
  then have m: "s \<in> set (wf_stages wk)" "stage_status_of v n \<notin> {None, Some ''stage_succeeded''}"
    by (auto simp: find_Some_iff)
  then show "\<exists>sv x. wv_stages v n = Some sv \<and> sv_status sv = Some x \<and> x \<noteq> ''stage_succeeded''"
    by (auto simp: stage_status_of_def bind_eq_Some_conv split: option.splits)
  show "stage_named wk n \<noteq> None" using m(1) s(2) by (auto simp: stage_named_def find_None_iff)
qed

lemma foldl_best_ge:
  "best \<le> foldl (\<lambda>best e. if we_event e = ''box_cost''
        then (case num (we_fields e ''cost_usd'') of Some v \<Rightarrow> if best < v then v else best | None \<Rightarrow> best) else best) best es"
proof (induction es arbitrary: best)
  case (Cons e es)
  show ?case
    unfolding foldl.simps by (rule order_trans [OF _ Cons.IH]) (auto split: option.split)
qed simp

lemma spend_grows: "spend_of raws \<le> spend_of (raws @ l)"
  by (simp add: spend_of_def log_events_def List.map_filter_def foldl_best_ge)

lemma budget_mono: "budget_exhausted wk x p \<Longrightarrow> x \<le> y \<Longrightarrow> budget_exhausted wk y p"
  by (auto simp: budget_exhausted_def split: option.splits)

lemma abides_retry:
  assumes "stage_named wk (js_name st) = Some st" "wv_stages v (js_name st) = Some sv" "active_stage wk v = Some (js_name st)" "in_flight sv"
    "v = fold_workflow_events raws" "\<not> wv_terminal v"
  shows "abides (stage_turn wk v) (io_due cw wk raws) (\<lambda>r. r \<noteq> Inr WorkflowSucceeded) (retry_or_fail cw wk st sv jid jv)"
proof (cases "decide_retry st (int (if sv_attempts_seen sv = 0 then attempt_of sv + 1 else sv_attempts_seen sv)) (classify_job_failure jv)")
  case True
  then have m: "may_retry st sv" by (simp add: may_retry_def decide_retry_def)
  have "abides (stage_turn wk v) (io_due cw wk raws) (\<lambda>r. r \<noteq> Inr WorkflowSucceeded) (plan_and_submit_stage cw wk st (attempt_of sv + 1))"
  proof (rule abides_plan)
    show "may_speak (stage_turn wk v) (js_name st) (attempt_of sv + 1)" "stage_turn wk v (js_name st) ''workflow_failed'' None"
      using assms m by (auto simp: may_speak_def stage_turn_def)
    show "io_due cw wk raws (CtlLaunch x q)" for x q using assms by (simp add: io_due_def)
    show "io_due cw wk raws (CtlSubmit j box)" if "stage_job_id (cw_sha256 cw) (cw_wf_id cw) (js_name st) (attempt_of sv + 1) = Inr j" for j box
      using assms m that by (auto simp: io_due_def submission_due_def intro!: exI [of _ st] exI [of _ "attempt_of sv + 1"])
  qed
  then show ?thesis using True by (simp add: retry_or_fail_def Let_def)
next
  case False
  have t: "stage_turn wk v (js_name st) ev (view_attempt sv)" for ev
    using assms by (auto simp: stage_turn_def)
  have e: "abides (stage_turn wk v) (io_due cw wk raws) (\<lambda>_. True) (emit cw ev ts (view_fields (js_name st) sv jid
      @ ((''failure_class'', x) # opt_field ''fail_reason'' y)))" for ev ts x y
    by (rule emit_view; (rule t | simp))
  show ?thesis using False unfolding retry_or_fail_def Let_def by (auto intro!: abides_seq e)
qed

lemma active_recovers:
  assumes "wv_stages v (js_name st) = Some sv" "active_stage wk v = Some (js_name st)" "in_flight sv"
    "v = fold_workflow_events raws" "\<not> wv_terminal v" "truthy_text cw (sv_instance_id sv) = Some box"
  shows "may_recover (io_due cw wk raws) \<lparr>ac_stage = st, ac_view = sv, ac_job = jid, ac_box = box\<rparr>"
  using assms by (auto simp: may_recover_def io_due_def active_box_def)

lemma abides_running:
  assumes "stage_named wk (js_name st) = Some st" "wv_stages v (js_name st) = Some sv" "active_stage wk v = Some (js_name st)" "in_flight sv"
    "v = fold_workflow_events raws" "\<not> wv_terminal v"
  shows "abides (stage_turn wk v) (io_due cw wk raws) (\<lambda>r. r \<noteq> Inr WorkflowSucceeded) (running_tick cw wk spent st sv jid jv)"
proof -
  let ?T = "stage_turn wk v" and ?I = "io_due cw wk raws"
  have t: "?T (js_name st) ev (view_attempt sv)" for ev using assms by (auto simp: stage_turn_def)
  have m: "may_speak ?T (js_name st) (attempt_of sv)" using assms by (auto simp: stage_turn_def may_speak_def)
  have b: "abides ?T ?I (\<lambda>x. case x of Inl e \<Rightarrow> True | Inr a \<Rightarrow> a \<noteq> Some WorkflowSucceeded)
      (case (cw_observe cw, truthy_text cw (sv_instance_id sv)) of
         (Some observe, Some box) \<Rightarrow> reconcile_active_box cw wk observe \<lparr>ac_stage = st, ac_view = sv, ac_job = jid, ac_box = box\<rparr>
       | _ \<Rightarrow> State_Monad.return (Inr None))"
    (is "abides _ _ _ ?m")
  proof (cases "cw_observe cw = None \<or> truthy_text cw (sv_instance_id sv) = None")
    case True
    then show ?thesis by (auto split: option.split)
  next
    case False
    then obtain ob box where o: "cw_observe cw = Some ob" "truthy_text cw (sv_instance_id sv) = Some box" by auto
    have "abides ?T ?I (\<lambda>r. r \<noteq> Inr (Some WorkflowSucceeded))
        (reconcile_active_box cw wk ob \<lparr>ac_stage = st, ac_view = sv, ac_job = jid, ac_box = box\<rparr>)"
      by (rule abides_active_box) (use m active_recovers [OF assms(2-6) o(2)] in simp_all)
    then have "abides ?T ?I (\<lambda>r. r \<noteq> Inr (Some WorkflowSucceeded)) ?m" using o by simp
    then show ?thesis by (rule abides_weak) (auto split: sum.split)
  qed
  have e: "abides ?T ?I (\<lambda>_. True) (emit cw ev ts (view_fields (js_name st) sv jid))" for ev ts
    by (rule emit_view0) (rule t)
  show ?thesis
    unfolding running_tick_def Let_def
  proof (cases "budget_exhausted wk spent (map_of (wf_profiles wk) (js_profile st))", goal_cases)
    case 1
    then show ?case by (auto intro!: abides_then)
  next
    case 2
    then show ?case by (simp only: if_False) (rule abides_and_then [OF b], auto split: option.split intro!: abides_seq e)
  qed
qed

lemma abides_active:
  assumes "stage_named wk (js_name st) = Some st" "wv_stages v (js_name st) = Some sv" "active_stage wk v = Some (js_name st)" "in_flight sv"
    "v = fold_workflow_events raws" "\<not> wv_terminal v"
  shows "abides (stage_turn wk v) (io_due cw wk raws) (\<lambda>r. r \<noteq> Inr WorkflowSucceeded) (active_tick cw wk spent st sv)"
proof (cases "truthy_text cw (sv_job_id sv)")
  case None
  have "abides (stage_turn wk v) (io_due cw wk raws) (\<lambda>r. r \<noteq> Inr WorkflowSucceeded) (plan_and_submit_stage cw wk st (attempt_of sv))"
  proof (rule abides_plan)
    show "may_speak (stage_turn wk v) (js_name st) (attempt_of sv)" "stage_turn wk v (js_name st) ''workflow_failed'' None"
      using assms by (auto simp: may_speak_def stage_turn_def)
    show "io_due cw wk raws (CtlLaunch x q)" for x q using assms by (simp add: io_due_def)
    show "io_due cw wk raws (CtlSubmit j box)" if "stage_job_id (cw_sha256 cw) (cw_wf_id cw) (js_name st) (attempt_of sv) = Inr j" for j box
      using assms None that by (auto simp: io_due_def submission_due_def intro!: exI [of _ st] exI [of _ "attempt_of sv"])
  qed
  then show ?thesis using None by (simp add: active_tick_def)
next
  case (Some jid)
  have t: "stage_turn wk v (js_name st) ev (view_attempt sv)" for ev using assms by (auto simp: stage_turn_def)
  show ?thesis
    unfolding active_tick_def Some option.case
    by (rule abides_then) (auto intro!: abides_running abides_retry abides_accept assms t)
qed

lemma next_ready_in: "next_ready_stage wk v = Some n \<Longrightarrow> n \<in> set (ready_stages wk v)"
  by (auto simp: next_ready_stage_def split: list.splits)

lemma ready_named: "n \<in> set (ready_stages wk v) \<Longrightarrow> stage_named wk n \<noteq> None"
  by (auto simp: ready_stages_def stage_named_def find_None_iff)

lemma abides_next:
  assumes "v = fold_workflow_events raws" "\<not> wv_terminal v" "spend_of raws \<le> spent"
  shows "abides (stage_turn wk v) (io_due cw wk raws) (\<lambda>_. True) (next_tick cw wk spent raws)"
proof (cases "next_ready_stage wk v")
  case None
  have "abides (stage_turn wk v) (io_due cw wk raws) (\<lambda>_. True) (reconcile_completion cw wk raws ok)" for ok
    by (rule abides_completion) (use assms None in \<open>simp add: io_due_def\<close>)
  then show ?thesis using None assms(1) by (simp add: next_tick_def)
next
  case (Some n)
  then obtain st where st: "stage_named wk n = Some st" using ready_named [OF next_ready_in [OF Some]] by auto
  have n: "js_name st = n" using stage_named_name [OF st] .
  show ?thesis
  proof (cases "budget_exhausted wk spent (map_of (wf_profiles wk) (js_profile st))")
    case True
    then show ?thesis using Some st assms(1) by (auto simp: next_tick_def intro!: abides_seq emit_free)
  next
    case False
    then have b: "\<not> budget_exhausted wk (spend_of raws) (map_of (wf_profiles wk) (js_profile st))"
      using budget_mono assms(3) by blast
    have r: "n \<in> set (ready_stages wk v)" using next_ready_in [OF Some] .
    have "abides (stage_turn wk v) (io_due cw wk raws) (\<lambda>r. r \<noteq> Inr WorkflowSucceeded) (plan_and_submit_stage cw wk st 0)"
    proof (rule abides_plan)
      show "may_speak (stage_turn wk v) (js_name st) 0" "stage_turn wk v (js_name st) ''workflow_failed'' None"
        using r n by (auto simp: may_speak_def stage_turn_def)
      show "io_due cw wk raws (CtlLaunch x q)" for x q using assms by (simp add: io_due_def)
      show "io_due cw wk raws (CtlSubmit j box)" if "stage_job_id (cw_sha256 cw) (cw_wf_id cw) (js_name st) 0 = Inr j" for j box
        using assms Some st n b that by (auto simp: io_due_def submission_due_def intro!: exI [of _ st] exI [of _ 0])
    qed
    then have "abides (stage_turn wk v) (io_due cw wk raws) (\<lambda>_. True) (plan_and_submit_stage cw wk st 0)"
      by (rule abides_weak) simp
    then show ?thesis using Some st assms(1) False by (simp add: next_tick_def)
  qed
qed

lemma abides_cancel: "abides turn io (\<lambda>r. r \<noteq> Inr (Some WorkflowSucceeded)) (cancel_tick cw act)"
proof -
  have q: "abides turn io (\<lambda>r. r \<noteq> Inr (Some WorkflowSucceeded)) (and_then (queued (write_cancel_marker (cw_jobs cw) jid))
       (\<lambda>ok. State_Monad.return (Inr (Some (CancelPropagated n ok)))))" for jid n
    by (auto intro!: abides_then)
  show ?thesis
    unfolding cancel_tick_def
    by (auto split: option.split intro!: abides_seq [OF abides_bucket] abides_seq [OF emit_free] q)
qed

text \<open>The tick after its readings: the view, and the money spent.\<close>

definition decided_tick :: "ctl_world \<Rightarrow> workflow \<Rightarrow> raw_object list \<Rightarrow> rat \<Rightarrow> (ctl_error + ctl_action) ctl" where
  "decided_tick cw wk raws spent =
     (let v = fold_workflow_events raws;
          act = Option.bind (active_stage wk v) (\<lambda>n. map_option (\<lambda>sv. (n, sv)) (wv_stages v n))
      in if wv_terminal v then terminal_tick cw wk raws
         else and_then (cancel_tick cw act) (\<lambda>c.
                  case c of
                    Some a \<Rightarrow> State_Monad.return (Inr a)
                  | None \<Rightarrow>
                     (case Option.bind act (\<lambda>(n, sv). map_option (\<lambda>st. (st, sv)) (stage_named wk n)) of
                        Some (st, sv) \<Rightarrow> if in_flight sv then active_tick cw wk spent st sv else next_tick cw wk spent raws
                      | None \<Rightarrow> next_tick cw wk spent raws)))"

lemma reconcile_tick_decided:
  "reconcile_tick cw wk = do { raws \<leftarrow> read_events cw; _ \<leftarrow> accrue_and_persist_cost cw raws; spent \<leftarrow> folded_spend cw;
     decided_tick cw wk raws spent }"
  unfolding reconcile_tick_def decided_tick_def Let_def by (rule refl)

lemma abides_decided:
  assumes "spend_of raws \<le> spent"
  shows "abides (stage_turn wk (fold_workflow_events raws)) (io_due cw wk raws) (\<lambda>_. True) (decided_tick cw wk raws spent)"
proof -
  let ?v = "fold_workflow_events raws"
  let ?T = "stage_turn wk ?v" and ?I = "io_due cw wk raws"
  let ?act = "Option.bind (active_stage wk ?v) (\<lambda>n. map_option (\<lambda>sv. (n, sv)) (wv_stages ?v n))"
  have t: "abides ?T ?I (\<lambda>_. True) (terminal_tick cw wk raws)" if "wv_terminal ?v"
    by (rule abides_weak, rule abides_terminal) (use that in \<open>simp_all add: io_due_def\<close>)
  have n: "abides ?T ?I (\<lambda>_. True) (next_tick cw wk spent raws)" if "\<not> wv_terminal ?v"
    using abides_next [OF refl that assms] .
  have a: "abides ?T ?I (\<lambda>_. True) (active_tick cw wk spent st sv)"
    if "?act = Some (n, sv)" "stage_named wk n = Some st" "in_flight sv" "\<not> wv_terminal ?v" for n st sv
  proof (rule abides_weak, rule abides_active)
    have "active_stage wk ?v = Some n" "wv_stages ?v n = Some sv" using that(1) by (auto simp: bind_eq_Some_conv)
    then show "wv_stages ?v (js_name st) = Some sv" "active_stage wk ?v = Some (js_name st)" "stage_named wk (js_name st) = Some st"
      using stage_named_name [OF that(2)] that(2) by simp_all
  qed (use that in simp_all)
  show ?thesis
  proof (cases "wv_terminal ?v")
    case True
    then show ?thesis using t by (simp add: decided_tick_def Let_def)
  next
    case False
    have k: "abides ?T ?I (\<lambda>_. True) (case c of Some a \<Rightarrow> State_Monad.return (Inr a)
          | None \<Rightarrow> (case Option.bind ?act (\<lambda>(n, sv). map_option (\<lambda>st. (st, sv)) (stage_named wk n)) of
                Some (st, sv) \<Rightarrow> if in_flight sv then active_tick cw wk spent st sv else next_tick cw wk spent raws
              | None \<Rightarrow> next_tick cw wk spent raws))" for c
      using n [OF False] a [OF _ _ _ False] by (cases c; cases ?act) (auto split: option.split)
    have c: "abides ?T ?I (\<lambda>_. True) (cancel_tick cw act)" for act
      by (rule abides_weak, rule abides_cancel) simp
    show ?thesis
      unfolding decided_tick_def Let_def if_not_P [OF False] by (rule abides_then [OF c k]) simp
  qed
qed

section \<open>With the log readable\<close>

definition log_readable :: "ctl_world \<Rightarrow> bool" where
  "log_readable cw \<longleftrightarrow> (\<forall>n. cw_list cw n) \<and> (\<forall>n i. cw_cat cw n i)"

lemma read_events_all:
  "log_readable cw \<Longrightarrow> run_state (read_events cw) s = (ct_log s, ctl_tick s)"
  by (simp add: read_events_def log_readable_def Let_def)

lemma ctl_tick_simps [simp]:
  "ct_log (ctl_tick s) = ct_log s" "ct_io (ctl_tick s) = ct_io s" "ct_verdict (ctl_tick s) = ct_verdict s"
  by (simp_all add: ctl_tick_def)

lemma abides_accrue: "abides turn io (\<lambda>_. True) (accrue_and_persist_cost cw raws)"
proof -
  have "abides turn io (\<lambda>_. True) (folded_spend cw)" "abides turn io (\<lambda>_. True) (record_box_cost cw c)" for c
    unfolding folded_spend_def record_box_cost_def by (auto intro!: abides_seq emit_free)
  then show ?thesis unfolding accrue_and_persist_cost_def by (auto split: option.split list.split intro!: abides_seq)
qed

lemma tick_extends:
  assumes "run_state (reconcile_tick cw wk) s = (r, s')" "log_readable cw"
  shows "extends (stage_turn wk (fold_workflow_events (ct_log s))) (io_due cw wk (ct_log s)) s s'"
proof -
  let ?T = "stage_turn wk (fold_workflow_events (ct_log s))" and ?I = "io_due cw wk (ct_log s)"
  obtain s2 where 2: "run_state (accrue_and_persist_cost cw (ct_log s)) (ctl_tick s) = ((), s2)" by (metis old.unit.exhaust surj_pair)
  then have e2: "extends ?T ?I s s2"
    using abidesD [OF abides_accrue 2] extends_trans [OF extends_same] by (metis ctl_tick_simps(1,2))
  then obtain l where l: "ct_log s2 = ct_log s @ l" by (auto simp: extends_def)
  have 3: "run_state (folded_spend cw) s2 = (spend_of (ct_log s2), ctl_tick s2)"
    by (simp add: folded_spend_def read_events_all [OF assms(2)])
  then have "run_state (decided_tick cw wk (ct_log s) (spend_of (ct_log s2))) (ctl_tick s2) = (r, s')"
    using assms(1) 2 by (simp add: reconcile_tick_decided read_events_all [OF assms(2)])
  then have "extends ?T ?I (ctl_tick s2) s'"
    using abidesD [OF abides_decided] spend_grows [of "ct_log s" l] l by metis
  then show ?thesis using e2 extends_trans extends_same by (metis ctl_tick_simps(1,2))
qed

end
