(* ===== verification/WorkflowSafety.thy ===== *)
theory WorkflowSafety
  imports WorkflowRun
begin

text \<open>
  What holds of the workflow controller over any run: its log keeps the order of the dependencies and the
  bound on attempts, jobs are submitted only when due, boxes are touched only for a reason, and success
  means that the work is done and every box released.
\<close>

section \<open>The log of a stage\<close>

definition stage_log :: "string \<Rightarrow> raw_object list \<Rightarrow> wf_event list" where
  "stage_log n raws = filter (\<lambda>e. we_stage e = Some n) (log_events raws)"

lemma log_events_append [simp]: "log_events (xs @ ys) = log_events xs @ log_events ys"
  by (simp add: log_events_def List.map_filter_def)

lemma stage_log_append [simp]: "stage_log n (xs @ ys) = stage_log n xs @ stage_log n ys"
  by (simp add: stage_log_def)

lemma sort_key_Nil_iff: "sort_key f xs = [] \<longleftrightarrow> xs = []"
  by (metis set_sort set_empty)

lemma stages_ordered [simp]:
  "wv_stages (fold_wf_ordered errs evs) n = (if stage_events n evs = [] then None else Some (fold_stage (stage_events n evs)))"
  by (simp add: fold_wf_ordered_def Let_def)

lemma stages_fold:
  "wv_stages (fold_workflow_events raws) n =
     (if stage_log n raws = [] then None else Some (fold_stage (sort_key wf_key (stage_log n raws))))"
  by (simp add: fold_workflow_events_def stage_events_def filter_sort stage_log_def log_events_def sort_key_Nil_iff)

abbreviation succeeded :: "raw_object list \<Rightarrow> string \<Rightarrow> bool" where
  "succeeded raws n \<equiv> stage_status_of (fold_workflow_events raws) n = Some ''stage_succeeded''"

lemma succeeded_cong: "stage_log n raws = stage_log n raws' \<Longrightarrow> succeeded raws n \<longleftrightarrow> succeeded raws' n"
  by (simp add: stage_status_of_def stages_fold)

definition attempts_of :: "string \<Rightarrow> raw_object list \<Rightarrow> rat set" where
  "attempts_of n raws = set (List.map_filter we_attempt (stage_log n raws))"

lemma attempts_iff: "a \<in> attempts_of n raws \<longleftrightarrow> (\<exists>e\<in>set (stage_log n raws). we_attempt e = Some a)"
  by (force simp: attempts_of_def List.map_filter_def)

lemma attempts_append [simp]: "attempts_of n (xs @ ys) = attempts_of n xs \<union> attempts_of n ys"
  by (simp add: attempts_of_def List.map_filter_def)

lemma obeys_event:
  assumes "list_all (obeys turn) l" "e \<in> set (stage_log n l)"
  shows "turn n (we_event e) (we_attempt e)"
proof -
  obtain x where x: "x \<in> set l" "wf_coerce x = Some e" "we_stage e = Some n"
    using assms(2) by (auto simp: stage_log_def log_events_def List.map_filter_def)
  then obtain f where f: "x = Obj f" "we_fields e = f" "we_event e = dflt [] (str_field f ''event'')"
    by (auto simp: wf_coerce_def split: raw_object.splits option.splits if_splits)
  have "obj_stage f = Some n" "obj_attempt f = we_attempt e"
    using x(3) f(2) by (simp_all add: obj_stage_def we_stage_def obj_attempt_def we_attempt_def)
  then show ?thesis using assms(1) x(1) f by (auto simp: list_all_iff obeys_def)
qed

section \<open>The invariant of the log\<close>

definition stage_ok :: "workflow \<Rightarrow> raw_object list \<Rightarrow> string \<Rightarrow> bool" where
  "stage_ok wk raws n \<longleftrightarrow>
     (\<exists>st\<in>set (wf_stages wk). js_name st = n \<and> (\<forall>d\<in>set (js_after st). succeeded raws d))
     \<and> (\<forall>e\<in>set (stage_log n raws). we_attempt e = None \<longrightarrow> we_event e = ''workflow_failed'')
     \<and> (\<exists>k. attempts_of n raws = of_nat ` {..<k}
          \<and> (k \<le> 1 \<or> (\<exists>st. stage_named wk n = Some st \<and> int k \<le> rt_max_attempts (js_retry st))))"

definition log_ok :: "workflow \<Rightarrow> raw_object list \<Rightarrow> bool" where
  "log_ok wk raws \<longleftrightarrow> (\<forall>n. stage_log n raws \<noteq> [] \<longrightarrow> stage_ok wk raws n)"

lemma active_attempts:
  assumes "stage_ok wk raws n" "wv_stages (fold_workflow_events raws) n = Some sv" "sv_status sv = Some x"
  shows "\<exists>k. attempts_of n raws = of_nat ` {..<k} \<and> 0 < k \<and> sv_attempt sv = Some (of_nat (k - 1)) \<and> sv_attempts_seen sv = k
     \<and> (k \<le> 1 \<or> (\<exists>st. stage_named wk n = Some st \<and> int k \<le> rt_max_attempts (js_retry st)))"
proof -
  let ?es = "sort_key wf_key (stage_log n raws)"
  have sv: "sv = fold_stage ?es" "?es \<noteq> []" using assms(2) by (auto simp: stages_fold sort_key_Nil_iff split: if_splits)
  obtain k where k: "attempts_of n raws = of_nat ` {..<k}"
      "k \<le> 1 \<or> (\<exists>st. stage_named wk n = Some st \<and> int k \<le> rt_max_attempts (js_retry st))"
    and none: "\<And>e. e \<in> set ?es \<Longrightarrow> we_attempt e = None \<Longrightarrow> we_event e = ''workflow_failed''"
    using assms(1) by (auto simp: stage_ok_def)
  have set: "set (List.map_filter we_attempt ?es) = of_nat ` {..<k}"
    using k(1) by (simp add: attempts_of_def List.map_filter_def)
  have status: "stage_status (current_events ?es) = Some x" using assms(3) sv(1) by (simp add: fold_stage_def Let_def)
  have "k \<noteq> 0"
  proof
    assume "k = 0"
    then have e: "List.map_filter we_attempt ?es = []" using set by simp
    then have "current_events ?es = ?es" by (simp add: current_events_def max_opt_def)
    moreover have "\<forall>e\<in>set ?es. we_event e = ''workflow_failed''"
      using e none by (fastforce simp: List.map_filter_def filter_empty_conv)
    ultimately have "stage_status (current_events ?es) = None"
      by (auto simp: stage_status_def best_terminal_None STAGE_TERMINAL_def list_ex_iff split: option.split dest!: best_terminal_Some(1,2))
    then show False using status by simp
  qed
  moreover obtain m where m: "max_opt (List.map_filter we_attempt ?es) = Some m" "rat_of_nat (k - 1) \<le> m"
    using max_opt_ge [of "rat_of_nat (k - 1)" "List.map_filter we_attempt ?es"] set \<open>k \<noteq> 0\<close> by fastforce
  moreover have "m \<in> of_nat ` {..<k}" using max_opt_in [OF m(1)] set by simp
  moreover have "card (of_nat ` {..<k} :: rat set) = k" by (simp add: card_image inj_on_def)
  ultimately have "sv_attempt sv = Some (of_nat (k - 1))" "sv_attempts_seen sv = k"
    using sv set by (auto simp: fold_stage_def Let_def)
  then show ?thesis using k \<open>k \<noteq> 0\<close> by auto
qed


lemma ready_status:
  assumes "n \<in> set (ready_stages wk v)"
  shows "stage_status_of v n = None"
    "\<exists>st\<in>set (wf_stages wk). js_name st = n \<and> (\<forall>d\<in>set (js_after st). stage_status_of v d = Some ''stage_succeeded'')"
  using assms by (auto simp: ready_stages_def list_all_iff)

lemma active_status: "active_stage wk v = Some n \<Longrightarrow> stage_status_of v n \<notin> {None, Some ''stage_succeeded''}"
  by (auto simp: active_stage_def find_Some_iff)

text \<open>A stage that has succeeded gets no further event.\<close>

lemma succeeded_frozen:
  assumes "list_all (obeys (stage_turn wk (fold_workflow_events raws))) l" "succeeded raws n"
  shows "stage_log n l = []"
proof (rule ccontr)
  assume "stage_log n l \<noteq> []"
  then obtain e where "e \<in> set (stage_log n l)" by (meson list.set_sel(1))
  then have "stage_turn wk (fold_workflow_events raws) n (we_event e) (we_attempt e)" using obeys_event [OF assms(1)] by blast
  then show False using assms(2) ready_status(1) active_status by (fastforce simp: stage_turn_def)
qed

lemma step_attempts_ready:
  assumes "attempts_of n raws = of_nat ` {..<k}" "\<And>e. e \<in> set (stage_log n l) \<Longrightarrow> we_attempt e \<in> {None, Some 0}"
  shows "attempts_of n (raws @ l) = of_nat ` {..<k} \<or> (attempts_of n (raws @ l) = of_nat ` {..<max 1 k})"
proof -
  have "attempts_of n l \<subseteq> {0}" using assms(2) by (fastforce simp: attempts_of_def List.map_filter_def)
  then consider "attempts_of n l = {}" | "attempts_of n l = {0}" by blast
  then show ?thesis
  proof cases
    case 2
    have "of_nat ` {..<k} \<union> {0} = (of_nat ` {..<max 1 k} :: rat set)" by (cases k) (auto simp: max_def lessThan_Suc)
    then show ?thesis using 2 assms(1) by simp
  qed (use assms(1) in simp)
qed

lemma step_attempts_active:
  assumes "attempts_of n raws = of_nat ` {..<k}" "0 < k"
    "\<And>e. e \<in> set (stage_log n l) \<Longrightarrow> we_attempt e \<in> {None, Some (of_nat (k - 1))} \<or> (we_attempt e = Some (of_nat k) \<and> P)"
  shows "attempts_of n (raws @ l) = of_nat ` {..<k} \<or> (attempts_of n (raws @ l) = of_nat ` {..<Suc k} \<and> P)"
proof -
  have sub: "attempts_of n l \<subseteq> insert (of_nat k) (of_nat ` {..<k})"
  proof
    fix a assume "a \<in> attempts_of n l"
    then have "a = of_nat (k - 1) \<or> a = of_nat k" using assms(3) by (fastforce simp: attempts_iff)
    then show "a \<in> insert (of_nat k) (of_nat ` {..<k})" using assms(2) by (metis diff_less imageI insertCI lessThan_iff zero_less_one)
  qed
  have last: P if "of_nat k \<in> attempts_of n l"
    using that assms(2,3) by (fastforce simp: attempts_iff)
  show ?thesis
  proof (cases "of_nat k \<in> attempts_of n l")
    case True
    then have "attempts_of n (raws @ l) = of_nat ` {..<Suc k}" using sub assms(1) by (auto simp: lessThan_Suc)
    then show ?thesis using last [OF True] by simp
  next
    case False
    then have "attempts_of n l \<subseteq> of_nat ` {..<k}" using sub by blast
    then show ?thesis using assms(1) by auto
  qed
qed


lemma deps_mono:
  "\<exists>x\<in>A. f x = n \<and> (\<forall>d\<in>set (g x). P d) \<Longrightarrow> (\<And>d. P d \<Longrightarrow> Q d) \<Longrightarrow> \<exists>x\<in>A. f x = n \<and> (\<forall>d\<in>set (g x). Q d)"
  by blast

lemma log_ok_step:
  assumes "log_ok wk raws" "list_all (obeys (stage_turn wk (fold_workflow_events raws))) l"
  shows "log_ok wk (raws @ l)"
  unfolding log_ok_def
proof (intro allI impI)
  fix n assume n: "stage_log n (raws @ l) \<noteq> []"
  let ?v = "fold_workflow_events raws"
  have keep: "succeeded (raws @ l) d" if "succeeded raws d" for d
    using succeeded_cong [of d "raws @ l" raws] succeeded_frozen [OF assms(2) that] that by simp
  have old: "stage_ok wk raws n" if "stage_log n raws \<noteq> []" using assms(1) that by (simp add: log_ok_def)
  have turn: "stage_turn wk ?v n (we_event e) (we_attempt e)" if "e \<in> set (stage_log n l)" for e
    using obeys_event [OF assms(2) that] .
  consider (quiet) "stage_log n l = []" | (ready) "n \<in> set (ready_stages wk ?v)" | (active) "active_stage wk ?v = Some n"
    using turn by (cases "stage_log n l") (fastforce simp: stage_turn_def)+
  then show "stage_ok wk (raws @ l) n"
  proof cases
    case quiet
    then have "stage_log n (raws @ l) = stage_log n raws" "attempts_of n (raws @ l) = attempts_of n raws" "stage_ok wk raws n"
      using old n by (simp_all add: attempts_of_def List.map_filter_def)
    then show ?thesis by (simp only: stage_ok_def) (rule conjI [OF deps_mono [OF _ keep]]; simp)
  next
    case ready
    have "active_stage wk ?v \<noteq> Some n" using ready_status(1) [OF ready] active_status by fastforce
    then have t: "we_attempt e \<in> {None, Some 0}" "we_attempt e = None \<Longrightarrow> we_event e = ''workflow_failed''"
      if "e \<in> set (stage_log n l)" for e
      using turn [OF that] by (auto simp: stage_turn_def split: if_splits)
    obtain k where k: "attempts_of n raws = of_nat ` {..<k}"
        "k \<le> 1 \<or> (\<exists>st. stage_named wk n = Some st \<and> int k \<le> rt_max_attempts (js_retry st))"
      using old by (cases "stage_log n raws = []") (auto simp: stage_ok_def attempts_of_def)
    have "\<exists>k'. attempts_of n (raws @ l) = of_nat ` {..<k'} \<and> (k' = k \<or> k' = max 1 k)"
      using step_attempts_ready [OF k(1) t(1)] by blast
    then have a: "\<exists>k. attempts_of n (raws @ l) = of_nat ` {..<k}
        \<and> (k \<le> 1 \<or> (\<exists>st. stage_named wk n = Some st \<and> int k \<le> rt_max_attempts (js_retry st)))"
      using k(2) by (metis max.absorb_iff1 max.absorb2 nle_le)
    have e: "\<forall>e\<in>set (stage_log n (raws @ l)). we_attempt e = None \<longrightarrow> we_event e = ''workflow_failed''"
      using old t(2) by (cases "stage_log n raws = []") (auto simp: stage_ok_def)
    show ?thesis unfolding stage_ok_def by (intro conjI a e deps_mono [OF ready_status(2) [OF ready] keep])
  next
    case active
    obtain sv x where sv: "wv_stages ?v n = Some sv" "sv_status sv = Some x"
      using active_stage_Some(1) [OF active] by blast
    have o: "stage_ok wk raws n" using old sv(1) by (simp add: stages_fold split: if_splits)
    obtain k where k: "attempts_of n raws = of_nat ` {..<k}" "0 < k" "sv_attempt sv = Some (of_nat (k - 1))" "sv_attempts_seen sv = k"
        "k \<le> 1 \<or> (\<exists>st. stage_named wk n = Some st \<and> int k \<le> rt_max_attempts (js_retry st))"
      using active_attempts [OF o sv] by blast
    let ?P = "\<exists>st. stage_named wk n = Some st \<and> int (Suc k) \<le> rt_max_attempts (js_retry st)"
    have ao: "attempt_of sv = k - 1" "view_attempt sv = Some (of_nat (k - 1))"
      using k(3) by (simp_all add: attempt_of_def view_attempt_def)
    have nr: "n \<notin> set (ready_stages wk ?v)" using ready_status(1) active_status [OF active] by fastforce
    have t: "we_attempt e \<in> {None, Some (of_nat (k - 1))} \<or> (we_attempt e = Some (of_nat k) \<and> ?P)"
        "we_attempt e = None \<Longrightarrow> we_event e = ''workflow_failed''" if "e \<in> set (stage_log n l)" for e
      using turn [OF that] nr sv(1) ao k(2,4) by (auto simp: stage_turn_def may_retry_def)
    have a: "\<exists>k. attempts_of n (raws @ l) = of_nat ` {..<k}
        \<and> (k \<le> 1 \<or> (\<exists>st. stage_named wk n = Some st \<and> int k \<le> rt_max_attempts (js_retry st)))"
      using step_attempts_active [OF k(1,2) t(1)] k(5) by blast
    have e: "\<forall>e\<in>set (stage_log n (raws @ l)). we_attempt e = None \<longrightarrow> we_event e = ''workflow_failed''"
      using o t(2) by (auto simp: stage_ok_def)
    have d: "\<exists>st\<in>set (wf_stages wk). js_name st = n \<and> (\<forall>d\<in>set (js_after st). succeeded raws d)"
      using o by (simp add: stage_ok_def)
    show ?thesis unfolding stage_ok_def by (intro conjI a e deps_mono [OF d keep])
  qed
qed


section \<open>Runs\<close>

text \<open>
  A run of the workflow \<open>wk\<close>: it starts with no event of a stage and no call made; controllers tick, any number of
  them in any order, one whole tick after the other, each with its own answers from the world, listed in
  \<open>cws\<close>; and anything else may happen to the bucket in between that logs no event of a stage and makes no call
  for the controllers.
\<close>

inductive ctl_run :: "(string \<Rightarrow> string) \<Rightarrow> string \<Rightarrow> workflow \<Rightarrow> ctl_world list \<Rightarrow> ctl_state \<Rightarrow> bool" for sha wid wk where
  fresh: "list_all (obeys (\<lambda>_ _ _. False)) (ct_log s) \<Longrightarrow> ct_io s = [] \<Longrightarrow> ctl_run sha wid wk [] s"
| ticked: "ctl_run sha wid wk cws s \<Longrightarrow> cw_sha256 cw = sha \<Longrightarrow> cw_wf_id cw = wid
    \<Longrightarrow> run_state (reconcile_tick cw wk) s = (r, s') \<Longrightarrow> ctl_run sha wid wk (cws @ [cw]) s'"
| aside: "ctl_run sha wid wk cws s \<Longrightarrow> extends (\<lambda>_ _ _. False) (\<lambda>_. False) s s' \<Longrightarrow> ctl_run sha wid wk cws s'"

text \<open>Every listing and every read of an event of the log succeeded.\<close>

definition all_readable :: "ctl_world list \<Rightarrow> bool" where
  "all_readable cws \<longleftrightarrow> list_all log_readable cws"

lemma all_readable_simps [simp]: "all_readable []" "all_readable (cws @ [cw]) \<longleftrightarrow> all_readable cws \<and> log_readable cw"
  by (simp_all add: all_readable_def)

lemma list_all_False [simp]: "list_all (\<lambda>_. False) c \<longleftrightarrow> c = []"
  by (cases c) simp_all

lemma log_ok_aside:
  assumes "log_ok wk raws" "list_all (obeys (\<lambda>_ _ _. False)) l"
  shows "log_ok wk (raws @ l)"
proof (rule log_ok_step [OF assms(1)])
  show "list_all (obeys (stage_turn wk (fold_workflow_events raws))) l"
    using assms(2) by (auto simp: list_all_iff obeys_def)
qed

lemma log_ok_fresh: "list_all (obeys (\<lambda>_ _ _. False)) l \<Longrightarrow> log_ok wk l"
  using log_ok_aside [of wk "[]" l] by (simp add: log_ok_def stage_log_def log_events_def List.map_filter_def)

text \<open>The job is that of a stage of the workflow, at an attempt within its bound.\<close>

definition within_bound :: "(string \<Rightarrow> string) \<Rightarrow> string \<Rightarrow> workflow \<Rightarrow> ctl_io \<Rightarrow> bool" where
  "within_bound sha wid wk x \<longleftrightarrow>
     (\<forall>jid box. x = CtlSubmit jid box \<longrightarrow>
        (\<exists>st\<in>set (wf_stages wk). \<exists>a. stage_job_id sha wid (js_name st) a = Inr jid
           \<and> (a = 0 \<or> int a < rt_max_attempts (js_retry st))))"

lemma stage_named_in: "stage_named wk n = Some st \<Longrightarrow> st \<in> set (wf_stages wk)"
  by (auto simp: stage_named_def find_Some_iff) (metis length_rev nth_mem set_rev)

lemma due_within_bound:
  assumes "log_ok wk raws" "io_due cw wk raws x"
  shows "within_bound (cw_sha256 cw) (cw_wf_id cw) wk x"
  unfolding within_bound_def
proof (intro allI impI)
  fix jid box assume "x = CtlSubmit jid box"
  then obtain st a where d: "submission_due cw wk raws st a" and j: "stage_job_id (cw_sha256 cw) (cw_wf_id cw) (js_name st) a = Inr jid"
    using assms(2) by (auto simp: io_due_def Let_def)
  have st: "stage_named wk (js_name st) = Some st" using d by (simp add: submission_due_def Let_def)
  have "a = 0 \<or> int a < rt_max_attempts (js_retry st)"
  proof (rule ccontr)
    assume n: "\<not> (a = 0 \<or> int a < rt_max_attempts (js_retry st))"
    then obtain sv where sv: "active_stage wk (fold_workflow_events raws) = Some (js_name st)"
        "wv_stages (fold_workflow_events raws) (js_name st) = Some sv"
        "a = attempt_of sv \<or> (a = attempt_of sv + 1 \<and> may_retry st sv)"
      using d by (auto simp: submission_due_def Let_def)
    obtain y where y: "sv_status sv = Some y" using active_stage_Some(1) [OF sv(1)] sv(2) by auto
    have ok: "stage_ok wk raws (js_name st)" using assms(1) sv(2) by (simp add: log_ok_def stages_fold split: if_splits)
    then obtain k where "0 < k" "sv_attempt sv = Some (of_nat (k - 1))" "sv_attempts_seen sv = k"
        "k \<le> 1 \<or> int k \<le> rt_max_attempts (js_retry st)"
      using active_attempts [OF ok sv(2) y] st by auto
    then show False using sv(3) n by (auto simp: attempt_of_def may_retry_def)
  qed
  then show "\<exists>st\<in>set (wf_stages wk). \<exists>a. stage_job_id (cw_sha256 cw) (cw_wf_id cw) (js_name st) a = Inr jid
      \<and> (a = 0 \<or> int a < rt_max_attempts (js_retry st))"
    using j stage_named_in [OF st] by blast
qed

lemma ctl_run_inv:
  "ctl_run sha wid wk cws s \<Longrightarrow> all_readable cws \<Longrightarrow> log_ok wk (ct_log s) \<and> list_all (within_bound sha wid wk) (ct_io s)"
proof (induction rule: ctl_run.induct)
  case (fresh s)
  then show ?case using log_ok_fresh by simp
next
  case (ticked cws s cw r s')
  have k: "log_readable cw" "log_ok wk (ct_log s)" "list_all (within_bound sha wid wk) (ct_io s)" using ticked.IH ticked.prems by simp_all
  obtain l c where e: "ct_log s' = ct_log s @ l" "list_all (obeys (stage_turn wk (fold_workflow_events (ct_log s)))) l"
      "ct_io s' = ct_io s @ c" "list_all (io_due cw wk (ct_log s)) c"
    using tick_extends [OF ticked.hyps(4) k(1)] by (auto simp: extends_def)
  have "list_all (within_bound sha wid wk) c"
    using e(4) due_within_bound [of wk "ct_log s" cw] k(2) ticked.hyps(2,3) by (auto simp: list_all_iff)
  then show ?case using log_ok_step [OF k(2) e(2)] e(1,3) k(3) by simp
next
  case (aside cws s s')
  then show ?case using log_ok_aside by (auto simp: extends_def)
qed

text \<open>The loop of a controller, its claim and its heartbeats are such a run.\<close>

lemma claim_aside: "run_state (claim_controller cw takeover polls) s = (r, s') \<Longrightarrow> extends turn io s s'"
proof -
  have "abides turn io (\<lambda>_. True) (claim_controller cw takeover polls)"
    unfolding claim_controller_def by (auto split: sum.split intro!: abides_seq emit_free)
  then show "run_state (claim_controller cw takeover polls) s = (r, s') \<Longrightarrow> extends turn io s s'" by (blast dest: abidesD)
qed

lemma controller_runs:
  "ctl_run sha wid wk cws0 s \<Longrightarrow> list_all (\<lambda>cw. cw_sha256 cw = sha \<and> cw_wf_id cw = wid) cws
    \<Longrightarrow> run_state (run_controller cws wk) s = (r, s') \<Longrightarrow> \<exists>n. ctl_run sha wid wk (cws0 @ take n cws) s'"
proof (induction cws arbitrary: s r cws0)
  case (Cons cw cws)
  obtain ok s1 where 1: "run_state (emit cw ''controller_heartbeat'' None []) s = (ok, s1)" by force
  have "extends (\<lambda>_ _ _. False) (\<lambda>_. False) s s1"
    using abidesD [OF emit_free [of "[]"] 1] by simp
  then have r1: "ctl_run sha wid wk cws0 s1" using Cons.prems(1) ctl_run.aside by blast
  obtain x s2 where 2: "run_state (reconcile_tick cw wk) s1 = (x, s2)" by force
  have r2: "ctl_run sha wid wk (cws0 @ [cw]) s2" using ctl_run.ticked [OF r1 _ _ 2] Cons.prems(2) by simp
  have r3: "ctl_run sha wid wk (cws0 @ [cw]) (snd (run_state (read_events cw) s2))"
    using ctl_run.aside [OF r2] by (simp add: extends_same read_events_def Let_def)
  have i: "run_state (run_controller cws wk) (snd (run_state (read_events cw) s2)) = (r, s')
      \<Longrightarrow> \<exists>n. ctl_run sha wid wk (cws0 @ take n (cw # cws)) s'"
  proof -
    assume "run_state (run_controller cws wk) (snd (run_state (read_events cw) s2)) = (r, s')"
    then obtain n where "ctl_run sha wid wk ((cws0 @ [cw]) @ take n cws) s'" using Cons.IH [OF r3] Cons.prems(2) by auto
    then show ?thesis by (intro exI [of _ "Suc n"]) simp
  qed
  have o: "\<exists>n. ctl_run sha wid wk (cws0 @ take n (cw # cws)) s2" using r2 by (intro exI [of _ 1]) simp
  have o3: "\<exists>n. ctl_run sha wid wk (cws0 @ take n (cw # cws)) (snd (run_state (read_events cw) s2))" using r3 by (intro exI [of _ 1]) simp
  show ?case
    using Cons.prems(3) 1 2 o o3 i
    by (auto simp: and_then_def Let_def split: sum.splits if_splits prod.splits)
qed (auto intro: exI [of _ 0])


section \<open>A small workflow\<close>

definition demo_ctl :: ctl_world where
  "demo_ctl = \<lparr>cw_jobs = \<lparr>w_io = (\<lambda>_. Served), w_now = (\<lambda>_. ''20260101T000000000Z''), w_nonce = (\<lambda>_. ''n'')\<rparr>,
     cw_list = (\<lambda>_. True), cw_cat = (\<lambda>_ _. True), cw_wf_id = ''w1'', cw_actor = ''a'', cw_time = ''20260101T000000000Z'',
     cw_sha256 = (\<lambda>_. ''0123abcd''), cw_show = (\<lambda>_. []), cw_resolver = True, cw_boxes = (\<lambda>_. []), cw_image = (\<lambda>_. ImgFresh),
     cw_gate = True, cw_retired = (\<lambda>_. False), cw_digest = (\<lambda>_. None),
     cw_offer = (\<lambda>_ _. Some \<lparr>bo_id = 5, bo_machine = None, bo_min_bid = Some (1/10), bo_dph_total = None\<rparr>),
     cw_bid_mult = 3/2, cw_launch = (\<lambda>_ _. Some ''77''), cw_expiry = None, cw_rotate = (\<lambda>_. True),
     cw_config = (\<lambda>_ _. Some (plain_config [], ''sha'')), cw_artifact = (\<lambda>_ _. Some ''m''), cw_cost = None, cw_observe = None,
     cw_slow = None, cw_teardown = Some (\<lambda>_ _. True), cw_start = (\<lambda>_. True), cw_image_seen = None\<rparr>"

definition demo_ctl_state :: "raw_object list \<Rightarrow> ctl_state" where
  "demo_ctl_state lg = \<lparr>ct_bucket = \<lparr>bk_queue = (\<lambda>_. None), bk_dlq = (\<lambda>_. None), bk_events = (\<lambda>_. []), bk_cancels = (\<lambda>_. False),
        bk_tick = 0\<rparr>, ct_log = lg, ct_accepted = (\<lambda>_. None), ct_verdict = None, ct_provenance = False, ct_report = False,
     ct_jobs = (\<lambda>_. []), ct_refused = [], ct_io = []\<rparr>"

definition demo_event :: "string \<Rightarrow> (string \<times> jval) list \<Rightarrow> raw_object" where
  "demo_event ev fs = wf_object demo_ctl ev ''20260101T000000000Z'' ''n'' fs"

definition demo_tick :: "ctl_world \<Rightarrow> workflow \<Rightarrow> ctl_state \<Rightarrow> (ctl_error + ctl_action) \<times> ctl_state" where
  "demo_tick cw wk s = run_state (reconcile_tick cw wk) s"

lemma demo_tick_run: "run_state (reconcile_tick cw wk) s = (fst (demo_tick cw wk s), snd (demo_tick cw wk s))"
  by (simp add: demo_tick_def)

lemma demo_readable [simp]: "log_readable demo_ctl" "cw_sha256 demo_ctl = (\<lambda>_. ''0123abcd'')" "cw_wf_id demo_ctl = ''w1''"
  by (simp_all add: log_readable_def demo_ctl_def)

lemma demo_all_readable [simp]: "all_readable [demo_ctl]"
  by (simp add: all_readable_def)

lemma demo_first:
  "fst (demo_tick demo_ctl sample_workflow (demo_ctl_state [])) = Inr (StageSubmitted ''prep'' 0 ''w1-0123abcd-prep-a0'' ''77'')"
  "ct_io (snd (demo_tick demo_ctl sample_workflow (demo_ctl_state [])))
     = [CtlLaunch 5 (Some (3 / 20)), CtlSubmit ''w1-0123abcd-prep-a0'' ''77'']"
  by code_simp+

lemma demo_run: "ctl_run (\<lambda>_. ''0123abcd'') ''w1'' sample_workflow [demo_ctl] (snd (demo_tick demo_ctl sample_workflow (demo_ctl_state [])))"
  using ctl_run.ticked [OF ctl_run.fresh [of "demo_ctl_state []"] _ _ demo_tick_run [of demo_ctl]] by (simp add: demo_ctl_state_def)

section \<open>The log\<close>

text \<open>C7. In a run of any number of controllers, whose whole ticks interleave in any order and whose listings and reads
  of the log all succeed (other answers are free), a stage appears in the log only when it is one of the workflow
  and every stage it comes after has succeeded.\<close>

theorem dependencies_done_first:
  assumes "ctl_run sha wid wk cws s" "all_readable cws" "wv_stages (fold_workflow_events (ct_log s)) n = Some sv"
  shows "\<exists>st\<in>set (wf_stages wk). js_name st = n \<and>
           (\<forall>d\<in>set (js_after st). stage_status_of (fold_workflow_events (ct_log s)) d = Some ''stage_succeeded'')"
  using ctl_run_inv [OF assms(1,2)] assms(3) by (auto simp: log_ok_def stage_ok_def stages_fold split: if_splits)

lemma dependencies_done_first_witness:
  "\<exists>st\<in>set (wf_stages sample_workflow). js_name st = ''prep''"
proof -
  have "stage_status_of (fold_workflow_events (ct_log (snd (demo_tick demo_ctl sample_workflow (demo_ctl_state []))))) ''prep''
      = Some ''stage_submitted''" by code_simp
  then obtain sv where "wv_stages (fold_workflow_events (ct_log (snd (demo_tick demo_ctl sample_workflow (demo_ctl_state []))))) ''prep'' = Some sv"
    by (auto simp: stage_status_of_def bind_eq_Some_conv)
  from dependencies_done_first [OF demo_run demo_all_readable this] show ?thesis by blast
qed

text \<open>C9. When the listings and reads of the log all succeed, every job a run submits is that of a stage of the
  workflow, at its first attempt or at one below the stage's bound on attempts: retries, replans of a stranded box and
  controllers whose whole ticks interleave add no job beyond it.\<close>

theorem submissions_within_bound:
  assumes "ctl_run sha wid wk cws s" "all_readable cws" "CtlSubmit jid box \<in> set (ct_io s)"
  shows "\<exists>st\<in>set (wf_stages wk). \<exists>a. stage_job_id sha wid (js_name st) a = Inr jid
           \<and> (a = 0 \<or> int a < rt_max_attempts (js_retry st))"
  using ctl_run_inv [OF assms(1,2)] assms(3) by (auto simp: list_all_iff within_bound_def)

lemma submissions_within_bound_witness:
  "\<exists>st\<in>set (wf_stages sample_workflow). \<exists>a. stage_job_id (\<lambda>_. ''0123abcd'') ''w1'' (js_name st) a = Inr ''w1-0123abcd-prep-a0''
     \<and> (a = 0 \<or> int a < rt_max_attempts (js_retry st))"
  by (rule submissions_within_bound [OF demo_run, of _ "''77''"]) (simp_all add: demo_first)

section \<open>The calls of a tick\<close>

text \<open>C8. One tick whose listings and reads of the log succeed submits a job only while the workflow is not over, and
  only for the next ready stage, at its first attempt and within the budget, or for the active one: at its current
  attempt when no job was recorded, or at the next while attempts are left.\<close>

theorem submitted_only_when_due:
  assumes "run_state (reconcile_tick cw wk) s = (r, s')" "log_readable cw" "ct_io s' = ct_io s @ calls"
    "CtlSubmit jid box \<in> set calls"
  shows "\<not> wv_terminal (fold_workflow_events (ct_log s))
    \<and> (\<exists>st a. stage_named wk (js_name st) = Some st \<and> stage_job_id (cw_sha256 cw) (cw_wf_id cw) (js_name st) a = Inr jid
        \<and> ((next_ready_stage wk (fold_workflow_events (ct_log s)) = Some (js_name st) \<and> a = 0
             \<and> \<not> budget_exhausted wk (spend_of (ct_log s)) (map_of (wf_profiles wk) (js_profile st)))
           \<or> (active_stage wk (fold_workflow_events (ct_log s)) = Some (js_name st)
             \<and> (\<exists>sv. wv_stages (fold_workflow_events (ct_log s)) (js_name st) = Some sv \<and> in_flight sv
                  \<and> ((a = attempt_of sv \<and> truthy_text cw (sv_job_id sv) = None) \<or> (a = attempt_of sv + 1 \<and> may_retry st sv))))))"
proof -
  have "io_due cw wk (ct_log s) (CtlSubmit jid box)"
    using tick_extends [OF assms(1,2)] assms(3,4) by (auto simp: extends_def list_all_iff)
  then show ?thesis by (fastforce simp: io_due_def submission_due_def Let_def)
qed

lemma submitted_only_when_due_witness:
  "\<exists>st a. stage_named sample_workflow (js_name st) = Some st
     \<and> stage_job_id (\<lambda>_. ''0123abcd'') ''w1'' (js_name st) a = Inr ''w1-0123abcd-prep-a0''"
  using submitted_only_when_due [OF demo_tick_run, of demo_ctl sample_workflow "demo_ctl_state []"
      "[CtlLaunch 5 (Some (3 / 20)), CtlSubmit ''w1-0123abcd-prep-a0'' ''77'']" "''w1-0123abcd-prep-a0''" "''77''"]
  by (simp add: demo_first) (simp add: demo_ctl_state_def, blast)

text \<open>C10. One tick that could list and read the log launches a box only while the workflow is not over, and starts,
  rotates or retargets only the box of the active stage. A box it tears down is one the workflow owns, once it is over
  or no stage is ready; or the active stage's, destroyed.\<close>

theorem boxes_touched_only_with_reason:
  assumes "run_state (reconcile_tick cw wk) s = (r, s')" "log_readable cw" "ct_io s' = ct_io s @ calls" "x \<in> set calls"
  shows "case x of
      CtlSubmit _ _ \<Rightarrow> \<not> wv_terminal (fold_workflow_events (ct_log s))
    | CtlLaunch _ _ \<Rightarrow> \<not> wv_terminal (fold_workflow_events (ct_log s))
    | CtlTeardown i m \<Rightarrow>
        (i \<in> set (owned_instance_ids cw (ct_log s)) \<and> m = wf_teardown wk
           \<and> (wv_terminal (fold_workflow_events (ct_log s)) \<or> next_ready_stage wk (fold_workflow_events (ct_log s)) = None))
        \<or> (\<not> wv_terminal (fold_workflow_events (ct_log s)) \<and> m = ''destroy'' \<and> active_box cw wk (fold_workflow_events (ct_log s)) i)
    | CtlStart i \<Rightarrow> \<not> wv_terminal (fold_workflow_events (ct_log s)) \<and> active_box cw wk (fold_workflow_events (ct_log s)) i
    | CtlRotate i \<Rightarrow> \<not> wv_terminal (fold_workflow_events (ct_log s)) \<and> active_box cw wk (fold_workflow_events (ct_log s)) i
    | CtlRetarget _ i _ \<Rightarrow> \<not> wv_terminal (fold_workflow_events (ct_log s)) \<and> active_box cw wk (fold_workflow_events (ct_log s)) i"
proof -
  have "io_due cw wk (ct_log s) x"
    using tick_extends [OF assms(1,2)] assms(3,4) by (auto simp: extends_def list_all_iff)
  then show ?thesis by (cases x) (simp_all add: io_due_def Let_def)
qed

lemma boxes_touched_only_with_reason_witness: "\<not> wv_terminal (fold_workflow_events [])"
  using boxes_touched_only_with_reason [OF demo_tick_run, of demo_ctl sample_workflow "demo_ctl_state []"
      "[CtlLaunch 5 (Some (3 / 20)), CtlSubmit ''w1-0123abcd-prep-a0'' ''77'']" "CtlLaunch 5 (Some (3 / 20))"]
  by (simp add: demo_first) (simp add: demo_ctl_state_def)


section \<open>Progress\<close>





section \<open>Success\<close>

text \<open>Programs that leave \<open>verdict.json\<close> alone.\<close>

definition stays :: "'a ctl \<Rightarrow> bool" where
  "stays m \<longleftrightarrow> (\<forall>s. ct_verdict (snd (run_state m s)) = ct_verdict s)"

named_theorems stay

lemma stays_return [stay]: "stays (State_Monad.return x)"
  by (simp add: stays_def)

lemma stays_bind [stay]: "stays m \<Longrightarrow> (\<And>x. stays (f x)) \<Longrightarrow> stays (State_Monad.bind m f)"
  by (auto simp: stays_def split: prod.split) (metis snd_conv)

lemma stays_then [stay]: "stays m \<Longrightarrow> (\<And>x. stays (f x)) \<Longrightarrow> stays (and_then m f)"
  unfolding and_then_def by (intro stays_bind) (auto split: sum.split intro: stays_return)

lemma stays_bucket [stay]: "stays (on_bucket m)"
  by (simp add: stays_def on_bucket_def split: prod.split)

lemma stays_call [stay]: "stays (log_call x)"
  by (simp add: stays_def log_call_def)

lemma stays_read [stay]: "stays (read_events cw)"
  by (simp add: stays_def read_events_def Let_def)

lemma stays_put: "(\<And>s. ct_verdict (upd s) = ct_verdict s) \<Longrightarrow> stays (put_object cw upd)"
  by (simp add: stays_def put_object_def split: io_outcome.split)

lemma stays_emit [stay]: "stays (emit cw ev ts fs)"
  unfolding emit_def by (intro stay stays_put) (auto split: option.split intro: stay)

lemma stays_spend [stay]: "stays (folded_spend cw)" "stays (record_box_cost cw c)"
  unfolding folded_spend_def record_box_cost_def by (intro stay)+

lemma stays_accrue [stay]: "stays (accrue_and_persist_cost cw raws)"
  unfolding accrue_and_persist_cost_def by (auto split: option.split list.split intro!: stay)

lemma stays_cancel [stay]: "stays (cancel_tick cw act)"
  unfolding cancel_tick_def queued_def by (auto split: option.split intro!: stay)

lemma staysD: "stays m \<Longrightarrow> run_state m s = (x, s') \<Longrightarrow> ct_verdict s' = ct_verdict s"
  unfolding stays_def by (metis snd_conv)

lemma owned_remaining:
  "log_readable cw \<Longrightarrow> \<exists>s1. run_state (owned_boxes_remaining cw raws) s
      = (filter (\<lambda>i. i \<notin> set (released_instance_ids cw (ct_log s))) (owned_instance_ids cw raws), s1)
     \<and> ct_io s1 = ct_io s \<and> ct_log s1 = ct_log s"
  by (simp add: owned_boxes_remaining_def Let_def read_events_all)

lemma teardown_boxes_calls:
  "run_state (teardown_boxes cw td mode ids) s = ((rel, failed), s')
    \<Longrightarrow> set rel = {i \<in> set ids. td i mode} \<and> (\<exists>c. ct_io s' = ct_io s @ c \<and> (\<forall>i\<in>set ids. CtlTeardown i mode \<in> set c))"
proof (induction ids arbitrary: s rel failed s')
  case (Cons i ids)
  let ?e = "if td i mode then emit cw ''box_released'' (Some (cw_time cw)) [(''instance_id'', JStr i), (''mode'', JStr mode)]
      else State_Monad.return False"
  obtain s1 where 1: "run_state (log_call (CtlTeardown i mode)) s = ((), s1)" "ct_io s1 = ct_io s @ [CtlTeardown i mode]"
    by (simp add: log_call_def)
  obtain ok s2 where 2: "run_state ?e s1 = (ok, s2)" by force
  have a: "abides (\<lambda>_ _ _. True) (\<lambda>_. True) (\<lambda>_. True) ?e" by (auto intro: emit_free)
  then have e: "\<exists>c. ct_io s2 = ct_io s1 @ c" using abidesD [OF a 2] by (auto simp: extends_def)
  obtain rel2 failed2 s3 where 3: "run_state (teardown_boxes cw td mode ids) s2 = ((rel2, failed2), s3)" by (metis surj_pair)
  have r: "s' = s3" "rel = (if td i mode then i # rel2 else rel2)"
    using Cons.prems 1 2 3 by (auto split: if_splits)
  show ?case using Cons.IH [OF 3] e 1(2) r by auto
qed simp

lemma attempt_calls:
  assumes "run_state (attempt_teardown cw wk td ids) s = (([], rel, failed, n), s')"
  shows "(\<forall>i\<in>set ids. td i (wf_teardown wk)) \<and> (\<exists>c. ct_io s' = ct_io s @ c \<and> (\<forall>i\<in>set ids. CtlTeardown i (wf_teardown wk) \<in> set c))"
proof -
  obtain rel0 failed0 s1 where 1: "run_state (teardown_boxes cw td (wf_teardown wk) ids) s = ((rel0, failed0), s1)" by (metis surj_pair)
  let ?rest = "do { _ \<leftarrow> emit cw ''teardown_attempt'' (Some (cw_time cw)) [(''attempted'', JOther), (''released'', JOther), (''failed'', JOther)];
           n \<leftarrow> teardown_attempts_seen cw; State_Monad.return (filter (\<lambda>i. i \<notin> set rel0) ids, rel0, failed0, n) }"
  have 2: "run_state ?rest s1 = (([], rel, failed, n), s')" using assms 1 by (simp add: attempt_teardown_def)
  have a: "abides (\<lambda>_ _ _. True) (\<lambda>_. True) (\<lambda>(l, _). l = filter (\<lambda>i. i \<notin> set rel0) ids) ?rest"
    unfolding teardown_attempts_seen_def by (auto intro!: abides_seq emit_free abides_return)
  have l: "filter (\<lambda>i. i \<notin> set rel0) ids = []" and c: "\<exists>c. ct_io s' = ct_io s1 @ c"
    using abidesD [OF a 2] by (auto simp: extends_def)
  have t: "set rel0 = {i \<in> set ids. td i (wf_teardown wk)}" "\<exists>c. ct_io s1 = ct_io s @ c \<and> (\<forall>i\<in>set ids. CtlTeardown i (wf_teardown wk) \<in> set c)"
    using teardown_boxes_calls [OF 1] by simp_all
  have "\<forall>i\<in>set ids. td i (wf_teardown wk)" using l t(1) by (auto simp: filter_empty_conv)
  then show ?thesis using t(2) c by fastforce
qed

definition let_go :: "ctl_world \<Rightarrow> workflow \<Rightarrow> ctl_io list \<Rightarrow> raw_object list \<Rightarrow> string \<Rightarrow> bool" where
  "let_go cw wk calls raws i \<longleftrightarrow> i \<in> set (released_instance_ids cw raws)
     \<or> (CtlTeardown i (wf_teardown wk) \<in> set calls \<and> (\<exists>td. cw_teardown cw = Some td \<and> td i (wf_teardown wk)))"

lemma finish_success: "run_state (finish_workflow cw ok) s = (Inr WorkflowSucceeded, s') \<Longrightarrow> ok"
  by (auto simp: finish_workflow_def split: if_splits prod.splits)

lemma completion_success:
  assumes "log_readable cw" "run_state (reconcile_completion cw wk raws ok) s = (Inr WorkflowSucceeded, s')"
  shows "ok \<and> ct_verdict s \<noteq> None \<and> (\<exists>calls. ct_io s' = ct_io s @ calls
     \<and> (\<forall>i\<in>set (owned_instance_ids cw raws). let_go cw wk calls (ct_log s) i))"
proof -
  let ?rem = "filter (\<lambda>i. i \<notin> set (released_instance_ids cw (ct_log s))) (owned_instance_ids cw raws)"
  have v: "ct_verdict s \<noteq> None"
    using assms(2) by (auto simp: reconcile_completion_def get_object_def write_verdict_def split: if_splits prod.splits)
  obtain s1 where 1: "run_state (owned_boxes_remaining cw raws) (ctl_tick s) = (?rem, s1)" "ct_io s1 = ct_io s" "ct_log s1 = ct_log s"
    using owned_remaining [OF assms(1), of raws "ctl_tick s"] by auto
  have w: "fst (run_state (get_object cw ct_verdict) s) \<noteq> None"
    using assms(2) by (auto simp: reconcile_completion_def get_object_def write_verdict_def split: if_splits prod.splits)
  have fin: "ok \<and> (\<exists>c. ct_io s' = ct_io s2 @ c)" if "run_state (finish_workflow cw ok) s2 = (Inr WorkflowSucceeded, s')" for s2
    using finish_success [OF that] abidesD [OF abides_finish(1) that, of "\<lambda>_ _ _. True" "\<lambda>_. True"] by (auto simp: extends_def)
  have m: "run_state (if ?rem = [] then finish_workflow cw ok
            else (case cw_teardown cw of
                None \<Rightarrow> State_Monad.return (Inr (NeedTeardown ?rem))
              | Some td \<Rightarrow> do {
                  (left, rel, failed, n) \<leftarrow> attempt_teardown cw wk td ?rem;
                  if left = [] then finish_workflow cw ok
                  else if TEARDOWN_MAX_ATTEMPTS \<le> n then teardown_failed cw
                  else State_Monad.return (Inr (TeardownRetrying left)) })) s1 = (Inr WorkflowSucceeded, s')"
    using assms(2) w 1(1) unfolding reconcile_completion_def by (simp add: get_object_def split: if_splits)
  show ?thesis
  proof (cases "?rem = []")
    case True
    then show ?thesis using m fin [of s1] v 1(2) by (auto simp: let_go_def filter_empty_conv)
  next
    case False
    then obtain td where td: "cw_teardown cw = Some td" using m by (cases "cw_teardown cw") auto
    obtain left rel failed n s2 where 2: "run_state (attempt_teardown cw wk td ?rem) s1 = ((left, rel, failed, n), s2)" by (metis surj_pair)
    have l: "left = []" "run_state (finish_workflow cw ok) s2 = (Inr WorkflowSucceeded, s')"
      using m False td 2 by (auto simp: teardown_failed_def split: if_splits prod.splits)
    have "(\<forall>i\<in>set ?rem. td i (wf_teardown wk)) \<and> (\<exists>c. ct_io s2 = ct_io s1 @ c \<and> (\<forall>i\<in>set ?rem. CtlTeardown i (wf_teardown wk) \<in> set c))"
      using attempt_calls 2 l(1) by blast
    then obtain c where c: "ct_io s2 = ct_io s @ c" "\<forall>i\<in>set ?rem. td i (wf_teardown wk) \<and> CtlTeardown i (wf_teardown wk) \<in> set c"
      using 1(2) by auto
    obtain c2 where c2: "ok" "ct_io s' = ct_io s2 @ c2" using fin [OF l(2)] by blast
    have "\<forall>i\<in>set (owned_instance_ids cw raws). let_go cw wk (c @ c2) (ct_log s) i"
      using c(2) td by (auto simp: let_go_def)
    then show ?thesis using v c(1) c2 by auto
  qed
qed

lemma released_append [simp]: "released_instance_ids cw (xs @ ys) = released_instance_ids cw xs @ released_instance_ids cw ys"
  by (simp add: released_instance_ids_def List.map_filter_def)

lemma next_success:
  assumes "run_state (next_tick cw wk spent raws) s = (Inr WorkflowSucceeded, s')"
  shows "run_state (reconcile_completion cw wk raws
      (list_all (\<lambda>st. stage_status_of (fold_workflow_events raws) (js_name st) = Some ''stage_succeeded'') (wf_stages wk))) s
    = (Inr WorkflowSucceeded, s')"
proof -
  have plan: "abides (\<lambda>_ _ _. True) (\<lambda>_. True) (\<lambda>r. r \<noteq> Inr WorkflowSucceeded) (plan_and_submit_stage cw wk st a)" for st a
    by (rule abides_plan) (simp_all add: may_speak_def)
  have b: "abides (\<lambda>_ _ _. True) (\<lambda>_. True) (\<lambda>r. r \<noteq> Inr WorkflowSucceeded)
      (do { _ \<leftarrow> emit cw ev ts [(''failure_class'', c)]; State_Monad.return (Inr (WorkflowFailed x)) })" for ev ts c x
    by (auto intro!: abides_seq emit_free)
  show ?thesis
  proof (cases "Option.bind (next_ready_stage wk (fold_workflow_events raws)) (stage_named wk)")
    case None
    then show ?thesis using assms by (simp add: next_tick_def)
  next
    case (Some st)
    then have "abides (\<lambda>_ _ _. True) (\<lambda>_. True) (\<lambda>r. r \<noteq> Inr WorkflowSucceeded) (next_tick cw wk spent raws)"
      unfolding next_tick_def Let_def Some option.case
      by (cases "budget_exhausted wk spent (map_of (wf_profiles wk) (js_profile st))") (simp_all only: if_True if_False plan b)
    from abidesD [OF this assms] show ?thesis by simp
  qed
qed

lemma decided_success:
  assumes "run_state (decided_tick cw wk raws spent) s = (Inr WorkflowSucceeded, s')"
  shows "\<exists>s1. ct_verdict s1 = ct_verdict s \<and> (\<exists>c. ct_io s1 = ct_io s @ c)
         \<and> run_state (reconcile_completion cw wk raws
             (list_all (\<lambda>st. stage_status_of (fold_workflow_events raws) (js_name st) = Some ''stage_succeeded'') (wf_stages wk))) s1
           = (Inr WorkflowSucceeded, s')"
proof -
  let ?v = "fold_workflow_events raws"
  let ?act = "Option.bind (active_stage wk ?v) (\<lambda>n. map_option (\<lambda>sv. (n, sv)) (wv_stages ?v n))"
  let ?k = "\<lambda>c. case c of Some a \<Rightarrow> State_Monad.return (Inr a)
          | None \<Rightarrow> (case Option.bind ?act (\<lambda>(n, sv). map_option (\<lambda>st. (st, sv)) (stage_named wk n)) of
                Some (st, sv) \<Rightarrow> if in_flight sv then active_tick cw wk spent st sv else next_tick cw wk spent raws
              | None \<Rightarrow> next_tick cw wk spent raws)"
  have "abides (\<lambda>_ _ _. True) (\<lambda>_. True) (\<lambda>r. r \<noteq> Inr WorkflowSucceeded) (terminal_tick cw wk raws)"
    by (rule abides_terminal) simp
  then have nt: "\<not> wv_terminal ?v"
    using abidesD assms by (fastforce simp: decided_tick_def Let_def)
  obtain x s1 where 1: "run_state (cancel_tick cw ?act) s = (x, s1)" by force
  have x: "x \<noteq> Inr (Some WorkflowSucceeded)" and c: "\<exists>c. ct_io s1 = ct_io s @ c"
    using abidesD [OF abides_cancel [of "\<lambda>_ _ _. True" "\<lambda>_. True"] 1] by (auto simp: extends_def)
  have v: "ct_verdict s1 = ct_verdict s" using staysD [OF stays_cancel 1] .
  have "run_state (and_then (cancel_tick cw ?act) ?k) s = (Inr WorkflowSucceeded, s')"
    using assms nt unfolding decided_tick_def Let_def by (simp only: if_False)
  then have k: "x = Inr None" "run_state (?k None) s1 = (Inr WorkflowSucceeded, s')"
    using x unfolding and_then_def by (auto simp: 1 split: sum.splits option.splits)
  have "run_state (next_tick cw wk spent raws) s1 = (Inr WorkflowSucceeded, s')"
  proof (cases "Option.bind ?act (\<lambda>(n, sv). map_option (\<lambda>st. (st, sv)) (stage_named wk n))")
    case None
    then show ?thesis using k(2) by simp
  next
    case (Some p)
    obtain st sv where p: "p = (st, sv)" by force
    obtain n where n: "active_stage wk ?v = Some n" "wv_stages ?v n = Some sv" "stage_named wk n = Some st"
      using Some p by (auto simp: bind_eq_Some_conv)
    have "js_name st = n" using stage_named_name [OF n(3)] .
    then have "abides (stage_turn wk ?v) (io_due cw wk raws) (\<lambda>r. r \<noteq> Inr WorkflowSucceeded) (active_tick cw wk spent st sv)" if "in_flight sv"
      by (intro abides_active [OF _ _ _ that refl nt]) (use n in simp_all)
    then have "\<not> in_flight sv" using k(2) abidesD unfolding option.case Some p prod.case by fastforce
    then show ?thesis using k(2) unfolding option.case Some p prod.case by simp
  qed
  then show ?thesis using next_success v c by blast
qed

lemma tick_success:
  assumes "run_state (reconcile_tick cw wk) s = (Inr WorkflowSucceeded, s')" "log_readable cw"
  shows "list_all (\<lambda>st. succeeded (ct_log s) (js_name st)) (wf_stages wk) \<and> ct_verdict s \<noteq> None
    \<and> (\<exists>calls. ct_io s' = ct_io s @ calls \<and> (\<forall>i\<in>set (owned_instance_ids cw (ct_log s)). let_go cw wk calls (ct_log s') i))"
proof -
  obtain s2 where 2: "run_state (accrue_and_persist_cost cw (ct_log s)) (ctl_tick s) = ((), s2)" by (metis old.unit.exhaust surj_pair)
  have e2: "\<exists>c. ct_io s2 = ct_io s @ c" "ct_verdict s2 = ct_verdict s"
    using abidesD [OF abides_accrue [of "\<lambda>_ _ _. True" "\<lambda>_. True"] 2] staysD [OF stays_accrue 2] by (auto simp: extends_def)
  have 3: "run_state (folded_spend cw) s2 = (spend_of (ct_log s2), ctl_tick s2)"
    by (simp add: folded_spend_def read_events_all [OF assms(2)])
  have "run_state (decided_tick cw wk (ct_log s) (spend_of (ct_log s2))) (ctl_tick s2) = (Inr WorkflowSucceeded, s')"
    using assms(1) 2 3 by (simp add: reconcile_tick_decided read_events_all [OF assms(2)])
  from decided_success [OF this] obtain s3 where 4: "ct_verdict s3 = ct_verdict s" "\<exists>c. ct_io s3 = ct_io s @ c"
      "run_state (reconcile_completion cw wk (ct_log s) (list_all (\<lambda>st. succeeded (ct_log s) (js_name st)) (wf_stages wk))) s3
         = (Inr WorkflowSucceeded, s')"
    using e2 by auto
  have c: "list_all (\<lambda>st. succeeded (ct_log s) (js_name st)) (wf_stages wk)" "ct_verdict s3 \<noteq> None"
      "\<exists>calls. ct_io s' = ct_io s3 @ calls \<and> (\<forall>i\<in>set (owned_instance_ids cw (ct_log s)). let_go cw wk calls (ct_log s3) i)"
    using completion_success [OF assms(2) 4(3)] by blast+
  have "\<exists>l. ct_log s' = ct_log s3 @ l"
    using abidesD [OF abides_completion 4(3), of "\<lambda>_. True" "\<lambda>_ _ _. True"] by (auto simp: extends_def)
  then have "let_go cw wk calls (ct_log s3) i \<Longrightarrow> let_go cw wk (c @ calls) (ct_log s') i" for calls c i
    by (auto simp: let_go_def)
  then show ?thesis using c 4(1,2) by (metis append.assoc)
qed

text \<open>C11. A tick that could list and read the log reports success only when every stage had succeeded and the verdict
  was written, and when every box recorded by the current attempts of the stages has been released, in an earlier tick
  or by this one.\<close>

theorem success_means_done_and_released:
  assumes "run_state (reconcile_tick cw wk) s = (Inr WorkflowSucceeded, s')" "log_readable cw"
  shows "list_all (\<lambda>st. stage_status_of (fold_workflow_events (ct_log s)) (js_name st) = Some ''stage_succeeded'') (wf_stages wk)
    \<and> ct_verdict s \<noteq> None
    \<and> (\<exists>calls. ct_io s' = ct_io s @ calls
         \<and> (\<forall>i\<in>set (owned_instance_ids cw (ct_log s)). i \<in> set (released_instance_ids cw (ct_log s'))
              \<or> (CtlTeardown i (wf_teardown wk) \<in> set calls \<and> (\<exists>td. cw_teardown cw = Some td \<and> td i (wf_teardown wk)))))"
  using tick_success [OF assms] by (simp add: let_go_def)

lemma completion_finishes:
  assumes "log_readable cw" "fst (run_state (get_object cw ct_verdict) s) \<noteq> None" "cw_teardown cw = Some (\<lambda>_ _. True)"
  shows "fst (run_state (reconcile_completion cw wk raws True) s) = Inr WorkflowSucceeded"
proof -
  have fin: "fst (run_state (finish_workflow cw True) s2) = Inr WorkflowSucceeded" for s2
    by (simp add: finish_workflow_def split: prod.split)
  obtain rem s1 where 1: "run_state (owned_boxes_remaining cw raws) (ctl_tick s) = (rem, s1)" by force
  obtain l rel failed n s2 where 2: "run_state (attempt_teardown cw wk (\<lambda>_ _. True) rem) s1 = ((l, rel, failed, n), s2)" by (metis surj_pair)
  have "l = []" using abidesD [OF abides_attempt 2, of "\<lambda>_. True"] by simp
  then show ?thesis
    using assms(2) 1 2 unfolding reconcile_completion_def by (auto simp: get_object_def assms(3) fin split: if_splits)
qed

definition demo_one :: workflow where
  "demo_one = sample_workflow\<lparr>wf_stages := [sample_stage ''prep'' []]\<rparr>"

definition demo_won :: ctl_state where
  "demo_won = (demo_ctl_state [demo_event ''stage_succeeded'' [(''stage'', JStr ''prep''), (''attempt'', JInt 0), (''instance_id'', JStr ''7'')]])
     \<lparr>ct_verdict := Some True\<rparr>"

lemma demo_won_view:
  "next_ready_stage demo_one (fold_workflow_events (ct_log demo_won)) = None"
  "active_stage demo_one (fold_workflow_events (ct_log demo_won)) = None"
  "\<not> wv_terminal (fold_workflow_events (ct_log demo_won))"
  "list_all (\<lambda>st. succeeded (ct_log demo_won) (js_name st)) (wf_stages demo_one)"
  "\<not> bk_cancels (ct_bucket demo_won) ''w1''" "w_io (cw_jobs demo_ctl) n = Served" "ct_verdict demo_won = Some True"
  "cw_teardown demo_ctl = Some (\<lambda>_ _. True)" "cw_cost demo_ctl = None"
  by (code_simp, code_simp, code_simp, code_simp) (simp_all add: demo_won_def demo_ctl_state_def demo_ctl_def)

lemma demo_won_tick: "fst (demo_tick demo_ctl demo_one demo_won) = Inr WorkflowSucceeded"
proof -
  have b: "bk_cancels (ct_bucket (ctl_tick s)) = bk_cancels (ct_bucket s)" "ct_bucket (ctl_tick s) = tick (ct_bucket s)" for s
    by (simp_all add: ctl_tick_def tick_def)
  have c: "run_state (cancel_tick demo_ctl None) (ctl_tick (ctl_tick demo_won))
      = (Inr None, (ctl_tick (ctl_tick demo_won))\<lparr>ct_bucket := tick (ct_bucket (ctl_tick (ctl_tick demo_won)))\<rparr>)"
    using demo_won_view(5) by (simp add: cancel_tick_def on_bucket_def has_cancel_marker_def io_read_def demo_won_view(6) b)
  have f: "fst (run_state (reconcile_completion demo_ctl demo_one (ct_log demo_won) True) s) = Inr WorkflowSucceeded"
    if "ct_verdict s = Some True" for s
    by (rule completion_finishes) (simp_all add: demo_won_view get_object_def that)
  show ?thesis
    unfolding demo_tick_def reconcile_tick_decided decided_tick_def next_tick_def Let_def
    by (simp add: read_events_all accrue_and_persist_cost_def folded_spend_def demo_won_view c and_then_def f)
qed

lemma success_means_done_and_released_witness: "ct_verdict demo_won \<noteq> None"
  using success_means_done_and_released [OF demo_tick_run [of demo_ctl demo_one demo_won, unfolded demo_won_tick]]
  by simp

section \<open>One controller\<close>

lemma takeover_wait_stale:
  "takeover_wait now baseline ps = Inr () \<Longrightarrow> \<exists>(t, v)\<in>set ps. controller_is_stale v t (POLL_INTERVAL_S * HEARTBEAT_STALE_MULT) = Inr True"
  by (induction now baseline ps rule: takeover_wait.induct) (auto split: if_splits sum.splits bool.splits)

text \<open>A controller is let in beside another only when the other's last heartbeat is stale: as the log shows it, or,
  for a takeover, at one of the five readings it waits for. Otherwise it is refused and logs nothing.\<close>

lemma second_controller_only_when_stale:
  assumes "run_state (claim_controller cw takeover polls) s = (r, s')" "log_readable cw"
    "wv_actor (fold_workflow_events (ct_log s)) = Some (JStr other)" "other \<notin> {[], cw_actor cw}"
  shows "(case r of
       Inr _ \<Rightarrow> controller_is_stale (fold_workflow_events (ct_log s)) (cw_time cw) (POLL_INTERVAL_S * HEARTBEAT_STALE_MULT) = Inr True
          \<or> (takeover \<and> (\<exists>(t, v)\<in>set (take 5 polls). controller_is_stale v t (POLL_INTERVAL_S * HEARTBEAT_STALE_MULT) = Inr True))
     | Inl _ \<Rightarrow> ct_log s' = ct_log s)"
proof (cases "claim_verdict (cw_actor cw) (cw_time cw) takeover (fold_workflow_events (ct_log s)) polls")
  case (Inl e)
  then show ?thesis using assms(1) by (auto simp: claim_controller_def read_events_all [OF assms(2)])
next
  case (Inr ev)
  have r: "\<exists>ok. r = Inr ok" using assms(1) Inr by (auto simp: claim_controller_def read_events_all [OF assms(2)] split: prod.splits)
  show ?thesis
  proof (cases "controller_is_stale (fold_workflow_events (ct_log s)) (cw_time cw) (POLL_INTERVAL_S * HEARTBEAT_STALE_MULT)")
    case (Inr b)
    then show ?thesis
      using \<open>claim_verdict _ _ _ _ _ = Inr ev\<close> assms(3,4) r takeover_wait_stale
      by (cases b; cases takeover) (auto simp: claim_verdict_def split: sum.splits)
  qed (use Inr in \<open>simp add: claim_verdict_def\<close>)
qed

definition demo_claimed :: ctl_state where
  "demo_claimed = demo_ctl_state [wf_object (demo_ctl\<lparr>cw_actor := ''b''\<rparr>) ''controller_heartbeat'' ''20260101T000000000Z'' ''n'' []]"

lemma demo_claim: "wv_actor (fold_workflow_events (ct_log demo_claimed)) = Some (JStr ''b'')"
    "fst (run_state (claim_controller demo_ctl False []) demo_claimed) = Inl SecondController"
  by code_simp+

section \<open>What the code does not keep\<close>

definition demo_stage :: "string \<Rightarrow> job_stage" where
  "demo_stage n = (sample_stage n [])\<lparr>js_retry := \<lparr>rt_max_attempts = 3, rt_retry_on = [''infrastructure'']\<rparr>\<rparr>"

definition demo_flow :: workflow where
  "demo_flow = sample_workflow\<lparr>wf_stages := [demo_stage ''a'', demo_stage ''b'']\<rparr>"

definition demo_log :: "raw_object list" where
  "demo_log = [demo_event ''box_acquired'' [(''stage'', JStr ''a''), (''attempt'', JInt 0), (''instance_id'', JStr ''7'')],
     demo_event ''stage_submitted'' [(''stage'', JStr ''a''), (''attempt'', JInt 0), (''job_id'', JStr ''w1-0123abcd-a-a0'')]]"

text \<open>A cancelled job is a failure of the infrastructure, which the policy retries: after the operator's cancellation
  and after the one that an exhausted budget asks for, since no retry looks at either.\<close>

lemma cancelled_job_retried:
  assumes "jv_status jv = ''cancelled''" "may_retry st sv" "''infrastructure'' \<in> set (rt_retry_on (js_retry st))"
  shows "retry_or_fail cw wk st sv jid jv = plan_and_submit_stage cw wk st (attempt_of sv + 1)"
  using assms by (simp add: retry_or_fail_def classify_job_failure_def may_retry_def decide_retry_def Let_def)

text \<open>A box refused for its image is logged under the attempt being planned, which makes that attempt the current one
  with no status: the stage counts as ready again, and its first attempt is the one planned next.\<close>

lemma refused_box_restarts_stage:
  "let v = fold_workflow_events (demo_log @ [demo_event ''box_adopt_refused''
         [(''stage'', JStr ''a''), (''attempt'', JInt 1), (''instance_id'', JStr ''9''), (''image_state'', JStr ''stale'')]])
   in next_ready_stage demo_flow (fold_workflow_events demo_log) = Some ''b'' \<and> next_ready_stage demo_flow v = Some ''a'' \<and> active_stage demo_flow v = None"
  by code_simp

text \<open>A failed stage hides a later one that is still running, so that the workflow completes as failed under it.\<close>

lemma failed_stage_hides_running_one:
  "let v = fold_workflow_events [demo_event ''stage_failed'' [(''stage'', JStr ''a''), (''attempt'', JInt 0)],
          demo_event ''stage_started'' [(''stage'', JStr ''b''), (''attempt'', JInt 0), (''instance_id'', JStr ''8'')]]
   in active_stage demo_flow v = Some ''a'' \<and> next_ready_stage demo_flow v = None \<and> stage_status_of v ''b'' = Some ''stage_started''"
  by code_simp

text \<open>A listing that fails reads as an empty log.\<close>

lemma failed_listing_empty: "\<not> cw_list cw (bk_tick (ct_bucket s)) \<Longrightarrow> run_state (read_events cw) s = ([], ctl_tick s)"
  by (simp add: read_events_def Let_def)

text \<open>The box of an attempt that was replaced is no longer among those the workflow owns.\<close>

lemma earlier_attempt_disowned:
  "owned_instance_ids demo_ctl demo_log = [''7'']"
  "owned_instance_ids demo_ctl (demo_log @ [demo_event ''box_acquired'' [(''stage'', JStr ''a''), (''attempt'', JInt 1), (''instance_id'', JStr ''8'')]])
     = [''8'']"
  by code_simp+

end
