(* ===== verification/Salvage.thy ===== *)
theory Salvage
  imports RunFold "HOL-Library.AList"
begin

text \<open>
  Disk salvage of an evicted box (\<open>tools/vast/vastlib/boxes/salvage.py\<close>): the parsing of \<open>ls\<close>
  listings, what to copy, whether a copy landed, and the record that a tick advances through
  pending, copying and done.

  Sizes and steps are natural numbers. A dictionary keeps its insertion order (an association list
  updated in place). Transports answer through the record \<open>salv_world\<close>; the calls that change
  something outside are returned as a list. Detail texts are left out.
\<close>

section \<open>Outcomes and knobs\<close>

datatype salv_outcome =
    Salvaged | SalvagedPartial | SalvageUnverifiable | NothingNewer | NothingFound | DeadBoxGone
  | DestNotReady | CopyRefused | SalvageDisabled

definition loud :: "salv_outcome \<Rightarrow> bool" where
  "loud x \<longleftrightarrow> x \<notin> {Salvaged, NothingNewer, SalvageDisabled}"

definition SALVAGE_KEEP_N :: int where "SALVAGE_KEEP_N = 1"
definition SALVAGE_MAX_GB :: rat where "SALVAGE_MAX_GB = 12"
definition SALVAGE_DEADLINE_S :: rat where "SALVAGE_DEADLINE_S = 1800"
definition SALVAGE_DEST_WAIT_S :: rat where "SALVAGE_DEST_WAIT_S = 900"
definition SALVAGE_ROOT :: string where "SALVAGE_ROOT = ''/workspace/salvage''"
definition JOBS_ROOT :: string where "JOBS_ROOT = ''/workspace/jobs''"
definition DEST_READY_STATES :: "string list" where "DEST_READY_STATES = [''running'']"
definition DEST_FREE_MARGIN :: rat where "DEST_FREE_MARGIN = 12 / 10"

section \<open>Text\<close>

text \<open>\<open>str.splitlines\<close> (a carriage return and its line feed are one break), \<open>str.split\<close> and \<open>' '.join\<close>.\<close>

definition line_break :: "char \<Rightarrow> bool" where
  "line_break c = (let n = of_char c :: nat in n \<in> {10, 11, 12, 13, 28, 29, 30})"

fun splitlines :: "string \<Rightarrow> string \<Rightarrow> string list" where
  "splitlines cur [] = (if cur = [] then [] else [rev cur])"
| "splitlines cur (c # cs) =
     (if line_break c
      then rev cur # (case cs of d # ds \<Rightarrow> if c = CHR 0x0D \<and> d = CHR 0x0A then splitlines [] ds else splitlines [] cs | [] \<Rightarrow> [])
      else splitlines (c # cur) cs)"

definition lines_of :: "string \<Rightarrow> string list" where
  "lines_of s = splitlines [] s"

fun words_acc :: "string \<Rightarrow> string \<Rightarrow> string list" where
  "words_acc cur [] = (if cur = [] then [] else [rev cur])"
| "words_acc cur (c # cs) =
     (if py_isspace c then (if cur = [] then words_acc [] cs else rev cur # words_acc [] cs) else words_acc (c # cur) cs)"

definition words_of :: "string \<Rightarrow> string list" where
  "words_of s = words_acc [] s"

fun join_with :: "string \<Rightarrow> string list \<Rightarrow> string" where
  "join_with sep [] = []"
| "join_with sep [w] = w"
| "join_with sep (w # ws) = w @ sep @ join_with sep ws"

fun before_sub :: "string \<Rightarrow> string \<Rightarrow> string" where
  "before_sub sub [] = []"
| "before_sub sub (c # cs) = (if starts_with sub (c # cs) then [] else c # before_sub sub cs)"

definition rstrip_slash :: "string \<Rightarrow> string" where
  "rstrip_slash s = rev (dropWhile (\<lambda>c. c = CHR ''/'') (rev s))"

definition digits :: "string \<Rightarrow> bool" where
  "digits s \<longleftrightarrow> s \<noteq> [] \<and> list_all py_isdigit s"

section \<open>Listings\<close>

record ls_entry =
  le_name :: string
  le_size :: nat
  le_dir :: bool

definition mode_char :: "char \<Rightarrow> bool" where
  "mode_char c \<longleftrightarrow> c \<in> set ''rwxSsTt-''"

definition mode_word :: "string \<Rightarrow> bool" where
  "mode_word w \<longleftrightarrow> w \<noteq> [] \<and> hd w \<in> set ''-dlbcps'' \<and> list_all mode_char (take 9 (tl w))
     \<and> (length w = 10 \<or> (length w = 11 \<and> last w \<in> set ''+.@''))"

text \<open>The words of a line that the pattern of a listing entry accepts: mode, links, owner, group, size and the rest.\<close>

definition ls_line :: "string list \<Rightarrow> bool" where
  "ls_line ws \<longleftrightarrow> 5 < length ws \<and> mode_word (ws ! 0) \<and> digits (ws ! 1) \<and> digits (ws ! 4)"

definition ls_absent :: "string \<Rightarrow> bool" where
  "ls_absent line = list_ex (\<lambda>p. starts_with p line \<and> ends_with '': No such file or directory'' (drop (length p) line))
     [''ls: cannot access '', ''ls: cannot open directory '']"

definition iso_date :: "string \<Rightarrow> bool" where
  "iso_date w \<longleftrightarrow> length w = 10 \<and> w ! 4 = CHR ''-'' \<and> w ! 7 = CHR ''-'' \<and> list_all (\<lambda>i. py_isdigit (w ! i)) [0, 1, 2, 3, 5, 6, 8, 9]"

definition zone :: "string \<Rightarrow> bool" where
  "zone w \<longleftrightarrow> length w = 5 \<and> hd w \<in> set ''+-'' \<and> list_all py_isdigit (tl w)"

definition strip_ls_date :: "string list \<Rightarrow> string option" where
  "strip_ls_date ps =
     (if length ps < 4 then None
      else if iso_date (ps ! 0) then Some (join_with '' '' (drop (if zone (ps ! 2) then 3 else 2) ps))
      else Some (join_with '' '' (drop 3 ps)))"

text \<open>What one line adds: an entry or nothing, and how many lines it leaves unread or reports absent.\<close>

definition parse_line :: "string \<Rightarrow> ls_entry list \<times> nat \<times> nat" where
  "parse_line raw =
     (let line = py_strip raw; ws = words_of line
      in if line = [] then ([], 0, 0)
         else if starts_with ''total '' line \<and> digits (py_strip (drop 6 line)) then ([], 0, 0)
         else if \<not> ls_line ws then (if ls_absent line then ([], 0, 1) else ([], 1, 0))
         else (case strip_ls_date (drop 5 ws) of
                 None \<Rightarrow> ([], 1, 0)
               | Some name \<Rightarrow>
                   if name \<in> {''.'', ''..''} then ([], 0, 0)
                   else ([\<lparr>le_name = before_sub '' -> '' name, le_size = dflt 0 (parse_nat (ws ! 4)), le_dir = starts_with ''d'' line\<rparr>], 0, 0)))"

definition parse_ls_l_strict :: "string list \<Rightarrow> ls_entry list \<times> nat \<times> nat" where
  "parse_ls_l_strict lns =
     (let ps = map parse_line lns
      in (concat (map fst ps), sum_list (map (fst \<circ> snd) ps), sum_list (map (snd \<circ> snd) ps)))"

definition section_head :: "string \<Rightarrow> bool" where
  "section_head stripped \<longleftrightarrow> ends_with '':'' stripped \<and> \<not> ls_line (words_of stripped) \<and> \<not> ls_absent stripped
     \<and> (CHR ''/'' \<in> set stripped \<or> stripped \<in> {''.:'', ''..:''})"

type_synonym sections = "(string \<times> ls_entry list) list"

definition add_section :: "string \<Rightarrow> ls_entry list \<Rightarrow> sections \<Rightarrow> sections" where
  "add_section p es out = AList.update p (dflt [] (map_of out p) @ es) out"

text \<open>The lines of the current section are read when the next header, or the end, is reached.\<close>

fun parse_ls_lr_acc :: "sections \<Rightarrow> string \<Rightarrow> string list \<Rightarrow> nat \<Rightarrow> nat \<Rightarrow> string list \<Rightarrow> sections \<times> nat \<times> nat" where
  "parse_ls_lr_acc out cur buf res ab [] =
     (let (es, r, a) = parse_ls_l_strict (rev buf) in (add_section cur es out, res + r, ab + a))"
| "parse_ls_lr_acc out cur buf res ab (raw # lns) =
     (let s = py_strip raw
      in if section_head s
         then (let (es, r, a) = parse_ls_l_strict (rev buf)
               in parse_ls_lr_acc (add_section (butlast s) [] (add_section cur es out)) (butlast s) [] (res + r) (ab + a) lns)
         else parse_ls_lr_acc out cur (raw # buf) res ab lns)"

definition parse_ls_lr_strict :: "string \<Rightarrow> sections \<times> nat \<times> nat" where
  "parse_ls_lr_strict text =
     (let (out, r, a) = parse_ls_lr_acc [] [] [] 0 0 (lines_of text)
      in (filter (\<lambda>(k, v). k \<noteq> [] \<or> v \<noteq> []) out, r, a))"

section \<open>Checkpoints on a disk\<close>

record ckpt_dir =
  sk_name :: string
  sk_step :: nat
  sk_files :: "(string \<times> nat) list"

definition total_bytes :: "(string \<times> nat) list \<Rightarrow> nat" where
  "total_bytes fs = sum_list (map snd fs)"

definition sk_bytes :: "ckpt_dir \<Rightarrow> nat" where
  "sk_bytes c = total_bytes (sk_files c)"

definition checkpoint_step :: "string \<Rightarrow> nat option" where
  "checkpoint_step name =
     (let s = py_strip name in if starts_with ''checkpoint-'' s then parse_nat (drop 11 s) else None)"

text \<open>The last segment that names a checkpoint splits the path.\<close>

fun split_parts :: "string list \<Rightarrow> string list \<Rightarrow> (string list \<times> nat \<times> string list) option" where
  "split_parts [] after = None"
| "split_parts (p # rps) after =
     (case checkpoint_step p of Some n \<Rightarrow> Some (rev (p # rps), n, after) | None \<Rightarrow> split_parts rps (p # after))"

definition split_ckpt_rel :: "string \<Rightarrow> (string \<times> nat \<times> string) option" where
  "split_ckpt_rel rel =
     map_option (\<lambda>(h, n, t). (join_with ''/'' h, n, join_with ''/'' t))
       (split_parts (rev (filter (\<lambda>p. p \<noteq> []) (split_on CHR ''/'' rel))) [])"

definition sub_path :: "string \<Rightarrow> string \<Rightarrow> string" where
  "sub_path sub name = (if sub = [] then name else sub @ ''/'' @ name)"

definition add_files :: "string \<Rightarrow> ls_entry list \<Rightarrow> (string \<times> nat) list \<Rightarrow> (string \<times> nat) list" where
  "add_files sub es fs = foldl (\<lambda>fs e. if le_dir e then fs else AList.update (sub_path sub (le_name e)) (le_size e) fs) fs es"

definition add_ckpt :: "string \<Rightarrow> (string \<times> (nat \<times> (string \<times> nat) list)) list \<Rightarrow> string \<times> ls_entry list
    \<Rightarrow> (string \<times> (nat \<times> (string \<times> nat) list)) list" where
  "add_ckpt base ds s =
     (case s of (path, es) \<Rightarrow>
       let p = rstrip_slash path
       in if \<not> starts_with (base @ ''/'') p then ds
          else (case split_ckpt_rel (drop (length base + 1) p) of
                  None \<Rightarrow> ds
                | Some (h, n, sub) \<Rightarrow>
                    (let (n0, fs) = dflt (n, []) (map_of ds h) in AList.update h (n0, add_files sub es fs) ds)))"

definition ckpt_dirs_from_survey :: "sections \<Rightarrow> string \<Rightarrow> ckpt_dir list" where
  "ckpt_dirs_from_survey secs base =
     sort_key (\<lambda>c. - int (sk_step c))
       (map (\<lambda>(h, n, fs). \<lparr>sk_name = h, sk_step = n, sk_files = fs\<rparr>) (foldl (add_ckpt (rstrip_slash base)) [] secs))"

section \<open>What to copy\<close>

datatype salv_plan = PlanNothing | PlanRefuse nat | PlanCopy "ckpt_dir list"

text \<open>Bytes the bucket already holds, by checkpoint; \<open>None\<close> when it could not be read.\<close>

definition fresh_ckpts :: "(string \<Rightarrow> nat option) option \<Rightarrow> ckpt_dir list \<Rightarrow> ckpt_dir list" where
  "fresh_ckpts b2 cks = filter (\<lambda>c. case Option.bind b2 (\<lambda>f. f (sk_name c)) of None \<Rightarrow> True | Some n \<Rightarrow> n < sk_bytes c) cks"

definition plan_salvage :: "(string \<Rightarrow> nat option) option \<Rightarrow> int \<Rightarrow> rat \<Rightarrow> ckpt_dir list \<Rightarrow> salv_plan" where
  "plan_salvage b2 keep_n max_gb cks =
     (let fresh = fresh_ckpts b2 cks;
          pick = take (nat (max 1 keep_n)) fresh;
          total = sum_list (map sk_bytes pick)
      in if fresh = [] then PlanNothing
         else if (if 0 \<le> max_gb then \<lfloor>max_gb * 1000000000\<rfloor> else \<lceil>max_gb * 1000000000\<rceil>) < int total then PlanRefuse total
         else PlanCopy pick)"

datatype verify_status = VerifyOk | VerifyPartial | VerifyUnverifiable

record verification =
  vf_status :: verify_status
  vf_missing :: "string list"
  vf_short :: "string list"
  vf_seen :: nat

definition verify_salvage :: "(string \<times> nat) list \<Rightarrow> (string \<times> nat) list option \<Rightarrow> verification" where
  "verify_salvage want dst =
     (case dst of
        None \<Rightarrow> \<lparr>vf_status = VerifyUnverifiable, vf_missing = [], vf_short = [], vf_seen = 0\<rparr>
      | Some got \<Rightarrow>
         (let seen = sum_list (map (\<lambda>(k, v). min (dflt 0 (map_of got k)) v) want);
              missing = sort (map fst (filter (\<lambda>(k, v). map_of got k = None) want));
              short = sort (map fst (filter (\<lambda>(k, v). map_of got k \<notin> {None, Some v}) want))
          in if want = [] then \<lparr>vf_status = VerifyUnverifiable, vf_missing = [], vf_short = [], vf_seen = 0\<rparr>
             else if got = [] then \<lparr>vf_status = VerifyPartial, vf_missing = missing, vf_short = short, vf_seen = 0\<rparr>
             else if missing \<noteq> [] \<or> short \<noteq> [] then \<lparr>vf_status = VerifyPartial, vf_missing = missing, vf_short = short, vf_seen = seen\<rparr>
             else \<lparr>vf_status = VerifyOk, vf_missing = [], vf_short = [], vf_seen = seen\<rparr>))"

section \<open>Paths\<close>

definition rsplit_slash :: "string \<Rightarrow> string \<times> string" where
  "rsplit_slash s = (let b = rev (takeWhile (\<lambda>c. c \<noteq> CHR ''/'') (rev s)) in (take (length s - length b - 1) s, b))"

definition dest_path :: "string \<Rightarrow> string \<Rightarrow> string \<Rightarrow> bool \<Rightarrow> string" where
  "dest_path dead job name flat =
     (if flat
      then SALVAGE_ROOT @ ''-'' @ dead @ ''-'' @ map (\<lambda>c. if c = CHR ''/'' then CHR ''_'' else c) (job @ ''-'' @ name)
      else (let base = SALVAGE_ROOT @ ''/'' @ dead @ ''/'' @ job; parent = (if CHR ''/'' \<in> set name then fst (rsplit_slash name) else [])
            in if parent = [] then base else base @ ''/'' @ parent))"

definition landed_path :: "string \<Rightarrow> string \<Rightarrow> string" where
  "landed_path target name = rstrip_slash target @ ''/'' @ snd (rsplit_slash (rstrip_slash name))"

definition b2_salvage_prefix :: "string \<Rightarrow> string \<Rightarrow> string \<Rightarrow> string" where
  "b2_salvage_prefix job dead name = ''jobs/'' @ job @ ''/salvage/'' @ dead @ ''/'' @ name"

section \<open>The record\<close>

datatype item_status = Queued | Copying | ItemRefused | Verified

record salv_item =
  it_job :: string
  it_name :: string
  it_files :: "(string \<times> nat) list"
  it_status :: item_status
  it_dest :: string
  it_landed :: string
  it_verify :: "verify_status option"
  it_b2 :: "string option"

datatype salv_phase = SalvPending | SalvCopying | SalvDone

record salv_rec =
  sg_dead :: string
  sg_job :: "string option"
  sg_cands :: "string list"
  sg_dest :: "string option"
  sg_phase :: salv_phase
  sg_outcome :: "salv_outcome option"
  sg_items :: "salv_item list"
  sg_started :: rat
  sg_dest_deadline :: rat
  sg_deadline :: rat
  sg_keep_n :: int
  sg_max_gb :: rat
  sg_attempts :: nat
  sg_bytes :: nat

text \<open>A survey command is answered with its text, or not at all with what is said instead. \<open>vw_prepare\<close> and
  \<open>vw_push\<close> may be left out.\<close>

datatype answer = Answered string | Unanswered string

record salv_world =
  vw_now :: rat
  vw_exec :: "string \<Rightarrow> string \<Rightarrow> answer"
  vw_dest_exec :: "string \<Rightarrow> string \<Rightarrow> answer"
  vw_status :: "string \<Rightarrow> string option"
  vw_free :: "string \<Rightarrow> rat option"
  vw_b2 :: "(string \<Rightarrow> (string \<Rightarrow> nat option) option)"
  vw_prepare :: "(string \<Rightarrow> string list \<Rightarrow> bool) option"
  vw_copy :: "string \<Rightarrow> string \<Rightarrow> string \<Rightarrow> string \<Rightarrow> bool"
  vw_push :: "(string \<Rightarrow> string \<Rightarrow> string \<Rightarrow> bool) option"
  vw_dry :: bool

datatype salv_call =
    SalvCopy string string string string
  | SalvPush string string string

definition new_record :: "string \<Rightarrow> rat \<Rightarrow> string list \<Rightarrow> string option \<Rightarrow> int \<Rightarrow> rat \<Rightarrow> salv_rec" where
  "new_record dead now cands job keep_n max_gb =
     \<lparr>sg_dead = dead, sg_job = job, sg_cands = cands, sg_dest = None, sg_phase = SalvPending, sg_outcome = None, sg_items = [],
      sg_started = now, sg_dest_deadline = now + SALVAGE_DEST_WAIT_S, sg_deadline = now + SALVAGE_DEADLINE_S, sg_keep_n = keep_n, sg_max_gb = max_gb,
      sg_attempts = 0, sg_bytes = 0\<rparr>"

definition finish_salvage :: "salv_outcome \<Rightarrow> salv_rec \<Rightarrow> salv_rec" where
  "finish_salvage x r = r\<lparr>sg_phase := SalvDone, sg_outcome := Some x\<rparr>"

section \<open>Surveys\<close>

definition survey_is_fatal :: "string \<Rightarrow> bool" where
  "survey_is_fatal err = list_ex (\<lambda>t. contains t (py_lower err))
     [''404'', ''not_found'', ''not found'', ''no_such_instance'', ''instance not found'', ''invalid instance'']"

datatype survey = SurveyFailed bool | Surveyed "(string \<times> ckpt_dir list) list"

definition job_ids :: "string option \<Rightarrow> string \<Rightarrow> string list" where
  "job_ids only text =
     filter (\<lambda>j. only \<in> {None, Some j})
       (filter (\<lambda>l. l \<noteq> [] \<and> \<not> starts_with ''total '' l \<and> CHR ''/'' \<notin> set l \<and> \<not> ends_with '':'' l \<and> \<not> ls_absent l)
         (map py_strip (lines_of text)))"

definition work_root :: "string \<Rightarrow> string" where
  "work_root jid = JOBS_ROOT @ ''/'' @ jid @ ''/work''"

fun survey_jobs :: "(string \<Rightarrow> answer) \<Rightarrow> (string \<times> ckpt_dir list) list \<Rightarrow> string list \<Rightarrow> survey" where
  "survey_jobs exec out [] = Surveyed out"
| "survey_jobs exec out (j # js) =
     (case exec (''ls -lR '' @ work_root j) of
        Unanswered err \<Rightarrow> SurveyFailed (survey_is_fatal err)
      | Answered text \<Rightarrow>
         (let (secs, residual, _) = parse_ls_lr_strict text; ck = ckpt_dirs_from_survey secs (work_root j)
          in if 0 < residual then SurveyFailed False
             else survey_jobs exec (if ck = [] then out else AList.update j ck out) js))"

definition survey_dead_box :: "(string \<Rightarrow> answer) \<Rightarrow> string option \<Rightarrow> survey" where
  "survey_dead_box exec only =
     (case exec (''ls -1 '' @ JOBS_ROOT) of
        Unanswered err \<Rightarrow> SurveyFailed (survey_is_fatal err)
      | Answered text \<Rightarrow> survey_jobs exec [] (job_ids only text))"

definition dest_files :: "string \<Rightarrow> sections \<Rightarrow> (string \<times> nat) list" where
  "dest_files base secs =
     foldl (\<lambda>fs (p, es).
        let pp = rstrip_slash (if p = [] then base else p)
        in if pp \<noteq> base \<and> \<not> starts_with (base @ ''/'') pp then fs
           else add_files (dropWhile (\<lambda>c. c = CHR ''/'') (drop (length base) pp)) es fs) [] secs"

definition survey_dest_files :: "(string \<Rightarrow> answer) \<Rightarrow> string \<Rightarrow> (string \<times> nat) list option" where
  "survey_dest_files exec path =
     (case exec (''ls -lR '' @ path) of
        Unanswered _ \<Rightarrow> None
      | Answered text \<Rightarrow>
         (let (secs, residual, _) = parse_ls_lr_strict text
          in if 0 < residual then None else Some (dest_files (rstrip_slash path) secs)))"

definition pick_dest :: "string list \<Rightarrow> (string \<Rightarrow> string option) \<Rightarrow> (string \<Rightarrow> rat option) \<Rightarrow> nat \<Rightarrow> string option" where
  "pick_dest cands status free need_bytes =
     (let need = of_nat need_bytes / 1000000000 * DEST_FREE_MARGIN
      in find (\<lambda>c. status c \<in> Some ` set DEST_READY_STATES
            \<and> \<not> (case free c of Some have \<Rightarrow> need \<noteq> 0 \<and> have < need | None \<Rightarrow> False)) cands)"

section \<open>One step\<close>

definition new_item :: "string \<Rightarrow> ckpt_dir \<Rightarrow> salv_item" where
  "new_item jid c = \<lparr>it_job = jid, it_name = sk_name c, it_files = sk_files c, it_status = Queued, it_dest = [], it_landed = [],
     it_verify = None, it_b2 = None\<rparr>"

text \<open>The items planned over all jobs, or a plan over the size limit.\<close>

fun plan_jobs :: "(string \<Rightarrow> (string \<Rightarrow> nat option) option) \<Rightarrow> int \<Rightarrow> rat \<Rightarrow> (string \<times> ckpt_dir list) list \<Rightarrow> salv_item list option" where
  "plan_jobs b2 keep_n max_gb [] = Some []"
| "plan_jobs b2 keep_n max_gb ((j, cks) # js) =
     (case plan_salvage (b2 j) keep_n max_gb cks of
        PlanRefuse _ \<Rightarrow> None
      | PlanNothing \<Rightarrow> plan_jobs b2 keep_n max_gb js
      | PlanCopy pick \<Rightarrow> map_option (\<lambda>its. map (new_item j) pick @ its) (plan_jobs b2 keep_n max_gb js))"

definition place_item :: "string \<Rightarrow> bool \<Rightarrow> salv_item \<Rightarrow> salv_item" where
  "place_item dead nested it =
     (let d = dest_path dead (it_job it) (it_name it) (\<not> nested) in it\<lparr>it_dest := d, it_landed := landed_path d (it_name it)\<rparr>)"

definition item_source :: "salv_item \<Rightarrow> string" where
  "item_source it = work_root (it_job it) @ ''/'' @ it_name it"

definition start_copies :: "salv_world \<Rightarrow> string \<Rightarrow> string \<Rightarrow> salv_item list \<Rightarrow> salv_item list" where
  "start_copies w dead dest its =
     map (\<lambda>it. it\<lparr>it_status := (if vw_copy w dead (item_source it) dest (it_dest it) then Copying else ItemRefused)\<rparr>) its"

text \<open>With the items planned: find a destination, lay out the paths and start the copies.\<close>

definition start_salvage :: "salv_world \<Rightarrow> salv_rec \<Rightarrow> salv_rec \<times> salv_call list" where
  "start_salvage w r =
     (case pick_dest (sg_cands r) (vw_status w) (vw_free w) (sg_bytes r) of
        None \<Rightarrow> (if sg_dest_deadline r \<le> vw_now w then finish_salvage DestNotReady r else r\<lparr>sg_items := []\<rparr>, [])
      | Some dest \<Rightarrow>
         (let parents = sort (remdups (map (\<lambda>it. dest_path (sg_dead r) (it_job it) (it_name it) False) (sg_items r)));
              nested = (case vw_prepare w of None \<Rightarrow> False | Some prep \<Rightarrow> prep dest parents);
              placed = map (place_item (sg_dead r) nested) (sg_items r);
              its = start_copies w (sg_dead r) dest placed;
              r1 = r\<lparr>sg_dest := Some dest, sg_items := (if vw_dry w then placed else its)\<rparr>
          in if vw_dry w then (finish_salvage SalvageDisabled r1, [])
             else (if list_all (\<lambda>it. it_status it = ItemRefused) its then finish_salvage CopyRefused r1 else r1\<lparr>sg_phase := SalvCopying\<rparr>,
                   map (\<lambda>it. SalvCopy (sg_dead r) (item_source it) dest (it_dest it)) placed)))"

definition advance_pending :: "salv_world \<Rightarrow> salv_rec \<Rightarrow> salv_rec \<times> salv_call list" where
  "advance_pending w r =
     (case survey_dead_box (vw_exec w (sg_dead r)) (sg_job r) of
        SurveyFailed fatal \<Rightarrow>
          (if fatal then finish_salvage DeadBoxGone r
           else if sg_deadline r \<le> vw_now w then finish_salvage SalvageUnverifiable r else r, [])
      | Surveyed ckpts \<Rightarrow>
         if ckpts = [] then (finish_salvage NothingFound r, [])
         else (case plan_jobs (vw_b2 w) (sg_keep_n r) (sg_max_gb r) (sort_key fst ckpts) of
            None \<Rightarrow> (finish_salvage CopyRefused r, [])
          | Some its \<Rightarrow>
             (let r1 = r\<lparr>sg_items := its, sg_bytes := sum_list (map (total_bytes \<circ> it_files) its)\<rparr>
              in if its = [] then (finish_salvage NothingNewer r1, []) else start_salvage w r1)))"

text \<open>One item checked against the destination, with the push it leads to.\<close>

definition check_item :: "salv_world \<Rightarrow> string \<Rightarrow> string \<Rightarrow> salv_item \<Rightarrow> salv_item \<times> salv_call list" where
  "check_item w dead dest it =
     (if it_status it \<notin> {Copying, Queued} then (it, [])
      else (let path = (if it_landed it = [] then it_dest it else it_landed it);
                v = verify_salvage (it_files it) (survey_dest_files (vw_dest_exec w dest) path);
                it1 = it\<lparr>it_verify := Some (vf_status v)\<rparr>;
                prefix = b2_salvage_prefix (it_job it) dead (it_name it)
            in if vf_status v \<noteq> VerifyOk then (it1, [])
               else (case (vw_push w, vw_dry w) of
                       (Some push, False) \<Rightarrow>
                         (it1\<lparr>it_status := Verified, it_b2 := (if push dest path prefix then Some prefix else None)\<rparr>, [SalvPush dest path prefix])
                     | _ \<Rightarrow> (it1\<lparr>it_status := Verified\<rparr>, []))))"

definition advance_copying :: "salv_world \<Rightarrow> salv_rec \<Rightarrow> salv_rec \<times> salv_call list" where
  "advance_copying w r =
     (let cs = map (check_item w (sg_dead r) (dflt [] (sg_dest r))) (sg_items r);
          its = map fst cs; r1 = r\<lparr>sg_items := its\<rparr>
      in (if list_all (\<lambda>it. it_status it = Verified) its then finish_salvage Salvaged r1
          else if vw_now w < sg_deadline r then r1
          else finish_salvage (if list_all (\<lambda>it. it_verify it = Some VerifyUnverifiable) its then SalvageUnverifiable else SalvagedPartial) r1,
          concat (map snd cs)))"

definition advance :: "salv_world \<Rightarrow> salv_rec \<Rightarrow> salv_rec \<times> salv_call list" where
  "advance w r =
     (let r1 = r\<lparr>sg_attempts := sg_attempts r + 1\<rparr>
      in case sg_phase r of
           SalvDone \<Rightarrow> (r, [])
         | SalvPending \<Rightarrow> advance_pending w r1
         | SalvCopying \<Rightarrow> advance_copying w r1)"

text \<open>A tick after another, with the calls of each.\<close>

fun advance_all :: "salv_world list \<Rightarrow> salv_rec \<Rightarrow> salv_rec \<times> salv_call list list" where
  "advance_all [] r = (r, [])"
| "advance_all (w # ws) r = (case advance w r of (r1, c) \<Rightarrow> case advance_all ws r1 of (r2, cs) \<Rightarrow> (r2, c # cs))"

end
