(* ===== verification/Retention.thy ===== *)
theory Retention
  imports Salvage Replacement Handoff
begin

text \<open>
  What becomes of a box the jobs lane was evicted from (\<open>tools/vast/vastlib/supervise/retention.py\<close>): it is held for
  a window with its disk salvaged, kept asleep, and destroyed by a backstop once the window and its
  grace have passed.

  One \<open>ret_world\<close> holds what a tick sees and how the calls it makes are answered; the calls are
  returned in order. Journals and printed texts are left out; the label text and the revoked keys are
  those of the API helpers.
\<close>

section \<open>State\<close>

definition RETENTION_PARK_BID :: price where "RETENTION_PARK_BID = HANDOFF_PARK_BID"
definition RETENTION_BACKSTOP_GRACE_H :: hours where "RETENTION_BACKSTOP_GRACE_H = 1"
definition SALVAGE_DEFER_GRACE_S :: secs where "SALVAGE_DEFER_GRACE_S = 900"
definition RETENTION_REQUIESCE_MAX :: nat where "RETENTION_REQUIESCE_MAX = 3"

datatype quiesce_why = ForRetention | ForResurrection

text \<open>\<open>qz_errors\<close> names the moves that failed; \<open>DryRun\<close> when none was made.\<close>

datatype quiesce_error = StopFailed | PinFailed | DryRun

record quiesce =
  qz_stopped :: bool
  qz_pinned :: bool
  qz_prior :: "price option"
  qz_errors :: "quiesce_error list"
  qz_why :: quiesce_why

datatype held_status = Retained | Expired | Reaped | RetentionLost | Destroyed | DestroyFailed | GoneAlready

record live_note =
  lv_since :: secs
  lv_dph :: "price option"
  lv_cost :: "(price \<times> rat) option"

record held_box =
  hb_iid :: string
  hb_status :: held_status
  hb_retained :: secs
  hb_deadline :: "secs option"
  hb_storage_day :: "price option"
  hb_keep_labeled :: bool
  hb_quiesce :: "quiesce option"
  hb_salvage :: "salv_rec option"
  hb_live :: "live_note option"
  hb_resurrections :: nat
  hb_requiesces :: nat

text \<open>A row of the listing, and the answers of a tick.\<close>

record held_row =
  hr_status :: string
  hr_is_bid :: bool
  hr_dph :: "price option"
  hr_storage_day :: "price option"

record ret_world =
  rw_now :: secs
  rw_rows :: "(string \<times> held_row) list"
  rw_retention_h :: "hours option"
  rw_grace_h :: hours
  rw_dry :: bool
  rw_label :: "string \<Rightarrow> bool"
  rw_stop :: "string \<Rightarrow> bool"
  rw_pin :: "string \<Rightarrow> bool"
  rw_destroy :: "string \<Rightarrow> bool"
  rw_salvage_on :: bool
  rw_keep_n :: int
  rw_max_gb :: rat
  rw_salv :: salv_world

datatype ret_call =
    RetLabel string secs
  | RetStop string
  | RetPin string
  | RetDestroy string
  | RetSalvage salv_call

definition listed :: "ret_world \<Rightarrow> string \<Rightarrow> held_row option" where
  "listed w i = map_of (rev (rw_rows w)) i"

definition row_live :: "held_row \<Rightarrow> bool" where
  "row_live row \<longleftrightarrow> py_lower (hr_status row) \<in> LIVE_STATES"

section \<open>Salvage of a held box\<close>

definition salvage_dest_candidates :: "ret_world \<Rightarrow> string option \<Rightarrow> string \<Rightarrow> string list" where
  "salvage_dest_candidates w new old =
     foldl (\<lambda>cs (i, row). if i = old \<or> i \<in> set cs \<or> py_lower (hr_status row) \<noteq> ''running'' then cs else cs @ [i])
       (opt_list new) (rw_rows w)"

definition job_salvage_start :: "ret_world \<Rightarrow> string \<Rightarrow> string option \<Rightarrow> salv_rec option" where
  "job_salvage_start w old new =
     (if \<not> rw_salvage_on w then None
      else Some (new_record old (rw_now w) (salvage_dest_candidates w new old) None (rw_keep_n w) (rw_max_gb w)))"

text \<open>The statuses a salvage step sees are those of the same listing.\<close>

definition salv_view :: "ret_world \<Rightarrow> salv_world" where
  "salv_view w = (rw_salv w)\<lparr>vw_now := rw_now w, vw_status := (\<lambda>i. map_option (py_lower \<circ> hr_status) (listed w i)), vw_dry := rw_dry w\<rparr>"

definition job_salvage_step :: "ret_world \<Rightarrow> held_box \<Rightarrow> held_box \<times> ret_call list" where
  "job_salvage_step w r =
     (case hb_salvage r of
        None \<Rightarrow> (r, [])
      | Some s \<Rightarrow> if sg_phase s = SalvDone then (r, [])
                  else (let (s1, cs) = advance (salv_view w) s in (r\<lparr>hb_salvage := Some s1\<rparr>, map RetSalvage cs)))"

definition salvage_defer_until :: "salv_rec \<Rightarrow> secs" where
  "salvage_defer_until s =
     (if 0 < sg_deadline s then sg_deadline s else sg_started s + SALVAGE_DEADLINE_S) + SALVAGE_DEFER_GRACE_S"

section \<open>Quiescing\<close>

definition quiesce_box :: "ret_world \<Rightarrow> string \<Rightarrow> held_row option \<Rightarrow> quiesce_why \<Rightarrow> quiesce \<times> ret_call list" where
  "quiesce_box w i row why =
     (let is_bid = (case row of Some x \<Rightarrow> hr_is_bid x | None \<Rightarrow> False);
          prior = (case Option.bind row hr_dph of
                     Some p \<Rightarrow> if is_bid \<and> p \<noteq> 0 \<and> RETENTION_PARK_BID < p then Some p else None | None \<Rightarrow> None)
      in if rw_dry w then (\<lparr>qz_stopped = False, qz_pinned = False, qz_prior = prior, qz_errors = [DryRun], qz_why = why\<rparr>, [])
         else (\<lparr>qz_stopped = rw_stop w i, qz_pinned = (is_bid \<and> rw_pin w i), qz_prior = prior,
                qz_errors = (if rw_stop w i then [] else [StopFailed]) @ (if is_bid \<and> \<not> rw_pin w i then [PinFailed] else []),
                qz_why = why\<rparr>,
               RetStop i # (if is_bid then [RetPin i] else [])))"

section \<open>Retaining\<close>

definition retain_box :: "ret_world \<Rightarrow> string \<Rightarrow> string option \<Rightarrow> held_box \<times> ret_call list" where
  "retain_box w old new =
     (let row = listed w old;
          plan = retention_plan (rw_retention_h w) (row \<noteq> None) (rw_now w) (Option.bind row hr_storage_day);
          r = \<lparr>hb_iid = old, hb_status = GoneAlready, hb_retained = rw_now w, hb_deadline = rt_deadline_ts plan,
               hb_storage_day = Option.bind row hr_storage_day, hb_keep_labeled = False, hb_quiesce = None, hb_salvage = None,
               hb_live = None, hb_resurrections = 0, hb_requiesces = 0\<rparr>
      in case rt_action plan of
           AlreadyGone \<Rightarrow>
             (r\<lparr>hb_salvage := Some (finish_salvage DeadBoxGone (new_record old (rw_now w) [] None (rw_keep_n w) (rw_max_gb w)))\<rparr>, [])
         | DestroyNow \<Rightarrow> (r\<lparr>hb_status := (if rw_destroy w old then Destroyed else DestroyFailed)\<rparr>, [RetDestroy old])
         | Retain \<Rightarrow>
             (let dl = dflt 0 (rt_deadline_ts plan); (q, cs) = quiesce_box w old row ForRetention
              in (r\<lparr>hb_status := Retained, hb_keep_labeled := (\<not> rw_dry w \<and> rw_label w old), hb_quiesce := Some q,
                    hb_salvage := job_salvage_start w old new\<rparr>,
                  (if rw_dry w then [] else [RetLabel old dl]) @ cs)))"

section \<open>The sweep\<close>

text \<open>The ladder put this box to sleep itself.\<close>

definition quiesced_by_us :: "held_box \<Rightarrow> bool" where
  "quiesced_by_us r \<longleftrightarrow> (case hb_quiesce r of None \<Rightarrow> False | Some q \<Rightarrow> qz_stopped q \<or> qz_pinned q \<or> qz_errors q \<noteq> [])"

definition retry_quiesce :: "held_box \<Rightarrow> bool" where
  "retry_quiesce r \<longleftrightarrow> (case hb_quiesce r of None \<Rightarrow> False
     | Some q \<Rightarrow> quiesced_by_us r \<and> qz_errors q \<noteq> [] \<and> qz_why q = ForResurrection \<and> hb_requiesces r < RETENTION_REQUIESCE_MAX)"

definition retention_liveness :: "ret_world \<Rightarrow> held_row \<Rightarrow> held_box \<Rightarrow> held_box \<times> ret_call list" where
  "retention_liveness w row r =
     (if \<not> row_live row then (r\<lparr>hb_live := None\<rparr>, [])
      else (let first = (hb_live r = None);
                since = (case hb_live r of None \<Rightarrow> rw_now w | Some l \<Rightarrow> lv_since l);
                r1 = r\<lparr>hb_live := Some \<lparr>lv_since = since, lv_dph = hr_dph row,
                          lv_cost = retention_live_cost (hr_dph row) (Some (rw_now w - (if since = 0 then rw_now w else since))) (hb_storage_day r)\<rparr>,
                       hb_resurrections := (if first then hb_resurrections r + 1 else hb_resurrections r)\<rparr>
            in if \<not> (first \<or> retry_quiesce r) then (r1, [])
               else if quiesced_by_us r \<and> hb_requiesces r < RETENTION_REQUIESCE_MAX
               then (let (q, cs) = quiesce_box w (hb_iid r) (Some row) ForResurrection
                     in (r1\<lparr>hb_requiesces := hb_requiesces r + 1, hb_quiesce := Some q\<rparr>, cs))
               else (r1, [])))"

definition salvage_in_flight :: "ret_world \<Rightarrow> held_box \<Rightarrow> bool" where
  "salvage_in_flight w r \<longleftrightarrow>
     (case hb_salvage r of None \<Rightarrow> False | Some s \<Rightarrow> sg_phase s \<noteq> SalvDone \<and> rw_now w < salvage_defer_until s)"

definition sweep_held :: "ret_world \<Rightarrow> held_box \<Rightarrow> held_box \<times> ret_call list" where
  "sweep_held w r =
     (if hb_status r \<notin> {Retained, Expired} then (r, [])
      else (let dl = dflt 0 (hb_deadline r)
            in case listed w (hb_iid r) of
                 None \<Rightarrow> (r\<lparr>hb_status := (if dl \<le> rw_now w then Reaped else RetentionLost)\<rparr>, [])
               | Some row \<Rightarrow>
                   (let (r1, cs) = retention_liveness w row r
                    in if rw_now w < dl then (r1, cs)
                       else (let r2 = r1\<lparr>hb_status := Expired\<rparr>
                             in if row_live row \<or> salvage_in_flight w r2 \<or> rw_now w < dl + rw_grace_h w * 3600 \<or> rw_dry w then (r2, cs)
                                else (r2\<lparr>hb_status := (if rw_destroy w (hb_iid r) then Destroyed else DestroyFailed)\<rparr>,
                                      cs @ [RetDestroy (hb_iid r)])))))"

text \<open>Every salvage advances first, whatever its box has come to.\<close>

definition retention_sweep :: "ret_world \<Rightarrow> held_box list \<Rightarrow> held_box list \<times> ret_call list" where
  "retention_sweep w rs =
     (let ss = map (job_salvage_step w) rs; ts = map (sweep_held w) (map fst ss)
      in (map fst ts, concat (map snd ss) @ concat (map snd ts)))"

fun sweeps :: "ret_world list \<Rightarrow> held_box list \<Rightarrow> held_box list \<times> ret_call list" where
  "sweeps [] rs = (rs, [])"
| "sweeps (w # ws) rs = (case retention_sweep w rs of (rs1, c1) \<Rightarrow> case sweeps ws rs1 of (rs2, c2) \<Rightarrow> (rs2, c1 @ c2))"

end
