(* ===== verification/SalvageSafety.thy ===== *)
theory SalvageSafety
  imports Retention
begin

text \<open>
  What a salvage may claim and when it ends; what the retention of a lost box may do to it and how long
  it may last.
\<close>

section \<open>Verification\<close>

lemma verify_ok_iff:
  "vf_status (verify_salvage want (Some got)) = VerifyOk \<longleftrightarrow> want \<noteq> [] \<and> (\<forall>(k, v)\<in>set want. map_of got k = Some v)"
proof -
  have e: "(filter P xs = []) = (\<forall>x\<in>set xs. \<not> P x)" for P :: "string \<times> nat \<Rightarrow> bool" and xs by (simp add: filter_empty_conv)
  have s: "sort ys = [] \<longleftrightarrow> ys = []" for ys :: "string list" by (metis set_sort set_empty)
  show ?thesis
    by (cases got; cases want) (auto simp: verify_salvage_def Let_def e s split: if_splits)
qed

lemma verify_ok_read: "vf_status (verify_salvage want dst) = VerifyOk \<Longrightarrow> \<exists>got. dst = Some got"
  by (cases dst) (simp_all add: verify_salvage_def)

section \<open>The plan\<close>

lemma fresh_sub: "set (fresh_ckpts b2 cks) \<subseteq> set cks"
  by (auto simp: fresh_ckpts_def)

lemma plan_copy:
  assumes "plan_salvage b2 keep_n max_gb cks = PlanCopy pick"
  shows "pick = take (nat (max 1 keep_n)) (fresh_ckpts b2 cks)" "pick \<noteq> []" "set pick \<subseteq> set cks"
proof -
  show p: "pick = take (nat (max 1 keep_n)) (fresh_ckpts b2 cks)" and n: "pick \<noteq> []"
    using assms by (auto simp: plan_salvage_def Let_def split: if_splits)
  show "set pick \<subseteq> set cks" using set_take_subset [of "nat (max 1 keep_n)" "fresh_ckpts b2 cks"] fresh_sub p by fast
qed

lemma plan_jobs_items:
  "plan_jobs b2 keep_n max_gb js = Some its \<Longrightarrow> it \<in> set its
    \<Longrightarrow> \<exists>cks ck. (it_job it, cks) \<in> set js \<and> ck \<in> set cks \<and> it = new_item (it_job it) ck"
proof (induction js arbitrary: its)
  case (Cons x js)
  obtain j cks where x: "x = (j, cks)" by force
  show ?case
  proof (cases "plan_salvage (b2 j) keep_n max_gb cks")
    case PlanNothing
    then show ?thesis using Cons x by fastforce
  next
    case (PlanRefuse n)
    then show ?thesis using Cons x by simp
  next
    case (PlanCopy pick)
    then obtain its1 where its: "plan_jobs b2 keep_n max_gb js = Some its1" "its = map (new_item j) pick @ its1"
      using Cons.prems(1) x by auto
    consider (here) ck where "ck \<in> set pick" "it = new_item j ck" | (later) "it \<in> set its1"
      using Cons.prems(2) its(2) by auto
    then show ?thesis
    proof cases
      case here
      then have "ck \<in> set cks" "it_job it = j" using plan_copy(3) [OF PlanCopy] by (auto simp: new_item_def)
      then show ?thesis using here(2) x by auto
    next
      case later
      then show ?thesis using Cons.IH [OF its(1)] by fastforce
    qed
  qed
qed simp

section \<open>A salvaged checkpoint was read on both disks\<close>

definition on_dead_disk :: "salv_world \<Rightarrow> string \<Rightarrow> string option \<Rightarrow> salv_item \<Rightarrow> bool" where
  "on_dead_disk w dead only it \<longleftrightarrow>
     (\<exists>js cks ck. survey_dead_box (vw_exec w dead) only = Surveyed js \<and> (it_job it, cks) \<in> set js \<and> ck \<in> set cks
        \<and> sk_name ck = it_name it \<and> sk_files ck = it_files it)"

definition on_dest_disk :: "salv_world \<Rightarrow> string \<Rightarrow> salv_item \<Rightarrow> bool" where
  "on_dest_disk w dest it \<longleftrightarrow> it_files it \<noteq> []
     \<and> (\<exists>got. survey_dest_files (vw_dest_exec w dest) (it_landed it) = Some got \<and> (\<forall>(k, v)\<in>set (it_files it). map_of got k = Some v))"

definition item_ok :: "salv_world set \<Rightarrow> salv_rec \<Rightarrow> salv_item \<Rightarrow> bool" where
  "item_ok ws r it \<longleftrightarrow> it_landed it \<noteq> [] \<and> (\<exists>w\<in>ws. on_dead_disk w (sg_dead r) (sg_job r) it)
     \<and> (it_status it = Verified \<longrightarrow> (\<exists>w\<in>ws. on_dest_disk w (dflt [] (sg_dest r)) it))"

definition salv_inv :: "salv_world set \<Rightarrow> salv_rec \<Rightarrow> bool" where
  "salv_inv ws r \<longleftrightarrow>
     (case sg_phase r of
        SalvPending \<Rightarrow> sg_items r = [] \<and> sg_outcome r = None
      | SalvCopying \<Rightarrow> sg_outcome r = None \<and> sg_items r \<noteq> [] \<and> sg_dest r \<noteq> None \<and> (\<forall>it\<in>set (sg_items r). item_ok ws r it)
      | SalvDone \<Rightarrow> sg_outcome r = Some Salvaged \<longrightarrow> sg_items r \<noteq> [] \<and> sg_dest r \<noteq> None
          \<and> (\<forall>it\<in>set (sg_items r). item_ok ws r it \<and> it_status it = Verified))"

text \<open>Where an item is copied to, and what became of it, says nothing of what was found on the dead disk.\<close>

lemma on_dead_disk_frame [simp]:
  "on_dead_disk w d j (it\<lparr>it_status := a\<rparr>) = on_dead_disk w d j it"
  "on_dead_disk w d j (it\<lparr>it_verify := b\<rparr>) = on_dead_disk w d j it"
  "on_dead_disk w d j (it\<lparr>it_b2 := c\<rparr>) = on_dead_disk w d j it"
  "on_dead_disk w d j (it\<lparr>it_dest := e, it_landed := f\<rparr>) = on_dead_disk w d j it"
  by (simp_all add: on_dead_disk_def)

lemma landed_nonempty [simp]: "landed_path d n \<noteq> []"
  by (simp add: landed_path_def)

lemma item_ok_mono: "item_ok ws r it \<Longrightarrow> ws \<subseteq> ws' \<Longrightarrow> item_ok ws' r it"
  by (auto simp: item_ok_def)

lemma salv_inv_mono: "salv_inv ws r \<Longrightarrow> ws \<subseteq> ws' \<Longrightarrow> salv_inv ws' r"
  by (auto simp: salv_inv_def split: salv_phase.splits intro: item_ok_mono)

lemma finish_inv: "x \<noteq> Salvaged \<Longrightarrow> salv_inv ws (finish_salvage x r)"
  by (simp add: salv_inv_def finish_salvage_def)

lemma start_inv:
  assumes "\<forall>it\<in>set (sg_items r). on_dead_disk w (sg_dead r) (sg_job r) it \<and> it_status it = Queued"
    "sg_items r \<noteq> []" "sg_outcome r = None" "sg_phase r = SalvPending"
  shows "salv_inv {w} (fst (start_salvage w r))"
proof (cases "pick_dest (sg_cands r) (vw_status w) (vw_free w) (sg_bytes r)")
  case None
  then show ?thesis using assms(3,4) by (simp add: start_salvage_def finish_inv) (simp add: salv_inv_def)
next
  case (Some dest)
  let ?nested = "case vw_prepare w of None \<Rightarrow> False
    | Some prep \<Rightarrow> prep dest (sort (remdups (map (\<lambda>it. dest_path (sg_dead r) (it_job it) (it_name it) False) (sg_items r))))"
  let ?its = "start_copies w (sg_dead r) dest (map (place_item (sg_dead r) ?nested) (sg_items r))"
  let ?r = "r\<lparr>sg_dest := Some dest, sg_items := ?its\<rparr>"
  have "item_ok {w} (?r\<lparr>sg_phase := SalvCopying\<rparr>) it" if mem: "it \<in> set ?its" for it
  proof -
    obtain it0 st where it0: "it0 \<in> set (sg_items r)" and st: "st \<noteq> Verified"
        and e: "it = (place_item (sg_dead r) ?nested it0)\<lparr>it_status := st\<rparr>"
      using mem by (fastforce simp: start_copies_def split: if_splits)
    then show ?thesis using assms(1) by (simp add: item_ok_def place_item_def Let_def)
  qed
  then have "salv_inv {w} (?r\<lparr>sg_phase := SalvCopying\<rparr>)"
    using assms(2,3) by (simp add: salv_inv_def start_copies_def)
  then show ?thesis using Some by (simp add: start_salvage_def Let_def finish_inv)
qed

lemma pending_inv:
  assumes "salv_inv ws r" "sg_phase r = SalvPending"
  shows "salv_inv {w} (fst (advance_pending w r))"
proof -
  have r: "sg_items r = []" "sg_outcome r = None" using assms by (simp_all add: salv_inv_def)
  have self: "salv_inv {w} r" using r assms(2) by (simp add: salv_inv_def)
  show ?thesis
  proof (cases "survey_dead_box (vw_exec w (sg_dead r)) (sg_job r)")
    case (SurveyFailed x1)
    then show ?thesis using self by (simp add: advance_pending_def finish_inv)
  next
    case (Surveyed js)
    show ?thesis
    proof (cases "plan_jobs (vw_b2 w) (sg_keep_n r) (sg_max_gb r) (sort_key fst js)")
      case None
      then show ?thesis using Surveyed by (simp add: advance_pending_def finish_inv)
    next
      case (Some its)
      have "on_dead_disk w (sg_dead r) (sg_job r) it \<and> it_status it = Queued" if it: "it \<in> set its" for it
      proof -
        obtain cks ck where c: "(it_job it, cks) \<in> set js" "ck \<in> set cks" "it = new_item (it_job it) ck"
          using plan_jobs_items [OF Some it] by auto
        then have "sk_name ck = it_name it" "sk_files ck = it_files it" "it_status it = Queued"
          by (metis new_item_def salv_item.select_convs)+
        then show ?thesis using c Surveyed by (auto simp: on_dead_disk_def)
      qed
      then show ?thesis
        using Surveyed Some r assms(2) by (simp add: advance_pending_def Let_def finish_inv start_inv)
    qed
  qed
qed

lemma check_item_ok:
  assumes "item_ok ws r it" "sg_dest r = Some dest"
  shows "item_ok (insert w ws) r (fst (check_item w dead dest it))"
proof (cases "it_status it \<in> {Copying, Queued} \<and> vf_status (verify_salvage (it_files it) (survey_dest_files (vw_dest_exec w dest) (it_landed it))) = VerifyOk")
  case True
  let ?v = "verify_salvage (it_files it) (survey_dest_files (vw_dest_exec w dest) (it_landed it))"
  have l: "it_landed it \<noteq> []" using assms(1) by (simp add: item_ok_def)
  obtain got where g: "survey_dest_files (vw_dest_exec w dest) (it_landed it) = Some got" using True verify_ok_read by blast
  then have "on_dest_disk w dest it" using True verify_ok_iff [of "it_files it" got] by (simp add: on_dest_disk_def)
  moreover have "on_dead_disk x d j (it\<lparr>it_verify := a, it_status := b, it_b2 := c\<rparr>) = on_dead_disk x d j it"
      "on_dest_disk x d (it\<lparr>it_verify := a, it_status := b, it_b2 := c\<rparr>) = on_dest_disk x d it" for x d j a b c
    by (simp_all add: on_dead_disk_def on_dest_disk_def)
  moreover have "on_dead_disk x d j (it\<lparr>it_verify := a, it_status := b\<rparr>) = on_dead_disk x d j it"
      "on_dest_disk x d (it\<lparr>it_verify := a, it_status := b\<rparr>) = on_dest_disk x d it" for x d j a b
    by (simp_all add: on_dead_disk_def on_dest_disk_def)
  ultimately show ?thesis
    using True l assms by (auto simp: check_item_def Let_def item_ok_def split: option.split bool.split)
next
  case False
  have "on_dead_disk x d j (it\<lparr>it_verify := a\<rparr>) = on_dead_disk x d j it" "on_dest_disk x d (it\<lparr>it_verify := a\<rparr>) = on_dest_disk x d it" for x d j a
    by (simp_all add: on_dead_disk_def on_dest_disk_def)
  then show ?thesis
    using False assms(1) by (auto simp: check_item_def Let_def item_ok_def)
qed

lemma copying_inv:
  assumes "salv_inv ws r" "sg_phase r = SalvCopying"
  shows "salv_inv (insert w ws) (fst (advance_copying w r))"
proof -
  obtain dest where d: "sg_dest r = Some dest" "sg_outcome r = None" "sg_items r \<noteq> []" "\<forall>it\<in>set (sg_items r). item_ok ws r it"
    using assms by (auto simp: salv_inv_def)
  let ?its = "map fst (map (check_item w (sg_dead r) dest) (sg_items r))"
  let ?r = "r\<lparr>sg_items := ?its\<rparr>"
  have "\<forall>it\<in>set ?its. item_ok (insert w ws) ?r it"
    using d(1,4) check_item_ok [of ws r _ dest w "sg_dead r"] by (auto simp: item_ok_def)
  moreover have "salv_inv ws' (finish_salvage Salvaged ?r)" if "\<forall>it\<in>set ?its. item_ok ws' ?r it \<and> it_status it = Verified" for ws'
    using that d(1,3) by (auto simp: salv_inv_def finish_salvage_def item_ok_def)
  ultimately show ?thesis
    using d assms(2) by (auto simp: advance_copying_def Let_def finish_inv list_all_iff) (auto simp: salv_inv_def)
qed

lemma advance_inv: "salv_inv ws r \<Longrightarrow> salv_inv (insert w ws) (fst (advance w r))"
proof (cases "sg_phase r")
  case SalvPending
  assume i: "salv_inv ws r"
  have "salv_inv {w} (fst (advance_pending w (r\<lparr>sg_attempts := sg_attempts r + 1\<rparr>)))"
    by (rule pending_inv [where ws = ws]) (use i SalvPending in \<open>simp_all add: salv_inv_def\<close>)
  then show ?thesis using SalvPending by (auto simp: advance_def Let_def intro: salv_inv_mono)
next
  case SalvCopying
  assume i: "salv_inv ws r"
  have "salv_inv (insert w ws) (fst (advance_copying w (r\<lparr>sg_attempts := sg_attempts r + 1\<rparr>)))"
    by (rule copying_inv) (use i SalvCopying in \<open>simp_all add: salv_inv_def item_ok_def\<close>)
  then show ?thesis using SalvCopying by (simp add: advance_def Let_def)
next
  case SalvDone
  assume "salv_inv ws r"
  then show ?thesis using SalvDone by (auto simp: advance_def Let_def intro: salv_inv_mono)
qed

text \<open>What a record is about, and its deadlines, never change.\<close>

lemma check_item_static [simp]:
  "it_job (fst (check_item w d e it)) = it_job it" "it_name (fst (check_item w d e it)) = it_name it"
  "it_files (fst (check_item w d e it)) = it_files it"
  by (simp_all add: check_item_def Let_def split: option.split bool.split)

definition static_of :: "salv_rec \<Rightarrow> string \<times> string option \<times> rat \<times> rat \<times> rat" where
  "static_of r = (sg_dead r, sg_job r, sg_started r, sg_deadline r, sg_dest_deadline r)"

lemma advance_static: "static_of (fst (advance w r)) = static_of r"
  by (auto simp: static_of_def advance_def advance_pending_def advance_copying_def start_salvage_def finish_salvage_def Let_def
      split: salv_phase.split survey.split option.split)

lemma advance_all_Cons [simp]: "fst (advance_all (w # ws) r) = fst (advance_all ws (fst (advance w r)))"
  by (simp split: prod.split)

lemma advance_all_static: "static_of (fst (advance_all ws r)) = static_of r"
proof (induction ws arbitrary: r)
  case (Cons w ws)
  show ?case using Cons [of "fst (advance w r)"] by (simp del: advance_all.simps add: advance_static)
qed simp

lemma advance_all_inv: "salv_inv ws0 r \<Longrightarrow> salv_inv (ws0 \<union> set ws) (fst (advance_all ws r))"
proof (induction ws arbitrary: r ws0)
  case (Cons w ws)
  have "salv_inv (insert w ws0) (fst (advance w r))" by (rule advance_inv [OF Cons.prems])
  from Cons.IH [OF this] show ?case by (simp del: advance_all.simps)
qed simp

lemma new_record_inv: "salv_inv {} (new_record dead now cands job keep_n max_gb)"
  by (simp add: salv_inv_def new_record_def)

text \<open>C12. A salvage that reports its checkpoints salvaged was told so by both disks: it has a destination and at least one
  checkpoint, and every checkpoint it lists was found, with exactly these files and sizes, by a survey of the dead box, and every
  one of its files was found at its full size by a survey of the destination. No copy that was accepted, started or timed out
  counts.\<close>

theorem salvaged_means_verified:
  assumes "advance_all ws (new_record dead now cands job keep_n max_gb) = (r, calls)" "sg_outcome r = Some Salvaged"
  shows "\<exists>dest. sg_dest r = Some dest \<and> sg_items r \<noteq> []
     \<and> (\<forall>it\<in>set (sg_items r). (\<exists>w\<in>set ws. on_dead_disk w dead job it) \<and> (\<exists>w\<in>set ws. on_dest_disk w dest it))"
proof -
  let ?r0 = "new_record dead now cands job keep_n max_gb"
  have i: "salv_inv (set ws) r" using advance_all_inv [OF new_record_inv, of ws dead now cands job keep_n max_gb] assms(1) by simp
  have st: "sg_dead r = dead" "sg_job r = job"
    using advance_all_static [of ws ?r0] assms(1) by (simp_all add: static_of_def new_record_def)
  show ?thesis
    using i assms(2) by (cases "sg_phase r") (auto simp: salv_inv_def item_ok_def st)
qed

section \<open>A salvage ends\<close>

definition phase_rank :: "salv_rec \<Rightarrow> nat" where
  "phase_rank r = (case sg_phase r of SalvPending \<Rightarrow> 2 | SalvCopying \<Rightarrow> 1 | SalvDone \<Rightarrow> 0)"

definition overdue :: "salv_rec \<Rightarrow> salv_world \<Rightarrow> bool" where
  "overdue r w \<longleftrightarrow> sg_deadline r \<le> vw_now w \<and> sg_dest_deadline r \<le> vw_now w"

lemma rank_finish [simp]: "phase_rank (finish_salvage x r) = 0"
  by (simp add: phase_rank_def finish_salvage_def)

lemma advance_rank: "phase_rank (fst (advance w r)) \<le> phase_rank r - (if overdue r w then 1 else 0)"
proof (cases "sg_phase r")
  case SalvPending
  then have r: "phase_rank r = 2" by (simp add: phase_rank_def)
  have s: "phase_rank (fst (start_salvage w x)) \<le> (if sg_dest_deadline x \<le> vw_now w then 1 else 2)" if "sg_phase x = SalvPending" for x
    using that by (auto simp: start_salvage_def Let_def split: option.split) (auto simp: phase_rank_def)
  have p: "phase_rank x = 2" if "sg_phase x = SalvPending" for x using that by (simp add: phase_rank_def)
  have s1: "phase_rank (fst (start_salvage w x)) \<le> Suc 0" if "sg_phase x = SalvPending" "sg_dest_deadline x \<le> vw_now w" for x
    using s [OF that(1)] that(2) by simp
  have s2: "phase_rank (fst (start_salvage w x)) \<le> 2" if "sg_phase x = SalvPending" for x
    using s [OF that] by (simp split: if_splits)
  show ?thesis
    using SalvPending r
    by (simp add: s1 s2 advance_def advance_pending_def overdue_def Let_def p split: survey.split option.split)
next
  case SalvCopying
  then have r: "phase_rank r = 1" by (simp add: phase_rank_def)
  have p: "phase_rank x = 1" if "sg_phase x = SalvCopying" for x using that by (simp add: phase_rank_def)
  show ?thesis using SalvCopying r by (auto simp: advance_def advance_copying_def overdue_def Let_def p)
next
  case SalvDone
  then show ?thesis by (simp add: advance_def Let_def phase_rank_def)
qed

lemma overdue_static: "static_of r = static_of s \<Longrightarrow> overdue r = overdue s"
  by (simp add: static_of_def overdue_def fun_eq_iff)

lemma advance_all_rank: "phase_rank (fst (advance_all ws r)) \<le> phase_rank r - length (filter (overdue r) ws)"
proof (induction ws arbitrary: r)
  case (Cons w ws)
  have "overdue (fst (advance w r)) = overdue r" by (rule overdue_static [OF advance_static])
  then show ?case using Cons [of "fst (advance w r)"] advance_rank [of w r]
    by (simp del: advance_all.simps split: if_splits)
qed simp

text \<open>C13. A salvage ends. Whatever the disks, the copies and the transports do, a salvage that was advanced on two ticks at least
  half an hour after it started is done.\<close>

theorem salvage_ends:
  assumes "advance_all ws (new_record dead now cands job keep_n max_gb) = (r, calls)"
    "2 \<le> length (filter (\<lambda>w. now + SALVAGE_DEADLINE_S \<le> vw_now w) ws)"
  shows "sg_phase r = SalvDone"
proof -
  let ?r0 = "new_record dead now cands job keep_n max_gb"
  have "overdue ?r0 = (\<lambda>w. now + SALVAGE_DEADLINE_S \<le> vw_now w)"
    by (auto simp: fun_eq_iff overdue_def new_record_def SALVAGE_DEADLINE_S_def SALVAGE_DEST_WAIT_S_def)
  moreover have "phase_rank ?r0 = 2" by (simp add: phase_rank_def new_record_def)
  ultimately have "phase_rank r = 0" using advance_all_rank [of ws ?r0] assms by simp
  then show ?thesis by (simp add: phase_rank_def split: salv_phase.splits)
qed

section \<open>What goes to the bucket\<close>

lemma start_no_push: "SalvPush a b c \<notin> set (snd (start_salvage w r))"
  by (auto simp: start_salvage_def Let_def split: option.split)

text \<open>Only bytes that were read back are pushed: in a step that pushes, the record was copying to the box the push reads from,
  the step may act, and the destination, listed in the same step at the pushed path, held every file of that checkpoint at its full size;
  the bucket prefix is the one of the job, the dead box and the checkpoint.\<close>

lemma only_verified_bytes_pushed:
  assumes "SalvPush dest path prefix \<in> set (snd (advance w r))"
  shows "\<not> vw_dry w \<and> dest = dflt [] (sg_dest r)
     \<and> (\<exists>it\<in>set (sg_items r). \<exists>got. survey_dest_files (vw_dest_exec w dest) path = Some got \<and> it_files it \<noteq> []
          \<and> (\<forall>(k, v)\<in>set (it_files it). map_of got k = Some v)
          \<and> path = (if it_landed it = [] then it_dest it else it_landed it)
          \<and> prefix = ''jobs/'' @ it_job it @ ''/salvage/'' @ sg_dead r @ ''/'' @ it_name it)"
proof (cases "sg_phase r")
  case SalvPending
  then show ?thesis using assms start_no_push
    by (auto simp: advance_def advance_pending_def Let_def split: survey.splits option.splits if_splits)
next
  case SalvCopying
  obtain it where it: "it \<in> set (sg_items r)" "SalvPush dest path prefix \<in> set (snd (check_item w (sg_dead r) (dflt [] (sg_dest r)) it))"
    using assms SalvCopying by (auto simp: advance_def advance_copying_def Let_def)
  then have p: "path = (if it_landed it = [] then it_dest it else it_landed it)" "prefix = b2_salvage_prefix (it_job it) (sg_dead r) (it_name it)"
      and d: "dest = dflt [] (sg_dest r)" "\<not> vw_dry w"
      and v: "vf_status (verify_salvage (it_files it) (survey_dest_files (vw_dest_exec w dest) path)) = VerifyOk"
    by (auto simp: check_item_def Let_def split: if_splits option.splits bool.splits)
  obtain got where g: "survey_dest_files (vw_dest_exec w dest) path = Some got" using verify_ok_read [OF v] by blast
  have "it_files it \<noteq> [] \<and> (\<forall>(k, v)\<in>set (it_files it). map_of got k = Some v)"
    using v g verify_ok_iff [of "it_files it" got] by simp
  then show ?thesis using it(1) p d g by (auto simp: b2_salvage_prefix_def intro!: bexI [of _ it])
next
  case SalvDone
  then show ?thesis using assms by (simp add: advance_def Let_def)
qed

section \<open>What is copied\<close>

lemma sorted_disk: "sorted (map (\<lambda>c. - int (sk_step c)) (ckpt_dirs_from_survey secs base))"
  by (simp only: ckpt_dirs_from_survey_def sorted_sort_key)

lemma sorted_filter_key: "sorted (map f xs) \<Longrightarrow> sorted (map f (filter P xs))"
  by (induction xs) auto

lemma sorted_take_drop:
  assumes "sorted (map f xs)" "x \<in> set xs" "x \<notin> set (take n xs)" "y \<in> set (take n xs)"
  shows "f y \<le> f x"
proof -
  have "x \<in> set (drop n xs)" using assms(2,3) set_append [of "take n xs" "drop n xs"] by (simp add: append_take_drop_id)
  moreover have "sorted (map f (take n xs) @ map f (drop n xs))" using assms(1) by (simp flip: map_append)
  ultimately show ?thesis using assms(4) by (auto simp: sorted_append)
qed

lemma trunc_bound: "int n \<le> (if 0 \<le> g then \<lfloor>g\<rfloor> else \<lceil>g\<rceil>) \<Longrightarrow> of_nat n \<le> max 0 (g :: rat)"
proof (cases "0 \<le> g")
  case True
  assume "int n \<le> (if 0 \<le> g then \<lfloor>g\<rfloor> else \<lceil>g\<rceil>)"
  then show ?thesis using True by (simp add: le_floor_iff)
next
  case False
  assume "int n \<le> (if 0 \<le> g then \<lfloor>g\<rfloor> else \<lceil>g\<rceil>)"
  then have "int n \<le> \<lceil>g\<rceil>" using False by simp
  also have "\<lceil>g\<rceil> \<le> 0" using False by (simp add: ceiling_le_iff)
  finally have "n = 0" by simp
  then show ?thesis by simp
qed

text \<open>C14. What a salvage copies is right: at most the configured number of checkpoints of the disk (and at least one), together within
  the size limit, none of them already held in full by the bucket, and no checkpoint that the bucket lacks has a later step than a
  chosen one and was left behind.\<close>

theorem salvage_copies_the_newest:
  assumes "plan_salvage b2 keep_n max_gb (ckpt_dirs_from_survey secs base) = PlanCopy pick"
  shows "pick \<noteq> [] \<and> int (length pick) \<le> max 1 keep_n \<and> of_nat (sum_list (map sk_bytes pick)) \<le> max 0 (max_gb * 1000000000)
    \<and> (\<forall>c\<in>set pick. c \<in> set (ckpt_dirs_from_survey secs base)
        \<and> (case Option.bind b2 (\<lambda>f. f (sk_name c)) of None \<Rightarrow> True | Some n \<Rightarrow> n < sk_bytes c))
    \<and> (\<forall>c\<in>set (fresh_ckpts b2 (ckpt_dirs_from_survey secs base)). c \<in> set pick \<or> (\<forall>p\<in>set pick. sk_step c \<le> sk_step p))"
proof -
  let ?d = "ckpt_dirs_from_survey secs base" and ?k = "\<lambda>c. - int (sk_step c)"
  note pc = plan_copy [OF assms]
  have total: "of_nat (sum_list (map sk_bytes pick)) \<le> max 0 (max_gb * 1000000000)"
    by (rule trunc_bound) (use assms in \<open>auto simp: plan_salvage_def Let_def not_less split: if_splits\<close>)
  have srt: "sorted (map ?k (fresh_ckpts b2 ?d))"
    unfolding fresh_ckpts_def by (rule sorted_filter_key [OF sorted_disk])
  have new: "\<forall>c\<in>set (fresh_ckpts b2 ?d). c \<in> set pick \<or> (\<forall>p\<in>set pick. sk_step c \<le> sk_step p)"
  proof (intro ballI disjCI)
    fix c p
    assume c: "c \<in> set (fresh_ckpts b2 ?d)" and out: "\<not> (\<forall>p\<in>set pick. sk_step c \<le> sk_step p)"
    then obtain p where p: "p \<in> set pick" "\<not> sk_step c \<le> sk_step p" by blast
    show "c \<in> set pick"
    proof (rule ccontr)
      assume "c \<notin> set pick"
      then have "?k p \<le> ?k c" using sorted_take_drop [OF srt c, of "nat (max 1 keep_n)" p] p(1) pc(1) by simp
      then show False using p(2) by simp
    qed
  qed
  have sub: "set pick \<subseteq> set (fresh_ckpts b2 ?d)" using pc(1) set_take_subset by fast
  have "length pick \<le> nat (max 1 keep_n)" using pc(1) by simp
  then have len: "int (length pick) \<le> max 1 keep_n" by linarith
  have "\<forall>c\<in>set pick. c \<in> set ?d \<and> (case Option.bind b2 (\<lambda>f. f (sk_name c)) of None \<Rightarrow> True | Some n \<Rightarrow> n < sk_bytes c)"
    using sub by (auto simp: fresh_ckpts_def)
  then show ?thesis using pc(2) len total new by simp
qed

section \<open>A held box\<close>

definition open_held :: "held_box \<Rightarrow> bool" where
  "open_held r \<longleftrightarrow> hb_status r \<in> {Retained, Expired}"

text \<open>The deadlines of its salvage included, what a held box is never changes.\<close>

definition held_static :: "held_box \<Rightarrow> string \<times> secs option \<times> secs option" where
  "held_static r = (hb_iid r, hb_deadline r, map_option salvage_defer_until (hb_salvage r))"

lemma salvage_step_frame [simp]:
  "hb_iid (fst (job_salvage_step w r)) = hb_iid r" "hb_status (fst (job_salvage_step w r)) = hb_status r"
  "hb_deadline (fst (job_salvage_step w r)) = hb_deadline r" "hb_requiesces (fst (job_salvage_step w r)) = hb_requiesces r"
  by (simp_all add: job_salvage_step_def Let_def split: option.split prod.split)

lemma salvage_step_static: "held_static (fst (job_salvage_step w r)) = held_static r"
proof (cases "hb_salvage r")
  case (Some s)
  have "salvage_defer_until (fst (advance (salv_view w) s)) = salvage_defer_until s"
    using advance_static [of "salv_view w" s] by (simp add: static_of_def salvage_defer_until_def)
  moreover obtain s1 cs where "advance (salv_view w) s = (s1, cs)" by force
  ultimately show ?thesis using Some by (simp add: job_salvage_step_def held_static_def)
qed (simp add: job_salvage_step_def)

lemma salvage_step_calls: "set (snd (job_salvage_step w r)) \<subseteq> range RetSalvage"
  by (auto simp: job_salvage_step_def Let_def split: option.split prod.split)

lemma quiesce_calls: "set (snd (quiesce_box w i row y)) \<subseteq> {RetStop i, RetPin i}"
  by (auto simp: quiesce_box_def Let_def)

lemma liveness_frame [simp]:
  "hb_iid (fst (retention_liveness w row r)) = hb_iid r" "hb_status (fst (retention_liveness w row r)) = hb_status r"
  "hb_deadline (fst (retention_liveness w row r)) = hb_deadline r" "hb_salvage (fst (retention_liveness w row r)) = hb_salvage r"
  by (simp_all add: retention_liveness_def Let_def split: prod.split)

lemma liveness_calls: "set (snd (retention_liveness w row r)) \<subseteq> {RetStop (hb_iid r), RetPin (hb_iid r)}"
  using quiesce_calls [of w "hb_iid r" "Some row" ForResurrection]
  by (auto simp: retention_liveness_def Let_def split: prod.split)

lemma sweep_held_static: "held_static (fst (sweep_held w r)) = held_static r"
  by (simp add: sweep_held_def held_static_def Let_def split: option.split prod.split) (metis fst_conv liveness_frame)

lemma sweep_held_destroys:
  assumes "RetDestroy i \<in> set (snd (sweep_held w r))"
  shows "hb_iid r = i" "open_held r" "\<exists>row. listed w i = Some row \<and> \<not> row_live row"
    "dflt 0 (hb_deadline r) \<le> rw_now w" "dflt 0 (hb_deadline r) + rw_grace_h w * 3600 \<le> rw_now w" "\<not> rw_dry w"
    "\<not> salvage_in_flight w r" "hb_status (fst (sweep_held w r)) \<in> {Destroyed, DestroyFailed}"
proof -
  have o: "open_held r" and n: "listed w (hb_iid r) \<noteq> None"
    using assms by (auto simp: sweep_held_def open_held_def Let_def split: if_splits option.splits)
  then obtain row where row: "listed w (hb_iid r) = Some row" by auto
  obtain r1 cs where l: "retention_liveness w row r = (r1, cs)" by force
  have r1: "hb_salvage r1 = hb_salvage r" using liveness_frame(4) [of w row r] l by simp
  have "RetDestroy i \<notin> set cs" using liveness_calls [of w row r] l by auto
  then show "hb_iid r = i" "open_held r" "\<exists>row. listed w i = Some row \<and> \<not> row_live row"
    "dflt 0 (hb_deadline r) \<le> rw_now w" "dflt 0 (hb_deadline r) + rw_grace_h w * 3600 \<le> rw_now w" "\<not> rw_dry w"
    "\<not> salvage_in_flight w r" "hb_status (fst (sweep_held w r)) \<in> {Destroyed, DestroyFailed}"
    using assms o row l r1
    by (auto simp: sweep_held_def open_held_def salvage_in_flight_def Let_def split: if_splits)
qed

lemma sweep_calls:
  "c \<in> set (snd (retention_sweep w rs)) \<Longrightarrow> c \<in> range RetSalvage
     \<or> (\<exists>r\<in>set rs. c \<in> set (snd (sweep_held w (fst (job_salvage_step w r)))))"
  using salvage_step_calls by (auto simp: retention_sweep_def Let_def)

text \<open>C15. A held box is destroyed by the backstop only: its hold is open, the listing shows it and shows it asleep, its
  window and the grace after it have passed, the sweep may act, and the salvage of its disk, as just advanced, is over or has
  outlived its own deadline and the time allowed after that.\<close>

theorem held_box_destroyed_only_after_window:
  assumes "RetDestroy i \<in> set (snd (retention_sweep w rs))"
  shows "\<exists>r\<in>set rs. hb_iid r = i \<and> open_held r \<and> (\<exists>row. listed w i = Some row \<and> \<not> row_live row)
     \<and> dflt 0 (hb_deadline r) \<le> rw_now w \<and> dflt 0 (hb_deadline r) + rw_grace_h w * 3600 \<le> rw_now w \<and> \<not> rw_dry w
     \<and> (case hb_salvage (fst (job_salvage_step w r)) of None \<Rightarrow> True
          | Some s \<Rightarrow> sg_phase s = SalvDone \<or> salvage_defer_until s \<le> rw_now w)"
proof -
  obtain r where r: "r \<in> set rs" "RetDestroy i \<in> set (snd (sweep_held w (fst (job_salvage_step w r))))"
    using sweep_calls [OF assms] by auto
  note d = sweep_held_destroys [OF r(2)]
  show ?thesis
    using r(1) d(1-6) d(7) by (auto simp: open_held_def salvage_in_flight_def not_less split: option.splits intro!: bexI [of _ r])
qed

section \<open>Bounds\<close>

lemma count_concat: "length (filter P (concat (map f xs))) = sum_list (map (\<lambda>x. length (filter P (f x))) xs)"
  by (induction xs) simp_all

lemma sweeps_potential:
  assumes salv: "\<And>w r. filter P (snd (job_salvage_step w r)) = [] \<and> pot (fst (job_salvage_step w r)) = pot r"
    and one: "\<And>w r. length (filter P (snd (sweep_held w r))) + pot (fst (sweep_held w r)) \<le> (pot r :: nat)"
  shows "length (filter P (snd (sweeps ws rs))) + sum_list (map pot (fst (sweeps ws rs))) \<le> sum_list (map pot rs)"
proof (induction ws arbitrary: rs)
  case (Cons w ws)
  have "length (filter P (snd (retention_sweep w rs))) + sum_list (map pot (fst (retention_sweep w rs))) \<le> sum_list (map pot rs)"
  proof (induction rs)
    case (Cons r rs)
    then show ?case
      using salv [of w r] one [of w "fst (job_salvage_step w r)"] by (simp add: retention_sweep_def Let_def count_concat)
  qed (simp add: retention_sweep_def)
  moreover obtain rs1 c1 rs2 c2 where "retention_sweep w rs = (rs1, c1)" "sweeps ws rs1 = (rs2, c2)" by (metis surj_pair)
  ultimately show ?case using Cons.IH [of rs1] by simp
qed simp

lemma salvage_no_stop:
  "filter (\<lambda>c. c = RetStop i) (snd (job_salvage_step w r)) = []" "filter (\<lambda>c. c = RetDestroy i) (snd (job_salvage_step w r)) = []"
  using salvage_step_calls [of w r] by (auto simp: filter_empty_conv)

lemma quiesce_stops: "length (filter (\<lambda>c. c = RetStop i) (snd (quiesce_box w j row y))) \<le> (if j = i then 1 else 0)"
  by (auto simp: quiesce_box_def Let_def)

lemma liveness_stops:
  "length (filter (\<lambda>c. c = RetStop i) (snd (retention_liveness w row r)))
     + (if hb_iid r = i then RETENTION_REQUIESCE_MAX - hb_requiesces (fst (retention_liveness w row r)) else 0)
   \<le> (if hb_iid r = i then RETENTION_REQUIESCE_MAX - hb_requiesces r else 0)"
proof -
  obtain q cs where q: "quiesce_box w (hb_iid r) (Some row) ForResurrection = (q, cs)" by force
  then show ?thesis using quiesce_stops [of i w "hb_iid r" "Some row" ForResurrection]
    by (auto simp: retention_liveness_def Let_def)
qed

lemma sweep_held_closed: "\<not> open_held r \<Longrightarrow> sweep_held w r = (r, [])"
  by (simp add: sweep_held_def open_held_def)

lemma sweep_held_row:
  assumes "listed w (hb_iid r) = Some row" "retention_liveness w row r = (r1, cs)" "open_held r"
  shows "snd (sweep_held w r) \<in> {cs, cs @ [RetDestroy (hb_iid r)]}" "hb_requiesces (fst (sweep_held w r)) = hb_requiesces r1"
    "hb_iid (fst (sweep_held w r)) = hb_iid r"
  using assms liveness_frame(1) [of w row r] by (auto simp: sweep_held_def open_held_def Let_def)

lemma sweep_held_stops:
  "length (filter (\<lambda>c. c = RetStop i) (snd (sweep_held w r)))
     + (if hb_iid (fst (sweep_held w r)) = i then RETENTION_REQUIESCE_MAX - hb_requiesces (fst (sweep_held w r)) else 0)
   \<le> (if hb_iid r = i then RETENTION_REQUIESCE_MAX - hb_requiesces r else 0)"
proof (cases "listed w (hb_iid r) = None \<or> \<not> open_held r")
  case True
  then show ?thesis
  proof
    assume "listed w (hb_iid r) = None"
    then have "snd (sweep_held w r) = []" "hb_iid (fst (sweep_held w r)) = hb_iid r" "hb_requiesces (fst (sweep_held w r)) = hb_requiesces r"
      by (simp_all add: sweep_held_def Let_def)
    then show ?thesis by simp
  qed (simp add: sweep_held_closed)
next
  case False
  then obtain row where row: "listed w (hb_iid r) = Some row" and o: "open_held r" by auto
  obtain r1 cs where l: "retention_liveness w row r = (r1, cs)" by force
  note s = sweep_held_row [OF row l o]
  have "length (filter (\<lambda>c. c = RetStop i) (snd (sweep_held w r))) = length (filter (\<lambda>c. c = RetStop i) cs)" using s(1) by auto
  moreover have "length (filter (\<lambda>c. c = RetStop i) cs) + (if hb_iid r = i then RETENTION_REQUIESCE_MAX - hb_requiesces r1 else 0)
      \<le> (if hb_iid r = i then RETENTION_REQUIESCE_MAX - hb_requiesces r else 0)"
    using liveness_stops [of i w row r] by (simp only: l fst_conv snd_conv)
  ultimately show ?thesis by (simp only: s(2,3))
qed

lemma sweep_held_destroy_once:
  "length (filter (\<lambda>c. c = RetDestroy i) (snd (sweep_held w r))) + (if hb_iid (fst (sweep_held w r)) = i \<and> open_held (fst (sweep_held w r)) then 1 else 0)
   \<le> (if hb_iid r = i \<and> open_held r then 1 else 0)"
proof (cases "open_held r")
  case True
  show ?thesis
  proof (cases "listed w (hb_iid r)")
    case None
    then show ?thesis using True by (simp add: sweep_held_def open_held_def Let_def)
  next
    case (Some row)
    obtain r1 cs where l: "retention_liveness w row r = (r1, cs)" by force
    have n: "filter (\<lambda>c. c = RetDestroy i) cs = []" using liveness_calls [of w row r] l by (auto simp: filter_empty_conv)
    have "hb_iid r1 = hb_iid r" using liveness_frame(1) [of w row r] l by simp
    then show ?thesis using True Some l n by (simp add: sweep_held_def open_held_def Let_def)
  qed
qed (simp add: sweep_held_closed)

text \<open>C16. The ladder never fights a box it cannot put to sleep: over any number of sweeps, starting from holds that were never
  quiesced again, a box is stopped at most three times per hold, and a destroy of it is called at most once per hold.\<close>

theorem held_box_calls_bounded:
  assumes "\<forall>r\<in>set rs. hb_requiesces r = 0"
  shows "length (filter (\<lambda>c. c = RetStop i) (snd (sweeps ws rs))) \<le> RETENTION_REQUIESCE_MAX * length (filter (\<lambda>r. hb_iid r = i) rs)
     \<and> length (filter (\<lambda>c. c = RetDestroy i) (snd (sweeps ws rs))) \<le> length (filter (\<lambda>r. hb_iid r = i) rs)"
proof
  let ?stop = "\<lambda>r. if hb_iid r = i then RETENTION_REQUIESCE_MAX - hb_requiesces r else 0"
  have "length (filter (\<lambda>c. c = RetStop i) (snd (sweeps ws rs))) + sum_list (map ?stop (fst (sweeps ws rs))) \<le> sum_list (map ?stop rs)"
    by (rule sweeps_potential) (simp_all add: salvage_no_stop sweep_held_stops)
  also have "sum_list (map ?stop rs) \<le> RETENTION_REQUIESCE_MAX * length (filter (\<lambda>r. hb_iid r = i) rs)"
    by (induction rs) (auto intro!: add_mono)
  finally show "length (filter (\<lambda>c. c = RetStop i) (snd (sweeps ws rs))) \<le> RETENTION_REQUIESCE_MAX * length (filter (\<lambda>r. hb_iid r = i) rs)"
    by simp
  let ?open = "\<lambda>r. if hb_iid r = i \<and> open_held r then 1 else 0 :: nat"
  have "length (filter (\<lambda>c. c = RetDestroy i) (snd (sweeps ws rs))) + sum_list (map ?open (fst (sweeps ws rs))) \<le> sum_list (map ?open rs)"
    by (rule sweeps_potential) (simp add: salvage_no_stop open_held_def, rule sweep_held_destroy_once)
  also have "sum_list (map ?open rs) \<le> length (filter (\<lambda>r. hb_iid r = i) rs)" by (induction rs) simp_all
  finally show "length (filter (\<lambda>c. c = RetDestroy i) (snd (sweeps ws rs))) \<le> length (filter (\<lambda>r. hb_iid r = i) rs)" by simp
qed

section \<open>A hold ends\<close>

text \<open>Nothing holds a box on this sweep but the box itself, the caller, its window or its salvage.\<close>

definition held_for_a_reason :: "ret_world \<Rightarrow> held_box \<Rightarrow> bool" where
  "held_for_a_reason w r \<longleftrightarrow> (\<exists>row. listed w (hb_iid r) = Some row \<and>
     (row_live row \<or> rw_dry w \<or> rw_now w < dflt 0 (hb_deadline r) \<or> rw_now w < dflt 0 (hb_deadline r) + rw_grace_h w * 3600
      \<or> (\<exists>s. hb_salvage r = Some s \<and> rw_now w < salvage_defer_until s)))"

lemma sweep_held_open:
  assumes "open_held (fst (sweep_held w r))"
  shows "open_held r \<and> held_for_a_reason w r"
proof -
  have o: "open_held r" using assms sweep_held_closed [of r w] by (cases "open_held r") simp_all
  show ?thesis
  proof (cases "listed w (hb_iid r)")
    case None
    then show ?thesis using assms o by (simp add: sweep_held_def open_held_def Let_def split: if_splits)
  next
    case (Some row)
    obtain r1 cs where l: "retention_liveness w row r = (r1, cs)" by force
    have r1: "hb_salvage r1 = hb_salvage r" using liveness_frame(4) [of w row r] l by simp
    show ?thesis
      using assms o Some l r1
      by (auto simp: sweep_held_def open_held_def held_for_a_reason_def salvage_in_flight_def Let_def split: if_splits option.splits)
  qed
qed

lemma reason_static: "held_static r = held_static s \<Longrightarrow> held_for_a_reason w r = held_for_a_reason w s"
  by (cases "hb_salvage r"; cases "hb_salvage s") (auto simp: held_for_a_reason_def held_static_def)

lemma sweep_open:
  assumes "r \<in> set (fst (retention_sweep w rs))" "open_held r"
  shows "\<exists>r0\<in>set rs. held_static r0 = held_static r \<and> open_held r0 \<and> held_for_a_reason w r"
proof -
  obtain r0 where r0: "r0 \<in> set rs" "r = fst (sweep_held w (fst (job_salvage_step w r0)))"
    using assms(1) by (auto simp: retention_sweep_def Let_def)
  let ?m = "fst (job_salvage_step w r0)"
  have s: "held_static r = held_static ?m" "held_static ?m = held_static r0" using r0(2) sweep_held_static salvage_step_static by simp_all
  have "open_held ?m" "held_for_a_reason w ?m" using sweep_held_open [of w ?m] assms(2) r0(2) by simp_all
  then show ?thesis using r0(1) s reason_static [OF s(1), of w] by (auto simp: open_held_def intro!: bexI [of _ r0])
qed

lemma sweeps_open:
  "r \<in> set (fst (sweeps ws rs)) \<Longrightarrow> open_held r \<Longrightarrow> \<exists>r0\<in>set rs. held_static r0 = held_static r \<and> open_held r0"
proof (induction ws arbitrary: rs)
  case (Cons w ws)
  obtain rs1 c1 rs2 c2 where e: "retention_sweep w rs = (rs1, c1)" "sweeps ws rs1 = (rs2, c2)" by (metis surj_pair)
  have "r \<in> set (fst (sweeps ws rs1))" using Cons.prems(1) e by simp
  from Cons.IH [OF this Cons.prems(2)] obtain r1 where r1: "r1 \<in> set rs1" "held_static r1 = held_static r" "open_held r1" by blast
  then show ?case using sweep_open [of r1 w rs] e(1) by auto
qed auto

text \<open>C17. A hold does not outlive its reasons: a box whose hold is still open after a number of sweeps was, at every one of
  them, listed and either awake, or within its window or its grace, or within the time its salvage may take, or the sweep was told
  to change nothing. A box that vanished, or that sleeps past all of these, is let go by the first sweep that sees it.\<close>

theorem hold_ends:
  assumes "r \<in> set (fst (sweeps ws rs))" "open_held r" "w \<in> set ws"
  shows "held_for_a_reason w r"
  using assms
proof (induction ws arbitrary: rs)
  case (Cons v ws)
  obtain rs1 c1 rs2 c2 where e: "retention_sweep v rs = (rs1, c1)" "sweeps ws rs1 = (rs2, c2)" by (metis surj_pair)
  have r: "r \<in> set (fst (sweeps ws rs1))" using Cons.prems(1) e by simp
  obtain r1 where r1: "r1 \<in> set rs1" "held_static r1 = held_static r" "open_held r1"
    using sweeps_open [OF r Cons.prems(2)] by blast
  have "held_for_a_reason v r1" using sweep_open [of r1 v rs] r1 e(1) by auto
  then show ?case using Cons.IH [OF r Cons.prems(2)] Cons.prems(3) reason_static [OF r1(2)] by auto
qed simp

section \<open>Concrete runs\<close>

text \<open>One job with one checkpoint of one file, on a box that is read back on the box that takes it.\<close>

definition demo_listing :: "string \<Rightarrow> string" where
  "demo_listing d = d @ '':'' @ [CHR 0x0A] @ ''-rw-r--r-- 1 a a 3 Jan 1 10:00 f'' @ [CHR 0x0A]"

definition demo_world :: "rat \<Rightarrow> salv_world" where
  "demo_world t = \<lparr>vw_now = t,
     vw_exec = (\<lambda>i c. if c = ''ls -1 /workspace/jobs'' then Answered ''j'' else Answered (demo_listing ''/workspace/jobs/j/work/checkpoint-5'')),
     vw_dest_exec = (\<lambda>i c. Answered (demo_listing ''/workspace/salvage-7-j-checkpoint-5/checkpoint-5'')),
     vw_status = (\<lambda>i. Some ''running''), vw_free = (\<lambda>i. None), vw_b2 = (\<lambda>j. None), vw_prepare = None,
     vw_copy = (\<lambda>a b c d. True), vw_push = Some (\<lambda>a b c. True), vw_dry = False\<rparr>"

definition demo_copying :: salv_rec where
  "demo_copying = \<lparr>sg_dead = ''7'', sg_job = None, sg_cands = [''8''], sg_dest = Some ''8'', sg_phase = SalvCopying, sg_outcome = None,
     sg_items = [\<lparr>it_job = ''j'', it_name = ''checkpoint-5'', it_files = [(''f'', 3)], it_status = Copying,
        it_dest = ''/workspace/salvage-7-j-checkpoint-5'', it_landed = ''/workspace/salvage-7-j-checkpoint-5/checkpoint-5'',
        it_verify = None, it_b2 = None\<rparr>],
     sg_started = 0, sg_dest_deadline = 900, sg_deadline = 1800, sg_keep_n = 1, sg_max_gb = 12, sg_attempts = 1, sg_bytes = 3\<rparr>"

lemma demo_starts: "fst (advance (demo_world 60) (new_record ''7'' 0 [''8''] None 1 12)) = demo_copying"
  by code_simp

lemma demo_finishes:
  "(case advance (demo_world 120) demo_copying of (r, cs) \<Rightarrow> (sg_outcome r, cs))
     = (Some Salvaged, [SalvPush ''8'' ''/workspace/salvage-7-j-checkpoint-5/checkpoint-5'' ''jobs/j/salvage/7/checkpoint-5''])"
  by code_simp

lemma demo_salvaged: "sg_outcome (fst (advance_all [demo_world 60, demo_world 120] (new_record ''7'' 0 [''8''] None 1 12))) = Some Salvaged"
  using demo_starts demo_finishes by (simp del: advance_all.simps(2) split: prod.split_asm)

theorem salvaged_means_verified_witness:
  "\<exists>dest. sg_dest (fst (advance_all [demo_world 60, demo_world 120] (new_record ''7'' 0 [''8''] None 1 12))) = Some dest
     \<and> sg_items (fst (advance_all [demo_world 60, demo_world 120] (new_record ''7'' 0 [''8''] None 1 12))) \<noteq> []"
  using salvaged_means_verified [OF prod.collapse [symmetric] demo_salvaged] by blast

theorem salvage_ends_witness:
  "sg_phase (fst (advance_all [demo_world 60, demo_world 1800, demo_world 1900] (new_record ''7'' 0 [] None 1 12))) = SalvDone"
  by (rule salvage_ends [OF prod.collapse [symmetric]]) (simp add: demo_world_def SALVAGE_DEADLINE_S_def)

theorem salvage_copies_the_newest_witness:
  "\<exists>pick. plan_salvage None 1 12 (ckpt_dirs_from_survey [(''b/checkpoint-3'', [\<lparr>le_name = ''f'', le_size = 1, le_dir = False\<rparr>]),
      (''b/checkpoint-5'', [\<lparr>le_name = ''f'', le_size = 2, le_dir = False\<rparr>])] ''b'') = PlanCopy pick
    \<and> pick \<noteq> [] \<and> int (length pick) \<le> 1"
proof -
  let ?d = "ckpt_dirs_from_survey [(''b/checkpoint-3'', [\<lparr>le_name = ''f'', le_size = 1, le_dir = False\<rparr>]),
      (''b/checkpoint-5'', [\<lparr>le_name = ''f'', le_size = 2, le_dir = False\<rparr>])] ''b''"
  have p: "plan_salvage None 1 12 ?d = PlanCopy [\<lparr>sk_name = ''checkpoint-5'', sk_step = 5, sk_files = [(''f'', 2)]\<rparr>]" by code_simp
  from salvage_copies_the_newest [OF p] show ?thesis using p by auto
qed

text \<open>A box held since the start whose window ended at one hour, seen asleep after three.\<close>

definition demo_held :: held_box where
  "demo_held = \<lparr>hb_iid = ''7'', hb_status = Retained, hb_retained = 0, hb_deadline = Some 3600, hb_storage_day = None, hb_keep_labeled = True,
     hb_quiesce = None, hb_salvage = None, hb_live = None, hb_resurrections = 0, hb_requiesces = 0\<rparr>"

definition demo_sweep :: "rat \<Rightarrow> string \<Rightarrow> ret_world" where
  "demo_sweep t st = \<lparr>rw_now = t, rw_rows = [(''7'', \<lparr>hr_status = st, hr_is_bid = True, hr_dph = Some (1/10), hr_storage_day = None\<rparr>)],
     rw_retention_h = None, rw_grace_h = 1, rw_dry = False, rw_label = (\<lambda>i. True), rw_stop = (\<lambda>i. True), rw_pin = (\<lambda>i. True),
     rw_destroy = (\<lambda>i. True), rw_salvage_on = True, rw_keep_n = 1, rw_max_gb = 12, rw_salv = demo_world t\<rparr>"

lemma demo_sweeps:
  "RetDestroy ''7'' \<in> set (snd (retention_sweep (demo_sweep 10800 ''exited'') [demo_held]))"
  "map hb_status (fst (sweeps [demo_sweep 3600 ''exited''] [demo_held])) = [Expired]"
  by code_simp+

theorem held_box_destroyed_only_after_window_witness:
  "\<exists>r\<in>set [demo_held]. hb_iid r = ''7'' \<and> dflt 0 (hb_deadline r) + 3600 \<le> 10800"
  using held_box_destroyed_only_after_window [OF demo_sweeps(1)] by (simp add: demo_sweep_def demo_held_def)

theorem held_box_calls_bounded_witness:
  "length (filter (\<lambda>c. c = RetStop ''7'') (snd (sweeps [demo_sweep 60 ''running'', demo_sweep 120 ''exited''] [demo_held]))) \<le> 3"
  using held_box_calls_bounded [of "[demo_held]" "''7''" "[demo_sweep 60 ''running'', demo_sweep 120 ''exited'']"]
  by (simp add: demo_held_def RETENTION_REQUIESCE_MAX_def del: sweeps.simps)

theorem hold_ends_witness:
  "held_for_a_reason (demo_sweep 3600 ''exited'') ((fst (sweeps [demo_sweep 3600 ''exited''] [demo_held])) ! 0)"
proof -
  obtain r where r: "fst (sweeps [demo_sweep 3600 ''exited''] [demo_held]) = [r]" "hb_status r = Expired" using demo_sweeps(2) by auto
  show ?thesis by (rule hold_ends [of _ "[demo_sweep 3600 ''exited'']" "[demo_held]"]) (simp_all add: r open_held_def del: sweeps.simps)
qed

end
