(* ===== verification/JobBoot.thy ===== *)
theory JobBoot
  imports EvictReplace
begin

text \<open>
  Is a box coming up (\<open>boxes/health.py\<close>: the sampler of an image pull and the poll loop around it;
  \<open>supervise/replacement.py\<close>: the watchdogs of a jobs box and what they do to a box they condemn).

  The lines of a status message are given as parsed; the sampler's window is positive. A condemned box is
  answered with the launch, the queue move and the records of the eviction ladder.
\<close>

section \<open>The progress of an image pull\<close>

datatype pull_line =
    AlreadyExists string
  | Downloading string "nat option"
  | Extracting string "nat option"
  | PullComplete string "nat option"
  | Verifying string

record pull_progress =
  pp_layers :: "(string \<times> nat) list"
  pp_downloading :: bool
  pp_extracting :: bool
  pp_total :: nat

definition raise_layer :: "string \<Rightarrow> nat \<Rightarrow> pull_progress \<Rightarrow> pull_progress" where
  "raise_layer k n p = p\<lparr>pp_layers := AList.update k (max (dflt 0 (map_of (pp_layers p) k)) n) (pp_layers p)\<rparr>"

definition pull_step :: "pull_progress \<Rightarrow> pull_line \<Rightarrow> pull_progress" where
  "pull_step p l =
     (case l of
        AlreadyExists k \<Rightarrow> raise_layer k 0 p
      | Downloading k n \<Rightarrow> (case n of Some m \<Rightarrow> raise_layer k m p | None \<Rightarrow> p)\<lparr>pp_downloading := True\<rparr>
      | Extracting k n \<Rightarrow> (case n of Some m \<Rightarrow> raise_layer k m p | None \<Rightarrow> p)\<lparr>pp_extracting := True\<rparr>
      | PullComplete k n \<Rightarrow> raise_layer k (dflt 0 n) p
      | Verifying k \<Rightarrow> p)"

definition parse_pull_progress :: "pull_line list \<Rightarrow> pull_progress \<Rightarrow> pull_progress" where
  "parse_pull_progress lns prev =
     (let p = foldl pull_step (prev\<lparr>pp_downloading := False, pp_extracting := False\<rparr>) lns
      in p\<lparr>pp_total := max (sum_list (map snd (pp_layers p))) (pp_total prev)\<rparr>)"

section \<open>The sampler\<close>

definition BOOT_LOADING_STATES :: "string list" where "BOOT_LOADING_STATES = [''loading'', ''created'']"
definition BOOT_DL_MIN_FRAC :: rat where "BOOT_DL_MIN_FRAC = 1/2"

datatype boot_phase = BootWaiting | BootDownloading | BootExtracting
datatype boot_verdict = BootRunning | BootSlow | BootDeadline | BootGone

record boot_sampler =
  bs_min_mbps :: rat
  bs_window :: secs
  bs_deadline :: secs
  bs_start :: secs
  bs_prog :: pull_progress
  bs_samples :: "(secs \<times> nat \<times> bool) list"
  bs_first_dl :: "secs option"
  bs_last_mbps :: "rat option"
  bs_phase :: boot_phase

definition new_sampler :: "rat \<Rightarrow> secs \<Rightarrow> secs \<Rightarrow> secs \<Rightarrow> boot_sampler" where
  "new_sampler min_mbps window_s deadline_s start =
     \<lparr>bs_min_mbps = min_mbps, bs_window = window_s, bs_deadline = deadline_s, bs_start = start,
      bs_prog = \<lparr>pp_layers = [], pp_downloading = False, pp_extracting = False, pp_total = 0\<rparr>,
      bs_samples = [], bs_first_dl = None, bs_last_mbps = None, bs_phase = BootWaiting\<rparr>"

text \<open>The bytes a second over the window that ends now.\<close>

definition window_rate :: "secs \<Rightarrow> boot_sampler \<Rightarrow> rat" where
  "window_rate now s =
     (let lo = now - bs_window s;
          win = filter (\<lambda>x. lo \<le> fst x) (bs_samples s);
          older = filter (\<lambda>x. fst x \<le> lo) (bs_samples s);
          base = (if older = [] then hd win else last older)
      in (of_nat (fst (snd (last win))) - of_nat (fst (snd base))) / bs_window s)"

definition sampler_verdict :: "secs \<Rightarrow> boot_sampler \<Rightarrow> boot_verdict option \<times> boot_sampler" where
  "sampler_verdict now s =
     (if bs_deadline s < now - bs_start s then (Some BootDeadline, s)
      else (case bs_first_dl s of
              None \<Rightarrow> (None, s)
            | Some t0 \<Rightarrow>
                (let win = filter (\<lambda>x. now - bs_window s \<le> fst x) (bs_samples s)
                 in if now - t0 < bs_window s then (None, s)
                    else if win = [] then (None, s)
                    else if of_nat (length (filter (\<lambda>x. snd (snd x)) win)) < BOOT_DL_MIN_FRAC * of_nat (length win) then (None, s)
                    else (let rate = window_rate now s
                          in (if rate < bs_min_mbps s * 1000000 then Some BootSlow else None,
                              s\<lparr>bs_last_mbps := Some (rate / 1000000)\<rparr>)))))"

text \<open>What a poll sees of the instance: its status and the lines of its message, or no instance.\<close>

type_synonym boot_obs = "(string \<times> pull_line list) option"

definition sampler_feed :: "boot_obs \<Rightarrow> secs \<Rightarrow> boot_sampler \<Rightarrow> boot_verdict option \<times> boot_sampler" where
  "sampler_feed inst t s =
     (case inst of
        None \<Rightarrow> (Some BootGone, s)
      | Some (status, lns) \<Rightarrow>
          if status = ''running'' then (Some BootRunning, s)
          else if status \<notin> set BOOT_LOADING_STATES then (Some BootGone, s)
          else (let p = parse_pull_progress lns (bs_prog s);
                    s1 = s\<lparr>bs_prog := p,
                           bs_phase := (if pp_downloading p then BootDownloading else if pp_extracting p then BootExtracting else bs_phase s),
                           bs_first_dl := (if pp_downloading p \<and> bs_first_dl s = None then Some t else bs_first_dl s),
                           bs_samples := bs_samples s @ [(t, pp_total p, pp_downloading p)]\<rparr>
                in sampler_verdict t s1))"

text \<open>The poll loop, over the polls it makes. A poll that gets no answer is passed over until the deadline.\<close>

fun boot_health_watch :: "secs \<Rightarrow> boot_sampler \<Rightarrow> (secs \<times> boot_obs) list \<Rightarrow> boot_verdict option" where
  "boot_health_watch start s [] = None"
| "boot_health_watch start s ((t, inst) # polls) =
     (case inst of
        None \<Rightarrow> if bs_deadline s < t - start then Some BootDeadline else boot_health_watch start s polls
      | Some x \<Rightarrow> (case sampler_feed (Some x) t s of (v, s1) \<Rightarrow> if v = None then boot_health_watch start s1 polls else v))"

section \<open>The watchdogs of a jobs box\<close>

record boot_knobs =
  bk_min_mbps :: rat
  bk_window :: secs
  bk_pull_timeout :: secs
  bk_sla :: secs
  bk_max_kills :: nat
  bk_backoff :: rat
  bk_max_retries :: nat

record boot_ctx =
  bo_off :: bool
  bo_loading :: "string option"
  bo_online :: "string option"
  bo_running :: "(string \<times> secs) option"
  bo_relaunches :: nat
  bo_sampler :: "(string \<times> boot_sampler) option"

definition boot_deadline_backoff :: "boot_knobs \<Rightarrow> secs \<Rightarrow> nat \<Rightarrow> secs" where
  "boot_deadline_backoff kn base kills =
     (if kills < bk_max_kills kn then base else base * bk_backoff kn ^ (kills - bk_max_kills kn + 1))"

text \<open>The token of a status line that tells whether the box's own program runs: broken, fine, or not said.\<close>

fun pyhalf_scan :: "string list \<Rightarrow> bool option" where
  "pyhalf_scan [] = None"
| "pyhalf_scan (tok # toks) =
     (if starts_with ''pyhalf='' tok
      then (let v = py_lower (py_strip (drop 7 tok))
            in if v = ''broken'' then Some True else if v = ''ok'' then Some False else pyhalf_scan toks)
      else pyhalf_scan toks)"

definition jobd_status_pyhalf :: "string list \<Rightarrow> bool option" where
  "jobd_status_pyhalf toks = pyhalf_scan toks"

datatype boot_breach = PullSlow | PullTimeout | SlaBreach

definition job_pull_watchdog_tick ::
  "boot_knobs \<Rightarrow> string \<Rightarrow> secs option \<Rightarrow> string \<times> pull_line list \<Rightarrow> secs \<Rightarrow> boot_ctx \<Rightarrow> boot_breach option \<times> boot_ctx" where
  "job_pull_watchdog_tick kn iid start_date inst now b =
     (if bo_off b then (None, b)
      else (let s = (case bo_sampler b of
                       Some (i, s) \<Rightarrow> if i = iid then s else new_sampler (bk_min_mbps kn) (bk_window kn) (bk_pull_timeout kn) (dflt now start_date)
                     | None \<Rightarrow> new_sampler (bk_min_mbps kn) (bk_window kn) (bk_pull_timeout kn) (dflt now start_date));
                (v, s1) = sampler_feed (Some inst) now s
            in (case v of Some BootSlow \<Rightarrow> Some PullSlow | Some BootDeadline \<Rightarrow> Some PullTimeout | _ \<Rightarrow> None,
                b\<lparr>bo_sampler := Some (iid, s1)\<rparr>)))"

text \<open>\<open>stamp\<close> is the tokens of the box's status line, \<open>None\<close> when there is none or it could not be read. The last
  component tells whether the box is noted as good.\<close>

definition job_boot_sla_tick ::
  "boot_knobs \<Rightarrow> string \<Rightarrow> secs option \<Rightarrow> string list option \<Rightarrow> secs \<Rightarrow> boot_ctx \<Rightarrow> boot_breach option \<times> boot_ctx \<times> bool" where
  "job_boot_sla_tick kn iid start_date stamp now b =
     (if bo_off b \<or> bk_sla kn \<le> 0 \<or> bo_online b = Some iid \<or> bo_loading b \<noteq> Some iid then (None, b, False)
      else (case stamp of
              Some toks \<Rightarrow> if jobd_status_pyhalf toks = Some True then (None, b, False) else (None, b\<lparr>bo_online := Some iid\<rparr>, True)
            | None \<Rightarrow>
               (case (case bo_running b of Some (i, t) \<Rightarrow> if i = iid then Some t else start_date | None \<Rightarrow> start_date) of
                  None \<Rightarrow> (None, b, False)
                | Some anchor \<Rightarrow>
                    (if boot_deadline_backoff kn (bk_sla kn) (bo_relaunches b) < now - anchor then Some SlaBreach else None, b, False))))"

section \<open>What becomes of a condemned box\<close>

definition breach_kind :: "boot_breach \<Rightarrow> string" where
  "breach_kind v = (case v of PullSlow \<Rightarrow> ''pull_slow'' | SlaBreach \<Rightarrow> ''boot_sla'' | PullTimeout \<Rightarrow> ''pull_timeout'')"

definition note_condemned ::
  "evict_world \<Rightarrow> acct_latch \<Rightarrow> boot_breach \<Rightarrow> evict_state \<Rightarrow> evict_state" where
  "note_condemned wd latch v s =
     (case ew_machine wd of
        None \<Rightarrow> s
      | Some m \<Rightarrow>
          s\<lparr>es_ctx := (es_ctx s)\<lparr>ev_pull_bad := List.insert m (ev_pull_bad (es_ctx s))\<rparr>,
            es_hosts := snd (note_strike (ew_knobs wd) (ew_hostrep_on wd) latch (Some (int_str m)) (breach_kind v)
                          (Some (ev_iid (es_ctx s))) None (real_of_rat (ew_now wd)) (ew_store_saved wd) (es_hosts s))\<rparr>)"

definition rehosted :: "rental \<Rightarrow> string \<Rightarrow> price option \<Rightarrow> evict_ctx \<Rightarrow> evict_ctx" where
  "rehosted rental cid dph c =
     (let bid = (if rental = RentBid then dph else None)
      in box_swap_reset (c\<lparr>ev_iid := cid, lc_last_bid := bid, lc_first_seen_dph := bid, ev_rescue_deadline := None,
            ev_rebid_rungs := 0, ev_rebid_refused := None, ev_evicted_since := None\<rparr>) True)"

text \<open>The watch is on a new box when the first component says so.\<close>

definition job_pull_condemn ::
  "boot_knobs \<Rightarrow> evict_world \<Rightarrow> JobQueue.world \<Rightarrow> string \<Rightarrow> string list option \<Rightarrow> (string \<Rightarrow> string option) \<Rightarrow> acct_latch
   \<Rightarrow> bool option \<Rightarrow> boot_breach \<Rightarrow> evict_state \<times> boot_ctx \<Rightarrow> bool \<times> evict_state \<times> boot_ctx" where
  "job_pull_condemn kn wd w actor listing statuses latch is_bid v sb =
     (let (s0, b) = sb; s = note_condemned wd latch v s0; old = ev_iid (es_ctx s)
      in if bk_max_retries kn \<le> bo_relaunches b then (False, s, b\<lparr>bo_off := True\<rparr>)
         else if (case ew_budget wd of Some x \<Rightarrow> x \<le> ev_spend (es_ctx s) | None \<Rightarrow> False) then (False, s, b)
         else if ew_dry_run wd then (False, s, b)
         else (let rental = (if is_bid = Some False then RentOndemand else RentBid);
                   cap = replacement_ceiling_of wd (es_ctx s)
               in case launch_replacement wd (set (ev_pull_bad (es_ctx s))) None rental None cap s of
                    (Inl why, s1) \<Rightarrow>
                      (False, s1\<lparr>es_ctx := note_refusal why cap (ew_now wd) (es_ctx s1)\<rparr>, b\<lparr>bo_sampler := None\<rparr>)
                  | (Inr (cid, dph), s1) \<Rightarrow>
                      (True, s1\<lparr>es_ctx := rehosted rental cid dph (clear_refusals (es_ctx s1)),
                         es_bucket := after (retarget_pending_tickets w old cid ''pull_condemned'' actor listing statuses) (es_bucket s1),
                         es_io := es_io s1 @ [DMoveQueue old cid, DDestroy old]\<rparr>,
                       b\<lparr>bo_relaunches := bo_relaunches b + 1, bo_sampler := None\<rparr>)))"

end
