(* ===== verification/JobLane.thy ===== *)
theory JobLane
  imports JobBoot Retention
begin

text \<open>
  The jobs lane of the supervisor (\<open>tools/vast/vastlib/supervise/job_lane.py\<close>): one tick of a watch on a
  jobs box, from what it observes over the stop, budget, boot and queue exits to the bid moves of a live box and
  the ladder of an evicted one.

  A watch is a \<open>jobs_lane\<close>; \<open>ln_es\<close> is the state it shares with the eviction ladder, \<open>ln_io\<close> the calls made so
  far. What a tick reads and how its calls are answered is a \<open>lane_world\<close>; the migration driver, the serve
  lane's own checks and the work estimates answer through it. Alarms and journals are left out.
\<close>

section \<open>State\<close>

definition JOB_SUP_RESCUE_WAIT_S :: secs where "JOB_SUP_RESCUE_WAIT_S = 900"
definition NOTIFY_CONSUMED_MAX :: nat where "NOTIFY_CONSUMED_MAX = 16"
definition NOTIFY_FRESH_WINDOW_S :: secs where "NOTIFY_FRESH_WINDOW_S = 900"
definition EVICTION_FLOOR_SAMPLES_N :: nat where "EVICTION_FLOOR_SAMPLES_N = 8"
definition P_ALT_POLL_S :: secs where "P_ALT_POLL_S = 600"

record lane_inst =
  li_iid :: string
  li_status :: string
  li_intended :: string
  li_is_bid :: "bool option"
  li_dph :: "price option"
  li_base :: "price option"
  li_machine :: "int option"
  li_storage_day :: "price option"
  li_disk :: "rat option"
  li_disk_asked :: "rat option"
  li_cc_allow :: "string list"
  li_env_pin :: "(string \<times> string) list"
  li_entry_floor :: "price option"
  li_start :: "secs option"
  li_pull :: "pull_line list"

text \<open>A record of vast's own that a box was outbid.\<close>

record outbid_ev =
  oe_event :: string
  oe_iid :: string
  oe_row :: notify_row
  oe_created :: "secs option"

record queue_view =
  qv_job :: string
  qv_status :: string

record jobs_lane =
  ln_es :: evict_state
  ln_held :: "held_box list"
  ln_boot :: boot_ctx
  ln_t_prev :: secs
  ln_samples :: "price list"
  ln_decay :: "nat \<times> secs option"
  ln_was_live :: "bool option"
  ln_launch_disk :: "rat option"
  ln_cc_allow :: "string list"
  ln_env_pin :: "(string \<times> string) list"
  ln_entry_floor :: "price option"
  ln_views :: "queue_view list"
  ln_announced :: "string option"
  ln_class :: "eviction_class option"
  ln_notify :: "outbid_ev option"
  ln_consumed :: "string list"
  ln_put_failures :: nat
  ln_resume_tries :: int
  ln_reconciled :: bool
  ln_fence :: bool
  ln_condemned :: bool

text \<open>The arguments of a watch. \<open>la_expect\<close>: what the box serves is pinned to an identity; \<open>la_stop_intent\<close>: somebody
  asked for the stop.\<close>

record lane_args =
  la_dry :: bool
  la_budget :: "price option"
  la_keep :: bool
  la_max_bid :: "price option"
  la_strict :: bool
  la_rescue_wait :: "secs option"
  la_serve :: bool
  la_expect :: bool
  la_handoff :: bool
  la_stop_intent :: bool
  la_resume_max :: int
  la_escalate_s :: secs
  la_boot :: boot_knobs

record market_reading =
  mk_ok :: bool
  mk_listed :: bool
  mk_min :: "price option"
  mk_floors :: "price option list"
  mk_scaled :: bool

text \<open>The migration driver's answer: is its fence open, to which box it moved, what its window cost.\<close>

record handoff_answer =
  ha_fence :: bool
  ha_moved :: "string option"
  ha_spend :: price

record lane_world =
  lw_now :: secs
  lw_rows :: "lane_inst list"
  lw_twin :: bool
  lw_handoff :: handoff_answer
  lw_ret :: ret_world
  lw_evict :: evict_world
  lw_serve_identity :: bool
  lw_serve_parked :: bool
  lw_serve_boot :: bool
  lw_serve_relaunched :: "bool option"
  lw_box_parked :: bool
  lw_box_drained :: bool
  lw_stamp :: "string list option"
  lw_queue :: "string list option"
  lw_read :: "bool \<Rightarrow> string \<Rightarrow> queue_view option"
  lw_market :: "lane_inst \<Rightarrow> market_reading"
  lw_ondemand :: "lane_inst \<Rightarrow> price option"
  lw_notices :: "outbid_ev list"
  lw_start :: bool
  lw_bid :: bool
  lw_bucket :: JobQueue.world
  lw_actor :: string
  lw_move_listing :: "string list option"
  lw_move_status :: "string \<Rightarrow> string option"
  lw_latch :: acct_latch

datatype lane_io =
    LStop string
  | LStart string
  | LBid string price
  | LReattach string
  | LLadder ladder_io
  | LRet ret_call

datatype lane_verdict =
    SelfParked | OperatorPark | OverBudget | QueueDrained | QueueEmpty | LaneUnrecoverable | SlaRelaunched | IdentityMismatch

text \<open>A step either goes on with the watch or ends the tick, with a verdict when the watch is over. Calls are collected
  beside the watch.\<close>

type_synonym lane_watch = "jobs_lane \<times> lane_io list"
type_synonym tick_result = "lane_verdict option \<times> lane_watch"
type_synonym lane_step = "lane_watch \<Rightarrow> tick_result + lane_watch"

definition andthen :: "lane_step \<Rightarrow> lane_step \<Rightarrow> lane_step" where
  "andthen f g x = (case f x of Inl r \<Rightarrow> Inl r | Inr y \<Rightarrow> g y)"

definition ln_ctx :: "jobs_lane \<Rightarrow> evict_ctx" where
  "ln_ctx l = es_ctx (ln_es l)"

definition on_ctx :: "(evict_ctx \<Rightarrow> evict_ctx) \<Rightarrow> jobs_lane \<Rightarrow> jobs_lane" where
  "on_ctx f l = l\<lparr>ln_es := (ln_es l)\<lparr>es_ctx := f (es_ctx (ln_es l))\<rparr>\<rparr>"

definition call :: "lane_io \<Rightarrow> lane_watch \<Rightarrow> lane_watch" where
  "call c x = (fst x, snd x @ [c])"

text \<open>The part of the context that \<open>LadderCore\<close> works on.\<close>

definition ladder_part :: "evict_ctx \<Rightarrow> ladder_ctx" where
  "ladder_part c = ladder_ctx.truncate c"

definition put_ladder :: "ladder_ctx \<Rightarrow> evict_ctx \<Rightarrow> evict_ctx" where
  "put_ladder b c = ladder_ctx.extend b (ladder_ctx.more c)"

section \<open>What a tick sees\<close>

definition inst_of :: "lane_world \<Rightarrow> string \<Rightarrow> lane_inst option" where
  "inst_of w iid = find (\<lambda>i. li_iid i = iid) (lw_rows w)"

definition own_inst :: "lane_world \<Rightarrow> jobs_lane \<Rightarrow> lane_inst option" where
  "own_inst w l = inst_of w (ev_iid (ln_ctx l))"

definition lane_inst_live :: "lane_inst option \<Rightarrow> bool" where
  "lane_inst_live i = (case i of None \<Rightarrow> False | Some x \<Rightarrow> li_status x \<in> LIVE_STATES)"

definition inst_bid :: "lane_inst option \<Rightarrow> bool" where
  "inst_bid i = (case i of None \<Rightarrow> False | Some x \<Rightarrow> li_is_bid x = Some True)"

definition machine_text :: "lane_inst option \<Rightarrow> string option" where
  "machine_text i = map_option int_str (Option.bind i li_machine)"

definition held_rows :: "lane_world \<Rightarrow> (string \<times> held_row) list" where
  "held_rows w = map (\<lambda>i. (li_iid i, \<lparr>hr_status = li_status i, hr_is_bid = (li_is_bid i = Some True), hr_dph = li_dph i,
     hr_storage_day = li_storage_day i\<rparr>)) (lw_rows w)"

definition ret_view :: "lane_args \<Rightarrow> lane_world \<Rightarrow> ret_world" where
  "ret_view a w = (lw_ret w)\<lparr>rw_now := lw_now w, rw_rows := held_rows w, rw_dry := la_dry a\<rparr>"

definition evict_view :: "lane_args \<Rightarrow> lane_world \<Rightarrow> jobs_lane \<Rightarrow> evict_world" where
  "evict_view a w l =
     (let i = own_inst w l
      in (lw_evict w)\<lparr>ew_now := lw_now w, ew_machine := Option.bind i li_machine, ew_present := (i \<noteq> None),
           ew_storage_day := Option.bind i li_storage_day, ew_budget := la_budget a, ew_dry_run := la_dry a\<rparr>)"

definition no_market :: market_reading where
  "no_market = \<lparr>mk_ok = False, mk_listed = False, mk_min = None, mk_floors = [], mk_scaled = False\<rparr>"

definition job_market_read :: "lane_world \<Rightarrow> lane_inst option \<Rightarrow> market_reading" where
  "job_market_read w i =
     (case i of None \<Rightarrow> no_market
      | Some x \<Rightarrow> (case li_machine x of None \<Rightarrow> no_market | Some m \<Rightarrow> if m = 0 then no_market else lw_market w x))"

definition market_listed :: "market_reading \<Rightarrow> bool option" where
  "market_listed m = (if mk_ok m then Some (mk_listed m) else None)"

definition sticky_on_demand :: "price option \<Rightarrow> evict_ctx \<Rightarrow> price option \<times> evict_ctx" where
  "sticky_on_demand fresh c =
     (case pos_opt fresh of Some f \<Rightarrow> (Some f, c\<lparr>lc_on_demand_last := Some f\<rparr>) | None \<Rightarrow> (lc_on_demand_last c, c))"

definition read_on_demand :: "lane_world \<Rightarrow> lane_inst option \<Rightarrow> evict_ctx \<Rightarrow> price option \<times> evict_ctx" where
  "read_on_demand w i c = sticky_on_demand (case i of None \<Rightarrow> None | Some x \<Rightarrow> lw_ondemand w x) c"

section \<open>Observing\<close>

definition lane_accrue :: "lane_world \<Rightarrow> lane_inst option \<Rightarrow> jobs_lane \<Rightarrow> jobs_lane" where
  "lane_accrue w i l =
     (let dt = lw_now w - ln_t_prev l
      in (if lane_inst_live i then on_ctx (\<lambda>c. c\<lparr>ev_spend := ev_spend c + dflt 0 (Option.bind i li_dph) * dt / 3600\<rparr>) l else l)\<lparr>ln_t_prev := lw_now w\<rparr>)"

definition reconcile_bid :: "lane_world \<Rightarrow> lane_inst option \<Rightarrow> evict_ctx \<Rightarrow> evict_ctx" where
  "reconcile_bid w i c =
     put_ladder (fst (snd (reconcile_standing_bid (ladder_part c) (inst_bid i) (Option.bind i li_base) (Option.bind i li_dph)
       (machine_text i) (lw_now w)))) c"

text \<open>What is recorded of the original box, once.\<close>

definition anchors :: "lane_inst option \<Rightarrow> jobs_lane \<Rightarrow> jobs_lane" where
  "anchors i l =
     (case i of None \<Rightarrow> l
      | Some x \<Rightarrow>
         (let l1 = on_ctx (\<lambda>c. if ev_anchor c = None \<and> or_num (li_dph x) None \<noteq> None then c\<lparr>ev_anchor := li_dph x\<rparr> else c) l;
              asked = or_num (li_disk_asked x) None; disk = or_num (li_disk x) None
          in l1\<lparr>ln_launch_disk := (if ln_launch_disk l = None \<and> (asked \<noteq> None \<or> disk \<noteq> None)
                                   then Some (max (dflt 0 asked) (dflt 0 disk)) else ln_launch_disk l),
                ln_cc_allow := (if ln_cc_allow l = [] then li_cc_allow x else ln_cc_allow l),
                ln_env_pin := (if ln_env_pin l = [] then li_env_pin x else ln_env_pin l),
                ln_entry_floor := (if ln_entry_floor l = None then pos_opt (li_entry_floor x) else ln_entry_floor l)\<rparr>))"

definition lane_observe :: "lane_args \<Rightarrow> lane_world \<Rightarrow> lane_watch \<Rightarrow> lane_watch" where
  "lane_observe a w x =
     (let l0 = fst x;
          l1 = (if la_handoff a \<and> \<not> ln_reconciled l0 then l0\<lparr>ln_reconciled := True, ln_fence := (ln_fence l0 \<and> \<not> lw_twin w)\<rparr> else l0);
          i = own_inst w l1;
          l2 = lane_accrue w i l1;
          l3 = on_ctx (\<lambda>c. (reconcile_bid w i c)\<lparr>lc_now := lw_now w\<rparr>) l2;
          l4 = anchors i l3;
          (held, calls) = retention_sweep (ret_view a w) (ln_held l4)
      in (l4\<lparr>ln_held := held\<rparr>, snd x @ map LRet calls))"

section \<open>Vast's own record of the loss\<close>

definition fresh_outbid :: "outbid_ev list \<Rightarrow> string \<Rightarrow> secs \<Rightarrow> outbid_ev list" where
  "fresh_outbid rows iid now =
     (if iid = [] then []
      else filter (\<lambda>e. oe_iid e = iid \<and> (case oe_created e of None \<Rightarrow> False | Some t \<Rightarrow> \<bar>now - t\<bar> \<le> NOTIFY_FRESH_WINDOW_S)) rows)"

definition match_outbid :: "outbid_ev list \<Rightarrow> string \<Rightarrow> secs \<Rightarrow> string list \<Rightarrow> outbid_ev option" where
  "match_outbid rows iid now excl =
     foldl (\<lambda>best e. case best of None \<Rightarrow> Some e
              | Some b \<Rightarrow> if dflt 0 (oe_created b) < dflt 0 (oe_created e) then Some e else best)
       None (filter (\<lambda>e. oe_event e \<notin> set excl) (fresh_outbid rows iid now))"

definition mark_consumed :: "string list \<Rightarrow> string \<Rightarrow> string list" where
  "mark_consumed ids e =
     (let ids1 = (if e \<in> set ids then ids else ids @ [e]) in drop (length ids1 - NOTIFY_CONSUMED_MAX) ids1)"

definition latched_notice :: "jobs_lane \<Rightarrow> outbid_ev option" where
  "latched_notice l =
     (case ln_notify l of Some e \<Rightarrow> if oe_iid e = ev_iid (ln_ctx l) then Some e else None | None \<Rightarrow> None)"

definition notify_sweep :: "lane_world \<Rightarrow> jobs_lane \<Rightarrow> jobs_lane" where
  "notify_sweep w l =
     l\<lparr>ln_consumed := foldl mark_consumed (ln_consumed l) (map oe_event (fresh_outbid (lw_notices w) (ev_iid (ln_ctx l)) (lw_now w)))\<rparr>"

definition try_match :: "lane_world \<Rightarrow> jobs_lane \<Rightarrow> outbid_ev option \<times> jobs_lane" where
  "try_match w l =
     (case latched_notice l of
        Some e \<Rightarrow> (Some e, notify_sweep w l)
      | None \<Rightarrow>
         (case match_outbid (lw_notices w) (ev_iid (ln_ctx l)) (lw_now w) (ln_consumed l) of
            None \<Rightarrow> (None, l)
          | Some e \<Rightarrow> (Some e, notify_sweep w (l\<lparr>ln_notify := Some e, ln_consumed := mark_consumed (ln_consumed l) (oe_event e)\<rparr>))))"

definition rescue_min_bid :: "jobs_lane \<Rightarrow> price option \<Rightarrow> jnum" where
  "rescue_min_bid l on_demand =
     (let od = (case on_demand of Some d \<Rightarrow> Some d | None \<Rightarrow> lc_on_demand_last (ln_ctx l))
      in case latched_notice l of
           None \<Rightarrow> Unparsed
         | Some e \<Rightarrow> if notify_outbid_supported (Some (oe_row e)) od None then new_min_bid (oe_row e) else Unparsed)"

definition cycle_reset :: "jobs_lane \<Rightarrow> jobs_lane" where
  "cycle_reset l = l\<lparr>ln_notify := None\<rparr>"

definition latch_reset :: "jobs_lane \<Rightarrow> jobs_lane" where
  "latch_reset l = on_ctx (\<lambda>c. c\<lparr>ev_evicted_since := None\<rparr>) (l\<lparr>ln_class := None\<rparr>)"

definition box_gone_reset :: "jobs_lane \<Rightarrow> jobs_lane" where
  "box_gone_reset l = latch_reset (l\<lparr>ln_announced := None, ln_notify := None, ln_consumed := []\<rparr>)"

section \<open>Why the box stopped\<close>

definition classify_job_box_stop ::
  "bool \<Rightarrow> bool \<Rightarrow> string \<Rightarrow> bool \<Rightarrow> bool \<Rightarrow> bool \<Rightarrow> bool \<Rightarrow> lane_verdict option" where
  "classify_job_box_stop present is_bid intended box_parked box_drained stop_intent claimed_work =
     (if box_parked \<or> box_drained then Some SelfParked
      else if present \<and> intended = ''stopped'' \<and> stop_intent then Some OperatorPark
      else if present \<and> intended = ''stopped'' \<and> \<not> is_bid \<and> \<not> claimed_work then Some OperatorPark
      else None)"

definition loss_read :: "lane_inst option \<Rightarrow> price option \<Rightarrow> bool option \<Rightarrow> price option \<Rightarrow> outbid_ev option \<Rightarrow> jobs_lane \<Rightarrow> evict_read" where
  "loss_read i market avail on_demand notice l =
     \<lparr>er_present = (i \<noteq> None), er_actual_status = map_option li_status i, er_market_min_bid = market, er_on_demand = on_demand,
      er_last_bid = lc_last_bid (ln_ctx l), er_market_listed = avail, er_is_bid = Some (inst_bid i),
      er_notify = map_option oe_row notice, er_account_credit_ok = credit_ok_from_error (ev_last_error (ln_ctx l)),
      er_floor_samples = map Fin (drop (length (ln_samples l) - EVICTION_FLOOR_SAMPLES_N) (ln_samples l))\<rparr>"

definition announce_eviction :: "lane_world \<Rightarrow> lane_inst option \<Rightarrow> jobs_lane \<Rightarrow> jobs_lane" where
  "announce_eviction w i l =
     (if ln_announced l = Some (ev_iid (ln_ctx l)) then l
      else (let l1 = on_ctx self_floor_reset (l\<lparr>ln_announced := Some (ev_iid (ln_ctx l))\<rparr>);
                m = job_market_read w i;
                (od, c) = read_on_demand w i (ln_ctx l1);
                l2 = on_ctx (\<lambda>_. c) l1;
                (notice, l3) = try_match w l2;
                cls = classify_eviction (loss_read i (mk_min m) (market_listed m) od notice l3)
            in on_ctx (\<lambda>c. c\<lparr>ev_evicted_since := Some (lc_now c)\<rparr>) (l3\<lparr>ln_class := Some cls\<rparr>)))"

definition stop_step :: "lane_args \<Rightarrow> lane_world \<Rightarrow> lane_step" where
  "stop_step a w x =
     (let l = fst x; i = own_inst w l; intended = (case i of None \<Rightarrow> [] | Some y \<Rightarrow> li_intended y)
      in if ln_fence l \<and> la_handoff a \<or> \<not> ((i \<noteq> None \<and> \<not> lane_inst_live i) \<or> intended = ''stopped'') then Inr x
         else if la_serve a \<and> lw_serve_parked w then Inl (Some SelfParked, x)
         else (case classify_job_box_stop (i \<noteq> None) (inst_bid i) intended (\<not> la_serve a \<and> lw_box_parked w)
                      (\<not> la_serve a \<and> lw_box_drained w) (la_stop_intent a) (ln_views l \<noteq> []) of
                 Some v \<Rightarrow> Inl (Some v, x)
               | None \<Rightarrow> Inr (if lane_inst_live i then l else announce_eviction w i l, snd x)))"

section \<open>The budget\<close>

definition stop_unless :: "bool \<Rightarrow> lane_watch \<Rightarrow> lane_watch" where
  "stop_unless b x = (if b then x else call (LStop (ev_iid (ln_ctx (fst x)))) x)"

definition over_budget :: "lane_args \<Rightarrow> jobs_lane \<Rightarrow> bool" where
  "over_budget a l = (case la_budget a of None \<Rightarrow> False | Some b \<Rightarrow> b \<le> ev_spend (ln_ctx l))"

definition budget_step :: "lane_args \<Rightarrow> lane_step" where
  "budget_step a x = (if over_budget a (fst x) then Inl (Some OverBudget, stop_unless (la_dry a) x) else Inr x)"

text \<open>A box that served another identity than the pinned one stays condemned until the pin goes; it is stopped once.\<close>

definition serve_step :: "lane_args \<Rightarrow> lane_world \<Rightarrow> lane_step" where
  "serve_step a w x =
     (let l = fst x
      in if \<not> la_serve a then Inr x
         else if \<not> la_expect a then Inr (l\<lparr>ln_condemned := False\<rparr>, snd x)
         else if ln_condemned l then Inl (Some IdentityMismatch, x)
         else if own_inst w l = None \<or> \<not> lw_serve_identity w then Inr x
         else Inl (Some IdentityMismatch, stop_unless (la_dry a) (l\<lparr>ln_condemned := True\<rparr>, snd x)))"

section \<open>A new box under the watch\<close>

text \<open>What the watch forgets of the old box, beside the context.\<close>

definition lane_swapped :: "jobs_lane \<Rightarrow> jobs_lane" where
  "lane_swapped l = box_gone_reset (l\<lparr>ln_samples := [], ln_decay := (0, None)\<rparr>)"

definition kept_call :: "ladder_io \<Rightarrow> bool" where
  "kept_call c = (case c of DKeep _ _ \<Rightarrow> False | DDestroy _ \<Rightarrow> False | _ \<Rightarrow> True)"

text \<open>Run an operation of the ladder on the shared state; its calls join the watch's.\<close>

definition with_ladder :: "(evict_state \<Rightarrow> 'r \<times> evict_state) \<Rightarrow> lane_watch \<Rightarrow> 'r \<times> lane_watch" where
  "with_ladder f x =
     (let (r, s) = f ((ln_es (fst x))\<lparr>es_io := []\<rparr>)
      in (r, (fst x)\<lparr>ln_es := s\<lparr>es_io := []\<rparr>\<rparr>, snd x @ map LLadder (es_io s)))"

section \<open>The boot watchdogs\<close>

definition condemn_step :: "lane_args \<Rightarrow> lane_world \<Rightarrow> boot_breach \<Rightarrow> lane_watch \<Rightarrow> tick_result" where
  "condemn_step a w v x =
     (let i = own_inst w (fst x);
          ((ok, b), y) = with_ladder (\<lambda>s. case job_pull_condemn (la_boot a) (evict_view a w (fst x)) (lw_bucket w) (lw_actor w)
                (lw_move_listing w) (lw_move_status w) (lw_latch w) (Option.bind i li_is_bid) v (s, ln_boot (fst x)) of
                (ok, s1, b) \<Rightarrow> ((ok, b), s1)) x;
          l = (fst y)\<lparr>ln_boot := b\<rparr>
      in (None, if ok then lane_swapped l else l, snd y))"

definition boot_step :: "lane_args \<Rightarrow> lane_world \<Rightarrow> lane_step" where
  "boot_step a w x =
     (let l = fst x; iid = ev_iid (ln_ctx l); fenced = (la_handoff a \<and> ln_fence l); b = ln_boot l
      in case own_inst w l of
           None \<Rightarrow> Inr x
         | Some i \<Rightarrow>
            if \<not> fenced \<and> li_status i \<in> set BOOT_LOADING_STATES then
              (let b1 = b\<lparr>bo_loading := Some iid\<rparr>
               in if la_serve a
                  then (if lw_serve_boot w
                        then Inl (case lw_serve_relaunched w of None \<Rightarrow> None | Some ok \<Rightarrow> Some (if ok then SlaRelaunched else LaneUnrecoverable),
                                  l\<lparr>ln_boot := b1\<rparr>, snd x)
                        else Inr (l\<lparr>ln_boot := b1\<rparr>, snd x))
                  else (case job_pull_watchdog_tick (la_boot a) iid (li_start i) (li_status i, li_pull i) (lw_now w) b1 of
                          (None, b2) \<Rightarrow> Inr (l\<lparr>ln_boot := b2\<rparr>, snd x)
                        | (Some v, b2) \<Rightarrow> Inl (condemn_step a w v (l\<lparr>ln_boot := b2\<rparr>, snd x))))
            else if li_status i = ''running'' then
              (let b1 = b\<lparr>bo_sampler := None,
                         bo_running := (case bo_running b of Some (j, t) \<Rightarrow> if j = iid then bo_running b else Some (iid, lw_now w)
                                        | None \<Rightarrow> Some (iid, lw_now w))\<rparr>
               in if fenced then Inr (l\<lparr>ln_boot := b1\<rparr>, snd x)
                  else if la_serve a
                  then (if lw_serve_boot w
                        then Inl (case lw_serve_relaunched w of None \<Rightarrow> None | Some ok \<Rightarrow> Some (if ok then SlaRelaunched else LaneUnrecoverable),
                                  l\<lparr>ln_boot := b1\<rparr>, snd x)
                        else Inr (l\<lparr>ln_boot := b1\<rparr>, snd x))
                  else (case job_boot_sla_tick (la_boot a) iid (li_start i) (lw_stamp w) (lw_now w) b1 of
                          (Some v, b2, _) \<Rightarrow> Inl (condemn_step a w v (l\<lparr>ln_boot := b2\<rparr>, snd x))
                        | (None, b2, good) \<Rightarrow>
                            Inr ((if good then l\<lparr>ln_es := (ln_es l)\<lparr>es_hosts := snd (note_ok (ew_hostrep_on (lw_evict w)) (map_option int_str (li_machine i))
                                    (Some iid) (real_of_rat (lw_now w)) (ew_store_saved (lw_evict w)) (es_hosts (ln_es l)))\<rparr>\<rparr> else l)\<lparr>ln_boot := b2\<rparr>, snd x)))
            else Inr x)"

section \<open>The queue\<close>

definition pending_views :: "lane_world \<Rightarrow> bool \<Rightarrow> string list \<Rightarrow> queue_view list" where
  "pending_views w live jids = filter (\<lambda>v. qv_status v \<notin> set JOB_TERMINAL) (List.map_filter (lw_read w live) jids)"

definition queue_step :: "lane_args \<Rightarrow> lane_world \<Rightarrow> lane_step" where
  "queue_step a w x =
     (let l = fst x; fenced = (la_handoff a \<and> ln_fence l); live = lane_inst_live (own_inst w l)
      in if la_serve a then Inr (l\<lparr>ln_views := []\<rparr>, snd x)
         else (case lw_queue w of
                 None \<Rightarrow> Inr (l\<lparr>ln_views := []\<rparr>, snd x)
               | Some jids \<Rightarrow>
                  (let pending = pending_views w live jids
                   in if \<not> fenced \<and> jids \<noteq> [] \<and> pending = [] then Inl (Some QueueDrained, stop_unless (la_keep a \<or> la_dry a) x)
                      else if \<not> fenced \<and> jids = [] then Inl (Some QueueEmpty, x)
                      else Inr (l\<lparr>ln_views := pending\<rparr>, snd x))))"

section \<open>The market\<close>

definition job_palt_poll :: "lane_args \<Rightarrow> lane_world \<Rightarrow> lane_inst option \<Rightarrow> jobs_lane \<Rightarrow> jobs_lane" where
  "job_palt_poll a w i l =
     (let c = ln_ctx l; ts = (case ev_p_alt c of None \<Rightarrow> None | Some (_, t) \<Rightarrow> Some t)
      in if \<not> inst_bid i \<or> (case ts of Some t \<Rightarrow> lw_now w - t < P_ALT_POLL_S | None \<Rightarrow> False) then l
         else (let wd = evict_view a w l;
                   own = (case Option.bind i li_machine of None \<Rightarrow> {} | Some m \<Rightarrow> if m = 0 then {} else {m});
                   offer = pick_offer wd RentBid (excluded_machines wd (lw_now w) c (es_hosts (ln_es l)) \<union> own) None
               in case pos_opt (Option.bind offer go_min_bid) of
                    Some p \<Rightarrow> on_ctx (\<lambda>c. c\<lparr>ev_p_alt := Some (Some p, lw_now w)\<rparr>) l
                  | None \<Rightarrow> if offer = None \<and> ts = None then on_ctx (\<lambda>c. c\<lparr>ev_p_alt := Some (None, lw_now w)\<rparr>) l else l))"

text \<open>The prices of the tick: the floor that is not our own, and the on-demand price.\<close>

record tick_market =
  tm_floor :: "price option"
  tm_on_demand :: "price option"

definition market_step :: "lane_args \<Rightarrow> lane_world \<Rightarrow> jobs_lane \<Rightarrow> tick_market \<times> jobs_lane" where
  "market_step a w l =
     (let i = own_inst w l; m = job_market_read w i;
          (floor1, b, _) = self_floor_guard (ladder_part (ln_ctx l)) (mk_min m) (lane_inst_live i \<and> inst_bid i) (if mk_ok m then mk_floors m else [])
                         (mk_scaled m) (machine_text i) (Some (lw_now w));
          l1 = on_ctx (put_ladder b) l;
          l2 = (case or_num floor1 None of Some f \<Rightarrow> l1\<lparr>ln_samples := ln_samples l1 @ [f]\<rparr> | None \<Rightarrow> l1);
          (od, c) = read_on_demand w i (ln_ctx l2);
          l3 = job_palt_poll a w i (on_ctx (\<lambda>_. c) l2);
          l4 = (if la_max_bid a = None
                then on_ctx (\<lambda>c. c\<lparr>ev_max_bid := default_max_bid (ln_samples l3) (lc_first_seen_dph c) od (la_strict a)\<rparr>) l3 else l3)
      in (\<lparr>tm_floor = floor1, tm_on_demand = od\<rparr>, l4))"

definition job_defense_cap :: "evict_world \<Rightarrow> evict_ctx \<Rightarrow> price option" where
  "job_defense_cap wd c =
     map_option fst (defense_ceiling (palt_fresh (ew_now wd) c) (ew_remaining_h wd) (Some (ew_setup_h wd)) (Some (ew_ckpt_h wd))
       (ew_defend wd) (ew_prior_runtime_h wd))"

definition lane_poll_state :: "lane_args \<Rightarrow> lane_world \<Rightarrow> tick_market \<Rightarrow> jobs_lane \<Rightarrow> poll_state" where
  "lane_poll_state a w m l =
     (let c = ln_ctx l; i = own_inst w l
      in mk_poll_state\<lparr>ps_present := (i \<noteq> None), ps_actual_status := map_option li_status i, ps_market_min_bid := tm_floor m,
           ps_last_bid := lc_last_bid c, ps_max_bid := ev_max_bid c, ps_last_bid_put_ts := dflt 0 (lc_put_ts c),
           ps_decay_streak := fst (ln_decay l), ps_rescue_attempted := (ev_rescue_deadline c \<noteq> None), ps_now := lw_now w,
           ps_on_demand := tm_on_demand m, ps_launch_dph_anchor := ev_anchor c, ps_budget_usd := la_budget a, ps_spend_usd := ev_spend c,
           ps_rebid_ceiling_mult := Some (ew_rebid_ceiling_mult (lw_evict w)), ps_defense_cap := job_defense_cap (evict_view a w l) c,
           ps_notify_min_bid := rescue_min_bid l (tm_on_demand m), ps_machine_id := machine_text i,
           ps_bid_history := bid_history_for (ladder_part c) (machine_text i), ps_decay_streak_since := snd (ln_decay l)\<rparr>)"

section \<open>The migration\<close>

definition handoff_step :: "lane_args \<Rightarrow> lane_world \<Rightarrow> lane_step" where
  "handoff_step a w x =
     (if \<not> la_handoff a then Inr x
      else (let h = lw_handoff w;
                l1 = on_ctx (\<lambda>c. c\<lparr>ev_spend := ev_spend c + ha_spend h\<rparr>) ((fst x)\<lparr>ln_fence := ha_fence h\<rparr>)
            in case ha_moved h of
                 None \<Rightarrow> Inr (l1, snd x)
               | Some u \<Rightarrow>
                  (let bid = (case inst_of w u of None \<Rightarrow> None | Some y \<Rightarrow> if li_is_bid y = Some True then li_base y else None);
                       l2 = on_ctx (\<lambda>c. box_swap_reset (c\<lparr>ev_iid := u, lc_last_bid := bid, lc_first_seen_dph := bid, ev_not_live := 0,
                              ev_rescue_deadline := None, ev_rebid_rungs := 0, ev_rebid_refused := None\<rparr>) True) (l1\<lparr>ln_was_live := None\<rparr>)
                   in Inl (None, lane_swapped l2, snd x))))"

section \<open>A live box\<close>

definition back_alive :: "lane_args \<Rightarrow> lane_watch \<Rightarrow> lane_watch" where
  "back_alive a x =
     (let x1 = (if ln_was_live (fst x) = Some False \<and> \<not> la_serve a \<and> \<not> la_dry a then call (LReattach (ev_iid (ln_ctx (fst x)))) x else x);
          l = on_ctx (\<lambda>c. c\<lparr>ev_not_live := 0, ev_rescue_deadline := None, ev_rebid_rungs := 0, ev_rebid_refused := None\<rparr>) (fst x1)
      in ((latch_reset (cycle_reset l))\<lparr>ln_resume_tries := 0, ln_announced := None\<rparr>, snd x1))"

definition put_bid :: "lane_args \<Rightarrow> lane_world \<Rightarrow> price \<Rightarrow> lane_watch \<Rightarrow> bool \<times> lane_watch" where
  "put_bid a w p x =
     (if la_dry a then (True, x)
      else (let y = call (LBid (ev_iid (ln_ctx (fst x))) p) x;
                l = on_ctx (\<lambda>c. c\<lparr>lc_put_ts := Some (lw_now w), lc_last_bid := (if lw_bid w then Some p else lc_last_bid c)\<rparr>) (fst y)
            in (lw_bid w, l, snd y)))"

definition live_step :: "lane_args \<Rightarrow> lane_world \<Rightarrow> poll_state \<Rightarrow> lane_watch \<Rightarrow> lane_watch" where
  "live_step a w s x =
     (let y = back_alive a x
      in case bid_action s of
           Some (RaiseBid p) \<Rightarrow> snd (put_bid a w p y)
         | Some (LowerBid p) \<Rightarrow>
             (case put_bid a w p y of (ok, l, cs) \<Rightarrow> (if ok \<and> \<not> la_dry a then l\<lparr>ln_decay := (0, None)\<rparr> else l, cs))
         | _ \<Rightarrow> y)"

section \<open>An evicted box\<close>

definition rescue_wait_s :: "lane_args \<Rightarrow> secs" where
  "rescue_wait_s a = dflt JOB_SUP_RESCUE_WAIT_S (or_num (la_rescue_wait a) None)"

definition arm_rescue :: "lane_args \<Rightarrow> lane_world \<Rightarrow> jobs_lane \<Rightarrow> jobs_lane" where
  "arm_rescue a w l = on_ctx (\<lambda>c. c\<lparr>ev_rescue_deadline := Some (lw_now w + rescue_wait_s a)\<rparr>) l"

text \<open>Rung zero: start the box in place.\<close>

definition job_resume_in_place :: "lane_args \<Rightarrow> lane_world \<Rightarrow> price option \<Rightarrow> bool option \<Rightarrow> lane_watch \<Rightarrow> bool \<times> lane_watch" where
  "job_resume_in_place a w market avail x =
     (let l = fst x; c = ln_ctx l; i = own_inst w l
      in if la_serve a \<or> (case ev_rescue_deadline c of Some d \<Rightarrow> lw_now w \<le> d | None \<Rightarrow> False) then (False, x)
         else (case resume_in_place (i \<noteq> None) (inst_bid i) market (lc_last_bid c) avail (ln_resume_tries l) (la_resume_max a)
                      (la_budget a) (ev_spend c) of
                 SkipStart _ \<Rightarrow> (False, x)
               | StartBox _ \<Rightarrow>
                   if la_dry a then (False, x)
                   else (let y = call (LStart (ev_iid c)) (l\<lparr>ln_resume_tries := ln_resume_tries l + 1\<rparr>, snd x)
                         in if lw_start w then (True, arm_rescue a w (fst y), snd y) else (False, y))))"

text \<open>The move of the rescue rung. On a box that vast still means to run, a floor that is our own bid moves nothing.\<close>

definition rescue_move :: "lane_world \<Rightarrow> price option \<Rightarrow> poll_state \<Rightarrow> jobs_lane \<Rightarrow> bid_move option" where
  "rescue_move w market s l =
     (let i = own_inst w l; act = bid_action s
      in case act of
           Some (RescueBid p) \<Rightarrow>
             if (case i of Some y \<Rightarrow> li_intended y = ''running'' | None \<Rightarrow> False)
                \<and> market_floor_self_match market (lc_last_bid (ln_ctx l)) (bid_history_for (ladder_part (ln_ctx l)) (machine_text i))
                    (Some (lw_now w)) BID_SELF_FLOOR_LAG_S BID_SELF_FLOOR_EPS \<noteq> None
             then None else act
         | _ \<Rightarrow> act)"

definition rescue_step :: "lane_args \<Rightarrow> lane_world \<Rightarrow> bid_move option \<Rightarrow> lane_watch \<Rightarrow> lane_watch" where
  "rescue_step a w act x =
     (case act of
        Some (RescueBid p) \<Rightarrow>
          if ev_rescue_deadline (ln_ctx (fst x)) \<noteq> None then x
          else (case put_bid a w p x of
                  (True, l, cs) \<Rightarrow> (arm_rescue a w (l\<lparr>ln_put_failures := 0\<rparr>), cs)
                | (False, l, cs) \<Rightarrow>
                    if 3 \<le> ln_put_failures l + 1 then (arm_rescue a w (l\<lparr>ln_put_failures := 0\<rparr>), cs)
                    else (l\<lparr>ln_put_failures := ln_put_failures l + 1\<rparr>, cs))
      | _ \<Rightarrow> x)"

definition escalated :: "lane_args \<Rightarrow> lane_world \<Rightarrow> jobs_lane \<Rightarrow> secs option" where
  "escalated a w l =
     (case ln_class l of
        None \<Rightarrow> None
      | Some cls \<Rightarrow> host_stop_escalation cls (ln_views l \<noteq> []) (ev_evicted_since (ln_ctx l)) (Some (lw_now w)) (int (ev_not_live (ln_ctx l)))
                      NOT_LIVE_DEBOUNCE (Some (la_escalate_s a)) HOST_RECOVERY_CLASSES)"

definition waited_out :: "lane_args \<Rightarrow> lane_world \<Rightarrow> bid_move option \<Rightarrow> jobs_lane \<Rightarrow> bool" where
  "waited_out a w act l =
     (own_inst w l = None
      \<or> (case ev_rescue_deadline (ln_ctx l) of Some d \<Rightarrow> d < lw_now w
           | None \<Rightarrow> act = None \<and> 2 * NOT_LIVE_DEBOUNCE \<le> int (ev_not_live (ln_ctx l)))
      \<or> escalated a w l \<noteq> None)"

text \<open>The calls of the disposal are those of the hold.\<close>

definition replace_step :: "lane_args \<Rightarrow> lane_world \<Rightarrow> eviction_class \<Rightarrow> eviction_class \<Rightarrow> lane_watch \<Rightarrow> bool \<times> lane_watch" where
  "replace_step a w cls bare x =
     (let old = ev_iid (ln_ctx (fst x));
          (r, y) = with_ladder (\<lambda>s. case job_eviction_replace (evict_view a w (fst x)) (lw_bucket w) (lw_actor w) (lw_move_listing w)
                     (lw_move_status w) (lw_latch w) cls (Some bare) s of (r, s1) \<Rightarrow> (r, s1\<lparr>es_io := filter kept_call (es_io s1)\<rparr>)) x
      in case r of
           Inl e \<Rightarrow> (False, on_ctx (\<lambda>c. c\<lparr>ev_refused := Some (LaunchFailed ''error'' None)\<rparr>) (fst y), snd y)
         | Inr False \<Rightarrow> (False, y)
         | Inr True \<Rightarrow>
            (let (hb, calls) = retain_box (ret_view a w) old (Some (ev_iid (ln_ctx (fst y))));
                 l = (lane_swapped (fst y))\<lparr>ln_held := ln_held (fst y) @ [hb], ln_boot := (ln_boot (fst y))\<lparr>bo_sampler := None\<rparr>\<rparr>
             in (True, l, snd y @ map LRet calls)))"

text \<open>The ladder below the rescue: another bid on the warm box, then another box. What is left is for the operator.\<close>

definition last_rungs :: "lane_args \<Rightarrow> lane_world \<Rightarrow> tick_market \<Rightarrow> bool option \<Rightarrow> lane_watch \<Rightarrow> tick_result" where
  "last_rungs a w m avail x =
     (let l = fst x; i = own_inst w l;
          cls = (\<lambda>n. classify_eviction (loss_read i (tm_floor m) avail (tm_on_demand m) n l));
          over = (Some LaneUnrecoverable, x)
      in if la_serve a then over
         else (let (kept, x1) = (if i \<noteq> None \<and> escalated a w l = None
                                 then with_ladder (job_rebid_ladder (evict_view a w l) (tm_floor m) (tm_on_demand m) (Some (cls (latched_notice l)))) x
                                 else (False, x))
               in if kept then (None, (fst x1)\<lparr>ln_was_live := Some False\<rparr>, snd x1)
                  else (case replace_step a w (cls (latched_notice l)) (cls None) x1 of
                          (True, l2, cs) \<Rightarrow> (None, l2\<lparr>ln_was_live := Some False\<rparr>, cs)
                        | (False, x2) \<Rightarrow> (Some LaneUnrecoverable, x2))))"

definition evicted_step :: "lane_args \<Rightarrow> lane_world \<Rightarrow> tick_market \<Rightarrow> poll_state \<Rightarrow> lane_watch \<Rightarrow> tick_result" where
  "evicted_step a w m s x =
     (let l0 = on_ctx (\<lambda>c. c\<lparr>ev_not_live := ev_not_live c + 1\<rparr>) (fst x);
          avail = market_listed (job_market_read w (own_inst w l0));
          (s1, l) = (if ln_announced l0 = Some (ev_iid (ln_ctx l0))
                     then (case try_match w l0 of
                             (None, l1) \<Rightarrow> (s, l1)
                           | (Some e, l1) \<Rightarrow> (s\<lparr>ps_notify_min_bid := rescue_min_bid l1 (tm_on_demand m)\<rparr>, l1))
                     else (s, l0));
          x1 = (l, snd x)
      in if int (ev_not_live (ln_ctx l)) < NOT_LIVE_DEBOUNCE then (None, l\<lparr>ln_was_live := Some False\<rparr>, snd x)
         else (case job_resume_in_place a w (tm_floor m) avail x1 of
                 (True, x2) \<Rightarrow> (None, (fst x2)\<lparr>ln_was_live := Some False\<rparr>, snd x2)
               | (False, x2) \<Rightarrow>
                  (let act = rescue_move w (tm_floor m) s1 (fst x2); x3 = rescue_step a w act x2
                   in if waited_out a w act (fst x3) then last_rungs a w m avail x3
                      else (None, (fst x3)\<lparr>ln_was_live := Some False\<rparr>, snd x3))))"

section \<open>The tick\<close>

definition act_step :: "lane_args \<Rightarrow> lane_world \<Rightarrow> tick_market \<Rightarrow> poll_state \<Rightarrow> lane_watch \<Rightarrow> tick_result" where
  "act_step a w m s x =
     (let d = next_decay_state s; l = (fst x)\<lparr>ln_decay := d\<rparr>;
          s1 = s\<lparr>ps_decay_streak := fst d, ps_decay_streak_since := snd d\<rparr>;
          live = lane_inst_live (own_inst w l); fenced = (la_handoff a \<and> ln_fence l); y = (l, snd x)
      in if live \<and> \<not> fenced then (let z = live_step a w s1 y in (None, (fst z)\<lparr>ln_was_live := Some True\<rparr>, snd z))
         else if fenced then (None, l\<lparr>ln_was_live := Some live\<rparr>, snd x)
         else evicted_step a w m s1 y)"

definition exits :: "lane_args \<Rightarrow> lane_world \<Rightarrow> lane_step" where
  "exits a w = andthen (serve_step a w) (andthen (stop_step a w) (andthen (budget_step a) (andthen (boot_step a w) (queue_step a w))))"

definition job_supervise_tick :: "lane_args \<Rightarrow> lane_world \<Rightarrow> jobs_lane \<Rightarrow> tick_result" where
  "job_supervise_tick a w l =
     (case exits a w (lane_observe a w (l, [])) of
        Inl r \<Rightarrow> r
      | Inr x \<Rightarrow>
         (let (m, l1) = market_step a w (fst x); s = lane_poll_state a w m l1
          in case handoff_step a w (l1, snd x) of
               Inl r \<Rightarrow> r
             | Inr y \<Rightarrow> act_step a w m s y))"

text \<open>Ticks until the watch ends, with the calls of each.\<close>

fun supervise :: "lane_args \<Rightarrow> lane_world list \<Rightarrow> jobs_lane \<Rightarrow> lane_verdict option \<times> jobs_lane \<times> lane_io list list" where
  "supervise a [] l = (None, l, [])"
| "supervise a (w # ws) l =
     (case job_supervise_tick a w l of
        (Some v, l1, cs) \<Rightarrow> (Some v, l1, [cs])
      | (None, l1, cs) \<Rightarrow> (case supervise a ws l1 of (v, l2, css) \<Rightarrow> (v, l2, cs # css)))"

end
