(* ===== verification/JobLaneSafety.thy ===== *)
theory JobLaneSafety
  imports JobLane EvictSafety SalvageSafety
begin

text \<open>
  What a watch of \<open>JobLane\<close> guarantees, tick by tick and over the whole watch.

  Lemma groups: the steps that send nothing (\<open>sends_nothing\<close>); how a tick can end early (\<open>tick_exit\<close>); what a live
  and an evicted box can cost; how many boxes a watch can rent; the boot loop.
\<close>

section \<open>Steps that send nothing\<close>

text \<open>The same box, the same spending, the same queue and holds, and no call.\<close>

definition same_store :: "jobs_lane \<Rightarrow> jobs_lane \<Rightarrow> bool" where
  "same_store l l' \<longleftrightarrow> es_bucket (ln_es l') = es_bucket (ln_es l) \<and> ln_held l' = ln_held l"

lemma same_store_refl [simp, intro]: "same_store l l"
  by (simp add: same_store_def)

lemma same_store_trans [trans]: "same_store x y \<Longrightarrow> same_store y z \<Longrightarrow> same_store x z"
  by (simp add: same_store_def)

definition sends_nothing :: "lane_watch \<Rightarrow> lane_watch \<Rightarrow> bool" where
  "sends_nothing x y \<longleftrightarrow> snd y = snd x \<and> ev_iid (ln_ctx (fst y)) = ev_iid (ln_ctx (fst x))
     \<and> ev_spend (ln_ctx (fst y)) = ev_spend (ln_ctx (fst x)) \<and> ev_not_live (ln_ctx (fst y)) = ev_not_live (ln_ctx (fst x))
     \<and> ev_replacements (ln_ctx (fst y)) = ev_replacements (ln_ctx (fst x))
     \<and> bo_relaunches (ln_boot (fst y)) = bo_relaunches (ln_boot (fst x)) \<and> ln_fence (fst y) = ln_fence (fst x)
     \<and> same_store (fst x) (fst y)"

lemma quiet_refl [simp, intro]: "sends_nothing x x"
  by (simp add: sends_nothing_def)

lemma quiet_trans [trans]: "sends_nothing x y \<Longrightarrow> sends_nothing y z \<Longrightarrow> sends_nothing x z"
  by (simp add: sends_nothing_def same_store_def)

lemma on_ctx_simps [simp]:
  "ln_ctx (on_ctx f l) = f (ln_ctx l)" "ln_boot (on_ctx f l) = ln_boot l" "ln_fence (on_ctx f l) = ln_fence l"
  "ln_views (on_ctx f l) = ln_views l" "ln_samples (on_ctx f l) = ln_samples l" "ln_held (on_ctx f l) = ln_held l"
  "ln_announced (on_ctx f l) = ln_announced l" "ln_class (on_ctx f l) = ln_class l" "ln_decay (on_ctx f l) = ln_decay l"
  "ln_notify (on_ctx f l) = ln_notify l" "ln_consumed (on_ctx f l) = ln_consumed l" "ln_t_prev (on_ctx f l) = ln_t_prev l"
  "ln_put_failures (on_ctx f l) = ln_put_failures l" "ln_reconciled (on_ctx f l) = ln_reconciled l"
  "es_bucket (ln_es (on_ctx f l)) = es_bucket (ln_es l)"
  by (simp_all add: on_ctx_def ln_ctx_def)

lemma ln_ctx_update [simp]:
  "ln_ctx (l\<lparr>ln_held := h\<rparr>) = ln_ctx l" "ln_ctx (l\<lparr>ln_boot := b\<rparr>) = ln_ctx l" "ln_ctx (l\<lparr>ln_t_prev := t\<rparr>) = ln_ctx l"
  "ln_ctx (l\<lparr>ln_samples := ss\<rparr>) = ln_ctx l" "ln_ctx (l\<lparr>ln_decay := d\<rparr>) = ln_ctx l" "ln_ctx (l\<lparr>ln_was_live := wl\<rparr>) = ln_ctx l"
  "ln_ctx (l\<lparr>ln_views := vs\<rparr>) = ln_ctx l" "ln_ctx (l\<lparr>ln_announced := an\<rparr>) = ln_ctx l" "ln_ctx (l\<lparr>ln_class := cl\<rparr>) = ln_ctx l"
  "ln_ctx (l\<lparr>ln_notify := nt\<rparr>) = ln_ctx l" "ln_ctx (l\<lparr>ln_consumed := ids\<rparr>) = ln_ctx l" "ln_ctx (l\<lparr>ln_put_failures := pf\<rparr>) = ln_ctx l"
  "ln_ctx (l\<lparr>ln_resume_tries := rt\<rparr>) = ln_ctx l" "ln_ctx (l\<lparr>ln_reconciled := rc\<rparr>) = ln_ctx l" "ln_ctx (l\<lparr>ln_fence := fe\<rparr>) = ln_ctx l"
  "ln_ctx (l\<lparr>ln_launch_disk := ld\<rparr>) = ln_ctx l" "ln_ctx (l\<lparr>ln_cc_allow := ca\<rparr>) = ln_ctx l" "ln_ctx (l\<lparr>ln_env_pin := ep\<rparr>) = ln_ctx l"
  "ln_ctx (l\<lparr>ln_entry_floor := ef\<rparr>) = ln_ctx l" "ln_ctx (l\<lparr>ln_condemned := cd\<rparr>) = ln_ctx l"
  by (simp_all add: ln_ctx_def)

lemma ln_ctx_es [simp]: "ln_ctx (l\<lparr>ln_es := s\<rparr>) = es_ctx s"
  by (simp add: ln_ctx_def)

lemma put_ladder_simps [simp]:
  "ev_iid (put_ladder b c) = ev_iid c" "ev_spend (put_ladder b c) = ev_spend c" "ev_not_live (put_ladder b c) = ev_not_live c"
  "ev_replacements (put_ladder b c) = ev_replacements c" "ev_max_bid (put_ladder b c) = ev_max_bid c"
  "ev_rescue_deadline (put_ladder b c) = ev_rescue_deadline c" "ev_anchor (put_ladder b c) = ev_anchor c"
  by (cases b, cases c, simp add: put_ladder_def ladder_ctx.defs)+

lemma self_floor_reset_ev [simp]:
  "ev_iid (self_floor_reset c) = ev_iid c" "ev_spend (self_floor_reset c) = ev_spend c"
  "ev_not_live (self_floor_reset c) = ev_not_live c" "ev_replacements (self_floor_reset c) = ev_replacements c"
  by (simp_all add: self_floor_reset_def)

lemma box_swap_reset_ev [simp]:
  "ev_iid (box_swap_reset c b) = ev_iid c" "ev_spend (box_swap_reset c b) = ev_spend c"
  "ev_not_live (box_swap_reset c b) = ev_not_live c" "ev_replacements (box_swap_reset c b) = ev_replacements c"
  by (simp_all add: box_swap_reset_def self_floor_reset_def Let_def)

lemma read_on_demand_ev:
  assumes "read_on_demand w i c = (od, c')"
  shows "ev_iid c' = ev_iid c \<and> ev_spend c' = ev_spend c \<and> ev_not_live c' = ev_not_live c \<and> ev_replacements c' = ev_replacements c"
  using assms by (auto simp: read_on_demand_def sticky_on_demand_def split: option.splits)

lemma try_match_quiet:
  assumes "try_match w l = (e, l')"
  shows "ln_es l' = ln_es l \<and> ln_boot l' = ln_boot l \<and> ln_fence l' = ln_fence l \<and> ln_class l' = ln_class l \<and> ln_views l' = ln_views l
    \<and> ln_held l' = ln_held l"
  using assms by (auto simp: try_match_def notify_sweep_def split: option.splits)

lemma announce_quiet: "sends_nothing (l, cs) (announce_eviction w i l, cs)"
proof (cases "ln_announced l = Some (ev_iid (ln_ctx l))")
  case False
  let ?l1 = "on_ctx self_floor_reset (l\<lparr>ln_announced := Some (ev_iid (ln_ctx l))\<rparr>)"
  obtain od c where rd: "read_on_demand w i (ln_ctx ?l1) = (od, c)" by force
  obtain e l3 where tm: "try_match w (on_ctx (\<lambda>_. c) ?l1) = (e, l3)" by force
  have l3: "ln_ctx l3 = c" "ln_boot l3 = ln_boot l" "ln_fence l3 = ln_fence l" "same_store l l3"
    using try_match_quiet [OF tm] by (simp_all add: ln_ctx_def on_ctx_def same_store_def)
  show ?thesis using False read_on_demand_ev [OF rd] l3
    by (simp add: announce_eviction_def Let_def rd [simplified] tm sends_nothing_def same_store_def)
qed (simp add: announce_eviction_def)

section \<open>Observing\<close>

definition spent_by_now :: "lane_world \<Rightarrow> jobs_lane \<Rightarrow> price" where
  "spent_by_now w l = ev_spend (ln_ctx l) + (if lane_inst_live (own_inst w l)
     then dflt 0 (Option.bind (own_inst w l) li_dph) * (lw_now w - ln_t_prev l) / 3600 else 0)"

lemma own_inst_cong: "ev_iid (ln_ctx l') = ev_iid (ln_ctx l) \<Longrightarrow> own_inst w l' = own_inst w l"
  by (simp add: own_inst_def)

lemma lane_observe_frame:
  assumes "lane_observe a w (l, cs) = y"
  shows "snd y = cs @ map LRet (snd (retention_sweep (ret_view a w) (ln_held l)))
    \<and> ln_held (fst y) = fst (retention_sweep (ret_view a w) (ln_held l)) \<and> es_bucket (ln_es (fst y)) = es_bucket (ln_es l)
    \<and> ev_iid (ln_ctx (fst y)) = ev_iid (ln_ctx l) \<and> ev_spend (ln_ctx (fst y)) = spent_by_now w l \<and> ev_not_live (ln_ctx (fst y)) = ev_not_live (ln_ctx l)
    \<and> ev_replacements (ln_ctx (fst y)) = ev_replacements (ln_ctx l) \<and> ln_boot (fst y) = ln_boot l"
proof -
  let ?l1 = "if la_handoff a \<and> \<not> ln_reconciled l then l\<lparr>ln_reconciled := True, ln_fence := (ln_fence l \<and> \<not> lw_twin w)\<rparr> else l"
  have l1: "ln_ctx ?l1 = ln_ctx l" "ln_boot ?l1 = ln_boot l" "ln_t_prev ?l1 = ln_t_prev l" "same_store l ?l1" by (simp_all add: same_store_def)
  have i: "own_inst w ?l1 = own_inst w l" by (rule own_inst_cong) (simp add: l1)
  have ac: "ev_iid (ln_ctx (lane_accrue w i l)) = ev_iid (ln_ctx l)" "ev_not_live (ln_ctx (lane_accrue w i l)) = ev_not_live (ln_ctx l)"
    "ev_replacements (ln_ctx (lane_accrue w i l)) = ev_replacements (ln_ctx l)" "ln_boot (lane_accrue w i l) = ln_boot l"
    "ln_held (lane_accrue w i l) = ln_held l" "es_bucket (ln_es (lane_accrue w i l)) = es_bucket (ln_es l)"
    "ev_spend (ln_ctx (lane_accrue w i l)) = ev_spend (ln_ctx l) + (if lane_inst_live i then dflt 0 (Option.bind i li_dph) * (lw_now w - ln_t_prev l) / 3600 else 0)"
    for i l by (simp_all add: lane_accrue_def Let_def)
  have rb: "ev_iid (reconcile_bid w i c) = ev_iid c" "ev_not_live (reconcile_bid w i c) = ev_not_live c"
    "ev_replacements (reconcile_bid w i c) = ev_replacements c" "ev_spend (reconcile_bid w i c) = ev_spend c" for i c
    by (simp_all add: reconcile_bid_def)
  have an: "ev_iid (ln_ctx (anchors i l)) = ev_iid (ln_ctx l)" "ev_not_live (ln_ctx (anchors i l)) = ev_not_live (ln_ctx l)"
    "ev_replacements (ln_ctx (anchors i l)) = ev_replacements (ln_ctx l)" "ev_spend (ln_ctx (anchors i l)) = ev_spend (ln_ctx l)"
    "ln_boot (anchors i l) = ln_boot l" "ln_held (anchors i l) = ln_held l" "es_bucket (ln_es (anchors i l)) = es_bucket (ln_es l)" for i l
    by (simp_all add: anchors_def Let_def split: option.split)
  show ?thesis using assms
    by (cases "retention_sweep (ret_view a w) (ln_held l)")
      (auto simp: lane_observe_def Let_def ac rb an i l1 l1(4) [unfolded same_store_def] spent_by_now_def simp del: map_append)
qed

section \<open>How a tick ends before it acts\<close>

inductive tick_exit :: "lane_args \<Rightarrow> lane_world \<Rightarrow> lane_watch \<Rightarrow> tick_result \<Rightarrow> bool" for a w where
  exit_identity: "la_serve a \<Longrightarrow> la_expect a \<Longrightarrow> lw_serve_identity w \<Longrightarrow> own_inst w (fst y) \<noteq> None
    \<Longrightarrow> tick_exit a w y (Some IdentityMismatch, stop_unless (la_dry a) y)"
| exit_still_condemned: "la_serve a \<Longrightarrow> la_expect a \<Longrightarrow> tick_exit a w y (Some IdentityMismatch, y)"
| exit_stopped: "v \<in> {SelfParked, OperatorPark} \<Longrightarrow> own_inst w (fst y) \<noteq> None \<Longrightarrow> tick_exit a w y (Some v, y)"
| exit_budget: "over_budget a (fst y) \<Longrightarrow> tick_exit a w y (Some OverBudget, stop_unless (la_dry a) y)"
| exit_serve: "la_serve a \<Longrightarrow> \<not> over_budget a (fst y) \<Longrightarrow> v \<in> {None, Some SlaRelaunched, Some LaneUnrecoverable} \<Longrightarrow> tick_exit a w y (v, y)"
| exit_condemned: "\<not> la_serve a \<Longrightarrow> \<not> over_budget a (fst y) \<Longrightarrow> own_inst w (fst y) \<noteq> None \<Longrightarrow> tick_exit a w y (condemn_step a w v y)"
| exit_drained: "\<not> la_serve a \<Longrightarrow> \<not> over_budget a (fst y) \<Longrightarrow> lw_queue w = Some jids \<Longrightarrow> jids \<noteq> []
    \<Longrightarrow> pending_views w (lane_inst_live (own_inst w (fst y))) jids = []
    \<Longrightarrow> tick_exit a w y (Some QueueDrained, stop_unless (la_keep a \<or> la_dry a) y)"
| exit_empty: "\<not> la_serve a \<Longrightarrow> \<not> over_budget a (fst y) \<Longrightarrow> lw_queue w = Some [] \<Longrightarrow> tick_exit a w y (Some QueueEmpty, y)"

text \<open>A step that ends the tick so, or goes on quietly.\<close>

definition settles :: "lane_args \<Rightarrow> lane_world \<Rightarrow> lane_step \<Rightarrow> (lane_watch \<Rightarrow> bool) \<Rightarrow> (lane_watch \<Rightarrow> bool) \<Rightarrow> bool" where
  "settles a w f P Q \<longleftrightarrow> (\<forall>x. P x \<longrightarrow> (case f x of
      Inl r \<Rightarrow> (\<exists>y. sends_nothing x y \<and> tick_exit a w y r) | Inr y \<Rightarrow> sends_nothing x y \<and> Q y))"

lemma settlesI:
  assumes "\<And>x r. P x \<Longrightarrow> f x = Inl r \<Longrightarrow> \<exists>y. sends_nothing x y \<and> tick_exit a w y r"
    "\<And>x y. P x \<Longrightarrow> f x = Inr y \<Longrightarrow> sends_nothing x y \<and> Q y"
  shows "settles a w f P Q"
  using assms by (auto simp: settles_def split: sum.split)

lemma settles_here:
  assumes "\<And>x r. P x \<Longrightarrow> f x = Inl r \<Longrightarrow> tick_exit a w x r" "\<And>x y. P x \<Longrightarrow> f x = Inr y \<Longrightarrow> sends_nothing x y \<and> Q y"
  shows "settles a w f P Q"
  using assms quiet_refl by (intro settlesI) blast+

lemma settlesD:
  assumes "settles a w f P Q" "P x"
  shows "f x = Inl r \<Longrightarrow> \<exists>y. sends_nothing x y \<and> tick_exit a w y r" "f x = Inr y \<Longrightarrow> sends_nothing x y \<and> Q y"
  using assms by (auto simp: settles_def split: sum.splits simp del: split_paired_All split_paired_Ex)

lemma settles_andthen:
  assumes f: "settles a w f P Q" and g: "settles a w g Q R"
  shows "settles a w (andthen f g) P R"
proof (rule settlesI)
  fix x r assume p: "P x" and r: "andthen f g x = Inl r"
  show "\<exists>y. sends_nothing x y \<and> tick_exit a w y r"
  proof (cases "f x")
    case (Inl r')
    then show ?thesis using settlesD(1) [OF f p] r by (simp add: andthen_def)
  next
    case (Inr z)
    then have "sends_nothing x z" "Q z" "g z = Inl r" using settlesD(2) [OF f p] r by (simp_all add: andthen_def)
    then show ?thesis using settlesD(1) [OF g] quiet_trans by blast
  qed
next
  fix x y assume p: "P x" and y: "andthen f g x = Inr y"
  then obtain z where "f x = Inr z" "g z = Inr y" by (cases "f x") (auto simp: andthen_def)
  then show "sends_nothing x y \<and> R y" using settlesD(2) [OF f p] settlesD(2) [OF g] quiet_trans by blast
qed

lemma settles_serve: "settles a w (serve_step a w) (\<lambda>_. True) (\<lambda>_. True)"
proof (rule settlesI)
  fix x r assume r: "serve_step a w x = Inl r"
  then have s: "la_serve a" "la_expect a" by (auto simp: serve_step_def Let_def split: if_splits)
  show "\<exists>y. sends_nothing x y \<and> tick_exit a w y r"
  proof (cases "ln_condemned (fst x)")
    case True
    then have "r = (Some IdentityMismatch, x)" using r s by (simp add: serve_step_def)
    then show ?thesis using exit_still_condemned [OF s] quiet_refl by blast
  next
    case False
    let ?y = "((fst x)\<lparr>ln_condemned := True\<rparr>, snd x)"
    have "r = (Some IdentityMismatch, stop_unless (la_dry a) ?y)" "lw_serve_identity w" "own_inst w (fst ?y) \<noteq> None"
      using r s False by (auto simp: serve_step_def Let_def own_inst_def split: if_splits)
    moreover have "sends_nothing x ?y" by (simp add: sends_nothing_def same_store_def)
    ultimately show ?thesis using exit_identity [OF s, of w ?y] by blast
  qed
qed (auto simp: serve_step_def Let_def sends_nothing_def same_store_def split: if_splits)

lemma settles_stop: "settles a w (stop_step a w) (\<lambda>_. True) (\<lambda>_. True)"
proof (rule settlesI)
  fix x r assume r: "stop_step a w x = Inl r"
  let ?i = "own_inst w (fst x)"
  have p: "?i \<noteq> None" using r by (auto simp: stop_step_def Let_def split: if_splits option.splits)
  have "\<exists>v\<in>{SelfParked, OperatorPark}. r = (Some v, x)" using r
    by (auto simp: stop_step_def Let_def classify_job_box_stop_def split: if_splits option.splits)
  then show "\<exists>y. sends_nothing x y \<and> tick_exit a w y r" using p exit_stopped by blast
next
  fix x y assume y: "stop_step a w x = Inr y"
  show "sends_nothing x y \<and> True" using y announce_quiet [of "fst x" "snd x" w "own_inst w (fst x)"]
    by (auto simp: stop_step_def Let_def split: if_splits option.splits)
qed

lemma settles_budget: "settles a w (budget_step a) (\<lambda>_. True) (\<lambda>x. \<not> over_budget a (fst x))"
proof (rule settles_here)
  fix x r assume "budget_step a x = Inl r"
  then have "over_budget a (fst x)" "r = (Some OverBudget, stop_unless (la_dry a) x)" by (simp_all add: budget_step_def split: if_splits)
  then show "tick_exit a w x r" by (simp only: exit_budget)
qed (simp add: budget_step_def split: if_splits)

lemma over_budget_quiet: "sends_nothing x y \<Longrightarrow> over_budget a (fst y) = over_budget a (fst x)"
  by (simp add: over_budget_def sends_nothing_def split: option.split)

lemma pull_watchdog_frame:
  "job_pull_watchdog_tick kn iid t i now b = (v, b') \<Longrightarrow> bo_relaunches b' = bo_relaunches b"
  by (auto simp: job_pull_watchdog_tick_def Let_def split: if_splits prod.splits)

lemma boot_sla_frame:
  "job_boot_sla_tick kn iid t st now b = (v, b', g) \<Longrightarrow> bo_relaunches b' = bo_relaunches b"
  by (auto simp: job_boot_sla_tick_def split: if_splits option.splits prod.splits)

lemma settles_boot: "settles a w (boot_step a w) (\<lambda>x. \<not> over_budget a (fst x)) (\<lambda>x. \<not> over_budget a (fst x))"
proof (rule settlesI)
  fix x r assume b: "\<not> over_budget a (fst x)" and r: "boot_step a w x = Inl r"
  obtain i where i: "own_inst w (fst x) = Some i" using r by (cases "own_inst w (fst x)") (auto simp: boot_step_def Let_def)
  have q: "bo_relaunches b' = bo_relaunches (ln_boot (fst x)) \<Longrightarrow> sends_nothing x ((fst x)\<lparr>ln_boot := b'\<rparr>, snd x)" for b'
    by (simp add: sends_nothing_def same_store_def)
  have k: "tick_exit a w ((fst x)\<lparr>ln_boot := b'\<rparr>, snd x) (condemn_step a w v ((fst x)\<lparr>ln_boot := b'\<rparr>, snd x))" if "\<not> la_serve a" for b' v
    using that b i by (intro exit_condemned) (auto simp: over_budget_def own_inst_def split: option.splits)
  have s: "tick_exit a w ((fst x)\<lparr>ln_boot := b'\<rparr>, snd x) (v, (fst x)\<lparr>ln_boot := b'\<rparr>, snd x)"
    if "la_serve a" "v \<in> {None, Some SlaRelaunched, Some LaneUnrecoverable}" for b' v
    using that b by (intro exit_serve) (auto simp: over_budget_def split: option.splits)
  show "\<exists>y. sends_nothing x y \<and> tick_exit a w y r"
  proof (cases "la_serve a")
    case True
    then obtain b' v where "r = (v, (fst x)\<lparr>ln_boot := b'\<rparr>, snd x)" "bo_relaunches b' = bo_relaunches (ln_boot (fst x))"
      "v \<in> {None, Some SlaRelaunched, Some LaneUnrecoverable}"
      using r i by (auto simp: boot_step_def Let_def split: if_splits option.splits)
    then show ?thesis using s [OF True] q by blast
  next
    case False
    then obtain b' v where "r = condemn_step a w v ((fst x)\<lparr>ln_boot := b'\<rparr>, snd x)" "bo_relaunches b' = bo_relaunches (ln_boot (fst x))"
      using r i by (auto simp: boot_step_def Let_def split: if_splits option.splits prod.splits
          dest!: pull_watchdog_frame boot_sla_frame)
    then show ?thesis using k [OF False] q by blast
  qed
next
  fix x y assume b: "\<not> over_budget a (fst x)" and y: "boot_step a w x = Inr y"
  have "sends_nothing x y" using y
    by (auto simp: boot_step_def Let_def sends_nothing_def same_store_def ln_ctx_def split: if_splits option.splits prod.splits
        dest!: pull_watchdog_frame boot_sla_frame)
  then show "sends_nothing x y \<and> \<not> over_budget a (fst y)" using b over_budget_quiet by blast
qed

lemma settles_queue: "settles a w (queue_step a w) (\<lambda>x. \<not> over_budget a (fst x))
    (\<lambda>y. \<not> over_budget a (fst y) \<and> (\<not> la_serve a \<longrightarrow> \<not> (la_handoff a \<and> ln_fence (fst y)) \<longrightarrow> lw_queue w \<noteq> Some []))"
proof (rule settlesI)
  fix x r assume b: "\<not> over_budget a (fst x)" and r: "queue_step a w x = Inl r"
  show "\<exists>y. sends_nothing x y \<and> tick_exit a w y r"
    using r b by (intro exI [of _ x]) (auto simp: queue_step_def Let_def split: if_splits option.splits intro!: exit_drained exit_empty)
next
  fix x y assume b: "\<not> over_budget a (fst x)" and y: "queue_step a w x = Inr y"
  have q: "sends_nothing x y" using y by (auto simp: queue_step_def Let_def sends_nothing_def same_store_def split: if_splits option.splits)
  moreover have "\<not> la_serve a \<longrightarrow> \<not> (la_handoff a \<and> ln_fence (fst y)) \<longrightarrow> lw_queue w \<noteq> Some []"
    using y by (auto simp: queue_step_def Let_def split: if_splits option.splits)
  ultimately show "sends_nothing x y \<and> \<not> over_budget a (fst y) \<and> (\<not> la_serve a \<longrightarrow> \<not> (la_handoff a \<and> ln_fence (fst y)) \<longrightarrow> lw_queue w \<noteq> Some [])"
    using b over_budget_quiet by blast
qed

lemma settles_exits: "settles a w (exits a w) (\<lambda>_. True) (\<lambda>y. \<not> over_budget a (fst y)
    \<and> (\<not> la_serve a \<longrightarrow> \<not> (la_handoff a \<and> ln_fence (fst y)) \<longrightarrow> lw_queue w \<noteq> Some []))"
  unfolding exits_def
  by (intro settles_andthen [OF settles_serve] settles_andthen [OF settles_stop] settles_andthen [OF settles_budget]
      settles_andthen [OF settles_boot] settles_queue)

section \<open>Boxes that come and go\<close>

lemma with_ladderE:
  assumes "with_ladder f x = (r, y)"
  obtains s where "f ((ln_es (fst x))\<lparr>es_io := []\<rparr>) = (r, s)" "y = ((fst x)\<lparr>ln_es := s\<lparr>es_io := []\<rparr>\<rparr>, snd x @ map LLadder (es_io s))"
  using assms by (cases "f ((ln_es (fst x))\<lparr>es_io := []\<rparr>)") (auto simp: with_ladder_def Let_def)

text \<open>What a condemned box becomes: nothing, a refused rental, or another box with the queue moved and the
  old one destroyed, against the count.\<close>

definition rehost_refused :: "evict_state \<times> boot_ctx \<Rightarrow> evict_state \<times> boot_ctx \<Rightarrow> bool" where
  "rehost_refused sb sb' \<longleftrightarrow> bo_relaunches (snd sb') = bo_relaunches (snd sb) \<and> ev_iid (es_ctx (fst sb')) = ev_iid (es_ctx (fst sb))
     \<and> ev_replacements (es_ctx (fst sb')) = ev_replacements (es_ctx (fst sb))
     \<and> (es_io (fst sb') = es_io (fst sb) \<or> (\<exists>x k p. es_io (fst sb') = es_io (fst sb) @ [DLaunch x k p]))"

definition rehost_done :: "boot_knobs \<Rightarrow> evict_world \<Rightarrow> evict_state \<times> boot_ctx \<Rightarrow> evict_state \<times> boot_ctx \<Rightarrow> bool" where
  "rehost_done kn wd sb sb' \<longleftrightarrow> bo_relaunches (snd sb) < bk_max_retries kn \<and> bo_relaunches (snd sb') = bo_relaunches (snd sb) + 1
     \<and> ev_replacements (es_ctx (fst sb')) = ev_replacements (es_ctx (fst sb))
     \<and> (\<exists>x k p. es_io (fst sb') = es_io (fst sb) @ [DLaunch x k p, DMoveQueue (ev_iid (es_ctx (fst sb))) (ev_iid (es_ctx (fst sb'))),
           DDestroy (ev_iid (es_ctx (fst sb)))])"

lemma note_condemned_frame [simp]:
  "ev_iid (es_ctx (note_condemned wd latch v s)) = ev_iid (es_ctx s)"
  "ev_replacements (es_ctx (note_condemned wd latch v s)) = ev_replacements (es_ctx s)"
  "es_io (note_condemned wd latch v s) = es_io s" "es_bucket (note_condemned wd latch v s) = es_bucket s"
  by (simp_all add: note_condemned_def split: option.split)

lemma rehosted_simps [simp]:
  "ev_iid (rehosted k cid dph c) = cid" "ev_replacements (rehosted k cid dph c) = ev_replacements c"
  by (simp_all add: rehosted_def Let_def)

lemma clear_refusals_ev [simp]:
  "ev_iid (clear_refusals c) = ev_iid c" "ev_replacements (clear_refusals c) = ev_replacements c"
  by (simp_all add: clear_refusals_def)

lemma job_pull_condemnE:
  assumes "job_pull_condemn kn wd w actor listing statuses latch is_bid v sb = (ok, sb')"
  obtains "\<not> ok" "rehost_refused sb sb'" | "ok" "rehost_done kn wd sb sb'"
proof -
  obtain s0 b where sb: "sb = (s0, b)" by force
  let ?s = "note_condemned wd latch v s0"
  note d = assms [unfolded job_pull_condemn_def sb prod.case Let_def]
  show thesis
  proof (cases "bk_max_retries kn \<le> bo_relaunches b")
    case True
    then have "\<not> ok" "rehost_refused sb sb'" using d by (auto simp: rehost_refused_def sb)
    then show thesis by (rule that(1))
  next
    case room: False
    note d = d [unfolded if_not_P [OF room]]
    show thesis
    proof (cases "(case ew_budget wd of Some x \<Rightarrow> x \<le> ev_spend (es_ctx ?s) | None \<Rightarrow> False) \<or> ew_dry_run wd")
      case True
      then have "sb' = (?s, b)" "\<not> ok" using d by (auto split: if_splits)
      then have "\<not> ok" "rehost_refused sb sb'" by (auto simp: rehost_refused_def sb)
      then show thesis by (rule that(1))
    next
      case False
      let ?k = "if is_bid = Some False then RentOndemand else RentBid"
      let ?cap = "replacement_ceiling_of wd (es_ctx ?s)"
      obtain res s1 where l: "launch_replacement wd (set (ev_pull_bad (es_ctx ?s))) None ?k None ?cap ?s = (res, s1)" by force
      have f: "\<not> (case ew_budget wd of Some x \<Rightarrow> x \<le> ev_spend (es_ctx ?s) | None \<Rightarrow> False)" "\<not> ew_dry_run wd" using False by blast+
      note d = d [unfolded if_not_P [OF f(1)] if_not_P [OF f(2)] l prod.case]
      show thesis
      proof (cases res)
        case (Inl why)
        note h = launch_fails [OF l [unfolded Inl]]
        have "\<not> ok" "rehost_refused sb sb'" using d Inl h by (auto simp: rehost_refused_def sb note_refusal_def Let_def)
        then show thesis by (rule that(1))
      next
        case (Inr cd)
        obtain cid dph where cd: "cd = (cid, dph)" by force
        obtain x where h: "s1 = ?s\<lparr>es_io := es_io ?s @ [DLaunch x ?k (launch_price wd ?k None x)]\<rparr>"
          using launch_rents [OF l [unfolded Inr cd]] by auto
        have "ok" "rehost_done kn wd sb sb'" using d Inr cd h room by (auto simp: rehost_done_def sb)
        then show thesis by (rule that(2))
      qed
    qed
  qed
qed

text \<open>The calls that put a box under the watch, take one away, or cost money.\<close>

definition queue_moves :: "lane_io list \<Rightarrow> nat" where
  "queue_moves cs = length (filter (\<lambda>c. case c of LLadder (DMoveQueue _ _) \<Rightarrow> True | _ \<Rightarrow> False) cs)"

text \<open>Destroys of the ladders and those of the holds alike.\<close>

definition destroys :: "lane_io \<Rightarrow> bool" where
  "destroys c = (case c of LLadder (DDestroy _) \<Rightarrow> True | LRet (RetDestroy _) \<Rightarrow> True | _ \<Rightarrow> False)"

definition boxes_destroyed :: "lane_io list \<Rightarrow> nat" where
  "boxes_destroyed cs = length (filter destroys cs)"

definition ret_destroys :: "ret_call list \<Rightarrow> nat" where
  "ret_destroys rs = length (filter (\<lambda>c. case c of RetDestroy _ \<Rightarrow> True | _ \<Rightarrow> False) rs)"

definition open_holds :: "held_box list \<Rightarrow> nat" where
  "open_holds hs = length (filter open_held hs)"

definition pays :: "lane_io \<Rightarrow> bool" where
  "pays c = (case c of LStart _ \<Rightarrow> True | LBid _ _ \<Rightarrow> True | LLadder (DBid _ _) \<Rightarrow> True | LLadder (DLaunch _ _ _) \<Rightarrow> True
     | LRet (RetPin _) \<Rightarrow> True | _ \<Rightarrow> False)"

lemma counts_append [simp]:
  "queue_moves (xs @ ys) = queue_moves xs + queue_moves ys" "boxes_destroyed (xs @ ys) = boxes_destroyed xs + boxes_destroyed ys"
  "queue_moves [] = 0" "boxes_destroyed [] = 0" "queue_moves (map LRet rs) = 0" "boxes_destroyed (map LRet rs) = ret_destroys rs"
  by (simp_all add: queue_moves_def boxes_destroyed_def ret_destroys_def filter_map comp_def destroys_def)

lemma counts_Cons [simp]:
  "queue_moves (c # cs) = (case c of LLadder (DMoveQueue _ _) \<Rightarrow> 1 | _ \<Rightarrow> 0) + queue_moves cs"
  "boxes_destroyed (c # cs) = (if destroys c then 1 else 0) + boxes_destroyed cs"
  by (simp_all add: queue_moves_def boxes_destroyed_def split: lane_io.split ladder_io.split)

lemma destroys_simps [simp]:
  "destroys (LLadder (DDestroy i))" "destroys (LRet (RetDestroy i))" "\<not> destroys (LStop i)" "\<not> destroys (LStart i)" "\<not> destroys (LBid i p)"
  "\<not> destroys (LReattach i)" "\<not> destroys (LLadder (DLaunch x k q))" "\<not> destroys (LLadder (DMoveQueue i j))" "\<not> destroys (LLadder (DBid i p))"
  by (simp_all add: destroys_def)

text \<open>A sweep of the holds destroys a box only as it closes its hold; a box that is retained is held or destroyed.\<close>

lemma ret_destroys_append [simp]: "ret_destroys (xs @ ys) = ret_destroys xs + ret_destroys ys"
  by (simp add: ret_destroys_def)

lemma ret_destroys_none: "set cs \<inter> range RetDestroy = {} \<Longrightarrow> ret_destroys cs = 0"
  by (auto simp: ret_destroys_def filter_empty_conv split: ret_call.splits)

lemma sweep_held_destroys_count:
  "ret_destroys (snd (sweep_held w r)) + open_holds [fst (sweep_held w r)] \<le> open_holds [r]"
proof (cases "open_held r")
  case True
  show ?thesis
  proof (cases "listed w (hb_iid r)")
    case None
    then show ?thesis using True by (simp add: sweep_held_def open_held_def open_holds_def ret_destroys_def Let_def)
  next
    case (Some row)
    obtain r1 cs where l: "retention_liveness w row r = (r1, cs)" by force
    have n: "ret_destroys cs = 0" using liveness_calls [of w row r] l by (intro ret_destroys_none) auto
    then have "ret_destroys (cs @ [RetDestroy i]) = 1" for i by (simp add: ret_destroys_def)
    moreover have "hb_status r1 = hb_status r" using liveness_frame(2) [of w row r] l by simp
    ultimately show ?thesis using True Some l n by (simp add: sweep_held_def open_held_def open_holds_def Let_def)
  qed
qed (simp add: sweep_held_closed open_holds_def ret_destroys_def)

lemma sweep_destroys_count:
  "ret_destroys (snd (retention_sweep w rs)) + open_holds (fst (retention_sweep w rs)) \<le> open_holds rs"
proof (induction rs)
  case (Cons r rs)
  have "ret_destroys (snd (job_salvage_step w r)) = 0" using salvage_step_calls [of w r] by (intro ret_destroys_none) auto
  moreover have "open_holds [fst (job_salvage_step w r)] = open_holds [r]" by (simp add: open_holds_def open_held_def)
  ultimately show ?case using Cons.IH sweep_held_destroys_count [of w "fst (job_salvage_step w r)"]
    by (simp add: retention_sweep_def Let_def open_holds_def split: if_splits)
qed (simp add: retention_sweep_def open_holds_def ret_destroys_def)

lemma retain_destroys_count:
  assumes "retain_box w old new = (hb, rs)"
  shows "ret_destroys rs + open_holds [hb] \<le> 1"
proof -
  have q: "ret_destroys (snd (quiesce_box w old row y)) = 0" for row y
    using quiesce_calls [of w old row y] by (intro ret_destroys_none) auto
  then have q': "ret_destroys cs = 0" if "quiesce_box w old row y = (qz, cs)" for row y qz cs using that by (metis snd_conv)
  have c: "ret_destroys (RetLabel i d # cs) = ret_destroys cs" for i d cs by (simp add: ret_destroys_def)
  show ?thesis using assms
    by (auto simp: retain_box_def Let_def open_holds_def open_held_def ret_destroys_def [of "[RetDestroy _]"] ret_destroys_def [of "[]"] c q'
        split: retention_action.splits prod.splits if_splits)
qed

text \<open>A step accounts for its boxes: each move of the queue is charged to one of the two counts, each destroy to one of
  them or to a hold that was open, and neither count is charged past its limit.\<close>

definition moved_on :: "jobs_lane \<Rightarrow> jobs_lane \<Rightarrow> int" where
  "moved_on l l' = (ev_replacements (ln_ctx l') - ev_replacements (ln_ctx l)) + (int (bo_relaunches (ln_boot l')) - int (bo_relaunches (ln_boot l)))"

definition charged :: "lane_args \<Rightarrow> int \<Rightarrow> lane_watch \<Rightarrow> lane_watch \<Rightarrow> bool" where
  "charged a n x y \<longleftrightarrow> (\<exists>cs. snd y = snd x @ cs \<and> int (queue_moves cs) = moved_on (fst x) (fst y)
     \<and> int (boxes_destroyed cs) + int (open_holds (ln_held (fst y))) \<le> int (open_holds (ln_held (fst x))) + moved_on (fst x) (fst y))
   \<and> (ev_replacements (ln_ctx (fst x)) \<le> n \<longrightarrow> ev_replacements (ln_ctx (fst y)) \<le> n)
   \<and> (bo_relaunches (ln_boot (fst x)) \<le> bk_max_retries (la_boot a) \<longrightarrow> bo_relaunches (ln_boot (fst y)) \<le> bk_max_retries (la_boot a))"

lemma moved_on_refl [simp]: "moved_on l l = 0"
  by (simp add: moved_on_def)

lemma moved_on_trans: "moved_on x z = moved_on x y + moved_on y z"
  by (simp add: moved_on_def)

lemma charged_refl [simp, intro]: "charged a n x x"
  by (simp add: charged_def)

lemma charged_trans [trans]:
  assumes "charged a n x y" "charged a n y z"
  shows "charged a n x z"
proof -
  obtain cs ds where c: "snd y = snd x @ cs" "snd z = snd y @ ds" "int (queue_moves cs) = moved_on (fst x) (fst y)"
    "int (queue_moves ds) = moved_on (fst y) (fst z)"
    "int (boxes_destroyed cs) + int (open_holds (ln_held (fst y))) \<le> int (open_holds (ln_held (fst x))) + moved_on (fst x) (fst y)"
    "int (boxes_destroyed ds) + int (open_holds (ln_held (fst z))) \<le> int (open_holds (ln_held (fst y))) + moved_on (fst y) (fst z)"
    using assms unfolding charged_def by blast
  then have "snd z = snd x @ (cs @ ds) \<and> int (queue_moves (cs @ ds)) = moved_on (fst x) (fst z)
      \<and> int (boxes_destroyed (cs @ ds)) + int (open_holds (ln_held (fst z))) \<le> int (open_holds (ln_held (fst x))) + moved_on (fst x) (fst z)"
    by (simp add: moved_on_trans [of "fst x" "fst z" "fst y"])
  then show ?thesis using assms unfolding charged_def by blast
qed

text \<open>A step that keeps both counts and the holds and neither moves a queue nor destroys.\<close>

lemma charged_free:
  assumes "snd y = snd x @ cs" "queue_moves cs = 0" "boxes_destroyed cs = 0" "ln_held (fst y) = ln_held (fst x)"
    "ev_replacements (ln_ctx (fst y)) = ev_replacements (ln_ctx (fst x))" "bo_relaunches (ln_boot (fst y)) = bo_relaunches (ln_boot (fst x))"
  shows "charged a n x y"
  using assms unfolding charged_def moved_on_def by simp

lemma quiet_charged: "sends_nothing x y \<Longrightarrow> charged a n x y"
  by (rule charged_free [of _ _ "[]"]) (simp_all add: sends_nothing_def same_store_def)

lemma stop_unless_charged: "charged a n x (stop_unless b x)"
  by (auto simp: stop_unless_def call_def intro!: charged_free)

lemma box_gone_reset_simps [simp]:
  "ev_iid (ln_ctx (box_gone_reset l)) = ev_iid (ln_ctx l)" "ev_replacements (ln_ctx (box_gone_reset l)) = ev_replacements (ln_ctx l)"
  "ln_boot (box_gone_reset l) = ln_boot l" "ln_held (box_gone_reset l) = ln_held l"
  "es_bucket (ln_es (box_gone_reset l)) = es_bucket (ln_es l)"
  by (simp_all add: box_gone_reset_def latch_reset_def)

lemma lane_swapped_simps [simp]:
  "ev_iid (ln_ctx (lane_swapped l)) = ev_iid (ln_ctx l)" "ev_replacements (ln_ctx (lane_swapped l)) = ev_replacements (ln_ctx l)"
  "ln_boot (lane_swapped l) = ln_boot l" "ln_held (lane_swapped l) = ln_held l" "es_bucket (ln_es (lane_swapped l)) = es_bucket (ln_es l)"
  by (simp_all add: lane_swapped_def)

lemma condemn_charged:
  assumes "condemn_step a w v x = (r, y)"
  shows "charged a n x y \<and> r = None"
proof -
  let ?f = "\<lambda>s. case job_pull_condemn (la_boot a) (evict_view a w (fst x)) (lw_bucket w) (lw_actor w)
                (lw_move_listing w) (lw_move_status w) (lw_latch w) (Option.bind (own_inst w (fst x)) li_is_bid) v (s, ln_boot (fst x)) of
                (ok, s1, b) \<Rightarrow> ((ok, b), s1)"
  obtain ok b z where wl: "with_ladder ?f x = ((ok, b), z)" by (metis surj_pair)
  obtain s where fs: "?f ((ln_es (fst x))\<lparr>es_io := []\<rparr>) = ((ok, b), s)"
      and z: "z = ((fst x)\<lparr>ln_es := s\<lparr>es_io := []\<rparr>\<rparr>, snd x @ map LLadder (es_io s))"
    using with_ladderE [OF wl] by blast
  then have jc: "job_pull_condemn (la_boot a) (evict_view a w (fst x)) (lw_bucket w) (lw_actor w) (lw_move_listing w) (lw_move_status w)
      (lw_latch w) (Option.bind (own_inst w (fst x)) li_is_bid) v ((ln_es (fst x))\<lparr>es_io := []\<rparr>, ln_boot (fst x)) = (ok, s, b)"
    by (auto split: prod.splits)
  have y: "r = None" "y = (if ok then lane_swapped ((fst z)\<lparr>ln_boot := b\<rparr>) else (fst z)\<lparr>ln_boot := b\<rparr>, snd z)"
    using assms by (simp_all add: condemn_step_def Let_def wl)
  show ?thesis using jc
  proof (cases rule: job_pull_condemnE)
    case 1
    then show ?thesis unfolding y z
      by (intro conjI charged_free [of _ _ "map LLadder (es_io s)"]) (auto simp: rehost_refused_def ln_ctx_def)
  next
    case 2
    then show ?thesis unfolding y z by (auto simp: rehost_done_def charged_def moved_on_def simp flip: ln_ctx_def)
  qed
qed

lemma exit_charged:
  assumes "tick_exit a w y r"
  shows "charged a n y (snd r)"
  using assms
proof cases
  case (exit_condemned v)
  then show ?thesis using condemn_charged [of a w v y] by (metis prod.collapse)
qed (simp_all add: stop_unless_charged)

section \<open>The market and the migration\<close>

lemma palt_poll_frame:
  "ev_iid (ln_ctx (job_palt_poll a w i l)) = ev_iid (ln_ctx l)" "ev_spend (ln_ctx (job_palt_poll a w i l)) = ev_spend (ln_ctx l)"
  "ev_not_live (ln_ctx (job_palt_poll a w i l)) = ev_not_live (ln_ctx l)"
  "ev_replacements (ln_ctx (job_palt_poll a w i l)) = ev_replacements (ln_ctx l)"
  "ln_boot (job_palt_poll a w i l) = ln_boot l" "ln_fence (job_palt_poll a w i l) = ln_fence l"
  "ln_held (job_palt_poll a w i l) = ln_held l" "es_bucket (ln_es (job_palt_poll a w i l)) = es_bucket (ln_es l)"
  by (simp_all add: job_palt_poll_def Let_def split: option.split)

lemma market_quiet:
  assumes "market_step a w l = (m, l1)"
  shows "sends_nothing (l, cs) (l1, cs)"
proof -
  obtain floor1 b z where g: "self_floor_guard (ladder_part (ln_ctx l)) (mk_min (job_market_read w (own_inst w l)))
      (lane_inst_live (own_inst w l) \<and> inst_bid (own_inst w l))
      (if mk_ok (job_market_read w (own_inst w l)) then mk_floors (job_market_read w (own_inst w l)) else [])
      (mk_scaled (job_market_read w (own_inst w l))) (machine_text (own_inst w l)) (Some (lw_now w)) = (floor1, b, z)"
    by (metis surj_pair)
  let ?l1 = "on_ctx (put_ladder b) l"
  let ?l2 = "case or_num floor1 None of Some f \<Rightarrow> ?l1\<lparr>ln_samples := ln_samples ?l1 @ [f]\<rparr> | None \<Rightarrow> ?l1"
  have l2: "ln_ctx ?l2 = put_ladder b (ln_ctx l)" "ln_boot ?l2 = ln_boot l" "ln_fence ?l2 = ln_fence l"
    "ln_held ?l2 = ln_held l" "es_bucket (ln_es ?l2) = es_bucket (ln_es l)" by (simp_all split: option.split)
  obtain od c where rd: "read_on_demand w (own_inst w l) (ln_ctx ?l2) = (od, c)" by force
  have c: "ev_iid c = ev_iid (ln_ctx l)" "ev_spend c = ev_spend (ln_ctx l)" "ev_not_live c = ev_not_live (ln_ctx l)"
    "ev_replacements c = ev_replacements (ln_ctx l)" using read_on_demand_ev [OF rd] unfolding l2 by simp_all
  let ?l3 = "job_palt_poll a w (own_inst w l) (on_ctx (\<lambda>_. c) ?l2)"
  have "l1 = (if la_max_bid a = None then on_ctx (\<lambda>x. x\<lparr>ev_max_bid := default_max_bid (ln_samples ?l3) (lc_first_seen_dph x) od (la_strict a)\<rparr>) ?l3 else ?l3)"
    using assms by (simp add: market_step_def Let_def g rd)
  then show ?thesis using c l2 by (simp add: sends_nothing_def same_store_def palt_poll_frame)
qed

lemma handoff_quiet:
  assumes "handoff_step a w x = Inr y"
  shows "charged a n x y \<and> ev_iid (ln_ctx (fst y)) = ev_iid (ln_ctx (fst x)) \<and> ev_not_live (ln_ctx (fst y)) = ev_not_live (ln_ctx (fst x))
    \<and> snd y = snd x \<and> same_store (fst x) (fst y) \<and> ev_replacements (ln_ctx (fst y)) = ev_replacements (ln_ctx (fst x))
    \<and> (la_handoff a \<longrightarrow> ln_fence (fst y) = ha_fence (lw_handoff w))"
  using assms by (auto simp: handoff_step_def Let_def same_store_def intro!: charged_free [of _ _ "[]"] split: if_splits option.splits)

lemma handoff_moved:
  assumes "handoff_step a w x = Inl r"
  shows "charged a n x (snd r) \<and> la_handoff a \<and> ha_moved (lw_handoff w) \<noteq> None \<and> fst r = None \<and> snd (snd r) = snd x"
  using assms by (auto simp: handoff_step_def Let_def intro!: charged_free [of _ _ "[]"] split: if_splits option.splits)

text \<open>A tick ends early, moves with the migration, or acts on the box.\<close>

lemma tick_cases:
  assumes "job_supervise_tick a w l = r"
  obtains (exited) y where "sends_nothing (lane_observe a w (l, [])) y" "tick_exit a w y r"
  | (moved) y where "sends_nothing (lane_observe a w (l, [])) y" "\<not> over_budget a (fst y)" "handoff_step a w y = Inl r"
  | (acted) x y m where "sends_nothing (lane_observe a w (l, [])) x" "\<not> over_budget a (fst x)"
      "exits a w (lane_observe a w (l, [])) = Inr x" "m = fst (market_step a w (fst x))"
      "handoff_step a w (snd (market_step a w (fst x)), snd x) = Inr y"
      "act_step a w m (lane_poll_state a w m (snd (market_step a w (fst x)))) y = r"
proof (cases "exits a w (lane_observe a w (l, []))")
  case (Inl r')
  then have "r' = r" using assms by (simp add: job_supervise_tick_def)
  then show thesis using settlesD(1) [OF settles_exits TrueI Inl] exited by blast
next
  case (Inr x)
  obtain m l1 where m: "market_step a w (fst x) = (m, l1)" by force
  have x: "sends_nothing (lane_observe a w (l, [])) x" "\<not> over_budget a (fst x)" using settlesD(2) [OF settles_exits _ Inr] by simp_all
  have q: "sends_nothing (lane_observe a w (l, [])) (l1, snd x)" using x(1) market_quiet [OF m] quiet_trans by (metis prod.collapse)
  show thesis
  proof (cases "handoff_step a w (l1, snd x)")
    case (Inl r')
    then have "r' = r" using assms Inr m by (simp add: job_supervise_tick_def)
    moreover have "\<not> over_budget a l1" using x(2) over_budget_quiet [OF market_quiet [OF m]] by simp
    ultimately show thesis using moved [OF q] Inl by simp
  next
    case (Inr y)
    then show thesis using acted [OF x \<open>exits a w (lane_observe a w (l, [])) = Inr x\<close>, of m y] assms m
        \<open>exits a w (lane_observe a w (l, [])) = Inr x\<close> by (simp add: job_supervise_tick_def Let_def)
  qed
qed

section \<open>Acting on the box\<close>

text \<open>At most one bid, on the watched box, and no dry run sends it.\<close>

definition one_bid :: "lane_args \<Rightarrow> price option \<Rightarrow> lane_watch \<Rightarrow> lane_watch \<Rightarrow> bool" where
  "one_bid a p x y \<longleftrightarrow> (snd y = snd x \<or> (\<exists>q. p = Some q \<and> \<not> la_dry a \<and> snd y = snd x @ [LBid (ev_iid (ln_ctx (fst x))) q]))
     \<and> ev_iid (ln_ctx (fst y)) = ev_iid (ln_ctx (fst x)) \<and> ev_replacements (ln_ctx (fst y)) = ev_replacements (ln_ctx (fst x))
     \<and> ev_not_live (ln_ctx (fst y)) = ev_not_live (ln_ctx (fst x)) \<and> ln_boot (fst y) = ln_boot (fst x) \<and> same_store (fst x) (fst y)"

lemma put_bid_one:
  assumes "put_bid a w p x = (ok, y)"
  shows "one_bid a (Some p) x y"
  using assms by (auto simp: put_bid_def one_bid_def call_def same_store_def Let_def split: if_splits)

lemma one_bid_charged: "one_bid a p x y \<Longrightarrow> charged a n x y"
  by (auto simp: one_bid_def same_store_def intro: charged_free [of y x "[]"] charged_free [of y x "[LBid i q]" for i q])

lemma back_alive_frame:
  "(snd (back_alive a x) = snd x \<or> (\<not> la_dry a \<and> snd (back_alive a x) = snd x @ [LReattach (ev_iid (ln_ctx (fst x)))]))
   \<and> ev_iid (ln_ctx (fst (back_alive a x))) = ev_iid (ln_ctx (fst x))
   \<and> ev_replacements (ln_ctx (fst (back_alive a x))) = ev_replacements (ln_ctx (fst x)) \<and> ln_boot (fst (back_alive a x)) = ln_boot (fst x)
   \<and> same_store (fst x) (fst (back_alive a x))"
  by (simp add: back_alive_def Let_def call_def latch_reset_def cycle_reset_def same_store_def)

lemma live_one_bid:
  "\<exists>z. z = back_alive a x \<and> one_bid a (map_option move_price (bid_action s)) z (live_step a w s x)"
proof -
  have r: "one_bid a p z z" for p z by (simp add: one_bid_def)
  show ?thesis
  proof (cases "bid_action s")
    case (Some b)
    show ?thesis
    proof (cases b)
      case (RaiseBid p)
      then show ?thesis using Some put_bid_one [of a w p "back_alive a x" "fst (put_bid a w p (back_alive a x))" "snd (put_bid a w p (back_alive a x))"] by (simp add: live_step_def Let_def)
    next
      case (LowerBid p)
      obtain ok l cs where "put_bid a w p (back_alive a x) = (ok, l, cs)" by (metis surj_pair)
      then show ?thesis using Some LowerBid put_bid_one [of a w p "back_alive a x" ok "(l, cs)"]
        by (auto simp: live_step_def Let_def one_bid_def same_store_def)
    next
      case (RescueBid p)
      then show ?thesis using Some r by (simp add: live_step_def Let_def)
    qed
  qed (simp add: live_step_def Let_def r)
qed

lemma resume_frame:
  assumes "job_resume_in_place a w mkt av x = (b, y)"
  shows "(snd y = snd x \<or> (\<not> la_dry a \<and> own_inst w (fst x) \<noteq> None \<and> snd y = snd x @ [LStart (ev_iid (ln_ctx (fst x)))]))
   \<and> ev_iid (ln_ctx (fst y)) = ev_iid (ln_ctx (fst x)) \<and> ev_replacements (ln_ctx (fst y)) = ev_replacements (ln_ctx (fst x))
   \<and> ev_not_live (ln_ctx (fst y)) = ev_not_live (ln_ctx (fst x)) \<and> ln_boot (fst y) = ln_boot (fst x)
   \<and> same_store (fst x) (fst y) \<and> (b \<longrightarrow> own_inst w (fst x) \<noteq> None) \<and> (own_inst w (fst x) = None \<longrightarrow> y = x)"
proof (cases "own_inst w (fst x)")
  case None
  then show ?thesis using assms by (auto simp: job_resume_in_place_def Let_def resume_in_place_def split: if_splits)
next
  case (Some i)
  then show ?thesis using assms
    by (auto simp: job_resume_in_place_def Let_def arm_rescue_def call_def same_store_def split: if_splits resume.splits)
qed

lemma rescue_move_some: "rescue_move w mkt s l = Some b \<Longrightarrow> bid_action s = Some b"
  by (auto simp: rescue_move_def Let_def split: option.splits bid_move.splits if_splits)

lemma rescue_one_bid:
  "one_bid a (case act of Some (RescueBid p) \<Rightarrow> Some p | _ \<Rightarrow> None) x (rescue_step a w act x)"
proof -
  have r: "one_bid a p x x" for p by (simp add: one_bid_def)
  show ?thesis
  proof (cases act)
    case (Some b)
    show ?thesis
    proof (cases b)
      case (RescueBid p)
      obtain ok l cs where pb: "put_bid a w p x = (ok, l, cs)" by (metis surj_pair)
      show ?thesis using Some RescueBid r put_bid_one [OF pb] pb
        by (cases ok) (auto simp: rescue_step_def Let_def one_bid_def arm_rescue_def same_store_def)
    qed (use Some r in \<open>simp_all add: rescue_step_def\<close>)
  qed (simp add: rescue_step_def r)
qed

lemma launch_refused_noted:
  assumes "job_eviction_replace wd w actor listing statuses latch cls exclusion s = (Inr False, s')"
  shows "ev_refused (es_ctx s') \<noteq> None \<or> ew_dry_run wd"
proof -
  let ?c1 = "(es_ctx s)\<lparr>ev_history := note_replacement_death (ew_now wd) (ev_history (es_ctx s))\<rparr>"
  obtain c2 st where n: "note_evicted_machine wd (ew_machine wd) (Some (dflt cls exclusion)) (ew_now wd) latch (?c1, es_hosts s) = (c2, st)"
    by force
  note d = assms [unfolded job_eviction_replace_def Let_def n prod.case]
  show ?thesis using d
    by (auto simp: note_refusal_def Let_def split: sum.splits option.splits prod.splits if_splits)
qed

text \<open>How the rungs below the rescue can end.\<close>

text \<open>The queue after its bulk move to another box.\<close>

definition queue_moved :: "lane_world \<Rightarrow> string \<Rightarrow> string \<Rightarrow> bucket \<Rightarrow> bucket" where
  "queue_moved w old new = after (retarget_pending_tickets (lw_bucket w) old new ''evicted'' (lw_actor w) (lw_move_listing w) (lw_move_status w))"

definition replaced_box :: "lane_args \<Rightarrow> lane_world \<Rightarrow> lane_watch \<Rightarrow> lane_watch \<Rightarrow> bool" where
  "replaced_box a w x y \<longleftrightarrow> (\<exists>p q k hb rs. retain_box (ret_view a w) (ev_iid (ln_ctx (fst x))) (Some (ev_iid (ln_ctx (fst y)))) = (hb, rs)
        \<and> snd y = snd x @ [LLadder (DLaunch p k q), LLadder (DMoveQueue (ev_iid (ln_ctx (fst x))) (ev_iid (ln_ctx (fst y))))] @ map LRet rs
        \<and> ln_held (fst y) = ln_held (fst x) @ [hb])
     \<and> es_bucket (ln_es (fst y)) = queue_moved w (ev_iid (ln_ctx (fst x))) (ev_iid (ln_ctx (fst y))) (es_bucket (ln_es (fst x)))
     \<and> ev_replacements (ln_ctx (fst y)) = ev_replacements (ln_ctx (fst x)) + 1
     \<and> ev_replacements (ln_ctx (fst x)) < ew_max_replacements (lw_evict w)
     \<and> bo_relaunches (ln_boot (fst y)) = bo_relaunches (ln_boot (fst x))"

lemma replaced_launches: "replaced_box a w x y \<Longrightarrow> \<exists>p k q. LLadder (DLaunch p k q) \<in> set (snd y)"
proof -
  assume "replaced_box a w x y"
  then obtain p q k zs where "snd y = snd x @ [LLadder (DLaunch p k q)] @ zs" by (auto simp: replaced_box_def)
  then have "LLadder (DLaunch p k q) \<in> set (snd y)" by simp
  then show ?thesis by blast
qed

lemma replace_step_cases:
  assumes "replace_step a w cls bare x = (b, y)"
  obtains (replaced) "b" "replaced_box a w x y"
  | (refused) "\<not> b" "snd y = snd x \<or> (\<exists>p k q. snd y = snd x @ [LLadder (DLaunch p k q)])" "ev_iid (ln_ctx (fst y)) = ev_iid (ln_ctx (fst x))"
      "ev_replacements (ln_ctx (fst y)) = ev_replacements (ln_ctx (fst x))" "ln_boot (fst y) = ln_boot (fst x)"
      "ev_refused (ln_ctx (fst y)) \<noteq> None \<or> la_dry a" "same_store (fst x) (fst y)"
proof -
  let ?f = "\<lambda>s. case job_eviction_replace (evict_view a w (fst x)) (lw_bucket w) (lw_actor w) (lw_move_listing w)
                     (lw_move_status w) (lw_latch w) cls (Some bare) s of (r, s1) \<Rightarrow> (r, s1\<lparr>es_io := filter kept_call (es_io s1)\<rparr>)"
  obtain r z where wl: "with_ladder ?f x = (r, z)" by (rule prod.exhaust)
  obtain s where fs: "?f ((ln_es (fst x))\<lparr>es_io := []\<rparr>) = (r, s)"
      and z: "z = ((fst x)\<lparr>ln_es := s\<lparr>es_io := []\<rparr>\<rparr>, snd x @ map LLadder (es_io s))"
    using with_ladderE [OF wl] by blast
  obtain s' where je: "job_eviction_replace (evict_view a w (fst x)) (lw_bucket w) (lw_actor w) (lw_move_listing w)
      (lw_move_status w) (lw_latch w) cls (Some bare) ((ln_es (fst x))\<lparr>es_io := []\<rparr>) = (r, s')" "s = s'\<lparr>es_io := filter kept_call (es_io s')\<rparr>"
    using fs by (auto split: prod.splits)
  note d = assms [unfolded replace_step_def Let_def wl prod.case]
  have v: "ew_max_replacements (evict_view a w (fst x)) = ew_max_replacements (lw_evict w)" "ew_dry_run (evict_view a w (fst x)) = la_dry a"
    by (simp_all add: evict_view_def Let_def)
  have k: "filter kept_call (retain_or_destroy wd old) = []" for wd old
    by (simp add: retain_or_destroy_def kept_call_def Let_def split: retention_action.split)
  show thesis using je(1)
  proof (cases rule: job_eviction_replaceE)
    case 1
    have i: "ev_iid (es_ctx s) = ev_iid (ln_ctx (fst x))" "ev_replacements (es_ctx s) = ev_replacements (ln_ctx (fst x))"
      "es_io s = [] \<or> (\<exists>p k q. es_io s = [DLaunch p k q])" "same_store (fst x) ((fst x)\<lparr>ln_es := s\<lparr>es_io := []\<rparr>\<rparr>)"
      using 1(2) by (auto simp: left_alone_def je(2) kept_call_def ln_ctx_def same_store_def)
    show thesis
    proof (cases r)
      case (Inl e)
      then show thesis using d i refused unfolding z same_store_def by auto
    next
      case (Inr b')
      then have "r = Inr False" using 1(1) by (cases b') simp_all
      then have "ev_refused (es_ctx s) \<noteq> None \<or> la_dry a" using launch_refused_noted [OF je(1) [unfolded \<open>r = Inr False\<close>]] je(2) v(2) by simp
      moreover have "\<not> b" "y = z" using d \<open>r = Inr False\<close> by simp_all
      ultimately show thesis using i refused unfolding z same_store_def by auto
    qed
  next
    case 2
    obtain hb rs where rb: "retain_box (ret_view a w) (ev_iid (ln_ctx (fst x))) (Some (ev_iid (es_ctx s))) = (hb, rs)" by force
    have y: "b" "fst y = (lane_swapped (fst z))\<lparr>ln_held := ln_held (fst z) @ [hb], ln_boot := (ln_boot (fst z))\<lparr>bo_sampler := None\<rparr>\<rparr>"
      "snd y = snd z @ map LRet rs" using d 2(1) rb unfolding z by auto
    obtain p q k' where io: "es_io s = [DLaunch p k' q, DMoveQueue (ev_iid (ln_ctx (fst x))) (ev_iid (es_ctx s))]"
      and n: "ev_replacements (es_ctx s) = ev_replacements (ln_ctx (fst x)) + 1" "ev_replacements (ln_ctx (fst x)) < ew_max_replacements (lw_evict w)"
        "es_bucket s = queue_moved w (ev_iid (ln_ctx (fst x))) (ev_iid (es_ctx s)) (es_bucket (ln_es (fst x)))"
      using 2(2) v k by (auto simp: box_replaced_def queue_moved_def je(2) kept_call_def ln_ctx_def)
    have "replaced_box a w x y" unfolding replaced_box_def using y rb io n
      by (intro conjI exI [of _ p] exI [of _ q] exI [of _ k'] exI [of _ hb] exI [of _ rs]) (simp_all add: z)
    then show thesis using y(1) replaced by simp
  qed
qed

lemma rebid_calls:
  assumes "job_rebid_ladder wd market od cls s = (kept, s')"
  shows "if kept then (\<exists>p. es_io s' = es_io s @ [DBid (ev_iid (es_ctx s)) p]) \<and> \<not> ew_dry_run wd else es_io s' = es_io s"
    "ev_iid (es_ctx s') = ev_iid (es_ctx s)" "ev_replacements (es_ctx s') = ev_replacements (es_ctx s)"
    "ev_not_live (es_ctx s') = ev_not_live (es_ctx s)" "es_bucket s' = es_bucket s"
  using assms by (auto simp: job_rebid_ladder_def Let_def split: option.splits if_splits)

lemma last_rungs_cases:
  assumes "last_rungs a w m av x = (v, y)"
  obtains (serve) "la_serve a" "v = Some LaneUnrecoverable" "y = x"
  | (kept) p where "\<not> la_serve a" "v = None" "own_inst w (fst x) \<noteq> None" "escalated a w (fst x) = None"
      "snd y = snd x @ [LLadder (DBid (ev_iid (ln_ctx (fst x))) p)]" "ev_iid (ln_ctx (fst y)) = ev_iid (ln_ctx (fst x))"
      "ev_replacements (ln_ctx (fst y)) = ev_replacements (ln_ctx (fst x))" "ln_boot (fst y) = ln_boot (fst x)" "same_store (fst x) (fst y)"
  | (replaced) "\<not> la_serve a" "v = None" "replaced_box a w x y"
  | (given_up) "\<not> la_serve a" "v = Some LaneUnrecoverable" "snd y = snd x \<or> (\<exists>p k q. snd y = snd x @ [LLadder (DLaunch p k q)])"
      "ev_iid (ln_ctx (fst y)) = ev_iid (ln_ctx (fst x))" "ev_replacements (ln_ctx (fst y)) = ev_replacements (ln_ctx (fst x))"
      "ln_boot (fst y) = ln_boot (fst x)" "ev_refused (ln_ctx (fst y)) \<noteq> None \<or> la_dry a" "same_store (fst x) (fst y)"
proof (cases "la_serve a")
  case True
  then show thesis using assms serve by (simp add: last_rungs_def Let_def)
next
  case live: False
  let ?l = "fst x" let ?i = "own_inst w ?l"
  let ?cls = "\<lambda>n. classify_eviction (loss_read ?i (tm_floor m) av (tm_on_demand m) n ?l)"
  let ?rb = "job_rebid_ladder (evict_view a w ?l) (tm_floor m) (tm_on_demand m) (Some (?cls (latched_notice ?l)))"
  obtain kpt x1 where k: "(if ?i \<noteq> None \<and> escalated a w ?l = None then with_ladder ?rb x else (False, x)) = (kpt, x1)"
    by (rule prod.exhaust)
  note d = assms [unfolded last_rungs_def Let_def if_not_P [OF live] k prod.case]
  have x1: "ev_iid (ln_ctx (fst x1)) = ev_iid (ln_ctx ?l)" "ev_replacements (ln_ctx (fst x1)) = ev_replacements (ln_ctx ?l)"
      "ln_boot (fst x1) = ln_boot ?l" "same_store ?l (fst x1)"
      "if kpt then ?i \<noteq> None \<and> escalated a w ?l = None \<and> (\<exists>p. snd x1 = snd x @ [LLadder (DBid (ev_iid (ln_ctx ?l)) p)]) else snd x1 = snd x"
  proof -
    have "ev_iid (ln_ctx (fst x1)) = ev_iid (ln_ctx ?l) \<and> ev_replacements (ln_ctx (fst x1)) = ev_replacements (ln_ctx ?l)
      \<and> ln_boot (fst x1) = ln_boot ?l \<and> same_store ?l (fst x1)
      \<and> (if kpt then ?i \<noteq> None \<and> escalated a w ?l = None \<and> (\<exists>p. snd x1 = snd x @ [LLadder (DBid (ev_iid (ln_ctx ?l)) p)]) else snd x1 = snd x)"
    proof (cases "?i \<noteq> None \<and> escalated a w ?l = None")
      case True
      obtain s where s: "?rb ((ln_es ?l)\<lparr>es_io := []\<rparr>) = (kpt, s)" "x1 = (?l\<lparr>ln_es := s\<lparr>es_io := []\<rparr>\<rparr>, snd x @ map LLadder (es_io s))"
        using with_ladderE [of ?rb x kpt x1] k unfolding if_P [OF True] by blast
      show ?thesis using rebid_calls [OF s(1)] True unfolding s(2) by (cases kpt) (auto simp: ln_ctx_def same_store_def)
    qed (use k in auto)
    then show "ev_iid (ln_ctx (fst x1)) = ev_iid (ln_ctx ?l)" "ev_replacements (ln_ctx (fst x1)) = ev_replacements (ln_ctx ?l)"
      "ln_boot (fst x1) = ln_boot ?l" "same_store ?l (fst x1)"
      "if kpt then ?i \<noteq> None \<and> escalated a w ?l = None \<and> (\<exists>p. snd x1 = snd x @ [LLadder (DBid (ev_iid (ln_ctx ?l)) p)]) else snd x1 = snd x"
      by blast+
  qed
  show thesis
  proof (cases kpt)
    case True
    have v: "v = None" "snd y = snd x1" "ln_ctx (fst y) = ln_ctx (fst x1)" "ln_boot (fst y) = ln_boot (fst x1)" "same_store ?l (fst y)"
      using d True x1(4) by (auto simp: same_store_def)
    obtain p where "own_inst w ?l \<noteq> None" "escalated a w ?l = None" "snd x1 = snd x @ [LLadder (DBid (ev_iid (ln_ctx ?l)) p)]"
      using x1(5) True by auto
    then show thesis using kept [OF live] v x1(1-3) by simp
  next
    case False
    obtain b x2 where r: "replace_step a w (?cls (latched_notice ?l)) (?cls None) x1 = (b, x2)" by (rule prod.exhaust)
    note d = d [unfolded if_not_P [OF False] r prod.case]
    from r show thesis
    proof (cases rule: replace_step_cases)
      case replaced
      obtain l2 cs where x2: "x2 = (l2, cs)" by (rule prod.exhaust)
      have "(None, l2\<lparr>ln_was_live := Some False\<rparr>, cs) = (v, y)" using d unfolding x2 eqTrueI [OF replaced(1)] prod.case bool.case .
      then have v: "v = None" "snd y = snd x2" "ln_ctx (fst y) = ln_ctx (fst x2)" "ln_boot (fst y) = ln_boot (fst x2)"
          "ln_held (fst y) = ln_held (fst x2)" "es_bucket (ln_es (fst y)) = es_bucket (ln_es (fst x2))"
        unfolding x2 by auto
      have "snd x1 = snd x" using x1(5) False by simp
      then have "replaced_box a w x y" using replaced(2) v x1(1-4) by (simp add: replaced_box_def same_store_def)
      then show thesis using that(3) [OF live] v(1) by simp
    next
      case refused
      have b: "b = False" using refused(1) by simp
      have "(Some LaneUnrecoverable, x2) = (v, y)" using d unfolding b prod.case bool.case .
      then have v: "v = Some LaneUnrecoverable" "y = x2" by simp_all
      have "snd x1 = snd x" using x1(5) False by simp
      then show thesis using given_up [OF live] refused(2-) v x1(1-3) same_store_trans [OF x1(4) refused(7)] by simp
    qed
  qed
qed

text \<open>Two poll states that quote the same prices.\<close>

definition same_terms :: "poll_state \<Rightarrow> poll_state \<Rightarrow> bool" where
  "same_terms s s' \<longleftrightarrow> ps_max_bid s' = ps_max_bid s \<and> ps_on_demand s' = ps_on_demand s \<and> ps_last_bid s' = ps_last_bid s
     \<and> ps_now s' = ps_now s \<and> ps_last_bid_put_ts s' = ps_last_bid_put_ts s \<and> ps_present s' = ps_present s"

text \<open>The start and the bid that an evicted box can cost before the ladder.\<close>

definition rescued :: "lane_args \<Rightarrow> lane_world \<Rightarrow> poll_state \<Rightarrow> lane_watch \<Rightarrow> lane_watch \<Rightarrow> bool" where
  "rescued a w s x y \<longleftrightarrow> (\<exists>st bd s'. snd y = snd x @ st @ bd \<and> (st = [] \<or> (\<not> la_dry a \<and> st = [LStart (ev_iid (ln_ctx (fst x)))]))
      \<and> (bd = [] \<or> (\<exists>b. same_terms s s' \<and> bid_action s' = Some b \<and> \<not> la_dry a \<and> bd = [LBid (ev_iid (ln_ctx (fst x))) (move_price b)])))
     \<and> ev_iid (ln_ctx (fst y)) = ev_iid (ln_ctx (fst x)) \<and> ev_replacements (ln_ctx (fst y)) = ev_replacements (ln_ctx (fst x))
     \<and> ev_not_live (ln_ctx (fst y)) = ev_not_live (ln_ctx (fst x)) + 1 \<and> ln_boot (fst y) = ln_boot (fst x) \<and> same_store (fst x) (fst y)
     \<and> (own_inst w (fst x) = None \<longrightarrow> ps_present s = False \<longrightarrow> snd y = snd x)"

lemma evicted_cases:
  assumes "evicted_step a w m s x = r"
  obtains (waiting) y where "fst r = None" "snd r = y" "rescued a w s x y"
      "int (ev_not_live (ln_ctx (fst x))) + 1 < NOT_LIVE_DEBOUNCE \<or> own_inst w (fst x) \<noteq> None"
  | (ladder) y av where "r = last_rungs a w m av y" "rescued a w s x y" "NOT_LIVE_DEBOUNCE \<le> int (ev_not_live (ln_ctx (fst x))) + 1"
proof -
  let ?l0 = "on_ctx (\<lambda>c. c\<lparr>ev_not_live := ev_not_live c + 1\<rparr>) (fst x)"
  let ?av = "market_listed (job_market_read w (own_inst w ?l0))"
  obtain s1 l where sl: "(if ln_announced ?l0 = Some (ev_iid (ln_ctx ?l0))
                     then (case try_match w ?l0 of
                             (None, l1) \<Rightarrow> (s, l1)
                           | (Some e, l1) \<Rightarrow> (s\<lparr>ps_notify_min_bid := rescue_min_bid l1 (tm_on_demand m)\<rparr>, l1))
                     else (s, ?l0)) = (s1, l)" by (rule prod.exhaust)
  have l: "ln_es l = ln_es ?l0 \<and> ln_boot l = ln_boot ?l0 \<and> ln_held l = ln_held ?l0 \<and> same_terms s s1"
    using sl try_match_quiet [of w ?l0] by (cases "try_match w ?l0") (auto simp: same_terms_def split: if_splits option.splits)
  then have c: "ln_ctx l = (ln_ctx (fst x))\<lparr>ev_not_live := ev_not_live (ln_ctx (fst x)) + 1\<rparr>" "ln_boot l = ln_boot (fst x)"
      "same_store (fst x) l"
    by (simp_all add: ln_ctx_def on_ctx_def same_store_def)
  have own: "own_inst w l = own_inst w (fst x)" by (rule own_inst_cong) (simp add: c)
  note d = assms [unfolded evicted_step_def Let_def sl prod.case]
  have frame: "rescued a w s x ((fst y)\<lparr>ln_was_live := b\<rparr>, snd y)" if "rescued a w s x y" for y b
    using that by (simp add: rescued_def same_store_def)
  show thesis
  proof (cases "int (ev_not_live (ln_ctx l)) < NOT_LIVE_DEBOUNCE")
    case True
    then have "r = (None, l\<lparr>ln_was_live := Some False\<rparr>, snd x)" using d by simp
    moreover have "rescued a w s x (l\<lparr>ln_was_live := Some False\<rparr>, snd x)" using c by (auto simp: rescued_def same_store_def)
    ultimately show thesis using waiting True c by simp
  next
    case deb: False
    obtain b x2 where j: "job_resume_in_place a w (tm_floor m) ?av (l, snd x) = (b, x2)" by (rule prod.exhaust)
    note d = d [unfolded if_not_P [OF deb] j prod.case]
    note h = resume_frame [OF j]
    show thesis
    proof (cases b)
      case True
      then have "r = (None, (fst x2)\<lparr>ln_was_live := Some False\<rparr>, snd x2)" using d by simp
      moreover have "rescued a w s x x2" using h c own True unfolding rescued_def
        by (intro conjI exI [of _ "drop (length (snd x)) (snd x2)"] exI [of _ "[]"]) (auto simp: same_store_def)
      ultimately show thesis using waiting [OF _ _ frame] h True own by simp
    next
      case False
      let ?act = "rescue_move w (tm_floor m) s1 (fst x2)" let ?x3 = "rescue_step a w ?act x2"
      note o = rescue_one_bid [of a ?act x2 w]
      have p: "\<exists>b. bid_action s1 = Some b \<and> q = move_price b" if "(case ?act of Some (RescueBid p) \<Rightarrow> Some p | _ \<Rightarrow> None) = Some q" for q
        using that rescue_move_some [of w "tm_floor m" s1 "fst x2"] by (auto split: option.splits bid_move.splits)
      have np: "snd ?x3 = snd x2" if "ps_present s = False"
      proof -
        have "bid_action s1 \<noteq> Some (RescueBid q)" for q using l that bid_action_RescueBid(2) [of s1 q] by (auto simp: same_terms_def)
        then have "(case ?act of Some (RescueBid p) \<Rightarrow> Some p | _ \<Rightarrow> None) = None"
          using rescue_move_some [of w "tm_floor m" s1 "fst x2"] by (auto split: option.splits bid_move.splits)
        then show ?thesis using o by (simp add: one_bid_def)
      qed
      have r3: "rescued a w s x ?x3"
      proof -
        obtain st where st: "snd x2 = snd x @ st" "st = [] \<or> (\<not> la_dry a \<and> st = [LStart (ev_iid (ln_ctx (fst x)))])"
          using h c by auto
        obtain bd where bd: "snd ?x3 = snd x2 @ bd" "bd = [] \<or> (\<exists>b. bid_action s1 = Some b \<and> \<not> la_dry a \<and> bd = [LBid (ev_iid (ln_ctx (fst x))) (move_price b)])"
          using o p h c unfolding one_bid_def by auto
        have "\<exists>st bd s'. snd ?x3 = snd x @ st @ bd \<and> (st = [] \<or> (\<not> la_dry a \<and> st = [LStart (ev_iid (ln_ctx (fst x)))]))
          \<and> (bd = [] \<or> (\<exists>b. same_terms s s' \<and> bid_action s' = Some b \<and> \<not> la_dry a \<and> bd = [LBid (ev_iid (ln_ctx (fst x))) (move_price b)]))"
          using st bd l by (intro exI [of _ st] exI [of _ bd] exI [of _ s1]) auto
        moreover have "ev_iid (ln_ctx (fst ?x3)) = ev_iid (ln_ctx (fst x))" "ev_replacements (ln_ctx (fst ?x3)) = ev_replacements (ln_ctx (fst x))"
          "ev_not_live (ln_ctx (fst ?x3)) = ev_not_live (ln_ctx (fst x)) + 1" "ln_boot (fst ?x3) = ln_boot (fst x)"
          "same_store (fst x) (fst ?x3)"
          using h c o unfolding one_bid_def same_store_def by simp_all
        moreover have "own_inst w (fst x) = None \<longrightarrow> ps_present s = False \<longrightarrow> snd ?x3 = snd x" using h own np by auto
        ultimately show ?thesis unfolding rescued_def by blast
      qed
      have own3: "own_inst w (fst ?x3) = own_inst w (fst x)" using r3 own_inst_cong unfolding rescued_def by blast
      show thesis
      proof (cases "waited_out a w ?act (fst ?x3)")
        case True
        then have "r = last_rungs a w m ?av ?x3" using d False by simp
        moreover have "NOT_LIVE_DEBOUNCE \<le> int (ev_not_live (ln_ctx (fst x))) + 1" using deb c by simp
        ultimately show thesis using ladder r3 by blast
      next
        case wait: False
        then have "own_inst w (fst x) \<noteq> None" using own3 by (auto simp: waited_out_def)
        moreover have "fst r = None" "snd r = ((fst ?x3)\<lparr>ln_was_live := Some False\<rparr>, snd ?x3)" using d False wait by auto
        ultimately show thesis using waiting frame [OF r3] by blast
      qed
    qed
  qed
qed

text \<open>What a tick may send while it acts: never a stop, and a bid only where the policy's own move quotes it.\<close>

definition fair_call :: "lane_args \<Rightarrow> poll_state \<Rightarrow> lane_watch \<Rightarrow> lane_io \<Rightarrow> bool" where
  "fair_call a s x c = (case c of LStop i \<Rightarrow> False
     | LBid i p \<Rightarrow> i = ev_iid (ln_ctx (fst x)) \<and> \<not> la_dry a \<and> (\<exists>s' b. same_terms s s' \<and> bid_action s' = Some b \<and> p = move_price b)
     | _ \<Rightarrow> True)"

lemma fair_bid:
  "same_terms s s' \<Longrightarrow> bid_action s' = Some b \<Longrightarrow> \<not> la_dry a \<Longrightarrow> i = ev_iid (ln_ctx (fst x)) \<Longrightarrow> fair_call a s x (LBid i (move_price b))"
  by (auto simp: fair_call_def)

lemma act_cases:
  assumes "act_step a w m s x = r"
  obtains (live) s1 z where "lane_inst_live (own_inst w (fst x))" "fst r = None" "same_terms s s1" "snd (snd r) = snd (live_step a w s1 z)"
      "ln_ctx (fst (snd r)) = ln_ctx (fst (live_step a w s1 z))" "ln_boot (fst (snd r)) = ln_boot (fst (live_step a w s1 z))"
      "snd z = snd x" "ln_ctx (fst z) = ln_ctx (fst x)" "ln_boot (fst z) = ln_boot (fst x)" "same_store (fst x) (fst z)"
      "same_store (fst (live_step a w s1 z)) (fst (snd r))"
  | (fenced) "la_handoff a" "ln_fence (fst x)" "fst r = None" "snd (snd r) = snd x" "ln_ctx (fst (snd r)) = ln_ctx (fst x)"
      "ln_boot (fst (snd r)) = ln_boot (fst x)" "same_store (fst x) (fst (snd r))"
  | (evicted) s1 z where "\<not> lane_inst_live (own_inst w (fst x))" "same_terms s s1" "evicted_step a w m s1 z = r"
      "snd z = snd x" "ln_ctx (fst z) = ln_ctx (fst x)" "ln_boot (fst z) = ln_boot (fst x)" "same_store (fst x) (fst z)"
proof -
  let ?l = "(fst x)\<lparr>ln_decay := next_decay_state s\<rparr>"
  let ?s1 = "s\<lparr>ps_decay_streak := fst (next_decay_state s), ps_decay_streak_since := snd (next_decay_state s)\<rparr>"
  have t: "same_terms s ?s1" by (simp add: same_terms_def)
  have i: "own_inst w ?l = own_inst w (fst x)" by (rule own_inst_cong) simp
  note d = assms [unfolded act_step_def Let_def]
  show thesis
  proof (cases "lane_inst_live (own_inst w (fst x))")
    case True
    show thesis
    proof (cases "la_handoff a \<and> ln_fence (fst x)")
      case fenced: True
      then show thesis using d True i fenced that(2) by (auto simp: same_store_def)
    next
      case False
      then have "r = (None, (fst (live_step a w ?s1 (?l, snd x)))\<lparr>ln_was_live := Some True\<rparr>, snd (live_step a w ?s1 (?l, snd x)))"
        using d True i by simp
      then show thesis using live [OF True _ t, of "(?l, snd x)"] by (simp add: same_store_def)
    qed
  next
    case dead: False
    show thesis
    proof (cases "la_handoff a \<and> ln_fence (fst x)")
      case True
      then show thesis using d dead i that(2) by (auto simp: same_store_def)
    next
      case False
      then have "evicted_step a w m ?s1 (?l, snd x) = r" using d dead i by (auto split: if_splits)
      then show thesis using evicted [OF dead t, of "(?l, snd x)"] by (simp add: same_store_def)
    qed
  qed
qed

lemma same_terms_trans [trans]: "same_terms s t \<Longrightarrow> same_terms t u \<Longrightarrow> same_terms s u"
  by (simp add: same_terms_def)

lemma rescued_charged: "rescued a w s x y \<Longrightarrow> charged a n x y"
  by (auto simp: rescued_def same_store_def intro!: charged_free)

lemma rescued_calls:
  assumes "rescued a w s x y" "c \<in> set (snd y)"
  shows "c \<in> set (snd x) \<or> fair_call a s x c"
proof -
  obtain st bd s' where y: "snd y = snd x @ st @ bd" "st = [] \<or> (\<not> la_dry a \<and> st = [LStart (ev_iid (ln_ctx (fst x)))])"
    "bd = [] \<or> (\<exists>b. same_terms s s' \<and> bid_action s' = Some b \<and> \<not> la_dry a \<and> bd = [LBid (ev_iid (ln_ctx (fst x))) (move_price b)])"
    using assms(1) unfolding rescued_def by blast
  consider "c \<in> set (snd x)" | "c \<in> set st" | "c \<in> set bd" using assms(2) y(1) by auto
  then show ?thesis
  proof cases
    case 2
    then have "c = LStart (ev_iid (ln_ctx (fst x)))" using y(2) by auto
    then show ?thesis by (simp add: fair_call_def)
  next
    case 3
    then obtain b where "same_terms s s'" "bid_action s' = Some b" "\<not> la_dry a" "c = LBid (ev_iid (ln_ctx (fst x))) (move_price b)"
      using y(3) by auto
    then show ?thesis by (metis fair_bid)
  qed simp
qed

lemma last_rungs_charged:
  assumes "last_rungs a w m av x = r"
  shows "charged a (ew_max_replacements (lw_evict w)) x (snd r)"
proof -
  obtain v y where r: "r = (v, y)" by (rule prod.exhaust)
  from assms [unfolded r] show ?thesis
  proof (cases rule: last_rungs_cases)
    case replaced
    then obtain p q k hb rs where h: "retain_box (ret_view a w) (ev_iid (ln_ctx (fst x))) (Some (ev_iid (ln_ctx (fst y)))) = (hb, rs)"
        "snd y = snd x @ [LLadder (DLaunch p k q), LLadder (DMoveQueue (ev_iid (ln_ctx (fst x))) (ev_iid (ln_ctx (fst y))))] @ map LRet rs"
        "ln_held (fst y) = ln_held (fst x) @ [hb]"
      and m: "moved_on (fst x) (fst y) = 1" "ev_replacements (ln_ctx (fst y)) = ev_replacements (ln_ctx (fst x)) + 1"
        "ev_replacements (ln_ctx (fst x)) < ew_max_replacements (lw_evict w)" "bo_relaunches (ln_boot (fst y)) = bo_relaunches (ln_boot (fst x))"
      by (auto simp: replaced_box_def moved_on_def)
    let ?cs = "[LLadder (DLaunch p k q), LLadder (DMoveQueue (ev_iid (ln_ctx (fst x))) (ev_iid (ln_ctx (fst y))))] @ map LRet rs"
    have "open_holds (ln_held (fst x) @ [hb]) = open_holds (ln_held (fst x)) + open_holds [hb]" by (simp add: open_holds_def)
    then have "int (queue_moves ?cs) = 1 \<and> int (boxes_destroyed ?cs) + int (open_holds (ln_held (fst y))) \<le> int (open_holds (ln_held (fst x))) + 1"
      using retain_destroys_count [OF h(1)] h(3) by simp
    then show ?thesis unfolding r charged_def using h(2) m by auto
  qed (auto simp: r same_store_def intro!: charged_free)
qed

lemma last_rungs_calls:
  assumes "last_rungs a w m av x = r" "c \<in> set (snd (snd r))"
  shows "c \<in> set (snd x) \<or> fair_call a s z c"
proof -
  obtain v y where r: "r = (v, y)" by (rule prod.exhaust)
  from assms(1) [unfolded r] show ?thesis
    by (cases rule: last_rungs_cases) (use assms(2) in \<open>auto simp: r fair_call_def replaced_box_def\<close>)
qed

lemma act_charged:
  assumes "act_step a w m s x = r"
  shows "charged a (ew_max_replacements (lw_evict w)) x (snd r)"
  using assms
proof (cases rule: act_cases)
  case (live s1 z)
  have c: "charged a n z (back_alive a z)" for n using back_alive_frame [of a z] by (auto simp: same_store_def intro!: charged_free)
  have "one_bid a (map_option move_price (bid_action s1)) (back_alive a z) (live_step a w s1 z)" using live_one_bid by blast
  then have "charged a n z (live_step a w s1 z)" for n using c one_bid_charged charged_trans by blast
  then show ?thesis using live by (simp add: charged_def moved_on_def same_store_def)
next
  case fenced
  then show ?thesis by (auto simp: same_store_def intro!: charged_free)
next
  case (evicted s1 z)
  from evicted(3) have "charged a (ew_max_replacements (lw_evict w)) z (snd r)"
  proof (cases rule: evicted_cases)
    case (waiting y)
    then show ?thesis using rescued_charged by blast
  next
    case (ladder y av)
    then show ?thesis using rescued_charged last_rungs_charged charged_trans by metis
  qed
  then show ?thesis using evicted by (simp add: charged_def moved_on_def same_store_def)
qed

lemma act_calls:
  assumes "act_step a w m s x = r" "c \<in> set (snd (snd r))"
  shows "c \<in> set (snd x) \<or> fair_call a s x c"
  using assms(1)
proof (cases rule: act_cases)
  case (live s1 z)
  have o: "one_bid a (map_option move_price (bid_action s1)) (back_alive a z) (live_step a w s1 z)" using live_one_bid by blast
  then consider "c \<in> set (snd (back_alive a z))"
    | b where "bid_action s1 = Some b" "\<not> la_dry a" "c = LBid (ev_iid (ln_ctx (fst (back_alive a z)))) (move_price b)"
    using assms(2) live(4) by (auto simp: one_bid_def)
  then show ?thesis
  proof cases
    case 1
    then show ?thesis using back_alive_frame [of a z] live(7) by (auto simp: fair_call_def)
  next
    case (2 b)
    moreover have "ev_iid (ln_ctx (fst (back_alive a z))) = ev_iid (ln_ctx (fst x))" using back_alive_frame [of a z] live(8) by simp
    ultimately show ?thesis using live(3) by (metis fair_bid)
  qed
next
  case fenced
  then show ?thesis using assms(2) by simp
next
  case (evicted s1 z)
  have f: "fair_call a s1 z c \<Longrightarrow> fair_call a s x c"
    using evicted same_terms_trans by (fastforce simp: fair_call_def split: lane_io.splits)
  from evicted(3) have "c \<in> set (snd z) \<or> fair_call a s1 z c"
  proof (cases rule: evicted_cases)
    case (waiting y)
    then show ?thesis using rescued_calls assms(2) by blast
  next
    case (ladder y av)
    then show ?thesis using rescued_calls [OF ladder(2)] last_rungs_calls [OF ladder(1) [symmetric] assms(2)] by blast
  qed
  then show ?thesis using f evicted by auto
qed

text \<open>The calls that put a box into a hold come of a replacement.\<close>

lemma rescued_ret: "rescued a w s x y \<Longrightarrow> LRet c \<in> set (snd y) \<Longrightarrow> LRet c \<in> set (snd x)"
  by (auto simp: rescued_def)

lemma act_ret_calls:
  assumes "act_step a w m s x = r" "LRet c \<in> set (snd (snd r))" "LRet c \<notin> set (snd x)"
  shows "\<not> lane_inst_live (own_inst w (fst x))
    \<and> c \<in> set (snd (retain_box (ret_view a w) (ev_iid (ln_ctx (fst x))) (Some (ev_iid (ln_ctx (fst (snd r)))))))
    \<and> ev_replacements (ln_ctx (fst (snd r))) = ev_replacements (ln_ctx (fst x)) + 1
    \<and> LLadder (DMoveQueue (ev_iid (ln_ctx (fst x))) (ev_iid (ln_ctx (fst (snd r))))) \<in> set (snd (snd r))"
  using assms(1)
proof (cases rule: act_cases)
  case (live s1 z)
  have "one_bid a (map_option move_price (bid_action s1)) (back_alive a z) (live_step a w s1 z)" using live_one_bid by blast
  then show ?thesis using assms(2,3) live(4,7) back_alive_frame [of a z] by (auto simp: one_bid_def)
next
  case fenced
  then show ?thesis using assms(2,3) by simp
next
  case (evicted s1 z)
  have nz: "LRet c \<notin> set (snd z)" using assms(3) evicted(4) by simp
  from evicted(3) show ?thesis
  proof (cases rule: evicted_cases)
    case (waiting y)
    then show ?thesis using rescued_ret [OF waiting(3)] assms(2) nz by auto
  next
    case (ladder y av)
    have ny: "LRet c \<notin> set (snd y)" using rescued_ret [OF ladder(2)] nz by blast
    have y: "ev_iid (ln_ctx (fst y)) = ev_iid (ln_ctx (fst x))" "ev_replacements (ln_ctx (fst y)) = ev_replacements (ln_ctx (fst x))"
      using ladder(2) evicted(5) by (simp_all add: rescued_def)
    obtain v q where r: "r = (v, q)" by (rule prod.exhaust)
    from ladder(1) [symmetric, unfolded r] show ?thesis
    proof (cases rule: last_rungs_cases)
      case replaced
      then obtain p b k hb rs where h: "retain_box (ret_view a w) (ev_iid (ln_ctx (fst y))) (Some (ev_iid (ln_ctx (fst q)))) = (hb, rs)"
        "snd q = snd y @ [LLadder (DLaunch p k b), LLadder (DMoveQueue (ev_iid (ln_ctx (fst y))) (ev_iid (ln_ctx (fst q))))] @ map LRet rs"
        "ev_replacements (ln_ctx (fst q)) = ev_replacements (ln_ctx (fst y)) + 1" by (auto simp: replaced_box_def)
      then have "c \<in> set rs" using assms(2) ny unfolding r by auto
      then show ?thesis using h y evicted(1) unfolding r by simp
    qed (use assms(2) ny in \<open>auto simp: r\<close>)
  qed
qed

section \<open>A whole tick\<close>

text \<open>Why a box may be stopped.\<close>

definition parked_why :: "lane_args \<Rightarrow> lane_world \<Rightarrow> jobs_lane \<Rightarrow> lane_verdict option \<Rightarrow> bool" where
  "parked_why a w l v \<longleftrightarrow>
     (v = Some IdentityMismatch \<and> la_serve a \<and> la_expect a \<and> lw_serve_identity w \<and> own_inst w l \<noteq> None)
     \<or> (v = Some OverBudget \<and> over_budget a l)
     \<or> (v = Some QueueDrained \<and> \<not> la_serve a \<and> \<not> la_keep a
        \<and> (\<exists>jids. lw_queue w = Some jids \<and> jids \<noteq> [] \<and> pending_views w (lane_inst_live (own_inst w l)) jids = []))"

lemma stop_unless_calls: "c \<in> set (snd (stop_unless b y)) \<Longrightarrow> c \<in> set (snd y) \<or> (\<not> b \<and> c = LStop (ev_iid (ln_ctx (fst y))))"
  by (auto simp: stop_unless_def call_def split: if_splits)

lemma condemn_calls:
  assumes "condemn_step a w v x = r" "c \<in> set (snd (snd r))"
  shows "c \<in> set (snd x) \<or> (\<exists>io. c = LLadder io)"
  using assms by (auto simp: condemn_step_def with_ladder_def Let_def split: prod.splits)

lemma exit_calls:
  assumes "tick_exit a w y r" "c \<in> set (snd (snd r))"
  shows "c \<in> set (snd y) \<or> (c = LStop (ev_iid (ln_ctx (fst y))) \<and> \<not> la_dry a \<and> parked_why a w (fst y) (fst r)) \<or> (\<exists>io. c = LLadder io)"
  using assms
proof cases
  case (exit_condemned v)
  then show ?thesis using condemn_calls [of a w v y r c] assms(2) by auto
qed (use assms(2) in \<open>auto simp: parked_why_def dest!: stop_unless_calls\<close>)

lemma observe_start:
  assumes "sends_nothing (lane_observe a w (l, [])) y"
  shows "ev_iid (ln_ctx (fst y)) = ev_iid (ln_ctx l)" "ev_spend (ln_ctx (fst y)) = spent_by_now w l" "own_inst w (fst y) = own_inst w l"
    "ev_not_live (ln_ctx (fst y)) = ev_not_live (ln_ctx l)" "c \<in> set (snd y) \<Longrightarrow> \<exists>k\<in>set (snd (retention_sweep (ret_view a w) (ln_held l))). c = LRet k" "charged a n (l, []) y"
    "es_bucket (ln_es (fst y)) = es_bucket (ln_es l)" "ev_replacements (ln_ctx (fst y)) = ev_replacements (ln_ctx l)"
proof -
  note o = lane_observe_frame [OF refl, of a w l "[]"]
  show e: "ev_iid (ln_ctx (fst y)) = ev_iid (ln_ctx l)" "ev_spend (ln_ctx (fst y)) = spent_by_now w l"
    "ev_not_live (ln_ctx (fst y)) = ev_not_live (ln_ctx l)" "es_bucket (ln_es (fst y)) = es_bucket (ln_es l)"
    "ev_replacements (ln_ctx (fst y)) = ev_replacements (ln_ctx l)" using o assms by (simp_all add: sends_nothing_def same_store_def)
  show "own_inst w (fst y) = own_inst w l" by (rule own_inst_cong) (rule e)
  let ?rs = "snd (retention_sweep (ret_view a w) (ln_held l))"
  have rs: "snd y = map LRet ?rs" using o assms by (simp add: sends_nothing_def)
  then show "c \<in> set (snd y) \<Longrightarrow> \<exists>k\<in>set ?rs. c = LRet k" by auto
  have "ret_destroys ?rs + open_holds (ln_held (fst y)) \<le> open_holds (ln_held l)"
    using sweep_destroys_count [of "ret_view a w" "ln_held l"] o assms by (simp add: sends_nothing_def same_store_def)
  moreover have "moved_on l (fst y) = 0" "ev_replacements (ln_ctx (fst y)) = ev_replacements (ln_ctx l)"
    "bo_relaunches (ln_boot (fst y)) = bo_relaunches (ln_boot l)" using o assms by (simp_all add: sends_nothing_def moved_on_def)
  ultimately show "charged a n (l, []) y" by (simp add: charged_def rs)
qed

text \<open>A held box that the sweep puts back to sleep: it runs although the ladder had put it to sleep, and not too often yet.\<close>

definition woken :: "ret_world \<Rightarrow> held_box \<Rightarrow> bool" where
  "woken w r \<longleftrightarrow> \<not> rw_dry w \<and> open_held r \<and> (\<exists>row. listed w (hb_iid r) = Some row \<and> row_live row)
     \<and> quiesced_by_us r \<and> hb_requiesces r < RETENTION_REQUIESCE_MAX"

lemma liveness_puts:
  assumes "c \<in> set (snd (retention_liveness w row r))"
  shows "row_live row \<and> quiesced_by_us r \<and> hb_requiesces r < RETENTION_REQUIESCE_MAX \<and> \<not> rw_dry w"
proof -
  obtain q cs where q: "quiesce_box w (hb_iid r) (Some row) ForResurrection = (q, cs)" by force
  then have "rw_dry w \<Longrightarrow> cs = []" by (auto simp: quiesce_box_def Let_def)
  then show ?thesis using assms q by (auto simp: retention_liveness_def Let_def split: if_splits)
qed

lemma sweep_puts:
  assumes "c \<in> set (snd (retention_sweep w rs))" "c \<in> {RetStop i, RetPin i}"
  shows "\<exists>r\<in>set rs. hb_iid r = i \<and> woken w r"
proof -
  have "c \<notin> range RetSalvage" using assms(2) by auto
  then obtain r where r: "r \<in> set rs" "c \<in> set (snd (sweep_held w (fst (job_salvage_step w r))))" using sweep_calls [OF assms(1)] by blast
  let ?r = "fst (job_salvage_step w r)"
  have o: "open_held ?r" using r(2) sweep_held_closed [of ?r w] by (cases "open_held ?r") simp_all
  obtain row where row: "listed w (hb_iid ?r) = Some row"
  proof (cases "listed w (hb_iid ?r)")
    case None
    then have "snd (sweep_held w ?r) = []" by (simp add: sweep_held_def Let_def)
    then show ?thesis using r(2) by simp
  qed
  obtain r1 cs where l: "retention_liveness w row ?r = (r1, cs)" by force
  have c: "c \<in> set cs" using sweep_held_row(1) [OF row l o] r(2) assms(2) by auto
  then have h: "hb_iid ?r = i" using liveness_calls [of w row ?r] l assms(2) by auto
  have "quiesced_by_us ?r = quiesced_by_us r"
    by (simp add: job_salvage_step_def quiesced_by_us_def Let_def split: option.split prod.split)
  then have "woken w r" using liveness_puts [of c w row ?r] c l row o by (auto simp: woken_def open_held_def)
  then show ?thesis using r(1) h by auto
qed

lemma retain_puts:
  assumes "c \<in> set (snd (retain_box w old new))" "c \<in> {RetStop i, RetPin i}"
  shows "i = old \<and> \<not> rw_dry w"
proof -
  obtain q cs where q: "quiesce_box w old (listed w old) ForRetention = (q, cs)" by force
  then have "rw_dry w \<Longrightarrow> cs = []" "set cs \<subseteq> {RetStop old, RetPin old}" using quiesce_calls [of w old "listed w old" ForRetention]
    by (auto simp: quiesce_box_def Let_def)
  then show ?thesis using assms q by (auto simp: retain_box_def Let_def split: retention_action.splits if_splits)
qed

lemma tick_charged:
  assumes "job_supervise_tick a w l = r"
  shows "charged a (ew_max_replacements (lw_evict w)) (l, []) (snd r)"
  using assms
proof (cases rule: tick_cases)
  case (exited y)
  then show ?thesis using observe_start(6) exit_charged charged_trans by blast
next
  case (moved y)
  then show ?thesis using observe_start(6) handoff_moved charged_trans by blast
next
  case (acted x y m)
  have "charged a n x (snd (market_step a w (fst x)), snd x)" for n
    using quiet_charged [OF market_quiet [OF prod.collapse [symmetric], where w = w and l = "fst x" and cs = "snd x"]] by simp
  then show ?thesis using acted observe_start(6) handoff_quiet act_charged charged_trans by metis
qed

text \<open>The prices that a tick bids on, when it comes to that.\<close>

definition tick_prices :: "lane_args \<Rightarrow> lane_world \<Rightarrow> jobs_lane \<Rightarrow> (tick_market \<times> jobs_lane) option" where
  "tick_prices a w l =
     (case exits a w (lane_observe a w (l, [])) of Inl _ \<Rightarrow> None | Inr x \<Rightarrow> Some (market_step a w (fst x)))"

text \<open>C1. A lane never bids past its rails. A bid that a tick puts itself is on the watched box, in a watch
  that is not a dry run, at most the ceiling of the watch as this tick prices it, below the on-demand price
  of this tick, different from the standing bid, and never sooner after the last put than the rate limit.\<close>

theorem lane_bids_within_rails:
  assumes "job_supervise_tick a w l = (v, l', cs)" "LBid i p \<in> set cs"
  shows "\<exists>m l1. tick_prices a w l = Some (m, l1) \<and> i = ev_iid (ln_ctx l) \<and> \<not> la_dry a
    \<and> (\<forall>c. ev_max_bid (ln_ctx l1) = Some c \<longrightarrow> p \<le> c) \<and> (\<forall>d. pos_opt (tm_on_demand m) = Some d \<longrightarrow> p < d)
    \<and> (\<exists>b. lc_last_bid (ln_ctx l1) = Some b \<and> b \<noteq> p) \<and> BID_RATE_LIMIT_S \<le> lw_now w - dflt 0 (lc_put_ts (ln_ctx l1))"
  using assms(1)
proof (cases rule: tick_cases)
  case (exited y)
  then show ?thesis using exit_calls [OF exited(2), of "LBid i p"] observe_start(5) [OF exited(1), of "LBid i p"] assms(2) by auto
next
  case (moved y)
  then have "LBid i p \<in> set (snd y)" using handoff_moved [OF moved(3)] assms(2) by simp
  then show ?thesis using observe_start(5) [OF moved(1), of "LBid i p"] by auto
next
  case (acted x y m)
  obtain l1 where ml: "market_step a w (fst x) = (m, l1)" using acted(4) by (metis prod.collapse)
  have y: "snd y = snd x" "ev_iid (ln_ctx (fst y)) = ev_iid (ln_ctx l)"
    using handoff_quiet [OF acted(5)] market_quiet [OF ml, of "snd x"] observe_start(1) [OF acted(1)] ml by (simp_all add: sends_nothing_def)
  have "LBid i p \<notin> set (snd y)" using observe_start(5) [OF acted(1), of "LBid i p"] y by auto
  then have f: "fair_call a (lane_poll_state a w m l1) y (LBid i p)" using act_calls [OF acted(6)] assms(2) ml by auto
  then obtain s' b where s: "same_terms (lane_poll_state a w m l1) s'" "bid_action s' = Some b" "p = move_price b"
    "i = ev_iid (ln_ctx l)" "\<not> la_dry a" using y by (auto simp: fair_call_def)
  note q = bid_action_price [OF s(2)]
  have st: "ps_max_bid s' = ev_max_bid (ln_ctx l1)" "ps_on_demand s' = tm_on_demand m" "ps_last_bid s' = lc_last_bid (ln_ctx l1)"
    "ps_now s' = lw_now w" "ps_last_bid_put_ts s' = dflt 0 (lc_put_ts (ln_ctx l1))"
    using s(1) by (simp_all add: same_terms_def lane_poll_state_def Let_def)
  have "(\<forall>c. ev_max_bid (ln_ctx l1) = Some c \<longrightarrow> p \<le> c) \<and> (\<forall>d. pos_opt (tm_on_demand m) = Some d \<longrightarrow> p < d)"
    using q(1) poll_target_bounds [of s' p] rescue_target_bounds [of s' p] unfolding st s(3) by blast
  moreover have "tick_prices a w l = Some (m, l1)" by (simp add: tick_prices_def acted(3) ml)
  moreover have "(\<exists>b. lc_last_bid (ln_ctx l1) = Some b \<and> b \<noteq> p)" "BID_RATE_LIMIT_S \<le> lw_now w - dflt 0 (lc_put_ts (ln_ctx l1))"
    using q(2,3) st s(3) by auto
  ultimately show ?thesis using s(4,5) by blast
qed

text \<open>The box that a call stops.\<close>

definition stop_of :: "lane_io \<Rightarrow> string option" where
  "stop_of c = (case c of LStop i \<Rightarrow> Some i | LRet (RetStop i) \<Rightarrow> Some i | _ \<Rightarrow> None)"

text \<open>C2. A box is stopped only for a reason, and never in a dry run: the watched box for a foreign identity, a spent
  budget or a read and nonempty queue whose readable jobs all ended; a held box that woke; the lost box once its
  queue has moved. The migration driver's own calls are apart.\<close>

theorem parked_only_for_a_reason:
  assumes "job_supervise_tick a w l = (v, l', cs)" "c \<in> set cs" "stop_of c = Some i"
  shows "\<not> la_dry a \<and>
    (c = LStop i \<and> i = ev_iid (ln_ctx l)
       \<and> ((v = Some IdentityMismatch \<and> la_serve a \<and> la_expect a \<and> lw_serve_identity w)
          \<or> (v = Some OverBudget \<and> (\<exists>b. la_budget a = Some b \<and> b \<le> spent_by_now w l))
          \<or> (v = Some QueueDrained \<and> \<not> la_keep a \<and> (\<exists>jids. lw_queue w = Some jids \<and> jids \<noteq> []
               \<and> (\<forall>j\<in>set jids. \<forall>q. lw_read w (lane_inst_live (own_inst w l)) j = Some q \<longrightarrow> qv_status q \<in> set JOB_TERMINAL))))
     \<or> c = LRet (RetStop i) \<and> (\<exists>r\<in>set (ln_held l). hb_iid r = i \<and> woken (ret_view a w) r)
     \<or> c = LRet (RetStop i) \<and> i = ev_iid (ln_ctx l) \<and> \<not> lane_inst_live (own_inst w l)
       \<and> LLadder (DMoveQueue i (ev_iid (ln_ctx l'))) \<in> set cs \<and> ev_replacements (ln_ctx l') = ev_replacements (ln_ctx l) + 1)"
proof -
  have c: "c = LStop i \<or> c = LRet (RetStop i)" using assms(3) by (auto simp: stop_of_def split: lane_io.splits ret_call.splits)
  have dry: "rw_dry (ret_view a w) = la_dry a" by (simp add: ret_view_def)
  have held: "\<not> la_dry a \<and> c = LRet (RetStop i) \<and> (\<exists>r\<in>set (ln_held l). hb_iid r = i \<and> woken (ret_view a w) r)"
    if "k \<in> set (snd (retention_sweep (ret_view a w) (ln_held l)))" "c = LRet k" for k
  proof -
    have "k = RetStop i" using c that(2) by auto
    then show ?thesis using sweep_puts [OF that(1), of i] c that(2) dry by (auto simp: woken_def)
  qed
  from assms(1) show ?thesis
  proof (cases rule: tick_cases)
    case (exited y)
    note o = observe_start [OF exited(1)]
    consider "c \<in> set (snd y)" | "c = LStop i" "i = ev_iid (ln_ctx l)" "\<not> la_dry a" "parked_why a w (fst y) v"
      using exit_calls [OF exited(2), of c] c o(1) assms(2) by auto
    then show ?thesis
    proof cases
      case 1
      then show ?thesis using o(5) held by blast
    next
      case 2
      have "over_budget a (fst y) \<Longrightarrow> \<exists>b. la_budget a = Some b \<and> b \<le> spent_by_now w l"
        using o(2) by (auto simp: over_budget_def split: option.splits)
      moreover have "\<forall>j\<in>set jids. \<forall>q. lw_read w (lane_inst_live (own_inst w l)) j = Some q \<longrightarrow> qv_status q \<in> set JOB_TERMINAL"
        if "pending_views w (lane_inst_live (own_inst w (fst y))) jids = []" for jids
        using that o(3) by (fastforce simp: pending_views_def filter_empty_conv map_filter_def)
      ultimately show ?thesis using 2 unfolding parked_why_def by blast
    qed
  next
    case (moved y)
    then have "c \<in> set (snd y)" using handoff_moved [OF moved(3)] assms(2) by simp
    then show ?thesis using observe_start(5) [OF moved(1)] held by blast
  next
    case (acted x y m)
    note o = observe_start [OF acted(1)]
    have mq: "sends_nothing (fst x, snd x) (snd (market_step a w (fst x)), snd x)" by (rule market_quiet [OF prod.collapse [symmetric]])
    have y: "snd y = snd x" "ev_iid (ln_ctx (fst y)) = ev_iid (ln_ctx l)" "ev_replacements (ln_ctx (fst y)) = ev_replacements (ln_ctx l)"
      using handoff_quiet [OF acted(5)] mq o(1,8) by (simp_all add: sends_nothing_def)
    have own: "own_inst w (fst y) = own_inst w l" by (rule own_inst_cong) (rule y(2))
    show ?thesis
    proof (cases "c \<in> set (snd y)")
      case True
      then show ?thesis using o(5) held y(1) by (metis (full_types))
    next
      case False
      have "c \<noteq> LStop i" using act_calls [OF acted(6), of "LStop i"] False assms(2) by (auto simp: fair_call_def)
      then have k: "c = LRet (RetStop i)" using c by blast
      note h = act_ret_calls [OF acted(6), of "RetStop i"]
      show ?thesis using h False assms(2) retain_puts [of "RetStop i" "ret_view a w"] dry y own k by auto
    qed
  qed
qed

text \<open>C3. A watch whose budget is spent buys nothing. Once what it has spent, this tick's running time included,
  reaches the budget, the tick ends the watch and sends no start, no rental and no bid, but for the bid at the park
  price that puts a held box back to sleep that had woken.\<close>

theorem no_spending_over_budget:
  assumes "job_supervise_tick a w l = (v, l', cs)" "la_budget a = Some b" "b \<le> spent_by_now w l"
  shows "v \<in> Some ` {OverBudget, IdentityMismatch, SelfParked, OperatorPark}
    \<and> list_all (\<lambda>c. pays c \<longrightarrow> (\<exists>r\<in>set (ln_held l). c = LRet (RetPin (hb_iid r)) \<and> woken (ret_view a w) r)) cs"
  using assms(1)
proof (cases rule: tick_cases)
  case (exited y)
  let ?ok = "\<lambda>c. pays c \<longrightarrow> (\<exists>r\<in>set (ln_held l). c = LRet (RetPin (hb_iid r)) \<and> woken (ret_view a w) r)"
  note o = observe_start [OF exited(1)]
  have ob: "over_budget a (fst y)" using assms(2,3) o(2) by (simp add: over_budget_def)
  have m: "?ok c" if "c \<in> set (snd y)" for c
  proof
    assume "pays c"
    obtain k where k: "k \<in> set (snd (retention_sweep (ret_view a w) (ln_held l)))" "c = LRet k" using o(5) [OF \<open>c \<in> set (snd y)\<close>] by blast
    then obtain i where "k = RetPin i" using \<open>pays c\<close> by (auto simp: pays_def split: ret_call.splits)
    then show "\<exists>r\<in>set (ln_held l). c = LRet (RetPin (hb_iid r)) \<and> woken (ret_view a w) r"
      using sweep_puts [OF k(1), of i] k(2) by auto
  qed
  have n: "?ok c" if "c \<in> set (snd (stop_unless k y))" for k c
    using stop_unless_calls [OF that] m [of c] by (auto simp: pays_def)
  have k: "(l', cs) = stop_unless q y \<Longrightarrow> list_all ?ok cs" for q
    using n [of _ q] by (cases "stop_unless q y") (auto simp: list_all_iff)
  from exited(2) ob k m show ?thesis by cases (auto simp: list_all_iff)
next
  case (moved y)
  then show ?thesis using assms(2,3) observe_start(2) [OF moved(1)] by (simp add: over_budget_def)
next
  case (acted x y m)
  then show ?thesis using assms(2,3) observe_start(2) [OF acted(1)] by (simp add: over_budget_def)
qed

text \<open>C4. A jobs watch gives a box up only after its ladder has refused. When it ends unrecoverable, the box
  was not running, the loss had outlasted the debounce, the ladder recorded why it did not replace the box or
  the watch was a dry run, and the watched box, the count of replacements and the queue are what they were.\<close>

theorem gives_up_only_after_the_ladder:
  assumes "job_supervise_tick a w l = (Some LaneUnrecoverable, l', cs)" "\<not> la_serve a"
  shows "\<not> lane_inst_live (own_inst w l) \<and> NOT_LIVE_DEBOUNCE \<le> int (ev_not_live (ln_ctx l)) + 1
    \<and> (ev_refused (ln_ctx l') \<noteq> None \<or> la_dry a) \<and> ev_iid (ln_ctx l') = ev_iid (ln_ctx l)
    \<and> ev_replacements (ln_ctx l') = ev_replacements (ln_ctx l) \<and> es_bucket (ln_es l') = es_bucket (ln_es l)
    \<and> (\<forall>old new. LLadder (DMoveQueue old new) \<notin> set cs)"
  using assms(1)
proof (cases rule: tick_cases)
  case (exited y)
  have "\<not> tick_exit a w y (Some LaneUnrecoverable, l', cs)"
  proof
    assume "tick_exit a w y (Some LaneUnrecoverable, l', cs)"
    then obtain q where "condemn_step a w q y = (Some LaneUnrecoverable, l', cs)" using assms(2) by cases auto
    then show False using condemn_charged by blast
  qed
  then show ?thesis using exited(2) by simp
next
  case (moved y)
  then show ?thesis using handoff_moved [OF moved(3)] by simp
next
  case (acted x y m)
  let ?l1 = "snd (market_step a w (fst x))" let ?s = "lane_poll_state a w m ?l1"
  have mq: "sends_nothing (fst x, snd x) (?l1, snd x)" by (rule market_quiet [OF prod.collapse [symmetric]])
  have y: "snd y = snd x" "ev_iid (ln_ctx (fst y)) = ev_iid (ln_ctx l)" "ev_not_live (ln_ctx (fst y)) = ev_not_live (ln_ctx l)"
    "ev_replacements (ln_ctx (fst y)) = ev_replacements (ln_ctx l)" "es_bucket (ln_es (fst y)) = es_bucket (ln_es l)"
    using handoff_quiet [OF acted(5)] mq observe_start(1,4,7,8) [OF acted(1)] by (simp_all add: sends_nothing_def same_store_def)
  have own: "own_inst w (fst y) = own_inst w l" by (rule own_inst_cong) (rule y(2))
  from acted(6) show ?thesis
  proof (cases rule: act_cases)
    case (evicted s1 z)
    from evicted(3) show ?thesis
    proof (cases rule: evicted_cases)
      case (ladder z' av)
      have z: "ev_iid (ln_ctx (fst z')) = ev_iid (ln_ctx l)" "ev_replacements (ln_ctx (fst z')) = ev_replacements (ln_ctx l)"
        "es_bucket (ln_es (fst z')) = es_bucket (ln_es l)"
        using ladder(2) evicted(5,7) y(2,4,5) by (simp_all add: rescued_def same_store_def)
      have nm: "LLadder (DMoveQueue old new) \<notin> set (snd z')" for old new
        using rescued_calls [OF ladder(2)] ladder(2) evicted(4) y(1) observe_start(5) [OF acted(1), of "LLadder (DMoveQueue old new)"]
        by (auto simp: rescued_def)
      from ladder(1) [symmetric] show ?thesis
      proof (cases rule: last_rungs_cases)
        case given_up
        then show ?thesis using evicted(1,5) ladder(3) own y z nm by (auto simp: same_store_def)
      qed (use assms(2) in simp_all)
    qed simp
  qed simp_all
qed

text \<open>C5. A lost box is answered. When vast no longer lists the box of a jobs (not a serve) watch, the loss has lasted
  the debounce and the migration driver, if on, neither holds its fence nor moves, the very next tick ends the watch
  with a verdict, or rents another box, puts the queue through the bulk move to it and charges one replacement.\<close>

theorem gone_box_answered:
  assumes "job_supervise_tick a w l = (v, l', cs)" "own_inst w l = None" "\<not> la_serve a"
    "la_handoff a \<longrightarrow> \<not> ha_fence (lw_handoff w) \<and> ha_moved (lw_handoff w) = None"
    "NOT_LIVE_DEBOUNCE \<le> int (ev_not_live (ln_ctx l)) + 1"
  shows "v \<in> Some ` {OverBudget, QueueDrained, QueueEmpty, LaneUnrecoverable}
    \<or> (v = None \<and> (\<exists>x k p. LLadder (DLaunch x k p) \<in> set cs)
        \<and> es_bucket (ln_es l') = queue_moved w (ev_iid (ln_ctx l)) (ev_iid (ln_ctx l')) (es_bucket (ln_es l))
        \<and> ev_replacements (ln_ctx l') = ev_replacements (ln_ctx l) + 1)"
  using assms(1)
proof (cases rule: tick_cases)
  case (exited y)
  have "own_inst w (fst y) = None" using observe_start(3) [OF exited(1)] assms(2) by simp
  with exited(2) show ?thesis using assms(3) by (auto elim!: tick_exit.cases)
next
  case (moved y)
  then show ?thesis using handoff_moved [OF moved(3)] assms(4) by simp
next
  case (acted x y m)
  note os = observe_start [OF acted(1)]
  have mq: "sends_nothing (fst x, snd x) (snd (market_step a w (fst x)), snd x)" by (rule market_quiet [OF prod.collapse [symmetric]])
  have y: "ev_iid (ln_ctx (fst y)) = ev_iid (ln_ctx l)" "ev_not_live (ln_ctx (fst y)) = ev_not_live (ln_ctx l)"
    "ev_replacements (ln_ctx (fst y)) = ev_replacements (ln_ctx l)" "es_bucket (ln_es (fst y)) = es_bucket (ln_es l)"
    using handoff_quiet [OF acted(5)] mq os(1,4,7,8) by (simp_all add: sends_nothing_def same_store_def)
  have own: "own_inst w (fst y) = None" using own_inst_cong [OF y(1), of w] assms(2) by simp
  from acted(6) show ?thesis
  proof (cases rule: act_cases)
    case (live s1 z)
    then show ?thesis using own by (simp add: lane_inst_live_def)
  next
    case fenced
    then show ?thesis using assms(4) handoff_quiet [OF acted(5)] by simp
  next
    case (evicted s1 z)
    have z: "own_inst w (fst z) = None" using own evicted(5) by (simp add: own_inst_def)
    from evicted(3) show ?thesis
    proof (cases rule: evicted_cases)
      case (waiting z')
      then show ?thesis using z assms(5) evicted(5) y(2) by simp
    next
      case (ladder z' av)
      have zi: "ev_iid (ln_ctx (fst z')) = ev_iid (ln_ctx l)" "ev_replacements (ln_ctx (fst z')) = ev_replacements (ln_ctx l)"
        "es_bucket (ln_es (fst z')) = es_bucket (ln_es l)"
        using ladder(2) evicted(5,7) y(1,3,4) by (simp_all add: rescued_def same_store_def)
      have none: "own_inst w (fst z') = None" using zi(1) assms(2) by (simp add: own_inst_def)
      from ladder(1) [symmetric] show ?thesis
      proof (cases rule: last_rungs_cases)
        case kept
        then show ?thesis using none by simp
      next
        case replaced
        then have "\<exists>x k p. LLadder (DLaunch x k p) \<in> set cs" using replaced_launches [of a w z' "(l', cs)"] by simp
        then show ?thesis using replaced(2,3) zi by (simp add: replaced_box_def)
      qed simp_all
    qed
  qed
qed

text \<open>Two ways a reading that failed is taken for a fact. A job that could not be read counts as ended, and the
  box is parked; a queue that could not be listed leaves the watch claiming no work, and a stopped on-demand
  box is then taken for parked by its operator.\<close>

lemma unread_job_counts_as_ended:
  assumes "lw_queue w = Some [j]" "\<And>live. lw_read w live j = None" "\<not> la_serve a" "\<not> la_handoff a" "\<not> la_keep a" "\<not> la_dry a"
  shows "queue_step a w x = Inl (Some QueueDrained, call (LStop (ev_iid (ln_ctx (fst x)))) x)"
  using assms by (simp add: queue_step_def pending_views_def stop_unless_def map_filter_def)

lemma unlisted_queue_claims_no_work:
  assumes "lw_queue w = None" "queue_step a w x = Inr y" "own_inst w' (fst y) = Some i" "li_intended i = ''stopped''" "li_is_bid i \<noteq> Some True"
    "\<not> la_serve a" "\<not> la_handoff a" "\<not> lw_box_parked w'" "\<not> lw_box_drained w'"
  shows "stop_step a w' y = Inl (Some OperatorPark, y)"
  using assms by (auto simp: queue_step_def stop_step_def classify_job_box_stop_def inst_bid_def Let_def split: option.splits if_splits)

section \<open>A whole watch\<close>

lemma supervise_charged:
  assumes "supervise a ws l = (v, l', css)" "\<forall>w\<in>set ws. ew_max_replacements (lw_evict w) = n"
  shows "charged a n (l, []) (l', concat css)"
  using assms
proof (induction ws arbitrary: l v l' css)
  case (Cons w ws)
  obtain v1 l1 cs where t: "job_supervise_tick a w l = (v1, l1, cs)" by (metis surj_pair)
  have c1: "charged a n (l, []) (l1, cs)" using tick_charged [OF t] Cons.prems(2) by simp
  show ?case
  proof (cases v1)
    case (Some _)
    then show ?thesis using Cons.prems(1) t c1 by auto
  next
    case None
    obtain v2 l2 css2 where r: "supervise a ws l1 = (v2, l2, css2)" by (metis surj_pair)
    have e: "l' = l2" "css = cs # css2" using Cons.prems(1) t None r by auto
    have "charged a n (l1, []) (l2, concat css2)" using Cons.IH [OF r] Cons.prems(2) by simp
    then have "charged a n (l1, cs) (l2, cs @ concat css2)" by (simp add: charged_def)
    then show ?thesis unfolding e using c1 charged_trans by simp
  qed
qed auto

text \<open>C6. The boxes of a watch are bounded. However many ticks it makes, a fresh watch moves its queue to another
  box (by its own two ladders) at most as often as its two caps allow together, and it destroys at most that many
  boxes and the ones it held at the start. The moves and calls of the migration driver are apart.\<close>

theorem boxes_of_a_watch_bounded:
  assumes "supervise a ws l = (v, l', css)" "\<forall>w\<in>set ws. ew_max_replacements (lw_evict w) = n"
    "ev_replacements (ln_ctx l) = 0" "bo_relaunches (ln_boot l) = 0" "0 \<le> n"
  shows "int (queue_moves (concat css)) \<le> n + int (bk_max_retries (la_boot a))
    \<and> int (boxes_destroyed (concat css)) \<le> int (open_holds (ln_held l)) + n + int (bk_max_retries (la_boot a))"
  using supervise_charged [OF assms(1,2)] assms(3-5) by (auto simp: charged_def moved_on_def)

section \<open>The boot loop\<close>

lemma sampler_feed_frame:
  assumes "sampler_feed obs t s = (None, s1)"
  shows "bs_deadline s1 = bs_deadline s \<and> bs_start s1 = bs_start s \<and> t - bs_start s \<le> bs_deadline s"
  using assms
  by (auto simp: sampler_feed_def sampler_verdict_def Let_def split: option.splits prod.splits if_splits)

text \<open>A boot watch ends. Whatever the polls see, a poll past the deadline is the last one that a watch on
  a pull can need: by then it has a verdict.\<close>

lemma boot_watch_ends:
  assumes "(t, obs) \<in> set polls" "bs_deadline s < t - bs_start s"
  shows "boot_health_watch (bs_start s) s polls \<noteq> None"
  using assms
proof (induction polls arbitrary: s)
  case (Cons q polls)
  obtain t1 obs1 where q: "q = (t1, obs1)" by force
  show ?case
  proof (cases obs1)
    case None
    then show ?thesis using Cons q by auto
  next
    case (Some x)
    obtain v s1 where f: "sampler_feed (Some x) t1 s = (v, s1)" by force
    show ?thesis
    proof (cases v)
      case none: None
      note h = sampler_feed_frame [OF f [unfolded none]]
      have "(t, obs) \<in> set polls" using Cons.prems q h by auto
      then have "boot_health_watch (bs_start s1) s1 polls \<noteq> None" using Cons.IH [of s1] Cons.prems(2) h by simp
      then show ?thesis using q Some f none h by simp
    qed (use q Some f in simp)
  qed
qed simp

lemma boot_watch_ends_witness:
  "boot_health_watch 0 (new_sampler 5 60 1800 0) [(60, None), (120, Some (''loading'', [])), (1801, None)] \<noteq> None"
  using boot_watch_ends [of 1801 None "[(60, None), (120, Some (''loading'', [])), (1801, None)]" "new_sampler 5 60 1800 0"]
  by (simp add: new_sampler_def)

section \<open>A demonstration\<close>

text \<open>A jobs watch on box 7 of machine 5, listed or lost, with an unreadable queue.\<close>

definition lane_inst7 :: lane_inst where
  "lane_inst7 = \<lparr>li_iid = ''7'', li_status = ''running'', li_intended = ''running'', li_is_bid = Some True, li_dph = Some (1/5),
     li_base = Some (1/5), li_machine = Some 5, li_storage_day = None, li_disk = None, li_disk_asked = None, li_cc_allow = [],
     li_env_pin = [], li_entry_floor = None, li_start = None, li_pull = []\<rparr>"

definition lane_args7 :: "price option \<Rightarrow> lane_args" where
  "lane_args7 budget = \<lparr>la_dry = False, la_budget = budget, la_keep = False, la_max_bid = Some 1, la_strict = False, la_rescue_wait = None,
     la_serve = False, la_expect = False, la_handoff = False, la_stop_intent = False, la_resume_max = 1, la_escalate_s = 600,
     la_boot = \<lparr>bk_min_mbps = 5, bk_window = 60, bk_pull_timeout = 1800, bk_sla = 0, bk_max_kills = 2, bk_backoff = 2, bk_max_retries = 3\<rparr>\<rparr>"

definition lane_ret7 :: ret_world where
  "lane_ret7 = \<lparr>rw_now = 0, rw_rows = [], rw_retention_h = Some 0, rw_grace_h = 0, rw_dry = False, rw_label = (\<lambda>_. True), rw_stop = (\<lambda>_. True),
     rw_pin = (\<lambda>_. True), rw_destroy = (\<lambda>_. True), rw_salvage_on = False, rw_keep_n = 1, rw_max_gb = 1,
     rw_salv = \<lparr>vw_now = 0, vw_exec = (\<lambda>_ _. Answered []), vw_dest_exec = (\<lambda>_ _. Answered []), vw_status = (\<lambda>_. None), vw_free = (\<lambda>_. None),
        vw_b2 = (\<lambda>_. None), vw_prepare = None, vw_copy = (\<lambda>_ _ _ _. True), vw_push = None, vw_dry = False\<rparr>\<rparr>"

definition lane_world7 :: "secs \<Rightarrow> lane_inst list \<Rightarrow> gpu_offer list \<Rightarrow> lane_world" where
  "lane_world7 t rows offers = \<lparr>lw_now = t, lw_rows = rows, lw_twin = False, lw_handoff = \<lparr>ha_fence = False, ha_moved = None, ha_spend = 0\<rparr>,
     lw_ret = lane_ret7, lw_evict = (demo_evict None t False)\<lparr>ew_search := demo_search offers\<rparr>, lw_serve_identity = False, lw_serve_parked = False,
     lw_serve_boot = False, lw_serve_relaunched = None, lw_box_parked = False, lw_box_drained = False, lw_stamp = None, lw_queue = None,
     lw_read = (\<lambda>_ _. None), lw_market = (\<lambda>_. \<lparr>mk_ok = True, mk_listed = True, mk_min = Some (3/10), mk_floors = [Some (3/10)], mk_scaled = False\<rparr>),
     lw_ondemand = (\<lambda>_. Some 2), lw_notices = [], lw_start = True, lw_bid = True, lw_bucket = JobQueue.demo_world (\<lambda>_. Served),
     lw_actor = ''sup'', lw_move_listing = Some [], lw_move_status = (\<lambda>_. None), lw_latch = None\<rparr>"

definition lane7 :: "nat \<Rightarrow> jobs_lane" where
  "lane7 missed = \<lparr>ln_es = demo_state\<lparr>es_ctx := (es_ctx demo_state)\<lparr>ev_not_live := missed\<rparr>\<rparr>, ln_held = [],
     ln_boot = \<lparr>bo_off = False, bo_loading = None, bo_online = None, bo_running = None, bo_relaunches = 0, bo_sampler = None\<rparr>,
     ln_t_prev = 0, ln_samples = [], ln_decay = (0, None), ln_was_live = None, ln_launch_disk = None, ln_cc_allow = [], ln_env_pin = [],
     ln_entry_floor = None, ln_views = [], ln_announced = None, ln_class = None, ln_notify = None, ln_consumed = [],
     ln_put_failures = 0, ln_resume_tries = 0, ln_reconciled = False, ln_fence = False, ln_condemned = False\<rparr>"

definition lane_tick7 :: "price option \<Rightarrow> lane_inst list \<Rightarrow> gpu_offer list \<Rightarrow> nat \<Rightarrow> tick_result" where
  "lane_tick7 budget rows offers missed = job_supervise_tick (lane_args7 budget) (lane_world7 3600 rows offers) (lane7 missed)"

text \<open>A standing bid that is raised, a budget that is spent, a lost box and an empty market.\<close>

lemma lane_demo:
  "LBid ''7'' (9/25) \<in> set (snd (snd (lane_tick7 (Some 100) [lane_inst7] [] 0)))
   \<and> LStop ''7'' \<in> set (snd (snd (lane_tick7 (Some (1/5)) [lane_inst7] [] 0)))
   \<and> fst (lane_tick7 (Some 100) [] [] 1) = Some LaneUnrecoverable"
  by code_simp

lemma lane_tick7_eq:
  "job_supervise_tick (lane_args7 b) (lane_world7 3600 rows offers) (lane7 k)
     = (fst (lane_tick7 b rows offers k), fst (snd (lane_tick7 b rows offers k)), snd (snd (lane_tick7 b rows offers k)))"
  by (simp add: lane_tick7_def)

lemma lane_bids_within_rails_witness:
  "\<exists>m l1. tick_prices (lane_args7 (Some 100)) (lane_world7 3600 [lane_inst7] []) (lane7 0) = Some (m, l1)
     \<and> (\<forall>d. pos_opt (tm_on_demand m) = Some d \<longrightarrow> 9/25 < d)"
  using lane_bids_within_rails [OF lane_tick7_eq lane_demo [THEN conjunct1]] by blast

lemma parked_only_for_a_reason_witness:
  "\<not> la_dry (lane_args7 (Some (1/5)))"
  using parked_only_for_a_reason [OF lane_tick7_eq lane_demo [THEN conjunct2, THEN conjunct1], of "''7''"] by (simp add: stop_of_def)

lemma gives_up_only_after_the_ladder_witness:
  "ev_refused (ln_ctx (fst (snd (lane_tick7 (Some 100) [] [] 1)))) \<noteq> None"
proof -
  let ?r = "lane_tick7 (Some 100) [] [] 1"
  have t: "job_supervise_tick (lane_args7 (Some 100)) (lane_world7 3600 [] []) (lane7 1)
      = (Some LaneUnrecoverable, fst (snd ?r), snd (snd ?r))"
    using lane_tick7_eq lane_demo by metis
  have "\<not> la_serve (lane_args7 (Some 100))" "\<not> la_dry (lane_args7 (Some 100))" by (simp_all add: lane_args7_def)
  then show ?thesis using gives_up_only_after_the_ladder [OF t] by blast
qed

lemma lane7_simps:
  "ev_spend (ln_ctx (lane7 k)) = 0" "ev_iid (ln_ctx (lane7 k)) = ''7''" "ev_not_live (ln_ctx (lane7 k)) = k" "ln_t_prev (lane7 k) = 0"
  "ev_replacements (ln_ctx (lane7 k)) = 0" "bo_relaunches (ln_boot (lane7 k)) = 0" "ln_held (lane7 k) = []"
  by (simp_all add: lane7_def ln_ctx_def demo_state_def ladder_ctx.defs)

lemma no_spending_over_budget_witness:
  "list_all (\<lambda>c. \<not> pays c) (snd (snd (lane_tick7 (Some (1/5)) [lane_inst7] [] 0)))"
proof -
  have "(1/5::rat) \<le> spent_by_now (lane_world7 3600 [lane_inst7] []) (lane7 0)"
    by (simp add: spent_by_now_def lane7_simps own_inst_def inst_of_def lane_world7_def lane_inst7_def lane_inst_live_def LIVE_STATES_def)
  moreover have "la_budget (lane_args7 (Some (1/5))) = Some (1/5)" by (simp add: lane_args7_def)
  ultimately show ?thesis
    using no_spending_over_budget [OF lane_tick7_eq [of "Some (1/5)" "[lane_inst7]" "[]" 0], of "1/5"] by (simp add: lane7_simps)
qed

lemma gone_box_answered_witness:
  "fst (lane_tick7 None [] [demo_offer] 1) \<in> Some ` {OverBudget, QueueDrained, QueueEmpty, LaneUnrecoverable}
   \<or> ev_replacements (ln_ctx (fst (snd (lane_tick7 None [] [demo_offer] 1)))) = 1"
  using gone_box_answered [OF lane_tick7_eq [of None "[]" "[demo_offer]" 1]]
  by (auto simp: lane7_simps own_inst_def inst_of_def lane_world7_def lane_args7_def NOT_LIVE_DEBOUNCE_def)

lemma boxes_of_a_watch_bounded_witness:
  "boxes_destroyed (concat (snd (snd (supervise (lane_args7 None) [lane_world7 0 [] [demo_offer], lane_world7 60 [lane_inst7] [demo_offer]] (lane7 0))))) \<le> 4"
proof -
  obtain v l' css where s: "supervise (lane_args7 None) [lane_world7 0 [] [demo_offer], lane_world7 60 [lane_inst7] [demo_offer]] (lane7 0) = (v, l', css)"
    by (metis surj_pair)
  show ?thesis using boxes_of_a_watch_bounded [OF s, of 1] unfolding s
    by (simp add: lane7_simps lane_world7_def demo_evict_def lane_args7_def open_holds_def)
qed

end
