(* ===== verification/JobHandoff.thy ===== *)
theory JobHandoff
  imports HandoffDrive JobLane
begin

text \<open>
  The migration driver of the jobs lane (\<open>tools/vast/vastlib/supervise/handoff.py\<close>): the run lane's
  sub-state with the tickets beside it, one tick, the return of tickets when a cutover is undone, adoption
  after a restart and the exit path. Where the lane does what the run lane does, the definitions are those
  of \<open>HandoffDrive\<close>; \<open>jc_lane\<close> is the part of the context they read.

  The understudy's rental, the move of one ticket and the reads of the bucket answer through
  \<open>job_answers\<close>. Dry runs, the sizing snapshot and the notes of refusals are left out.

  Lemma groups: the invariant of every reachable sub-state; what destroying the primary has behind it; the
  cutover and its tickets; the drain that has no clock.
\<close>

section \<open>State\<close>

definition HANDOFF_JOB_PRODUCING :: "string list" where
  "HANDOFF_JOB_PRODUCING = [''checkpoint'', ''started'', ''resumed'', ''claimed'', ''done'']"

record job_handoff =
  jh_sub :: handoff_sub
  jh_gone :: bool
  jh_pending :: "string list"
  jh_running :: "string list"
  jh_incomplete :: "string list"

definition init_job_handoff_state :: job_handoff where
  "init_job_handoff_state = \<lparr>jh_sub = init_handoff_state, jh_gone = False, jh_pending = [], jh_running = [], jh_incomplete = []\<rparr>"

record job_ctx =
  jc_lane :: lane
  jc_evicted :: bool
  jc_wall_h :: "hours option"
  jc_can_complete :: bool
  jc_at_risk_h :: hours
  jc_unresumable :: nat
  jc_min_eta :: "secs option"
  jc_ckpt_stale :: bool
  jc_override :: bool
  jc_pending :: "string list"
  jc_running :: "string list"
  jc_market :: "price option"
  jc_max_bid :: "price option"

text \<open>\<open>ja_run\<close> answers what the lanes share. \<open>ja_events\<close>: names and boxes of a job's events. \<open>ja_line\<close>: the
  tokens of a box's status line. \<open>ja_away\<close>: the box parked itself or is about to.\<close>

record job_answers =
  ja_run :: answers
  ja_line :: "string \<Rightarrow> string list option"
  ja_away :: "string \<Rightarrow> bool"
  ja_launch :: "abort_why + string \<times> price option"
  ja_events :: "string \<Rightarrow> (string \<times> string option) list"
  ja_retarget :: "string \<Rightarrow> string option \<Rightarrow> string option \<Rightarrow> bool"
  ja_queue :: "string option \<Rightarrow> string list option"

datatype job_io =
    JBox io
  | JEpoch string nat
  | JPromoted string
  | JLaunch nat
  | JRetarget string "string option" "string option"
  | JPin string price

definition on_sub :: "(handoff_sub \<Rightarrow> handoff_sub) \<Rightarrow> job_handoff \<Rightarrow> job_handoff" where
  "on_sub f jh = jh\<lparr>jh_sub := f (jh_sub jh)\<rparr>"

definition jh_primary :: "job_ctx \<Rightarrow> job_handoff \<Rightarrow> string option" where
  "jh_primary jc jh = (case hf_primary_iid (jh_sub jh) of Some i \<Rightarrow> Some i | None \<Rightarrow> ln_instance_id (jc_lane jc))"

section \<open>Observation\<close>

text \<open>Every running job has flushed; some job shows an event of the understudy.\<close>

definition job_flushed :: "job_answers \<Rightarrow> job_handoff \<Rightarrow> bool" where
  "job_flushed an jh = list_all (\<lambda>j. j \<in> set (jh_pending jh) \<and> list_ex (\<lambda>e. fst e = ''final_flush'') (ja_events an j)) (jh_running jh)"

definition job_producing :: "job_answers \<Rightarrow> job_handoff \<Rightarrow> bool" where
  "job_producing an jh =
     (case hf_understudy_iid (jh_sub jh) of None \<Rightarrow> False
      | Some u \<Rightarrow> list_ex (\<lambda>j. list_ex (\<lambda>e. snd e = Some u \<and> fst e \<in> set HANDOFF_JOB_PRODUCING) (ja_events an j)) (jh_pending jh))"

definition understudy_synced :: "job_answers \<Rightarrow> handoff_sub \<Rightarrow> bool" where
  "understudy_synced an hf =
     (live_status (hf_understudy_status hf)
      \<and> (case hf_understudy_iid hf of None \<Rightarrow> False
         | Some u \<Rightarrow> (case ja_line an u of Some (tok # toks) \<Rightarrow> py_lower tok \<in> {''running'', ''idle''} \<and> jobd_status_pyhalf (tok # toks) \<noteq> Some True
                      | _ \<Rightarrow> False)
                     \<and> \<not> ja_away an u))"

definition observe_job_understudy :: "job_answers \<Rightarrow> job_ctx \<Rightarrow> job_handoff \<Rightarrow> job_handoff" where
  "observe_job_understudy an jc jh =
     (let hf = jh_sub jh; insts = an_instances (ja_run an)
      in case find (\<lambda>i. in_twin i \<or> hf_understudy_iid hf = Some (in_id i)) insts of
           None \<Rightarrow> if hf_understudy_iid hf \<noteq> None \<and> insts \<noteq> []
                   then jh\<lparr>jh_gone := True, jh_sub := hf\<lparr>hf_understudy_status := None\<rparr>\<rparr> else jh
         | Some i \<Rightarrow>
            (let status = status_of i;
                 hf1 = hf\<lparr>hf_understudy_iid := Some (in_id i), hf_understudy_status := status,
                          hf_understudy_dph := (case in_dph_total i of Some d \<Rightarrow> Some d | None \<Rightarrow> hf_understudy_dph hf),
                          hf_understudy_live_since := (if live_status status \<and> hf_understudy_live_since hf = None
                            then Some (lc_now (jc_lane jc)) else hf_understudy_live_since hf)\<rparr>
             in jh\<lparr>jh_gone := False,
                   jh_sub := (if hf_ckpt_pulled_epoch hf1 = None \<and> hf_phase hf1 \<in> {LAUNCHING, WARMING} \<and> understudy_synced an hf1
                              then hf1\<lparr>hf_ckpt_pulled_epoch := Some (hf_handoffs_done hf1 + 1)\<rparr> else hf1)\<rparr>))"

definition read_job_signals :: "job_answers \<Rightarrow> job_handoff \<Rightarrow> job_handoff" where
  "read_job_signals an jh =
     (if hf_phase (jh_sub jh) \<in> {CUTOVER, DRAINING}
      then on_sub (\<lambda>hf. hf\<lparr>hf_final_flush_seen := hf_final_flush_seen hf \<or> job_flushed an jh,
                          hf_understudy_producing := hf_understudy_producing hf \<or> job_producing an jh\<rparr>) jh
      else jh)"

definition job_build_state :: "job_ctx \<Rightarrow> job_handoff \<Rightarrow> handoff_state" where
  "job_build_state jc jh =
     (let st = jc_lane jc; hf = jh_sub jh
      in mk_handoff_state
     \<lparr>hs_phase := hf_phase hf, hs_over_ceiling_streak := hf_over_ceiling_streak hf,
      hs_primary_iid := jh_primary jc jh,
      hs_primary_bid := lc_last_bid st, hs_primary_on_demand := ln_on_demand st,
      hs_primary_dph := handoff_primary_dph st, hs_primary_evicted := jc_evicted jc,
      hs_primary_gone := hf_primary_gone hf, hs_understudy_iid := hf_understudy_iid hf,
      hs_understudy_dph := hf_understudy_dph hf, hs_understudy_on_demand := hf_understudy_on_demand hf,
      hs_understudy_status := hf_understudy_status hf,
      hs_understudy_live_since := hf_understudy_live_since hf,
      hs_understudy_producing := (hf_understudy_producing hf \<and> jh_incomplete jh = []),
      hs_understudy_gone := jh_gone jh, hs_drain_ts := hf_drain_ts hf,
      hs_candidate_min_bid := hf_candidate_min_bid hf, hs_candidate_on_demand := hf_candidate_on_demand hf,
      hs_remaining_wall_h := jc_wall_h jc, hs_final_flush_seen := hf_final_flush_seen hf,
      hs_fence_ts := hf_fence_ts hf, hs_ckpt_pulled_epoch := hf_ckpt_pulled_epoch hf,
      hs_handoff_started_ts := hf_handoff_started_ts hf,
      hs_handoff_spend_usd := hf_handoff_spend_usd hf, hs_handoffs_done := hf_handoffs_done hf,
      hs_cooldown_until := hf_cooldown_until hf, hs_budget_usd := ln_budget_usd st,
      hs_spend_usd := ln_spend_usd st, hs_now := lc_now st, hs_driver_can_complete := jc_can_complete jc,
      hs_work_at_risk_h := jc_at_risk_h jc, hs_running_unresumable := jc_unresumable jc,
      hs_min_running_eta_s := jc_min_eta jc, hs_ckpt_stale := jc_ckpt_stale jc,
      hs_unsafe_override := jc_override jc, hs_over_ceiling_since := hf_over_ceiling_since hf\<rparr>)"

section \<open>One move\<close>

definition job_handoff_reset :: "nat \<Rightarrow> secs \<Rightarrow> job_handoff" where
  "job_handoff_reset handoffs_done cooldown_until =
     init_job_handoff_state\<lparr>jh_sub := handoff_reset handoffs_done cooldown_until\<rparr>"

text \<open>The tickets that the cutover put on the understudy go back.\<close>

definition retarget_back :: "job_answers \<Rightarrow> job_ctx \<Rightarrow> job_handoff \<Rightarrow> job_io list" where
  "retarget_back an jc jh =
     (let u = hf_understudy_iid (jh_sub jh); p = jh_primary jc jh
      in if u = None \<or> p = None \<or> u = p then []
         else map (\<lambda>j. JRetarget j u p) (dflt [] (ja_queue an u)))"

definition unfence_target :: "job_ctx \<Rightarrow> price option" where
  "unfence_target jc = bid_target_price (jc_market jc) (jc_max_bid jc) (ln_on_demand (jc_lane jc))"

definition job_abort :: "job_answers \<Rightarrow> job_ctx \<Rightarrow> job_handoff \<Rightarrow> bool \<Rightarrow> job_handoff \<times> job_io list" where
  "job_abort an jc jh unfence =
     (let hf = jh_sub jh
      in (job_handoff_reset (hf_handoffs_done hf) (lc_now (jc_lane jc) + HANDOFF_COOLDOWN_S),
          (if unfence then retarget_back an jc jh
             @ map JBox (handoff_unfence_primary (jh_primary jc jh) hf (unfence_target jc) (an_put_ok (ja_run an))) else [])
          @ (case hf_understudy_iid hf of Some u \<Rightarrow> [JBox (ReapUnderstudy u)] | None \<Rightarrow> [])))"

definition cutover_jobs :: "job_ctx \<Rightarrow> job_handoff \<Rightarrow> string list" where
  "cutover_jobs jc jh = (if jh_pending jh = [] then jc_pending jc else jh_pending jh)"

text \<open>The tickets that were moved and are still listed at the old box.\<close>

definition stuck_jobs :: "job_answers \<Rightarrow> job_ctx \<Rightarrow> job_handoff \<Rightarrow> resume_why \<Rightarrow> string list" where
  "stuck_jobs an jc jh why =
     (if why = FastCutover then []
      else filter (\<lambda>j. ja_retarget an j (jh_primary jc jh) (hf_understudy_iid (jh_sub jh))
                       \<and> j \<in> set (dflt [] (ja_queue an (jh_primary jc jh)))) (cutover_jobs jc jh))"

definition job_cutover :: "job_answers \<Rightarrow> job_ctx \<Rightarrow> job_handoff \<Rightarrow> resume_why \<Rightarrow> job_handoff \<times> job_io list" where
  "job_cutover an jc jh why =
     (let u = hf_understudy_iid (jh_sub jh); p = jh_primary jc jh; jobs = cutover_jobs jc jh;
          moves = map (\<lambda>j. JRetarget j p u) jobs; stuck = stuck_jobs an jc jh why; jh1 = jh\<lparr>jh_pending := jobs\<rparr>
      in if stuck \<noteq> [] then (jh1\<lparr>jh_incomplete := stuck\<rparr>, moves)
         else (on_sub (\<lambda>hf. hf\<lparr>hf_phase := DRAINING, hf_primary_gone := (if why = FastCutover then True else hf_primary_gone hf)\<rparr>) jh1,
               moves @ map JPromoted jobs @ (case u of Some i \<Rightarrow> [JBox (PutLabel i)] | None \<Rightarrow> [])
               @ (if why = FastCutover then (case p of Some i \<Rightarrow> [JPin i handoff_park_bid] | None \<Rightarrow> []) else [])))"

text \<open>The last component is the box that the lane moves to.\<close>

definition do_job_handoff_move ::
  "job_answers \<Rightarrow> job_ctx \<Rightarrow> job_handoff \<Rightarrow> handoff_action \<Rightarrow> job_handoff \<times> job_io list \<times> string option" where
  "do_job_handoff_move an jc jh act =
     (let st = jc_lane jc; hf = jh_sub jh
      in case act of
        HNoop _ \<Rightarrow> (jh, [], None)
      | Arm \<Rightarrow>
         (let epoch = hf_handoffs_done hf + 1
          in (jh\<lparr>jh_sub := hf\<lparr>hf_phase := ARMED, hf_handoff_started_ts := Some (lc_now st), hf_primary_iid := ln_instance_id st,
                             hf_epoch := Some epoch\<rparr>, jh_pending := jc_pending jc\<rparr>,
              map (\<lambda>j. JEpoch j epoch) (jc_pending jc), None))
      | LaunchUnderstudy \<Rightarrow>
         (let epoch = truthy_epoch (hf_epoch hf) (hf_handoffs_done hf + 1)
          in case ja_launch an of
               Inl why \<Rightarrow> (let (jh1, ios) = job_abort an jc jh False in (jh1, JLaunch epoch # ios, None))
             | Inr (cid, dph) \<Rightarrow>
                 (jh\<lparr>jh_sub := hf\<lparr>hf_understudy_iid := Some cid, hf_understudy_dph := dph, hf_phase := LAUNCHING\<rparr>\<rparr>,
                  [JLaunch epoch], None))
      | WarmWait \<Rightarrow> (jh, [], None)
      | MarkSynced \<Rightarrow> (jh\<lparr>jh_sub := hf\<lparr>hf_phase := SYNCED\<rparr>\<rparr>, [], None)
      | FencePrimary \<Rightarrow>
         (jh\<lparr>jh_sub := hf\<lparr>hf_prefence_bid := prefence_bid (lc_last_bid st) (ln_dph_total st), hf_phase := CUTOVER,
                         hf_fence_ts := Some (lc_now st)\<rparr>, jh_pending := jc_pending jc, jh_running := jc_running jc\<rparr>,
          (case jh_primary jc jh of Some i \<Rightarrow> [JBox (PutState i ''stopped''), JPin i handoff_park_bid] | None \<Rightarrow> []), None)
      | ResumeUnderstudy why \<Rightarrow> (let (jh1, ios) = job_cutover an jc jh why in (jh1, ios, None))
      | DrainPrimary \<Rightarrow>
         (if jh_incomplete jh \<noteq> [] then (jh, [], None)
          else (let p = hf_primary_iid hf
                in if an_destroyed (ja_run an) p \<and> an_gone (ja_run an) p
                   then (jh\<lparr>jh_sub := hf\<lparr>hf_primary_gone := True\<rparr>\<rparr>, [JBox (DestroyPrimary p)], None)
                   else (jh, [JBox (DestroyPrimary p)], None)))
      | Complete \<Rightarrow> (job_handoff_reset (hf_handoffs_done hf + 1) (lc_now st + HANDOFF_COOLDOWN_S), [], hf_understudy_iid hf)
      | AbortReap _ \<Rightarrow> (let (jh1, ios) = job_abort an jc jh False in (jh1, ios, None))
      | AbortUnfence _ \<Rightarrow> (let (jh1, ios) = job_abort an jc jh True in (jh1, ios, None)))"

section \<open>One tick\<close>

definition job_handoff_observe :: "job_answers \<Rightarrow> job_ctx \<Rightarrow> job_handoff \<Rightarrow> job_ctx \<times> job_handoff \<times> job_io list" where
  "job_handoff_observe an jc jh =
     (let st = jc_lane jc;
          jh1 = on_sub (pin_primary st) (observe_job_understudy an jc (on_sub (advance_dwell st) jh));
          (st1, hf2) = handoff_accrue st (jh_sub jh1);
          jh3 = read_job_signals an (jh1\<lparr>jh_sub := read_candidate (ja_run an) st1 hf2\<rparr>);
          (hf4, alarm) = handoff_stall_alarm (jh_sub jh3) (lc_now st1)
      in (jc\<lparr>jc_lane := st1\<rparr>, jh3\<lparr>jh_sub := hf4\<rparr>, map JBox alarm))"

definition job_handoff_tick :: "job_answers \<Rightarrow> job_ctx \<Rightarrow> job_handoff \<Rightarrow> job_ctx \<times> job_handoff \<times> job_io list \<times> string option" where
  "job_handoff_tick an jc jh =
     (let (jc1, jh1, alarm) = job_handoff_observe an jc jh;
          (jh2, ios, moved) = do_job_handoff_move an jc1 jh1 (handoff_poll (job_build_state jc1 jh1))
      in (jc1, jh2, alarm @ ios, moved))"

section \<open>Restart and exit\<close>

definition job_handoff_reconcile :: "job_answers \<Rightarrow> job_ctx \<Rightarrow> job_handoff \<Rightarrow> job_handoff" where
  "job_handoff_reconcile an jc jh =
     (case find in_twin (an_instances (ja_run an)) of
        None \<Rightarrow> jh
      | Some i \<Rightarrow>
         (let hf = jh_sub jh; live = live_status (Some (py_lower (dflt [] (in_status i))));
              hf1 = hf\<lparr>hf_understudy_iid := Some (in_id i), hf_understudy_status := status_of i, hf_understudy_dph := in_dph_total i,
                       hf_primary_iid := ln_instance_id (jc_lane jc), hf_handoff_started_ts := Some (lc_now (jc_lane jc))\<rparr>;
              synced = (live \<and> understudy_synced an hf1)
          in jh\<lparr>jh_pending := jc_pending jc,
                jh_sub := hf1\<lparr>hf_phase := (if synced then SYNCED else LAUNCHING),
                              hf_understudy_live_since := (if live then Some (lc_now (jc_lane jc)) else hf_understudy_live_since hf1),
                              hf_ckpt_pulled_epoch := (if synced then Some (hf_handoffs_done hf1 + 1) else hf_ckpt_pulled_epoch hf1)\<rparr>\<rparr>))"

definition job_handoff_reap_on_exit :: "job_answers \<Rightarrow> job_ctx \<Rightarrow> job_handoff \<Rightarrow> job_io list" where
  "job_handoff_reap_on_exit an jc jh =
     (let hf = jh_sub jh
      in (if hf_phase hf = CUTOVER \<and> hf_primary_iid hf \<noteq> None
          then retarget_back an jc jh @ map JBox (handoff_unfence_primary (hf_primary_iid hf) hf (unfence_target jc) (an_put_ok (ja_run an)))
          else [])
         @ (if hf_phase hf \<in> HANDOFF_PRE_CUTOVER \<or> hf_phase hf = CUTOVER
            then (case hf_understudy_iid hf of Some u \<Rightarrow> [JBox (ReapUnderstudy u)] | None \<Rightarrow> []) else []))"

text \<open>What the tick of the lane sees of it.\<close>

definition handoff_answer_of :: "job_ctx \<Rightarrow> job_ctx \<times> job_handoff \<times> job_io list \<times> string option \<Rightarrow> handoff_answer" where
  "handoff_answer_of jc r =
     (case r of (jc1, jh1, ios, moved) \<Rightarrow>
        \<lparr>ha_fence = (hf_phase (jh_sub jh1) \<in> {CUTOVER, DRAINING}), ha_moved = moved,
         ha_spend = ln_spend_usd (jc_lane jc1) - ln_spend_usd (jc_lane jc)\<rparr>)"

end
