(* ===== verification/JobHandoffSafety.thy ===== *)
theory JobHandoffSafety
  imports JobHandoff
begin

text \<open>
  What the jobs lane's migration keeps (\<open>JobHandoff\<close>): the invariant of the states it reaches, what
  stands behind the destruction of the old box and behind a hand-over of the lane, the tickets at a
  cutover, and the drain, which nothing ends while the new box lives and writes nothing.
\<close>

section \<open>Frames\<close>

lemma observe_understudy_frame [simp]:
  "hf_core (jh_sub (observe_job_understudy an jc jh)) = hf_core (jh_sub jh)"
  "jh_incomplete (observe_job_understudy an jc jh) = jh_incomplete jh"
  "hf_understudy_producing (jh_sub (observe_job_understudy an jc jh)) = hf_understudy_producing (jh_sub jh)"
  "hf_final_flush_seen (jh_sub (observe_job_understudy an jc jh)) = hf_final_flush_seen (jh_sub jh)"
  "jh_pending (observe_job_understudy an jc jh) = jh_pending jh"
  "jh_running (observe_job_understudy an jc jh) = jh_running jh"
  by (auto simp: hf_core_def observe_job_understudy_def Let_def split: option.splits)

lemma read_job_signals_frame [simp]:
  "hf_core (jh_sub (read_job_signals an jh)) = hf_core (jh_sub jh)"
  "jh_incomplete (read_job_signals an jh) = jh_incomplete jh"
  "jh_gone (read_job_signals an jh) = jh_gone jh"
  "jh_pending (read_job_signals an jh) = jh_pending jh"
  "jh_running (read_job_signals an jh) = jh_running jh"
  "hf_understudy_iid (jh_sub (read_job_signals an jh)) = hf_understudy_iid (jh_sub jh)"
  "hf_understudy_status (jh_sub (read_job_signals an jh)) = hf_understudy_status (jh_sub jh)"
  by (auto simp: hf_core_def read_job_signals_def on_sub_def)

lemma on_sub_simps [simp]:
  "jh_sub (on_sub f jh) = f (jh_sub jh)" "jh_incomplete (on_sub f jh) = jh_incomplete jh"
  "jh_gone (on_sub f jh) = jh_gone jh" "jh_pending (on_sub f jh) = jh_pending jh"
  "jh_running (on_sub f jh) = jh_running jh"
  by (simp_all add: on_sub_def)

text \<open>The stages of one observation, named.\<close>

definition watched :: "job_answers \<Rightarrow> job_ctx \<Rightarrow> job_handoff \<Rightarrow> job_handoff" where
  "watched an jc jh = on_sub (pin_primary (jc_lane jc)) (observe_job_understudy an jc (on_sub (advance_dwell (jc_lane jc)) jh))"

definition billed :: "job_answers \<Rightarrow> job_ctx \<Rightarrow> job_handoff \<Rightarrow> job_handoff" where
  "billed an jc jh =
     (let jh1 = watched an jc jh; r = handoff_accrue (jc_lane jc) (jh_sub jh1)
      in jh1\<lparr>jh_sub := read_candidate (ja_run an) (fst r) (snd r)\<rparr>)"

lemma watched_frame [simp]:
  "hf_core (jh_sub (watched an jc jh)) = hf_core (jh_sub jh)"
  "jh_incomplete (watched an jc jh) = jh_incomplete jh"
  "jh_pending (watched an jc jh) = jh_pending jh"
  "jh_running (watched an jc jh) = jh_running jh"
  "hf_understudy_producing (jh_sub (watched an jc jh)) = hf_understudy_producing (jh_sub jh)"
  "hf_final_flush_seen (jh_sub (watched an jc jh)) = hf_final_flush_seen (jh_sub jh)"
  by (simp_all add: watched_def)

lemma understudy_stages [simp]:
  "hf_understudy_iid (pin_primary st hf) = hf_understudy_iid hf"
  "hf_understudy_iid (read_candidate a st hf) = hf_understudy_iid hf"
  "hf_understudy_iid (snd (handoff_accrue st hf)) = hf_understudy_iid hf"
  "hf_understudy_status (pin_primary st hf) = hf_understudy_status hf"
  "hf_understudy_status (read_candidate a st hf) = hf_understudy_status hf"
  "hf_understudy_status (snd (handoff_accrue st hf)) = hf_understudy_status hf"
  "hf_understudy_iid (fst (handoff_stall_alarm hf now)) = hf_understudy_iid hf"
  "hf_understudy_status (fst (handoff_stall_alarm hf now)) = hf_understudy_status hf"
  by (auto simp: pin_primary_def read_candidate_def handoff_accrue_def handoff_stall_alarm_def Let_def split: option.splits)

lemma billed_frame [simp]:
  "hf_core (jh_sub (billed an jc jh)) = hf_core (jh_sub jh)"
  "jh_incomplete (billed an jc jh) = jh_incomplete jh"
  "jh_pending (billed an jc jh) = jh_pending jh"
  "jh_running (billed an jc jh) = jh_running jh"
  "jh_gone (billed an jc jh) = jh_gone (watched an jc jh)"
  "hf_understudy_iid (jh_sub (billed an jc jh)) = hf_understudy_iid (jh_sub (watched an jc jh))"
  "hf_understudy_status (jh_sub (billed an jc jh)) = hf_understudy_status (jh_sub (watched an jc jh))"
  "hf_understudy_producing (jh_sub (billed an jc jh)) = hf_understudy_producing (jh_sub jh)"
  "hf_final_flush_seen (jh_sub (billed an jc jh)) = hf_final_flush_seen (jh_sub jh)"
  by (simp_all add: billed_def Let_def)

lemma job_observeE:
  assumes "job_handoff_observe an jc jh = (jc1, jh1, alarm)"
  obtains b where "b = billed an jc jh" "jc1 = jc\<lparr>jc_lane := fst (handoff_accrue (jc_lane jc) (jh_sub (watched an jc jh)))\<rparr>"
    "jh1 = (read_job_signals an b)\<lparr>jh_sub := fst (handoff_stall_alarm (jh_sub (read_job_signals an b)) (lc_now (jc_lane jc)))\<rparr>"
    "alarm = map JBox (snd (handoff_stall_alarm (jh_sub (read_job_signals an b)) (lc_now (jc_lane jc))))"
  using assms
  by (auto simp: job_handoff_observe_def billed_def watched_def Let_def split: prod.splits)
    (metis accrue_now fst_conv snd_conv)

lemma job_observe_frame:
  assumes "job_handoff_observe an jc jh = (jc1, jh1, alarm)"
  shows "hf_core (jh_sub jh1) = hf_core (jh_sub jh)" "jh_incomplete jh1 = jh_incomplete jh"
    "jh_pending jh1 = jh_pending jh" "jh_running jh1 = jh_running jh"
    "lc_now (jc_lane jc1) = lc_now (jc_lane jc)"
    "jh_gone jh1 = jh_gone (watched an jc jh)"
    "hf_understudy_iid (jh_sub jh1) = hf_understudy_iid (jh_sub (watched an jc jh))"
    "hf_understudy_status (jh_sub jh1) = hf_understudy_status (jh_sub (watched an jc jh))"
    "hf_understudy_producing (jh_sub jh1) = (hf_understudy_producing (jh_sub jh)
       \<or> hf_phase (jh_sub jh) \<in> {CUTOVER, DRAINING} \<and> job_producing an jh1)"
    "hf_final_flush_seen (jh_sub jh1) = (hf_final_flush_seen (jh_sub jh)
       \<or> hf_phase (jh_sub jh) \<in> {CUTOVER, DRAINING} \<and> job_flushed an jh)"
    "set alarm \<subseteq> range (JBox \<circ> EmitStall)"
proof -
  obtain b where b: "b = billed an jc jh"
    and jc1: "jc1 = jc\<lparr>jc_lane := fst (handoff_accrue (jc_lane jc) (jh_sub (watched an jc jh)))\<rparr>"
    and jh1: "jh1 = (read_job_signals an b)\<lparr>jh_sub := fst (handoff_stall_alarm (jh_sub (read_job_signals an b)) (lc_now (jc_lane jc)))\<rparr>"
    and al: "alarm = map JBox (snd (handoff_stall_alarm (jh_sub (read_job_signals an b)) (lc_now (jc_lane jc))))"
    using assms by (rule job_observeE)
  have core: "hf_core (jh_sub b) = hf_core (jh_sub jh)" by (simp add: b)
  then have ph: "hf_phase (jh_sub b) = hf_phase (jh_sub jh)" by (auto dest: hf_coreD)
  show "hf_core (jh_sub jh1) = hf_core (jh_sub jh)" using core by (simp add: jh1)
  show "jh_incomplete jh1 = jh_incomplete jh" "jh_pending jh1 = jh_pending jh" "jh_running jh1 = jh_running jh"
    "jh_gone jh1 = jh_gone (watched an jc jh)"
    "hf_understudy_iid (jh_sub jh1) = hf_understudy_iid (jh_sub (watched an jc jh))"
    "hf_understudy_status (jh_sub jh1) = hf_understudy_status (jh_sub (watched an jc jh))"
    "lc_now (jc_lane jc1) = lc_now (jc_lane jc)"
    by (simp_all add: jh1 jc1 b)
  have "hf_understudy_iid (jh_sub jh1) = hf_understudy_iid (jh_sub b)" "jh_pending jh1 = jh_pending b" by (simp_all add: jh1)
  then have "job_producing an jh1 = job_producing an b" by (simp add: job_producing_def split: option.split)
  then show "hf_understudy_producing (jh_sub jh1) = (hf_understudy_producing (jh_sub jh)
       \<or> hf_phase (jh_sub jh) \<in> {CUTOVER, DRAINING} \<and> job_producing an jh1)"
    using ph by (auto simp: jh1 read_job_signals_def) (auto simp: b)
  have "job_flushed an b = job_flushed an jh" by (simp add: b job_flushed_def)
  then show "hf_final_flush_seen (jh_sub jh1) = (hf_final_flush_seen (jh_sub jh)
       \<or> hf_phase (jh_sub jh) \<in> {CUTOVER, DRAINING} \<and> job_flushed an jh)"
    using ph by (auto simp: jh1 read_job_signals_def) (auto simp: b)
  show "set alarm \<subseteq> range (JBox \<circ> EmitStall)" by (auto simp: al handoff_stall_alarm_def)
qed

lemma job_tickE:
  assumes "job_handoff_tick an jc jh = (jc1, jh2, ios, moved)"
  obtains jh1 alarm ios1 where "job_handoff_observe an jc jh = (jc1, jh1, alarm)"
    "do_job_handoff_move an jc1 jh1 (handoff_poll (job_build_state jc1 jh1)) = (jh2, ios1, moved)" "ios = alarm @ ios1"
  using assms by (auto simp: job_handoff_tick_def Let_def split: prod.splits)

lemma job_build_simps [simp]:
  "hs_phase (job_build_state jc jh) = hf_phase (jh_sub jh)"
  "hs_now (job_build_state jc jh) = lc_now (jc_lane jc)"
  "hs_handoffs_done (job_build_state jc jh) = hf_handoffs_done (jh_sub jh)"
  "hs_handoff_started_ts (job_build_state jc jh) = hf_handoff_started_ts (jh_sub jh)"
  "hs_fence_ts (job_build_state jc jh) = hf_fence_ts (jh_sub jh)"
  "hs_drain_ts (job_build_state jc jh) = hf_drain_ts (jh_sub jh)"
  "hs_understudy_producing (job_build_state jc jh) = (hf_understudy_producing (jh_sub jh) \<and> jh_incomplete jh = [])"
  "hs_final_flush_seen (job_build_state jc jh) = hf_final_flush_seen (jh_sub jh)"
  "hs_primary_gone (job_build_state jc jh) = hf_primary_gone (jh_sub jh)"
  "hs_understudy_gone (job_build_state jc jh) = jh_gone jh"
  "hs_understudy_status (job_build_state jc jh) = hf_understudy_status (jh_sub jh)"
  "hs_primary_evicted (job_build_state jc jh) = jc_evicted jc"
  by (simp_all add: job_build_state_def mk_handoff_state_def Let_def)

section \<open>The invariant\<close>

definition jh_inv :: "job_handoff \<Rightarrow> bool" where
  "jh_inv jh \<longleftrightarrow>
     (let hf = jh_sub jh
      in hf_phase hf \<in> {IDLE, ARMED, LAUNCHING, SYNCED, CUTOVER, DRAINING}
       \<and> (hf_phase hf \<in> HANDOFF_PRE_CUTOVER \<longrightarrow> hf_handoff_started_ts hf \<noteq> None)
       \<and> (hf_phase hf = CUTOVER \<longrightarrow> hf_fence_ts hf \<noteq> None)
       \<and> hf_drain_ts hf = None
       \<and> (hf_final_flush_seen hf \<or> hf_understudy_producing hf \<longrightarrow> hf_phase hf \<in> {CUTOVER, DRAINING})
       \<and> (hf_primary_gone hf \<longrightarrow> hf_phase hf = DRAINING)
       \<and> (jh_incomplete jh \<noteq> [] \<longrightarrow> hf_phase hf \<in> {CUTOVER, DRAINING})
       \<and> hf_handoffs_done hf \<le> HANDOFF_MAX
       \<and> (hf_phase hf \<noteq> IDLE \<longrightarrow> hf_handoffs_done hf < HANDOFF_MAX)
       \<and> (\<forall>v. hf_prefence_bid hf = Some v \<longrightarrow> HANDOFF_PARK_BID < v))"

lemmas jh_inv_unfold = jh_inv_def Let_def

lemma jh_phases: "jh_inv jh \<Longrightarrow> hf_phase (jh_sub jh) \<in> {IDLE, ARMED, LAUNCHING, SYNCED, CUTOVER, DRAINING}"
  by (simp add: jh_inv_unfold)

lemma jh_inv_init: "jh_inv init_job_handoff_state"
  by (simp add: jh_inv_unfold init_job_handoff_state_def init_handoff_state_def HANDOFF_PRE_CUTOVER_def)

lemma jh_inv_reset: "n \<le> HANDOFF_MAX \<Longrightarrow> jh_inv (job_handoff_reset n t)"
  by (simp add: jh_inv_unfold job_handoff_reset_def handoff_reset_def init_job_handoff_state_def init_handoff_state_def
      HANDOFF_PRE_CUTOVER_def)

lemma jh_inv_reconcile: "jh_inv (job_handoff_reconcile an jc init_job_handoff_state)"
  by (auto simp: jh_inv_unfold job_handoff_reconcile_def init_job_handoff_state_def init_handoff_state_def
      HANDOFF_PRE_CUTOVER_def HANDOFF_MAX_def split: option.splits)

lemma jh_inv_observe:
  "jh_inv jh \<Longrightarrow> job_handoff_observe an jc jh = (jc1, jh1, alarm) \<Longrightarrow> jh_inv jh1"
  using job_observe_frame [of an jc jh jc1 jh1 alarm] hf_coreD [of "jh_sub jh1" "jh_sub jh"]
  by (auto simp: jh_inv_unfold)

lemma job_abort_reset:
  "fst (job_abort an jc jh b) = job_handoff_reset (hf_handoffs_done (jh_sub jh)) (lc_now (jc_lane jc) + HANDOFF_COOLDOWN_S)"
  by (simp add: job_abort_def Let_def)

lemma job_cutover_cases:
  assumes "job_cutover an jc jh why = (jh', ios)"
  shows "jh' = jh\<lparr>jh_pending := cutover_jobs jc jh, jh_incomplete := stuck_jobs an jc jh why\<rparr> \<and> stuck_jobs an jc jh why \<noteq> []
    \<or> jh' = on_sub (\<lambda>hf. hf\<lparr>hf_phase := DRAINING, hf_primary_gone := (if why = FastCutover then True else hf_primary_gone hf)\<rparr>)
           (jh\<lparr>jh_pending := cutover_jobs jc jh\<rparr>) \<and> stuck_jobs an jc jh why = []"
  using assms by (auto simp: job_cutover_def Let_def split: if_splits)

lemma jh_inv_move:
  assumes inv: "jh_inv jh" and m: "do_job_handoff_move an jc jh (handoff_poll (job_build_state jc jh)) = (jh', ios, moved)"
  shows "jh_inv jh'"
proof -
  let ?a = "handoff_poll (job_build_state jc jh)"
  have reset: "jh_inv (job_handoff_reset (hf_handoffs_done (jh_sub jh)) t)" for t
    by (rule jh_inv_reset) (use inv in \<open>simp add: jh_inv_unfold\<close>)
  note m' = m [unfolded do_job_handoff_move_def Let_def]
  show ?thesis
  proof (cases ?a)
    case Arm
    then have "jh' = jh\<lparr>jh_sub := (jh_sub jh)\<lparr>hf_phase := ARMED, hf_handoff_started_ts := Some (lc_now (jc_lane jc)),
        hf_primary_iid := ln_instance_id (jc_lane jc), hf_epoch := Some (hf_handoffs_done (jh_sub jh) + 1)\<rparr>, jh_pending := jc_pending jc\<rparr>"
      using m' by simp
    then show ?thesis using inv handoff_arm(1,3) [OF Arm] by (simp add: jh_inv_unfold HANDOFF_PRE_CUTOVER_def)
  next
    case LaunchUnderstudy
    then consider why where "ja_launch an = Inl why" "jh' = fst (job_abort an jc jh False)"
      | cid dph where "ja_launch an = Inr (cid, dph)"
          "jh' = jh\<lparr>jh_sub := (jh_sub jh)\<lparr>hf_understudy_iid := Some cid, hf_understudy_dph := dph, hf_phase := LAUNCHING\<rparr>\<rparr>"
      using m' by (auto split: sum.splits prod.splits)
    then show ?thesis
    proof cases
      case 1
      then show ?thesis using reset by (simp add: job_abort_reset)
    next
      case 2
      have "hf_phase (jh_sub jh) = ARMED" using handoff_phase_of(1) [OF LaunchUnderstudy] by simp
      then show ?thesis using inv 2(2) by (simp add: jh_inv_unfold HANDOFF_PRE_CUTOVER_def)
    qed
  next
    case MarkSynced
    then have "jh' = jh\<lparr>jh_sub := (jh_sub jh)\<lparr>hf_phase := SYNCED\<rparr>\<rparr>" using m' by simp
    moreover have "hf_phase (jh_sub jh) = LAUNCHING"
      using handoff_phase_of(2) [OF MarkSynced] jh_phases [OF inv] by auto
    ultimately show ?thesis using inv by (simp add: jh_inv_unfold HANDOFF_PRE_CUTOVER_def)
  next
    case FencePrimary
    then have "jh' = jh\<lparr>jh_sub := (jh_sub jh)\<lparr>hf_prefence_bid := prefence_bid (lc_last_bid (jc_lane jc)) (ln_dph_total (jc_lane jc)),
        hf_phase := CUTOVER, hf_fence_ts := Some (lc_now (jc_lane jc))\<rparr>, jh_pending := jc_pending jc, jh_running := jc_running jc\<rparr>"
      using m' by simp
    moreover have "hf_phase (jh_sub jh) = SYNCED" using handoff_fence(1) [OF FencePrimary] by simp
    ultimately show ?thesis using inv prefence_bid_over_pin by (simp add: jh_inv_unfold HANDOFF_PRE_CUTOVER_def)
  next
    case (ResumeUnderstudy w)
    then have c: "job_cutover an jc jh w = (jh', ios)" using m' by (auto split: prod.splits)
    have ph: "hf_phase (jh_sub jh) = SYNCED \<and> w = FastCutover \<or> hf_phase (jh_sub jh) = CUTOVER"
      using handoff_resume [OF ResumeUnderstudy] by (cases w) auto
    from job_cutover_cases [OF c] show ?thesis
    proof (elim disjE conjE)
      assume "stuck_jobs an jc jh w \<noteq> []"
        and e: "jh' = jh\<lparr>jh_pending := cutover_jobs jc jh, jh_incomplete := stuck_jobs an jc jh w\<rparr>"
      then have "hf_phase (jh_sub jh) = CUTOVER" using ph by (auto simp: stuck_jobs_def)
      then show ?thesis using inv e by (simp add: jh_inv_unfold HANDOFF_PRE_CUTOVER_def)
    next
      assume "jh' = on_sub (\<lambda>hf. hf\<lparr>hf_phase := DRAINING, hf_primary_gone := (if w = FastCutover then True else hf_primary_gone hf)\<rparr>)
          (jh\<lparr>jh_pending := cutover_jobs jc jh\<rparr>)"
      moreover have "hf_phase (jh_sub jh) \<noteq> IDLE" using ph by auto
      ultimately show ?thesis using inv by (simp add: jh_inv_unfold HANDOFF_PRE_CUTOVER_def)
    qed
  next
    case DrainPrimary
    then have "jh' = jh \<or> jh' = jh\<lparr>jh_sub := (jh_sub jh)\<lparr>hf_primary_gone := True\<rparr>\<rparr>" using m' by (auto split: if_splits)
    moreover have "hf_phase (jh_sub jh) = DRAINING" using handoff_drain(1) [OF DrainPrimary] by simp
    ultimately show ?thesis using inv by (auto simp: jh_inv_unfold HANDOFF_PRE_CUTOVER_def)
  next
    case Complete
    then have "jh' = job_handoff_reset (hf_handoffs_done (jh_sub jh) + 1) (lc_now (jc_lane jc) + HANDOFF_COOLDOWN_S)"
      using m' by auto
    moreover have "hf_handoffs_done (jh_sub jh) < HANDOFF_MAX"
      using inv handoff_phase_of(3) [OF Complete] by (simp add: jh_inv_unfold)
    ultimately show ?thesis by (simp add: jh_inv_reset)
  next
    case (AbortReap w)
    then have "jh' = fst (job_abort an jc jh False)" using m' by (auto split: prod.splits)
    then show ?thesis using reset by (simp add: job_abort_reset)
  next
    case (AbortUnfence w)
    then have "jh' = fst (job_abort an jc jh True)" using m' by (auto split: prod.splits)
    then show ?thesis using reset by (simp add: job_abort_reset)
  qed (use m' inv in auto)
qed

definition job_handoff_start :: "job_handoff \<Rightarrow> bool" where
  "job_handoff_start jh \<longleftrightarrow> jh = init_job_handoff_state \<or> (\<exists>an jc. jh = job_handoff_reconcile an jc init_job_handoff_state)"

definition job_tick_sub :: "job_handoff \<Rightarrow> job_answers \<times> job_ctx \<Rightarrow> job_handoff" where
  "job_tick_sub jh i = fst (snd (job_handoff_tick (fst i) (snd i) jh))"

interpretation jm: invariant_machine job_handoff_start job_tick_sub "\<lambda>_. True" jh_inv
proof
  show "job_handoff_start s \<Longrightarrow> jh_inv s" for s
    by (auto simp: job_handoff_start_def jh_inv_init jh_inv_reconcile)
  show "jh_inv (job_tick_sub s i)" if "jh_inv s" for s i
  proof -
    obtain jc1 jh2 ios moved where t: "job_handoff_tick (fst i) (snd i) s = (jc1, jh2, ios, moved)" by (rule prod_cases4)
    obtain jh1 alarm ios1 where o1: "job_handoff_observe (fst i) (snd i) s = (jc1, jh1, alarm)"
      and m: "do_job_handoff_move (fst i) jc1 jh1 (handoff_poll (job_build_state jc1 jh1)) = (jh2, ios1, moved)"
      using t by (rule job_tickE)
    have "jh_inv jh2" using jh_inv_move [OF jh_inv_observe [OF that o1] m] .
    then show ?thesis using t by (simp add: job_tick_sub_def)
  qed
qed

definition job_handoff_run :: "job_handoff \<Rightarrow> (job_answers \<times> job_ctx) list \<Rightarrow> job_handoff" where
  "job_handoff_run jh ticks = foldl job_tick_sub jh ticks"

lemma job_handoff_run_inv: "job_handoff_start jh \<Longrightarrow> jh_inv (job_handoff_run jh ticks)"
  using jm.reached [of jh ticks] by (simp add: job_handoff_run_def)

section \<open>Moves\<close>







lemma job_move_enters_drain:
  assumes "do_job_handoff_move an jc jh a = (jh', ios, moved)" "hf_phase (jh_sub jh') = DRAINING" "hf_phase (jh_sub jh) \<noteq> DRAINING"
  obtains w where "a = ResumeUnderstudy w" "stuck_jobs an jc jh w = []" "job_cutover an jc jh w = (jh', ios)"
proof -
  have ab: "hf_phase (jh_sub (fst (job_abort an jc jh b))) = IDLE" for b
    by (simp add: job_abort_reset job_handoff_reset_def init_job_handoff_state_def handoff_reset_def init_handoff_state_def)
  show thesis
  proof (cases a)
    case (ResumeUnderstudy w)
    then have c: "job_cutover an jc jh w = (jh', ios)"
      using assms(1) by (auto simp: do_job_handoff_move_def Let_def split: prod.splits)
    have "stuck_jobs an jc jh w = []"
    proof (rule ccontr)
      assume "stuck_jobs an jc jh w \<noteq> []"
      then have "jh_sub jh' = jh_sub jh" using job_cutover_cases [OF c] by auto
      then show False using assms(2,3) by simp
    qed
    then show thesis using that ResumeUnderstudy c by blast
  next
    case LaunchUnderstudy
    then show thesis using assms ab [of False]
      by (auto simp: do_job_handoff_move_def Let_def split: sum.splits prod.splits)
  next
    case (AbortReap w)
    then show thesis using assms ab [of False] by (auto simp: do_job_handoff_move_def Let_def split: prod.splits)
  next
    case (AbortUnfence w)
    then show thesis using assms ab [of True] by (auto simp: do_job_handoff_move_def Let_def split: prod.splits)
  next
    case Complete
    then have "jh_sub jh' = handoff_reset (hf_handoffs_done (jh_sub jh) + 1) (lc_now (jc_lane jc) + HANDOFF_COOLDOWN_S)"
      using assms(1) by (auto simp: do_job_handoff_move_def Let_def job_handoff_reset_def init_job_handoff_state_def)
    then show thesis using assms(2) by (simp add: handoff_reset_def init_handoff_state_def)
  qed (use assms in \<open>auto simp: do_job_handoff_move_def Let_def split: option.splits if_splits\<close>)
qed

section \<open>Properties\<close>



text \<open>No ticket is left behind at the fence: a tick that starts the drain from the fence does so when no
  ticket it moved is listed at the old box any more; when the old box was lost first there is no such check.\<close>

lemma drain_starts_with_no_ticket_behind:
  assumes "job_handoff_tick an jc jh = (jc1, jh2, ios, moved)"
    "hf_phase (jh_sub jh) = CUTOVER" "hf_phase (jh_sub jh2) = DRAINING"
    "JPromoted j \<in> set ios" "ja_retarget an j (jh_primary jc1 jh2) (hf_understudy_iid (jh_sub jh2))"
    "ja_queue an (jh_primary jc1 jh2) = Some q"
  shows "j \<notin> set q \<and> j \<in> set (jh_pending jh2) \<and> (hf_final_flush_seen (jh_sub jh) \<or> job_flushed an jh
    \<or> past (hf_fence_ts (jh_sub jh)) (lc_now (jc_lane jc)) HANDOFF_FENCE_TIMEOUT_S)"
proof -
  obtain jh1 alarm ios1 where o1: "job_handoff_observe an jc jh = (jc1, jh1, alarm)"
    and m: "do_job_handoff_move an jc1 jh1 (handoff_poll (job_build_state jc1 jh1)) = (jh2, ios1, moved)"
    and ios: "ios = alarm @ ios1" using assms(1) by (rule job_tickE)
  note f = job_observe_frame [OF o1] and core = hf_coreD [OF job_observe_frame(1) [OF o1]]
  obtain w where w: "handoff_poll (job_build_state jc1 jh1) = ResumeUnderstudy w" "stuck_jobs an jc1 jh1 w = []"
    "job_cutover an jc1 jh1 w = (jh2, ios1)"
    by (rule job_move_enters_drain [OF m assms(3)]) (use assms(2) core in simp)
  note r = handoff_resume [OF w(1)]
  have nf: "w \<noteq> FastCutover" using r(1) assms(2) core by auto
  have jh2: "jh2 = on_sub (\<lambda>hf. hf\<lparr>hf_phase := DRAINING, hf_primary_gone := (if w = FastCutover then True else hf_primary_gone hf)\<rparr>)
      (jh1\<lparr>jh_pending := cutover_jobs jc1 jh1\<rparr>)" using job_cutover_cases [OF w(3)] w(2) by auto
  then have same: "jh_primary jc1 jh2 = jh_primary jc1 jh1" "hf_understudy_iid (jh_sub jh2) = hf_understudy_iid (jh_sub jh1)"
    "jh_pending jh2 = cutover_jobs jc1 jh1" by (simp_all add: jh_primary_def)
  have "j \<in> set (cutover_jobs jc1 jh1)"
    using assms(4) ios f(11) w(2,3) by (auto simp: job_cutover_def Let_def split: option.splits if_splits)
  then show ?thesis using assms(5,6) w(2) nf same r(2,3) f(5,10) core
    by (cases w) (auto simp: stuck_jobs_def filter_empty_conv)
qed



text \<open>The world of a drain in which the box \<open>u\<close> lives and writes nothing.\<close>

definition lives_and_writes_nothing :: "string \<Rightarrow> job_answers \<Rightarrow> bool" where
  "lives_and_writes_nothing u an \<longleftrightarrow>
     list_ex (\<lambda>i. in_id i = u) (an_instances (ja_run an))
   \<and> list_all (\<lambda>i. in_id i = u \<or> in_twin i \<longrightarrow> in_id i = u \<and> live_status (status_of i)) (an_instances (ja_run an))
   \<and> (\<forall>j e. (e, Some u) \<in> set (ja_events an j) \<longrightarrow> e \<notin> set HANDOFF_JOB_PRODUCING)"

definition waiting_drain :: "string \<Rightarrow> job_handoff \<Rightarrow> bool" where
  "waiting_drain u jh \<longleftrightarrow> hf_phase (jh_sub jh) = DRAINING \<and> hf_drain_ts (jh_sub jh) = None
     \<and> hf_understudy_iid (jh_sub jh) = Some u \<and> \<not> hf_understudy_producing (jh_sub jh)"

lemma watched_live:
  assumes "lives_and_writes_nothing u an" "hf_understudy_iid (jh_sub jh) = Some u"
  shows "hf_understudy_iid (jh_sub (watched an jc jh)) = Some u" "\<not> jh_gone (watched an jc jh)"
    "live_status (hf_understudy_status (jh_sub (watched an jc jh)))"
proof -
  let ?jh = "on_sub (advance_dwell (jc_lane jc)) jh"
  have u: "hf_understudy_iid (jh_sub ?jh) = Some u" using assms(2) by (simp add: advance_dwell_def)
  let ?P = "\<lambda>i. in_twin i \<or> hf_understudy_iid (jh_sub ?jh) = Some (in_id i)"
  have "\<exists>i\<in>set (an_instances (ja_run an)). ?P i" using assms(1) u by (auto simp: lives_and_writes_nothing_def list_ex_iff)
  then obtain i where i: "find ?P (an_instances (ja_run an)) = Some i"
    by (cases "find ?P (an_instances (ja_run an))") (auto simp: find_None_iff)
  then have "i \<in> set (an_instances (ja_run an))" "?P i" by (auto simp: find_Some_iff)
  then have "in_id i = u" "live_status (status_of i)"
    using assms(1) u by (auto simp: lives_and_writes_nothing_def list_all_iff)
  then show "hf_understudy_iid (jh_sub (watched an jc jh)) = Some u" "\<not> jh_gone (watched an jc jh)"
    "live_status (hf_understudy_status (jh_sub (watched an jc jh)))"
    using i by (simp_all add: watched_def observe_job_understudy_def Let_def del: on_sub_simps) (simp_all add: on_sub_def)
qed

lemma waiting_drain_tick:
  assumes "waiting_drain u jh" "lives_and_writes_nothing u an"
  shows "waiting_drain u (job_tick_sub jh (an, jc))"
proof -
  obtain jc1 jh2 ios moved where t: "job_handoff_tick an jc jh = (jc1, jh2, ios, moved)" by (rule prod_cases4)
  obtain jh1 alarm ios1 where o1: "job_handoff_observe an jc jh = (jc1, jh1, alarm)"
    and m: "do_job_handoff_move an jc1 jh1 (handoff_poll (job_build_state jc1 jh1)) = (jh2, ios1, moved)"
    using t by (rule job_tickE)
  note f = job_observe_frame [OF o1] and core = hf_coreD [OF job_observe_frame(1) [OF o1]]
  have w: "hf_phase (jh_sub jh) = DRAINING" "hf_drain_ts (jh_sub jh) = None" "hf_understudy_iid (jh_sub jh) = Some u"
    "\<not> hf_understudy_producing (jh_sub jh)" using assms(1) by (auto simp: waiting_drain_def)
  note live = watched_live [OF assms(2) w(3), of jc]
  have "\<not> job_producing an jh1" using assms(2) f(7) live(1)
    by (auto simp: job_producing_def lives_and_writes_nothing_def list_ex_iff)
  then have np: "\<not> hf_understudy_producing (jh_sub jh1)" using f(9) w(4) by simp
  have "\<not> understudy_dead (job_build_state jc1 jh1)"
    using live(2,3) f(6,8) by (auto simp: understudy_dead_def live_status_def split: option.splits)
  then have "handoff_poll (job_build_state jc1 jh1) = HNoop AwaitUnderstudyCkpt"
    using np core w(1,2) by (simp add: handoff_unfold HANDOFF_PRE_CUTOVER_def past_def)
  then have "jh2 = jh1" using m by (simp add: do_job_handoff_move_def)
  then show ?thesis using t np core w f(7) live(1) by (simp add: job_tick_sub_def waiting_drain_def)
qed

lemma waiting_drain_run:
  assumes "waiting_drain u jh" "list_all (\<lambda>i. lives_and_writes_nothing u (fst i)) quiet"
  shows "waiting_drain u (job_handoff_run jh quiet)"
  using assms
proof (induction quiet arbitrary: jh)
  case Nil
  then show ?case by (simp add: job_handoff_run_def)
next
  case (Cons i quiet)
  have "waiting_drain u (job_tick_sub jh i)" using waiting_drain_tick [of u jh "fst i" "snd i"] Cons.prems by simp
  then show ?case using Cons.IH Cons.prems(2) by (simp add: job_handoff_run_def)
qed

text \<open>Nothing ends the drain of a new box that lives and writes nothing: the cutover sets no drain clock,
  so from there every log of such ticks, of whatever length and at whatever times, leaves the migration
  draining with both boxes rented.\<close>

lemma silent_drain_never_ends:
  assumes "job_handoff_start jh0" "jh = job_handoff_run jh0 ticks" "hf_phase (jh_sub jh) = DRAINING"
    "hf_understudy_iid (jh_sub jh) = Some u" "\<not> hf_understudy_producing (jh_sub jh)"
    "list_all (\<lambda>i. lives_and_writes_nothing u (fst i)) quiet"
  shows "hf_phase (jh_sub (job_handoff_run jh quiet)) = DRAINING"
proof -
  have "jh_inv jh" using job_handoff_run_inv [OF assms(1)] assms(2) by simp
  then have "waiting_drain u jh" using assms(3-5) by (simp add: waiting_drain_def jh_inv_unfold)
  then show ?thesis using waiting_drain_run [OF _ assms(6)] by (simp add: waiting_drain_def)
qed

text \<open>The invariant of the jobs lane's migration: no log of ticks, from a fresh or an adopted start and
  whatever the world answers, reaches \<open>WARMING\<close>, \<open>DONE\<close> or \<open>ABORT\<close>; the clock of a phase before the
  drain is set and the drain's never is; a ticket that stayed behind is only recorded from the fence on;
  the old box is only marked gone while draining; the count of migrations never exceeds its cap.\<close>

lemma job_handoff_run_sound:
  assumes "job_handoff_start jh0" "jh = job_handoff_run jh0 ticks" "hf = jh_sub jh"
  shows "hf_phase hf \<in> {IDLE, ARMED, LAUNCHING, SYNCED, CUTOVER, DRAINING}
    \<and> (hf_phase hf \<in> {ARMED, LAUNCHING, SYNCED} \<longrightarrow> hf_handoff_started_ts hf \<noteq> None)
    \<and> (hf_phase hf = CUTOVER \<longrightarrow> hf_fence_ts hf \<noteq> None) \<and> hf_drain_ts hf = None
    \<and> (jh_incomplete jh \<noteq> [] \<longrightarrow> hf_phase hf \<in> {CUTOVER, DRAINING})
    \<and> (hf_primary_gone hf \<longrightarrow> hf_phase hf = DRAINING)
    \<and> hf_handoffs_done hf \<le> HANDOFF_MAX \<and> (hf_phase hf \<noteq> IDLE \<longrightarrow> hf_handoffs_done hf < HANDOFF_MAX)"
  using job_handoff_run_inv [OF assms(1), of ticks] assms(2,3)
  by (simp add: jh_inv_unfold HANDOFF_PRE_CUTOVER_def)

section \<open>The properties at work\<close>

definition job_drain_ctx :: "secs \<Rightarrow> job_ctx" where
  "job_drain_ctx now = \<lparr>jc_lane = lane_at now, jc_evicted = False, jc_wall_h = Some 10, jc_can_complete = True, jc_at_risk_h = 0,
     jc_unresumable = 0, jc_min_eta = None, jc_ckpt_stale = False, jc_override = False, jc_pending = [''j1''], jc_running = [''j1''],
     jc_market = Some (3/10), jc_max_bid = None\<rparr>"

text \<open>\<open>new\<close> runs; the log of \<open>j1\<close> is \<open>es\<close>.\<close>

definition job_drain_answers :: "(string \<times> string option) list \<Rightarrow> job_answers" where
  "job_drain_answers es = \<lparr>ja_run = drain_answers\<lparr>an_instances := [\<lparr>in_id = ''new'', in_twin = True, in_status = Some ''running'',
       in_dph_total = Some (3/10), in_is_bid = True, in_dph_base = None\<rparr>]\<rparr>,
     ja_line = (\<lambda>_. Some [''IDLE'']), ja_away = (\<lambda>_. False), ja_launch = Inl NoOffer, ja_events = (\<lambda>_. es),
     ja_retarget = (\<lambda>_ _ _. True), ja_queue = (\<lambda>_. Some [])\<rparr>"

definition job_draining :: "bool \<Rightarrow> string list \<Rightarrow> job_handoff" where
  "job_draining gone stuck =
     init_job_handoff_state\<lparr>jh_sub := init_handoff_state\<lparr>hf_phase := DRAINING, hf_primary_iid := Some ''old'',
       hf_understudy_iid := Some ''new'', hf_primary_gone := gone\<rparr>, jh_pending := [''j1''], jh_incomplete := stuck\<rparr>"

definition job_fenced :: job_handoff where
  "job_fenced = init_job_handoff_state\<lparr>jh_sub := init_handoff_state\<lparr>hf_phase := CUTOVER, hf_primary_iid := Some ''old'',
     hf_understudy_iid := Some ''new'', hf_fence_ts := Some 0\<rparr>, jh_pending := [''j1''], jh_running := [''j1'']\<rparr>"

text \<open>A twin adopted at a restart whose primary is lost at once.\<close>

definition job_adopted :: job_handoff where
  "job_adopted = job_handoff_reconcile (job_drain_answers []) (job_drain_ctx 60) init_job_handoff_state"

definition job_demo_tick :: "job_answers \<Rightarrow> job_handoff \<Rightarrow> job_ctx \<times> job_handoff \<times> job_io list \<times> string option" where
  "job_demo_tick an jh = job_handoff_tick an (job_drain_ctx 60) jh"

lemma job_demo:
  "JBox (DestroyPrimary (Some ''old'')) \<in> set (fst (snd (snd (job_demo_tick (job_drain_answers [(''started'', Some ''new'')]) (job_draining False [])))))
   \<and> snd (snd (snd (job_demo_tick (job_drain_answers [(''started'', Some ''new'')]) (job_draining True [])))) = Some ''new''
   \<and> (let r = job_demo_tick (job_drain_answers [(''final_flush'', Some ''old'')]) job_fenced
      in hf_phase (jh_sub (fst (snd r))) = DRAINING \<and> JPromoted ''j1'' \<in> set (fst (snd (snd r))))
   \<and> (let jh = job_handoff_run job_adopted [(job_drain_answers [], (job_drain_ctx 60)\<lparr>jc_evicted := True\<rparr>)]
      in hf_phase (jh_sub jh) = DRAINING \<and> hf_understudy_iid (jh_sub jh) = Some ''new'' \<and> \<not> hf_understudy_producing (jh_sub jh))"
  by code_simp


lemma drain_starts_with_no_ticket_behind_witness:
  "''j1'' \<in> set (jh_pending (fst (snd (job_demo_tick (job_drain_answers [(''final_flush'', Some ''old'')]) job_fenced))))"
proof -
  obtain jc1 jh2 ios moved where t: "job_demo_tick (job_drain_answers [(''final_flush'', Some ''old'')]) job_fenced = (jc1, jh2, ios, moved)"
    by (rule prod_cases4)
  have d: "hf_phase (jh_sub jh2) = DRAINING" "JPromoted ''j1'' \<in> set ios"
    using job_demo [THEN conjunct2, THEN conjunct2, THEN conjunct1] unfolding t by (simp_all add: Let_def)
  have "hf_phase (jh_sub job_fenced) = CUTOVER" by (simp add: job_fenced_def)
  from drain_starts_with_no_ticket_behind [OF t [unfolded job_demo_tick_def] this d, of "[]"]
  show ?thesis unfolding t by (simp add: job_drain_answers_def)
qed

lemma job_adopted_start: "job_handoff_start job_adopted"
  by (auto simp: job_handoff_start_def job_adopted_def)

lemma job_drain_answers_quiet: "lives_and_writes_nothing ''new'' (job_drain_answers [])"
proof -
  have "py_lower ''running'' = ''running''" by code_simp
  then show ?thesis by (simp add: lives_and_writes_nothing_def job_drain_answers_def status_of_def live_status_def LIVE_STATES_def Let_def)
qed

lemma silent_drain_never_ends_witness:
  "hf_phase (jh_sub (job_handoff_run (job_handoff_run job_adopted [(job_drain_answers [], (job_drain_ctx 60)\<lparr>jc_evicted := True\<rparr>)])
     [(job_drain_answers [], job_drain_ctx 1000000), (job_drain_answers [], job_drain_ctx 2000000)])) = DRAINING"
  using job_demo [THEN conjunct2, THEN conjunct2, THEN conjunct2] job_drain_answers_quiet
  by (intro silent_drain_never_ends [OF job_adopted_start refl]) (simp_all add: Let_def)

lemma job_handoff_run_sound_witness:
  "hf_drain_ts (jh_sub (job_handoff_run job_adopted [(job_drain_answers [], job_drain_ctx 60)])) = None"
  using job_handoff_run_sound [OF job_adopted_start refl refl, of "[(job_drain_answers [], job_drain_ctx 60)]"] by blast

end
