(* ===== verification/Spec2Isabelle.thy ===== *)
theory Spec2Isabelle
  imports Prelude BidRails Eviction RunFold PollState Defense Replacement Poll Handoff LadderCore
    HandoffDrive Durability WorkflowSpec WorkflowMeta JobFold JobTime JobQueue CkptRetention
    Credentials BrokerDaemon HostRep Offers QueueMove EvictReplace EvictSafety
    FleetState FleetTick FleetSafety FleetCaps
    WorkflowCtl WorkflowRun WorkflowSafety Salvage Retention SalvageSafety
    JobBoot JobLane JobLaneSafety JobHandoff JobHandoffSafety
begin

text \<open>
  herdd runs training, serving and batch jobs on rented GPU machines, most of them spot
  ("interruptible") offers that a higher bid can take away at any time. A supervisor watches each
  run: it folds the run's event log, decides each tick whether to hold, move the bid, rescue,
  relaunch, migrate or stop, and keeps a record of its own bid so that it does not bid against
  itself. This development models the part of the program that takes those decisions; files are
  under \<open>src/tools/vast/\<close>.

  Parts and theories.

  \<^item> \<open>Prelude\<close>: optional numbers, decimal rounding (Python's \<open>round\<close>, the \$0.001 grid), ASCII
    strings, lists, and the contract of a machine driven by inputs (\<open>invariant_machine\<close>).
  \<^item> \<open>BidRails\<close> (\<open>bidpolicy.py\<close>): what a bid may cost. \<open>bid_decision\<close> with its rails in the code's
    order; ceilings; the contract of a capped quote (\<open>capped_quote\<close>).
  \<^item> \<open>Eviction\<close> (\<open>bidpolicy.py\<close>): why a box was lost (\<open>classify_eviction\<close>), whether a floor is an
    echo of our own bid (\<open>market_floor_self_match\<close>), whether to start in place.
  \<^item> \<open>RunFold\<close> (\<open>runmeta.py\<close>): the run's event log. \<open>fold_events\<close> and \<open>final_status\<close>; the contract of
    a fold over an unordered bucket (\<open>event_fold\<close>).
  \<^item> \<open>PollState\<close>, \<open>Defense\<close>, \<open>Replacement\<close>, \<open>Poll\<close> (\<open>bidpolicy.py\<close>): the snapshot of one tick, the
    rescue and re-bid ladder, the replacement rental, the bid moves and the tick function \<open>poll\<close>.
  \<^item> \<open>LadderCore\<close> (\<open>ladder_core.py\<close>): the state both supervision lanes keep about the standing bid;
    the contract of a floor guard (\<open>floor_guard\<close>).
  \<^item> \<open>Handoff\<close> (\<open>bidpolicy.py\<close>) and \<open>HandoffDrive\<close> (\<open>vastlib/supervise/handoff.py\<close>): the migration
    state machine and the run lane's driver around it. A tick takes the carried sub-state, the lane
    and the answers of the outside world, and returns the new state and the list of calls it makes.
    \<open>JobHandoff\<close> and \<open>JobHandoffSafety\<close>: the jobs lane's driver around the same machine, with the tickets it
    moves and the fence signals it reads from the logs of the jobs.
  \<^item> \<open>Durability\<close> (\<open>parked_lifecycle.py\<close>): is the work of a parked box safe, may a box be destroyed.
  \<^item> \<open>WorkflowSpec\<close> and \<open>WorkflowMeta\<close> (\<open>vastlib/workflows/spec.py\<close>, \<open>meta.py\<close>): the workflow DSL and
    its validation; the controller's event fold, readiness, retry and takeover (\<open>dependency_gate\<close> is
    what readiness needs of the validator).
  \<^item> \<open>WorkflowCtl\<close>, \<open>WorkflowRun\<close> and \<open>WorkflowSafety\<close> (\<open>vastlib/workflows/ctl.py\<close>): the workflow
    controller. Its log, boxes and objects (\<open>ctl_state\<close>), the operations of a tick and \<open>reconcile_tick\<close> as
    programs over them and the queue of \<open>JobQueue\<close>; \<open>abides\<close> says which events and calls a program may
    make, with a rule per construct and per operation; \<open>ctl_run\<close> is any interleaving of controllers.
  \<^item> \<open>JobFold\<close> (\<open>jobmeta.py\<close>): the event log of one job in the queue, its status as a machine over the
    ordered events, box events, markers (two more folds of the contract \<open>event_fold\<close>).
  \<^item> \<open>JobTime\<close> (\<open>runmeta.py\<close>) and \<open>JobQueue\<close> (\<open>jobmeta.py\<close>): timestamps, and the operations that move a
    job's ticket between boxes and the dead-letter box, as state-monad programs over the bucket whose
    calls may be served, refused or left in doubt.
  \<^item> \<open>CkptRetention\<close> (\<open>ckpt_retention.py\<close>): which checkpoints of an ended job may be deleted.
  \<^item> \<open>Credentials\<close> and \<open>BrokerDaemon\<close> (\<open>credbroker.py\<close>, \<open>credbrokerd.py\<close>, \<open>b2_mint_key.py\<close>): the broker that
    hands storage keys to boxes; its persisted state, request handlers and bucket sweep.
  \<^item> \<open>HostRep\<close> (\<open>vastlib/market/hostrep.py\<close>, \<open>vastlib/core/acctfault.py\<close>): the durable memory of bad
    machines. The store with its strikes, holds and lifted blocks, the score, the verdicts and the ranking of
    offers; the refusals that are the account's own fault.
  \<^item> \<open>Offers\<close> (\<open>vastlib/market/offers.py\<close>, \<open>replacement.py\<close>, \<open>disksize.py\<close>): the offer search. The queries that
    \<open>pick_offers\<close> makes of vast, what it drops from an answer and how it orders the rest, and the candidates
    of a replacement (\<open>job_replacement_offers\<close>). The answer to a query is the parameter \<open>om_search\<close>.
  \<^item> \<open>QueueMove\<close>, \<open>EvictReplace\<close> and \<open>EvictSafety\<close> (\<open>vastlib/supervise/replacement.py\<close>, \<open>retention.py\<close>): the
    eviction ladder of the jobs lane. The bulk move of a queue, the candidate walk, the re-bid rung and the
    driver \<open>job_eviction_replace\<close> over the policy of \<open>Replacement\<close>; a run records its calls in \<open>es_io\<close>.
  \<^item> \<open>Salvage\<close>, \<open>Retention\<close> and \<open>SalvageSafety\<close> (\<open>vastlib/boxes/salvage.py\<close>, \<open>supervise/retention.py\<close>): what
    happens to a lost box. The reading of its disk listings, what is copied, the salvage record (\<open>salv_rec\<close>)
    a tick advances from pending over copying to done, and the hold (\<open>held_box\<close>) a sweep keeps asleep and
    destroys when its window and grace are over.
  \<^item> \<open>JobBoot\<close>, \<open>JobLane\<close> and \<open>JobLaneSafety\<close> (\<open>vastlib/supervise/job_lane.py\<close>, \<open>replacement.py\<close>, \<open>boxes/health.py\<close>,
    \<open>notify.py\<close>): the jobs lane of the supervisor. How fast a box pulls its image and what becomes of one that
    does not come up; one tick of a watch (\<open>job_supervise_tick\<close>) over its state \<open>jobs_lane\<close>, from the exits over the
    market and the bid moves to the ladder of \<open>EvictReplace\<close>, with the hold of \<open>Retention\<close>; \<open>supervise\<close> repeats it.
    A step either ends the tick or goes on (\<open>lane_step\<close>), and \<open>settles\<close> is its contract.
  \<^item> \<open>FleetState\<close>, \<open>FleetTick\<close>, \<open>FleetSafety\<close> and \<open>FleetCaps\<close> (\<open>vastlib/fleet/daemon.py\<close>, \<open>rows.py\<close>,
    \<open>vastlib/core/labels.py\<close>): the fleet daemon. Its watches, spend ceilings, destroy requests and strays
    (\<open>fleet\<close>), the requests it serves and the reconcile pass \<open>fleet_tick\<close>; the contracts
    \<open>fleet_frame\<close>, \<open>fleet_frame_reg\<close> and \<open>fleet_frame_all\<close> say what a relation must survive to hold
    between any two states of the daemon, and are interpreted for the ledger, the caps and the calls.

  What the lemmas show. Prices: no quote passes the operator's cap, the on-demand line or the
  minimum runtime the budget must sustain, and the quotes have closed forms. Echoes: the guard
  returns the cheapest row that is not our own bid, for a whole marketplace lag. Ticks: the hard
  caps come before money, a move is a fixed point of the policy, an ended run is left alone.
  Migration: an invariant of every reachable state, what each destructive call has behind it, and
  that no phase outlives its clock. Folds: order does not matter, terminal events are sticky or
  ranked. Durability: exact characterisations of the verdicts that allow a deletion. Workflows: the
  dependency check is exact and total, and a controller of an accepted workflow is never stuck; while the log can
  be read, in any run of its controllers no stage is touched before the ones it comes after have succeeded, jobs
  stay within the bound on attempts, boxes are touched only with a reason, and success means all is done and
  released. Queue:
  no move loses a ticket or changes what it runs, whatever calls fail. Retention: a deletion passed
  every gate and spares the newest checkpoint. Broker: a request is answered once, to the box whose
  launch nonce proves it, with keys that stay in their role. Host reputation: every operation keeps the
  store well formed, a block has a recent cause, the score halves per fortnight, the ranking is a stable
  sort. Offers: what a search hands back has passed every test, and second choices come only when the first are
  dry. Evictions: a lost box is replaced completely, its queue moved, or left alone, at most as often as the cap
  allows over any sequence of runs, never on an excluded machine. Lost boxes: salvaged means read on both disks, a
  salvage ends, a held box is destroyed only after its window, is put to sleep a bounded number of times and is let go
  once no reason is left. Jobs lane: a bid stays inside the rails of its tick, a box
  is parked or given up only for a reason that was read, a spent budget buys nothing, a box that is gone is
  answered at once, and the boxes of a watch are bounded. Fleet: a box is destroyed only on a request whose
  condition was confirmed, the ledger never forgets a spend, an exhausted ceiling stops the ladder,
  every adopted box is capped and a successor stays under its predecessor's ceiling.

  Conventions. Floats are exact rationals; only the binary representation error is abstracted, and
  \<open>round\<close>, \<open>ceil\<close> and the comparison slacks are kept. A value that may be missing is an \<open>option\<close>;
  a zero that Python treats as missing is written out. Reason strings are constructors. Errors are
  values. Code outside the repository (the vast API, the bucket, \<open>sha256\<close>) is a parameter or an
  answer record.

  Bounds and fuel. The only fuel is in the dependency search \<open>visit\<close>: as many units as there are
  stages, and \<open>check_acyclic_total\<close> shows they always suffice. The bid history is bounded by
  \<open>BID_HISTORY_MAX\<close>. The key stream takes one turn per byte, enough since a digest is not empty.
  Python's recursion limit on the search (a dependency chain of about a thousand stages) is not modelled.

  Not modelled: HTTP, ssh, subprocess and bucket transport; printing, alarms, journals and argument
  parsing; dry runs of the migration drivers; in the supervision drivers the run lane's
  loop and the boot condemnation of serving boxes; the tick of the jobs lane takes what its migration driver and the
  fleet pass what a watch's ladder answers, each modelled on its own; controllers of one workflow interleave at whole ticks; the fleet daemon's socket server and views;
  the workflow controller's planning, canaries and live observers; the offer search of the command line; measurement
  and probe tools; on-box agents; static fact tables.
\<close>

section \<open>From the event log to the tick\<close>

text \<open>C37. A run that has ended is never touched again: if the current epoch of its event log holds a terminal
  event, the tick over the folded view stops, whatever the instance, the market, the clocks and the
  budget say; so it never moves a bid and never rents another box.\<close>

theorem ended_run_is_left_alone:
  assumes "e \<in> set (last_epoch (order_events (List.map_filter coerce raws)))"
    "ev_event e \<in> {''done'', ''failed''}"
  shows "poll (s\<lparr>ps_view := Some (fold_events show_iid live raws)\<rparr>)
      = StopTerminal (TerminalStatus (Some (rv_status (fold_events show_iid live raws))))
    \<and> rv_status (fold_events show_iid live raws) \<in> {''done'', ''failed''}"
proof -
  let ?es = "order_events (List.map_filter coerce raws)"
  have "?es \<noteq> []" using assms(1) by auto
  then have st: "rv_status (fold_events show_iid live raws) = epoch_status (last_epoch ?es)"
    by (simp add: fold_events_def rv_status_fold)
  have "ev_event e \<in> set (map ev_event (last_epoch ?es))" using assms(1) by simp
  then have t: "epoch_status (last_epoch ?es) \<in> {''done'', ''failed''}"
    using assms(2) epoch_status_done [of "last_epoch ?es"] epoch_status_failed [of "last_epoch ?es"] by auto
  then have "final_status (Some (epoch_status (last_epoch ?es))) pending marker inst
      = \<lparr>fv_status = Some (epoch_status (last_epoch ?es)), fv_terminal = True,
         fv_display = epoch_status (last_epoch ?es)\<rparr>" for pending marker inst
    by (auto simp: final_status_def TERMINAL_def)
  then show ?thesis using t st by (simp add: poll_def ps_verdict_def)
qed

theorem ended_run_is_left_alone_witness:
  "poll (evicted_state\<lparr>ps_view := Some (fold_events (\<lambda>_. ''7'') {} sample_log)\<rparr>) = StopTerminal (TerminalStatus (Some ''done''))"
proof -
  let ?es = "order_events (List.map_filter coerce sample_log)"
  have l: "map ev_event (last_epoch ?es) = [''launched'', ''checkpoint'', ''done'']" by code_simp
  have "''done'' \<in> set (map ev_event (last_epoch ?es))" unfolding l by simp
  then obtain x where x: "''done'' = ev_event x" "x \<in> set (last_epoch ?es)" unfolding set_map by (rule imageE)
  have e: "ev_event x \<in> {''done'', ''failed''}" using x(1) [symmetric] by simp
  have r: "rv_status (fold_events (\<lambda>_. ''7'') {} sample_log) = ''done''" by code_simp
  show ?thesis using ended_run_is_left_alone [OF x(2) e, where s = evicted_state and show_iid = "\<lambda>_. ''7''" and live = "{}"] by (simp add: r)
qed

end
